(* ===== verification/Prelude.thy ===== *)
theory Prelude
  imports Main "HOL-Library.Word"
begin

text \<open>
  Shared vocabulary of the development: the machine integers of the C code, the return
  codes of \<open>xy_utils.h\<close>, the result type of code that may stop the system instead of
  returning, byte-addressed memory with block reads and writes, and little-endian
  32-bit accesses.  The lemmas are about this vocabulary only; each component theory
  adds its own.
\<close>

unbundle bit_operations_syntax

section \<open>Collections of facts used as simplification sets\<close>

named_theorems res_simps \<open>evaluation of the result monad\<close>
named_theorems mem_simps \<open>block reads and writes of byte memory\<close>

section \<open>Machine integers and return codes\<close>

type_synonym u8 = "8 word"
type_synonym u16 = "16 word"
type_synonym u32 = "32 word"
type_synonym u64 = "64 word"

datatype xy_ret_Status_t =
    XY_OK
  | XY_ERR
  | XY_Err_Timeout
  | XY_Err_NoConnected
  | XY_Err_Parameter
  | XY_Err_NoMemory
  | XY_Err_NotAllowed
  | XY_Err_LowVbat

lemma u8_le_255: "unat (b :: u8) \<le> 255"
proof -
  have "unat b < 2 ^ LENGTH(8)" by (rule unsigned_less)
  then show ?thesis by simp
qed

lemma u8_uint_le_255: "uint (b :: u8) \<le> 255"
proof -
  have "uint b < 2 ^ LENGTH(8)" by (rule unsigned_less)
  then show ?thesis by simp
qed

lemma u32_less: "unat (w :: u32) < 4294967296"
proof -
  have "unat w < 2 ^ LENGTH(32)" by (rule unsigned_less)
  then show ?thesis by simp
qed

lemma unat_of_nat32: "k < 2 ^ 32 \<Longrightarrow> unat (of_nat k :: u32) = k"
  by (simp add: unat_of_nat take_bit_eq_mod)

section \<open>Code that may not return\<close>

text \<open>
  \<open>xy_assert\<close> stops the system when its condition fails, \<open>soft_reset_by_wdt\<close> resets it,
  a loop may never end, and an access outside an object or an overflow of a signed integer has no
  defined result.  Each is
  a value of \<open>fault\<close>; a function of the code that can meet one of them returns
  \<open>fault + 'a\<close>.
\<close>

datatype rb_type =
    RB_BY_ASSERT | RB_BY_NRB | RB_BY_RESET | RB_BY_POWERTEST | RB_BY_FOTA | RB_BY_LOW_VOL

datatype fault =
    AssertFail
  | SocReset rb_type
  | NonReturn
  | BadAccess
  | SignedOverflow

type_synonym 'a res = "fault + 'a"

definition bind_res :: "'a res \<Rightarrow> ('a \<Rightarrow> 'b res) \<Rightarrow> 'b res" where
  "bind_res m f = (case m of Inl e \<Rightarrow> Inl e | Inr x \<Rightarrow> f x)"

definition xy_assert :: "bool \<Rightarrow> unit res" where
  "xy_assert c = (if c then Inr () else Inl AssertFail)"

lemma bind_res_Inr [simp, res_simps]: "bind_res (Inr x) f = f x"
  by (simp add: bind_res_def)

lemma bind_res_Inl [simp, res_simps]: "bind_res (Inl e) f = Inl e"
  by (simp add: bind_res_def)

lemma xy_assert_True [simp, res_simps]: "xy_assert True = Inr ()"
  by (simp add: xy_assert_def)

lemma xy_assert_False [simp, res_simps]: "xy_assert False = Inl AssertFail"
  by (simp add: xy_assert_def)

lemma xy_assert_eq_Inr [simp]: "xy_assert c = Inr u \<longleftrightarrow> c"
  by (simp add: xy_assert_def)

lemma bind_res_eq_Inr: "bind_res m f = Inr y \<longleftrightarrow> (\<exists>x. m = Inr x \<and> f x = Inr y)"
  by (cases m) auto

lemma bind_res_eq_Inl: "bind_res m f = Inl e \<longleftrightarrow> m = Inl e \<or> (\<exists>x. m = Inr x \<and> f x = Inl e)"
  by (cases m) auto

lemma bind_res_assoc: "bind_res (bind_res m f) g = bind_res m (\<lambda>x. bind_res (f x) g)"
  by (cases m) simp_all

section \<open>Byte-addressed memory\<close>

type_synonym mem = "nat \<Rightarrow> u8"

definition mem_read :: "mem \<Rightarrow> nat \<Rightarrow> nat \<Rightarrow> u8 list" where
  "mem_read m a n = map (\<lambda>i. m (a + i)) [0..<n]"

definition mem_write :: "mem \<Rightarrow> nat \<Rightarrow> u8 list \<Rightarrow> mem" where
  "mem_write m a d = (\<lambda>x. if a \<le> x \<and> x < a + length d then d ! (x - a) else m x)"

lemma length_mem_read [simp]: "length (mem_read m a n) = n"
  by (simp add: mem_read_def)

lemma nth_mem_read [simp]: "i < n \<Longrightarrow> mem_read m a n ! i = m (a + i)"
  by (simp add: mem_read_def)

lemma mem_read_0 [simp]: "mem_read m a 0 = []"
  by (simp add: mem_read_def)

lemma mem_write_Nil [simp]: "mem_write m a [] = m"
  by (rule ext) (auto simp: mem_write_def)

lemma mem_write_inside: "i < length d \<Longrightarrow> mem_write m a d (a + i) = d ! i"
  by (simp add: mem_write_def)

lemma mem_write_outside: "x < a \<or> a + length d \<le> x \<Longrightarrow> mem_write m a d x = m x"
  by (auto simp: mem_write_def)

lemma mem_read_write_same [simp, mem_simps]: "mem_read (mem_write m a d) a (length d) = d"
  by (rule nth_equalityI) (simp_all add: mem_write_def)

lemma mem_read_write_disjoint [mem_simps]:
  "a + n \<le> b \<or> b + length d \<le> a \<Longrightarrow> mem_read (mem_write m b d) a n = mem_read m a n"
  by (rule nth_equalityI) (auto simp: mem_write_def)

lemma mem_read_write_inside:
  assumes "b \<le> a" "a + n \<le> b + length d"
  shows "mem_read (mem_write m b d) a n = take n (drop (a - b) d)"
  using assms by (intro nth_equalityI) (auto simp: mem_write_def)

lemma mem_write_append [mem_simps]:
  "mem_write (mem_write m a xs) (a + length xs) ys = mem_write m a (xs @ ys)"
  by (auto simp: mem_write_def fun_eq_iff nth_append)

lemma mem_write_over [mem_simps]:
  "length d = length e \<Longrightarrow> mem_write (mem_write m a d) a e = mem_write m a e"
  by (auto simp: mem_write_def fun_eq_iff)

lemma mem_write_read_id [simp]: "mem_write m a (mem_read m a n) = m"
  by (auto simp: mem_write_def fun_eq_iff)

lemma take_mem_read: "k \<le> n \<Longrightarrow> take k (mem_read m a n) = mem_read m a k"
  by (rule nth_equalityI) auto

lemma drop_mem_read: "k \<le> n \<Longrightarrow> drop k (mem_read m a n) = mem_read m (a + k) (n - k)"
  by (rule nth_equalityI) (auto simp: add.assoc)

lemma mem_read_cong: "(\<And>i. i < n \<Longrightarrow> m (a + i) = m' (a + i)) \<Longrightarrow> mem_read m a n = mem_read m' a n"
  by (simp add: mem_read_def)

section \<open>Buffers: lists of bytes written at an offset\<close>

text \<open>\<open>memcpy (buf + off, d, length d)\<close>\<close>

definition blit :: "'a list \<Rightarrow> nat \<Rightarrow> 'a list \<Rightarrow> 'a list" where
  "blit b off d = take off b @ d @ drop (off + length d) b"

lemma length_blit [simp]: "off + length d \<le> length b \<Longrightarrow> length (blit b off d) = length b"
  by (simp add: blit_def)

lemma nth_blit:
  "off + length d \<le> length b \<Longrightarrow> i < length b \<Longrightarrow>
     blit b off d ! i = (if off \<le> i \<and> i < off + length d then d ! (i - off) else b ! i)"
  by (auto simp: blit_def nth_append min_def)

lemma blit_read_same [simp]:
  "off + length d \<le> length b \<Longrightarrow> take (length d) (drop off (blit b off d)) = d"
  by (simp add: blit_def)

lemma blit_read_disjoint:
  "off + length d \<le> length b \<Longrightarrow> p + n \<le> off \<or> off + length d \<le> p \<Longrightarrow> p + n \<le> length b \<Longrightarrow>
     take n (drop p (blit b off d)) = take n (drop p b)"
  by (intro nth_equalityI) (auto simp: nth_blit)

lemma blit_take_below:
  "off + length d \<le> length b \<Longrightarrow> n \<le> off \<Longrightarrow> take n (blit b off d) = take n b"
  using blit_read_disjoint [of off d b 0 n] by simp

lemma blit_same_content:
  "off + length d \<le> length b \<Longrightarrow> take (length d) (drop off b) = d \<Longrightarrow> blit b off d = b"
  unfolding blit_def by (metis append_take_drop_id drop_drop add.commute)

lemma mem_write_blit:
  assumes "off + length d \<le> n"
  shows "mem_write m a (blit (mem_read m a n) off d) = mem_write m (a + off) d"
  using assms by (auto simp: mem_write_def fun_eq_iff nth_blit add.commute)

section \<open>Little-endian 32-bit values\<close>

definition u32_of :: "u8 \<Rightarrow> u8 \<Rightarrow> u8 \<Rightarrow> u8 \<Rightarrow> u32" where
  "u32_of b0 b1 b2 b3 =
     ucast b0 OR push_bit 8 (ucast b1) OR push_bit 16 (ucast b2) OR push_bit 24 (ucast b3)"

definition bytes_of_u32 :: "u32 \<Rightarrow> u8 list" where
  "bytes_of_u32 v = [ucast v, ucast (drop_bit 8 v), ucast (drop_bit 16 v), ucast (drop_bit 24 v)]"

definition load32 :: "mem \<Rightarrow> nat \<Rightarrow> u32" where
  "load32 m a = u32_of (m a) (m (a + 1)) (m (a + 2)) (m (a + 3))"

definition get32 :: "u8 list \<Rightarrow> nat \<Rightarrow> u32" where
  "get32 b off = u32_of (b ! off) (b ! (off + 1)) (b ! (off + 2)) (b ! (off + 3))"

definition put32 :: "u8 list \<Rightarrow> nat \<Rightarrow> u32 \<Rightarrow> u8 list" where
  "put32 b off v = blit b off (bytes_of_u32 v)"

lemma length_bytes_of_u32 [simp]: "length (bytes_of_u32 v) = 4"
  by (simp add: bytes_of_u32_def)

lemma u32_of_bytes: "u32_of (ucast v) (ucast (drop_bit 8 v)) (ucast (drop_bit 16 v)) (ucast (drop_bit 24 v)) = v"
proof (rule bit_word_eqI)
  fix n assume "n < LENGTH(32)"
  then consider "n < 8" | "8 \<le> n" "n < 16" | "16 \<le> n" "n < 24" | "24 \<le> n" "n < 32"
    by fastforce
  then show "bit (u32_of (ucast v) (ucast (drop_bit 8 v)) (ucast (drop_bit 16 v)) (ucast (drop_bit 24 v))) n
      = bit v n"
    by cases (auto simp: u32_of_def bit_simps)
qed

lemma u32_of_inject:
  "u32_of a0 a1 a2 a3 = u32_of b0 b1 b2 b3 \<longleftrightarrow> a0 = b0 \<and> a1 = b1 \<and> a2 = b2 \<and> a3 = b3"
proof
  assume eq: "u32_of a0 a1 a2 a3 = u32_of b0 b1 b2 b3"
  have b: "bit (u32_of a0 a1 a2 a3) n = bit (u32_of b0 b1 b2 b3) n" for n by (simp add: eq)
  have byte: "bit (u32_of c0 c1 c2 c3) n = bit c0 n"
    "bit (u32_of c0 c1 c2 c3) (n + 8) = bit c1 n"
    "bit (u32_of c0 c1 c2 c3) (n + 16) = bit c2 n"
    "bit (u32_of c0 c1 c2 c3) (n + 24) = bit c3 n" if "n < 8" for n c0 c1 c2 c3
    using that by (auto simp: u32_of_def bit_simps dest: bit_imp_le_length)
  have *: "bit a0 n = bit b0 n \<and> bit a1 n = bit b1 n \<and> bit a2 n = bit b2 n \<and> bit a3 n = bit b3 n"
    if "n < 8" for n
    using byte [OF that, of a0 a1 a2 a3] byte [OF that, of b0 b1 b2 b3]
      b [of n] b [of "n + 8"] b [of "n + 16"] b [of "n + 24"] by simp
  have "a0 = b0" by (rule bit_word_eqI) (simp add: *)
  moreover have "a1 = b1" by (rule bit_word_eqI) (simp add: *)
  moreover have "a2 = b2" by (rule bit_word_eqI) (simp add: *)
  moreover have "a3 = b3" by (rule bit_word_eqI) (simp add: *)
  ultimately show "a0 = b0 \<and> a1 = b1 \<and> a2 = b2 \<and> a3 = b3" by simp
qed simp

lemma get32_put32_same [simp]:
  assumes "off + 4 \<le> length b"
  shows "get32 (put32 b off v) off = v"
proof -
  have "put32 b off v ! (off + k) = bytes_of_u32 v ! k" if "k < 4" for k
    using assms that by (simp add: put32_def nth_blit)
  from this [of 0] this [of 1] this [of 2] this [of 3] show ?thesis
    by (simp add: get32_def bytes_of_u32_def u32_of_bytes)
qed

lemma get32_cong: "take 4 (drop off b) = take 4 (drop off c) \<Longrightarrow> off + 4 \<le> length b \<Longrightarrow> off + 4 \<le> length c
    \<Longrightarrow> get32 b off = get32 c off"
proof -
  assume eq: "take 4 (drop off b) = take 4 (drop off c)"
    and l: "off + 4 \<le> length b" "off + 4 \<le> length c"
  have "b ! (off + k) = c ! (off + k)" if "k < 4" for k
    using arg_cong [OF eq, of "\<lambda>xs. xs ! k"] that l by simp
  from this [of 0] this [of 1] this [of 2] this [of 3] show ?thesis
    by (simp add: get32_def)
qed

lemma get32_blit_disjoint:
  assumes "off + length d \<le> length b" "p + 4 \<le> off \<or> off + length d \<le> p" "p + 4 \<le> length b"
  shows "get32 (blit b off d) p = get32 b p"
  using assms by (intro get32_cong blit_read_disjoint) simp_all

lemma get32_take: "off + 4 \<le> n \<Longrightarrow> get32 (take n b) off = get32 b off"
  by (simp add: get32_def)

lemma get32_mem_read: "off + 4 \<le> n \<Longrightarrow> get32 (mem_read m a n) off = load32 m (a + off)"
  by (simp add: get32_def load32_def add.assoc)

lemma load32_mem_write_inside:
  assumes "b \<le> a" "a + 4 \<le> b + length d"
  shows "load32 (mem_write m b d) a = get32 d (a - b)"
proof -
  have "mem_write m b d (a + k) = d ! (a - b + k)" if "k < 4" for k
    using assms that by (simp add: mem_write_def)
  from this [of 0] this [of 1] this [of 2] this [of 3] show ?thesis
    by (simp add: load32_def get32_def)
qed

lemma load32_mem_write_outside:
  "a + 4 \<le> b \<or> b + length d \<le> a \<Longrightarrow> load32 (mem_write m b d) a = load32 m a"
  by (auto simp: load32_def mem_write_def)

section \<open>Decimal digits\<close>

text \<open>The characters that \<open>%u\<close> of \<open>sprintf\<close> writes.\<close>

fun dec_digits :: "nat \<Rightarrow> u8 list" where
  "dec_digits n = (if n < 10 then [of_nat (48 + n)] else dec_digits (n div 10) @ [of_nat (48 + n mod 10)])"

declare dec_digits.simps [simp del]

lemma length_dec_digits_le: "n < 10 ^ k \<Longrightarrow> 0 < k \<Longrightarrow> length (dec_digits n) \<le> k"
proof (induction k arbitrary: n)
  case (Suc k)
  show ?case
  proof (cases "n < 10")
    case True
    then show ?thesis by (simp add: dec_digits.simps [of n])
  next
    case False
    then have "0 < k" using Suc.prems by (cases k) auto
    moreover have "n div 10 < 10 ^ k" using Suc.prems by (simp add: less_mult_imp_div_less mult.commute)
    ultimately have "length (dec_digits (n div 10)) \<le> k" using Suc.IH by blast
    then show ?thesis using False by (simp add: dec_digits.simps [of n])
  qed
qed simp

lemma length_dec_digits_pos [simp]: "0 < length (dec_digits n)"
  by (subst dec_digits.simps) simp

end
