(* ===== verification/Utils.thy ===== *)
theory Utils
  imports Prelude
begin

text \<open>
  \<open>SYSLIB/system/src/xy_utils.c\<close>: the pseudo random generator, the 16-bit
  one's-complement style checksum that guards every flash page, the hex string
  conversions of the AT commands and the byte reversal of 32-bit words.  A C buffer is
  the list of its bytes; a length argument that can differ from the buffer's is kept.
\<close>

section \<open>xy_srand, xy_rand\<close>

definition xy_srand :: "u32 \<Rightarrow> u64" where
  "xy_srand key = ucast key"

definition xy_rand :: "u64 \<Rightarrow> u32 \<times> u64" where
  "xy_rand xy_rand_next =
     (let nxt = xy_rand_next * 6364136223846793005 + 1
      in (ucast (drop_bit 32 nxt AND 0x7fffffff), nxt))"

lemma xy_rand_nonneg: "0 \<le> sint (fst (xy_rand s))"
proof -
  have "\<not> bit (fst (xy_rand s)) 31"
    by (auto simp: xy_rand_def Let_def bit_simps)
  then show ?thesis
    using bit_last_iff [of "fst (xy_rand s)"] by simp
qed

section \<open>xy_chksum\<close>

definition be16 :: "u8 \<Rightarrow> u8 \<Rightarrow> u16" where
  "be16 hi lo = push_bit 8 (ucast hi) OR ucast lo"

fun chksum_acc :: "u8 list \<Rightarrow> u32 \<Rightarrow> u32" where
  "chksum_acc (hi # lo # rest) acc = chksum_acc rest (acc + ucast (be16 hi lo))"
| "chksum_acc [hi] acc = acc + ucast (be16 hi 0)"
| "chksum_acc [] acc = acc"

definition chksum_fold :: "u32 \<Rightarrow> u32" where
  "chksum_fold acc = drop_bit 16 acc + (acc AND 0xffff)"

definition xy_chksum :: "u8 list \<Rightarrow> u32" where
  "xy_chksum dataptr =
     (let acc = chksum_fold (chksum_acc dataptr 0);
          acc = (if acc AND 0xffff0000 \<noteq> 0 then chksum_fold acc else acc)
      in NOT acc)"

text \<open>The sum of the big-endian 16-bit words, as a number.\<close>

fun be_sum :: "u8 list \<Rightarrow> nat" where
  "be_sum (hi # lo # rest) = 256 * unat hi + unat lo + be_sum rest"
| "be_sum [hi] = 256 * unat hi"
| "be_sum [] = 0"

lemma be_sum_bound: "be_sum d \<le> 65535 * ((length d + 1) div 2)"
proof (induction d rule: be_sum.induct)
  case (1 hi lo rest)
  with u8_le_255 [of hi] u8_le_255 [of lo] show ?case by simp
next
  case (2 hi)
  with u8_le_255 [of hi] show ?case by simp
qed simp

lemma unat_be16: "unat (be16 hi lo) = 256 * unat hi + unat lo"
proof -
  have "be16 hi lo = push_bit 8 (ucast hi) + ucast lo"
    unfolding be16_def
    by (rule sym, rule disjunctive_add) (auto simp: bit_simps dest: bit_imp_le_length)
  then show ?thesis
    using u8_le_255 [of hi] u8_le_255 [of lo]
    by (simp add: push_bit_eq_mult unat_word_ariths unsigned_ucast_eq take_bit_eq_mod)
qed

lemma unat_chksum_acc: "unat (chksum_acc d acc) = (unat acc + be_sum d) mod 2 ^ 32"
proof (induction d acc rule: chksum_acc.induct)
  case (1 hi lo rest acc)
  have "unat (ucast (be16 hi lo) :: u32) = 256 * unat hi + unat lo"
    using u8_le_255 [of hi] u8_le_255 [of lo]
    by (simp add: unat_be16 unsigned_ucast_eq take_bit_eq_mod)
  with 1 show ?case
    by (simp add: unat_word_ariths mod_simps add.assoc)
next
  case (2 hi acc)
  have "unat (ucast (be16 hi 0) :: u32) = 256 * unat hi"
    using u8_le_255 [of hi]
    by (simp add: unat_be16 unsigned_ucast_eq take_bit_eq_mod)
  then show ?case by (simp add: unat_word_ariths)
qed (simp add: u32_less)

lemma unat_chksum_fold: "unat (chksum_fold acc) = unat acc div 65536 + unat acc mod 65536"
proof -
  have "acc AND 0xffff = take_bit 16 acc"
    by (simp add: take_bit_eq_mask mask_numeral)
  then have low: "unat (acc AND 0xffff) = unat acc mod 65536"
    by (simp add: take_bit_eq_mod unat_mod_distrib)
  have high: "unat (drop_bit 16 acc) = unat acc div 65536"
    by (simp add: drop_bit_eq_div unat_div_distrib)
  have "unat acc div 65536 + unat acc mod 65536 < 4294967296"
    using u32_less [of acc] by simp
  then show ?thesis by (simp add: chksum_fold_def unat_word_ariths low high)
qed

lemma high_half_zero: "(acc :: u32) AND 0xffff0000 = 0 \<longleftrightarrow> unat acc < 65536"
proof -
  have m: "(0xffff0000 :: u32) = push_bit 16 (mask 16)"
    by (simp add: mask_numeral push_bit_eq_mult)
  have "acc AND 0xffff0000 = push_bit 16 (drop_bit 16 acc)"
    unfolding m by (rule bit_word_eqI) (auto simp: bit_simps)
  moreover have "push_bit 16 (drop_bit 16 acc) = 0 \<longleftrightarrow> drop_bit 16 acc = 0"
  proof
    assume "push_bit 16 (drop_bit 16 acc) = 0"
    then have "drop_bit 16 (push_bit 16 (drop_bit 16 acc)) = (0 :: u32)" by simp
    moreover have "drop_bit 16 (push_bit 16 (drop_bit 16 acc)) = drop_bit 16 acc"
      by (rule bit_word_eqI) (auto simp: bit_simps dest: bit_imp_le_length)
    ultimately show "drop_bit 16 acc = 0" by simp
  qed simp
  moreover have "drop_bit 16 acc = 0 \<longleftrightarrow> unat (drop_bit 16 acc) = 0"
    by (simp add: unat_eq_zero)
  moreover have "unat (drop_bit 16 acc) = unat acc div 65536"
    by (simp add: unsigned_drop_bit_eq drop_bit_eq_div unat_div_distrib)
  ultimately show ?thesis by (simp add: div_eq_0_iff)
qed

definition chksum_sum :: "u8 list \<Rightarrow> nat" where
  "chksum_sum d = unat (NOT (xy_chksum d))"

lemma chksum_eq_iff: "xy_chksum d = xy_chksum e \<longleftrightarrow> chksum_sum d = chksum_sum e"
  by (simp add: chksum_sum_def word_unat_eq_iff [symmetric])

lemma fold_mod_65535: "(n div 65536 + n mod 65536) mod 65535 = n mod (65535 :: nat)"
proof -
  have "n = 65535 * (n div 65536) + (n div 65536 + n mod 65536)" by simp
  then show ?thesis by (metis mod_mult_self4)
qed

lemma chksum_sum_bound_mod:
  "chksum_sum d < 65536 \<and> chksum_sum d mod 65535 = (be_sum d mod 2 ^ 32) mod 65535"
proof -
  let ?a = "chksum_acc d 0" and ?f = "chksum_fold (chksum_acc d 0)"
  have a: "unat ?a = be_sum d mod 2 ^ 32" by (simp add: unat_chksum_acc)
  have f: "unat ?f = unat ?a div 65536 + unat ?a mod 65536" by (rule unat_chksum_fold)
  have fb: "unat ?f \<le> 131070" unfolding f using u32_less [of ?a] by simp
  show ?thesis
  proof (cases "?f AND 0xffff0000 = 0")
    case True
    then have "chksum_sum d = unat ?f" by (simp add: chksum_sum_def xy_chksum_def Let_def)
    with True show ?thesis
      by (simp add: high_half_zero f a fold_mod_65535)
  next
    case False
    then have "chksum_sum d = unat (chksum_fold ?f)"
      by (simp add: chksum_sum_def xy_chksum_def Let_def)
    then have eq: "chksum_sum d = unat ?f div 65536 + unat ?f mod 65536"
      by (simp add: unat_chksum_fold)
    from False have "65536 \<le> unat ?f" by (simp add: high_half_zero)
    with fb have "unat ?f div 65536 = 1" by (simp add: div_nat_eqI)
    with fb \<open>65536 \<le> unat ?f\<close> have "chksum_sum d < 65536"
      unfolding eq by (simp add: modulo_nat_def)
    moreover have "chksum_sum d mod 65535 = unat ?a mod 65535"
      unfolding eq by (simp only: fold_mod_65535 f)
    ultimately show ?thesis by (simp add: a)
  qed
qed

lemma xy_chksum_nonzero: "xy_chksum d \<noteq> 0"
proof
  assume "xy_chksum d = 0"
  then have "chksum_sum d = unat (- 1 :: u32)" by (simp add: chksum_sum_def)
  also have "(- 1 :: u32) = 0xFFFFFFFF" by simp
  finally have "chksum_sum d = 4294967295" by simp
  with chksum_sum_bound_mod [of d] show False by simp
qed

text \<open>A change of a single byte changes the checksum.\<close>

lemma be_sum_update:
  assumes "i < length d"
  shows "int (be_sum (d[i := b])) = int (be_sum d) +
    (if even i then 256 else 1) * (int (unat b) - int (unat (d ! i)))"
  using assms
proof (induction d arbitrary: i rule: be_sum.induct)
  case (1 hi lo rest)
  consider "i = 0" | "i = 1" | j where "i = Suc (Suc j)" "j < length rest"
    using "1.prems" by (cases i rule: nat.exhaust) (auto simp: less_Suc_eq_0_disj)
  then show ?case
    by cases (use "1.IH" in auto)
next
  case (2 hi)
  then show ?case by simp
qed simp

lemma chksum_detects_byte_change:
  assumes i: "i < length d" and len: "length d \<le> 131070" and diff: "b \<noteq> d ! i"
  shows "xy_chksum (d[i := b]) \<noteq> xy_chksum d"
proof
  let ?w = "if even i then 256 else (1::int)"
  define x where "x = int (unat b) - int (unat (d ! i))"
  assume "xy_chksum (d[i := b]) = xy_chksum d"
  then have eq: "chksum_sum (d[i := b]) = chksum_sum d" by (simp add: chksum_eq_iff)
  have small: "be_sum e < 2 ^ 32" if "length e = length d" for e
  proof -
    have "(length e + 1) div 2 \<le> 65535" using len that by simp
    then have "be_sum e \<le> 65535 * 65535"
      using be_sum_bound [of e] mult_le_mono2 le_trans by blast
    then show ?thesis by simp
  qed
  have "be_sum (d[i := b]) mod 65535 = be_sum d mod 65535"
    using chksum_sum_bound_mod [of d] chksum_sum_bound_mod [of "d[i := b]"] eq
      small [of d] small [of "d[i := b]"] by simp
  then have "int (be_sum (d[i := b])) mod 65535 = int (be_sum d) mod 65535"
    by (metis of_nat_mod of_nat_numeral)
  then have dvd: "65535 dvd ?w * x"
    by (simp only: mod_eq_dvd_iff be_sum_update [OF i] x_def) simp
  have "x \<noteq> 0" using diff by (simp add: x_def word_uint_eq_iff)
  moreover have "\<bar>x\<bar> \<le> 255"
  proof -
    have "0 \<le> uint b" "0 \<le> uint (d ! i)" by simp_all
    with u8_uint_le_255 [of b] u8_uint_le_255 [of "d ! i"] show ?thesis
      unfolding x_def by (simp only: abs_le_iff of_nat_unat int_nat_eq uint_nat [symmetric]) linarith
  qed
  ultimately have "?w * x \<noteq> 0" "\<bar>?w * x\<bar> < 65535" by (auto simp: abs_mult)
  moreover from dvd have "65535 dvd \<bar>?w * x\<bar>" by (simp only: dvd_abs_iff)
  ultimately show False using zdvd_imp_le [of 65535 "\<bar>?w * x\<bar>"] by linarith
qed

section \<open>hexstr2bytes, bytes2hexstr\<close>

text \<open>\<open>char\<close> is unsigned on this target.  The digit of a character, or none.\<close>

definition hex_digit :: "u8 \<Rightarrow> u8 option" where
  "hex_digit c =
     (if 0x61 \<le> c \<and> c \<le> 0x66 then Some (c - 0x61 + 10)
      else if 0x30 \<le> c \<and> c \<le> 0x39 then Some (c - 0x30)
      else if 0x41 \<le> c \<and> c \<le> 0x46 then Some (c - 0x41 + 10)
      else None)"

text \<open>
  The loop of \<open>hexstr2bytes\<close>: \<open>i\<close> counts the characters still to convert; \<open>src\<close> is the
  memory from the current position on, so that the second digit of an odd length is read
  behind it, as in the code.  The bytes stored before an error stay in \<open>dst\<close>.
\<close>

fun hexstr2bytes_loop :: "nat \<Rightarrow> u8 list \<Rightarrow> u8 list \<Rightarrow> (bool \<times> u8 list) res" where
  "hexstr2bytes_loop 0 src dst = Inr (True, dst)"
| "hexstr2bytes_loop (Suc i) (c1 # c2 # src) dst =
     (case hex_digit c1 of None \<Rightarrow> Inr (False, dst)
      | Some h \<Rightarrow>
         (case hex_digit c2 of None \<Rightarrow> Inr (False, dst @ [push_bit 4 h])
          | Some l \<Rightarrow> hexstr2bytes_loop (i - 1) src (dst @ [push_bit 4 h OR l])))"
| "hexstr2bytes_loop (Suc i) src dst = Inl BadAccess"

definition hexstr2bytes :: "u8 list \<Rightarrow> int \<Rightarrow> int \<Rightarrow> (int \<times> u8 list) res" where
  "hexstr2bytes src src_len dst_size =
     (if src_len < 0 \<or> dst_size < (src_len + 1) div 2 then Inl AssertFail
      else bind_res (hexstr2bytes_loop (nat src_len) src [])
        (\<lambda>(ok, dst). Inr (if ok then src_len div 2 else -1, dst)))"

definition hex_tab :: "u8 list" where
  "hex_tab = [48,49,50,51,52,53,54,55,56,57,65,66,67,68,69,70]"

definition bytes2hexstr :: "u8 list \<Rightarrow> int \<Rightarrow> (int \<times> u8 list) res" where
  "bytes2hexstr src dst_size =
     (if dst_size \<le> int (length src) * 2 then Inl AssertFail
      else Inr (int (length src) * 2,
        concat (map (\<lambda>b. [hex_tab ! unat (drop_bit 4 b), hex_tab ! unat (b AND 15)]) src) @ [0]))"

abbreviation hex_pair :: "u8 \<Rightarrow> u8 list" where
  "hex_pair b \<equiv> [hex_tab ! unat (drop_bit 4 b), hex_tab ! unat (b AND 15)]"

lemma hex_digit_tab_nat:
  assumes "n < 16"
  shows "hex_digit (hex_tab ! n) = Some (of_nat n)"
proof -
  have "n \<in> {0, 1, 2, 3, 4, 5, 6, 7, 8, 9, 10, 11, 12, 13, 14, 15}"
    using assms unfolding insert_iff empty_iff by arith
  then show ?thesis by (auto simp: hex_digit_def hex_tab_def)
qed

lemma hex_digit_tab: "unat w < 16 \<Longrightarrow> hex_digit (hex_tab ! unat w) = Some w"
  using hex_digit_tab_nat [of "unat w"] by simp

lemma high_nibble: "unat (drop_bit 4 (b :: u8)) < 16"
  using u8_le_255 [of b] by (simp add: drop_bit_eq_div unat_div_distrib less_mult_imp_div_less)

lemma low_nibble: "unat ((b :: u8) AND 15) < 16"
proof -
  have "b AND 15 = take_bit 4 b" by (simp add: take_bit_eq_mask mask_numeral)
  then show ?thesis by (simp add: take_bit_eq_mod unat_mod_distrib)
qed

lemma nibbles_join: "push_bit 4 (drop_bit 4 (b :: u8)) OR (b AND 15) = b"
proof -
  have "b AND 15 = take_bit 4 b" by (simp add: take_bit_eq_mask mask_numeral)
  then show ?thesis
    by (simp only:) (rule bit_word_eqI, auto simp: bit_simps)
qed

lemma hexstr2bytes_loop_encode:
  "hexstr2bytes_loop (2 * length d) (concat (map hex_pair d) @ tail) acc = Inr (True, acc @ d)"
proof (induction d arbitrary: acc)
  case (Cons b d)
  then show ?case
    by (simp add: hex_digit_tab high_nibble low_nibble nibbles_join)
qed simp

section \<open>xy_rearrange_DWORD\<close>

fun rearrange_loop :: "u8 list \<Rightarrow> u8 list" where
  "rearrange_loop (a # b # c # d # rest) = d # c # b # a # rearrange_loop rest"
| "rearrange_loop rest = rest"

definition xy_rearrange_DWORD :: "u8 list \<Rightarrow> xy_ret_Status_t \<times> u8 list" where
  "xy_rearrange_DWORD data =
     (if length data mod 4 \<noteq> 0 then (XY_ERR, data) else (XY_OK, rearrange_loop data))"

lemma length_rearrange_loop [simp]: "length (rearrange_loop d) = length d"
  by (induction d rule: rearrange_loop.induct) auto

lemma rearrange_loop_involution: "rearrange_loop (rearrange_loop d) = d"
  by (induction d rule: rearrange_loop.induct) auto

end
