(* ===== verification/MemMap.thy ===== *)
theory MemMap
  imports Prelude
begin

text \<open>
  \<open>SYSLIB/system/inc/xy_memmap.h\<close> and \<open>SYSLIB/system/src/xy_mem.c\<close>: the address windows
  the two cores share, the translation between the M3's and the DSP's view of them, the
  owner of a freed block and the accounting of protocol-stack memory.  Addresses are
  32-bit words, so that the wrap-around of the translation is part of the model.
\<close>

section \<open>The windows of xy_memmap.h (M3 core)\<close>

definition FLASH_BASE :: nat where "FLASH_BASE = 0x27000000"
definition FLASH_LENGTH :: nat where "FLASH_LENGTH = 0x200000"
definition FLASH_M3_DSP_OFFSET :: nat where "FLASH_M3_DSP_OFFSET = 0x2A000000"
definition SRAM_BASE :: nat where "SRAM_BASE = 0x20000000"
definition SRAM_LENGTH :: nat where "SRAM_LENGTH = 0x60000"

definition NV_FLASH_MAIN_FACTORY_BASE :: nat where "NV_FLASH_MAIN_FACTORY_BASE = 0x27003000"
definition NV_FLASH_FACTORY_BASE :: nat where "NV_FLASH_FACTORY_BASE = 0x27004000"
definition NV_FLASH_FACTORY_LEN :: nat where "NV_FLASH_FACTORY_LEN = 0x2000"
definition NV_FLASH_DSP_VOLATILE_BASE :: nat where "NV_FLASH_DSP_VOLATILE_BASE = 0x27006000"
definition NV_FLASH_DSP_VOLATILE_LEN :: nat where "NV_FLASH_DSP_VOLATILE_LEN = 0x3000"
definition NV_FLASH_DSP_NON_VOLATILE_BASE :: nat where "NV_FLASH_DSP_NON_VOLATILE_BASE = 0x27009000"
definition NV_FLASH_DSP_NON_VOLATILE_LEN :: nat where "NV_FLASH_DSP_NON_VOLATILE_LEN = 0x2000"
definition NV_FLASH_NET_BASE :: nat where "NV_FLASH_NET_BASE = 0x2700F000"
definition NV_FLASH_NET_LEN :: nat where "NV_FLASH_NET_LEN = 0x3000"
definition FOTA_RESULT_FLASH_BASE :: nat where "FOTA_RESULT_FLASH_BASE = 0x2700C000"
definition FOTA_RESULT_FLASH_MAXLEN :: nat where "FOTA_RESULT_FLASH_MAXLEN = 0x1000"
definition FOTA_UPDATE_INFO_ADDR :: nat where "FOTA_UPDATE_INFO_ADDR = 0x270000D8"
definition VERSION_MIMG_SHA :: nat where "VERSION_MIMG_SHA = 0x270000E0"
definition ARM_FLASH_BASE_ADDR :: nat where "ARM_FLASH_BASE_ADDR = 0x2711F000"
definition FOTA_BACKUP_BASE :: nat where "FOTA_BACKUP_BASE = 0x271EC000"

lemmas memmap_defs = FLASH_BASE_def FLASH_LENGTH_def FLASH_M3_DSP_OFFSET_def SRAM_BASE_def
  SRAM_LENGTH_def NV_FLASH_MAIN_FACTORY_BASE_def NV_FLASH_FACTORY_BASE_def
  NV_FLASH_FACTORY_LEN_def NV_FLASH_DSP_VOLATILE_BASE_def NV_FLASH_DSP_VOLATILE_LEN_def
  NV_FLASH_DSP_NON_VOLATILE_BASE_def NV_FLASH_DSP_NON_VOLATILE_LEN_def NV_FLASH_NET_BASE_def
  NV_FLASH_NET_LEN_def FOTA_RESULT_FLASH_BASE_def FOTA_RESULT_FLASH_MAXLEN_def
  FOTA_UPDATE_INFO_ADDR_def VERSION_MIMG_SHA_def ARM_FLASH_BASE_ADDR_def FOTA_BACKUP_BASE_def

section \<open>get_Dsp_Addr_from_ARM, get_ARM_Addr_from_Dsp\<close>

definition BACKUP_MEM_BASE :: u32 where "BACKUP_MEM_BASE = 0x24000000"
definition BACKUP_MEM_OFFSET :: u32 where "BACKUP_MEM_OFFSET = 0x2C100000"
definition XY_FTL_AVAILABLE_LEN :: u32 where "XY_FTL_AVAILABLE_LEN = 0xFEC"
definition AES_START :: u32 where "AES_START = 0x26000000"
definition AES_LENGTH :: u32 where "AES_LENGTH = 0x20000"
definition AES_OFFSET :: u32 where "AES_OFFSET = 0x5A020000"

lemmas win_defs = BACKUP_MEM_BASE_def BACKUP_MEM_OFFSET_def XY_FTL_AVAILABLE_LEN_def AES_START_def
  AES_LENGTH_def AES_OFFSET_def

definition get_Dsp_Addr_from_ARM :: "u32 \<Rightarrow> u32" where
  "get_Dsp_Addr_from_ARM addr =
     (if 0x27000000 \<le> addr \<and> addr < 0x27000000 + 0x200000 then addr + 0x2A000000
      else if 0x20000000 \<le> addr \<and> addr < 0x20000000 + 0x60000 then addr + 0x30000000
      else if BACKUP_MEM_BASE \<le> addr \<and> addr < BACKUP_MEM_BASE + XY_FTL_AVAILABLE_LEN
        then addr + BACKUP_MEM_OFFSET
      else if AES_START \<le> addr \<and> addr < AES_START + AES_LENGTH then addr + AES_OFFSET
      else addr)"

definition get_ARM_Addr_from_Dsp :: "u32 \<Rightarrow> u32" where
  "get_ARM_Addr_from_Dsp addr =
     (if 0x27000000 + 0x2A000000 \<le> addr \<and> addr < 0x27000000 + 0x2A000000 + 0x200000
        then addr - 0x2A000000
      else if 0x20000000 + 0x30000000 \<le> addr \<and> addr < 0x20000000 + 0x30000000 + 0x60000
        then addr - 0x30000000
      else if BACKUP_MEM_BASE + BACKUP_MEM_OFFSET \<le> addr
          \<and> addr < BACKUP_MEM_BASE + BACKUP_MEM_OFFSET + XY_FTL_AVAILABLE_LEN
        then addr - BACKUP_MEM_OFFSET
      else if AES_START + AES_OFFSET \<le> addr \<and> addr < AES_START + AES_OFFSET + AES_LENGTH
        then addr - AES_OFFSET
      else addr)"

text \<open>The windows of the M3's view, as a predicate.\<close>

definition m3_shared :: "u32 \<Rightarrow> bool" where
  "m3_shared addr \<longleftrightarrow>
     0x27000000 \<le> addr \<and> addr < 0x27200000 \<or> 0x20000000 \<le> addr \<and> addr < 0x20060000
     \<or> 0x24000000 \<le> addr \<and> addr < 0x24000FEC \<or> 0x26000000 \<le> addr \<and> addr < 0x26020000"

lemma unat_add_small: "unat (a :: u32) + unat b < 4294967296 \<Longrightarrow> unat (a + b) = unat a + unat b"
  by (simp add: unat_word_ariths)

lemma dsp_addr_cases:
  assumes "m3_shared a"
  shows "get_ARM_Addr_from_Dsp (get_Dsp_Addr_from_ARM a) = a"
proof -
  note d = get_Dsp_Addr_from_ARM_def get_ARM_Addr_from_Dsp_def win_defs word_le_nat_alt word_less_nat_alt
  consider (fl) "0x27000000 \<le> unat a" "unat a < 0x27200000"
    | (sr) "0x20000000 \<le> unat a" "unat a < 0x20060000"
    | (bk) "0x24000000 \<le> unat a" "unat a < 0x24000FEC"
    | (ae) "0x26000000 \<le> unat a" "unat a < 0x26020000"
    using assms by (auto simp: m3_shared_def word_le_nat_alt word_less_nat_alt)
  then show ?thesis
    by cases (simp_all add: d unat_add_small)
qed

section \<open>xy_MemFree: the owner of a block\<close>

text \<open>
  \<open>heap_addr\<close>, \<open>heap_size\<close> are the linker's heap, \<open>ext_pool\<close>, \<open>ext_len\<close> the two words at
  \<open>DSP_EXT_POOL\<close>.  A block of the DSP is returned through the inter-core channel with its
  address in the DSP's view.
\<close>

datatype free_action = FreeToDsp u32 | FreeLocal u32

record heap_map =
  heap_addr :: u32
  heap_size :: u32
  ext_pool :: u32
  ext_len :: u32

definition DSP_HEAP_DRAM_START :: u32 where "DSP_HEAP_DRAM_START = 0x3ffc0000"
definition DSP_HEAP_DRAM_LEN :: u32 where "DSP_HEAP_DRAM_LEN = 0x13800"
definition ARM_RAM_HEAP2_BASE :: u32 where "ARM_RAM_HEAP2_BASE = 0x2000C000"
definition ARM_RAM_HEAP2_LEN :: u32 where "ARM_RAM_HEAP2_LEN = 0xDF00"

definition in_local_heap :: "heap_map \<Rightarrow> u32 \<Rightarrow> bool" where
  "in_local_heap h addr \<longleftrightarrow>
     (heap_addr h \<le> addr \<and> addr \<le> heap_addr h + heap_size h)
     \<or> (ARM_RAM_HEAP2_BASE \<le> addr \<and> addr \<le> ARM_RAM_HEAP2_BASE + ARM_RAM_HEAP2_LEN)"

definition xy_MemFree :: "heap_map \<Rightarrow> u32 \<Rightarrow> free_action res" where
  "xy_MemFree h addr =
     (if (DSP_HEAP_DRAM_START \<le> addr \<and> addr \<le> DSP_HEAP_DRAM_START + DSP_HEAP_DRAM_LEN)
         \<or> (get_ARM_Addr_from_Dsp (ext_pool h) \<le> addr
            \<and> addr \<le> get_ARM_Addr_from_Dsp (ext_pool h) + ext_len h)
      then Inr (FreeToDsp (get_Dsp_Addr_from_ARM addr))
      else if in_local_heap h addr then Inr (FreeLocal addr)
      else Inl AssertFail)"

section \<open>xy_MemAllocDebug, xy_MemAllocAlignDebug\<close>

text \<open>
  \<open>got\<close> is the block the heap returned; the result is the block and whether it was cleared.
  A failed allocation stops the system unless the caller is \<open>loose\<close>; in test mode
  (\<open>test & 1\<close>) a cleared block of 100 bytes or more does too.
\<close>

definition xy_MemAllocDebug :: "u32 option \<Rightarrow> nat \<Rightarrow> bool \<Rightarrow> bool \<Rightarrow> u8 \<Rightarrow> (u32 option \<times> bool) res" where
  "xy_MemAllocDebug got sz loose clean test =
     (case got of
        None \<Rightarrow> bind_res (xy_assert loose) (\<lambda>_. Inr (None, False))
      | Some p \<Rightarrow>
          bind_res (if clean \<and> test AND 1 \<noteq> 0 then xy_assert (sz < 100) else Inr ())
            (\<lambda>_. Inr (Some p, clean)))"

definition xy_MemAllocAlignDebug :: "u32 option \<Rightarrow> bool \<Rightarrow> bool \<Rightarrow> (u32 option \<times> bool) res" where
  "xy_MemAllocAlignDebug got loose clean =
     (case got of
        None \<Rightarrow> bind_res (xy_assert loose) (\<lambda>_. Inr (None, False))
      | Some p \<Rightarrow> Inr (Some p, clean))"

section \<open>xy_MemAlloc_Ps, xy_MemFree_Ps: accounting\<close>

text \<open>
  \<open>got\<close> is what \<open>osMemoryAllocDebug\<close> returned: the block and the size \<open>CalRealSize\<close> reports
  for it.
\<close>

record ps_mem =
  g_ps_mem_used :: u32
  g_ps_mem_used_max :: u32
  g_ps_mem_used_threshod :: u32
  nv_test :: u8

definition xy_MemAlloc_Ps ::
    "ps_mem \<Rightarrow> (u32 \<times> u32) option \<Rightarrow> nat \<Rightarrow> bool \<Rightarrow> bool \<Rightarrow> (u32 option \<times> ps_mem) res" where
  "xy_MemAlloc_Ps s got sz loose clean =
     bind_res
       (case got of
          None \<Rightarrow> bind_res (xy_assert loose) (\<lambda>_. Inr s)
        | Some (p, real) \<Rightarrow>
            bind_res (if clean \<and> nv_test s AND 1 \<noteq> 0 then xy_assert (sz < 100) else Inr ())
              (\<lambda>_. let used = g_ps_mem_used s + real
                   in Inr (s\<lparr>g_ps_mem_used := used,
                        g_ps_mem_used_max :=
                          (if g_ps_mem_used_max s < used then used else g_ps_mem_used_max s)\<rparr>)))
       (\<lambda>s'. bind_res
          (xy_assert (\<not> (g_ps_mem_used_threshod s' \<noteq> 0
                      \<and> g_ps_mem_used_threshod s' * 1024 < g_ps_mem_used_max s')))
          (\<lambda>_. Inr (map_option fst got, s')))"

definition xy_MemFree_Ps :: "heap_map \<Rightarrow> ps_mem \<Rightarrow> u32 \<Rightarrow> u32 \<Rightarrow> ps_mem res" where
  "xy_MemFree_Ps h s addr real =
     (if in_local_heap h addr then Inr (s\<lparr>g_ps_mem_used := g_ps_mem_used s - real\<rparr>)
      else Inl AssertFail)"

lemma ps_alloc_inv:
  assumes "xy_MemAlloc_Ps s got sz loose clean = Inr (p, s')"
    and "g_ps_mem_used s \<le> g_ps_mem_used_max s"
  shows "g_ps_mem_used s' \<le> g_ps_mem_used_max s'"
  using assms
  by (auto simp: xy_MemAlloc_Ps_def bind_res_eq_Inr Let_def split: option.splits if_splits)

end
