(* ===== verification/FlashAdapt.thy ===== *)
theory FlashAdapt
  imports MemMap
begin

text \<open>
  \<open>SYSLIB/flash/src/flash_adapt.c\<close>: page-wise erase and write of the NOR flash, either by
  this core through the ROM driver or by a message to the flash task of the DSP.  Flash is
  memory mapped, so its content is a \<open>mem\<close>.  The ROM driver and the DSP task are not
  under \<open>src/\<close>: they are the fields of \<open>flash_drv\<close>, and the laws the code relies on
  are the assumptions of the locale \<open>nor_flash\<close>.  The bounce buffer of an unaligned
  source holds the same bytes as the source, XIP mode and interrupt masking do not change
  the content; neither is part of the state.
\<close>

definition EFTL_PAGE_SIZE :: nat where "EFTL_PAGE_SIZE = 0x1000"
definition CACHE_LINE :: u32 where "CACHE_LINE = 32"

definition IS_CACHE_ALIGNED :: "u32 \<Rightarrow> bool" where
  "IS_CACHE_ALIGNED a \<longleftrightarrow> a AND (CACHE_LINE - 1) = 0"

section \<open>Messages to the DSP and the driver interface\<close>

datatype flash_op =
    flash_op_default | flash_op_erase | flash_op_writeNoErase | flash_op_writeErase | flash_op_protect

text \<open>\<open>flash_PE_st\<close>; \<open>srcBytes\<close> are the bytes that \<open>srcAddr\<close> points to.\<close>

record flash_PE_st =
  destAddr :: u32
  srcAddr :: u32
  srcBytes :: "u8 list"
  pe_size :: nat
  operation :: flash_op

record flash_drv =
  FLASH_ReadData :: "mem \<Rightarrow> nat \<Rightarrow> nat \<Rightarrow> u8 list"
  FLASH_WriteData :: "mem \<Rightarrow> nat \<Rightarrow> u8 list \<Rightarrow> mem"
  FLASH_SectorErase :: "mem \<Rightarrow> nat \<Rightarrow> mem"
  dsp_flash_task :: "flash_PE_st \<Rightarrow> mem \<Rightarrow> mem"

definition in_flash :: "nat \<Rightarrow> nat \<Rightarrow> bool" where
  "in_flash a n \<longleftrightarrow> FLASH_BASE \<le> a \<and> a + n \<le> FLASH_BASE + FLASH_LENGTH"

definition erased_page :: "u8 list" where
  "erased_page = replicate EFTL_PAGE_SIZE 0xFF"

section \<open>Operations of this core\<close>

definition flash_read :: "flash_drv \<Rightarrow> mem \<Rightarrow> nat \<Rightarrow> nat \<Rightarrow> u8 list" where
  "flash_read drv m addr sz = FLASH_ReadData drv m addr sz"

definition flash_write_no_erase :: "flash_drv \<Rightarrow> mem \<Rightarrow> nat \<Rightarrow> u8 list \<Rightarrow> mem" where
  "flash_write_no_erase drv m addr data = FLASH_WriteData drv m addr data"

text \<open>\<open>size\<close> is rounded up to whole pages in 32 bits and then read as an \<open>int\<close>.\<close>

definition flash_erase :: "flash_drv \<Rightarrow> mem \<Rightarrow> nat \<Rightarrow> nat \<Rightarrow> mem res" where
  "flash_erase drv m addr sz =
     bind_res (xy_assert (addr mod EFTL_PAGE_SIZE = 0)) (\<lambda>_.
       let sz = (sz + EFTL_PAGE_SIZE - 1) mod 2 ^ 32;
           pages = (if sz < 2 ^ 31 then sz div EFTL_PAGE_SIZE else 0)
       in Inr (fold (\<lambda>page m. FLASH_SectorErase drv m (addr + page * EFTL_PAGE_SIZE)) [0..<pages] m))"

text \<open>The bytes the current round of a page loop handles.\<close>

definition page_chunk :: "nat \<Rightarrow> nat \<Rightarrow> nat" where
  "page_chunk addr sz =
     (let offset = addr mod EFTL_PAGE_SIZE
      in if sz \<le> EFTL_PAGE_SIZE - offset then sz else EFTL_PAGE_SIZE - offset)"

lemma page_chunk_pos: "0 < sz \<Longrightarrow> 0 < page_chunk addr sz"
  by (simp add: page_chunk_def EFTL_PAGE_SIZE_def Let_def)

lemma page_chunk_le: "page_chunk addr sz \<le> sz"
  by (simp add: page_chunk_def Let_def)

lemma page_chunk_fits: "addr mod EFTL_PAGE_SIZE + page_chunk addr sz \<le> EFTL_PAGE_SIZE"
proof -
  have "addr mod EFTL_PAGE_SIZE < EFTL_PAGE_SIZE" by (simp add: EFTL_PAGE_SIZE_def)
  then show ?thesis unfolding page_chunk_def Let_def by (auto split: if_splits)
qed

function flash_write_erase :: "flash_drv \<Rightarrow> mem \<Rightarrow> nat \<Rightarrow> u8 list \<Rightarrow> mem res" where
  "flash_write_erase drv m addr data =
     (if data = [] then Inr m
      else
        let offset = addr mod EFTL_PAGE_SIZE;
            actAddr = addr - offset;
            write_size = page_chunk addr (length data);
            chunk = take write_size data
        in bind_res
            (if write_size = EFTL_PAGE_SIZE
             then bind_res (flash_erase drv m actAddr EFTL_PAGE_SIZE)
                    (\<lambda>m. Inr (flash_write_no_erase drv m actAddr chunk))
             else
               let block_buf = flash_read drv m actAddr EFTL_PAGE_SIZE
               in if write_size < 100 \<and> take write_size (drop offset block_buf) = chunk
                  then Inr m
                  else bind_res (flash_erase drv m actAddr EFTL_PAGE_SIZE)
                    (\<lambda>m. Inr (flash_write_no_erase drv m actAddr (blit block_buf offset chunk))))
            (\<lambda>m. flash_write_erase drv m (addr + write_size) (drop write_size data)))"
  by pat_completeness auto
termination
  by (relation "measure (\<lambda>(drv, m, addr, data). length data)") (auto simp: page_chunk_pos)

declare flash_write_erase.simps [simp del]

section \<open>Operations through the DSP\<close>

text \<open>\<open>send_flash_msg\<close> blocks until the DSP's task has run.\<close>

definition send_write_flash_msg ::
    "flash_drv \<Rightarrow> mem \<Rightarrow> flash_op \<Rightarrow> u32 \<Rightarrow> u8 list \<Rightarrow> nat \<Rightarrow> nat \<Rightarrow> mem" where
  "send_write_flash_msg drv m oper ramAddr ramData flashAddr sz =
     dsp_flash_task drv
       \<lparr>destAddr = get_Dsp_Addr_from_ARM (of_nat flashAddr),
        srcAddr = (if oper \<noteq> flash_op_erase then get_Dsp_Addr_from_ARM ramAddr else 0),
        srcBytes = (if oper \<noteq> flash_op_erase then ramData else []),
        pe_size = sz,
        operation = oper\<rparr> m"

text \<open>
  \<open>ram_addr\<close> is the address of \<open>ram_data\<close> (it decides the fast path), \<open>block_buf\<close> the page
  buffer the allocator returned.
\<close>

function flash_operate_ext ::
    "flash_drv \<Rightarrow> u32 \<Rightarrow> flash_op \<Rightarrow> mem \<Rightarrow> nat \<Rightarrow> u32 \<Rightarrow> u8 list \<Rightarrow> nat \<Rightarrow> mem" where
  "flash_operate_ext drv block_buf oper m flash_addr ram_addr ram_data sz =
     (if sz = 0 then m
      else
        let offset = flash_addr mod EFTL_PAGE_SIZE;
            actAddr = flash_addr - offset;
            write_size = page_chunk flash_addr sz;
            chunk = take write_size ram_data;
            m' =
              (if oper = flash_op_writeErase then
                 (if offset = 0 \<and> write_size = EFTL_PAGE_SIZE \<and> IS_CACHE_ALIGNED ram_addr
                  then send_write_flash_msg drv m oper ram_addr chunk actAddr EFTL_PAGE_SIZE
                  else
                    let write_buf = flash_read drv m actAddr EFTL_PAGE_SIZE
                    in if sz < 100 \<and> take write_size (drop offset write_buf) = chunk
                       then m
                       else send_write_flash_msg drv m oper block_buf (blit write_buf offset chunk)
                              actAddr EFTL_PAGE_SIZE)
               else if oper = flash_op_writeNoErase then
                 send_write_flash_msg drv m oper block_buf chunk (actAddr + offset) write_size
               else if oper = flash_op_erase then
                 send_write_flash_msg drv m oper 0 [] actAddr EFTL_PAGE_SIZE
               else m)
        in flash_operate_ext drv block_buf oper m' (flash_addr + write_size)
             (ram_addr + of_nat write_size) (drop write_size ram_data) (sz - write_size))"
  by pat_completeness auto
termination
  by (relation "measure (\<lambda>(drv, block_buf, oper, m, flash_addr, ram_addr, ram_data, sz). sz)")
     (auto simp: page_chunk_pos)

declare flash_operate_ext.simps [simp del]

section \<open>DMAChannelMemcpy\<close>

text \<open>
  The copy is done by the ROM driver's read or write when exactly one side is flash, by the
  plain DMA transfer when both sides are RAM, and not at all between two flash ranges.
\<close>

datatype dma_action = DmaFlashRead | DmaFlashWrite | DmaTransfer | DmaNothing

definition mem_type_flash :: "nat \<Rightarrow> nat \<Rightarrow> bool" where
  "mem_type_flash a n \<longleftrightarrow> 0x27000000 \<le> a \<and> a + n \<le> 0x27000000 + 0x01000000"

definition DMAChannelMemcpy :: "nat \<Rightarrow> nat \<Rightarrow> nat \<Rightarrow> dma_action" where
  "DMAChannelMemcpy ulDst ulSrc ulLenByte =
     (let dst_flash = mem_type_flash ulDst ulLenByte; src_flash = mem_type_flash ulSrc ulLenByte
      in if \<not> dst_flash \<and> src_flash then DmaFlashRead
         else if dst_flash \<and> \<not> src_flash then DmaFlashWrite
         else if \<not> dst_flash \<and> \<not> src_flash then DmaTransfer
         else DmaNothing)"

section \<open>FLASH_OTP_CAL_Read_and_Check\<close>

text \<open>
  \<open>Flash_OTP_CAL_Def\<close> has 72 bytes, read as 18 words: the validity mark first, the
  exclusive or of the 16 words between them last.
\<close>

definition otp_words :: nat where "otp_words = 18"

definition otp_crc :: "u32 list \<Rightarrow> u32" where
  "otp_crc w = fold (\<lambda>i tempCRC. tempCRC XOR w ! i) [1..<otp_words - 1] 0"

definition FLASH_OTP_CAL_Read_and_Check :: "u32 list \<Rightarrow> nat" where
  "FLASH_OTP_CAL_Read_and_Check flash_otp_cal =
     (if flash_otp_cal ! 0 \<noteq> 0x55AA55AA then 3
      else if otp_crc flash_otp_cal \<noteq> flash_otp_cal ! (otp_words - 1) then 2
      else 1)"

lemma otp_accepted_iff:
  "FLASH_OTP_CAL_Read_and_Check w = 1 \<longleftrightarrow> w ! 0 = 0x55AA55AA \<and> otp_crc w = w ! (otp_words - 1)"
proof (cases "w ! 0 = 0x55AA55AA"; cases "otp_crc w = w ! (otp_words - 1)")
qed (simp_all only: FLASH_OTP_CAL_Read_and_Check_def if_True if_False simp_thms)

lemma otp_rejected_iff:
  "FLASH_OTP_CAL_Read_and_Check w = 2 \<longleftrightarrow> w ! 0 = 0x55AA55AA \<and> otp_crc w \<noteq> w ! (otp_words - 1)"
proof (cases "w ! 0 = 0x55AA55AA"; cases "otp_crc w = w ! (otp_words - 1)")
qed (simp_all only: FLASH_OTP_CAL_Read_and_Check_def if_True if_False simp_thms)

lemma fold_xor_init:
  "fold (\<lambda>i (t :: u32). t XOR f i) is t = t XOR fold (\<lambda>i t. t XOR f i) is 0"
proof (induction "is" arbitrary: t)
  case (Cons a ks)
  show ?case
    using Cons.IH [of "t XOR f a"] Cons.IH [of "0 XOR f a"] by (simp add: xor.assoc)
qed simp

lemma fold_xor_cong:
  "(\<And>k. k \<in> set ks \<Longrightarrow> f k = g k) \<Longrightarrow>
     fold (\<lambda>k (t :: u32). t XOR f k) ks t = fold (\<lambda>k t. t XOR g k) ks t"
  by (induction ks arbitrary: t) simp_all

lemma xor_swap: "(t XOR x) XOR r = ((t XOR y) XOR r) XOR y XOR (x :: u32)"
  by (rule bit_word_eqI) (auto simp: bit_simps)

lemma fold_xor_update:
  assumes "distinct is" "i \<in> set is" "i < length w"
  shows "fold (\<lambda>k t. t XOR w[i := (x :: u32)] ! k) is t = fold (\<lambda>k t. t XOR w ! k) is t XOR w ! i XOR x"
  using assms
proof (induction "is" arbitrary: t)
  case (Cons k ks)
  show ?case
  proof (cases "k = i")
    case True
    have "fold (\<lambda>k t. t XOR w[i := x] ! k) ks u = fold (\<lambda>k t. t XOR w ! k) ks u" for u
      using Cons.prems True by (intro fold_xor_cong nth_list_update_neq) auto
    then show ?thesis
      using True Cons.prems fold_xor_init [of "\<lambda>k. w ! k" ks "t XOR x"]
        fold_xor_init [of "\<lambda>k. w ! k" ks "t XOR w ! i"]
      by (simp only: fold_simps nth_list_update_eq) (metis xor_swap)
  next
    case False
    then show ?thesis using Cons by simp
  qed
qed simp

lemma otp_crc_update:
  assumes "i < length w"
  shows "otp_crc (w[i := x]) = (if 1 \<le> i \<and> i < otp_words - 1 then otp_crc w XOR w ! i XOR x else otp_crc w)"
proof (cases "1 \<le> i \<and> i < otp_words - 1")
  case True
  then show ?thesis
    using fold_xor_update [of "[1..<otp_words - 1]" i w x 0] assms by (simp add: otp_crc_def)
next
  case False
  then have "fold (\<lambda>k t. t XOR w[i := x] ! k) [1..<otp_words - 1] 0 = fold (\<lambda>k t. t XOR w ! k) [1..<otp_words - 1] 0"
    by (intro fold_xor_cong) auto
  with False show ?thesis by (auto simp add: otp_crc_def)
qed

lemma xor_same_iff: "(a :: u32) XOR b XOR c = a \<longleftrightarrow> b = c"
proof
  assume eq: "a XOR b XOR c = a"
  show "b = c"
  proof (rule bit_word_eqI)
    fix n assume "n < LENGTH(32)"
    have "bit (a XOR b XOR c) n = bit a n" by (simp add: eq)
    then show "bit b n = bit c n" by (auto simp: bit_xor_iff)
  qed
qed (simp add: xor.assoc)

section \<open>What the code relies on: a NOR flash\<close>

locale nor_flash =
  fixes drv :: flash_drv
  assumes read_law: "in_flash a n \<Longrightarrow> FLASH_ReadData drv m a n = mem_read m a n"
    and erase_law: "in_flash a EFTL_PAGE_SIZE \<Longrightarrow> a mod EFTL_PAGE_SIZE = 0 \<Longrightarrow>
      FLASH_SectorErase drv m a = mem_write m a erased_page"
    and write_law: "in_flash a (length d) \<Longrightarrow> (\<forall>i < length d. m (a + i) = 0xFF) \<Longrightarrow>
      FLASH_WriteData drv m a d = mem_write m a d"
    and dsp_erase_law: "in_flash a EFTL_PAGE_SIZE \<Longrightarrow> a mod EFTL_PAGE_SIZE = 0 \<Longrightarrow>
      operation pe = flash_op_erase \<Longrightarrow> destAddr pe = get_Dsp_Addr_from_ARM (of_nat a) \<Longrightarrow>
      pe_size pe = EFTL_PAGE_SIZE \<Longrightarrow> dsp_flash_task drv pe m = mem_write m a erased_page"
    and dsp_writeErase_law: "in_flash a EFTL_PAGE_SIZE \<Longrightarrow> a mod EFTL_PAGE_SIZE = 0 \<Longrightarrow>
      operation pe = flash_op_writeErase \<Longrightarrow> destAddr pe = get_Dsp_Addr_from_ARM (of_nat a) \<Longrightarrow>
      pe_size pe = EFTL_PAGE_SIZE \<Longrightarrow> length (srcBytes pe) = EFTL_PAGE_SIZE \<Longrightarrow>
      dsp_flash_task drv pe m = mem_write m a (srcBytes pe)"
    and dsp_writeNoErase_law: "in_flash a (length (srcBytes pe)) \<Longrightarrow>
      operation pe = flash_op_writeNoErase \<Longrightarrow> destAddr pe = get_Dsp_Addr_from_ARM (of_nat a) \<Longrightarrow>
      pe_size pe = length (srcBytes pe) \<Longrightarrow> (\<forall>i < length (srcBytes pe). m (a + i) = 0xFF) \<Longrightarrow>
      dsp_flash_task drv pe m = mem_write m a (srcBytes pe)"

lemma length_erased_page [simp]: "length erased_page = EFTL_PAGE_SIZE"
  by (simp add: erased_page_def)

lemma EFTL_PAGE_SIZE_pos [simp]: "0 < EFTL_PAGE_SIZE"
  by (simp add: EFTL_PAGE_SIZE_def)

lemma erased_after_erase:
  "i < EFTL_PAGE_SIZE \<Longrightarrow> mem_write m a erased_page (a + i) = 0xFF"
  by (simp add: mem_write_def erased_page_def)

lemma mem_write_same_content:
  assumes "take (length d) (drop off (mem_read m a n)) = d" "off + length d \<le> n"
  shows "mem_write m (a + off) d = m"
proof -
  have "blit (mem_read m a n) off d = mem_read m a n"
    using assms by (intro blit_same_content) simp_all
  with mem_write_blit [OF assms(2), of m a] show ?thesis by simp
qed

lemma in_flash_page:
  assumes "in_flash a n" "0 < n"
  shows "in_flash (a - a mod EFTL_PAGE_SIZE) EFTL_PAGE_SIZE"
proof -
  define q r where "q = a div 4096" and "r = a mod 4096"
  have a: "a = 4096 * q + r" "r < 4096" by (simp_all add: q_def r_def)
  have "0x27000 \<le> q" "q < 0x27200"
    using assms a by (simp_all add: in_flash_def FLASH_BASE_def FLASH_LENGTH_def)
  moreover have "a - a mod EFTL_PAGE_SIZE = 4096 * q"
    by (simp add: EFTL_PAGE_SIZE_def q_def minus_mod_eq_mult_div)
  ultimately show ?thesis
    by (simp add: in_flash_def FLASH_BASE_def FLASH_LENGTH_def EFTL_PAGE_SIZE_def)
qed

lemma in_flash_drop:
  "in_flash a n \<Longrightarrow> k \<le> n \<Longrightarrow> in_flash (a + k) (n - k)"
  by (simp add: in_flash_def)

lemma in_flash_take: "in_flash a n \<Longrightarrow> k \<le> n \<Longrightarrow> in_flash a k"
  by (simp add: in_flash_def)

lemma page_aligned: "(a - a mod EFTL_PAGE_SIZE) mod EFTL_PAGE_SIZE = 0"
  by (simp add: minus_mod_eq_mult_div)

lemma mem_write_split:
  "k \<le> length d \<Longrightarrow> mem_write (mem_write m a (take k d)) (a + k) (drop k d) = mem_write m a d"
  using mem_write_append [of m a "take k d" "drop k d"] by simp

context nor_flash
begin

lemma flash_erase_page:
  assumes "in_flash a EFTL_PAGE_SIZE" "a mod EFTL_PAGE_SIZE = 0"
  shows "flash_erase drv m a EFTL_PAGE_SIZE = Inr (mem_write m a erased_page)"
  using assms by (simp add: flash_erase_def erase_law) (simp add: EFTL_PAGE_SIZE_def erase_law)

lemma write_erased_page:
  assumes "in_flash a EFTL_PAGE_SIZE" "length d = EFTL_PAGE_SIZE"
  shows "flash_write_no_erase drv (mem_write m a erased_page) a d = mem_write m a d"
  using assms by (simp add: flash_write_no_erase_def write_law erased_after_erase mem_write_over)

lemma send_writeErase_page:
  assumes "in_flash a EFTL_PAGE_SIZE" "a mod EFTL_PAGE_SIZE = 0" "length d = EFTL_PAGE_SIZE"
  shows "send_write_flash_msg drv m flash_op_writeErase ra d a EFTL_PAGE_SIZE = mem_write m a d"
  using assms by (simp add: send_write_flash_msg_def dsp_writeErase_law)

lemma page_overlay:
  assumes "in_flash a (length d)" "0 < length d" "a mod EFTL_PAGE_SIZE + length d \<le> EFTL_PAGE_SIZE"
  defines "act \<equiv> a - a mod EFTL_PAGE_SIZE"
  shows "mem_write m act (blit (flash_read drv m act EFTL_PAGE_SIZE) (a mod EFTL_PAGE_SIZE) d) = mem_write m a d"
    and "length (blit (flash_read drv m act EFTL_PAGE_SIZE) (a mod EFTL_PAGE_SIZE) d) = EFTL_PAGE_SIZE"
    and "take (length d) (drop (a mod EFTL_PAGE_SIZE) (flash_read drv m act EFTL_PAGE_SIZE)) = d
      \<Longrightarrow> mem_write m a d = m"
proof -
  have fl: "flash_read drv m act EFTL_PAGE_SIZE = mem_read m act EFTL_PAGE_SIZE"
    using in_flash_page [OF assms(1,2)] by (simp add: flash_read_def read_law act_def)
  have a: "act + a mod EFTL_PAGE_SIZE = a" by (simp add: act_def)
  show "mem_write m act (blit (flash_read drv m act EFTL_PAGE_SIZE) (a mod EFTL_PAGE_SIZE) d) = mem_write m a d"
    using mem_write_blit [OF assms(3), of m act] by (simp add: fl a)
  show "length (blit (flash_read drv m act EFTL_PAGE_SIZE) (a mod EFTL_PAGE_SIZE) d) = EFTL_PAGE_SIZE"
    using assms(3) by (simp add: fl)
  show "take (length d) (drop (a mod EFTL_PAGE_SIZE) (flash_read drv m act EFTL_PAGE_SIZE)) = d
      \<Longrightarrow> mem_write m a d = m"
    using mem_write_same_content [OF _ assms(3), of m act] by (simp add: fl a)
qed

text \<open>One round of either loop writes its chunk and nothing else.\<close>

lemma whole_page:
  assumes "page_chunk a n = EFTL_PAGE_SIZE"
  shows "a mod EFTL_PAGE_SIZE = 0"
proof -
  have "a mod EFTL_PAGE_SIZE + EFTL_PAGE_SIZE \<le> EFTL_PAGE_SIZE"
    using page_chunk_fits [of a n] assms by simp
  then show ?thesis by simp
qed

theorem flash_write_erase_is_write:
  "in_flash a (length d) \<Longrightarrow> flash_write_erase drv m a d = Inr (mem_write m a d)"
proof (induction "length d" arbitrary: m a d rule: less_induct)
  case less
  show ?case
  proof (cases "d = []")
    case True
    then show ?thesis by (simp add: flash_write_erase.simps)
  next
    case False
    define k where "k = page_chunk a (length d)"
    define off act where "off = a mod EFTL_PAGE_SIZE" and "act = a - off"
    have k: "0 < k" "k \<le> length d" "off + k \<le> EFTL_PAGE_SIZE"
      using False page_chunk_pos page_chunk_le page_chunk_fits by (simp_all add: k_def off_def)
    have len: "length (take k d) = k" using k by simp
    have fk: "in_flash a (length (take k d))"
      using less.prems k by (simp add: in_flash_take)
    have page: "in_flash act EFTL_PAGE_SIZE" "act mod EFTL_PAGE_SIZE = 0"
      using less.prems False by (simp_all add: act_def off_def in_flash_page page_aligned)
    note ov = page_overlay [OF fk, folded off_def, folded act_def, unfolded len, OF k(1) k(3)]
    have full: "k = EFTL_PAGE_SIZE \<Longrightarrow> act = a"
      using whole_page [of a "length d"] by (simp add: k_def act_def off_def)
    have rest: "flash_write_erase drv (mem_write m a (take k d)) (a + k) (drop k d)
        = Inr (mem_write m a d)"
      using less.hyps [of "drop k d" "a + k"] k less.prems
      by (simp add: in_flash_drop mem_write_split)
    show ?thesis
      using False rest ov full k page
      by (subst flash_write_erase.simps)
         (auto simp: Let_def k_def [symmetric] off_def [symmetric] act_def [symmetric]
           flash_erase_page write_erased_page)
  qed
qed

theorem flash_operate_ext_is_write:
  "in_flash a (length d) \<Longrightarrow>
     flash_operate_ext drv bb flash_op_writeErase m a ra d (length d) = mem_write m a d"
proof (induction "length d" arbitrary: m a ra d rule: less_induct)
  case less
  show ?case
  proof (cases "d = []")
    case True
    then show ?thesis by (simp add: flash_operate_ext.simps)
  next
    case False
    define k where "k = page_chunk a (length d)"
    define off act where "off = a mod EFTL_PAGE_SIZE" and "act = a - off"
    have k: "0 < k" "k \<le> length d" "off + k \<le> EFTL_PAGE_SIZE"
      using False page_chunk_pos page_chunk_le page_chunk_fits by (simp_all add: k_def off_def)
    have len: "length (take k d) = k" using k by simp
    have fk: "in_flash a (length (take k d))"
      using less.prems k by (simp add: in_flash_take)
    have page: "in_flash act EFTL_PAGE_SIZE" "act mod EFTL_PAGE_SIZE = 0"
      using less.prems False by (simp_all add: act_def off_def in_flash_page page_aligned)
    note ov = page_overlay [OF fk, folded off_def, folded act_def, unfolded len, OF k(1) k(3)]
    have full: "k = EFTL_PAGE_SIZE \<Longrightarrow> act = a \<and> off = 0"
      using whole_page [of a "length d"] by (simp add: k_def act_def off_def)
    have rest: "flash_operate_ext drv bb flash_op_writeErase (mem_write m a (take k d)) (a + k)
        r (drop k d) (length d - k) = mem_write m a d" for r
      using less.hyps [of "drop k d" "a + k" "mem_write m a (take k d)" r] k less.prems
      by (simp add: in_flash_drop mem_write_split)
    show ?thesis
      using False rest ov full k page
      by (subst flash_operate_ext.simps)
         (auto simp: Let_def k_def [symmetric] off_def [symmetric] act_def [symmetric]
           send_writeErase_page)
  qed
qed

lemma flash_operate_ext_is_erase:
  assumes "a mod EFTL_PAGE_SIZE = 0"
  shows "in_flash a (n * EFTL_PAGE_SIZE) \<Longrightarrow>
     flash_operate_ext drv bb flash_op_erase m a ra [] (n * EFTL_PAGE_SIZE)
       = mem_write m a (replicate (n * EFTL_PAGE_SIZE) 0xFF)"
  using assms
proof (induction n arbitrary: m a ra)
  case 0
  then show ?case by (simp add: flash_operate_ext.simps)
next
  case (Suc n)
  have c: "page_chunk a (Suc n * EFTL_PAGE_SIZE) = EFTL_PAGE_SIZE"
    using Suc.prems by (cases n) (simp_all add: page_chunk_def)
  have a1: "in_flash a EFTL_PAGE_SIZE" and a2: "in_flash (a + EFTL_PAGE_SIZE) (n * EFTL_PAGE_SIZE)"
    using Suc.prems by (simp_all add: in_flash_def)
  have step: "send_write_flash_msg drv m flash_op_erase 0 [] a EFTL_PAGE_SIZE = mem_write m a erased_page"
    using a1 Suc.prems by (simp add: send_write_flash_msg_def dsp_erase_law)
  have "flash_operate_ext drv bb flash_op_erase m a ra [] (Suc n * EFTL_PAGE_SIZE)
      = flash_operate_ext drv bb flash_op_erase (mem_write m a erased_page) (a + EFTL_PAGE_SIZE)
          (ra + of_nat EFTL_PAGE_SIZE) [] (n * EFTL_PAGE_SIZE)"
    using c step Suc.prems by (subst flash_operate_ext.simps) (simp add: Let_def EFTL_PAGE_SIZE_def)
  also have "\<dots> = mem_write (mem_write m a erased_page) (a + length erased_page)
      (replicate (n * EFTL_PAGE_SIZE) 0xFF)"
    using Suc.IH [OF a2] Suc.prems by simp
  also have "\<dots> = mem_write m a (replicate (Suc n * EFTL_PAGE_SIZE) 0xFF)"
    by (simp only: mem_write_append erased_page_def replicate_add [symmetric]) simp
  finally show ?case .
qed

lemma flash_operate_ext_no_erase:
  "in_flash a (length d) \<Longrightarrow> (\<forall>i < length d. m (a + i) = 0xFF) \<Longrightarrow>
     flash_operate_ext drv bb flash_op_writeNoErase m a ra d (length d) = mem_write m a d"
proof (induction "length d" arbitrary: m a ra d rule: less_induct)
  case less
  show ?case
  proof (cases "d = []")
    case True
    then show ?thesis by (simp add: flash_operate_ext.simps)
  next
    case False
    define k where "k = page_chunk a (length d)"
    have k: "0 < k" "k \<le> length d"
      using False page_chunk_pos page_chunk_le by (simp_all add: k_def)
    have fk: "in_flash a k" using less.prems k by (simp add: in_flash_take)
    have step: "send_write_flash_msg drv m flash_op_writeNoErase bb (take k d) a k
        = mem_write m a (take k d)"
      using fk less.prems(2) k by (simp add: send_write_flash_msg_def dsp_writeNoErase_law)
    have ff: "\<forall>i < length (drop k d). mem_write m a (take k d) (a + k + i) = 0xFF"
      using less.prems(2) k
      by (auto simp: mem_write_def) (metis add.assoc less_diff_conv add.commute)
    have "flash_operate_ext drv bb flash_op_writeNoErase (mem_write m a (take k d)) (a + k)
        (ra + of_nat k) (drop k d) (length d - k) = mem_write m a d"
      using less.hyps [of "drop k d" "a + k" "mem_write m a (take k d)"] k ff less.prems(1)
      by (simp add: in_flash_drop mem_write_split)
    then show ?thesis
      using False step
      by (subst flash_operate_ext.simps) (simp add: Let_def k_def [symmetric])
  qed
qed

end

section \<open>A NOR flash\<close>

text \<open>
  Programming can only clear bits; the DSP's task finds the page behind the address of its
  own view.
\<close>

definition nor_program :: "mem \<Rightarrow> nat \<Rightarrow> u8 list \<Rightarrow> mem" where
  "nor_program m a d = (\<lambda>x. if a \<le> x \<and> x < a + length d then m x AND d ! (x - a) else m x)"

definition nor_task :: "flash_PE_st \<Rightarrow> mem \<Rightarrow> mem" where
  "nor_task pe m =
     (let a = unat (get_ARM_Addr_from_Dsp (destAddr pe))
      in case operation pe of
           flash_op_erase \<Rightarrow> mem_write m a erased_page
         | flash_op_writeErase \<Rightarrow> nor_program (mem_write m a erased_page) a (srcBytes pe)
         | flash_op_writeNoErase \<Rightarrow> nor_program m a (srcBytes pe)
         | _ \<Rightarrow> m)"

definition nor_drv :: flash_drv where
  "nor_drv = \<lparr>FLASH_ReadData = mem_read, FLASH_WriteData = nor_program,
     FLASH_SectorErase = (\<lambda>m a. mem_write m a erased_page), dsp_flash_task = nor_task\<rparr>"

lemma ff_and: "(0xFF :: u8) AND b = b"
proof -
  have "(0xFF :: u8) = -1" by simp
  then show ?thesis by (simp only: and.left_neutral)
qed

lemma nor_program_erased:
  assumes "\<forall>i < length d. m (a + i) = 0xFF"
  shows "nor_program m a d = mem_write m a d"
proof (rule ext)
  fix x
  show "nor_program m a d x = mem_write m a d x"
  proof (cases "a \<le> x \<and> x < a + length d")
    case True
    then have "x - a < length d" "a + (x - a) = x" by linarith+
    then have "m x = 0xFF" using assms by metis
    with True show ?thesis by (simp only: nor_program_def mem_write_def ff_and if_True)
  qed (simp only: nor_program_def mem_write_def if_False)
qed

lemma flash_addr_view:
  assumes "in_flash a n" "0 < n"
  shows "unat (get_ARM_Addr_from_Dsp (get_Dsp_Addr_from_ARM (of_nat a))) = a"
proof -
  have a: "0x27000000 \<le> a" "a < 0x27200000"
    using assms by (simp_all add: in_flash_def FLASH_BASE_def FLASH_LENGTH_def)
  then have u: "unat (of_nat a :: u32) = a" by (simp add: unat_of_nat take_bit_eq_mod)
  then have "m3_shared (of_nat a)"
    using a by (simp add: m3_shared_def word_le_nat_alt word_less_nat_alt)
  then show ?thesis using u by (simp add: dsp_addr_cases)
qed

interpretation nor: nor_flash nor_drv
proof
  fix a n m
  show "FLASH_ReadData nor_drv m a n = mem_read m a n" by (simp add: nor_drv_def)
next
  fix a m
  show "FLASH_SectorErase nor_drv m a = mem_write m a erased_page" by (simp add: nor_drv_def)
next
  fix a and d :: "u8 list" and m
  assume "\<forall>i < length d. m (a + i) = (0xFF :: u8)"
  then show "FLASH_WriteData nor_drv m a d = mem_write m a d"
    by (simp add: nor_drv_def nor_program_erased)
next
  fix a and pe :: flash_PE_st and m
  assume "in_flash a EFTL_PAGE_SIZE" "operation pe = flash_op_erase"
    "destAddr pe = get_Dsp_Addr_from_ARM (of_nat a)"
  then show "dsp_flash_task nor_drv pe m = mem_write m a erased_page"
    by (simp add: nor_drv_def nor_task_def Let_def flash_addr_view)
next
  fix a and pe :: flash_PE_st and m
  assume "in_flash a EFTL_PAGE_SIZE" "operation pe = flash_op_writeErase"
    "destAddr pe = get_Dsp_Addr_from_ARM (of_nat a)" "length (srcBytes pe) = EFTL_PAGE_SIZE"
  then show "dsp_flash_task nor_drv pe m = mem_write m a (srcBytes pe)"
    by (simp add: nor_drv_def nor_task_def Let_def flash_addr_view nor_program_erased
        erased_after_erase mem_write_over)
next
  fix a and pe :: flash_PE_st and m
  assume h: "in_flash a (length (srcBytes pe))" "operation pe = flash_op_writeNoErase"
    "destAddr pe = get_Dsp_Addr_from_ARM (of_nat a)"
    "\<forall>i < length (srcBytes pe). m (a + i) = (0xFF :: u8)"
  show "dsp_flash_task nor_drv pe m = mem_write m a (srcBytes pe)"
  proof (cases "srcBytes pe = []")
    case True
    then show ?thesis using h by (simp add: nor_drv_def nor_task_def nor_program_erased Let_def)
  next
    case False
    then show ?thesis
      using h by (simp add: nor_drv_def nor_task_def Let_def flash_addr_view nor_program_erased)
  qed
qed

lemma nor_is_flash: "nor_flash nor_drv"
  by (rule nor.nor_flash_axioms)

end
