(* ===== verification/BaseProps.thy ===== *)
theory BaseProps
  imports Utils FlashAdapt
begin

text \<open>Properties of the conversions, the address windows and the page-wise flash writes.\<close>

text \<open>
  C4: the two ways to write flash agree.  Whatever the address and the length, inside the flash,
  both the local page loop \<open>flash_write_erase\<close> and the loop \<open>flash_operate_ext\<close> that sends each
  page to the DSP put exactly the given bytes at the given address and keep every other byte:
  the surrounding bytes of partly written pages survive the erase.
\<close>

theorem flash_write_paths_agree:
  assumes "nor_flash drv" and "in_flash a (length d)"
  shows "flash_write_erase drv m a d = Inr (mem_write m a d)
    \<and> flash_operate_ext drv bb flash_op_writeErase m a ra d (length d) = mem_write m a d"
  using nor_flash.flash_write_erase_is_write [OF assms] nor_flash.flash_operate_ext_is_write [OF assms]
  by simp

theorem flash_write_paths_agree_witness:
  "flash_write_erase nor_drv (\<lambda>_. 7) 0x27010FFF [1, 2] = Inr (mem_write (\<lambda>_. 7) 0x27010FFF [1, 2])
    \<and> flash_operate_ext nor_drv 0x20010000 flash_op_writeErase (\<lambda>_. 7) 0x27010FFF 0x20010001 [1, 2] 2
      = mem_write (\<lambda>_. 7) 0x27010FFF [1, 2]"
  using flash_write_paths_agree [OF nor_is_flash, where a = "0x27010FFF" and d = "[1, 2]"]
  by (simp add: in_flash_def memmap_defs numeral_2_eq_2)

text \<open>
  the calibration record in OTP is protected against any change of one of its words after
  the validity mark: a record that \<open>FLASH_OTP_CAL_Read_and_Check\<close> accepts is rejected with the
  checksum code when a word differs.
\<close>

lemma otp_word_damage_detected:
  assumes "FLASH_OTP_CAL_Read_and_Check w = 1" and "length w = otp_words"
    and "1 \<le> i" and "i < otp_words" and "x \<noteq> w ! i"
  shows "FLASH_OTP_CAL_Read_and_Check (w[i := x]) = 2"
proof -
  have crc: "w ! 0 = 0x55AA55AA" "otp_crc w = w ! (otp_words - 1)"
    using assms(1) by (simp_all only: otp_accepted_iff)
  have head: "w[i := x] ! 0 = 0x55AA55AA" using crc(1) assms(3) by simp
  have "otp_crc (w[i := x]) \<noteq> w[i := x] ! (otp_words - 1)"
  proof (cases "i = otp_words - 1")
    case True
    then have "otp_crc (w[i := x]) = otp_crc w" using otp_crc_update [of i w x] assms(2,4) by simp
    moreover have "w[i := x] ! (otp_words - 1) = x" using True assms(2,4) by simp
    ultimately show ?thesis using crc(2) True assms(5) by simp
  next
    case False
    then have "i < otp_words - 1" using assms(4) by linarith
    then have "otp_crc (w[i := x]) = otp_crc w XOR w ! i XOR x"
      using otp_crc_update [of i w x] assms(2,3,4) by simp
    moreover have "w[i := x] ! (otp_words - 1) = otp_crc w" using False crc(2) by simp
    moreover have "otp_crc w XOR w ! i XOR x \<noteq> otp_crc w"
      using xor_same_iff [of "otp_crc w"] assms(5) by auto
    ultimately show ?thesis by simp
  qed
  with head show ?thesis by (simp only: otp_rejected_iff simp_thms)
qed

lemma otp_word_damage_detected_witness:
  "FLASH_OTP_CAL_Read_and_Check ((0x55AA55AA # replicate 17 0)[5 := 1]) = 2"
proof -
  have "FLASH_OTP_CAL_Read_and_Check (0x55AA55AA # replicate 17 0) = 1"
    by (simp add: FLASH_OTP_CAL_Read_and_Check_def otp_crc_def otp_words_def upt_rec numeral_eq_Suc)
  from otp_word_damage_detected [OF this, of 5 1] show ?thesis
    by (simp add: otp_words_def)
qed

text \<open>
  a byte string sent as AT hex text comes back unchanged: \<open>hexstr2bytes\<close> inverts
  \<open>bytes2hexstr\<close> for every content, and both report the lengths they produced.
\<close>

lemma hexstr_roundtrip:
  assumes "int (length d) * 2 < dst_size"
  shows "\<exists>s. bytes2hexstr d dst_size = Inr (int (length d) * 2, s)
    \<and> hexstr2bytes s (int (length d) * 2) (int (length d)) = Inr (int (length d), d)"
proof -
  define s where "s = concat (map hex_pair d) @ [0]"
  have n: "nat (int (length d) * 2) = 2 * length d" by simp
  have e: "bytes2hexstr d dst_size = Inr (int (length d) * 2, s)"
    using assms by (simp add: bytes2hexstr_def s_def)
  have "hexstr2bytes_loop (2 * length d) s [] = Inr (True, d)"
    unfolding s_def using hexstr2bytes_loop_encode [of d "[0]" "[]"] by simp
  then have "hexstr2bytes s (int (length d) * 2) (int (length d)) = Inr (int (length d), d)"
    by (simp add: hexstr2bytes_def n)
  with e show ?thesis by blast
qed

lemma hexstr_roundtrip_witness:
  "\<exists>s. bytes2hexstr [0xAB, 0x09] 5 = Inr (4, s) \<and> hexstr2bytes s 4 2 = Inr (2, [0xAB, 0x09])"
  using hexstr_roundtrip [of "[0xAB, 0x09]" 5] by simp

text \<open>
  the address of a shared window survives the trip to the DSP's view and back, so a pointer
  handed over in a flash or memory message names the same byte on both sides.
\<close>

lemma shared_address_roundtrip:
  assumes "m3_shared a"
  shows "get_ARM_Addr_from_Dsp (get_Dsp_Addr_from_ARM a) = a"
  using assms by (rule dsp_addr_cases)

end
