(* ===== verification/Ftl.thy ===== *)
theory Ftl
  imports Utils FlashAdapt
begin

text \<open>
  \<open>SYSLIB/flash/src/xy_flash.c\<close>, with the battery check of
  \<open>USERAPP/basic/src/xy_sys_hook.c\<close>: flash access guarded by the voltage, and the FTL that
  spreads the writes of one NV block over several pages and finds the newest copy again.
  A page is \<open>magic, 4076 bytes of data, checksum of the first 0xFF0 bytes, write number\<close>.
  The debug strings are not modelled and the allocator always finds the page buffer, at the
  address \<open>align_buf\<close>.
\<close>

definition EFTL_MAGIC_NUM :: u32 where "EFTL_MAGIC_NUM = 0x5A5A5A5A"
definition EFTL_CSM_OFFSET :: nat where "EFTL_CSM_OFFSET = 0xFF0"
definition EFTL_WRITE_NUM_OFFSET :: nat where "EFTL_WRITE_NUM_OFFSET = 0xFF4"
definition XY_FTL_AVAILABLE_SIZE :: nat where "XY_FTL_AVAILABLE_SIZE = 0xFEC"

lemmas eftl_defs = EFTL_CSM_OFFSET_def EFTL_WRITE_NUM_OFFSET_def XY_FTL_AVAILABLE_SIZE_def
  EFTL_PAGE_SIZE_def

section \<open>State\<close>

text \<open>\<open>struct xy_eftl_cfg\<close>; the linked list is a list, newest registration first.\<close>

record xy_eftl_cfg =
  cfg_addr :: nat
  tpage_total :: nat

record sys =
  flash :: mem
  user_nv_cfgs :: "xy_eftl_cfg list"
  dsp_not_loaded :: bool
  g_have_suspend_dsp :: u8
  g_vBat_is_low :: bool
  min_mVbat :: u8
  xy_getVbat :: nat
  sys_up_soft_reset :: bool
  softreset_type :: rb_type
  align_buf :: nat

section \<open>xy_check_low_vBat, xy_is_enough_Capacity\<close>

text \<open>\<open>g_vBat_is_low\<close> is never cleared; the first low reading resets the system.\<close>

definition xy_check_low_vBat :: "sys \<Rightarrow> (xy_ret_Status_t \<times> sys) res" where
  "xy_check_low_vBat s =
     (if min_mVbat s = 0 then Inr (XY_OK, s)
      else if g_vBat_is_low s then Inr (XY_ERR, s)
      else if unat (min_mVbat s) * 100 < xy_getVbat s then Inr (XY_OK, s)
      else
        let s = s\<lparr>g_vBat_is_low := True\<rparr>
        in if sys_up_soft_reset s \<and> softreset_type s = RB_BY_LOW_VOL
           then Inr (XY_ERR, s)
           else Inl (SocReset RB_BY_LOW_VOL))"

definition xy_is_enough_Capacity :: "nat \<Rightarrow> u8 \<Rightarrow> xy_ret_Status_t" where
  "xy_is_enough_Capacity bCapacity min_mah =
     (if unat min_mah * 10 \<le> bCapacity then XY_OK else XY_ERR)"

definition battery_ok :: "sys \<Rightarrow> bool" where
  "battery_ok s \<longleftrightarrow>
     min_mVbat s = 0 \<or> (\<not> g_vBat_is_low s \<and> unat (min_mVbat s) * 100 < xy_getVbat s)"

section \<open>Flash access\<close>

definition dsp_off :: "sys \<Rightarrow> bool" where
  "dsp_off s \<longleftrightarrow> dsp_not_loaded s \<or> g_have_suspend_dsp s \<noteq> 0"

definition flash_args_ok :: "nat \<Rightarrow> nat \<Rightarrow> bool" where
  "flash_args_ok addr ram \<longleftrightarrow>
     FLASH_BASE \<le> addr \<and> addr \<le> FLASH_BASE + FLASH_LENGTH
     \<and> SRAM_BASE \<le> ram \<and> ram \<le> SRAM_BASE + SRAM_LENGTH"

definition xy_flash_read :: "flash_drv \<Rightarrow> sys \<Rightarrow> nat \<Rightarrow> nat \<Rightarrow> nat \<Rightarrow> u8 list res" where
  "xy_flash_read drv s addr ram sz =
     bind_res (xy_assert (flash_args_ok addr ram)) (\<lambda>_. Inr (flash_read drv (flash s) addr sz))"

definition ftl_read_write_num :: "sys \<Rightarrow> nat \<Rightarrow> u32" where
  "ftl_read_write_num s addr =
     load32 (flash s) (addr - addr mod EFTL_PAGE_SIZE + EFTL_WRITE_NUM_OFFSET)"

definition xy_flash_write ::
    "flash_drv \<Rightarrow> sys \<Rightarrow> nat \<Rightarrow> nat \<Rightarrow> u8 list \<Rightarrow> (xy_ret_Status_t \<times> sys) res" where
  "xy_flash_write drv s addr ram data =
     bind_res (xy_assert (flash_args_ok addr ram)) (\<lambda>_.
     bind_res (xy_check_low_vBat s) (\<lambda>(st, s).
       if st = XY_ERR then Inr (XY_Err_LowVbat, s)
       else bind_res
         (if dsp_off s then flash_write_erase drv (flash s) addr data
          else Inr (flash_operate_ext drv (of_nat (align_buf s)) flash_op_writeErase (flash s) addr
                     (of_nat ram) data (length data)))
         (\<lambda>m. Inr (XY_OK, s\<lparr>flash := m\<rparr>))))"

definition xy_flash_write_no_erase ::
    "flash_drv \<Rightarrow> sys \<Rightarrow> nat \<Rightarrow> nat \<Rightarrow> u8 list \<Rightarrow> (xy_ret_Status_t \<times> sys) res" where
  "xy_flash_write_no_erase drv s addr ram data =
     bind_res (xy_assert (flash_args_ok addr ram)) (\<lambda>_.
     bind_res (xy_check_low_vBat s) (\<lambda>(st, s).
       if st = XY_ERR then Inr (XY_Err_LowVbat, s)
       else Inr (XY_OK, s\<lparr>flash :=
         (if dsp_off s then flash_write_no_erase drv (flash s) addr data
          else flash_operate_ext drv (of_nat (align_buf s)) flash_op_writeNoErase (flash s) addr
                 (of_nat ram) data (length data))\<rparr>)))"

definition xy_flash_erase :: "flash_drv \<Rightarrow> sys \<Rightarrow> nat \<Rightarrow> nat \<Rightarrow> (xy_ret_Status_t \<times> sys) res" where
  "xy_flash_erase drv s addr sz =
     (let sz = (if sz < EFTL_PAGE_SIZE then EFTL_PAGE_SIZE else sz)
      in bind_res (xy_check_low_vBat s) (\<lambda>(st, s).
        if st = XY_ERR then Inr (XY_Err_LowVbat, s)
        else bind_res
          (if dsp_off s then flash_erase drv (flash s) addr sz
           else Inr (flash_operate_ext drv 0 flash_op_erase (flash s) addr 0 [] sz))
          (\<lambda>m. Inr (XY_OK, s\<lparr>flash := m\<rparr>))))"

section \<open>The registered blocks\<close>

definition is_ftl_flash_addr :: "sys \<Rightarrow> nat \<Rightarrow> xy_ret_Status_t" where
  "is_ftl_flash_addr s addr =
     (if \<exists>c \<in> set (user_nv_cfgs s).
           cfg_addr c \<le> addr \<and> addr < cfg_addr c + tpage_total c * EFTL_PAGE_SIZE
      then XY_OK else XY_ERR)"

definition find_valid_ftl_cfg :: "sys \<Rightarrow> nat \<Rightarrow> xy_eftl_cfg option" where
  "find_valid_ftl_cfg s addr = find (\<lambda>c. cfg_addr c = addr) (user_nv_cfgs s)"

definition xy_regist_ftl_req :: "sys \<Rightarrow> nat \<Rightarrow> nat \<Rightarrow> sys res" where
  "xy_regist_ftl_req s addr sz =
     bind_res (xy_assert (addr mod EFTL_PAGE_SIZE = 0 \<and> sz mod EFTL_PAGE_SIZE = 0)) (\<lambda>_.
       Inr (s\<lparr>user_nv_cfgs :=
         \<lparr>cfg_addr = addr, tpage_total = sz div EFTL_PAGE_SIZE\<rparr> # user_nv_cfgs s\<rparr>))"

definition xy_nv_ftl_init :: "sys \<Rightarrow> sys res" where
  "xy_nv_ftl_init s =
     bind_res (xy_regist_ftl_req s NV_FLASH_FACTORY_BASE NV_FLASH_FACTORY_LEN) (\<lambda>s.
     bind_res (xy_regist_ftl_req s NV_FLASH_DSP_VOLATILE_BASE NV_FLASH_DSP_VOLATILE_LEN) (\<lambda>s.
     bind_res (xy_regist_ftl_req s NV_FLASH_DSP_NON_VOLATILE_BASE NV_FLASH_DSP_NON_VOLATILE_LEN) (\<lambda>s.
     xy_regist_ftl_req s NV_FLASH_NET_BASE NV_FLASH_NET_LEN)))"

section \<open>Choosing the valid page\<close>

text \<open>An index of the C code is \<open>Some i\<close>, its \<open>-1\<close> is \<open>None\<close>.\<close>

definition page_write_num :: "mem \<Rightarrow> nat \<Rightarrow> nat \<Rightarrow> u32" where
  "page_write_num m addr i = load32 m (addr + EFTL_PAGE_SIZE * i + EFTL_WRITE_NUM_OFFSET)"

definition page_marked :: "mem \<Rightarrow> nat \<Rightarrow> nat \<Rightarrow> bool" where
  "page_marked m addr i \<longleftrightarrow>
     load32 m (addr + EFTL_PAGE_SIZE * i) = EFTL_MAGIC_NUM
     \<and> page_write_num m addr i \<noteq> 0xFFFFFFFF \<and> page_write_num m addr i \<noteq> 0"

definition scan_pages :: "mem \<Rightarrow> nat \<Rightarrow> nat list \<Rightarrow> u32 \<times> nat option \<Rightarrow> u32 \<times> nat option" where
  "scan_pages m addr is =
     fold (\<lambda>i (max_writenum, valid_page).
       if page_marked m addr i \<and> max_writenum \<le> page_write_num m addr i
       then (page_write_num m addr i, Some i)
       else (max_writenum, valid_page)) is"

text \<open>
  The loop behind \<open>CHOOSE_AGAIN\<close>: \<open>valid_page\<close> is reset by every round, \<open>max_writenum\<close> is not.
\<close>

fun choose_again ::
    "flash_drv \<Rightarrow> nat \<Rightarrow> sys \<Rightarrow> xy_eftl_cfg \<Rightarrow> u32 \<Rightarrow> ((nat option \<times> nat) \<times> sys) res" where
  "choose_again drv 0 s cfg max_writenum = Inl NonReturn"
| "choose_again drv (Suc fuel) s cfg max_writenum =
     (case scan_pages (flash s) (cfg_addr cfg) [0..<tpage_total cfg] (max_writenum, None) of
        (max_writenum, None) \<Rightarrow> Inr ((None, 0), s)
      | (max_writenum, Some i) \<Rightarrow>
          let page = cfg_addr cfg + EFTL_PAGE_SIZE * i
          in bind_res (xy_flash_read drv s page (align_buf s) EFTL_PAGE_SIZE) (\<lambda>temp.
               if get32 temp EFTL_CSM_OFFSET \<noteq> xy_chksum (take EFTL_CSM_OFFSET temp)
               then bind_res (xy_flash_erase drv s page EFTL_PAGE_SIZE)
                      (\<lambda>(_, s). choose_again drv fuel s cfg max_writenum)
               else Inr ((Some i, (i + 1) mod tpage_total cfg), s)))"

text \<open>Each erased page loses its mark, so one round more than there are pages is enough.\<close>

definition xy_choose_valid_ftl :: "flash_drv \<Rightarrow> sys \<Rightarrow> nat \<Rightarrow> ((nat option \<times> nat) \<times> sys) res" where
  "xy_choose_valid_ftl drv s addr =
     (case find_valid_ftl_cfg s addr of
        None \<Rightarrow> Inl AssertFail
      | Some cfg \<Rightarrow> choose_again drv (tpage_total cfg + 1) s cfg 0)"

section \<open>xy_ftl_read, xy_ftl_write\<close>

definition xy_ftl_read ::
    "flash_drv \<Rightarrow> sys \<Rightarrow> nat \<Rightarrow> nat \<Rightarrow> ((xy_ret_Status_t \<times> u8 list option) \<times> sys) res" where
  "xy_ftl_read drv s addr sz =
     (let offset = addr mod EFTL_PAGE_SIZE; addr_align = addr - offset
      in bind_res (xy_assert (sz \<le> XY_FTL_AVAILABLE_SIZE)) (\<lambda>_.
         bind_res (xy_assert (addr + sz \<le> addr_align + EFTL_CSM_OFFSET)) (\<lambda>_.
         bind_res (xy_choose_valid_ftl drv s addr_align) (\<lambda>((cur, next), s).
           case cur of
             None \<Rightarrow>
               if addr_align = NV_FLASH_FACTORY_BASE
               then Inr ((XY_OK, Some (flash_read drv (flash s) (NV_FLASH_MAIN_FACTORY_BASE + offset) sz)), s)
               else Inr ((XY_ERR, None), s)
           | Some i \<Rightarrow>
               bind_res (xy_flash_read drv s (addr_align + EFTL_PAGE_SIZE * i) (align_buf s) EFTL_PAGE_SIZE)
                 (\<lambda>temp. Inr ((XY_OK, Some (take sz (drop (4 + offset) temp))), s))))))"

text \<open>
  The page \<open>xy_ftl_write\<close> is about to program: magic, the old data with the new bytes in
  it, checksum, next write number.
\<close>

definition ftl_new_page :: "u8 list \<Rightarrow> nat \<Rightarrow> u8 list \<Rightarrow> u8 list" where
  "ftl_new_page p_page_buf p data =
     (let b = put32 p_page_buf 0 EFTL_MAGIC_NUM;
          b = blit b p data;
          b = put32 b EFTL_CSM_OFFSET (xy_chksum (take EFTL_CSM_OFFSET b));
          write_num = get32 b EFTL_WRITE_NUM_OFFSET;
          write_num = (if write_num = 0xFFFFFFFF then 0 else write_num)
      in put32 b EFTL_WRITE_NUM_OFFSET (write_num + 1))"

text \<open>
  What \<open>p_page_buf\<close> holds before the new bytes: the current page, the main factory NV (its
  first word is overwritten by the magic before anything reads it), or zeros.
\<close>

definition ftl_old_page :: "flash_drv \<Rightarrow> sys \<Rightarrow> nat \<Rightarrow> nat option \<Rightarrow> u8 list res" where
  "ftl_old_page drv s page_addr_base cur =
     (case cur of
        Some i \<Rightarrow> xy_flash_read drv s (page_addr_base + EFTL_PAGE_SIZE * i) (align_buf s) EFTL_PAGE_SIZE
      | None \<Rightarrow>
          if page_addr_base = NV_FLASH_FACTORY_BASE
          then bind_res (xy_flash_read drv s NV_FLASH_MAIN_FACTORY_BASE (align_buf s + 4) (EFTL_PAGE_SIZE - 4))
                 (\<lambda>d. Inr (replicate 4 0 @ d))
          else Inr (replicate EFTL_PAGE_SIZE 0))"

definition xy_ftl_write ::
    "flash_drv \<Rightarrow> sys \<Rightarrow> nat \<Rightarrow> int \<Rightarrow> u8 list \<Rightarrow> (xy_ret_Status_t \<times> sys) res" where
  "xy_ftl_write drv s page_addr_base offset data =
     bind_res (xy_assert ((offset + int (length data)) mod 2 ^ 32 \<le> int XY_FTL_AVAILABLE_SIZE)) (\<lambda>_.
     bind_res (xy_choose_valid_ftl drv s page_addr_base) (\<lambda>((cur, next), s).
     bind_res (ftl_old_page drv s page_addr_base cur) (\<lambda>p_page_buf.
       if 4 + offset < 0 \<or> int EFTL_PAGE_SIZE < 4 + offset + int (length data) then Inl BadAccess
       else
         let p = nat (4 + offset)
         in if cur \<noteq> None \<and> take (length data) (drop p p_page_buf) = data then Inr (XY_OK, s)
            else bind_res
              (xy_flash_write drv s (page_addr_base + EFTL_PAGE_SIZE * next) (align_buf s)
                (ftl_new_page p_page_buf p data))
              (\<lambda>(ret, s).
                if ret \<noteq> XY_OK then Inr (ret, s)
                else bind_res
                  (xy_assert (load32 (flash s) (page_addr_base + EFTL_PAGE_SIZE * next) = EFTL_MAGIC_NUM))
                  (\<lambda>_. Inr (XY_OK, s))))))"

text \<open>\<open>CheckFactoryNvValid\<close>, run before \<open>main\<close>: the current factory page, \<open>0\<close> if there is none.\<close>

definition CheckFactoryNvValid :: "mem \<Rightarrow> nat" where
  "CheckFactoryNvValid m =
     (case snd (scan_pages m NV_FLASH_FACTORY_BASE [0..<NV_FLASH_FACTORY_LEN div EFTL_PAGE_SIZE] (0, None)) of
        None \<Rightarrow> 0
      | Some i \<Rightarrow> NV_FLASH_FACTORY_BASE + EFTL_PAGE_SIZE * i)"

end
