(* ===== verification/FtlSpec.thy ===== *)
theory FtlSpec
  imports Ftl
begin

text \<open>
  What the FTL promises, stated over the content of a block: \<open>ftl_content\<close> is the data
  a reader sees.  Reading returns a slice of it and writing replaces a slice of it; the
  lemmas follow the code from the pages up.
\<close>

section \<open>Guarded flash access\<close>

lemma battery_ok_check: "battery_ok s \<Longrightarrow> xy_check_low_vBat s = Inr (XY_OK, s)"
  by (auto simp: battery_ok_def xy_check_low_vBat_def)

lemma battery_ok_flash [simp]: "battery_ok (s\<lparr>flash := m\<rparr>) = battery_ok s"
  by (simp add: battery_ok_def)

lemma dsp_off_flash [simp]: "dsp_off (s\<lparr>flash := m\<rparr>) = dsp_off s"
  by (simp add: dsp_off_def)

definition buf_ok :: "sys \<Rightarrow> bool" where
  "buf_ok s \<longleftrightarrow> SRAM_BASE \<le> align_buf s \<and> align_buf s + EFTL_PAGE_SIZE \<le> SRAM_BASE + SRAM_LENGTH"

lemma flash_args_ok_intro:
  "in_flash a n \<Longrightarrow> SRAM_BASE \<le> ram \<Longrightarrow> ram \<le> SRAM_BASE + SRAM_LENGTH \<Longrightarrow> flash_args_ok a ram"
  by (simp add: flash_args_ok_def in_flash_def)

context nor_flash
begin

lemma xy_flash_read_ok:
  assumes "in_flash a n" "SRAM_BASE \<le> ram" "ram \<le> SRAM_BASE + SRAM_LENGTH"
  shows "xy_flash_read drv s a ram n = Inr (mem_read (flash s) a n)"
  using assms by (simp add: xy_flash_read_def flash_args_ok_intro flash_read_def read_law)

lemma xy_flash_write_ok:
  assumes "in_flash a (length d)" "SRAM_BASE \<le> ram" "ram \<le> SRAM_BASE + SRAM_LENGTH" "battery_ok s"
  shows "xy_flash_write drv s a ram d = Inr (XY_OK, s\<lparr>flash := mem_write (flash s) a d\<rparr>)"
  using assms
  by (simp add: xy_flash_write_def flash_args_ok_intro battery_ok_check
      flash_write_erase_is_write flash_operate_ext_is_write)

lemma xy_flash_erase_page:
  assumes "in_flash a EFTL_PAGE_SIZE" "a mod EFTL_PAGE_SIZE = 0" "battery_ok s"
  shows "xy_flash_erase drv s a EFTL_PAGE_SIZE = Inr (XY_OK, s\<lparr>flash := mem_write (flash s) a erased_page\<rparr>)"
  using assms flash_operate_ext_is_erase [of a 1]
  by (simp add: xy_flash_erase_def battery_ok_check flash_erase_page erased_page_def)

end

section \<open>The scan for the newest page\<close>

lemma scan_pages_snoc:
  "scan_pages m a (is @ [n]) acc =
     (let (mx, v) = scan_pages m a is acc
      in if page_marked m a n \<and> mx \<le> page_write_num m a n then (page_write_num m a n, Some n) else (mx, v))"
  by (simp add: scan_pages_def split: prod.split)

lemma scan_pages_spec:
  assumes "scan_pages m a [0..<n] (mx0, None) = (mx, v)"
  shows "case v of
     None \<Rightarrow> mx = mx0 \<and> (\<forall>j < n. page_marked m a j \<longrightarrow> page_write_num m a j < mx0)
   | Some i \<Rightarrow> i < n \<and> page_marked m a i \<and> mx = page_write_num m a i \<and> mx0 \<le> mx
       \<and> (\<forall>j < n. page_marked m a j \<longrightarrow> page_write_num m a j \<le> mx)
       \<and> (\<forall>j < n. i < j \<longrightarrow> page_marked m a j \<longrightarrow> page_write_num m a j < mx)"
  using assms
proof (induction n arbitrary: mx v)
  case 0
  then show ?case by (simp add: scan_pages_def)
next
  case (Suc n)
  obtain mx1 v1 where r: "scan_pages m a [0..<n] (mx0, None) = (mx1, v1)" by fastforce
  note IH = Suc.IH [OF r]
  show ?case
  proof (cases "page_marked m a n \<and> mx1 \<le> page_write_num m a n")
    case True
    then have "mx = page_write_num m a n" "v = Some n"
      using Suc.prems by (simp_all add: scan_pages_snoc r)
    with IH True show ?thesis
      by (cases v1) (auto simp: less_Suc_eq intro: order.trans less_imp_le order.strict_trans2)
  next
    case False
    then have "mx = mx1" "v = v1"
      using Suc.prems by (auto simp add: scan_pages_snoc r)
    with IH False show ?thesis
      by (cases v1) (auto simp: less_Suc_eq)
  qed
qed

definition newest :: "mem \<Rightarrow> nat \<Rightarrow> nat \<Rightarrow> nat option" where
  "newest m a n = snd (scan_pages m a [0..<n] (0, None))"

lemma newest_None: "newest m a n = None \<Longrightarrow> j < n \<Longrightarrow> \<not> page_marked m a j"
proof -
  assume n: "newest m a n = None" and j: "j < n"
  obtain mx v where r: "scan_pages m a [0..<n] (0, None) = (mx, v)" by fastforce
  with scan_pages_spec [OF r] n j show ?thesis by (auto simp: newest_def)
qed

lemma newest_Some:
  assumes "newest m a n = Some i"
  shows "i < n" "page_marked m a i" "\<And>j. j < n \<Longrightarrow> page_marked m a j \<Longrightarrow> page_write_num m a j \<le> page_write_num m a i"
    "\<And>j. j < n \<Longrightarrow> i < j \<Longrightarrow> page_marked m a j \<Longrightarrow> page_write_num m a j < page_write_num m a i"
proof -
  obtain mx v where r: "scan_pages m a [0..<n] (0, None) = (mx, v)" by fastforce
  with scan_pages_spec [OF r] assms
  show "i < n" "page_marked m a i" "\<And>j. j < n \<Longrightarrow> page_marked m a j \<Longrightarrow> page_write_num m a j \<le> page_write_num m a i"
    "\<And>j. j < n \<Longrightarrow> i < j \<Longrightarrow> page_marked m a j \<Longrightarrow> page_write_num m a j < page_write_num m a i"
    by (auto simp: newest_def)
qed

text \<open>The scan takes the last of the pages with the largest number.\<close>

lemma scan_pages_unique:
  assumes "i < n" "page_marked m a i" "mx0 \<le> page_write_num m a i"
    and "\<And>j. j < n \<Longrightarrow> page_marked m a j \<Longrightarrow> page_write_num m a j \<le> page_write_num m a i"
    and "\<And>j. j < n \<Longrightarrow> i < j \<Longrightarrow> page_marked m a j \<Longrightarrow> page_write_num m a j < page_write_num m a i"
  shows "scan_pages m a [0..<n] (mx0, None) = (page_write_num m a i, Some i)"
proof -
  obtain mx v where r: "scan_pages m a [0..<n] (mx0, None) = (mx, v)" by fastforce
  note sp = scan_pages_spec [OF r]
  show ?thesis
  proof (cases v)
    case None
    then show ?thesis using sp assms(1,2,3) by (auto simp: not_less [symmetric])
  next
    case (Some k)
    then have k: "k < n" "page_marked m a k" "mx = page_write_num m a k"
      "page_write_num m a i \<le> mx" "i > k \<Longrightarrow> page_write_num m a i < mx"
      using sp assms(1,2) by auto
    have "page_write_num m a k \<le> page_write_num m a i" using assms(4) k by blast
    moreover have "k > i \<Longrightarrow> page_write_num m a k < page_write_num m a i" using assms(5) k by blast
    ultimately have "k = i" using k by (cases k i rule: linorder_cases) auto
    then show ?thesis using r Some k by simp
  qed
qed

lemma newest_unique:
  assumes "i < n" "page_marked m a i"
    and "\<And>j. j < n \<Longrightarrow> page_marked m a j \<Longrightarrow> page_write_num m a j \<le> page_write_num m a i"
    and "\<And>j. j < n \<Longrightarrow> i < j \<Longrightarrow> page_marked m a j \<Longrightarrow> page_write_num m a j < page_write_num m a i"
  shows "newest m a n = Some i"
  using scan_pages_unique [OF assms(1,2) _ assms(3,4), of 0] by (simp add: newest_def)

text \<open>Losing the mark of a page that is not the newest changes nothing.\<close>

lemma newest_remove:
  assumes "\<not> page_marked m' a k"
    and "\<And>j. j < n \<Longrightarrow> j \<noteq> k \<Longrightarrow> page_marked m' a j = page_marked m a j"
    and "\<And>j. j < n \<Longrightarrow> j \<noteq> k \<Longrightarrow> page_write_num m' a j = page_write_num m a j"
    and "newest m a n \<noteq> Some k"
  shows "newest m' a n = newest m a n"
proof (cases "newest m a n")
  case None
  then have "\<not> page_marked m' a j" if "j < n" for j
    using newest_None assms(1,2) that by metis
  then have "newest m' a n = None" using newest_Some(1,2) by (metis option.exhaust)
  with None show ?thesis by simp
next
  case (Some i)
  note n = newest_Some [OF Some]
  have "i \<noteq> k" using Some assms(4) by simp
  have "newest m' a n = Some i"
  proof (rule newest_unique)
    show "i < n" by (rule n(1))
    show "page_marked m' a i" using n assms(2) \<open>i \<noteq> k\<close> by simp
    fix j assume j: "j < n" "page_marked m' a j"
    then have "j \<noteq> k" using assms(1) by blast
    with j assms n \<open>i \<noteq> k\<close> show "page_write_num m' a j \<le> page_write_num m' a i"
      "i < j \<Longrightarrow> page_write_num m' a j < page_write_num m' a i" by simp_all
  qed
  with Some show ?thesis by simp
qed

section \<open>Content of a block\<close>

definition ftl_pages :: "sys \<Rightarrow> nat \<Rightarrow> nat" where
  "ftl_pages s base = (case find_valid_ftl_cfg s base of None \<Rightarrow> 0 | Some cfg \<Rightarrow> tpage_total cfg)"

definition ftl_ready :: "sys \<Rightarrow> nat \<Rightarrow> bool" where
  "ftl_ready s base \<longleftrightarrow>
     0 < ftl_pages s base \<and> base mod EFTL_PAGE_SIZE = 0
     \<and> in_flash base (EFTL_PAGE_SIZE * ftl_pages s base) \<and> buf_ok s"

definition page_good :: "mem \<Rightarrow> nat \<Rightarrow> nat \<Rightarrow> bool" where
  "page_good m base i \<longleftrightarrow>
     load32 m (base + EFTL_PAGE_SIZE * i + EFTL_CSM_OFFSET)
       = xy_chksum (mem_read m (base + EFTL_PAGE_SIZE * i) EFTL_CSM_OFFSET)"

definition ftl_newest :: "sys \<Rightarrow> nat \<Rightarrow> nat option" where
  "ftl_newest s base = newest (flash s) base (ftl_pages s base)"

definition ftl_sound :: "sys \<Rightarrow> nat \<Rightarrow> bool" where
  "ftl_sound s base \<longleftrightarrow> (case ftl_newest s base of None \<Rightarrow> True | Some i \<Rightarrow> page_good (flash s) base i)"

definition page_data :: "mem \<Rightarrow> nat \<Rightarrow> nat \<Rightarrow> u8 list" where
  "page_data m base i = mem_read m (base + EFTL_PAGE_SIZE * i + 4) XY_FTL_AVAILABLE_SIZE"

definition ftl_content :: "sys \<Rightarrow> nat \<Rightarrow> u8 list option" where
  "ftl_content s base =
     (case ftl_newest s base of
        Some i \<Rightarrow> Some (page_data (flash s) base i)
      | None \<Rightarrow> if base = NV_FLASH_FACTORY_BASE
                then Some (mem_read (flash s) NV_FLASH_MAIN_FACTORY_BASE XY_FTL_AVAILABLE_SIZE)
                else None)"

definition ftl_base_data :: "sys \<Rightarrow> nat \<Rightarrow> u8 list" where
  "ftl_base_data s base =
     (case ftl_content s base of Some d \<Rightarrow> d | None \<Rightarrow> replicate XY_FTL_AVAILABLE_SIZE 0)"

text \<open>The number the next write counts on from.\<close>

definition ftl_last_num :: "sys \<Rightarrow> nat \<Rightarrow> u32" where
  "ftl_last_num s base =
     (case ftl_newest s base of
        Some i \<Rightarrow> page_write_num (flash s) base i
      | None \<Rightarrow> if base = NV_FLASH_FACTORY_BASE
                then load32 (flash s) (NV_FLASH_MAIN_FACTORY_BASE + (EFTL_WRITE_NUM_OFFSET - 4))
                else 0)"

definition ftl_next :: "sys \<Rightarrow> nat \<Rightarrow> nat" where
  "ftl_next s base = (case ftl_newest s base of None \<Rightarrow> 0 | Some i \<Rightarrow> (i + 1) mod ftl_pages s base)"

lemma ftl_pages_flash [simp]: "ftl_pages (s\<lparr>flash := m\<rparr>) base = ftl_pages s base"
  by (simp add: ftl_pages_def find_valid_ftl_cfg_def)

lemma ftl_ready_flash [simp]: "ftl_ready (s\<lparr>flash := m\<rparr>) base = ftl_ready s base"
  by (simp add: ftl_ready_def buf_ok_def)

lemma find_cfg_addr: "find_valid_ftl_cfg s base = Some cfg \<Longrightarrow> cfg_addr cfg = base"
  by (auto simp: find_valid_ftl_cfg_def find_Some_iff)

lemma ftl_next_less: "ftl_ready s base \<Longrightarrow> ftl_next s base < ftl_pages s base"
  by (auto simp: ftl_next_def ftl_ready_def split: option.split)

lemma length_ftl_base_data [simp]: "length (ftl_base_data s base) = XY_FTL_AVAILABLE_SIZE"
  by (auto simp: ftl_base_data_def ftl_content_def page_data_def split: option.splits if_splits)

lemma ready_buf:
  "ftl_ready s base \<Longrightarrow> SRAM_BASE \<le> align_buf s" "ftl_ready s base \<Longrightarrow> align_buf s \<le> SRAM_BASE + SRAM_LENGTH"
  by (simp_all add: ftl_ready_def buf_ok_def)

lemma ready_page:
  assumes "ftl_ready s base" "i < ftl_pages s base"
  shows "in_flash (base + EFTL_PAGE_SIZE * i) EFTL_PAGE_SIZE" "(base + EFTL_PAGE_SIZE * i) mod EFTL_PAGE_SIZE = 0"
proof -
  have "EFTL_PAGE_SIZE * i + EFTL_PAGE_SIZE \<le> EFTL_PAGE_SIZE * ftl_pages s base"
    using assms(2) mult_le_mono2 [of "Suc i" "ftl_pages s base" EFTL_PAGE_SIZE] by simp
  then show "in_flash (base + EFTL_PAGE_SIZE * i) EFTL_PAGE_SIZE"
    using assms(1) by (simp add: ftl_ready_def in_flash_def)
  show "(base + EFTL_PAGE_SIZE * i) mod EFTL_PAGE_SIZE = 0"
    using assms(1) by (simp add: ftl_ready_def mod_add_left_eq [symmetric])
qed

section \<open>Choosing\<close>

context nor_flash
begin

lemma page_check:
  assumes "ftl_ready s base" "i < ftl_pages s base"
  defines "page \<equiv> mem_read (flash s) (base + EFTL_PAGE_SIZE * i) EFTL_PAGE_SIZE"
  shows "xy_flash_read drv s (base + EFTL_PAGE_SIZE * i) (align_buf s) EFTL_PAGE_SIZE = Inr page"
    and "get32 page EFTL_CSM_OFFSET = xy_chksum (take EFTL_CSM_OFFSET page) \<longleftrightarrow> page_good (flash s) base i"
proof -
  show "xy_flash_read drv s (base + EFTL_PAGE_SIZE * i) (align_buf s) EFTL_PAGE_SIZE = Inr page"
    using ready_page [OF assms(1,2)] ready_buf [OF assms(1)] by (simp add: xy_flash_read_ok page_def)
  show "get32 page EFTL_CSM_OFFSET = xy_chksum (take EFTL_CSM_OFFSET page) \<longleftrightarrow> page_good (flash s) base i"
    by (simp add: page_def page_good_def take_mem_read get32_mem_read eftl_defs)
qed

lemma choose_sound:
  assumes "ftl_ready s base" "ftl_sound s base"
  shows "xy_choose_valid_ftl drv s base = Inr ((ftl_newest s base, ftl_next s base), s)"
proof -
  obtain cfg where cfg: "find_valid_ftl_cfg s base = Some cfg" "cfg_addr cfg = base"
      "tpage_total cfg = ftl_pages s base"
    using assms(1) by (auto simp: ftl_ready_def ftl_pages_def find_cfg_addr split: option.splits)
  obtain mx v where r: "scan_pages (flash s) base [0..<ftl_pages s base] (0, None) = (mx, v)" by fastforce
  then have v: "ftl_newest s base = v" by (simp add: ftl_newest_def newest_def)
  show ?thesis
  proof (cases v)
    case None
    then show ?thesis using cfg r v by (simp add: xy_choose_valid_ftl_def ftl_next_def)
  next
    case (Some i)
    have i: "i < ftl_pages s base"
      using newest_Some(1) v Some by (simp add: ftl_newest_def)
    have "page_good (flash s) base i" using assms(2) v Some by (simp add: ftl_sound_def)
    then show ?thesis
      using cfg r v Some page_check [OF assms(1) i]
      by (simp add: xy_choose_valid_ftl_def ftl_next_def Let_def)
  qed
qed

lemma read_sound:
  assumes "ftl_ready s base" "ftl_sound s base" "off + n \<le> XY_FTL_AVAILABLE_SIZE"
  shows "xy_ftl_read drv s (base + off) n =
    Inr (case ftl_content s base of
           None \<Rightarrow> ((XY_ERR, None), s)
         | Some d \<Rightarrow> ((XY_OK, Some (take n (drop off d))), s))"
proof -
  have b: "base mod EFTL_PAGE_SIZE = 0" using assms(1) by (simp add: ftl_ready_def)
  have off: "(base + off) mod EFTL_PAGE_SIZE = off"
    using b assms(3) by (simp add: mod_add_left_eq [symmetric] eftl_defs)
  note ch = choose_sound [OF assms(1,2)]
  have le: "n \<le> XY_FTL_AVAILABLE_SIZE" "off + n \<le> EFTL_CSM_OFFSET" using assms(3) by (simp_all add: eftl_defs)
  show ?thesis
  proof (cases "ftl_newest s base")
    case None
    have "in_flash (NV_FLASH_MAIN_FACTORY_BASE + off) n"
      using assms(3) by (simp add: in_flash_def memmap_defs eftl_defs)
    then show ?thesis
      using None le assms(3)
      by (simp add: xy_ftl_read_def Let_def off ch ftl_content_def flash_read_def read_law take_mem_read
          drop_mem_read)
  next
    case (Some i)
    have i: "i < ftl_pages s base" using Some newest_Some(1) by (simp add: ftl_newest_def)
    have "take n (drop (4 + off) (mem_read (flash s) (base + EFTL_PAGE_SIZE * i) EFTL_PAGE_SIZE))
        = take n (drop off (page_data (flash s) base i))"
      using assms(3) by (simp add: page_data_def drop_mem_read take_mem_read eftl_defs ac_simps)
    then show ?thesis
      using Some le page_check(1) [OF assms(1) i]
      by (simp add: xy_ftl_read_def Let_def off ch ftl_content_def)
  qed
qed

end

section \<open>The page that is written\<close>

lemma take_put32_below: "off + 4 \<le> length b \<Longrightarrow> n \<le> off \<Longrightarrow> take n (put32 b off v) = take n b"
  by (simp add: put32_def blit_take_below)

lemma length_put32 [simp]: "off + 4 \<le> length b \<Longrightarrow> length (put32 b off v) = length b"
  by (simp add: put32_def)

lemma get32_put32_other:
  "off + 4 \<le> length b \<Longrightarrow> p + 4 \<le> off \<or> off + 4 \<le> p \<Longrightarrow> p + 4 \<le> length b \<Longrightarrow>
     get32 (put32 b off v) p = get32 b p"
  by (simp add: put32_def get32_blit_disjoint)

lemma read_put32_other:
  "off + 4 \<le> length b \<Longrightarrow> p + n \<le> off \<or> off + 4 \<le> p \<Longrightarrow> p + n \<le> length b \<Longrightarrow>
     take n (drop p (put32 b off v)) = take n (drop p b)"
  by (simp add: put32_def blit_read_disjoint)

lemma blit_slice:
  assumes "a \<le> p" "p + length d \<le> a + n" "a + n \<le> length b"
  shows "take n (drop a (blit b p d)) = blit (take n (drop a b)) (p - a) d"
  using assms by (intro nth_equalityI) (auto simp: nth_blit add.commute)

definition next_num :: "u32 \<Rightarrow> u32" where
  "next_num w = (if w = 0xFFFFFFFF then 0 else w) + 1"

lemma new_page_facts:
  assumes l: "length buf = EFTL_PAGE_SIZE" and p: "4 \<le> p" "p + length d \<le> EFTL_CSM_OFFSET"
  defines "page \<equiv> ftl_new_page buf p d"
  shows "length page = EFTL_PAGE_SIZE"
    and "get32 page 0 = EFTL_MAGIC_NUM"
    and "get32 page EFTL_CSM_OFFSET = xy_chksum (take EFTL_CSM_OFFSET page)"
    and "get32 page EFTL_WRITE_NUM_OFFSET = next_num (get32 buf EFTL_WRITE_NUM_OFFSET)"
    and "take XY_FTL_AVAILABLE_SIZE (drop 4 page) = blit (take XY_FTL_AVAILABLE_SIZE (drop 4 buf)) (p - 4) d"
proof -
  define b1 b2 where "b1 = put32 buf 0 EFTL_MAGIC_NUM" and "b2 = blit b1 p d"
  define b3 where "b3 = put32 b2 EFTL_CSM_OFFSET (xy_chksum (take EFTL_CSM_OFFSET b2))"
  have page: "page = put32 b3 EFTL_WRITE_NUM_OFFSET (next_num (get32 b3 EFTL_WRITE_NUM_OFFSET))"
    by (simp add: page_def ftl_new_page_def b1_def b2_def b3_def Let_def next_num_def)
  have l1: "length b1 = EFTL_PAGE_SIZE" using l by (simp add: b1_def eftl_defs)
  have l2: "length b2 = EFTL_PAGE_SIZE" using l1 p by (simp add: b2_def eftl_defs)
  have l3: "length b3 = EFTL_PAGE_SIZE" using l2 by (simp add: b3_def eftl_defs)
  show "length page = EFTL_PAGE_SIZE" using l3 by (simp add: page eftl_defs)
  show "get32 page 0 = EFTL_MAGIC_NUM"
    using l l1 l2 l3 p
    by (simp add: page b3_def get32_put32_other eftl_defs b2_def get32_blit_disjoint) (simp add: b1_def)
  have "take EFTL_CSM_OFFSET page = take EFTL_CSM_OFFSET b2"
    using l2 l3 by (simp add: page b3_def take_put32_below eftl_defs)
  moreover have "get32 page EFTL_CSM_OFFSET = xy_chksum (take EFTL_CSM_OFFSET b2)"
    using l2 l3 by (simp add: page get32_put32_other eftl_defs) (simp add: b3_def eftl_defs)
  ultimately show "get32 page EFTL_CSM_OFFSET = xy_chksum (take EFTL_CSM_OFFSET page)" by simp
  have "get32 b3 EFTL_WRITE_NUM_OFFSET = get32 buf EFTL_WRITE_NUM_OFFSET"
    using l l1 l2 p
    by (simp add: b3_def get32_put32_other eftl_defs b2_def get32_blit_disjoint b1_def)
  then show "get32 page EFTL_WRITE_NUM_OFFSET = next_num (get32 buf EFTL_WRITE_NUM_OFFSET)"
    using l3 by (simp add: page eftl_defs)
  have "take XY_FTL_AVAILABLE_SIZE (drop 4 page) = take XY_FTL_AVAILABLE_SIZE (drop 4 b2)"
    using l2 l3 by (simp add: page b3_def read_put32_other eftl_defs)
  also have "\<dots> = blit (take XY_FTL_AVAILABLE_SIZE (drop 4 b1)) (p - 4) d"
    using p l1 by (simp add: b2_def blit_slice eftl_defs)
  also have "take XY_FTL_AVAILABLE_SIZE (drop 4 b1) = take XY_FTL_AVAILABLE_SIZE (drop 4 buf)"
    using l by (simp add: b1_def read_put32_other eftl_defs)
  finally show "take XY_FTL_AVAILABLE_SIZE (drop 4 page) = blit (take XY_FTL_AVAILABLE_SIZE (drop 4 buf)) (p - 4) d" .
qed

text \<open>Programming page \<open>i\<close> leaves the other pages of the block as they were.\<close>

lemma other_page:
  assumes "j \<noteq> i" "length d = EFTL_PAGE_SIZE" "k \<le> EFTL_PAGE_SIZE"
  shows "base + EFTL_PAGE_SIZE * j + k \<le> base + EFTL_PAGE_SIZE * i
    \<or> base + EFTL_PAGE_SIZE * i + length d \<le> base + EFTL_PAGE_SIZE * j"
proof (cases "j < i")
  case True
  then have "EFTL_PAGE_SIZE * Suc j \<le> EFTL_PAGE_SIZE * i" by (intro mult_le_mono2) simp
  then show ?thesis using assms(3) by simp
next
  case False
  then have "EFTL_PAGE_SIZE * Suc i \<le> EFTL_PAGE_SIZE * j" using assms(1) by (intro mult_le_mono2) simp
  then show ?thesis using assms(2) by simp
qed

lemma other_page_load32:
  assumes "j \<noteq> i" "length d = EFTL_PAGE_SIZE" "off + 4 \<le> EFTL_PAGE_SIZE"
  shows "load32 (mem_write m (base + EFTL_PAGE_SIZE * i) d) (base + EFTL_PAGE_SIZE * j + off)
    = load32 m (base + EFTL_PAGE_SIZE * j + off)"
  using other_page [OF assms(1,2), of "EFTL_PAGE_SIZE" base] assms
  by (intro load32_mem_write_outside) linarith

lemma other_page_kept:
  fixes m :: mem and base :: nat
  assumes "j \<noteq> i" "length d = EFTL_PAGE_SIZE"
  defines "m' \<equiv> mem_write m (base + EFTL_PAGE_SIZE * i) d"
  shows "page_marked m' base j = page_marked m base j"
    and "page_write_num m' base j = page_write_num m base j"
    and "page_good m' base j = page_good m base j"
    and "page_data m' base j = page_data m base j"
proof -
  note o = other_page_load32 [OF assms(1,2), where m = m and base = base]
  have r: "off + n \<le> EFTL_PAGE_SIZE \<Longrightarrow>
      mem_read m' (base + EFTL_PAGE_SIZE * j + off) n = mem_read m (base + EFTL_PAGE_SIZE * j + off) n" for off n
    using other_page [OF assms(1,2), of EFTL_PAGE_SIZE base] assms(2) unfolding m'_def
    by (intro mem_read_write_disjoint) linarith
  show n: "page_write_num m' base j = page_write_num m base j"
    using o [of EFTL_WRITE_NUM_OFFSET] by (simp add: page_write_num_def m'_def eftl_defs)
  show "page_marked m' base j = page_marked m base j"
    using o [of 0] n by (simp add: page_marked_def m'_def) (simp add: eftl_defs)
  show "page_good m' base j = page_good m base j"
    using o [of EFTL_CSM_OFFSET] r [of 0 EFTL_CSM_OFFSET] by (simp add: page_good_def m'_def eftl_defs)
  show "page_data m' base j = page_data m base j"
    using r [of 4 XY_FTL_AVAILABLE_SIZE] by (simp add: page_data_def eftl_defs)
qed

lemma written_page_read:
  assumes "length d = EFTL_PAGE_SIZE" "off + n \<le> EFTL_PAGE_SIZE"
  shows "mem_read (mem_write m a d) (a + off) n = take n (drop off d)"
  using assms mem_read_write_inside [of a "a + off" n d m] by simp

lemma written_page_load32:
  assumes "length d = EFTL_PAGE_SIZE" "off + 4 \<le> EFTL_PAGE_SIZE"
  shows "load32 (mem_write m a d) (a + off) = get32 d off"
  using assms load32_mem_write_inside [of a "a + off" d m] by simp

text \<open>A complete page with a larger number than every other becomes the newest one.\<close>

lemma newest_after_write:
  assumes "i < n" "length page = EFTL_PAGE_SIZE"
    and "get32 page 0 = EFTL_MAGIC_NUM"
    and "get32 page EFTL_CSM_OFFSET = xy_chksum (take EFTL_CSM_OFFSET page)"
    and num: "get32 page EFTL_WRITE_NUM_OFFSET = w" "w \<noteq> 0" "w \<noteq> 0xFFFFFFFF"
    and old: "\<And>j. j < n \<Longrightarrow> j \<noteq> i \<Longrightarrow> page_marked m base j \<Longrightarrow> page_write_num m base j < w"
  defines "m' \<equiv> mem_write m (base + EFTL_PAGE_SIZE * i) page"
  shows "newest m' base n = Some i" and "page_good m' base i"
    and "page_data m' base i = take XY_FTL_AVAILABLE_SIZE (drop 4 page)"
    and "page_write_num m' base i = w"
proof -
  note wr = written_page_load32 [OF assms(2)] written_page_read [OF assms(2)]
  show n: "page_write_num m' base i = w"
    using num wr by (simp add: page_write_num_def m'_def eftl_defs)
  have "load32 m' (base + EFTL_PAGE_SIZE * i) = EFTL_MAGIC_NUM"
    using wr(1) [of 0] assms(3) by (simp add: m'_def) (simp add: eftl_defs)
  then have mk: "page_marked m' base i" using n num by (simp add: page_marked_def)
  show "newest m' base n = Some i"
  proof (rule newest_unique)
    fix j assume j: "j < n" "page_marked m' base j"
    have lt: "page_write_num m' base j < page_write_num m' base i" if "j \<noteq> i"
      using j old that n other_page_kept(1,2) [OF that assms(2), of m base] by (simp add: m'_def)
    then show "page_write_num m' base j \<le> page_write_num m' base i" by (cases "j = i") auto
    show "i < j \<Longrightarrow> page_write_num m' base j < page_write_num m' base i" using lt by simp
  qed (fact assms(1) mk)+
  show "page_good m' base i"
    using assms(4) wr(1) [of EFTL_CSM_OFFSET] wr(2) [of 0 EFTL_CSM_OFFSET]
    by (simp add: page_good_def m'_def eftl_defs)
  show "page_data m' base i = take XY_FTL_AVAILABLE_SIZE (drop 4 page)"
    using wr(2) [of 4 XY_FTL_AVAILABLE_SIZE] by (simp add: page_data_def m'_def eftl_defs)
qed

section \<open>Writing\<close>

context nor_flash
begin

lemma old_page_sound:
  assumes "ftl_ready s base"
  obtains buf where "ftl_old_page drv s base (ftl_newest s base) = Inr buf" "length buf = EFTL_PAGE_SIZE"
    "take XY_FTL_AVAILABLE_SIZE (drop 4 buf) = ftl_base_data s base"
    "get32 buf EFTL_WRITE_NUM_OFFSET = ftl_last_num s base"
proof (cases "ftl_newest s base")
  case (Some i)
  then have i: "i < ftl_pages s base" using newest_Some(1) by (simp add: ftl_newest_def)
  let ?buf = "mem_read (flash s) (base + EFTL_PAGE_SIZE * i) EFTL_PAGE_SIZE"
  show thesis
  proof (rule that [of ?buf])
    show "ftl_old_page drv s base (ftl_newest s base) = Inr ?buf"
      using Some page_check(1) [OF assms i] by (simp add: ftl_old_page_def)
    show "take XY_FTL_AVAILABLE_SIZE (drop 4 ?buf) = ftl_base_data s base"
      using Some
      by (simp add: ftl_base_data_def ftl_content_def page_data_def drop_mem_read take_mem_read eftl_defs)
    show "get32 ?buf EFTL_WRITE_NUM_OFFSET = ftl_last_num s base"
      using Some by (simp add: ftl_last_num_def page_write_num_def get32_mem_read eftl_defs)
  qed simp
next
  case None
  show thesis
  proof (cases "base = NV_FLASH_FACTORY_BASE")
    case True
    let ?d = "mem_read (flash s) NV_FLASH_MAIN_FACTORY_BASE (EFTL_PAGE_SIZE - 4)"
    have fl: "in_flash NV_FLASH_MAIN_FACTORY_BASE (EFTL_PAGE_SIZE - 4)"
      by (simp add: in_flash_def memmap_defs eftl_defs)
    have ram: "SRAM_BASE \<le> align_buf s + 4" "align_buf s + 4 \<le> SRAM_BASE + SRAM_LENGTH"
      using assms by (simp_all add: ftl_ready_def buf_ok_def eftl_defs)
    show thesis
    proof (rule that [of "replicate 4 0 @ ?d"])
      show "ftl_old_page drv s base (ftl_newest s base) = Inr (replicate 4 0 @ ?d)"
        using None True xy_flash_read_ok [OF fl ram] by (simp add: ftl_old_page_def)
      show "length (replicate 4 0 @ ?d) = EFTL_PAGE_SIZE" by (simp add: eftl_defs)
      show "take XY_FTL_AVAILABLE_SIZE (drop 4 (replicate 4 0 @ ?d)) = ftl_base_data s base"
        using None True by (simp add: ftl_base_data_def ftl_content_def take_mem_read eftl_defs)
      have "get32 (replicate 4 0 @ ?d) EFTL_WRITE_NUM_OFFSET = get32 ?d (EFTL_WRITE_NUM_OFFSET - 4)"
        by (simp add: get32_def nth_append eftl_defs)
      then show "get32 (replicate 4 0 @ ?d) EFTL_WRITE_NUM_OFFSET = ftl_last_num s base"
        using None True by (simp add: ftl_last_num_def get32_mem_read eftl_defs)
    qed
  next
    case False
    show thesis
    proof (rule that [of "replicate EFTL_PAGE_SIZE 0"])
      show "get32 (replicate EFTL_PAGE_SIZE 0) EFTL_WRITE_NUM_OFFSET = ftl_last_num s base"
        using None False by (simp add: ftl_last_num_def get32_def u32_of_def eftl_defs)
    qed (use None False in \<open>simp_all add: ftl_old_page_def ftl_base_data_def ftl_content_def eftl_defs\<close>)
  qed
qed

lemma next_num_facts:
  assumes "w \<noteq> 0xFFFFFFFE"
  shows "next_num w \<noteq> 0" "next_num w \<noteq> 0xFFFFFFFF" "w \<noteq> 0xFFFFFFFF \<Longrightarrow> w < next_num w"
proof -
  have w: "unat w < 4294967296" "unat w \<noteq> 4294967294"
    using assms u32_less [of w] by (simp_all add: word_unat_eq_iff)
  have u: "unat (next_num w) = (if unat w = 4294967295 then 1 else unat w + 1)"
    using w by (auto simp: next_num_def word_unat_eq_iff unat_word_ariths)
  show "next_num w \<noteq> 0" "next_num w \<noteq> 0xFFFFFFFF"
    using w u by (auto simp: word_unat_eq_iff)
  show "w \<noteq> 0xFFFFFFFF \<Longrightarrow> w < next_num w"
    using w u by (auto simp: word_unat_eq_iff word_less_nat_alt)
qed

lemma write_sound:
  assumes rdy: "ftl_ready s base" and snd: "ftl_sound s base" and bat: "battery_ok s"
    and fits: "off + length d \<le> XY_FTL_AVAILABLE_SIZE"
    and num: "ftl_last_num s base \<noteq> 0xFFFFFFFE"
  obtains m' where
    "xy_ftl_write drv s base (int off) d = Inr (XY_OK, s\<lparr>flash := m'\<rparr>)"
    "ftl_sound (s\<lparr>flash := m'\<rparr>) base"
    "ftl_content (s\<lparr>flash := m'\<rparr>) base = Some (blit (ftl_base_data s base) off d)"
    "\<And>x. x < base \<or> base + EFTL_PAGE_SIZE * ftl_pages s base \<le> x \<Longrightarrow> m' x = flash s x"
proof -
  obtain buf where buf: "ftl_old_page drv s base (ftl_newest s base) = Inr buf" "length buf = EFTL_PAGE_SIZE"
      "take XY_FTL_AVAILABLE_SIZE (drop 4 buf) = ftl_base_data s base"
      "get32 buf EFTL_WRITE_NUM_OFFSET = ftl_last_num s base"
    using old_page_sound [OF rdy] by blast
  have sz: "int off + int (length d) \<le> int XY_FTL_AVAILABLE_SIZE" using fits by simp
  then have modsz: "(int off + int (length d)) mod 2 ^ 32 \<le> int XY_FTL_AVAILABLE_SIZE"
    by (simp add: eftl_defs)
  have nb: "\<not> (4 + int off < 0 \<or> int EFTL_PAGE_SIZE < 4 + int off + int (length d))"
    using sz by (simp add: eftl_defs)
  have p: "nat (4 + int off) = 4 + off" by simp
  have slice: "take (length d) (drop (4 + off) buf) = take (length d) (drop off (ftl_base_data s base))"
  proof -
    have "min (length d) (XY_FTL_AVAILABLE_SIZE - off) = length d" using fits by simp
    then show ?thesis
      unfolding buf(3) [symmetric] drop_take take_take drop_drop by (simp only: add.commute)
  qed
  show thesis
  proof (cases "ftl_newest s base \<noteq> None \<and> take (length d) (drop (4 + off) buf) = d")
    case True
    have "xy_ftl_write drv s base (int off) d = Inr (XY_OK, s)"
      using True nb modsz by (simp add: xy_ftl_write_def choose_sound [OF rdy snd] buf(1) p Let_def)
    moreover have "blit (ftl_base_data s base) off d = ftl_base_data s base"
      using True slice fits by (intro blit_same_content) simp_all
    moreover have "ftl_content s base = Some (ftl_base_data s base)"
      using True by (auto simp: ftl_base_data_def ftl_content_def)
    ultimately show thesis using that [of "flash s"] snd by simp
  next
    case False
    define nx where "nx = ftl_next s base"
    define page where "page = ftl_new_page buf (4 + off) d"
    define a where "a = base + EFTL_PAGE_SIZE * nx"
    define m' where "m' = mem_write (flash s) a page"
    have nx: "nx < ftl_pages s base" unfolding nx_def by (rule ftl_next_less [OF rdy])
    have pf: "4 \<le> 4 + off" "4 + off + length d \<le> EFTL_CSM_OFFSET" using fits by (simp_all add: eftl_defs)
    note pg = new_page_facts [OF buf(2) pf, folded page_def]
    have fl: "in_flash a (length page)" using ready_page(1) [OF rdy nx] pg(1) by (simp add: a_def)
    have old: "page_write_num (flash s) base j < next_num (ftl_last_num s base)"
      if "j < ftl_pages s base" "page_marked (flash s) base j" for j
    proof (cases "ftl_newest s base")
      case None
      then show ?thesis using newest_None that by (simp add: ftl_newest_def)
    next
      case (Some i)
      then have n: "newest (flash s) base (ftl_pages s base) = Some i" by (simp add: ftl_newest_def)
      have "page_write_num (flash s) base j \<le> ftl_last_num s base"
        using newest_Some(3) [OF n that] Some by (simp add: ftl_last_num_def)
      also have "ftl_last_num s base \<noteq> 0xFFFFFFFF"
        using newest_Some(2) [OF n] Some by (simp add: ftl_last_num_def page_marked_def)
      then have "ftl_last_num s base < next_num (ftl_last_num s base)"
        using next_num_facts(3) [OF num] by simp
      finally show ?thesis .
    qed
    note nw = newest_after_write [OF nx pg(1,2,3) pg(4) [unfolded buf(4)] next_num_facts(1,2) [OF num],
        of "flash s" base, folded a_def, folded m'_def]
    have magic: "load32 m' a = EFTL_MAGIC_NUM"
      using written_page_load32 [OF pg(1), of 0 "flash s" a] pg(2)
      by (simp add: m'_def) (simp add: eftl_defs)
    have w: "xy_flash_write drv s a (align_buf s) page = Inr (XY_OK, s\<lparr>flash := m'\<rparr>)"
      unfolding m'_def by (rule xy_flash_write_ok [OF fl ready_buf [OF rdy] bat])
    have "xy_ftl_write drv s base (int off) d = Inr (XY_OK, s\<lparr>flash := m'\<rparr>)"
      using False nb modsz w magic buf(1)
      by (cases "ftl_newest s base")
         (simp_all add: xy_ftl_write_def choose_sound [OF rdy snd] buf(1) p Let_def nx_def [symmetric]
          page_def [symmetric] a_def [symmetric])
    moreover have nn: "ftl_newest (s\<lparr>flash := m'\<rparr>) base = Some nx"
      using nw(1) old by (simp add: ftl_newest_def)
    moreover have "ftl_sound (s\<lparr>flash := m'\<rparr>) base"
      using nw(2) nn old by (simp add: ftl_sound_def)
    moreover have "ftl_content (s\<lparr>flash := m'\<rparr>) base = Some (blit (ftl_base_data s base) off d)"
      using nw(3) nn old pg(5) by (simp add: ftl_content_def buf(3))
    moreover have "m' x = flash s x"
      if "x < base \<or> base + EFTL_PAGE_SIZE * ftl_pages s base \<le> x" for x
    proof -
      have "EFTL_PAGE_SIZE * Suc nx \<le> EFTL_PAGE_SIZE * ftl_pages s base"
        using nx by (intro mult_le_mono2) simp
      then have "x < a \<or> a + length page \<le> x" using that pg(1) by (auto simp: a_def)
      then show ?thesis by (simp add: m'_def mem_write_outside)
    qed
    ultimately show thesis using that [of m'] by blast
  qed
qed

end

end
