(* ===== verification/FtlRecovery.thy ===== *)
theory FtlRecovery
  imports FtlSpec
begin

text \<open>
  Pages that cannot be trusted: choosing over arbitrary flash content, a write that power
  loss interrupted, the loss of the older copy behind a corrupt newest page, and choosing
  when the battery forbids the erase.
\<close>

lemma erased_not_marked:
  "\<not> page_marked (mem_write m (base + EFTL_PAGE_SIZE * i) erased_page) base i"
proof -
  have "load32 (mem_write m (base + EFTL_PAGE_SIZE * i) erased_page) (base + EFTL_PAGE_SIZE * i) = 0xFFFFFFFF"
    using written_page_load32 [OF length_erased_page, of 0 m "base + EFTL_PAGE_SIZE * i"]
    by (simp add: eftl_defs erased_page_def get32_def u32_of_def)
  then show ?thesis by (simp add: page_marked_def EFTL_MAGIC_NUM_def)
qed

section \<open>Choosing ends on any content\<close>

definition marked_pages :: "mem \<Rightarrow> nat \<Rightarrow> nat \<Rightarrow> nat set" where
  "marked_pages m base n = {j. j < n \<and> page_marked m base j}"

lemma finite_marked_pages [simp]: "finite (marked_pages m base n)"
  by (simp add: marked_pages_def)

lemma marked_pages_erase:
  assumes "i < n" "page_marked m base i"
  shows "card (marked_pages (mem_write m (base + EFTL_PAGE_SIZE * i) erased_page) base n)
    < card (marked_pages m base n)"
proof (rule psubset_card_mono)
  have kept: "page_marked (mem_write m (base + EFTL_PAGE_SIZE * i) erased_page) base j = page_marked m base j"
    if "j \<noteq> i" for j using that by (rule other_page_kept(1)) simp
  have "marked_pages (mem_write m (base + EFTL_PAGE_SIZE * i) erased_page) base n \<subseteq> marked_pages m base n"
    unfolding marked_pages_def using erased_not_marked [of m base i] kept by (metis (mono_tags, lifting) Collect_mono)
  moreover have "i \<in> marked_pages m base n"
    "i \<notin> marked_pages (mem_write m (base + EFTL_PAGE_SIZE * i) erased_page) base n"
    using assms erased_not_marked by (simp_all add: marked_pages_def)
  ultimately show "marked_pages (mem_write m (base + EFTL_PAGE_SIZE * i) erased_page) base n \<subset> marked_pages m base n"
    by blast
qed simp

context nor_flash
begin

lemma choose_again_total:
  assumes "find_valid_ftl_cfg s base = Some cfg"
  shows "ftl_ready s base \<Longrightarrow> battery_ok s \<Longrightarrow> card (marked_pages (flash s) base (tpage_total cfg)) < fuel \<Longrightarrow>
    \<exists>v m'. choose_again drv fuel s cfg mx =
        Inr ((v, case v of None \<Rightarrow> 0 | Some i \<Rightarrow> (i + 1) mod tpage_total cfg), s\<lparr>flash := m'\<rparr>)
      \<and> (\<forall>i. v = Some i \<longrightarrow> i < tpage_total cfg \<and> page_marked m' base i \<and> page_good m' base i)"
  using assms
proof (induction fuel arbitrary: s mx)
  case (Suc fuel)
  have cfg: "cfg_addr cfg = base" "tpage_total cfg = ftl_pages s base"
    using Suc.prems(4) by (simp_all add: find_cfg_addr ftl_pages_def)
  obtain mx1 v where r: "scan_pages (flash s) base [0..<ftl_pages s base] (mx, None) = (mx1, v)" by fastforce
  show ?case
  proof (cases v)
    case None
    then show ?thesis using r cfg by (intro exI [of _ None] exI [of _ "flash s"]) simp
  next
    case (Some i)
    then have i: "i < ftl_pages s base" "page_marked (flash s) base i" using scan_pages_spec [OF r] by auto
    note pc = page_check [OF Suc.prems(1) i(1)]
    show ?thesis
    proof (cases "page_good (flash s) base i")
      case True
      then show ?thesis
        using r cfg Some pc i by (intro exI [of _ "Some i"] exI [of _ "flash s"]) (simp add: Let_def)
    next
      case False
      define s1 where "s1 = s\<lparr>flash := mem_write (flash s) (base + EFTL_PAGE_SIZE * i) erased_page\<rparr>"
      have er: "xy_flash_erase drv s (base + EFTL_PAGE_SIZE * i) EFTL_PAGE_SIZE = Inr (XY_OK, s1)"
        unfolding s1_def by (rule xy_flash_erase_page [OF ready_page [OF Suc.prems(1) i(1)] Suc.prems(2)])
      have "choose_again drv (Suc fuel) s cfg mx = choose_again drv fuel s1 cfg mx1"
        using r cfg Some pc False er by (simp add: Let_def)
      moreover have "card (marked_pages (flash s1) base (tpage_total cfg)) < fuel"
        using marked_pages_erase [OF i] Suc.prems(3) cfg by (simp add: s1_def)
      moreover have "find_valid_ftl_cfg s1 base = Some cfg"
        using Suc.prems(4) by (simp add: s1_def find_valid_ftl_cfg_def)
      ultimately show ?thesis
        using Suc.IH [of s1 mx1] Suc.prems(1,2) by (simp add: s1_def)
    qed
  qed
qed simp

lemma choose_total:
  assumes "ftl_ready s base" "battery_ok s"
  obtains v m' where
    "xy_choose_valid_ftl drv s base =
       Inr ((v, case v of None \<Rightarrow> 0 | Some i \<Rightarrow> (i + 1) mod ftl_pages s base), s\<lparr>flash := m'\<rparr>)"
    "\<And>i. v = Some i \<Longrightarrow> i < ftl_pages s base \<and> page_marked m' base i \<and> page_good m' base i"
proof -
  obtain cfg where cfg: "find_valid_ftl_cfg s base = Some cfg" "tpage_total cfg = ftl_pages s base"
    using assms(1) by (auto simp: ftl_ready_def ftl_pages_def split: option.splits)
  have "card (marked_pages (flash s) base (tpage_total cfg)) \<le> card {..<tpage_total cfg}"
    by (intro card_mono) (auto simp: marked_pages_def)
  then have "card (marked_pages (flash s) base (tpage_total cfg)) < tpage_total cfg + 1" by simp
  from choose_again_total [OF cfg(1) assms this, of 0] obtain v m' where r:
    "choose_again drv (tpage_total cfg + 1) s cfg 0 =
        Inr ((v, case v of None \<Rightarrow> 0 | Some i \<Rightarrow> (i + 1) mod tpage_total cfg), s\<lparr>flash := m'\<rparr>)"
    "\<forall>i. v = Some i \<longrightarrow> i < tpage_total cfg \<and> page_marked m' base i \<and> page_good m' base i"
    by blast
  show thesis
  proof (rule that [of v m'])
    show "xy_choose_valid_ftl drv s base =
        Inr ((v, case v of None \<Rightarrow> 0 | Some i \<Rightarrow> (i + 1) mod ftl_pages s base), s\<lparr>flash := m'\<rparr>)"
      using r(1) cfg by (simp add: xy_choose_valid_ftl_def del: choose_again.simps split: option.split)
    show "i < ftl_pages s base \<and> page_marked m' base i \<and> page_good m' base i" if "v = Some i" for i
      using r(2) cfg that by simp
  qed
qed

section \<open>A corrupt newest page hides the older copies\<close>

lemma choose_drops_backup:
  assumes "ftl_ready s base" "battery_ok s"
    and nw: "ftl_newest s base = Some i" "\<not> page_good (flash s) base i"
    and older: "\<And>j. j < ftl_pages s base \<Longrightarrow> j \<noteq> i \<Longrightarrow> page_marked (flash s) base j \<Longrightarrow>
      page_write_num (flash s) base j < page_write_num (flash s) base i"
  shows "xy_choose_valid_ftl drv s base =
    Inr ((None, 0), s\<lparr>flash := mem_write (flash s) (base + EFTL_PAGE_SIZE * i) erased_page\<rparr>)"
proof -
  obtain cfg where cfg: "find_valid_ftl_cfg s base = Some cfg" "cfg_addr cfg = base"
      "tpage_total cfg = ftl_pages s base"
    using assms(1) by (auto simp: ftl_ready_def ftl_pages_def find_cfg_addr split: option.splits)
  define m1 where "m1 = mem_write (flash s) (base + EFTL_PAGE_SIZE * i) erased_page"
  note n = newest_Some [OF nw(1) [unfolded ftl_newest_def]]
  have r1: "scan_pages (flash s) base [0..<ftl_pages s base] (0, None) = (page_write_num (flash s) base i, Some i)"
    using n by (intro scan_pages_unique) simp_all
  obtain mx v where r2: "scan_pages m1 base [0..<ftl_pages s base] (page_write_num (flash s) base i, None) = (mx, v)"
    by fastforce
  have "v = None"
  proof (rule ccontr)
    assume "v \<noteq> None"
    then obtain k where k: "k < ftl_pages s base" "page_marked m1 base k"
        "page_write_num (flash s) base i \<le> page_write_num m1 base k"
      using scan_pages_spec [OF r2] by auto
    then have "k \<noteq> i" using erased_not_marked by (auto simp: m1_def)
    then show False
      using k older [of k] other_page_kept(1,2) [of k i erased_page "flash s" base] by (simp add: m1_def)
  qed
  have er: "xy_flash_erase drv s (base + EFTL_PAGE_SIZE * i) EFTL_PAGE_SIZE = Inr (XY_OK, s\<lparr>flash := m1\<rparr>)"
    unfolding m1_def by (rule xy_flash_erase_page [OF ready_page [OF assms(1) n(1)] assms(2)])
  obtain p where p: "ftl_pages s base = Suc p" using n(1) by (cases "ftl_pages s base") auto
  show ?thesis
    using cfg r1 r2 \<open>v = None\<close> er page_check [OF assms(1) n(1)] nw(2)
    by (simp add: xy_choose_valid_ftl_def p Let_def m1_def [symmetric])
qed

section \<open>Low battery: the erase is refused for ever\<close>

lemma refused_erase:
  assumes "min_mVbat s \<noteq> 0" "g_vBat_is_low s"
  shows "xy_flash_erase drv s a n = Inr (XY_Err_LowVbat, s)"
  using assms by (simp add: xy_flash_erase_def xy_check_low_vBat_def Let_def)

lemma choose_again_stuck:
  assumes "ftl_ready s base" "find_valid_ftl_cfg s base = Some cfg"
    and nw: "ftl_newest s base = Some i" "\<not> page_good (flash s) base i"
    and low: "min_mVbat s \<noteq> 0" "g_vBat_is_low s"
    and mx: "mx \<le> page_write_num (flash s) base i"
  shows "choose_again drv fuel s cfg mx = Inl NonReturn"
  using mx
proof (induction fuel arbitrary: mx)
  case (Suc fuel)
  have cfg: "cfg_addr cfg = base" "tpage_total cfg = ftl_pages s base"
    using assms(2) by (simp_all add: find_cfg_addr ftl_pages_def)
  note n = newest_Some [OF nw(1) [unfolded ftl_newest_def]]
  have "scan_pages (flash s) base [0..<ftl_pages s base] (mx, None) = (page_write_num (flash s) base i, Some i)"
    using n Suc.prems by (intro scan_pages_unique) simp_all
  then show ?case
    using Suc.IH [of "page_write_num (flash s) base i"] cfg page_check [OF assms(1) n(1)] nw(2)
    by (simp add: Let_def refused_erase [OF low])
qed simp

end

section \<open>An interrupted page write\<close>

text \<open>
  Power fails while the page at \<open>a\<close> is programmed: it was erased, and only its first \<open>k\<close>
  bytes have been written.
\<close>

definition torn_write :: "mem \<Rightarrow> nat \<Rightarrow> u8 list \<Rightarrow> nat \<Rightarrow> mem" where
  "torn_write m a page k = mem_write m a (take k page @ replicate (EFTL_PAGE_SIZE - k) 0xFF)"

lemma torn_not_marked:
  assumes "length page = EFTL_PAGE_SIZE" "k \<le> EFTL_WRITE_NUM_OFFSET"
  shows "\<not> page_marked (torn_write m (base + EFTL_PAGE_SIZE * i) page k) base i"
proof -
  let ?p = "take k page @ replicate (EFTL_PAGE_SIZE - k) (0xFF :: u8)"
  have l: "length ?p = EFTL_PAGE_SIZE" using assms by (simp add: eftl_defs)
  have "?p ! j = 0xFF" if "EFTL_WRITE_NUM_OFFSET \<le> j" "j < EFTL_PAGE_SIZE" for j
    using assms that by (simp add: nth_append)
  then have "get32 ?p EFTL_WRITE_NUM_OFFSET = 0xFFFFFFFF"
    by (simp add: get32_def u32_of_def eftl_defs)
  then have "page_write_num (torn_write m (base + EFTL_PAGE_SIZE * i) page k) base i = 0xFFFFFFFF"
    using written_page_load32 [OF l, of EFTL_WRITE_NUM_OFFSET m "base + EFTL_PAGE_SIZE * i"]
    by (simp add: page_write_num_def torn_write_def eftl_defs)
  then show ?thesis by (simp add: page_marked_def)
qed

lemma torn_content:
  assumes rdy: "ftl_ready s base" and snd: "ftl_sound s base" and two: "2 \<le> ftl_pages s base"
    and page: "length page = EFTL_PAGE_SIZE" "k \<le> EFTL_WRITE_NUM_OFFSET"
  defines "s' \<equiv> s\<lparr>flash := torn_write (flash s) (base + EFTL_PAGE_SIZE * ftl_next s base) page k\<rparr>"
  shows "ftl_sound s' base" "ftl_content s' base = ftl_content s base"
proof -
  let ?p = "take k page @ replicate (EFTL_PAGE_SIZE - k) (0xFF :: u8)"
  define nx where "nx = ftl_next s base"
  define m' where "m' = torn_write (flash s) (base + EFTL_PAGE_SIZE * nx) page k"
  have s': "s' = s\<lparr>flash := m'\<rparr>" by (simp add: s'_def m'_def nx_def)
  have l: "length ?p = EFTL_PAGE_SIZE" using page by (simp add: eftl_defs)
  note kept = other_page_kept [OF _ l, where i = nx and m = "flash s" and base = base,
      folded torn_write_def m'_def]
  have ne: "ftl_newest s base \<noteq> Some nx"
  proof
    assume eq: "ftl_newest s base = Some nx"
    then have "ftl_next s base = (nx + 1) mod ftl_pages s base" by (simp add: ftl_next_def)
    then have "nx = (nx + 1) mod ftl_pages s base" by (simp only: nx_def)
    moreover have "nx < ftl_pages s base" using newest_Some(1) [OF eq [unfolded ftl_newest_def]] .
    ultimately show False using two by (cases "nx + 1 = ftl_pages s base") auto
  qed
  have nn: "ftl_newest s' base = ftl_newest s base"
  proof -
    have "newest m' base (ftl_pages s base) = newest (flash s) base (ftl_pages s base)"
    proof (rule newest_remove)
      show "\<not> page_marked m' base nx" unfolding m'_def by (rule torn_not_marked [OF page])
      show "newest (flash s) base (ftl_pages s base) \<noteq> Some nx" using ne by (simp add: ftl_newest_def)
    qed (simp_all add: kept)
    then show ?thesis by (simp add: ftl_newest_def s')
  qed
  have main: "mem_read m' NV_FLASH_MAIN_FACTORY_BASE XY_FTL_AVAILABLE_SIZE
      = mem_read (flash s) NV_FLASH_MAIN_FACTORY_BASE XY_FTL_AVAILABLE_SIZE"
    if "base = NV_FLASH_FACTORY_BASE"
    using that unfolding m'_def torn_write_def
    by (intro mem_read_write_disjoint) (simp add: memmap_defs eftl_defs)
  show "ftl_sound s' base"
    using snd nn ne kept by (auto simp: ftl_sound_def s' split: option.splits)
  show "ftl_content s' base = ftl_content s base"
    using nn ne kept main by (auto simp: ftl_content_def s' split: option.splits)
qed

end
