(* ===== verification/FtlProps.thy ===== *)
theory FtlProps
  imports FtlRecovery
begin

text \<open>
  The properties of the flash layers and the FTL, with the concrete states their witnesses
  use: a flash as it leaves the factory, and one whose newest page is damaged.
\<close>

section \<open>Concrete states\<close>

definition blank_sys :: "mem \<Rightarrow> sys" where
  "blank_sys m = \<lparr>flash = m, user_nv_cfgs = [], dsp_not_loaded = False, g_have_suspend_dsp = 0,
     g_vBat_is_low = False, min_mVbat = 22, xy_getVbat = 3600, sys_up_soft_reset = False,
     softreset_type = RB_BY_POWERTEST, align_buf = 0x20010000\<rparr>"

text \<open>After \<open>xy_nv_ftl_init\<close>.\<close>

definition booted :: "mem \<Rightarrow> sys" where
  "booted m = (blank_sys m)\<lparr>user_nv_cfgs :=
     [\<lparr>cfg_addr = NV_FLASH_NET_BASE, tpage_total = 3\<rparr>,
      \<lparr>cfg_addr = NV_FLASH_DSP_NON_VOLATILE_BASE, tpage_total = 2\<rparr>,
      \<lparr>cfg_addr = NV_FLASH_DSP_VOLATILE_BASE, tpage_total = 3\<rparr>,
      \<lparr>cfg_addr = NV_FLASH_FACTORY_BASE, tpage_total = 2\<rparr>]\<rparr>"

lemma booted_init: "xy_nv_ftl_init (blank_sys m) = Inr (booted m)"
  by (simp add: xy_nv_ftl_init_def xy_regist_ftl_req_def booted_def blank_sys_def memmap_defs
      EFTL_PAGE_SIZE_def)

lemma booted_pages [simp]:
  "ftl_pages (booted m) NV_FLASH_NET_BASE = 3"
  "ftl_pages (booted m) NV_FLASH_DSP_NON_VOLATILE_BASE = 2"
  by (simp_all add: ftl_pages_def find_valid_ftl_cfg_def booted_def memmap_defs)

lemma booted_ready:
  "ftl_ready (booted m) NV_FLASH_NET_BASE" "ftl_ready (booted m) NV_FLASH_DSP_NON_VOLATILE_BASE"
  by (simp_all add: ftl_ready_def buf_ok_def in_flash_def)
     (simp_all add: booted_def blank_sys_def memmap_defs EFTL_PAGE_SIZE_def)

lemma booted_battery [simp]: "battery_ok (booted m)"
  by (simp add: battery_ok_def booted_def blank_sys_def)

lemma booted_flash [simp]: "flash (booted m) = m"
  by (simp add: booted_def blank_sys_def)

definition factory_fresh :: mem where "factory_fresh = (\<lambda>_. 0xFF)"

lemma fresh_newest [simp]: "newest factory_fresh base n = None"
proof -
  have "\<not> page_marked factory_fresh base j" for j
    by (simp add: page_marked_def load32_def factory_fresh_def u32_of_def EFTL_MAGIC_NUM_def)
  then show ?thesis using newest_Some(2) by (metis option.exhaust)
qed

lemma fresh_newest_sys [simp]: "ftl_newest (booted factory_fresh) base = None"
  by (simp add: ftl_newest_def)

lemma fresh_sound: "ftl_sound (booted factory_fresh) base"
  by (simp add: ftl_sound_def)

text \<open>
  Block at \<open>NV_FLASH_DSP_NON_VOLATILE_BASE\<close>: page 0 carries number 2 and no checksum, page 1
  is a complete page with number 1.
\<close>

definition damaged_page :: "u8 list" where
  "damaged_page = put32 (put32 (replicate EFTL_PAGE_SIZE 0) 0 EFTL_MAGIC_NUM) EFTL_WRITE_NUM_OFFSET 2"

definition good_page :: "u8 list" where
  "good_page = ftl_new_page (replicate EFTL_PAGE_SIZE 0) 4 [1]"

definition damaged_flash :: mem where
  "damaged_flash =
     mem_write (mem_write factory_fresh (NV_FLASH_DSP_NON_VOLATILE_BASE + EFTL_PAGE_SIZE * 1) good_page)
       (NV_FLASH_DSP_NON_VOLATILE_BASE + EFTL_PAGE_SIZE * 0) damaged_page"

lemma damaged_page_facts:
  "length damaged_page = EFTL_PAGE_SIZE" "get32 damaged_page 0 = EFTL_MAGIC_NUM"
  "get32 damaged_page EFTL_WRITE_NUM_OFFSET = 2" "get32 damaged_page EFTL_CSM_OFFSET = 0"
proof -
  let ?z = "replicate EFTL_PAGE_SIZE (0 :: u8)"
  show l: "length damaged_page = EFTL_PAGE_SIZE" by (simp add: damaged_page_def eftl_defs)
  show "get32 damaged_page 0 = EFTL_MAGIC_NUM"
    by (simp add: damaged_page_def get32_put32_other eftl_defs)
  show "get32 damaged_page EFTL_WRITE_NUM_OFFSET = 2" by (simp add: damaged_page_def eftl_defs)
  have "get32 ?z EFTL_CSM_OFFSET = 0" by (simp add: get32_def u32_of_def eftl_defs)
  then show "get32 damaged_page EFTL_CSM_OFFSET = 0"
    by (simp add: damaged_page_def get32_put32_other eftl_defs)
qed

lemma good_page_facts:
  "length good_page = EFTL_PAGE_SIZE" "get32 good_page 0 = EFTL_MAGIC_NUM"
  "get32 good_page EFTL_CSM_OFFSET = xy_chksum (take EFTL_CSM_OFFSET good_page)"
  "get32 good_page EFTL_WRITE_NUM_OFFSET = 1"
proof -
  have z: "length (replicate EFTL_PAGE_SIZE (0 :: u8)) = EFTL_PAGE_SIZE" by simp
  have p: "(4 :: nat) \<le> 4" "4 + length [1 :: u8] \<le> EFTL_CSM_OFFSET" by (simp_all add: eftl_defs)
  note f = new_page_facts [OF z p, folded good_page_def]
  show "length good_page = EFTL_PAGE_SIZE" "get32 good_page 0 = EFTL_MAGIC_NUM"
    "get32 good_page EFTL_CSM_OFFSET = xy_chksum (take EFTL_CSM_OFFSET good_page)"
    by (fact f(1) f(2) f(3))+
  have "get32 (replicate EFTL_PAGE_SIZE 0) EFTL_WRITE_NUM_OFFSET = 0"
    by (simp add: get32_def u32_of_def eftl_defs)
  then show "get32 good_page EFTL_WRITE_NUM_OFFSET = 1" using f(4) by (simp add: next_num_def)
qed

lemma damaged_facts:
  defines "b \<equiv> NV_FLASH_DSP_NON_VOLATILE_BASE"
  shows "page_marked damaged_flash b 0" "page_write_num damaged_flash b 0 = 2"
    "page_marked damaged_flash b 1" "page_write_num damaged_flash b 1 = 1"
    "\<not> page_good damaged_flash b 0" "page_good damaged_flash b 1"
proof -
  let ?m1 = "mem_write factory_fresh (b + EFTL_PAGE_SIZE * 1) good_page"
  have d: "damaged_flash = mem_write ?m1 (b + EFTL_PAGE_SIZE * 0) damaged_page"
    by (simp add: damaged_flash_def b_def)
  note w = written_page_load32 [OF damaged_page_facts(1), where m = ?m1 and a = b]
  note g = written_page_load32 [OF good_page_facts(1), where m = factory_fresh and a = "b + EFTL_PAGE_SIZE"]
  note gr = written_page_read [OF good_page_facts(1), where m = factory_fresh and a = "b + EFTL_PAGE_SIZE"]
  note k = other_page_kept [OF _ damaged_page_facts(1), of 1 0 ?m1 b, folded d]
  show n0: "page_write_num damaged_flash b 0 = 2"
    using w [of EFTL_WRITE_NUM_OFFSET] damaged_page_facts by (simp add: page_write_num_def d eftl_defs)
  show "page_marked damaged_flash b 0"
    using w [of 0] damaged_page_facts n0 by (simp add: page_marked_def d) (simp add: eftl_defs)
  have n1: "page_write_num ?m1 b 1 = 1"
    using g [of EFTL_WRITE_NUM_OFFSET] good_page_facts by (simp add: page_write_num_def eftl_defs)
  then show "page_write_num damaged_flash b 1 = 1" using k by simp
  have "page_marked ?m1 b 1"
    using g [of 0] good_page_facts n1 by (simp add: page_marked_def) (simp add: eftl_defs)
  then show "page_marked damaged_flash b 1" using k by simp
  show "\<not> page_good damaged_flash b 0"
    using w [of EFTL_CSM_OFFSET] damaged_page_facts xy_chksum_nonzero
    by (simp add: page_good_def d eftl_defs)
  have "page_good ?m1 b 1"
    using g [of EFTL_CSM_OFFSET] gr [of 0 EFTL_CSM_OFFSET] good_page_facts
    by (simp add: page_good_def eftl_defs)
  then show "page_good damaged_flash b 1" using k by simp
qed

lemma damaged_newest: "ftl_newest (booted damaged_flash) NV_FLASH_DSP_NON_VOLATILE_BASE = Some 0"
proof -
  have "newest damaged_flash NV_FLASH_DSP_NON_VOLATILE_BASE 2 = Some 0"
  proof (rule newest_unique)
    show "page_marked damaged_flash NV_FLASH_DSP_NON_VOLATILE_BASE 0" by (rule damaged_facts)
    fix j :: nat assume "j < 2"
    then have "j = 0 \<or> j = 1" by auto
    then show "page_write_num damaged_flash NV_FLASH_DSP_NON_VOLATILE_BASE j
        \<le> page_write_num damaged_flash NV_FLASH_DSP_NON_VOLATILE_BASE 0"
      and "0 < j \<Longrightarrow> page_write_num damaged_flash NV_FLASH_DSP_NON_VOLATILE_BASE j
        < page_write_num damaged_flash NV_FLASH_DSP_NON_VOLATILE_BASE 0"
      by (elim disjE; simp add: damaged_facts damaged_facts [simplified])+
  qed simp
  then show ?thesis by (simp add: ftl_newest_def)
qed

section \<open>Properties\<close>

text \<open>
  C1: a write to an FTL block is a read-modify-write of its content.  On a block whose newest
  page is intact, with the voltage good, \<open>xy_ftl_write\<close> succeeds; the following
  \<open>xy_ftl_read\<close> of the same slice returns the written bytes and every other slice keeps what
  it had (zeros, or the main factory NV, on the first write); the block stays readable and no
  flash outside it changes.  The write number has 32 bits and one value short of the erased
  pattern is excluded.
\<close>

theorem ftl_write_then_read:
  assumes "nor_flash drv" and "ftl_ready s base" and "ftl_sound s base" and "battery_ok s"
    and "off + length d \<le> XY_FTL_AVAILABLE_SIZE" and "ftl_last_num s base \<noteq> 0xFFFFFFFE"
  shows "\<exists>s'. xy_ftl_write drv s base (int off) d = Inr (XY_OK, s')
    \<and> ftl_ready s' base \<and> ftl_sound s' base \<and> battery_ok s'
    \<and> xy_ftl_read drv s' (base + off) (length d) = Inr ((XY_OK, Some d), s')
    \<and> (\<forall>p n. (p + n \<le> off \<or> off + length d \<le> p) \<and> p + n \<le> XY_FTL_AVAILABLE_SIZE \<longrightarrow>
          xy_ftl_read drv s' (base + p) n = Inr ((XY_OK, Some (take n (drop p (ftl_base_data s base)))), s'))
    \<and> (\<forall>x. x < base \<or> base + EFTL_PAGE_SIZE * ftl_pages s base \<le> x \<longrightarrow> flash s' x = flash s x)"
proof -
  obtain m' where w: "xy_ftl_write drv s base (int off) d = Inr (XY_OK, s\<lparr>flash := m'\<rparr>)"
    and snd: "ftl_sound (s\<lparr>flash := m'\<rparr>) base"
    and c: "ftl_content (s\<lparr>flash := m'\<rparr>) base = Some (blit (ftl_base_data s base) off d)"
    and out: "\<And>x. x < base \<or> base + EFTL_PAGE_SIZE * ftl_pages s base \<le> x \<Longrightarrow> m' x = flash s x"
    using nor_flash.write_sound [OF assms] by blast
  have rdy: "ftl_ready (s\<lparr>flash := m'\<rparr>) base" using assms(2) by simp
  have rd: "xy_ftl_read drv (s\<lparr>flash := m'\<rparr>) (base + p) n
      = Inr ((XY_OK, Some (take n (drop p (blit (ftl_base_data s base) off d)))), s\<lparr>flash := m'\<rparr>)"
    if "p + n \<le> XY_FTL_AVAILABLE_SIZE" for p n
    using nor_flash.read_sound [OF assms(1) rdy snd that] c by simp
  show ?thesis
    using w rdy snd rd assms(4,5) out
    by (intro exI [of _ "s\<lparr>flash := m'\<rparr>"]) (auto simp: blit_read_disjoint)
qed

theorem ftl_write_then_read_witness:
  "\<exists>s'. xy_ftl_write nor_drv (booted factory_fresh) NV_FLASH_NET_BASE (int 8) [1, 2, 3] = Inr (XY_OK, s')
    \<and> xy_ftl_read nor_drv s' (NV_FLASH_NET_BASE + 8) 3 = Inr ((XY_OK, Some [1, 2, 3]), s')"
proof -
  have "ftl_last_num (booted factory_fresh) NV_FLASH_NET_BASE \<noteq> 0xFFFFFFFE"
    by (simp add: ftl_last_num_def memmap_defs)
  from ftl_write_then_read [OF nor_is_flash booted_ready(1) fresh_sound booted_battery _ this, of 8 "[1, 2, 3]"]
  show ?thesis by (auto simp: eftl_defs numeral_3_eq_3)
qed







text \<open>
  when the newest page is damaged, \<open>xy_choose_valid_ftl\<close> erases it and then finds no page at
  all: \<open>max_writenum\<close> keeps the erased page's number over \<open>CHOOSE_AGAIN\<close>, so an older page is
  passed over even if its checksum is right, and \<open>xy_ftl_read\<close> reports an error.
\<close>

lemma ftl_damaged_newest_hides_backup:
  assumes "nor_flash drv" and "ftl_ready s base" and "battery_ok s" and "base \<noteq> NV_FLASH_FACTORY_BASE"
    and "ftl_newest s base = Some i" and "\<not> page_good (flash s) base i"
    and "\<forall>j < ftl_pages s base. j \<noteq> i \<and> page_marked (flash s) base j \<longrightarrow>
      page_write_num (flash s) base j < page_write_num (flash s) base i"
    and "n \<le> XY_FTL_AVAILABLE_SIZE"
  shows "\<exists>s'. xy_ftl_read drv s base n = Inr ((XY_ERR, None), s')"
proof -
  have ch: "xy_choose_valid_ftl drv s base =
      Inr ((None, 0), s\<lparr>flash := mem_write (flash s) (base + EFTL_PAGE_SIZE * i) erased_page\<rparr>)"
    using nor_flash.choose_drops_backup [OF assms(1-3,5,6)] assms(7) by simp
  have "base mod EFTL_PAGE_SIZE = 0" using assms(2) by (simp add: ftl_ready_def)
  with ch assms(4,8) show ?thesis
    by (simp add: xy_ftl_read_def Let_def) (simp add: eftl_defs)
qed

lemma ftl_damaged_newest_hides_backup_witness:
  "page_good damaged_flash NV_FLASH_DSP_NON_VOLATILE_BASE 1
    \<and> page_marked damaged_flash NV_FLASH_DSP_NON_VOLATILE_BASE 1
    \<and> (\<exists>s'. xy_ftl_read nor_drv (booted damaged_flash) NV_FLASH_DSP_NON_VOLATILE_BASE 1 = Inr ((XY_ERR, None), s'))"
proof -
  have ne: "NV_FLASH_DSP_NON_VOLATILE_BASE \<noteq> NV_FLASH_FACTORY_BASE" by (simp add: memmap_defs)
  have bad: "\<not> page_good (flash (booted damaged_flash)) NV_FLASH_DSP_NON_VOLATILE_BASE 0"
    using damaged_facts(5) by simp
  have "\<forall>j < ftl_pages (booted damaged_flash) NV_FLASH_DSP_NON_VOLATILE_BASE.
      j \<noteq> 0 \<and> page_marked (flash (booted damaged_flash)) NV_FLASH_DSP_NON_VOLATILE_BASE j \<longrightarrow>
      page_write_num (flash (booted damaged_flash)) NV_FLASH_DSP_NON_VOLATILE_BASE j
        < page_write_num (flash (booted damaged_flash)) NV_FLASH_DSP_NON_VOLATILE_BASE 0"
    using damaged_facts by (auto simp: numeral_2_eq_2 less_Suc_eq)
  from ftl_damaged_newest_hides_backup [OF nor_is_flash booted_ready(2) booted_battery ne damaged_newest bad this, of 1]
  show ?thesis using damaged_facts by (auto simp: eftl_defs)
qed

text \<open>
  once the battery was found low, \<open>xy_flash_erase\<close> is refused for ever and the choice over
  a block with a damaged newest page never returns: \<open>CHOOSE_AGAIN\<close> meets the same page again,
  however many rounds are run.
\<close>

lemma ftl_low_battery_choose_never_returns:
  assumes "nor_flash drv" and "ftl_ready s base" and "find_valid_ftl_cfg s base = Some cfg"
    and "ftl_newest s base = Some i" and "\<not> page_good (flash s) base i"
    and "min_mVbat s \<noteq> 0" and "g_vBat_is_low s"
  shows "\<forall>rounds. choose_again drv rounds s cfg 0 = Inl NonReturn"
  using nor_flash.choose_again_stuck [OF assms, of 0] by simp

lemma ftl_low_battery_choose_never_returns_witness:
  "choose_again nor_drv 1000 ((booted damaged_flash)\<lparr>g_vBat_is_low := True\<rparr>)
     \<lparr>cfg_addr = NV_FLASH_DSP_NON_VOLATILE_BASE, tpage_total = 2\<rparr> 0 = Inl NonReturn"
proof -
  let ?s = "(booted damaged_flash)\<lparr>g_vBat_is_low := True\<rparr>"
  let ?b = NV_FLASH_DSP_NON_VOLATILE_BASE
  have pg: "ftl_pages ?s ?b = 2"
    by (simp add: ftl_pages_def find_valid_ftl_cfg_def booted_def memmap_defs)
  have "ftl_ready ?s ?b" using booted_ready(2) [of damaged_flash] by (simp add: ftl_ready_def pg buf_ok_def)
  moreover have "find_valid_ftl_cfg ?s ?b = Some \<lparr>cfg_addr = ?b, tpage_total = 2\<rparr>"
    by (simp add: find_valid_ftl_cfg_def booted_def memmap_defs)
  moreover have "ftl_newest ?s ?b = Some 0" using damaged_newest by (simp add: ftl_newest_def pg)
  moreover have "\<not> page_good (flash ?s) ?b 0" using damaged_facts(5) by simp
  moreover have "min_mVbat ?s \<noteq> 0" by (simp add: booted_def blank_sys_def)
  ultimately show ?thesis
    using ftl_low_battery_choose_never_returns [OF nor_is_flash, of ?s ?b] by simp
qed

end
