(* ===== verification/Fota.thy ===== *)
theory Fota
  imports Ftl
begin

text \<open>
  \<open>APPLIB/xy_fota/src/xy_fota.c\<close> and \<open>xy_fota_utils.c\<close>: reception of a firmware delta in
  packets, its storage in flash, its digest, and the hand-over to the second boot stage.  The
  HMAC and RSA routines are library code: they are the fields of \<open>hmac_api\<close>, and the laws the
  code relies on are the assumptions of the locale \<open>hmac_stream\<close> below.  A pointer that may be
  \<open>NULL\<close> is an option; following it when it is \<open>NULL\<close> is \<open>BadAccess\<close>.
\<close>

section \<open>Factory NV parameters: SAVE_FAC_PARAM\<close>

text \<open>\<open>offset\<close> is the position of the parameter in the factory NV block.\<close>

definition SAVE_FAC_PARAM :: "flash_drv \<Rightarrow> sys \<Rightarrow> nat \<Rightarrow> u8 list \<Rightarrow> sys res" where
  "SAVE_FAC_PARAM drv s offset v =
     bind_res (xy_ftl_write drv s NV_FLASH_FACTORY_BASE (int offset) v) (\<lambda>(ret, s).
       if ret \<noteq> XY_OK
       then bind_res (xy_flash_erase drv s NV_FLASH_FACTORY_BASE NV_FLASH_FACTORY_LEN)
              (\<lambda>_. Inl AssertFail)
       else Inr s)"

section \<open>Digest library\<close>

text \<open>
  \<open>hmacZero\<close> is a context that was only zeroed; the flag of \<open>hmacInput\<close> is its error result;
  \<open>hmacResult\<close> returns the finished context and the digest.
\<close>

record 'h hmac_api =
  hmacReset :: "u8 list \<Rightarrow> 'h"
  hmacZero :: 'h
  hmacInput :: "'h \<Rightarrow> u8 list \<Rightarrow> 'h \<times> bool"
  hmacResult :: "'h \<Rightarrow> 'h \<times> u8 list"
  rsa_public_decrypt :: "u8 list \<Rightarrow> u8 list"

locale hmac_stream =
  fixes api :: "'h hmac_api"
  assumes input_append:
      "fst (hmacInput api (fst (hmacInput api h a)) b) = fst (hmacInput api h (a @ b))"
    and input_nil: "fst (hmacInput api h []) = h"
    and input_ok: "\<not> snd (hmacInput api h a)"

section \<open>State\<close>

definition MAGIC_NUM :: u32 where "MAGIC_NUM = 3513"
definition HMAC_KEY :: "u8 list" where "HMAC_KEY = [0x58, 0x59, 0x31, 0x31, 0x30, 0x30]"
definition BUF_LEN :: nat where "BUF_LEN = 1024"
definition DELTA_RSA_SHA_LEN :: nat where "DELTA_RSA_SHA_LEN = 80"
definition SHA1HashSize :: nat where "SHA1HashSize = 20"

text \<open>
  \<open>delta_head_info_t\<close> has 164 bytes; a header is kept as its bytes and the offsets of the
  fields the code uses are named.
\<close>

definition head_size :: nat where "head_size = 164"
definition magic_num :: "u8 list \<Rightarrow> u32" where "magic_num h = get32 h 0"
definition total_sha :: "u8 list \<Rightarrow> u8 list" where "total_sha h = take 80 (drop 4 h)"
definition old_image_version_sha :: "u8 list \<Rightarrow> u8 list" where
  "old_image_version_sha h = take 20 (drop 88 h)"
definition fota_packet_base :: "u8 list \<Rightarrow> u32" where "fota_packet_base h = get32 h 148"
definition user_data_len :: "u8 list \<Rightarrow> u32" where "user_data_len h = get32 h 160"

text \<open>\<open>head_ptr\<close> is the value of the pointer \<open>head_info\<close>.\<close>

record 'h ota_context_t =
  flash_base :: u32
  flash_maxlen :: u32
  recv_size :: u32
  hmac_context :: "'h option"
  head_info :: "u8 list option"
  head_ptr :: nat

record fota_nv =
  fota_res :: u8
  fota_period :: u8
  last_FOTA_time :: u32
  ota_status_flag :: xy_ret_Status_t

section \<open>xy_fota_utils.c\<close>

definition UPROUND :: "u32 \<Rightarrow> u32 \<Rightarrow> u32" where
  "UPROUND raw base = ((raw + base - 1) div base) * base"

definition xy_get_OTA_flash_info :: "u32 \<Rightarrow> u32 \<Rightarrow> u32 \<Rightarrow> u32 \<times> u32" where
  "xy_get_OTA_flash_info Flash_Used Ram_Text Ram_Data =
     (let addr = 0x2711F000 + UPROUND Flash_Used 0x1000 + UPROUND (Ram_Text + Ram_Data) 0x1000
      in (addr, 0x271EC000 - addr))"

definition xy_get_OTA_period :: "fota_nv \<Rightarrow> u32" where
  "xy_get_OTA_period nv = ucast (fota_period nv) * 24 * 60 * 60"

definition xy_set_OTA_period :: "fota_nv \<Rightarrow> u8 \<Rightarrow> fota_nv" where
  "xy_set_OTA_period nv days = nv\<lparr>fota_period := days\<rparr>"

text \<open>The sum and the comparison are unsigned, since \<open>last_FOTA_time\<close> is.\<close>

definition xy_check_OTA_timeout :: "fota_nv \<Rightarrow> u32 \<Rightarrow> xy_ret_Status_t" where
  "xy_check_OTA_timeout nv cur_sec =
     (if last_FOTA_time nv = 0 then XY_OK
      else if fota_period nv = 0 then XY_OK
      else if xy_get_OTA_period nv + last_FOTA_time nv < cur_sec then XY_OK
      else XY_ERR)"

definition update_last_OTA_check_time :: "fota_nv \<Rightarrow> u32 \<Rightarrow> fota_nv" where
  "update_last_OTA_check_time nv cur_sec = nv\<lparr>last_FOTA_time := cur_sec\<rparr>"

section \<open>Contexts\<close>

definition ota_version_check :: "mem \<Rightarrow> u8 list \<Rightarrow> xy_ret_Status_t" where
  "ota_version_check m head =
     (let temp_sha = mem_read m VERSION_MIMG_SHA SHA1HashSize
      in if old_image_version_sha head = temp_sha then XY_OK
         else if old_image_version_sha head = snd (xy_rearrange_DWORD temp_sha) then XY_OK
         else XY_ERR)"

text \<open>
  The error exit returns \<open>XY_ERR\<close>, that is \<open>-1\<close>, as a pointer: not \<open>NULL\<close>, and not
  the address of a context either.
\<close>

datatype 'h ctx_ptr = CtxPtr "'h ota_context_t" | WildPtr u32

definition xy_get_OTA_context :: "u8 list \<Rightarrow> 'h ctx_ptr" where
  "xy_get_OTA_context pkt =
     (if length pkt < head_size then WildPtr (- 1)
      else CtxPtr \<lparr>flash_base = fota_packet_base pkt, flash_maxlen = 0, recv_size = 0,
        hmac_context = None, head_info = None, head_ptr = 0\<rparr>)"

definition ota_update_Init ::
    "'h hmac_api \<Rightarrow> flash_drv \<Rightarrow> sys \<Rightarrow> fota_nv \<Rightarrow> nat \<Rightarrow> u32 \<Rightarrow> u32 \<Rightarrow> u32 \<Rightarrow> nat
     \<Rightarrow> ('h ota_context_t \<times> fota_nv \<times> sys) res" where
  "ota_update_Init api drv s nv off_fota_res Flash_Used Ram_Text Ram_Data ptr =
     (let nv = nv\<lparr>fota_res := 0\<rparr>
      in bind_res (SAVE_FAC_PARAM drv s off_fota_res [fota_res nv]) (\<lambda>s.
           let (addr, len) = xy_get_OTA_flash_info Flash_Used Ram_Text Ram_Data
           in Inr (\<lparr>flash_base = addr, flash_maxlen = len, recv_size = 0,
                 hmac_context = Some (hmacReset api HMAC_KEY),
                 head_info = Some (replicate head_size 0), head_ptr = ptr\<rparr>, nv, s)))"

definition ota_update_deInit ::
    "flash_drv \<Rightarrow> sys \<Rightarrow> fota_nv \<Rightarrow> nat \<Rightarrow> 'h ota_context_t option \<Rightarrow> (fota_nv \<times> sys) res" where
  "ota_update_deInit drv s nv off_fota_res ctx =
     (case ctx of
        None \<Rightarrow> Inr (nv, s)
      | Some _ \<Rightarrow>
          bind_res (SAVE_FAC_PARAM drv s off_fota_res [2]) (\<lambda>s. Inr (nv\<lparr>fota_res := 2\<rparr>, s)))"

section \<open>ota_downlink_packet_proc\<close>

text \<open>The checks made when the header is complete; \<open>None\<close> is the early \<open>return XY_ERR\<close>.\<close>

definition ota_head_check ::
    "'h hmac_api \<Rightarrow> mem \<Rightarrow> 'h ota_context_t \<Rightarrow> u8 list \<Rightarrow> 'h \<Rightarrow> 'h ota_context_t option" where
  "ota_head_check api m c head h =
     (if magic_num head \<noteq> MAGIC_NUM then None
      else if ota_version_check m head \<noteq> XY_OK then None
      else if fota_packet_base head < flash_base c then None
      else Some (c\<lparr>flash_base := fota_packet_base head,
                   hmac_context := Some (fst (hmacInput api h (drop 84 head)))\<rparr>))"

text \<open>The results of the flash calls are not looked at.\<close>

definition ota_store ::
    "flash_drv \<Rightarrow> sys \<Rightarrow> 'h ota_context_t \<Rightarrow> u8 list \<Rightarrow> nat \<Rightarrow> u8 list \<Rightarrow> sys res" where
  "ota_store drv s c head data_ptr data =
     (if recv_size c = of_nat head_size then
        bind_res (xy_flash_erase drv s (unat (flash_base c)) (unat (flash_maxlen c))) (\<lambda>(_, s).
        bind_res (xy_flash_write_no_erase drv s (unat (flash_base c)) (head_ptr c) head) (\<lambda>(_, s).
        if data \<noteq> [] then
          bind_res (xy_flash_write_no_erase drv s (unat (flash_base c + of_nat head_size)) data_ptr data)
            (\<lambda>(_, s). Inr s)
        else Inr s))
      else
        bind_res (xy_flash_write_no_erase drv s (unat (flash_base c + recv_size c)) data_ptr data)
          (\<lambda>(_, s). Inr s))"

function hmac_feed :: "'h hmac_api \<Rightarrow> 'h \<Rightarrow> u8 list \<Rightarrow> 'h" where
  "hmac_feed api h d =
     (if BUF_LEN \<le> length d then hmac_feed api (fst (hmacInput api h (take BUF_LEN d))) (drop BUF_LEN d)
      else if d \<noteq> [] then fst (hmacInput api h d)
      else h)"
  by pat_completeness auto
termination by (relation "measure (\<lambda>(api, h, d). length d)") (auto simp: BUF_LEN_def)

declare hmac_feed.simps [simp del]

definition ota_receive ::
    "'h hmac_api \<Rightarrow> flash_drv \<Rightarrow> sys \<Rightarrow> 'h ota_context_t \<Rightarrow> u8 list \<Rightarrow> nat \<Rightarrow> u8 list
     \<Rightarrow> (xy_ret_Status_t \<times> 'h ota_context_t \<times> sys) res" where
  "ota_receive api drv s c head data_ptr data =
     bind_res (ota_store drv s c head data_ptr data) (\<lambda>s.
       Inr (XY_OK, c\<lparr>recv_size := recv_size c + of_nat (length data),
              hmac_context := map_option (\<lambda>h. hmac_feed api h data) (hmac_context c)\<rparr>, s))"

definition ota_downlink_packet_proc ::
    "'h hmac_api \<Rightarrow> flash_drv \<Rightarrow> sys \<Rightarrow> 'h ota_context_t option \<Rightarrow> nat \<Rightarrow> u8 list
     \<Rightarrow> (xy_ret_Status_t \<times> 'h ota_context_t \<times> sys) res" where
  "ota_downlink_packet_proc api drv s ctx data_ptr data =
     (case ctx of
        None \<Rightarrow> Inl BadAccess
      | Some c \<Rightarrow>
         (case (head_info c, hmac_context c) of
            (Some head, Some h) \<Rightarrow>
              let input_len = of_nat (length data); recv = recv_size c
              in if flash_maxlen c < recv + input_len then Inr (XY_ERR, c, s)
                 else if recv + input_len < of_nat head_size then
                   (if head_size < unat recv + length data then Inl BadAccess
                    else Inr (XY_OK, c\<lparr>head_info := Some (blit head (unat recv) data),
                                      recv_size := recv + input_len\<rparr>, s))
                 else if recv < of_nat head_size then
                   let k = head_size - unat recv;
                       head = blit head (unat recv) (take k data);
                       c = c\<lparr>head_info := Some head, recv_size := of_nat head_size\<rparr>
                   in (case ota_head_check api (flash s) c head h of
                         None \<Rightarrow> Inr (XY_ERR, c, s)
                       | Some c \<Rightarrow> ota_receive api drv s c head (data_ptr + k) (drop k data))
                 else ota_receive api drv s c head data_ptr data
          | _ \<Rightarrow> Inr (XY_ERR, c, s)))"

section \<open>Checking a received delta\<close>

text \<open>
  The \<open>bool\<close> result makes \<open>XY_ERR\<close> a 1; the hook gets the address and length of the
  user data of an accepted delta.
\<close>

definition ota_delta_check_sync ::
    "'h hmac_api \<Rightarrow> 'h ota_context_t option \<Rightarrow> (int \<times> (u32 \<times> u32) option \<times> 'h ota_context_t) res" where
  "ota_delta_check_sync api ctx =
     (case ctx of
        None \<Rightarrow> Inl BadAccess
      | Some c \<Rightarrow>
         (case (head_info c, hmac_context c) of
            (Some head, Some h) \<Rightarrow>
              let (h', digest) = hmacResult api h; c = c\<lparr>hmac_context := Some h'\<rparr>
              in if take SHA1HashSize digest = take SHA1HashSize (rsa_public_decrypt api (total_sha head))
                 then Inr (0, Some (fota_packet_base head + of_nat head_size, user_data_len head), c)
                 else Inr (1, None, c)
          | _ \<Rightarrow> Inr (-1, None, c)))"

text \<open>
  \<open>ota_delta_check_by_flash\<close>: the header is hashed from its first byte, 84 bytes short, and the
  rest in blocks of 512; the last block is what remains and has to fit the buffer.
\<close>

function hash_blocks ::
    "'h hmac_api \<Rightarrow> flash_drv \<Rightarrow> sys \<Rightarrow> nat \<Rightarrow> nat \<Rightarrow> nat \<Rightarrow> nat \<Rightarrow> 'h \<Rightarrow> (nat \<times> 'h option) res" where
  "hash_blocks api drv s stack_ptr pkt_addr read_size sz h =
     (if read_size + 512 < sz then
        bind_res (xy_flash_read drv s (pkt_addr + read_size) stack_ptr 512) (\<lambda>buf.
          let (h', err) = hmacInput api h buf
          in if err then Inr (read_size + 512, None)
             else hash_blocks api drv s stack_ptr pkt_addr (read_size + 512) sz h')
      else Inr (read_size, Some h))"
  by pat_completeness auto
termination
  by (relation "measure (\<lambda>(api, drv, s, stack_ptr, pkt_addr, read_size, sz, h). sz - read_size)") auto

declare hash_blocks.simps [simp del]

definition ota_delta_check_by_flash ::
    "'h hmac_api \<Rightarrow> flash_drv \<Rightarrow> sys \<Rightarrow> nat \<Rightarrow> nat \<Rightarrow> nat \<Rightarrow> (int \<times> (u32 \<times> u32) option) res" where
  "ota_delta_check_by_flash api drv s stack_ptr pkt_addr sz =
     bind_res (xy_flash_read drv s pkt_addr stack_ptr head_size) (\<lambda>head.
     let h = fst (hmacInput api (hmacZero api) (take (head_size - DELTA_RSA_SHA_LEN - 4) head))
     in bind_res (hash_blocks api drv s stack_ptr pkt_addr head_size sz h) (\<lambda>(read_size, hopt).
        case hopt of
          None \<Rightarrow> Inr (-1, None)
        | Some h \<Rightarrow>
            if sz < read_size then Inl BadAccess
            else bind_res (xy_flash_read drv s (pkt_addr + read_size) stack_ptr (sz - read_size)) (\<lambda>buf.
              let (h, err) = hmacInput api h buf
              in if err then Inr (-1, None)
                 else if take SHA1HashSize (snd (hmacResult api h))
                    = take SHA1HashSize (rsa_public_decrypt api (total_sha head))
                 then Inr (0, Some (fota_packet_base head + of_nat head_size, user_data_len head))
                 else Inr (1, None))))"

section \<open>Starting the update and its result\<close>

text \<open>
  \<open>Flash_Secondary_Boot_Fota_Def\<close> has 52 bytes: flag, base address, 40 bytes kept, checksum.
  The system is reset at the end; the result is the flash the second boot stage will see.
\<close>

definition fota_def_size :: nat where "fota_def_size = 52"

definition fota_def_bytes :: "u8 list \<Rightarrow> u32 \<Rightarrow> u8 list" where
  "fota_def_bytes old base =
     (let d = put32 (put32 old 0 1) 4 base
      in put32 d 48 (xy_chksum (take (fota_def_size - 4) d) AND 0xFFFF))"

definition ota_update_start ::
    "flash_drv \<Rightarrow> sys \<Rightarrow> 'h ota_context_t option \<Rightarrow> nat \<Rightarrow> (rb_type \<times> sys) res" where
  "ota_update_start drv s ctx stack_ptr =
     (case ctx of
        None \<Rightarrow> Inl BadAccess
      | Some c \<Rightarrow>
          bind_res (xy_flash_write drv s FOTA_UPDATE_INFO_ADDR stack_ptr
                     (fota_def_bytes (mem_read (flash s) FOTA_UPDATE_INFO_ADDR fota_def_size) (flash_base c)))
            (\<lambda>(_, s). Inr (RB_BY_FOTA, s)))"

definition ota_update_result ::
    "flash_drv \<Rightarrow> sys \<Rightarrow> fota_nv \<Rightarrow> nat \<Rightarrow> (xy_ret_Status_t \<times> fota_nv \<times> sys) res" where
  "ota_update_result drv s nv off_fota_res =
     (let r = load32 (flash s) FOTA_RESULT_FLASH_BASE;
          finish = (\<lambda>res flag.
            bind_res (SAVE_FAC_PARAM drv s off_fota_res [res]) (\<lambda>s.
            bind_res (xy_flash_erase drv s FOTA_RESULT_FLASH_BASE FOTA_RESULT_FLASH_MAXLEN) (\<lambda>(_, s).
              Inr (flag, nv\<lparr>fota_res := res, ota_status_flag := flag\<rparr>, s))))
      in if r = 1 then finish (fota_res nv OR 2 OR 4) XY_OK
         else if r = 2 then finish (fota_res nv OR 2 OR 8) XY_ERR
         else Inr (ota_status_flag nv, nv, s))"

end
