(* ===== verification/FotaSpec.thy ===== *)
theory FotaSpec
  imports Fota FtlSpec
begin

text \<open>
  Reception of a delta, whatever packets it comes in: the flash region and the digest depend
  only on the concatenation of the packets.
\<close>

section \<open>Erasing and programming a region\<close>

lemma mem_write_cover: "length x \<le> length y \<Longrightarrow> mem_write (mem_write m a x) a y = mem_write m a y"
  by (auto simp: mem_write_def fun_eq_iff)

definition region :: "mem \<Rightarrow> nat \<Rightarrow> nat \<Rightarrow> u8 list \<Rightarrow> mem" where
  "region m base maxlen x = mem_write (mem_write m base (replicate maxlen 0xFF)) base x"

lemma region_free:
  assumes "length x \<le> i" "i < maxlen"
  shows "region m base maxlen x (base + i) = 0xFF"
  using assms by (simp add: region_def mem_write_def)

lemma region_append:
  "mem_write (region m base maxlen x) (base + length x) d = region m base maxlen (x @ d)"
  by (simp add: region_def mem_write_append)

lemma region_restart:
  assumes "length x \<le> maxlen"
  shows "mem_write (region m base maxlen x) base (replicate maxlen 0xFF) = region m base maxlen []"
  using assms by (simp add: region_def mem_write_cover)

lemma region_Nil_append:
  "length x \<le> maxlen \<Longrightarrow> mem_write (region m base maxlen []) base x = region m base maxlen x"
  by (simp add: region_def)

context nor_flash
begin

lemma flash_erase_pages:
  assumes "in_flash a (n * EFTL_PAGE_SIZE)" "a mod EFTL_PAGE_SIZE = 0"
  shows "flash_erase drv m a (n * EFTL_PAGE_SIZE) = Inr (mem_write m a (replicate (n * EFTL_PAGE_SIZE) 0xFF))"
proof -
  have fold: "fold (\<lambda>page m. FLASH_SectorErase drv m (a + page * EFTL_PAGE_SIZE)) [0..<k] m
      = mem_write m a (replicate (k * EFTL_PAGE_SIZE) 0xFF)" if "k \<le> n" for k
    using that
  proof (induction k)
    case (Suc k)
    have "Suc k * EFTL_PAGE_SIZE \<le> n * EFTL_PAGE_SIZE" using Suc.prems by (rule mult_le_mono1)
    then have fl: "in_flash (a + k * EFTL_PAGE_SIZE) EFTL_PAGE_SIZE" using assms(1) by (simp add: in_flash_def)
    have al: "(a + k * EFTL_PAGE_SIZE) mod EFTL_PAGE_SIZE = 0" using assms(2) by simp
    have "mem_write (mem_write m a (replicate (k * EFTL_PAGE_SIZE) 0xFF)) (a + k * EFTL_PAGE_SIZE) erased_page
        = mem_write m a (replicate (k * EFTL_PAGE_SIZE) 0xFF @ erased_page)"
      using mem_write_append [of m a "replicate (k * EFTL_PAGE_SIZE) 0xFF" erased_page] by simp
    also have "replicate (k * EFTL_PAGE_SIZE) 0xFF @ erased_page = replicate (Suc k * EFTL_PAGE_SIZE) 0xFF"
      by (simp add: erased_page_def replicate_add [symmetric] add.commute)
    finally show ?case using Suc by (simp add: erase_law [OF fl al])
  qed simp
  have small: "n * EFTL_PAGE_SIZE \<le> 0x200000" using assms(1) by (simp add: in_flash_def memmap_defs)
  then have "(n * EFTL_PAGE_SIZE + EFTL_PAGE_SIZE - 1) mod 2 ^ 32 = n * EFTL_PAGE_SIZE + EFTL_PAGE_SIZE - 1"
    "n * EFTL_PAGE_SIZE + EFTL_PAGE_SIZE - 1 < 2 ^ 31"
    "(n * EFTL_PAGE_SIZE + EFTL_PAGE_SIZE - 1) div EFTL_PAGE_SIZE = n"
    by (simp_all add: EFTL_PAGE_SIZE_def)
  then show ?thesis
    using assms(2) fold [of n] by (simp only: flash_erase_def Let_def xy_assert_True bind_res_Inr if_True) simp
qed

lemma xy_flash_erase_pages:
  assumes "in_flash a n" "a mod EFTL_PAGE_SIZE = 0" "n mod EFTL_PAGE_SIZE = 0" "0 < n" "battery_ok s"
  shows "xy_flash_erase drv s a n = Inr (XY_OK, s\<lparr>flash := mem_write (flash s) a (replicate n 0xFF)\<rparr>)"
proof -
  obtain k where k: "n = k * EFTL_PAGE_SIZE" using assms(3) by (metis mod_0_imp_dvd dvd_def mult.commute)
  have "EFTL_PAGE_SIZE \<le> n" using assms(4) k by (cases k) auto
  then show ?thesis
    using assms flash_operate_ext_is_erase [of a k] flash_erase_pages [of a k]
    by (simp add: xy_flash_erase_def battery_ok_check k Let_def)
qed

lemma xy_flash_write_no_erase_ok:
  assumes "in_flash a (length d)" "SRAM_BASE \<le> ram" "ram \<le> SRAM_BASE + SRAM_LENGTH" "battery_ok s"
    and "\<forall>i < length d. flash s (a + i) = 0xFF"
  shows "xy_flash_write_no_erase drv s a ram d = Inr (XY_OK, s\<lparr>flash := mem_write (flash s) a d\<rparr>)"
  using assms
  by (simp add: xy_flash_write_no_erase_def flash_args_ok_intro battery_ok_check
      flash_write_no_erase_def write_law flash_operate_ext_no_erase)

end

section \<open>Reception\<close>

text \<open>All packets of a download, in order, stopping at the first error.\<close>

fun ota_downlink_all ::
    "'h hmac_api \<Rightarrow> flash_drv \<Rightarrow> sys \<Rightarrow> 'h ota_context_t \<Rightarrow> nat \<Rightarrow> u8 list list
     \<Rightarrow> (xy_ret_Status_t \<times> 'h ota_context_t \<times> sys) res" where
  "ota_downlink_all api drv s c ptr [] = Inr (XY_OK, c, s)"
| "ota_downlink_all api drv s c ptr (d # ds) =
     bind_res (ota_downlink_packet_proc api drv s (Some c) ptr d) (\<lambda>(r, c, s).
       if r \<noteq> XY_OK then Inr (r, c, s) else ota_downlink_all api drv s c ptr ds)"

text \<open>The context after \<open>ota_update_Init\<close>, and where a package is allowed to go.\<close>

definition fota_fresh :: "'h ota_context_t \<Rightarrow> 'h \<Rightarrow> bool" where
  "fota_fresh c h0 \<longleftrightarrow>
     recv_size c = 0 \<and> hmac_context c = Some h0
     \<and> (\<exists>hb. head_info c = Some hb \<and> length hb = head_size)
     \<and> SRAM_BASE \<le> head_ptr c \<and> head_ptr c \<le> SRAM_BASE + SRAM_LENGTH"

definition fota_place_ok :: "sys \<Rightarrow> 'h ota_context_t \<Rightarrow> u8 list \<Rightarrow> bool" where
  "fota_place_ok s c p \<longleftrightarrow>
     head_size \<le> length p \<and> length p \<le> unat (flash_maxlen c)
     \<and> unat (fota_packet_base p) mod EFTL_PAGE_SIZE = 0 \<and> unat (flash_maxlen c) mod EFTL_PAGE_SIZE = 0
     \<and> in_flash (unat (fota_packet_base p)) (unat (flash_maxlen c))"

definition fota_head_ok :: "sys \<Rightarrow> 'h ota_context_t \<Rightarrow> u8 list \<Rightarrow> bool" where
  "fota_head_ok s c p \<longleftrightarrow>
     magic_num p = MAGIC_NUM \<and> ota_version_check (flash s) (take head_size p) = XY_OK
     \<and> flash_base c \<le> fota_packet_base p"

lemma blit_prefix:
  assumes "take (length q) h = q" "length q + length d \<le> length h"
  shows "take (length q + length d) (blit h (length q) d) = q @ d"
  using assms by (simp add: blit_def)

locale fota_env = nor_flash drv + hmac_stream api
  for drv :: flash_drv and api :: "'h hmac_api"
begin

lemma hmac_feed_eq: "hmac_feed api h d = fst (hmacInput api h d)"
proof (induction "length d" arbitrary: h d rule: less_induct)
  case less
  show ?case
  proof (cases "BUF_LEN \<le> length d")
    case True
    have "hmac_feed api h d = hmac_feed api (fst (hmacInput api h (take BUF_LEN d))) (drop BUF_LEN d)"
      using True by (subst hmac_feed.simps) simp
    also have "\<dots> = fst (hmacInput api (fst (hmacInput api h (take BUF_LEN d))) (drop BUF_LEN d))"
      using True by (intro less.hyps) (simp add: BUF_LEN_def)
    also have "\<dots> = fst (hmacInput api h d)" by (simp add: input_append)
    finally show ?thesis .
  next
    case False
    then show ?thesis by (subst hmac_feed.simps) (simp add: input_nil)
  qed
qed

text \<open>\<open>q\<close> is what has been received of the package \<open>p\<close>.\<close>

definition received ::
    "sys \<Rightarrow> 'h ota_context_t \<Rightarrow> 'h \<Rightarrow> u8 list \<Rightarrow> u8 list \<Rightarrow> 'h ota_context_t \<Rightarrow> sys \<Rightarrow> bool" where
  "received s0 c0 h0 p q c s \<longleftrightarrow>
     recv_size c = of_nat (length q) \<and> flash_maxlen c = flash_maxlen c0 \<and> head_ptr c = head_ptr c0
     \<and> (if length q < head_size
        then s = s0 \<and> flash_base c = flash_base c0 \<and> hmac_context c = Some h0
             \<and> (\<exists>hb. head_info c = Some hb \<and> length hb = head_size \<and> take (length q) hb = q)
        else s = s0\<lparr>flash := region (flash s0) (unat (fota_packet_base p)) (unat (flash_maxlen c0)) q\<rparr>
             \<and> flash_base c = fota_packet_base p
             \<and> hmac_context c = Some (fst (hmacInput api h0 (drop 84 q)))
             \<and> head_info c = Some (take head_size q))"

lemma store_first:
  assumes place: "fota_place_ok s0 c0 p" and bat: "battery_ok s" and x: "length x \<le> unat (flash_maxlen c0)"
    and fl: "flash s = flash s0 \<or> flash s = region (flash s0) (unat (fota_packet_base p)) (unat (flash_maxlen c0)) x"
    and c: "flash_base c = fota_packet_base p" "flash_maxlen c = flash_maxlen c0" "recv_size c = of_nat head_size"
    and ptr: "SRAM_BASE \<le> head_ptr c" "head_ptr c \<le> SRAM_BASE + SRAM_LENGTH"
      "SRAM_BASE \<le> dp" "dp \<le> SRAM_BASE + SRAM_LENGTH"
    and hb: "length hb = head_size" and len: "head_size + length d \<le> unat (flash_maxlen c0)"
  shows "ota_store drv s c hb dp d =
    Inr (s\<lparr>flash := region (flash s0) (unat (fota_packet_base p)) (unat (flash_maxlen c0)) (hb @ d)\<rparr>)"
proof -
  let ?b = "unat (fota_packet_base p)" and ?n = "unat (flash_maxlen c0)"
  let ?r = "region (flash s0) ?b ?n"
  have pl: "in_flash ?b ?n" "?b mod EFTL_PAGE_SIZE = 0" "?n mod EFTL_PAGE_SIZE = 0" "0 < ?n"
    using place by (auto simp: fota_place_ok_def head_size_def)
  have e: "xy_flash_erase drv s ?b ?n = Inr (XY_OK, s\<lparr>flash := ?r []\<rparr>)"
    using xy_flash_erase_pages [OF pl bat] fl x region_restart [OF x]
    by (auto simp: region_def)
  have fh: "in_flash ?b (length hb)" "in_flash (?b + head_size) (length d)"
    using pl(1) len hb by (simp_all add: in_flash_def)
  have w1: "xy_flash_write_no_erase drv (s\<lparr>flash := ?r []\<rparr>) ?b (head_ptr c) hb = Inr (XY_OK, s\<lparr>flash := ?r hb\<rparr>)"
    using xy_flash_write_no_erase_ok [OF fh(1) ptr(1,2), of "s\<lparr>flash := ?r []\<rparr>"] bat len hb
      region_free [of "[]" _ ?n "flash s0" ?b] region_Nil_append [of hb ?n "flash s0" ?b] by simp
  have w2: "xy_flash_write_no_erase drv (s\<lparr>flash := ?r hb\<rparr>) (?b + head_size) dp d
      = Inr (XY_OK, s\<lparr>flash := ?r (hb @ d)\<rparr>)"
    using xy_flash_write_no_erase_ok [OF fh(2) ptr(3,4), of "s\<lparr>flash := ?r hb\<rparr>"] bat len
      region_append [of "flash s0" ?b ?n hb d] region_free [of hb _ ?n "flash s0" ?b] hb
    by (simp add: add.assoc)
  have u: "unat (fota_packet_base p + of_nat head_size) = ?b + head_size"
  proof -
    have "?b + head_size < 2 ^ 32" using pl(1) len by (simp add: in_flash_def memmap_defs)
    then show ?thesis by (simp add: unat_word_ariths unat_of_nat take_bit_eq_mod head_size_def)
  qed
  show ?thesis
    using e w1 w2 c by (simp add: ota_store_def u)
qed

lemma packet_step:
  assumes fresh: "fota_fresh c0 h0" and place: "fota_place_ok s0 c0 p" and head: "fota_head_ok s0 c0 p"
    and bat: "battery_ok s0" and ptr: "SRAM_BASE \<le> dp" "dp + head_size \<le> SRAM_BASE + SRAM_LENGTH"
    and inv: "received s0 c0 h0 p q c s" and pre: "q @ d @ rest = p"
  obtains c' s' where "ota_downlink_packet_proc api drv s (Some c) dp d = Inr (XY_OK, c', s')"
    "received s0 c0 h0 p (q @ d) c' s'"
proof -
  define n where "n = unat (flash_maxlen c0)"
  define b where "b = unat (fota_packet_base p)"
  have maxlen: "flash_maxlen c = of_nat n" using inv by (simp add: received_def n_def)
  have n32: "n < 2 ^ 32" using u32_less [of "flash_maxlen c0"] by (simp add: n_def)
  have lp: "length q + length d \<le> n" "head_size \<le> length p" "length p \<le> n"
    using place pre by (auto simp: fota_place_ok_def n_def)
  then have l32: "length q + length d < 2 ^ 32" using n32 by simp
  have rq: "recv_size c = of_nat (length q)" using inv by (simp add: received_def)
  have sum: "recv_size c + of_nat (length d) = of_nat (length q + length d)" by (simp add: rq)
  have fits: "\<not> flash_maxlen c < recv_size c + of_nat (length d)"
    using lp(1) by (simp only: sum maxlen word_less_nat_alt unat_of_nat32 [OF l32] unat_of_nat32 [OF n32] not_less)
  have lt_iff: "of_nat k < (of_nat head_size :: u32) \<longleftrightarrow> k < head_size" if "k < 2 ^ 32" for k
    using that by (simp add: word_less_nat_alt unat_of_nat take_bit_eq_mod head_size_def)
  have hq: "unat (recv_size c) = length q" using l32 by (simp add: rq unat_of_nat take_bit_eq_mod)
  have ptrs: "SRAM_BASE \<le> head_ptr c" "head_ptr c \<le> SRAM_BASE + SRAM_LENGTH"
    using fresh inv by (simp_all add: fota_fresh_def received_def)
  note proc = ota_downlink_packet_proc_def Let_def
  consider (hdr) "length q + length d < head_size"
    | (cross) "length q < head_size" "head_size \<le> length q + length d"
    | (body) "head_size \<le> length q" by linarith
  then show thesis
  proof cases
    case hdr
    then obtain hb where hb: "head_info c = Some hb" "length hb = head_size" "take (length q) hb = q"
      "hmac_context c = Some h0" "s = s0" "flash_base c = flash_base c0"
      using inv by (auto simp: received_def)
    define c' where "c' = c\<lparr>head_info := Some (blit hb (length q) d), recv_size := recv_size c + of_nat (length d)\<rparr>"
    have "recv_size c + of_nat (length d) < of_nat head_size"
      using hdr lt_iff [OF l32] by (simp only: sum)
    then have "ota_downlink_packet_proc api drv s (Some c) dp d = Inr (XY_OK, c', s)"
      using hdr hb fits hq by (simp add: proc c'_def)
    moreover have "received s0 c0 h0 p (q @ d) c' s"
      using hdr hb inv blit_prefix [OF hb(3), of d] by (auto simp: received_def c'_def)
    ultimately show thesis using that by blast
  next
    case cross
    then obtain hb where hb: "head_info c = Some hb" "length hb = head_size" "take (length q) hb = q"
      "hmac_context c = Some h0" "s = s0" "flash_base c = flash_base c0"
      using inv by (auto simp: received_def)
    define k where "k = head_size - length q"
    define hb' where "hb' = q @ take k d"
    have lk: "length (take k d) = k" "length q + k = head_size" using cross by (simp_all add: k_def)
    have hb': "blit hb (length q) (take k d) = hb'" "length hb' = head_size"
      using blit_prefix [OF hb(3), of "take k d"] lk hb(2) by (simp_all add: hb'_def) 
    have hp: "hb' = take head_size p"
    proof -
      have "k \<le> length d" using cross by (simp add: k_def)
      then show ?thesis unfolding pre [symmetric] lk(2) [symmetric] hb'_def by simp
    qed
    define c1 where "c1 = c\<lparr>head_info := Some hb', recv_size := of_nat head_size\<rparr>"
    define c2 where "c2 = c1\<lparr>flash_base := fota_packet_base p, hmac_context := Some (fst (hmacInput api h0 (drop 84 hb')))\<rparr>"
    have fields: "magic_num hb' = magic_num p" "fota_packet_base hb' = fota_packet_base p"
      by (simp_all add: hp magic_num_def fota_packet_base_def get32_take head_size_def)
    have chk: "ota_head_check api (flash s) c1 hb' h0 = Some c2"
      using head hb fields by (simp add: ota_head_check_def fota_head_ok_def c1_def c2_def hp not_less [symmetric])
    have st: "ota_store drv s c2 hb' (dp + k) (drop k d)
        = Inr (s\<lparr>flash := region (flash s0) b n (hb' @ drop k d)\<rparr>)"
      unfolding b_def n_def
    proof (rule store_first [OF place, where x = "[]"])
      show "head_size + length (drop k d) \<le> unat (flash_maxlen c0)" using lp(1) lk by (simp add: n_def)
    qed (use bat hb ptrs ptr maxlen hb' lk inv in \<open>simp_all add: c2_def c1_def received_def k_def\<close>)
    define c' where "c' = c2\<lparr>recv_size := of_nat head_size + of_nat (length (drop k d)),
        hmac_context := Some (fst (hmacInput api h0 (drop 84 (q @ d))))\<rparr>"
    have qd: "hb' @ drop k d = q @ d" by (simp add: hb'_def)
    have "drop 84 (q @ d) = drop 84 hb' @ drop k d"
      using hb'(2) by (simp add: qd [symmetric] head_size_def)
    then have hm: "fst (hmacInput api (fst (hmacInput api h0 (drop 84 hb'))) (drop k d)) = fst (hmacInput api h0 (drop 84 (q @ d)))"
      by (simp only: input_append)
    have rcv: "ota_receive api drv s c2 hb' (dp + k) (drop k d)
        = Inr (XY_OK, c', s\<lparr>flash := region (flash s0) b n (q @ d)\<rparr>)"
      using st hm by (simp add: ota_receive_def c'_def c2_def c1_def hmac_feed_eq qd)
    have "\<not> recv_size c + of_nat (length d) < of_nat head_size" "recv_size c < of_nat head_size"
      using cross lt_iff [OF l32] lt_iff [of "length q"] l32 by (simp_all only: sum rq not_less) auto
    then have "ota_downlink_packet_proc api drv s (Some c) dp d
        = Inr (XY_OK, c', s\<lparr>flash := region (flash s0) b n (q @ d)\<rparr>)"
      using hb fits hq hb' chk rcv by (simp add: proc k_def [symmetric] c1_def [symmetric])
    moreover have "received s0 c0 h0 p (q @ d) c' (s\<lparr>flash := region (flash s0) b n (q @ d)\<rparr>)"
    proof -
      have "of_nat head_size + of_nat (length (drop k d)) = (of_nat (length (q @ d)) :: u32)"
      proof -
        have "head_size + length (drop k d) = length (q @ d)" using cross by (simp add: k_def)
        then show ?thesis by (simp only: of_nat_add [symmetric])
      qed
      moreover have "take head_size (q @ d) = hb'" using hb'(2) by (simp add: qd [symmetric])
      ultimately show ?thesis
        using cross hb inv by (simp add: received_def c'_def c2_def c1_def b_def n_def)
    qed
    ultimately show thesis using that by blast
  next
    case body
    then have c: "s = s0\<lparr>flash := region (flash s0) b n q\<rparr>" "flash_base c = fota_packet_base p"
      "hmac_context c = Some (fst (hmacInput api h0 (drop 84 q)))" "head_info c = Some (take head_size q)"
      using inv by (simp_all add: received_def b_def n_def)
    have st: "ota_store drv s c (take head_size q) dp d = Inr (s0\<lparr>flash := region (flash s0) b n (q @ d)\<rparr>)"
    proof (cases "length q = head_size")
      case True
      have "ota_store drv s c (take head_size q) dp d
          = Inr (s\<lparr>flash := region (flash s0) b n (take head_size q @ d)\<rparr>)"
        unfolding b_def n_def
      proof (rule store_first [OF place, where x = q])
        show "battery_ok s" using bat c by simp
        show "length q \<le> unat (flash_maxlen c0)" using lp by (simp add: n_def)
        show "head_size + length d \<le> unat (flash_maxlen c0)" using lp(1) True by (simp add: n_def)
        show "recv_size c = of_nat head_size" using rq True by simp
      qed (use c ptrs ptr True inv in \<open>simp_all add: b_def n_def received_def\<close>)
      then show ?thesis using True c by simp
    next
      case False
      have ne: "recv_size c \<noteq> of_nat head_size"
      proof
        assume "recv_size c = of_nat head_size"
        then have "length q = unat (of_nat head_size :: u32)" using hq by simp
        then show False using False by (simp add: head_size_def)
      qed
      have fl: "in_flash b n" using place by (simp add: fota_place_ok_def b_def n_def)
      then have fd: "in_flash (b + length q) (length d)" and b32: "b + length q < 2 ^ 32"
        using lp(1) by (simp_all add: in_flash_def memmap_defs)
      have u: "unat (flash_base c + recv_size c) = b + length q"
        using b32 hq c by (simp add: unat_word_ariths b_def)
      have dp: "dp \<le> SRAM_BASE + SRAM_LENGTH" using ptr by simp
      have "xy_flash_write_no_erase drv s (b + length q) dp d
          = Inr (XY_OK, s\<lparr>flash := mem_write (flash s) (b + length q) d\<rparr>)"
        using bat c lp(1) region_free [of q _ n "flash s0" b]
        by (intro xy_flash_write_no_erase_ok [OF fd ptr(1) dp]) (simp_all add: add.assoc)
      then show ?thesis
        using ne u c by (simp add: ota_store_def region_append)
    qed
    define c' where "c' = c\<lparr>recv_size := recv_size c + of_nat (length d),
        hmac_context := Some (fst (hmacInput api h0 (drop 84 (q @ d))))\<rparr>"
    have "drop 84 (q @ d) = drop 84 q @ d" using body by (simp add: head_size_def)
    then have hm: "fst (hmacInput api (fst (hmacInput api h0 (drop 84 q))) d) = fst (hmacInput api h0 (drop 84 (q @ d)))"
      by (simp only: input_append)
    have "\<not> recv_size c + of_nat (length d) < of_nat head_size" "\<not> recv_size c < of_nat head_size"
      using body lt_iff [OF l32] lt_iff [of "length q"] l32 by (simp_all only: sum rq not_less) auto
    then have "ota_downlink_packet_proc api drv s (Some c) dp d
        = Inr (XY_OK, c', s0\<lparr>flash := region (flash s0) b n (q @ d)\<rparr>)"
      using c fits st hm by (simp add: proc ota_receive_def hmac_feed_eq c'_def)
    moreover have "received s0 c0 h0 p (q @ d) c' (s0\<lparr>flash := region (flash s0) b n (q @ d)\<rparr>)"
      using body c inv by (simp add: received_def c'_def b_def n_def)
    ultimately show thesis using that by blast
  qed
qed

lemma packets_received:
  assumes "fota_fresh c0 h0" "fota_place_ok s0 c0 p" "fota_head_ok s0 c0 p" "battery_ok s0"
    "SRAM_BASE \<le> dp" "dp + head_size \<le> SRAM_BASE + SRAM_LENGTH"
  shows "received s0 c0 h0 p q c s \<Longrightarrow> q @ concat ds = p \<Longrightarrow>
    \<exists>c' s'. ota_downlink_all api drv s c dp ds = Inr (XY_OK, c', s') \<and> received s0 c0 h0 p p c' s'"
proof (induction ds arbitrary: q c s)
  case (Cons d ds)
  obtain c1 s1 where st: "ota_downlink_packet_proc api drv s (Some c) dp d = Inr (XY_OK, c1, s1)"
    "received s0 c0 h0 p (q @ d) c1 s1"
    using packet_step [OF assms Cons.prems(1), of d "concat ds"] Cons.prems(2) by auto
  then show ?case using Cons.IH [OF st(2)] Cons.prems(2) by simp
qed simp

lemma fresh_received: "fota_fresh c h0 \<Longrightarrow> received s c h0 p [] c s"
  by (auto simp: fota_fresh_def received_def head_size_def)

end

end
