(* ===== verification/FotaProps.thy ===== *)
theory FotaProps
  imports FotaSpec FtlProps
begin

text \<open>
  The properties of the firmware download.  The digest instance used for the witnesses keeps
  the bytes it was given and returns their checksum.
\<close>

definition sum_api :: "u8 list hmac_api" where
  "sum_api = \<lparr>hmacReset = (\<lambda>k. k), hmacZero = [], hmacInput = (\<lambda>h d. (h @ d, False)),
     hmacResult = (\<lambda>h. (h, bytes_of_u32 (xy_chksum h))), rsa_public_decrypt = take 4\<rparr>"

interpretation sum: fota_env nor_drv sum_api
  by (simp add: fota_env_def nor_is_flash hmac_stream_def sum_api_def)

definition demo_pkg :: "u8 list" where
  "demo_pkg = put32 (put32 (replicate 200 0) 0 MAGIC_NUM) 148 0x271E0000"

definition demo_ctx :: "u8 list ota_context_t" where
  "demo_ctx = \<lparr>flash_base = 0x271A0000, flash_maxlen = 0x20000, recv_size = 0,
     hmac_context = Some (hmacReset sum_api HMAC_KEY), head_info = Some (replicate head_size 0),
     head_ptr = 0x20030000\<rparr>"

lemma demo_pkg_facts:
  "length demo_pkg = 200" "magic_num demo_pkg = MAGIC_NUM" "fota_packet_base demo_pkg = 0x271E0000"
  by (simp_all add: demo_pkg_def magic_num_def fota_packet_base_def get32_put32_other)

lemma demo_version: "ota_version_check (\<lambda>_. 0) (take head_size demo_pkg) = XY_OK"
proof -
  have "take 20 (drop 88 demo_pkg) = take 20 (drop 88 (replicate 200 0))"
    by (simp add: demo_pkg_def read_put32_other)
  then have "old_image_version_sha (take head_size demo_pkg) = replicate 20 0"
    by (simp add: old_image_version_sha_def head_size_def drop_take min_def)
  moreover have "mem_read (\<lambda>_. 0) VERSION_MIMG_SHA SHA1HashSize = replicate 20 0"
    by (rule nth_equalityI) (simp_all add: SHA1HashSize_def)
  ultimately show ?thesis by (simp add: ota_version_check_def)
qed

lemma demo_ok:
  "fota_fresh demo_ctx HMAC_KEY"
  "fota_place_ok (booted (\<lambda>_. 0)) demo_ctx demo_pkg"
  "fota_head_ok (booted (\<lambda>_. 0)) demo_ctx demo_pkg"
  using demo_pkg_facts demo_version
  by (simp_all add: fota_fresh_def fota_place_ok_def fota_head_ok_def demo_ctx_def sum_api_def
      in_flash_def memmap_defs EFTL_PAGE_SIZE_def head_size_def)

section \<open>Properties\<close>



text \<open>
  a package that starts above the free region erases flash behind it.  The header may move
  \<open>flash_base\<close> up to \<open>fota_packet_base\<close>, but \<open>flash_maxlen\<close>, the size of the region from its old
  start, is erased from the new one: after the download every byte behind the package and before
  \<open>fota_packet_base + flash_maxlen\<close> is erased, also those past the end of the region, where the
  backup area and the user's flash are.
\<close>

lemma fota_erases_past_region:
  assumes "nor_flash drv" and "hmac_stream api"
    and "fota_fresh c h0" and "fota_place_ok s c p" and "fota_head_ok s c p" and "battery_ok s"
    and "SRAM_BASE \<le> dp" and "dp + head_size \<le> SRAM_BASE + SRAM_LENGTH" and "concat ds = p"
    and "unat (flash_base c) + unat (flash_maxlen c) \<le> x"
    and "unat (fota_packet_base p) + length p \<le> x"
    and "x < unat (fota_packet_base p) + unat (flash_maxlen c)"
  shows "\<exists>c' s'. ota_downlink_all api drv s c dp ds = Inr (XY_OK, c', s') \<and> flash s' x = 0xFF"
proof -
  have env: "fota_env drv api" using assms(1,2) by (simp add: fota_env_def)
  obtain c' s' where all: "ota_downlink_all api drv s c dp ds = Inr (XY_OK, c', s')"
    and rcv: "fota_env.received api s c h0 p p c' s'"
    using fota_env.packets_received [OF env assms(3-8) fota_env.fresh_received [OF env assms(3)], where ds = ds]
      assms(9) by auto
  have lp: "head_size \<le> length p" using assms(4) by (simp add: fota_place_ok_def)
  then have "s' = s\<lparr>flash := region (flash s) (unat (fota_packet_base p)) (unat (flash_maxlen c)) p\<rparr>"
    using rcv by (simp add: fota_env.received_def [OF env])
  moreover have "region (flash s) (unat (fota_packet_base p)) (unat (flash_maxlen c)) p x = 0xFF"
    using assms(11,12) region_free [of p "x - unat (fota_packet_base p)" "unat (flash_maxlen c)" "flash s"
        "unat (fota_packet_base p)"] by simp
  ultimately show ?thesis using all by auto
qed

lemma fota_erases_past_region_witness:
  "\<exists>c' s'. ota_downlink_all sum_api nor_drv (booted (\<lambda>_. 0)) demo_ctx 0x20040000 [demo_pkg] = Inr (XY_OK, c', s')
    \<and> flash s' 0x271FC000 = 0xFF"
  using fota_erases_past_region [OF nor_is_flash sum.hmac_stream_axioms demo_ok booted_battery,
      where dp = "0x20040000" and ds = "[demo_pkg]" and x = "0x271FC000"]
  by (simp add: demo_pkg_facts memmap_defs head_size_def demo_ctx_def)

text \<open>
  a header that was rejected is stored by the next packet.  \<open>recv_size\<close> is set to the header
  size before the magic number and the version are checked; after the \<open>XY_ERR\<close> the caller may
  send more data, and \<open>ota_downlink_packet_proc\<close> then goes past the checks, erases the region and
  returns \<open>XY_OK\<close> with the rejected header in flash.
\<close>

lemma fota_rejected_header_is_stored:
  assumes "nor_flash drv" and "battery_ok s"
    and "recv_size c = 0" and "head_info c = Some hb0" and "length hb0 = head_size" and "hmac_context c = Some h0"
    and "length d = head_size" and "magic_num d \<noteq> MAGIC_NUM"
    and "head_size + length e \<le> unat (flash_maxlen c)" and "e \<noteq> []"
    and "unat (flash_base c) mod EFTL_PAGE_SIZE = 0" and "unat (flash_maxlen c) mod EFTL_PAGE_SIZE = 0"
    and "in_flash (unat (flash_base c)) (unat (flash_maxlen c))"
    and "SRAM_BASE \<le> head_ptr c" and "head_ptr c \<le> SRAM_BASE + SRAM_LENGTH"
    and "SRAM_BASE \<le> dp" and "dp \<le> SRAM_BASE + SRAM_LENGTH"
  shows "\<exists>c1 c2 s2. ota_downlink_packet_proc api drv s (Some c) dp d = Inr (XY_ERR, c1, s)
    \<and> ota_downlink_packet_proc api drv s (Some c1) dp e = Inr (XY_OK, c2, s2)
    \<and> mem_read (flash s2) (unat (flash_base c)) (head_size + length e) = d @ e"
proof -
  define c1 where "c1 = c\<lparr>head_info := Some d, recv_size := of_nat head_size\<rparr>"
  let ?b = "unat (flash_base c)" and ?n = "unat (flash_maxlen c)"
  have n: "?n < 2 ^ 32" by (rule order.strict_trans2 [OF u32_less]) simp
  have hs: "unat (of_nat head_size :: u32) = head_size" by (simp add: head_size_def)
  have nd: "flash_maxlen c = of_nat ?n" by simp
  have le: "\<not> flash_maxlen c < of_nat head_size" "\<not> flash_maxlen c < of_nat head_size + of_nat (length e)"
  proof -
    show "\<not> flash_maxlen c < of_nat head_size" using assms(9) by (simp add: word_less_nat_alt hs not_less)
    have u: "unat (of_nat (head_size + length e) :: u32) = head_size + length e"
      using assms(9) n by (intro unat_of_nat32) linarith
    show "\<not> flash_maxlen c < of_nat head_size + of_nat (length e)"
      using assms(9) by (simp only: of_nat_add [symmetric] word_less_nat_alt u not_less)
  qed
  have pos: "0 < (of_nat head_size :: u32)" by (simp add: head_size_def)
  have b0: "blit hb0 0 d = d" using assms(5,7) by (simp add: blit_def)
  have s1: "ota_downlink_packet_proc api drv s (Some c) dp d = Inr (XY_ERR, c1, s)"
    using assms(3-8) le(1) b0 pos
    by (simp add: ota_downlink_packet_proc_def Let_def ota_head_check_def c1_def)
  have st: "ota_store drv s c1 d dp e = Inr (s\<lparr>flash := region (flash s) ?b ?n (d @ e)\<rparr>)"
  proof -
    let ?r = "region (flash s) ?b ?n"
    have len: "length d + length e \<le> ?n" using assms(7,9) by simp
    have pos: "0 < ?n" using assms(9) by (simp add: head_size_def)
    have er: "xy_flash_erase drv s ?b ?n = Inr (XY_OK, s\<lparr>flash := ?r []\<rparr>)"
      using nor_flash.xy_flash_erase_pages [OF assms(1,13,11,12) pos assms(2)] by (simp add: region_def)
    have fh: "in_flash ?b (length d)" "in_flash (?b + length d) (length e)"
      using assms(13) len by (simp_all add: in_flash_def)
    have w1: "xy_flash_write_no_erase drv (s\<lparr>flash := ?r []\<rparr>) ?b (head_ptr c) d = Inr (XY_OK, s\<lparr>flash := ?r d\<rparr>)"
      using nor_flash.xy_flash_write_no_erase_ok [OF assms(1) fh(1) assms(14,15), of "s\<lparr>flash := ?r []\<rparr>"]
        assms(2) len region_free [of "[]" _ ?n "flash s" ?b] region_Nil_append [of d ?n "flash s" ?b] by simp
    have w2: "xy_flash_write_no_erase drv (s\<lparr>flash := ?r d\<rparr>) (?b + length d) dp e = Inr (XY_OK, s\<lparr>flash := ?r (d @ e)\<rparr>)"
      using nor_flash.xy_flash_write_no_erase_ok [OF assms(1) fh(2) assms(16,17), of "s\<lparr>flash := ?r d\<rparr>"]
        assms(2) len region_append [of "flash s" ?b ?n d e] region_free [of d _ ?n "flash s" ?b]
      by (simp add: add.assoc)
    have "?b + length d < 2 ^ 32" using fh(1) by (simp add: in_flash_def memmap_defs)
    then have u: "unat (flash_base c + of_nat head_size) = ?b + length d"
      using assms(7) by (simp add: unat_word_ariths hs)
    show ?thesis using er w1 w2 u assms(10) by (simp add: ota_store_def c1_def)
  qed
  have "\<exists>c2. ota_downlink_packet_proc api drv s (Some c1) dp e
      = Inr (XY_OK, c2, s\<lparr>flash := region (flash s) ?b ?n (d @ e)\<rparr>)"
  proof -
    have u: "unat (of_nat (head_size + length e) :: u32) = head_size + length e"
      using assms(9) n by (intro unat_of_nat32) linarith
    have "\<not> of_nat head_size + of_nat (length e) < (of_nat head_size :: u32)"
      by (simp only: of_nat_add [symmetric] word_less_nat_alt u hs not_less)
    then show ?thesis
      using le(2) st assms(6)
      by (simp add: ota_downlink_packet_proc_def Let_def ota_receive_def c1_def)
  qed
  moreover have "mem_read (region (flash s) ?b ?n (d @ e)) ?b (head_size + length e) = d @ e"
    using assms(7) mem_read_write_same [of _ ?b "d @ e"] by (simp add: region_def)
  ultimately show ?thesis using s1 by auto
qed

lemma fota_rejected_header_is_stored_witness:
  "\<exists>c1 c2 s2. ota_downlink_packet_proc sum_api nor_drv (booted (\<lambda>_. 0)) (Some demo_ctx) 0x20040000 (replicate 164 7)
      = Inr (XY_ERR, c1, booted (\<lambda>_. 0))
    \<and> ota_downlink_packet_proc sum_api nor_drv (booted (\<lambda>_. 0)) (Some c1) 0x20040000 [1] = Inr (XY_OK, c2, s2)
    \<and> mem_read (flash s2) 0x271A0000 165 = replicate 164 7 @ [1]"
proof -
  have "magic_num (replicate 164 7) \<noteq> MAGIC_NUM"
    by (simp add: magic_num_def get32_def u32_of_def MAGIC_NUM_def)
  then show ?thesis
    using fota_rejected_header_is_stored [OF nor_is_flash booted_battery, of demo_ctx "replicate head_size 0"
        HMAC_KEY "replicate 164 7" "[1]" "0x20040000" sum_api "\<lambda>_. 0"]
    by (simp add: demo_ctx_def sum_api_def head_size_def EFTL_PAGE_SIZE_def in_flash_def memmap_defs)
qed

text \<open>
  C8: \<open>ota_update_start\<close> leaves a consistent order for the second boot stage: with the voltage
  good, the record at \<open>FOTA_UPDATE_INFO_ADDR\<close> has the upgrade flag, the address of the package and
  the low half of the checksum of its first 48 bytes, the 40 bytes between are kept, and the
  system is reset for the update.
\<close>

theorem fota_start_record:
  assumes "nor_flash drv" and "battery_ok s" and "SRAM_BASE \<le> sp" and "sp \<le> SRAM_BASE + SRAM_LENGTH"
  shows "\<exists>s'. ota_update_start drv s (Some c) sp = Inr (RB_BY_FOTA, s')
    \<and> load32 (flash s') FOTA_UPDATE_INFO_ADDR = 1
    \<and> load32 (flash s') (FOTA_UPDATE_INFO_ADDR + 4) = flash_base c
    \<and> mem_read (flash s') (FOTA_UPDATE_INFO_ADDR + 8) 40 = mem_read (flash s) (FOTA_UPDATE_INFO_ADDR + 8) 40
    \<and> load32 (flash s') (FOTA_UPDATE_INFO_ADDR + 48)
      = xy_chksum (mem_read (flash s') FOTA_UPDATE_INFO_ADDR 48) AND 0xFFFF
    \<and> (\<forall>x. x < FOTA_UPDATE_INFO_ADDR \<or> FOTA_UPDATE_INFO_ADDR + fota_def_size \<le> x \<longrightarrow> flash s' x = flash s x)"
proof -
  let ?a = FOTA_UPDATE_INFO_ADDR
  define old where "old = mem_read (flash s) ?a fota_def_size"
  define d0 where "d0 = put32 (put32 old 0 1) 4 (flash_base c)"
  define d where "d = put32 d0 48 (xy_chksum (take 48 d0) AND 0xFFFF)"
  have l: "length old = 52" "length d0 = 52" "length d = 52"
    by (simp_all add: d_def d0_def old_def fota_def_size_def)
  have dd: "fota_def_bytes old (flash_base c) = d"
    by (simp add: fota_def_bytes_def Let_def d_def d0_def fota_def_size_def)
  let ?s = "s\<lparr>flash := mem_write (flash s) ?a d\<rparr>"
  have fl: "in_flash ?a (length d)" by (simp add: l in_flash_def memmap_defs)
  have st: "ota_update_start drv s (Some c) sp = Inr (RB_BY_FOTA, ?s)"
    using nor_flash.xy_flash_write_ok [OF assms(1) fl assms(3,4,2)]
    by (simp add: ota_update_start_def old_def [symmetric] dd)
  have ld: "load32 (flash ?s) (?a + k) = get32 d k" if "k + 4 \<le> 52" for k
    using that load32_mem_write_inside [of ?a "?a + k" d "flash s"] l by simp
  have rd: "mem_read (flash ?s) (?a + k) n = take n (drop k d)" if "k + n \<le> 52" for k n
    using that mem_read_write_inside [of ?a "?a + k" n d "flash s"] l by simp
  have "get32 d 0 = 1" using l by (simp add: d_def get32_put32_other d0_def)
  moreover have "get32 d 4 = flash_base c"
    using l by (simp add: d_def get32_put32_other) (simp add: d0_def old_def fota_def_size_def)
  moreover have "take 40 (drop 8 d) = take 40 (drop 8 old)"
    using l by (simp add: d_def read_put32_other) (simp add: d0_def read_put32_other old_def fota_def_size_def)
  moreover have "take 48 d = take 48 d0" using l by (simp add: d_def take_put32_below)
  moreover have "get32 d 48 = xy_chksum (take 48 d0) AND 0xFFFF" using l by (simp add: d_def)
  moreover have "take 40 (drop 8 old) = mem_read (flash s) (?a + 8) 40"
    by (simp add: old_def fota_def_size_def drop_mem_read take_mem_read)
  ultimately show ?thesis
    using st ld [of 0] ld [of 4] ld [of 48] rd [of 8 40] rd [of 0 48] l
    by (intro exI [of _ ?s]) (auto simp: mem_write_outside fota_def_size_def)
qed

theorem fota_start_record_witness:
  "\<exists>s'. ota_update_start nor_drv (booted factory_fresh) (Some demo_ctx) 0x20050000 = Inr (RB_BY_FOTA, s')
    \<and> load32 (flash s') (FOTA_UPDATE_INFO_ADDR + 4) = 0x271A0000"
  using fota_start_record [OF nor_is_flash booted_battery, of "0x20050000" factory_fresh demo_ctx]
  by (auto simp: memmap_defs demo_ctx_def)

text \<open>
  the check of a stored delta does not hash what the check during the download hashes.  For a
  package in flash, \<open>ota_delta_check_by_flash\<close> starts from a context that was never reset with the
  key and feeds it the first 80 bytes of the header, which contain most of the signature itself,
  and the bytes after the header, while the download feeds the bytes after the first 84.
\<close>

lemma fota_flash_check_hashes_signature:
  assumes "nor_flash drv" and "hmac_stream api" and "head_size \<le> sz" and "in_flash a sz"
    and "SRAM_BASE \<le> sp" and "sp \<le> SRAM_BASE + SRAM_LENGTH"
  shows "(\<exists>hook. ota_delta_check_by_flash api drv s sp a sz = Inr (0, hook))
    \<longleftrightarrow> take SHA1HashSize (snd (hmacResult api (fst (hmacInput api (hmacZero api)
          (mem_read (flash s) a 80 @ mem_read (flash s) (a + head_size) (sz - head_size))))))
        = take SHA1HashSize (rsa_public_decrypt api (mem_read (flash s) (a + 4) 80))"
proof -
  have rd: "xy_flash_read drv s (a + k) sp n = Inr (mem_read (flash s) (a + k) n)" if "k + n \<le> sz" for k n
    using that assms(4) by (intro nor_flash.xy_flash_read_ok [OF assms(1) _ assms(5,6)]) (simp add: in_flash_def)
  note ok = hmac_stream.input_ok [OF assms(2)]
  have split: "mem_read m b k @ mem_read m (b + k) j = mem_read m b (k + j)" for m and b k j :: nat
    by (rule nth_equalityI) (auto simp: nth_append)
  have blocks: "\<exists>r. hash_blocks api drv s sp a k sz h
        = Inr (r, Some (fst (hmacInput api h (mem_read (flash s) (a + k) (r - k)))))
      \<and> k \<le> r \<and> r \<le> sz" if "k \<le> sz" for k h
    using that
  proof (induction "sz - k" arbitrary: k h rule: less_induct)
    case less
    show ?case
    proof (cases "k + 512 < sz")
      case True
      let ?h = "fst (hmacInput api h (mem_read (flash s) (a + k) 512))"
      obtain r where r: "hash_blocks api drv s sp a (k + 512) sz ?h
            = Inr (r, Some (fst (hmacInput api ?h (mem_read (flash s) (a + (k + 512)) (r - (k + 512))))))"
          "k + 512 \<le> r" "r \<le> sz"
        using less.hyps [of "k + 512" ?h] True by fastforce
      have "mem_read (flash s) (a + k) 512 @ mem_read (flash s) (a + (k + 512)) (r - (k + 512))
          = mem_read (flash s) (a + k) (r - k)"
        using split [of "flash s" "a + k" 512 "r - (k + 512)"] r(2) by (simp add: add.assoc)
      then show ?thesis
        using True r rd [of k 512]
        by (intro exI [of _ r], subst hash_blocks.simps)
           (simp add: hmac_stream.input_append [OF assms(2)] split_beta ok)
    next
      case False
      then show ?thesis
        using less.prems by (intro exI [of _ k], subst hash_blocks.simps) (simp add: hmac_stream.input_nil [OF assms(2)])
    qed
  qed
  define head where "head = mem_read (flash s) a head_size"
  define h1 where "h1 = fst (hmacInput api (hmacZero api) (mem_read (flash s) a 80))"
  obtain r where r: "hash_blocks api drv s sp a head_size sz h1
      = Inr (r, Some (fst (hmacInput api h1 (mem_read (flash s) (a + head_size) (r - head_size)))))"
    "head_size \<le> r" "r \<le> sz"
    using blocks [OF assms(3), of h1] by blast
  have t80: "take (head_size - (DELTA_RSA_SHA_LEN + 4)) head = mem_read (flash s) a 80"
    by (simp add: head_def head_size_def DELTA_RSA_SHA_LEN_def take_mem_read)
  have ts: "total_sha head = mem_read (flash s) (a + 4) 80"
    by (simp add: head_def total_sha_def head_size_def drop_mem_read take_mem_read)
  have join: "mem_read (flash s) (a + head_size) (r - head_size) @ mem_read (flash s) (a + r) (sz - r)
      = mem_read (flash s) (a + head_size) (sz - head_size)"
    using split [of "flash s" "a + head_size" "r - head_size" "sz - r"] r(2,3) by (simp add: add.assoc)
  have h: "fst (hmacInput api (fst (hmacInput api h1 (mem_read (flash s) (a + head_size) (r - head_size))))
        (mem_read (flash s) (a + r) (sz - r)))
      = fst (hmacInput api (hmacZero api)
          (mem_read (flash s) a 80 @ mem_read (flash s) (a + head_size) (sz - head_size)))"
    by (simp only: h1_def hmac_stream.input_append [OF assms(2)] append_assoc join)
  show ?thesis
    using rd [of 0 head_size] rd [of r "sz - r"] r assms(3) h
    by (simp add: ota_delta_check_by_flash_def head_def [symmetric] t80 h1_def [symmetric] Let_def
        split_beta ts ok)
qed

lemma fota_flash_check_hashes_signature_witness:
  "(\<exists>hook. ota_delta_check_by_flash sum_api nor_drv (booted (\<lambda>_. 0)) 0x20050000 0x271A0000 200 = Inr (0, hook))
    \<longleftrightarrow> take SHA1HashSize (snd (hmacResult sum_api (fst (hmacInput sum_api (hmacZero sum_api)
          (mem_read (\<lambda>_. 0) 0x271A0000 80 @ mem_read (\<lambda>_. 0) 0x271A00A4 36)))))
        = take SHA1HashSize (rsa_public_decrypt sum_api (mem_read (\<lambda>_. 0) 0x271A0004 80))"
  using fota_flash_check_hashes_signature [OF nor_is_flash sum.hmac_stream_axioms, of 200 "0x271A0000" "0x20050000"
      "booted (\<lambda>_. 0)"]
  by (simp add: head_size_def in_flash_def memmap_defs)

end
