(* ===== verification/AtFota.thy ===== *)
theory AtFota
  imports Fota
begin

text \<open>
  \<open>APPLIB/xy_fota/src/at_fota.c\<close>: the command \<open>AT+NFWUPD\<close> with which the external MCU sends a
  delta block by block, has it checked and starts the update.  The AT parser is library code;
  the results of its two calls, for the command number and for a data block, are arguments.
\<close>

datatype at_fota_cmd_e = AT_FOTA_IDLE | AT_FOTA_DOWNING | AT_FOTA_DOWNED | AT_FOTA_UPDATE

record 'h at_fota =
  fota_status :: at_fota_cmd_e
  block_num :: int
  ota_context :: "'h ota_context_t option"
  nv :: fota_nv
  at_sys :: sys

text \<open>
  What the functions use besides their state: the digest library, the flash driver, the place of
  \<open>fota_res\<close> in the factory NV, the sizes the linker provides, and the addresses of the
  buffers.
\<close>

record 'h fota_deps =
  d_api :: "'h hmac_api"
  d_drv :: flash_drv
  d_off :: nat
  d_flash_used :: u32
  d_ram_text :: u32
  d_ram_data :: u32
  d_head_ptr :: nat
  d_buf_ptr :: nat
  d_stack_ptr :: nat

section \<open>chk_sum\<close>

text \<open>
  The loop gathers all bytes in \<open>val\<close>, whose four bytes are then combined; \<open>length\<close> is zero when
  the tail loop is reached.
\<close>

definition chk_sum :: "u8 list \<Rightarrow> u8" where
  "chk_sum data =
     (let v = fold (\<lambda>b v. v XOR ucast b) data (0 :: u32)
      in 0 XOR ucast v XOR ucast (drop_bit 8 v) XOR ucast (drop_bit 16 v) XOR ucast (drop_bit 24 v))"

section \<open>Commands\<close>

definition at_fota_Flash_Erase :: "'h fota_deps \<Rightarrow> 'h at_fota \<Rightarrow> (int \<times> 'h at_fota) res" where
  "at_fota_Flash_Erase d st =
     bind_res (ota_update_deInit (d_drv d) (at_sys st) (nv st) (d_off d) (ota_context st)) (\<lambda>(nv, s).
     bind_res (ota_update_Init (d_api d) (d_drv d) s nv (d_off d) (d_flash_used d) (d_ram_text d)
                 (d_ram_data d) (d_head_ptr d)) (\<lambda>(c, nv, s).
       Inr (0, st\<lparr>ota_context := Some c, block_num := 0, fota_status := AT_FOTA_DOWNING,
                 nv := nv, at_sys := s\<rparr>)))"

text \<open>
  \<open>crc_data\<close> is a zeroed buffer of three bytes, so a longer text runs over it.
\<close>

definition at_fota_downing ::
    "'h fota_deps \<Rightarrow> 'h at_fota \<Rightarrow> (int \<times> int \<times> u8 list \<times> u8 list) option \<Rightarrow> (int \<times> 'h at_fota) res" where
  "at_fota_downing d st parsed =
     (if fota_status st \<noteq> AT_FOTA_DOWNING then Inr (-1, st)
      else case parsed of
        None \<Rightarrow> Inr (-1, st)
      | Some (sn, len, src_data, crc_data) \<Rightarrow>
          if 2 < length crc_data then Inl BadAccess
          else if sn \<noteq> block_num st then Inr (-1, st)
          else if 512 < len \<or> len \<le> 0 \<or> int (length src_data) \<noteq> len * 2 then Inr (-1, st)
          else bind_res (hexstr2bytes (src_data @ [0]) (len * 2) len) (\<lambda>(r, save_data).
            if r = -1 then Inr (-1, st)
            else bind_res (hexstr2bytes (take 3 (crc_data @ replicate 3 0)) 2 1) (\<lambda>(r, crc_sum).
              if r = -1 then Inr (-1, st)
              else if chk_sum save_data \<noteq> crc_sum ! 0 then Inr (-1, st)
              else bind_res (ota_downlink_packet_proc (d_api d) (d_drv d) (at_sys st) (ota_context st)
                               (d_buf_ptr d) save_data) (\<lambda>(ret, c, s).
                let st = st\<lparr>ota_context := Some c, at_sys := s\<rparr>
                in if ret \<noteq> XY_OK then Inr (-1, st)
                   else Inr (0, st\<lparr>block_num := block_num st + 1\<rparr>)))))"

definition at_fota_check :: "'h fota_deps \<Rightarrow> 'h at_fota \<Rightarrow> (int \<times> 'h at_fota) res" where
  "at_fota_check d st =
     (if fota_status st \<noteq> AT_FOTA_DOWNING \<or> block_num st = 0 then Inr (-1, st)
      else bind_res (ota_delta_check_sync (d_api d) (ota_context st)) (\<lambda>(r, hook, c).
        let st = st\<lparr>ota_context := Some c\<rparr>
        in if r \<noteq> 0 then Inr (-1, st) else Inr (0, st\<lparr>fota_status := AT_FOTA_DOWNED\<rparr>)))"

text \<open>A reset that the command causes is part of its result.\<close>

definition at_fota_update :: "'h fota_deps \<Rightarrow> 'h at_fota \<Rightarrow> (int \<times> rb_type option \<times> 'h at_fota) res" where
  "at_fota_update d st =
     (if fota_status st \<noteq> AT_FOTA_DOWNED then Inr (-1, None, st)
      else
        let st = st\<lparr>fota_status := AT_FOTA_UPDATE\<rparr>
        in bind_res (ota_update_start (d_drv d) (at_sys st) (ota_context st) (d_stack_ptr d))
             (\<lambda>(rb, s). Inr (0, Some rb, st\<lparr>at_sys := s\<rparr>)))"

datatype at_req_type = AT_CMD_REQ | AT_CMD_QUERY | AT_CMD_OTHER
datatype at_rsp = RspOk | RspErr | RspText

definition at_rsp_of :: "int \<Rightarrow> at_rsp" where
  "at_rsp_of r = (if r \<noteq> 0 then RspErr else RspOk)"

definition at_NFWUPD_req ::
    "'h fota_deps \<Rightarrow> at_req_type \<Rightarrow> int option \<Rightarrow> (int \<times> int \<times> u8 list \<times> u8 list) option \<Rightarrow> 'h at_fota
     \<Rightarrow> (at_rsp \<times> rb_type option \<times> 'h at_fota) res" where
  "at_NFWUPD_req d g_req_type cmd blk st =
     (case g_req_type of
        AT_CMD_REQ \<Rightarrow>
          (case cmd of
             None \<Rightarrow> Inr (RspErr, None, st)
           | Some n \<Rightarrow>
               if n = 0 then bind_res (at_fota_Flash_Erase d st) (\<lambda>(r, st). Inr (at_rsp_of r, None, st))
               else if n = 1 then bind_res (at_fota_downing d st blk) (\<lambda>(r, st). Inr (at_rsp_of r, None, st))
               else if n = 2 then bind_res (at_fota_check d st) (\<lambda>(r, st). Inr (at_rsp_of r, None, st))
               else if n = 5 then bind_res (at_fota_update d st) (\<lambda>(r, rb, st). Inr (at_rsp_of r, rb, st))
               else Inr (RspErr, None, st))
      | AT_CMD_QUERY \<Rightarrow> Inr (RspText, None, st)
      | AT_CMD_OTHER \<Rightarrow> Inr (RspErr, None, st))"

section \<open>Runs\<close>

definition at_fota_start :: "fota_nv \<Rightarrow> sys \<Rightarrow> 'h at_fota" where
  "at_fota_start nv0 s =
     \<lparr>fota_status = AT_FOTA_IDLE, block_num = 0, ota_context = None, nv = nv0, at_sys = s\<rparr>"

text \<open>The states any sequence of commands can lead to while the system keeps running.\<close>

inductive at_reach :: "'h fota_deps \<Rightarrow> 'h at_fota \<Rightarrow> bool" for d where
  start: "at_reach d (at_fota_start nv0 s)"
| command: "at_reach d st \<Longrightarrow> at_NFWUPD_req d ty cmd blk st = Inr (rsp, None, st') \<Longrightarrow> at_reach d st'"

section \<open>The check value\<close>

lemma ucast_fold_xor:
  "(ucast (fold (\<lambda>b v. v XOR ucast b) data (v :: u32)) :: u8) = fold (\<lambda>b v. v XOR b) data (ucast v)"
proof (induction data arbitrary: v)
  case (Cons b data)
  have "(ucast (v XOR ucast b) :: u8) = ucast v XOR b"
    by (rule bit_word_eqI) (auto simp: bit_simps)
  with Cons show ?case by simp
qed simp

lemma high_fold_xor:
  "8 \<le> n \<Longrightarrow> \<not> bit v n \<Longrightarrow> \<not> bit (fold (\<lambda>b v. v XOR ucast b) (data :: u8 list) (v :: u32)) n"
proof (induction data arbitrary: v)
  case (Cons b data)
  have "\<not> bit b n" using bit_imp_le_length [of b n] Cons.prems(1) by auto
  then have "\<not> bit (v XOR ucast b) n" using Cons.prems(2) by (simp add: bit_xor_iff bit_ucast_iff)
  with Cons show ?case by simp
qed simp

lemma chk_sum_xor: "chk_sum data = fold (\<lambda>b v. v XOR b) data 0"
proof -
  let ?v = "fold (\<lambda>b v. v XOR ucast b) data (0 :: u32)"
  have "(ucast (drop_bit k ?v) :: u8) = 0" if "8 \<le> k" for k
    using that high_fold_xor [of _ 0 data] by (intro bit_word_eqI) (simp add: bit_simps)
  then have "chk_sum data = ucast ?v" by (simp add: chk_sum_def Let_def)
  then show ?thesis by (simp add: ucast_fold_xor)
qed

section \<open>Invariant\<close>

text \<open>The digest of the received data matched the signature in the received header.\<close>

definition ctx_verified :: "'h hmac_api \<Rightarrow> 'h ota_context_t option \<Rightarrow> bool" where
  "ctx_verified api ctx \<longleftrightarrow>
     (\<exists>c h head. ctx = Some c \<and> head_info c = Some head \<and> hmac_context c = Some (fst (hmacResult api h))
        \<and> take SHA1HashSize (snd (hmacResult api h))
          = take SHA1HashSize (rsa_public_decrypt api (total_sha head)))"

definition at_inv :: "'h fota_deps \<Rightarrow> 'h at_fota \<Rightarrow> bool" where
  "at_inv d st \<longleftrightarrow>
     0 \<le> block_num st
     \<and> (fota_status st = AT_FOTA_IDLE \<longrightarrow> ota_context st = None)
     \<and> (fota_status st \<noteq> AT_FOTA_IDLE \<longrightarrow> ota_context st \<noteq> None)
     \<and> (fota_status st \<in> {AT_FOTA_DOWNED, AT_FOTA_UPDATE} \<longrightarrow>
          ctx_verified (d_api d) (ota_context st) \<and> 0 < block_num st)"

lemma erase_inv: "at_fota_Flash_Erase d st = Inr (r, st') \<Longrightarrow> at_inv d st'"
  by (auto simp: at_fota_Flash_Erase_def bind_res_eq_Inr at_inv_def)

lemma downing_cases:
  assumes "at_fota_downing d st parsed = Inr (r, st')"
  obtains (refused) "r = -1" "st' = st"
  | (failed) c s where "r = -1" "fota_status st = AT_FOTA_DOWNING" "st' = st\<lparr>ota_context := Some c, at_sys := s\<rparr>"
  | (taken) sn len src crc data chk c s where
      "r = 0" "fota_status st = AT_FOTA_DOWNING" "parsed = Some (sn, len, src, crc)" "sn = block_num st"
      "0 < len" "len \<le> 512" "int (length src) = len * 2"
      "hexstr2bytes (src @ [0]) (len * 2) len = Inr (len, data)" "length crc \<le> 2"
      "hexstr2bytes (take 3 (crc @ replicate 3 0)) 2 1 = Inr (1, chk)" "chk_sum data = chk ! 0"
      "ota_downlink_packet_proc (d_api d) (d_drv d) (at_sys st) (ota_context st) (d_buf_ptr d) data
         = Inr (XY_OK, c, s)"
      "st' = st\<lparr>ota_context := Some c, at_sys := s, block_num := block_num st + 1\<rparr>"
proof -
  have ret: "r1 = -1 \<or> r1 = n" if "hexstr2bytes x (n * 2) m = Inr (r1, y)" for x n m r1 y
    using that by (auto simp: hexstr2bytes_def bind_res_eq_Inr split: if_splits)
  show thesis
  proof (cases "fota_status st = AT_FOTA_DOWNING")
    case False
    then show thesis using assms refused by (simp add: at_fota_downing_def)
  next
    case st: True
    show thesis
    proof (cases parsed)
      case None
      then show thesis using assms st refused by (simp add: at_fota_downing_def)
    next
      case (Some q)
      obtain sn len src crc where q: "q = (sn, len, src, crc)" by (cases q) auto
      note df = at_fota_downing_def Some q st bind_res_eq_Inr
      show thesis
      proof (cases "2 < length crc \<or> sn \<noteq> block_num st \<or> 512 < len \<or> len \<le> 0 \<or> int (length src) \<noteq> len * 2")
        case True
        then show thesis using assms refused by (auto simp: df split: if_splits)
      next
        case False
        obtain r1 data where h1: "hexstr2bytes (src @ [0]) (len * 2) len = Inr (r1, data)"
          using assms False by (auto simp: df)
        show thesis
        proof (cases "r1 = -1")
          case True
          then show thesis using assms False h1 refused by (auto simp: df)
        next
          case ok1: False
          obtain r2 chk where h2: "hexstr2bytes (take 3 (crc @ replicate 3 0)) 2 1 = Inr (r2, chk)"
            using assms False h1 ok1 by (auto simp: df)
          show thesis
          proof (cases "r2 = -1 \<or> chk_sum data \<noteq> chk ! 0")
            case True
            then show thesis using assms False h1 ok1 h2 refused by (auto simp: df split: if_splits)
          next
            case ok2: False
            obtain ret c s where pr: "ota_downlink_packet_proc (d_api d) (d_drv d) (at_sys st)
                (ota_context st) (d_buf_ptr d) data = Inr (ret, c, s)"
              using assms False h1 ok1 h2 ok2 by (auto simp: df)
            have h2': "hexstr2bytes (take 3 (crc @ replicate 3 0)) (1 * 2) 1 = Inr (r2, chk)"
              using h2 by (simp only: mult_1)
            have rr: "r1 = len" "r2 = 1" using ret [OF h1] ret [OF h2'] ok1 ok2 by auto
            show thesis
            proof (cases "ret = XY_OK")
              case True
              show thesis
                by (rule taken [where sn = sn and len = len and src = src and crc = crc and data = data and chk = chk and c = c and s = s])
                   (use assms False h1 ok1 h2 ok2 pr rr True st Some q in \<open>auto simp: df Let_def\<close>)
            next
              case bad: False
              show thesis
                by (rule failed [where c = c and s = s])
                   (use assms False h1 ok1 h2 ok2 pr bad st in \<open>auto simp: df Let_def\<close>)
            qed
          qed
        qed
      qed
    qed
  qed
qed

lemma downing_inv: "at_inv d st \<Longrightarrow> at_fota_downing d st parsed = Inr (r, st') \<Longrightarrow> at_inv d st'"
  by (erule downing_cases) (auto simp: at_inv_def)

lemma check_sync_verified:
  assumes "ota_delta_check_sync api ctx = Inr (0, hook, c)"
  shows "ctx_verified api (Some c)"
proof -
  obtain c0 where "ctx = Some c0" using assms by (cases ctx) (auto simp: ota_delta_check_sync_def)
  then show ?thesis
    using assms
    by (auto simp: ota_delta_check_sync_def ctx_verified_def Let_def split_beta split: option.splits if_splits)
qed

lemma check_inv: "at_inv d st \<Longrightarrow> at_fota_check d st = Inr (r, st') \<Longrightarrow> at_inv d st'"
  by (auto simp: at_fota_check_def at_inv_def bind_res_eq_Inr Let_def split: if_splits
      dest: check_sync_verified)

lemma update_resets: "at_fota_update d st = Inr (r, rb, st') \<Longrightarrow> rb = None \<Longrightarrow> st' = st"
  by (auto simp: at_fota_update_def bind_res_eq_Inr Let_def split: if_splits)

lemma at_reach_inv: "at_reach d st \<Longrightarrow> at_inv d st"
proof (induction rule: at_reach.induct)
  case (start nv0 s)
  show ?case by (simp add: at_inv_def at_fota_start_def)
next
  case (command st ty cmd blk rsp st')
  show ?case
    using command.hyps(2) command.IH
    by (auto simp: at_NFWUPD_req_def bind_res_eq_Inr split: at_req_type.splits option.splits if_splits
        dest: erase_inv downing_inv check_inv update_resets)
qed

lemma update_result:
  assumes "at_NFWUPD_req d ty cmd blk st = Inr (rsp, Some rb, st')"
  shows "fota_status st = AT_FOTA_DOWNED \<and> ty = AT_CMD_REQ \<and> cmd = Some 5
    \<and> ota_update_start (d_drv d) (at_sys st) (ota_context st) (d_stack_ptr d) = Inr (rb, at_sys st')"
  using assms
  by (auto simp: at_NFWUPD_req_def at_fota_update_def bind_res_eq_Inr Let_def
      split: at_req_type.splits option.splits if_splits)

end
