(* ===== verification/AtFotaProps.thy ===== *)
theory AtFotaProps
  imports AtFota FotaProps
begin

text \<open>The properties of the block-wise update commands.\<close>

lemma fold_xor_out: "fold (\<lambda>b v. v XOR b) d (v XOR y) = fold (\<lambda>b v. v XOR b) d v XOR (y :: u8)"
proof (induction d arbitrary: v)
  case (Cons b d)
  have "(v XOR y) XOR b = (v XOR b) XOR y" by (rule bit_word_eqI) (auto simp: bit_simps)
  with Cons [of "v XOR b"] show ?case by simp
qed simp

lemma fold_xor_list_update:
  "i < length d \<Longrightarrow> fold (\<lambda>b v. v XOR b) (d[i := x]) v = fold (\<lambda>b v. v XOR b) d v XOR (d ! i XOR (x :: u8))"
proof (induction d arbitrary: i v)
  case (Cons b d)
  show ?case
  proof (cases i)
    case 0
    have "v XOR x = (v XOR b) XOR (b XOR x)" by (rule bit_word_eqI) (auto simp: bit_simps)
    then show ?thesis using 0 fold_xor_out [of d "v XOR b" "b XOR x"] by simp
  next
    case (Suc j)
    then show ?thesis using Cons by simp
  qed
qed simp

lemma chk_sum_byte_change:
  assumes "i < length d" "x \<noteq> d ! i"
  shows "chk_sum (d[i := x]) \<noteq> chk_sum d"
proof
  let ?f = "fold (\<lambda>b v. v XOR b) d 0"
  assume "chk_sum (d[i := x]) = chk_sum d"
  then have eq: "?f XOR (d ! i XOR x) = ?f" by (simp add: chk_sum_xor fold_xor_list_update [OF assms(1)])
  have "d ! i = x"
  proof (rule bit_word_eqI)
    fix n assume "n < LENGTH(8)"
    have "bit (?f XOR (d ! i XOR x)) n = bit ?f n" by (simp add: eq)
    then show "bit (d ! i) n = bit x n" by (auto simp: bit_xor_iff)
  qed
  with assms(2) show False by simp
qed

section \<open>A run of the commands\<close>

text \<open>A digest library that accepts everything, so that a short run reaches the update.\<close>

definition trust_api :: "u8 list hmac_api" where
  "trust_api = \<lparr>hmacReset = (\<lambda>k. k), hmacZero = [], hmacInput = (\<lambda>h d. (h @ d, False)),
     hmacResult = (\<lambda>h. (h, [])), rsa_public_decrypt = (\<lambda>_. [])\<rparr>"

definition demo_deps :: "u8 list fota_deps" where
  "demo_deps = \<lparr>d_api = trust_api, d_drv = nor_drv, d_off = 0x400, d_flash_used = 0x40000,
     d_ram_text = 0x8000, d_ram_data = 0x8000, d_head_ptr = 0x20030000, d_buf_ptr = 0x20031000,
     d_stack_ptr = 0x20050000\<rparr>"

definition demo_nv :: fota_nv where
  "demo_nv = \<lparr>fota_res = 0, fota_period = 0, last_FOTA_time = 0, ota_status_flag = XY_OK\<rparr>"

lemma factory_ready: "ftl_ready (booted m) NV_FLASH_FACTORY_BASE"
  by (simp add: ftl_ready_def buf_ok_def in_flash_def ftl_pages_def find_valid_ftl_cfg_def)
     (simp add: booted_def blank_sys_def memmap_defs EFTL_PAGE_SIZE_def)

lemma demo_save:
  obtains m1 where "SAVE_FAC_PARAM nor_drv (booted factory_fresh) 0x400 [0] = Inr ((booted factory_fresh)\<lparr>flash := m1\<rparr>)"
proof -
  have num: "ftl_last_num (booted factory_fresh) NV_FLASH_FACTORY_BASE \<noteq> 0xFFFFFFFE"
    by (simp add: ftl_last_num_def) (simp add: load32_def factory_fresh_def u32_of_def)
  have "0x400 + length [0 :: u8] \<le> XY_FTL_AVAILABLE_SIZE" by (simp add: eftl_defs)
  from nor.write_sound [OF factory_ready fresh_sound booted_battery this num]
  obtain m1 where "xy_ftl_write nor_drv (booted factory_fresh) NV_FLASH_FACTORY_BASE (int 0x400) [0]
      = Inr (XY_OK, (booted factory_fresh)\<lparr>flash := m1\<rparr>)" by blast
  then show thesis using that by (simp add: SAVE_FAC_PARAM_def)
qed

definition demo_down :: "mem \<Rightarrow> u8 list at_fota" where
  "demo_down m1 = \<lparr>fota_status = AT_FOTA_DOWNING, block_num = 0,
     ota_context = Some \<lparr>flash_base = 0x2716F000, flash_maxlen = 0x7D000, recv_size = 0,
       hmac_context = Some HMAC_KEY, head_info = Some (replicate head_size 0), head_ptr = 0x20030000\<rparr>,
     nv = demo_nv, at_sys = (booted factory_fresh)\<lparr>flash := m1\<rparr>\<rparr>"

lemma demo_erase:
  obtains m1 where
    "at_fota_Flash_Erase demo_deps (at_fota_start demo_nv (booted factory_fresh)) = Inr (0, demo_down m1)"
proof -
  obtain m1 where "SAVE_FAC_PARAM nor_drv (booted factory_fresh) 0x400 [0] = Inr ((booted factory_fresh)\<lparr>flash := m1\<rparr>)"
    using demo_save .
  then have "at_fota_Flash_Erase demo_deps (at_fota_start demo_nv (booted factory_fresh)) = Inr (0, demo_down m1)"
    by (simp add: at_fota_Flash_Erase_def at_fota_start_def ota_update_deInit_def ota_update_Init_def
        demo_deps_def demo_nv_def xy_get_OTA_flash_info_def UPROUND_def demo_down_def trust_api_def)
  then show thesis using that by blast
qed

text \<open>The block \<open>"4A"\<close> with the check value \<open>"4A"\<close>.\<close>

definition demo_block :: "int \<times> int \<times> u8 list \<times> u8 list" where
  "demo_block = (0, 1, [0x34, 0x41], [0x34, 0x41])"

lemma hexstr2bytes_loop_two:
  "hexstr2bytes_loop 2 (c1 # c2 # src) dst =
     (case hex_digit c1 of None \<Rightarrow> Inr (False, dst)
      | Some h \<Rightarrow>
         (case hex_digit c2 of None \<Rightarrow> Inr (False, dst @ [push_bit 4 h])
          | Some l \<Rightarrow> Inr (True, dst @ [push_bit 4 h OR l])))"
  unfolding numeral_2_eq_2 by (simp split: option.split)

lemma hex_4A: "hexstr2bytes [0x34, 0x41, 0] 2 1 = Inr (1, [0x4A])"
  by (simp add: hexstr2bytes_def hexstr2bytes_loop_two hex_digit_def push_bit_eq_mult)

lemma demo_packet:
  "\<exists>c. ota_downlink_packet_proc trust_api nor_drv s (ota_context (demo_down m1)) 0x20031000 [0x4A]
     = Inr (XY_OK, c, s)
   \<and> hmac_context c = Some HMAC_KEY \<and> head_info c = Some (blit (replicate head_size 0) 0 [0x4A])
   \<and> flash_base c = 0x2716F000"
  by (simp add: ota_downlink_packet_proc_def demo_down_def Let_def head_size_def)

lemma demo_taken:
  "\<exists>c. at_fota_downing demo_deps (demo_down m1) (Some demo_block)
      = Inr (0, (demo_down m1)\<lparr>ota_context := Some c, block_num := 1\<rparr>)
    \<and> hmac_context c = Some HMAC_KEY \<and> head_info c = Some (blit (replicate head_size 0) 0 [0x4A])
    \<and> flash_base c = 0x2716F000"
proof -
  obtain c where c: "ota_downlink_packet_proc trust_api nor_drv ((booted factory_fresh)\<lparr>flash := m1\<rparr>)
      (ota_context (demo_down m1)) 0x20031000 [0x4A] = Inr (XY_OK, c, (booted factory_fresh)\<lparr>flash := m1\<rparr>)"
    "hmac_context c = Some HMAC_KEY" "head_info c = Some (blit (replicate head_size 0) 0 [0x4A])"
    "flash_base c = 0x2716F000"
    using demo_packet [of "(booted factory_fresh)\<lparr>flash := m1\<rparr>" m1] by blast
  have st: "fota_status (demo_down m1) = AT_FOTA_DOWNING" "block_num (demo_down m1) = 0"
    "at_sys (demo_down m1) = (booted factory_fresh)\<lparr>flash := m1\<rparr>" by (simp_all add: demo_down_def)
  have pad: "take 3 ([0x34, 0x41] @ replicate 3 0) = [0x34, 0x41, 0 :: u8]" by (simp add: numeral_3_eq_3)
  have "at_fota_downing demo_deps (demo_down m1) (Some demo_block)
      = Inr (0, (demo_down m1)\<lparr>ota_context := Some c, at_sys := (booted factory_fresh)\<lparr>flash := m1\<rparr>, block_num := 1\<rparr>)"
    using c(1) hex_4A pad
    by (simp add: at_fota_downing_def demo_block_def st demo_deps_def Let_def chk_sum_xor)
  moreover have "(demo_down m1)\<lparr>ota_context := Some c, at_sys := (booted factory_fresh)\<lparr>flash := m1\<rparr>, block_num := 1\<rparr>
      = (demo_down m1)\<lparr>ota_context := Some c, block_num := 1\<rparr>" by (simp add: demo_down_def)
  ultimately show ?thesis using c by auto
qed

section \<open>Properties\<close>

text \<open>
  C7: no order of \<open>AT+NFWUPD\<close> commands starts an unverified update.  In every state that commands
  can lead to, a command that resets the system is the update command, the state was
  \<open>AT_FOTA_DOWNED\<close> with at least one block received, and the digest of the received data had
  matched the signature of the received header.
\<close>

theorem at_update_needs_verification:
  assumes "at_reach d st" and "at_NFWUPD_req d ty cmd blk st = Inr (rsp, Some rb, st')"
  shows "ty = AT_CMD_REQ \<and> cmd = Some 5 \<and> fota_status st = AT_FOTA_DOWNED \<and> 0 < block_num st
    \<and> ctx_verified (d_api d) (ota_context st)
    \<and> ota_update_start (d_drv d) (at_sys st) (ota_context st) (d_stack_ptr d) = Inr (rb, at_sys st')"
  using at_reach_inv [OF assms(1)] update_result [OF assms(2)] by (auto simp: at_inv_def)

theorem at_update_needs_verification_witness:
  "\<exists>st rb st'. at_NFWUPD_req demo_deps AT_CMD_REQ (Some 5) None st = Inr (RspOk, Some rb, st')
    \<and> ctx_verified trust_api (ota_context st)"
proof -
  obtain m1 where er: "at_fota_Flash_Erase demo_deps (at_fota_start demo_nv (booted factory_fresh)) = Inr (0, demo_down m1)"
    using demo_erase .
  obtain c where c: "at_fota_downing demo_deps (demo_down m1) (Some demo_block)
      = Inr (0, (demo_down m1)\<lparr>ota_context := Some c, block_num := 1\<rparr>)"
    "hmac_context c = Some HMAC_KEY" "head_info c = Some (blit (replicate head_size 0) 0 [0x4A])"
    using demo_taken by blast
  let ?s1 = "(demo_down m1)\<lparr>ota_context := Some c, block_num := 1\<rparr>"
  let ?s2 = "?s1\<lparr>ota_context := Some (c\<lparr>hmac_context := Some HMAC_KEY\<rparr>), fota_status := AT_FOTA_DOWNED\<rparr>"
  have api: "d_api demo_deps = trust_api" by (simp add: demo_deps_def)
  have ck: "at_fota_check demo_deps ?s1 = Inr (0, ?s2)"
    using c(2,3) by (simp add: at_fota_check_def demo_down_def ota_delta_check_sync_def Let_def api trust_api_def)
  have s0: "at_reach demo_deps (at_fota_start demo_nv (booted factory_fresh))" by (rule at_reach.start)
  have s1: "at_reach demo_deps (demo_down m1)"
  proof (rule at_reach.command [OF s0])
    show "at_NFWUPD_req demo_deps AT_CMD_REQ (Some 0) None (at_fota_start demo_nv (booted factory_fresh)) = Inr (RspOk, None, (demo_down m1))"
      using er by (simp add: at_NFWUPD_req_def at_rsp_of_def)
  qed
  have s2: "at_reach demo_deps ?s1"
  proof (rule at_reach.command [OF s1])
    show "at_NFWUPD_req demo_deps AT_CMD_REQ (Some 1) (Some demo_block) (demo_down m1) = Inr (RspOk, None, ?s1)"
      using c(1) by (simp add: at_NFWUPD_req_def at_rsp_of_def)
  qed
  have s3: "at_reach demo_deps ?s2"
  proof (rule at_reach.command [OF s2])
    show "at_NFWUPD_req demo_deps AT_CMD_REQ (Some 2) None ?s1 = Inr (RspOk, None, ?s2)"
      using ck by (simp add: at_NFWUPD_req_def at_rsp_of_def)
  qed
  have bat: "battery_ok (at_sys ?s2)" by (simp add: demo_down_def)
  obtain s' where up: "ota_update_start nor_drv (at_sys ?s2) (ota_context ?s2) 0x20050000 = Inr (RB_BY_FOTA, s')"
  proof -
    let ?o = "mem_read (flash (at_sys ?s2)) FOTA_UPDATE_INFO_ADDR fota_def_size"
    have "in_flash FOTA_UPDATE_INFO_ADDR (length (fota_def_bytes ?o (flash_base c)))"
      by (simp add: fota_def_bytes_def Let_def fota_def_size_def in_flash_def memmap_defs)
    from nor.xy_flash_write_ok [OF this _ _ bat, of "0x20050000"] show thesis
      using that by (simp add: ota_update_start_def memmap_defs)
  qed
  have req: "at_NFWUPD_req demo_deps AT_CMD_REQ (Some 5) None ?s2
      = Inr (RspOk, Some RB_BY_FOTA, ?s2\<lparr>fota_status := AT_FOTA_UPDATE, at_sys := s'\<rparr>)"
    using up by (simp add: at_NFWUPD_req_def at_fota_update_def Let_def at_rsp_of_def demo_deps_def)
  have "ctx_verified trust_api (ota_context ?s2)"
    using at_update_needs_verification [OF s3 req] by (simp only: api simp_thms)
  with req show ?thesis by blast
qed

text \<open>
  C9: a block that was damaged on the serial line is refused.  If a block is taken, then the
  same command with any one byte of the payload changed and the old check value is answered
  with an error and leaves the state, the received data and the block counter as they were.
\<close>

theorem at_damaged_block_refused:
  assumes "at_fota_downing d st (Some (sn, len, src, crc)) = Inr (0, st1)"
    and "hexstr2bytes (src @ [0]) (len * 2) len = Inr (len, data)"
    and "hexstr2bytes (src' @ [0]) (len * 2) len = Inr (len, data[i := b])"
    and "length src' = length src" and "i < length data" and "b \<noteq> data ! i"
  shows "at_fota_downing d st (Some (sn, len, src', crc)) = Inr (-1, st)"
  using assms(1)
proof (cases rule: downing_cases)
  case (taken sn' len' src2 crc' data' chk c s)
  then have "data' = data" "sn' = sn" "len' = len" "src2 = src" "crc' = crc" using assms(2) by auto
  moreover have "chk_sum (data[i := b]) \<noteq> chk ! 0"
    using chk_sum_byte_change [OF assms(5,6)] taken(11) calculation by simp
  ultimately show ?thesis
    using taken assms(3,4) by (simp add: at_fota_downing_def)
qed simp_all

theorem at_damaged_block_refused_witness:
  "\<exists>m1. at_fota_downing demo_deps (demo_down m1) (Some (0, 1, [0x34, 0x42], [0x34, 0x41])) = Inr (-1, demo_down m1)"
proof -
  obtain st1 where t: "at_fota_downing demo_deps (demo_down factory_fresh) (Some (0, 1, [0x34, 0x41], [0x34, 0x41])) = Inr (0, st1)"
    using demo_taken [of factory_fresh] by (auto simp: demo_block_def)
  have h: "hexstr2bytes ([0x34, 0x41] @ [0]) (1 * 2) 1 = Inr (1, [0x4A])" using hex_4A by simp
  have h': "hexstr2bytes ([0x34, 0x42] @ [0]) (1 * 2) 1 = Inr (1, [0x4A][0 := 0x4B])"
    by (simp add: hexstr2bytes_def hexstr2bytes_loop_two hex_digit_def push_bit_eq_mult)
  from at_damaged_block_refused [OF t h h'] show ?thesis by auto
qed

end
