(* ===== verification/AsyncSocket.thy ===== *)
theory AsyncSocket
  imports Prelude
begin

text \<open>
  \<open>APPLIB/xy_async_socket/src/xy_async_socket.c\<close>: the table that adds status, counters and an
  event callback to lwIP sockets, and the delivery of events through a queue and a thread.  The
  results of lwIP calls are arguments of the operations.  Each operation is one step here; the
  interleavings that the code's locking allows are modelled where they matter, for two
  concurrent creations and for the event queue.
\<close>

definition MAX_SOCKET :: nat where "MAX_SOCKET = 10"
definition SOCK_OK :: int where "SOCK_OK = 0"
definition SOCK_ERROR :: int where "SOCK_ERROR = -1"

section \<open>The socket table\<close>

datatype socket_status_t =
    XY_SOCKET_NONE | XY_SOCKET_CREATED | XY_SOCKET_CONNECTING | XY_SOCKET_CONNECTED
  | XY_SOCKET_CLOSING | XY_SOCKET_CLOSED

datatype af = AF_INET | AF_INET6

text \<open>\<open>event_callback\<close> is the address of the function, \<open>None\<close> for \<open>NULL\<close>.\<close>

record xy_socket_list_t =
  skt_fd :: int
  status :: socket_status_t
  protocol :: int
  af_family :: af
  event_callback :: "u32 option"
  send_size :: u32
  acked_size :: u32

type_synonym skt_table = "xy_socket_list_t option list"

fun find_idx :: "('a \<Rightarrow> bool) \<Rightarrow> 'a list \<Rightarrow> nat option" where
  "find_idx P [] = None"
| "find_idx P (x # xs) = (if P x then Some 0 else map_option Suc (find_idx P xs))"

definition find_empty_socket_idx :: "skt_table \<Rightarrow> nat option" where
  "find_empty_socket_idx t = find_idx (\<lambda>s. s = None) t"

definition find_valid_socket_idx_by_fd :: "skt_table \<Rightarrow> int \<Rightarrow> nat option" where
  "find_valid_socket_idx_by_fd t fd =
     find_idx (\<lambda>s. case s of None \<Rightarrow> False | Some k \<Rightarrow> skt_fd k = fd) t"

text \<open>\<open>xy_socket_list[skt_idx]->field = ...\<close> for the socket of \<open>fd\<close>.\<close>

definition upd_socket :: "skt_table \<Rightarrow> int \<Rightarrow> (xy_socket_list_t \<Rightarrow> xy_socket_list_t) \<Rightarrow> skt_table" where
  "upd_socket t fd f =
     (case find_valid_socket_idx_by_fd t fd of None \<Rightarrow> t | Some i \<Rightarrow> t[i := map_option f (t ! i)])"

section \<open>Creating\<close>

definition create_store :: "skt_table \<Rightarrow> nat \<Rightarrow> int \<Rightarrow> int \<Rightarrow> af \<Rightarrow> skt_table" where
  "create_store t skt_idx fd socket_type domain =
     t[skt_idx := Some \<lparr>skt_fd = fd, status = XY_SOCKET_CREATED, protocol = socket_type,
         af_family = domain, event_callback = None, send_size = 0, acked_size = 0\<rparr>]"

text \<open>\<open>fd\<close> is what \<open>socket\<close> returned; the last component lists the sockets handed to \<open>close\<close>.\<close>

definition xy_socket_create :: "skt_table \<Rightarrow> int \<Rightarrow> int \<Rightarrow> int \<Rightarrow> (int \<times> skt_table \<times> int list) res" where
  "xy_socket_create t protocal_version socket_type fd =
     bind_res (xy_assert (socket_type = 0 \<or> socket_type = 1)) (\<lambda>_.
     bind_res (xy_assert (protocal_version = 0 \<or> protocal_version = 1)) (\<lambda>_.
       let domain = (if protocal_version = 0 then AF_INET else AF_INET6)
       in if 0 \<le> fd then
            (case find_empty_socket_idx t of
               None \<Rightarrow> Inr (SOCK_ERROR, t, [fd])
             | Some i \<Rightarrow> Inr (fd, create_store t i fd socket_type domain, []))
          else Inr (if fd = -1 then SOCK_ERROR else fd, t, [])))"

section \<open>Socket addresses\<close>

text \<open>Addresses are in network order on both sides and copied word by word.\<close>

definition htons :: "u16 \<Rightarrow> u16" where
  "htons n = push_bit 8 n OR drop_bit 8 n"

datatype ip_addr = IPv4 u32 | IPv6 u32 u32 u32 u32

record sockaddr =
  sa_len :: nat
  sa_family :: af
  sa_port :: u16
  sa_addr :: "u32 list"

definition ip_addr_port_to_sockaddr :: "ip_addr \<Rightarrow> u16 \<Rightarrow> sockaddr" where
  "ip_addr_port_to_sockaddr src_addr port =
     (case src_addr of
        IPv6 a b c d \<Rightarrow> \<lparr>sa_len = 28, sa_family = AF_INET6, sa_port = htons port, sa_addr = [a, b, c, d]\<rparr>
      | IPv4 a \<Rightarrow> \<lparr>sa_len = 16, sa_family = AF_INET, sa_port = htons port, sa_addr = [a]\<rparr>)"

definition ip_addr_port_from_sockaddr :: "sockaddr \<Rightarrow> ip_addr \<times> u16" where
  "ip_addr_port_from_sockaddr src_sa =
     (if sa_family src_sa = AF_INET6
      then (IPv6 (sa_addr src_sa ! 0) (sa_addr src_sa ! 1) (sa_addr src_sa ! 2) (sa_addr src_sa ! 3),
            htons (sa_port src_sa))
      else (IPv4 (sa_addr src_sa ! 0), htons (sa_port src_sa)))"

text \<open>
  The callers pass the address of a local \<open>struct sockaddr\<close>, which has 16 bytes.
\<close>

definition sockaddr_size :: nat where "sockaddr_size = 16"

definition local_sockaddr :: "ip_addr \<Rightarrow> u16 \<Rightarrow> sockaddr res" where
  "local_sockaddr a port =
     (let sa = ip_addr_port_to_sockaddr a port
      in if sockaddr_size < sa_len sa then Inl BadAccess else Inr sa)"

section \<open>Operations on an open socket\<close>

definition xy_socket_event_register :: "skt_table \<Rightarrow> int \<Rightarrow> u32 option \<Rightarrow> int \<times> skt_table" where
  "xy_socket_event_register t fd pcallback =
     (if find_valid_socket_idx_by_fd t fd = None then (SOCK_ERROR, t)
      else (SOCK_OK, upd_socket t fd (\<lambda>k. k\<lparr>event_callback := pcallback\<rparr>)))"

text \<open>The family and port passed to \<open>bind\<close>, and its result.\<close>

definition xy_socket_bind :: "skt_table \<Rightarrow> int \<Rightarrow> u16 \<Rightarrow> int \<Rightarrow> int \<times> (af \<times> u16) option" where
  "xy_socket_bind t fd local_port ret =
     (case find_valid_socket_idx_by_fd t fd of
        None \<Rightarrow> (SOCK_ERROR, None)
      | Some i \<Rightarrow>
          (if ret = 0 then SOCK_OK else SOCK_ERROR,
           map_option (\<lambda>k. (af_family k, htons local_port)) (t ! i)))"

text \<open>\<open>remote\<close> is the result of \<open>ipaddr_aton\<close>.\<close>

definition xy_socket_connect ::
    "skt_table \<Rightarrow> int \<Rightarrow> ip_addr option \<Rightarrow> u16 \<Rightarrow> int \<Rightarrow> bool \<Rightarrow> (int \<times> skt_table) res" where
  "xy_socket_connect t fd remote remote_port ret errno_inprogress =
     (if find_valid_socket_idx_by_fd t fd = None then Inr (SOCK_ERROR, t)
      else case remote of
        None \<Rightarrow> Inr (SOCK_ERROR, t)
      | Some a \<Rightarrow>
          bind_res (local_sockaddr a remote_port) (\<lambda>_.
            if ret \<noteq> 0 \<and> errno_inprogress
              then Inr (SOCK_OK, upd_socket t fd (\<lambda>k. k\<lparr>status := XY_SOCKET_CONNECTING\<rparr>))
            else if ret = 0
              then Inr (SOCK_OK, upd_socket t fd (\<lambda>k. k\<lparr>status := XY_SOCKET_CONNECTED\<rparr>))
            else Inr (SOCK_ERROR, t)))"

definition xy_socket_send :: "skt_table \<Rightarrow> int \<Rightarrow> int \<Rightarrow> int \<times> skt_table" where
  "xy_socket_send t fd ret =
     (if find_valid_socket_idx_by_fd t fd = None then (SOCK_ERROR, t)
      else
        (if ret = -1 then SOCK_ERROR else ret,
         if 0 < ret then upd_socket t fd (\<lambda>k. k\<lparr>send_size := send_size k + of_int ret\<rparr>) else t))"

definition xy_socket_sendto ::
    "skt_table \<Rightarrow> int \<Rightarrow> ip_addr option \<Rightarrow> u16 \<Rightarrow> int \<Rightarrow> (int \<times> skt_table) res" where
  "xy_socket_sendto t fd remote to_port ret =
     (if find_valid_socket_idx_by_fd t fd = None then Inr (SOCK_ERROR, t)
      else case remote of
        None \<Rightarrow> Inr (SOCK_ERROR, t)
      | Some a \<Rightarrow>
          bind_res (local_sockaddr a to_port) (\<lambda>_. Inr
            (if ret = -1 then SOCK_ERROR else ret,
             if 0 < ret then upd_socket t fd (\<lambda>k. k\<lparr>send_size := send_size k + of_int ret\<rparr>) else t)))"

definition xy_socket_recv :: "skt_table \<Rightarrow> int \<Rightarrow> int \<Rightarrow> int" where
  "xy_socket_recv t fd ret =
     (if find_valid_socket_idx_by_fd t fd = None then SOCK_ERROR
      else if ret = -1 then SOCK_ERROR else ret)"

text \<open>
  The sender's address is stored only when something was received.  lwIP copies at most the 16
  bytes it was given room for, so a sender with an IPv6 address is read from behind the local.
\<close>

definition xy_socket_recvfrom ::
    "skt_table \<Rightarrow> int \<Rightarrow> int \<Rightarrow> sockaddr \<Rightarrow> (int \<times> (ip_addr \<times> u16) option) res" where
  "xy_socket_recvfrom t fd ret remote_info =
     (if find_valid_socket_idx_by_fd t fd = None then Inr (SOCK_ERROR, None)
      else if 0 < ret then
        if sockaddr_size < sa_len remote_info then Inl BadAccess
        else Inr (ret, Some (ip_addr_port_from_sockaddr remote_info))
      else Inr (if ret = -1 then SOCK_ERROR else ret, None))"

definition xy_socket_close :: "skt_table \<Rightarrow> int \<Rightarrow> int \<Rightarrow> int \<times> skt_table" where
  "xy_socket_close t fd ret =
     (case find_valid_socket_idx_by_fd t fd of
        None \<Rightarrow> (SOCK_ERROR, t)
      | Some i \<Rightarrow> if ret = 0 then (SOCK_OK, t[i := None]) else (SOCK_ERROR, t))"

definition xy_socket_get_acked_size :: "skt_table \<Rightarrow> int \<Rightarrow> int" where
  "xy_socket_get_acked_size t fd =
     (case find_valid_socket_idx_by_fd t fd of
        None \<Rightarrow> SOCK_ERROR
      | Some i \<Rightarrow> (case t ! i of None \<Rightarrow> SOCK_ERROR | Some k \<Rightarrow> sint (acked_size k)))"

definition xy_socket_get_sent_size :: "skt_table \<Rightarrow> int \<Rightarrow> int" where
  "xy_socket_get_sent_size t fd =
     (case find_valid_socket_idx_by_fd t fd of
        None \<Rightarrow> SOCK_ERROR
      | Some i \<Rightarrow> (case t ! i of None \<Rightarrow> SOCK_ERROR | Some k \<Rightarrow> sint (send_size k)))"

definition xy_socket_get_status :: "skt_table \<Rightarrow> int \<Rightarrow> socket_status_t" where
  "xy_socket_get_status t fd =
     (case find_valid_socket_idx_by_fd t fd of
        None \<Rightarrow> XY_SOCKET_NONE
      | Some i \<Rightarrow> (case t ! i of None \<Rightarrow> XY_SOCKET_NONE | Some k \<Rightarrow> status k))"

section \<open>Events from lwIP\<close>

datatype socket_event_id =
    XY_SOCKET_CONNECT_RSP | XY_SOCKET_SEND_RSP | XY_SOCKET_RECV_DATA_IND | XY_SOCKET_CLOSE_IND
  | XY_SOCKET_ERR_IND

record sock_event_type =
  ev_id :: socket_event_id
  ev_fd :: int
  ev_err :: int
  data_len :: int

text \<open>What is posted to the event thread: nothing without a socket or without a callback.\<close>

definition xy_post_event_to_app :: "skt_table \<Rightarrow> socket_event_id \<Rightarrow> int \<Rightarrow> int \<Rightarrow> int \<Rightarrow> sock_event_type list" where
  "xy_post_event_to_app t event_id fd sz err =
     (case find_valid_socket_idx_by_fd t fd of
        None \<Rightarrow> []
      | Some i \<Rightarrow>
          (case t ! i of
             Some k \<Rightarrow>
               if event_callback k \<noteq> None
               then [\<lparr>ev_id = event_id, ev_fd = fd, ev_err = err, data_len = sz\<rparr>] else []
           | None \<Rightarrow> []))"

datatype lwip_event =
    LWIP_EVENT_SENT | LWIP_EVENT_RECV bool int | LWIP_EVENT_CONNECTED | LWIP_EVENT_ERR | LWIP_EVENT_OTHER

text \<open>
  \<open>LWIP_EVENT_RECV\<close> carries whether \<open>pbuf\<close> is \<open>NULL\<close> and the size \<open>FIONREAD\<close> reports; \<open>conn\<close>
  is the socket of the connection, if there is one.
\<close>

definition xy_async_socket_api_event ::
    "skt_table \<Rightarrow> int option \<Rightarrow> lwip_event \<Rightarrow> u16 \<Rightarrow> int \<Rightarrow> int \<times> skt_table \<times> sock_event_type list" where
  "xy_async_socket_api_event t conn ev sz err =
     (case conn of
        None \<Rightarrow> (err, t, [])
      | Some fd \<Rightarrow>
         if find_valid_socket_idx_by_fd t fd = None then (err, t, [])
         else
          (case ev of
             LWIP_EVENT_SENT \<Rightarrow>
               let t = upd_socket t fd (\<lambda>k. k\<lparr>acked_size := acked_size k + ucast sz\<rparr>)
               in (err, t, xy_post_event_to_app t XY_SOCKET_SEND_RSP fd (uint sz) 0)
           | LWIP_EVENT_RECV no_pbuf availsize \<Rightarrow>
               if no_pbuf then
                 let t = upd_socket t fd (\<lambda>k. k\<lparr>status := XY_SOCKET_CLOSING\<rparr>)
                 in (err, t, xy_post_event_to_app t XY_SOCKET_CLOSE_IND fd 0 0)
               else
                 (err, t, if 0 < availsize
                          then xy_post_event_to_app t XY_SOCKET_RECV_DATA_IND fd availsize 0 else [])
           | LWIP_EVENT_CONNECTED \<Rightarrow>
               let t = upd_socket t fd (\<lambda>k. k\<lparr>status := XY_SOCKET_CONNECTED\<rparr>)
               in (err, t, xy_post_event_to_app t XY_SOCKET_CONNECT_RSP fd 0 0)
           | LWIP_EVENT_ERR \<Rightarrow> (err, t, xy_post_event_to_app t XY_SOCKET_ERR_IND fd 0 err)
           | LWIP_EVENT_OTHER \<Rightarrow> (err, t, [])))"

text \<open>
  One message of the event thread: the callback it calls, read again from the table; calling a
  callback that was removed in between is a jump to \<open>NULL\<close>.
\<close>

definition skt_proc_event :: "skt_table \<Rightarrow> sock_event_type \<Rightarrow> (u32 \<times> sock_event_type) option res" where
  "skt_proc_event t ev =
     (case find_valid_socket_idx_by_fd t (ev_fd ev) of
        None \<Rightarrow> Inr None
      | Some i \<Rightarrow>
          (case t ! i of
             None \<Rightarrow> Inl BadAccess
           | Some k \<Rightarrow>
               (case event_callback k of None \<Rightarrow> Inl BadAccess | Some cb \<Rightarrow> Inr (Some (cb, ev)))))"

section \<open>Locks of the event path\<close>

text \<open>
  The blocking operations of the two threads of the event path, in the order of the code:
  \<open>LOCK_XY_SOCKET\<close>, \<open>UNLOCK_XY_SOCKET\<close>, and the queue of two messages, both sides of which wait
  for ever.
\<close>

datatype sync_op = Lock | Unlock | Put | Get

definition skt_queue_size :: nat where "skt_queue_size = 2"

definition xy_post_event_to_app_sync :: "sync_op list" where
  "xy_post_event_to_app_sync = [Lock, Unlock, Lock, Unlock]"

definition send_msg_2_skt_thd_sync :: "sync_op list" where
  "send_msg_2_skt_thd_sync = [Lock, Put, Unlock]"

definition skt_proc_thread_sync :: "sync_op list" where
  "skt_proc_thread_sync = [Get, Lock, Unlock, Lock, Unlock]"

datatype skt_thread = Poster | SktThd

fun sync_prog :: "skt_thread \<Rightarrow> sync_op list" where
  "sync_prog Poster = xy_post_event_to_app_sync @ send_msg_2_skt_thd_sync"
| "sync_prog SktThd = skt_proc_thread_sync"

text \<open>\<open>pcs\<close> is the position of each thread in its loop.\<close>

record sync_state =
  pcs :: "skt_thread \<Rightarrow> nat"
  xy_socket_mutux :: "skt_thread option"
  skt_thd_msg_q :: nat

definition sync_init :: sync_state where
  "sync_init = \<lparr>pcs = (\<lambda>_. 0), xy_socket_mutux = None, skt_thd_msg_q = 0\<rparr>"

definition sync_enabled :: "sync_state \<Rightarrow> skt_thread \<Rightarrow> bool" where
  "sync_enabled s th =
     (case sync_prog th ! pcs s th of
        Lock \<Rightarrow> xy_socket_mutux s = None
      | Unlock \<Rightarrow> xy_socket_mutux s = Some th
      | Put \<Rightarrow> skt_thd_msg_q s < skt_queue_size
      | Get \<Rightarrow> 0 < skt_thd_msg_q s)"

text \<open>One step of a thread; a blocked thread stays where it is.\<close>

definition sync_step :: "skt_thread \<Rightarrow> sync_state \<Rightarrow> sync_state" where
  "sync_step th s =
     (if \<not> sync_enabled s th then s
      else
        let s' = s\<lparr>pcs := (pcs s)(th := (pcs s th + 1) mod length (sync_prog th))\<rparr>
        in case sync_prog th ! pcs s th of
             Lock \<Rightarrow> s'\<lparr>xy_socket_mutux := Some th\<rparr>
           | Unlock \<Rightarrow> s'\<lparr>xy_socket_mutux := None\<rparr>
           | Put \<Rightarrow> s'\<lparr>skt_thd_msg_q := skt_thd_msg_q s + 1\<rparr>
           | Get \<Rightarrow> s'\<lparr>skt_thd_msg_q := skt_thd_msg_q s - 1\<rparr>)"

section \<open>Sequences of calls\<close>

text \<open>Whole calls, each with the results of its lwIP calls.\<close>

datatype skt_req =
    Create bool bool int
  | Register int "u32 option"
  | Connect int "ip_addr option" u16 int bool
  | Send int int
  | Sendto int "ip_addr option" u16 int
  | Close int int
  | Event "int option" lwip_event u16 int

fun skt_call :: "skt_table \<Rightarrow> skt_req \<Rightarrow> skt_table" where
  "skt_call t (Create v6 udp fd) =
     (case xy_socket_create t (if v6 then 1 else 0) (if udp then 1 else 0) fd of
        Inl _ \<Rightarrow> t | Inr (_, t', _) \<Rightarrow> t')"
| "skt_call t (Register fd cb) = snd (xy_socket_event_register t fd cb)"
| "skt_call t (Connect fd remote port ret inprogress) =
     (case xy_socket_connect t fd remote port ret inprogress of Inl _ \<Rightarrow> t | Inr (_, t') \<Rightarrow> t')"
| "skt_call t (Send fd ret) = snd (xy_socket_send t fd ret)"
| "skt_call t (Sendto fd remote port ret) =
     (case xy_socket_sendto t fd remote port ret of Inl _ \<Rightarrow> t | Inr (_, t') \<Rightarrow> t')"
| "skt_call t (Close fd ret) = snd (xy_socket_close t fd ret)"
| "skt_call t (Event conn ev sz err) = fst (snd (xy_async_socket_api_event t conn ev sz err))"

text \<open>
  lwIP hands out a descriptor only after it was closed; an IPv6 peer writes past a local of the
  caller, so no statement is made of what follows.
\<close>

fun is_v6 :: "ip_addr option \<Rightarrow> bool" where
  "is_v6 (Some (IPv6 a b c d)) \<longleftrightarrow> True"
| "is_v6 _ \<longleftrightarrow> False"

fun call_ok :: "skt_table \<Rightarrow> skt_req \<Rightarrow> bool" where
  "call_ok t (Create v6 udp fd) \<longleftrightarrow> find_valid_socket_idx_by_fd t fd = None"
| "call_ok t (Connect fd remote port ret inprogress) \<longleftrightarrow> \<not> is_v6 remote"
| "call_ok t (Sendto fd remote port ret) \<longleftrightarrow> \<not> is_v6 remote"
| "call_ok t _ \<longleftrightarrow> True"

fun calls_ok :: "skt_table \<Rightarrow> skt_req list \<Rightarrow> bool" where
  "calls_ok t [] \<longleftrightarrow> True"
| "calls_ok t (c # cs) \<longleftrightarrow> call_ok t c \<and> calls_ok (skt_call t c) cs"

definition skt_calls :: "skt_table \<Rightarrow> skt_req list \<Rightarrow> skt_table" where
  "skt_calls = foldl skt_call"

end
