(* ===== verification/AsyncSocketSpec.thy ===== *)
theory AsyncSocketSpec
  imports AsyncSocket
begin

text \<open>
  The table as a finite map from descriptors to sockets: the contract is the locale
  \<open>fd_store\<close>, the table of the code is its interpretation, and runs of operations are reasoned
  about through the map alone.
\<close>

section \<open>The contract\<close>

locale fd_store =
  fixes inv :: "'t \<Rightarrow> bool"
    and lookup :: "'t \<Rightarrow> int \<Rightarrow> 's option"
    and has_room :: "'t \<Rightarrow> bool"
    and insert_at :: "'t \<Rightarrow> 's \<Rightarrow> 't"
    and update :: "'t \<Rightarrow> int \<Rightarrow> ('s \<Rightarrow> 's) \<Rightarrow> 't"
    and remove :: "'t \<Rightarrow> int \<Rightarrow> 't"
    and key :: "'s \<Rightarrow> int"
  assumes insert_law: "inv t \<Longrightarrow> has_room t \<Longrightarrow> lookup t (key s) = None \<Longrightarrow>
      inv (insert_at t s) \<and> lookup (insert_at t s) = (lookup t)(key s \<mapsto> s)"
    and update_law: "inv t \<Longrightarrow> (\<And>s. key (f s) = key s) \<Longrightarrow>
      inv (update t fd f) \<and> lookup (update t fd f) = (lookup t)(fd := map_option f (lookup t fd))"
    and remove_law: "inv t \<Longrightarrow> inv (remove t fd) \<and> lookup (remove t fd) = (lookup t)(fd := None)"
begin

lemma update_fold:
  "inv t \<Longrightarrow> (\<And>f s. f \<in> set fs \<Longrightarrow> key (f s) = key s) \<Longrightarrow>
     inv (fold (\<lambda>f t. update t fd f) fs t)
     \<and> lookup (fold (\<lambda>f t. update t fd f) fs t) = (lookup t)(fd := map_option (fold (\<lambda>f s. f s) fs) (lookup t fd))"
proof (induction fs arbitrary: t)
  case Nil
  then show ?case by (simp add: option.map_ident)
next
  case (Cons f fs)
  have u: "inv (update t fd f)" "lookup (update t fd f) = (lookup t)(fd := map_option f (lookup t fd))"
    using update_law [OF Cons.prems(1), of f fd] Cons.prems(2) by simp_all
  show ?case
    using Cons.IH [OF u(1)] Cons.prems(2) by (auto simp: u(2) option.map_comp comp_def fun_eq_iff)
qed

lemma remove_insert:
  "inv t \<Longrightarrow> has_room t \<Longrightarrow> lookup t (key s) = None \<Longrightarrow> lookup (remove (insert_at t s) (key s)) = lookup t"
  using insert_law [of t s] remove_law [of "insert_at t s" "key s"] by (auto simp: fun_eq_iff)

end

section \<open>The table of the code\<close>

lemma find_idx_None: "find_idx P xs = None \<longleftrightarrow> (\<forall>x \<in> set xs. \<not> P x)"
  by (induction xs) auto

lemma find_idx_Some: "find_idx P xs = Some i \<Longrightarrow> i < length xs \<and> P (xs ! i)"
  by (induction xs arbitrary: i) (auto split: if_splits)

definition sock_of :: "skt_table \<Rightarrow> int \<Rightarrow> xy_socket_list_t option" where
  "sock_of t fd = (case find_valid_socket_idx_by_fd t fd of None \<Rightarrow> None | Some i \<Rightarrow> t ! i)"

definition tbl_inv :: "skt_table \<Rightarrow> bool" where
  "tbl_inv t \<longleftrightarrow> length t = MAX_SOCKET
     \<and> (\<forall>i < length t. \<forall>j < length t. \<forall>a b. t ! i = Some a \<and> t ! j = Some b \<and> skt_fd a = skt_fd b \<longrightarrow> i = j)"

lemma tbl_inv_length: "tbl_inv t \<Longrightarrow> length t = MAX_SOCKET" by (simp add: tbl_inv_def)

lemma tbl_inv_unique:
  "tbl_inv t \<Longrightarrow> i < length t \<Longrightarrow> j < length t \<Longrightarrow> t ! i = Some a \<Longrightarrow> t ! j = Some b \<Longrightarrow>
     skt_fd a = skt_fd b \<Longrightarrow> i = j"
  unfolding tbl_inv_def by blast

text \<open>Writing one entry keeps the invariant when no other entry has the new entry's descriptor.\<close>

lemma tbl_inv_update:
  assumes inv: "tbl_inv t" and i: "i < length t"
    and new: "\<And>k j b. x = Some k \<Longrightarrow> j < length t \<Longrightarrow> j \<noteq> i \<Longrightarrow> t ! j = Some b \<Longrightarrow> skt_fd b \<noteq> skt_fd k"
  shows "tbl_inv (t[i := x])"
  unfolding tbl_inv_def
proof (intro conjI allI impI)
  show "length (t[i := x]) = MAX_SOCKET" using tbl_inv_length [OF inv] by simp
  fix j l a b
  assume j: "j < length (t[i := x])" and l: "l < length (t[i := x])"
    and ab: "t[i := x] ! j = Some a \<and> t[i := x] ! l = Some b \<and> skt_fd a = skt_fd b"
  consider "j = i" "l = i" | "j = i" "l \<noteq> i" | "j \<noteq> i" "l = i" | "j \<noteq> i" "l \<noteq> i" by blast
  then show "j = l"
  proof cases
    case 2
    then show ?thesis using new [of a l b] ab l i by simp
  next
    case 3
    then show ?thesis using new [of b j a] ab j i by simp
  next
    case 4
    then show ?thesis using tbl_inv_unique [OF inv, of j l a b] ab j l by simp
  qed simp
qed

definition tbl_room :: "skt_table \<Rightarrow> bool" where
  "tbl_room t \<longleftrightarrow> find_empty_socket_idx t \<noteq> None"

definition tbl_insert :: "skt_table \<Rightarrow> xy_socket_list_t \<Rightarrow> skt_table" where
  "tbl_insert t s = (case find_empty_socket_idx t of None \<Rightarrow> t | Some i \<Rightarrow> t[i := Some s])"

definition tbl_remove :: "skt_table \<Rightarrow> int \<Rightarrow> skt_table" where
  "tbl_remove t fd = (case find_valid_socket_idx_by_fd t fd of None \<Rightarrow> t | Some i \<Rightarrow> t[i := None])"

lemma find_valid_None: "find_valid_socket_idx_by_fd t fd = None \<longleftrightarrow> (\<forall>i < length t. \<forall>k. t ! i = Some k \<longrightarrow> skt_fd k \<noteq> fd)"
  unfolding find_valid_socket_idx_by_fd_def find_idx_None all_set_conv_all_nth
  by (rule all_cong, rename_tac i, case_tac "t ! i") auto

lemma find_valid_Some:
  "find_valid_socket_idx_by_fd t fd = Some i \<Longrightarrow> i < length t \<and> (\<exists>k. t ! i = Some k \<and> skt_fd k = fd)"
  unfolding find_valid_socket_idx_by_fd_def by (drule find_idx_Some) (auto split: option.splits)

lemma find_empty_Some: "find_empty_socket_idx t = Some i \<Longrightarrow> i < length t \<and> t ! i = None"
  unfolding find_empty_socket_idx_def by (drule find_idx_Some) simp

lemma sock_of_None: "sock_of t fd = None \<longleftrightarrow> find_valid_socket_idx_by_fd t fd = None"
  by (auto simp: sock_of_def split: option.split dest: find_valid_Some)

lemma sock_of_Some: "sock_of t fd = Some k \<Longrightarrow> \<exists>i. find_valid_socket_idx_by_fd t fd = Some i \<and> t ! i = Some k"
  by (auto simp: sock_of_def split: option.splits)

lemma get_status_sock: "sock_of t fd = Some k \<Longrightarrow> xy_socket_get_status t fd = status k"
  by (drule sock_of_Some) (auto simp: xy_socket_get_status_def)

lemma get_sent_sock: "sock_of t fd = Some k \<Longrightarrow> xy_socket_get_sent_size t fd = sint (send_size k)"
  by (drule sock_of_Some) (auto simp: xy_socket_get_sent_size_def)

lemma sock_of_iff:
  assumes "tbl_inv t"
  shows "sock_of t fd = Some k \<longleftrightarrow> (\<exists>i < length t. t ! i = Some k \<and> skt_fd k = fd)"
proof
  assume "sock_of t fd = Some k"
  then obtain i where "find_valid_socket_idx_by_fd t fd = Some i" "t ! i = Some k"
    by (auto simp: sock_of_def split: option.splits)
  then show "\<exists>i < length t. t ! i = Some k \<and> skt_fd k = fd" using find_valid_Some by fastforce
next
  assume "\<exists>i < length t. t ! i = Some k \<and> skt_fd k = fd"
  then obtain i where i: "i < length t" "t ! i = Some k" "skt_fd k = fd" by blast
  then obtain j where j: "find_valid_socket_idx_by_fd t fd = Some j"
    using find_valid_None [of t fd] by (cases "find_valid_socket_idx_by_fd t fd") auto
  then have "j = i" using find_valid_Some [OF j] i assms by (auto simp: tbl_inv_def)
  then show "sock_of t fd = Some k" using i j by (simp add: sock_of_def)
qed

lemma sock_of_eqI:
  assumes "tbl_inv t" "\<And>k. (\<exists>i < length t. t ! i = Some k \<and> skt_fd k = fd) \<longleftrightarrow> x = Some k"
  shows "sock_of t fd = x"
proof -
  have "sock_of t fd = Some k \<longleftrightarrow> x = Some k" for k using sock_of_iff [OF assms(1), of fd k] assms(2) [of k] by simp
  then show ?thesis by (metis option.exhaust)
qed

lemma ex_list_update:
  assumes "i < length t"
  shows "(\<exists>j < length (t[i := x]). P (t[i := x] ! j)) \<longleftrightarrow> P x \<or> (\<exists>j < length t. j \<noteq> i \<and> P (t ! j))"
  using assms by (metis length_list_update nth_list_update_eq nth_list_update_neq)

lemma insert_table:
  assumes inv: "tbl_inv t" and room: "find_empty_socket_idx t = Some i" and new: "sock_of t (skt_fd s) = None"
  shows "tbl_inv (t[i := Some s])" "sock_of (t[i := Some s]) = (sock_of t)(skt_fd s \<mapsto> s)"
proof -
  have i: "i < length t" "t ! i = None" using find_empty_Some [OF room] by auto
  have fresh: "t ! j = Some k \<Longrightarrow> j < length t \<Longrightarrow> skt_fd k \<noteq> skt_fd s" for j k
    using new find_valid_None [of t "skt_fd s"] by (simp add: sock_of_None)
  show inv': "tbl_inv (t[i := Some s])"
    by (rule tbl_inv_update [OF inv i(1)]) (use fresh in auto)
  show "sock_of (t[i := Some s]) = (sock_of t)(skt_fd s \<mapsto> s)"
  proof (rule ext)
    fix fd
    show "sock_of (t[i := Some s]) fd = ((sock_of t)(skt_fd s \<mapsto> s)) fd"
    proof (rule sock_of_eqI [OF inv'])
      fix k
      have "(\<exists>j < length (t[i := Some s]). t[i := Some s] ! j = Some k \<and> skt_fd k = fd)
          \<longleftrightarrow> (k = s \<and> skt_fd k = fd) \<or> (\<exists>j < length t. t ! j = Some k \<and> skt_fd k = fd)"
        using ex_list_update [OF i(1), of "Some s" "\<lambda>y. y = Some k \<and> skt_fd k = fd"] i(2) by auto
      also have "\<dots> \<longleftrightarrow> ((sock_of t)(skt_fd s \<mapsto> s)) fd = Some k"
        using fresh sock_of_iff [OF inv, of fd k] by auto
      finally show "(\<exists>j < length (t[i := Some s]). t[i := Some s] ! j = Some k \<and> skt_fd k = fd)
          \<longleftrightarrow> ((sock_of t)(skt_fd s \<mapsto> s)) fd = Some k" .
    qed
  qed
qed

lemma update_table:
  assumes inv: "tbl_inv t" and keep: "\<And>k. skt_fd (f k) = skt_fd k"
  shows "tbl_inv (upd_socket t fd f)" "sock_of (upd_socket t fd f) = (sock_of t)(fd := map_option f (sock_of t fd))"
proof -
  have "tbl_inv (upd_socket t fd f) \<and> sock_of (upd_socket t fd f) = (sock_of t)(fd := map_option f (sock_of t fd))"
  proof (cases "find_valid_socket_idx_by_fd t fd")
    case None
    then have "sock_of t fd = None" by (simp add: sock_of_None)
    then have "sock_of t = (sock_of t)(fd := map_option f (sock_of t fd))" by (simp add: fun_upd_idem)
    then show ?thesis using None inv by (simp add: upd_socket_def)
  next
    case (Some i)
    then obtain k0 where i: "i < length t" "t ! i = Some k0" "skt_fd k0 = fd" using find_valid_Some by blast
    have s0: "sock_of t fd = Some k0" using Some i by (simp add: sock_of_def)
    have u: "upd_socket t fd f = t[i := Some (f k0)]" using Some i by (simp add: upd_socket_def)
    have only: "j < length t \<Longrightarrow> j \<noteq> i \<Longrightarrow> t ! j = Some k \<Longrightarrow> skt_fd k \<noteq> fd" for j k
      using tbl_inv_unique [OF inv _ i(1) _ i(2), of j k] i(3) by auto
    have inv': "tbl_inv (t[i := Some (f k0)])"
      by (rule tbl_inv_update [OF inv i(1)]) (use only keep i(3) in auto)
    have "sock_of (t[i := Some (f k0)]) g = ((sock_of t)(fd := map_option f (sock_of t fd))) g" for g
    proof (rule sock_of_eqI [OF inv'])
      fix k
      have "(\<exists>j < length (t[i := Some (f k0)]). t[i := Some (f k0)] ! j = Some k \<and> skt_fd k = g)
          \<longleftrightarrow> (f k0 = k \<and> skt_fd k = g) \<or> (\<exists>j < length t. j \<noteq> i \<and> t ! j = Some k \<and> skt_fd k = g)"
        using ex_list_update [OF i(1), of "Some (f k0)" "\<lambda>y. y = Some k \<and> skt_fd k = g"] by auto
      also have "\<dots> \<longleftrightarrow> ((sock_of t)(fd := map_option f (sock_of t fd))) g = Some k"
      proof (cases "g = fd")
        case True
        then show ?thesis using only keep [of k0] i s0 by auto
      next
        case False
        then show ?thesis using sock_of_iff [OF inv, of g k] keep [of k0] i by auto
      qed
      finally show "(\<exists>j < length (t[i := Some (f k0)]). t[i := Some (f k0)] ! j = Some k \<and> skt_fd k = g)
          \<longleftrightarrow> ((sock_of t)(fd := map_option f (sock_of t fd))) g = Some k" .
    qed
    then show ?thesis using inv' u by auto
  qed
  then show "tbl_inv (upd_socket t fd f)" "sock_of (upd_socket t fd f) = (sock_of t)(fd := map_option f (sock_of t fd))"
    by simp_all
qed

lemma remove_table:
  assumes inv: "tbl_inv t"
  shows "tbl_inv (tbl_remove t fd)" "sock_of (tbl_remove t fd) = (sock_of t)(fd := None)"
proof -
  have "tbl_inv (tbl_remove t fd) \<and> sock_of (tbl_remove t fd) = (sock_of t)(fd := None)"
  proof (cases "find_valid_socket_idx_by_fd t fd")
    case None
    then have "sock_of t = (sock_of t)(fd := None)" by (simp add: sock_of_None fun_upd_idem)
    then show ?thesis using None inv by (simp add: tbl_remove_def)
  next
    case (Some i)
    then obtain k0 where i: "i < length t" "t ! i = Some k0" "skt_fd k0 = fd" using find_valid_Some by blast
    have only: "j < length t \<Longrightarrow> j \<noteq> i \<Longrightarrow> t ! j = Some k \<Longrightarrow> skt_fd k \<noteq> fd" for j k
      using tbl_inv_unique [OF inv _ i(1) _ i(2), of j k] i(3) by auto
    have inv': "tbl_inv (t[i := None])" by (rule tbl_inv_update [OF inv i(1)]) simp
    have "sock_of (t[i := None]) g = ((sock_of t)(fd := None)) g" for g
    proof (rule sock_of_eqI [OF inv'])
      fix k
      have "(\<exists>j < length (t[i := None]). t[i := None] ! j = Some k \<and> skt_fd k = g)
          \<longleftrightarrow> (\<exists>j < length t. j \<noteq> i \<and> t ! j = Some k \<and> skt_fd k = g)"
        using ex_list_update [OF i(1), of None "\<lambda>y. y = Some k \<and> skt_fd k = g"] by auto
      also have "\<dots> \<longleftrightarrow> ((sock_of t)(fd := None)) g = Some k"
        using only sock_of_iff [OF inv, of g k] i by (cases "g = fd") auto
      finally show "(\<exists>j < length (t[i := None]). t[i := None] ! j = Some k \<and> skt_fd k = g)
          \<longleftrightarrow> ((sock_of t)(fd := None)) g = Some k" .
    qed
    then show ?thesis using inv' Some by (auto simp: tbl_remove_def)
  qed
  then show "tbl_inv (tbl_remove t fd)" "sock_of (tbl_remove t fd) = (sock_of t)(fd := None)" by simp_all
qed

interpretation skt: fd_store tbl_inv sock_of tbl_room tbl_insert upd_socket tbl_remove skt_fd
proof
  fix t and s :: xy_socket_list_t
  assume "tbl_inv t" "tbl_room t" "sock_of t (skt_fd s) = None"
  then show "tbl_inv (tbl_insert t s) \<and> sock_of (tbl_insert t s) = (sock_of t)(skt_fd s \<mapsto> s)"
    using insert_table [of t _ s] by (auto simp: tbl_room_def tbl_insert_def)
next
  fix t fd and f :: "xy_socket_list_t \<Rightarrow> xy_socket_list_t"
  assume "tbl_inv t" "\<And>s. skt_fd (f s) = skt_fd s"
  then show "tbl_inv (upd_socket t fd f) \<and> sock_of (upd_socket t fd f) = (sock_of t)(fd := map_option f (sock_of t fd))"
    using update_table [of t f fd] by blast
next
  fix t fd assume "tbl_inv t"
  then show "tbl_inv (tbl_remove t fd) \<and> sock_of (tbl_remove t fd) = (sock_of t)(fd := None)"
    using remove_table by blast
qed

section \<open>Every call refines a call on the map\<close>

definition new_skt :: "int \<Rightarrow> int \<Rightarrow> af \<Rightarrow> xy_socket_list_t" where
  "new_skt fd socket_type domain =
     \<lparr>skt_fd = fd, status = XY_SOCKET_CREATED, protocol = socket_type, af_family = domain,
      event_callback = None, send_size = 0, acked_size = 0\<rparr>"

fun spec_upd :: "skt_req \<Rightarrow> (int \<times> (xy_socket_list_t \<Rightarrow> xy_socket_list_t)) option" where
  "spec_upd (Register fd cb) = Some (fd, \<lambda>k. k\<lparr>event_callback := cb\<rparr>)"
| "spec_upd (Connect fd remote port ret inprogress) =
     (if remote \<noteq> None \<and> ret = 0 then Some (fd, \<lambda>k. k\<lparr>status := XY_SOCKET_CONNECTED\<rparr>)
      else if remote \<noteq> None \<and> inprogress then Some (fd, \<lambda>k. k\<lparr>status := XY_SOCKET_CONNECTING\<rparr>)
      else None)"
| "spec_upd (Send fd ret) =
     (if 0 < ret then Some (fd, \<lambda>k. k\<lparr>send_size := send_size k + of_int ret\<rparr>) else None)"
| "spec_upd (Sendto fd remote port ret) =
     (if remote \<noteq> None \<and> 0 < ret then Some (fd, \<lambda>k. k\<lparr>send_size := send_size k + of_int ret\<rparr>) else None)"
| "spec_upd (Event (Some fd) LWIP_EVENT_SENT sz err) =
     Some (fd, \<lambda>k. k\<lparr>acked_size := acked_size k + ucast sz\<rparr>)"
| "spec_upd (Event (Some fd) (LWIP_EVENT_RECV no_pbuf avail) sz err) =
     (if no_pbuf then Some (fd, \<lambda>k. k\<lparr>status := XY_SOCKET_CLOSING\<rparr>) else None)"
| "spec_upd (Event (Some fd) LWIP_EVENT_CONNECTED sz err) =
     Some (fd, \<lambda>k. k\<lparr>status := XY_SOCKET_CONNECTED\<rparr>)"
| "spec_upd _ = None"

fun spec_call :: "(int \<Rightarrow> xy_socket_list_t option) \<Rightarrow> skt_req \<Rightarrow> (int \<Rightarrow> xy_socket_list_t option)" where
  "spec_call m (Create v6 udp fd) =
     (if 0 \<le> fd \<and> card (dom m) < MAX_SOCKET
      then m(fd \<mapsto> new_skt fd (if udp then 1 else 0) (if v6 then AF_INET6 else AF_INET)) else m)"
| "spec_call m (Close fd ret) = (if ret = 0 then m(fd := None) else m)"
| "spec_call m c =
     (case spec_upd c of None \<Rightarrow> m | Some (fd, f) \<Rightarrow> m(fd := map_option f (m fd)))"

lemma spec_upd_fd: "spec_upd c = Some (fd, f) \<Longrightarrow> skt_fd (f k) = skt_fd k"
  by (induction c rule: spec_upd.induct) (auto split: if_splits)

text \<open>There is room exactly when fewer than ten sockets are open.\<close>

lemma room_iff:
  assumes "tbl_inv t"
  shows "tbl_room t \<longleftrightarrow> card (dom (sock_of t)) < MAX_SOCKET"
proof -
  let ?U = "{i. i < length t \<and> t ! i \<noteq> None}"
  have inj: "inj_on (\<lambda>i. skt_fd (the (t ! i))) ?U"
    by (rule inj_onI) (auto intro: tbl_inv_unique [OF assms])
  have dom: "dom (sock_of t) = (\<lambda>i. skt_fd (the (t ! i))) ` ?U"
    by (auto simp: sock_of_iff [OF assms] dom_def image_def) force
  have card: "card (dom (sock_of t)) = card ?U" unfolding dom by (rule card_image [OF inj])
  show ?thesis
  proof (cases "find_empty_socket_idx t")
    case None
    then have "\<forall>i < length t. t ! i \<noteq> None"
      by (simp add: find_empty_socket_idx_def find_idx_None all_set_conv_all_nth)
    then have "?U = {..<length t}" by auto
    then show ?thesis using None card tbl_inv_length [OF assms] by (simp add: tbl_room_def)
  next
    case (Some i)
    have "i < length t" "t ! i = None" using find_empty_Some [OF Some] by simp_all
    then have "i \<in> {..<length t}" "i \<notin> ?U" by simp_all
    moreover have "?U \<subseteq> {..<length t}" by blast
    ultimately have "?U \<subset> {..<length t}" by blast
    then have "card ?U < card {..<length t}" by (rule psubset_card_mono [rotated]) simp
    then show ?thesis using Some card tbl_inv_length [OF assms] by (simp add: tbl_room_def)
  qed
qed

lemma upd_none: "sock_of t fd = None \<Longrightarrow> (sock_of t)(fd := map_option f (sock_of t fd)) = sock_of t"
  by (simp add: fun_upd_idem)

lemma upd_call:
  assumes "tbl_inv t" "spec_upd c = Some (fd, f)" "skt_call t c = upd_socket t fd f"
  shows "tbl_inv (skt_call t c) \<and> sock_of (skt_call t c) = (sock_of t)(fd := map_option f (sock_of t fd))"
  using skt.update_law [OF assms(1), of f fd] spec_upd_fd [OF assms(2)] assms(3) by simp

lemma upd_socket_absent [simp]: "find_valid_socket_idx_by_fd t fd = None \<Longrightarrow> upd_socket t fd f = t"
  by (simp add: upd_socket_def)

text \<open>What each call that is neither a creation nor a closing does to the table.\<close>

lemma local_v4: "local_sockaddr (IPv4 a) port = Inr (ip_addr_port_to_sockaddr (IPv4 a) port)"
  by (simp add: local_sockaddr_def ip_addr_port_to_sockaddr_def sockaddr_size_def)

lemma not_v6: "\<not> is_v6 (Some a) \<Longrightarrow> \<exists>b. a = IPv4 b"
  by (cases a) simp_all

lemma skt_call_upd:
  assumes "call_ok t c" "\<forall>v6 udp fd. c \<noteq> Create v6 udp fd" "\<forall>fd ret. c \<noteq> Close fd ret"
  shows "skt_call t c = (case spec_upd c of None \<Rightarrow> t | Some (fd, f) \<Rightarrow> upd_socket t fd f)"
  using assms
  by (induction c rule: spec_upd.induct)
    (auto simp: xy_socket_event_register_def xy_socket_connect_def xy_socket_send_def xy_socket_sendto_def
      xy_async_socket_api_event_def Let_def local_v4 dest!: not_v6 split: lwip_event.splits option.splits)

lemma skt_call_refines:
  assumes inv: "tbl_inv t" and ok: "call_ok t c"
  shows "tbl_inv (skt_call t c) \<and> sock_of (skt_call t c) = spec_call (sock_of t) c"
proof (cases c)
  case (Create v6 udp fd)
  show ?thesis
  proof (cases "0 \<le> fd \<and> tbl_room t")
    case True
    then obtain i where i: "find_empty_socket_idx t = Some i" by (auto simp: tbl_room_def)
    let ?s = "new_skt fd (if udp then 1 else 0) (if v6 then AF_INET6 else AF_INET)"
    have "skt_call t c = t[i := Some ?s]"
      using True i by (auto simp: Create xy_socket_create_def xy_assert_def create_store_def new_skt_def)
    moreover have "sock_of t (skt_fd ?s) = None" using ok by (simp add: Create sock_of_None new_skt_def)
    ultimately show ?thesis
      using insert_table [OF inv i, of ?s] True room_iff [OF inv] by (simp add: Create new_skt_def)
  next
    case False
    then have "skt_call t c = t"
      by (auto simp: Create xy_socket_create_def xy_assert_def tbl_room_def)
    then show ?thesis using False inv room_iff [OF inv] by (auto simp: Create)
  qed
next
  case (Close fd ret)
  have "skt_call t c = (if ret = 0 then tbl_remove t fd else t)"
    by (auto simp: Close xy_socket_close_def tbl_remove_def split: option.split)
  then show ?thesis using skt.remove_law [OF inv, of fd] inv by (simp add: Close)
qed (use skt_call_upd [OF ok] upd_call [OF inv, of c] inv in
    \<open>auto split: option.splits\<close>)

lemma skt_calls_refine:
  "tbl_inv t \<Longrightarrow> calls_ok t cs \<Longrightarrow> tbl_inv (skt_calls t cs) \<and> sock_of (skt_calls t cs) = foldl spec_call (sock_of t) cs"
proof (induction cs arbitrary: t)
  case Nil
  then show ?case by (simp add: skt_calls_def)
next
  case (Cons c cs)
  then show ?case using skt_call_refines [of t c] Cons.IH [of "skt_call t c"] by (simp add: skt_calls_def)
qed

section \<open>Counters along a run\<close>

fun sent_by :: "int \<Rightarrow> skt_req \<Rightarrow> int" where
  "sent_by fd (Send fd' ret) = (if fd' = fd \<and> 0 < ret then ret else 0)"
| "sent_by fd (Sendto fd' remote port ret) = (if fd' = fd \<and> remote \<noteq> None \<and> 0 < ret then ret else 0)"
| "sent_by fd _ = 0"

fun closes :: "int \<Rightarrow> skt_req \<Rightarrow> bool" where
  "closes fd (Close fd' ret) \<longleftrightarrow> fd' = fd \<and> ret = 0"
| "closes fd _ \<longleftrightarrow> False"

lemma sent_by_nonneg: "0 \<le> sent_by fd c" by (induction fd c rule: sent_by.induct) auto

lemma spec_call_sent:
  assumes "m fd = Some k" "\<not> closes fd c" "\<forall>v6 udp. c \<noteq> Create v6 udp fd"
  shows "\<exists>k'. spec_call m c fd = Some k' \<and> send_size k' = send_size k + of_int (sent_by fd c)"
proof (cases "\<exists>v6 udp g. c = Create v6 udp g")
  case True
  then show ?thesis using assms by auto
next
  case False
  then show ?thesis
    using assms by (induction c rule: spec_upd.induct) auto
qed

lemma run_sent:
  "tbl_inv t \<Longrightarrow> calls_ok t cs \<Longrightarrow> sock_of t fd = Some k \<Longrightarrow> \<forall>c \<in> set cs. \<not> closes fd c \<Longrightarrow>
     \<exists>k'. sock_of (skt_calls t cs) fd = Some k' \<and>
       send_size k' = send_size k + of_int (sum_list (map (sent_by fd) cs))"
proof (induction cs arbitrary: t k)
  case Nil
  then show ?case by (simp add: skt_calls_def)
next
  case (Cons c cs)
  have r: "tbl_inv (skt_call t c)" "sock_of (skt_call t c) = spec_call (sock_of t) c"
    using skt_call_refines [of t c] Cons.prems by simp_all
  have "\<forall>v6 udp. c \<noteq> Create v6 udp fd" using Cons.prems(2,3) by (auto simp: sock_of_None [symmetric])
  then obtain k1 where k1: "sock_of (skt_call t c) fd = Some k1"
      "send_size k1 = send_size k + of_int (sent_by fd c)"
    using spec_call_sent [of "sock_of t" fd k c] Cons.prems r by auto
  show ?case
    using Cons.IH [OF r(1) _ k1(1)] Cons.prems k1(2) by (auto simp: skt_calls_def algebra_simps)
qed

end
