(* ===== verification/AsyncSocketProps.thy ===== *)
theory AsyncSocketProps
  imports AsyncSocketSpec
begin

text \<open>
  Properties of the asynchronous socket table: every sequence of calls refines updates of a map of
  at most ten sockets, the byte counter is the sum of the results of the sends, and the behaviour
  of the code's locking under interleaving.
\<close>

lemmas table_defs = tbl_inv_def MAX_SOCKET_def sock_of_def find_valid_socket_idx_by_fd_def
  find_empty_socket_idx_def create_store_def

definition no_sockets :: skt_table where "no_sockets = replicate MAX_SOCKET None"

lemma no_sockets_inv: "tbl_inv no_sockets" by (simp add: tbl_inv_def no_sockets_def)

lemma no_sockets_lookup: "sock_of no_sockets fd = None"
  by (simp add: sock_of_None find_valid_None no_sockets_def)

lemma no_sockets_room: "find_empty_socket_idx no_sockets = Some 0" by code_simp

section \<open>Sequences of calls\<close>





text \<open>creating a socket when a descriptor is handed out for the first time: with a free entry
  the descriptor is returned and its socket is CREATED with both counters zero and no callback; with
  ten sockets open the new lwIP socket is closed again, SOCK_ERROR is returned and nothing
  changes.\<close>

lemma socket_create_result:
  assumes inv: "tbl_inv t" and fresh: "sock_of t fd = None" and fd: "0 \<le> fd"
    and v: "ver = 0 \<or> ver = 1" and ty: "ty = 0 \<or> ty = 1"
  shows "xy_socket_create t ver ty fd =
      (if card (dom (sock_of t)) < MAX_SOCKET
       then Inr (fd, tbl_insert t (new_skt fd ty (if ver = 0 then AF_INET else AF_INET6)), [])
       else Inr (SOCK_ERROR, t, [fd]))
    \<and> (card (dom (sock_of t)) < MAX_SOCKET \<longrightarrow>
         xy_socket_get_status (tbl_insert t (new_skt fd ty (if ver = 0 then AF_INET else AF_INET6))) fd
           = XY_SOCKET_CREATED)"
proof -
  let ?s = "new_skt fd ty (if ver = 0 then AF_INET else AF_INET6)"
  show ?thesis
  proof (cases "tbl_room t")
    case True
    then obtain i where i: "find_empty_socket_idx t = Some i" by (auto simp: tbl_room_def)
    have room: "card (dom (sock_of t)) < MAX_SOCKET" using True room_iff [OF inv] by simp
    have "sock_of (tbl_insert t ?s) fd = Some ?s"
      using skt.insert_law [OF inv True, of ?s] fresh by (simp add: new_skt_def)
    then have "xy_socket_get_status (tbl_insert t ?s) fd = XY_SOCKET_CREATED"
      by (simp add: get_status_sock new_skt_def)
    moreover have "xy_socket_create t ver ty fd = Inr (fd, tbl_insert t ?s, [])"
      using i fd v ty by (auto simp: xy_socket_create_def xy_assert_def tbl_insert_def create_store_def new_skt_def)
    ultimately show ?thesis using room by simp
  next
    case False
    then have "\<not> card (dom (sock_of t)) < MAX_SOCKET" using room_iff [OF inv] by simp
    moreover have "xy_socket_create t ver ty fd = Inr (SOCK_ERROR, t, [fd])"
      using False fd v ty by (auto simp: xy_socket_create_def xy_assert_def tbl_room_def)
    ultimately show ?thesis by simp
  qed
qed

text \<open>however the calls on other sockets are mixed in, the size that
  xy_socket_get_sent_size reports for a socket is the sum of the positive results of the sends on
  it since the size was last read, as long as it is not closed and the sum stays below 2^31.\<close>

lemma sent_size_is_sum_of_sends:
  assumes inv: "tbl_inv t" and ok: "calls_ok t cs" and here: "sock_of t fd = Some k"
    and stays: "\<forall>c \<in> set cs. \<not> closes fd c"
    and small: "uint (send_size k) + sum_list (map (sent_by fd) cs) < 2 ^ 31"
  shows "xy_socket_get_sent_size (skt_calls t cs) fd = xy_socket_get_sent_size t fd + sum_list (map (sent_by fd) cs)"
proof -
  have nonneg: "0 \<le> sum_list (map (sent_by fd) cs)" by (rule sum_list_nonneg) (auto simp: sent_by_nonneg)
  obtain k' where k': "sock_of (skt_calls t cs) fd = Some k'"
      "send_size k' = send_size k + of_int (sum_list (map (sent_by fd) cs))"
    using run_sent [OF inv ok here stays] by blast
  have u: "uint (send_size k') = uint (send_size k) + sum_list (map (sent_by fd) cs)"
    using nonneg small uint_ge_0 [of "send_size k"] unfolding k'(2)
    by (simp add: uint_word_ariths uint_word_of_int)
      (subst mod_add_right_eq, simp add: mod_pos_pos_trivial)
  have s: "sint w = uint w" if "uint w < 2 ^ 31" for w :: u32
    using that signed_take_bit_int_eq_self [of 31 "uint w"] order_trans [OF _ uint_ge_0 [of w], of "- (2 ^ 31)"]
    by (simp add: sint_uint)
  show ?thesis
    using get_sent_sock [OF here] get_sent_sock [OF k'(1)] s [of "send_size k"] s [of "send_size k'"] u small nonneg by simp
qed

definition sent_calls :: "skt_req list" where
  "sent_calls = [Send 3 100, Create True True 4, Send 4 7, Sendto 3 (Some (IPv4 0x0100007F)) 5683 20, Send 3 (-1)]"

lemma sent_size_is_sum_of_sends_witness:
  "xy_socket_get_sent_size (skt_calls (skt_calls no_sockets [Create False False 3]) sent_calls) 3 = 120"
proof -
  let ?t = "skt_calls no_sockets [Create False False 3]"
  have ok: "calls_ok no_sockets [Create False False 3]" by code_simp
  have inv: "tbl_inv ?t" using skt_calls_refine [OF no_sockets_inv ok] by simp
  have ok2: "calls_ok ?t sent_calls" by code_simp
  have here: "sock_of ?t 3 = Some (new_skt 3 0 AF_INET)" by code_simp
  have z: "xy_socket_get_sent_size ?t 3 = 0" by code_simp
  show ?thesis
    using sent_size_is_sum_of_sends [OF inv ok2 here] z by (simp add: sent_calls_def new_skt_def)
qed

text \<open>an address and port survive the conversion to a sockaddr and back, for both families.\<close>

lemma sockaddr_roundtrip:
  "ip_addr_port_from_sockaddr (ip_addr_port_to_sockaddr a port) = (a, port)"
proof -
  have "htons (htons port) = port"
    by (rule bit_word_eqI) (auto simp: htons_def bit_simps)
  then show ?thesis
    by (cases a) (simp_all add: ip_addr_port_to_sockaddr_def ip_addr_port_from_sockaddr_def)
qed

text \<open>on an open socket every IPv6 destination makes connect and sendto write past the end of
  their local sockaddr: ip_addr_port_to_sockaddr stores the 28 bytes of a sockaddr_in6 in a struct
  sockaddr of 16 bytes; an IPv4 destination never does.\<close>

lemma ipv6_peer_overruns_sockaddr:
  assumes "sock_of t fd \<noteq> None"
  shows "xy_socket_connect t fd (Some (IPv6 a b c d)) port ret inprogress = Inl BadAccess
    \<and> xy_socket_sendto t fd (Some (IPv6 a b c d)) port ret = Inl BadAccess
    \<and> xy_socket_connect t fd (Some (IPv4 a)) port ret inprogress \<noteq> Inl BadAccess
    \<and> xy_socket_sendto t fd (Some (IPv4 a)) port ret \<noteq> Inl BadAccess"
  using assms
  by (simp add: sock_of_None [symmetric] xy_socket_connect_def xy_socket_sendto_def local_v4)
    (simp add: local_sockaddr_def ip_addr_port_to_sockaddr_def sockaddr_size_def)

lemma ipv6_peer_overruns_sockaddr_witness:
  "xy_socket_connect (skt_calls no_sockets [Create True False 3]) 3 (Some (IPv6 1 2 3 4)) 80 0 False = Inl BadAccess"
proof -
  have "sock_of (skt_calls no_sockets [Create True False 3]) 3 \<noteq> None" by code_simp
  then show ?thesis using ipv6_peer_overruns_sockaddr by blast
qed

section \<open>Events\<close>

text \<open>an acknowledgement by the peer adds the acknowledged bytes to the socket and posts one
  event with exactly that size, which the event thread delivers to the callback registered at that
  time; without a callback nothing is posted, and the table is the same.\<close>

lemma sent_event_counts_and_posts:
  assumes inv: "tbl_inv t" and here: "sock_of t fd = Some k"
  shows "\<exists>t' evs. xy_async_socket_api_event t (Some fd) LWIP_EVENT_SENT sz err = (err, t', evs)
    \<and> sock_of t' = (sock_of t)(fd \<mapsto> k\<lparr>acked_size := acked_size k + ucast sz\<rparr>)
    \<and> evs = (if event_callback k = None then []
             else [\<lparr>ev_id = XY_SOCKET_SEND_RSP, ev_fd = fd, ev_err = 0, data_len = uint sz\<rparr>])
    \<and> (\<forall>ev \<in> set evs. skt_proc_event t' ev = Inr (Some (the (event_callback k), ev)))"
proof -
  define f where "f = (\<lambda>k :: xy_socket_list_t. k\<lparr>acked_size := acked_size k + ucast sz\<rparr>)"
  let ?t' = "upd_socket t fd f"
  have m: "sock_of ?t' = (sock_of t)(fd \<mapsto> f k)"
    using skt.update_law [OF inv, of f fd] here by (simp add: f_def)
  have valid: "find_valid_socket_idx_by_fd t fd \<noteq> None" using here by (auto simp: sock_of_None [symmetric])
  obtain i where i: "find_valid_socket_idx_by_fd ?t' fd = Some i" "?t' ! i = Some (f k)"
    using sock_of_Some [of ?t' fd "f k"] m by auto
  have post: "xy_post_event_to_app ?t' XY_SOCKET_SEND_RSP fd (uint sz) 0 =
      (if event_callback k = None then []
       else [\<lparr>ev_id = XY_SOCKET_SEND_RSP, ev_fd = fd, ev_err = 0, data_len = uint sz\<rparr>])"
    using i by (auto simp: xy_post_event_to_app_def f_def)
  have ev: "xy_async_socket_api_event t (Some fd) LWIP_EVENT_SENT sz err =
      (err, ?t', xy_post_event_to_app ?t' XY_SOCKET_SEND_RSP fd (uint sz) 0)"
    using valid by (auto simp: xy_async_socket_api_event_def Let_def f_def)
  show ?thesis
    unfolding ev post using m i by (auto simp: skt_proc_event_def f_def)
qed

lemma sent_event_counts_and_posts_witness:
  "snd (snd (xy_async_socket_api_event (skt_calls no_sockets [Create False False 3, Register 3 (Some 0x2710)])
      (Some 3) LWIP_EVENT_SENT 60 0)) = [\<lparr>ev_id = XY_SOCKET_SEND_RSP, ev_fd = 3, ev_err = 0, data_len = 60\<rparr>]"
proof -
  let ?cs = "[Create False False 3, Register 3 (Some 0x2710)]"
  have ok: "calls_ok no_sockets ?cs" by code_simp
  have inv: "tbl_inv (skt_calls no_sockets ?cs)" using skt_calls_refine [OF no_sockets_inv ok] by simp
  have here: "sock_of (skt_calls no_sockets ?cs) 3 = Some ((new_skt 3 0 AF_INET)\<lparr>event_callback := Some 0x2710\<rparr>)"
    by code_simp
  show ?thesis using sent_event_counts_and_posts [OF inv here, of 60 0] by (auto simp: new_skt_def)
qed

text \<open>an event that is in the queue when the application clears its callback makes the event
  thread call address NULL: skt_proc_thread reads the callback again and does not test it.\<close>

lemma cleared_callback_is_called:
  "let t = skt_calls no_sockets [Create False False 3, Register 3 (Some 0x2710)];
       (_, t', evs) = xy_async_socket_api_event t (Some 3) LWIP_EVENT_CONNECTED 0 0
   in length evs = 1 \<and> skt_proc_event t' (hd evs) = Inr (Some (0x2710, hd evs))
      \<and> skt_proc_event (skt_calls t' [Register 3 None]) (hd evs) = Inl BadAccess"
  by code_simp

section \<open>Interleavings\<close>

text \<open>two creations whose searches for a free entry both run before either stores its socket get
  the same entry: the entry of the first socket is lost, so no call finds that descriptor although
  both creations returned it.\<close>

lemma concurrent_create_loses_socket:
  assumes inv: "tbl_inv t" and room: "find_empty_socket_idx t = Some i"
    and fresh: "sock_of t fd1 = None" "sock_of t fd2 = None" and ne: "fd1 \<noteq> fd2"
  shows "sock_of (create_store (create_store t i fd1 ty1 d1) i fd2 ty2 d2) = (sock_of t)(fd2 \<mapsto> new_skt fd2 ty2 d2)
    \<and> fst (xy_socket_send (create_store (create_store t i fd1 ty1 d1) i fd2 ty2 d2) fd1 n) = SOCK_ERROR"
proof -
  have c: "create_store (create_store t i fd1 ty1 d1) i fd2 ty2 d2 = t[i := Some (new_skt fd2 ty2 d2)]"
    by (simp add: create_store_def new_skt_def)
  have m: "sock_of (t[i := Some (new_skt fd2 ty2 d2)]) = (sock_of t)(fd2 \<mapsto> new_skt fd2 ty2 d2)"
    using insert_table(2) [OF inv room, of "new_skt fd2 ty2 d2"] fresh(2) by (simp add: new_skt_def)
  then have "find_valid_socket_idx_by_fd (t[i := Some (new_skt fd2 ty2 d2)]) fd1 = None"
    using fresh(1) ne by (simp add: sock_of_None [symmetric])
  then show ?thesis unfolding c using m by (simp add: xy_socket_send_def)
qed

lemma concurrent_create_loses_socket_witness:
  "fst (xy_socket_send (create_store (create_store no_sockets 0 3 0 AF_INET) 0 4 0 AF_INET) 3 10) = SOCK_ERROR"
  using concurrent_create_loses_socket [OF no_sockets_inv no_sockets_room no_sockets_lookup no_sockets_lookup, where ?fd1.0 = 3
      and ?fd2.0 = 4 and n = 10 and ?ty1.0 = 0 and ?ty2.0 = 0 and ?d1.0 = AF_INET and ?d2.0 = AF_INET]
  by simp

text \<open>The stuck state: the poster waits for room in the queue while it holds the mutex that the event
  thread needs before it takes the next message.\<close>

definition post_stuck :: "sync_state \<Rightarrow> bool" where
  "post_stuck s \<longleftrightarrow> sync_prog Poster ! pcs s Poster = Put \<and> skt_thd_msg_q s = skt_queue_size
     \<and> xy_socket_mutux s = Some Poster \<and> sync_prog SktThd ! pcs s SktThd = Lock"

lemma post_stuck_step: "post_stuck s \<Longrightarrow> sync_step th s = s"
  by (cases th) (simp_all add: post_stuck_def sync_step_def sync_enabled_def)

text \<open>the event path can deadlock: after three events have been posted while the event thread
  has only taken the first, a fourth post holds the mutex, finds the queue full and waits for ever,
  and the event thread waits for the mutex; no further schedule of the two threads changes
  anything.\<close>

lemma event_path_deadlocks:
  "\<exists>sched. let s = fold sync_step sched sync_init
           in post_stuck s \<and> (\<forall>th. \<not> sync_enabled s th) \<and> (\<forall>more. fold sync_step more s = s)"
proof
  let ?sched = "replicate 7 Poster @ [SktThd] @ replicate 14 Poster @ replicate 5 Poster @ [SktThd]"
  have stuck: "post_stuck (fold sync_step ?sched sync_init)" by code_simp
  have "fold sync_step more s = s" if "post_stuck s" for more s
    using that by (induction more) (simp_all add: post_stuck_step)
  moreover have "\<not> sync_enabled s th" if "post_stuck s" for s th
    using that by (cases th) (simp_all add: post_stuck_def sync_enabled_def)
  ultimately show "let s = fold sync_step ?sched sync_init
           in post_stuck s \<and> (\<forall>th. \<not> sync_enabled s th) \<and> (\<forall>more. fold sync_step more s = s)"
    using stuck unfolding Let_def by blast
qed

end
