(* ===== verification/Dm.thy ===== *)
theory Dm
  imports Prelude
begin

text \<open>
  \<open>APPLIB/dm/xy_dm/src\<close>: registration of the terminal with the device management server of the
  operator.  The helpers and AT commands are from \<open>dm_ctl.c\<close>, the registration threads from
  \<open>telecom_dm.c\<close> and \<open>unicom_dm.c\<close>.  What the SIM, the sockets and the flash return during one
  attempt is an argument; what a thread does to the rest of the system is a list of actions.  A C
  buffer is the list of its bytes, and reading a string that is not terminated in it, or writing
  past it, is \<open>BadAccess\<close>.
\<close>

section \<open>Strings\<close>

definition cstr :: "u8 list \<Rightarrow> u8 list res" where
  "cstr buf = (if 0 \<in> set buf then Inr (takeWhile (\<lambda>b. b \<noteq> 0) buf) else Inl BadAccess)"

definition str :: "string \<Rightarrow> u8 list" where
  "str s = map of_char s"

text \<open>\<open>strncmp(a, b, n) == 0\<close> and \<open>strncpy\<close>; \<open>b\<close> is a buffer, \<open>a\<close> a string without its terminator.\<close>

fun strncmp_eq :: "u8 list \<Rightarrow> u8 list \<Rightarrow> nat \<Rightarrow> bool" where
  "strncmp_eq a b 0 \<longleftrightarrow> True"
| "strncmp_eq [] b (Suc n) \<longleftrightarrow> (case b of [] \<Rightarrow> True | y # _ \<Rightarrow> y = 0)"
| "strncmp_eq (x # a) b (Suc n) \<longleftrightarrow> (case b of [] \<Rightarrow> False | y # b \<Rightarrow> x = y \<and> strncmp_eq a b n)"

definition strncpy :: "u8 list \<Rightarrow> u8 list \<Rightarrow> nat \<Rightarrow> u8 list" where
  "strncpy dst src n = take n (src @ replicate n 0) @ drop n dst"

definition MAX_FINDSTR_SIZE :: nat where "MAX_FINDSTR_SIZE = 30"

text \<open>
  \<open>findstr\<close>: at every position of the string in \<open>s_str\<close>, \<open>length\<close> bytes are copied, also those
  behind its end, and compared as a string.
\<close>

fun findstr_from :: "u8 list \<Rightarrow> nat \<Rightarrow> u8 list \<Rightarrow> int res" where
  "findstr_from s_str 0 d_str = Inr 0"
| "findstr_from s_str (Suc n) d_str =
     (let temp = take (length d_str) s_str
      in if length s_str < length d_str then Inl BadAccess
         else if takeWhile (\<lambda>b. b \<noteq> 0) temp = d_str then Inr 1
         else findstr_from (tl s_str) n d_str)"

definition findstr :: "u8 list \<Rightarrow> u8 list \<Rightarrow> int res" where
  "findstr s_str d_str =
     (if MAX_FINDSTR_SIZE \<le> length d_str then Inr 0
      else bind_res (cstr s_str) (\<lambda>s. findstr_from s_str (length s) d_str))"

section \<open>base64\<close>

definition base64char :: "u8 list" where
  "base64char = str ''ABCDEFGHIJKLMNOPQRSTUVWXYZabcdefghijklmnopqrstuvwxyz0123456789+/''"

definition b64 :: "u8 \<Rightarrow> u8" where
  "b64 current = base64char ! unat current"

fun base64_encode :: "u8 list \<Rightarrow> u8 list" where
  "base64_encode [] = []"
| "base64_encode [a] =
     [b64 (drop_bit 2 a AND 0x3F), b64 (push_bit 4 a AND 0x30), 0x3D, 0x3D]"
| "base64_encode [a, b] =
     [b64 (drop_bit 2 a AND 0x3F), b64 ((push_bit 4 a AND 0x30) OR (drop_bit 4 b AND 0x0F)),
      b64 (push_bit 2 b AND 0x3C), 0x3D]"
| "base64_encode (a # b # c # rest) =
     [b64 (drop_bit 2 a AND 0x3F), b64 ((push_bit 4 a AND 0x30) OR (drop_bit 4 b AND 0x0F)),
      b64 ((push_bit 2 b AND 0x3C) OR (drop_bit 6 c AND 0x03)), b64 (c AND 0x3F)]
     @ base64_encode rest"

section \<open>Configuration\<close>

record dm_fac =
  need_start_dm :: u8
  dm_inteval_time :: u32
  dm_app_key :: "u8 list"
  dm_app_pwd :: "u8 list"
  dm_serv_flag :: u8
  dm_retry_num :: u8
  dm_retry_time :: u16
  dm_reg_time :: u32
  regver :: u8
  fac_modul_ver :: "u8 list"
  versionExt :: "u8 list"

datatype at_type = AtReq | AtQuery | AtOther
datatype dm_rsp = DmOk | DmErr | DmText "u8 list"

text \<open>
  The arguments of a request are what the parser scanned, \<open>None\<close> when it failed.  The check of the
  interval can never hold.
\<close>

definition at_XYDMP_req ::
    "dm_fac \<Rightarrow> at_type \<Rightarrow> (int \<times> int \<times> u8 list \<times> u8 list \<times> int) option \<Rightarrow> (dm_rsp \<times> dm_fac) res" where
  "at_XYDMP_req fac g_req_type args =
     (case g_req_type of
        AtReq \<Rightarrow>
          (case args of
             None \<Rightarrow> Inr (DmErr, fac)
           | Some (mode, interval, key, pwd, test) \<Rightarrow>
               if interval \<le> 0 \<and> interval > 1440 then Inr (DmErr, fac)
               else if mode \<noteq> 0 \<and> mode \<noteq> 1 then Inr (DmErr, fac)
               else if test \<noteq> 0 \<and> test \<noteq> 1 then Inr (DmErr, fac)
               else if mode = 0 then Inr (DmOk, fac\<lparr>need_start_dm := 0\<rparr>)
               else Inr (DmOk, fac\<lparr>need_start_dm := 1, dm_inteval_time := of_int interval,
                             dm_app_key := key, dm_app_pwd := pwd, dm_serv_flag := of_int test\<rparr>))
      | AtQuery \<Rightarrow>
          bind_res (cstr (dm_app_key fac)) (\<lambda>key. bind_res (cstr (dm_app_pwd fac)) (\<lambda>pwd.
            Inr (DmText (take 99 ([13, 10] @ str ''+XYDMP:'' @ dec_digits (unat (need_start_dm fac)) @ str '','' @
                   dec_digits (unat (dm_inteval_time fac)) @ str '','' @ key @ str '','' @ pwd @ str '','' @
                   dec_digits (unat (dm_serv_flag fac)) @ [13, 10, 13, 10] @ str ''OK'' @ [13, 10])), fac)))
      | AtOther \<Rightarrow> Inr (DmErr, fac))"

text \<open>The flag tells whether \<open>SAVE_FAC_PARAM\<close> was called.\<close>

definition at_QSREGENABLE_req :: "dm_fac \<Rightarrow> at_type \<Rightarrow> int option \<Rightarrow> dm_rsp \<times> dm_fac \<times> bool" where
  "at_QSREGENABLE_req fac g_req_type arg =
     (case g_req_type of
        AtReq \<Rightarrow>
          (case arg of
             None \<Rightarrow> (DmErr, fac, False)
           | Some type \<Rightarrow>
               if 0 \<le> type \<and> type < 2 then (DmOk, fac\<lparr>need_start_dm := of_int type\<rparr>, True)
               else (DmErr, fac, False))
      | AtQuery \<Rightarrow>
          (DmText (take 29 ([13, 10] @ str ''+QSREGENABLE:'' @ dec_digits (unat (need_start_dm fac)) @
             [13, 10, 13, 10] @ str ''OK'' @ [13, 10])), fac, False)
      | AtOther \<Rightarrow> (DmErr, fac, False))"

text \<open>Which registration a network coming up starts.\<close>

datatype sim_card_type = UICC_UNKNOWN | UICC_TELECOM | UICC_MOBILE | UICC_UNICOM
datatype dm_start = TelecomDm | CmccDm | UnicomDm | NoDm

definition dm_netif_event_callback :: "bool \<Rightarrow> sim_card_type \<Rightarrow> dm_start" where
  "dm_netif_event_callback event_up g_uicc_type =
     (if event_up then
        (case g_uicc_type of
           UICC_TELECOM \<Rightarrow> TelecomDm
         | UICC_MOBILE \<Rightarrow> CmccDm
         | UICC_UNICOM \<Rightarrow> UnicomDm
         | UICC_UNKNOWN \<Rightarrow> NoDm)
      else NoDm)"

definition dm_ctl_init :: "dm_fac \<Rightarrow> bool" where
  "dm_ctl_init fac \<longleftrightarrow> need_start_dm fac = 1"

section \<open>The registration packet\<close>

definition FormJson :: "u8 list \<Rightarrow> u8 \<Rightarrow> u8 list \<Rightarrow> u8 list \<Rightarrow> u8 list \<Rightarrow> u8 list \<Rightarrow> u8 list \<Rightarrow> u8 list" where
  "FormJson model_key ver immeid model ext iccid imsi =
     str ''{\"REGVER\":\"'' @ dec_digits (unat ver) @ str ''\",'' @
     str ''\"MEID\":\"'' @ immeid @ str ''\",'' @
     str ''\"'' @ model_key @ str ''\":\"'' @ model @ str ''\",'' @
     str ''\"SWVER\":\"'' @ ext @ str ''\",'' @
     str ''\"SIM1ICCID\":\"'' @ iccid @ str ''\",'' @
     str ''\"SIM1LTEIMSI\":\"'' @ imsi @ str ''\"}''"

text \<open>Every dash of the model name but the first becomes a blank.\<close>

fun dm_dashes :: "bool \<Rightarrow> u8 list \<Rightarrow> u8 list" where
  "dm_dashes flag [] = []"
| "dm_dashes flag (c # cs) =
     (if c = 0x2D \<and> \<not> flag then c # dm_dashes True cs
      else (if c = 0x2D then 0x20 else c) # dm_dashes flag cs)"

definition dm_model_name :: "u8 list \<Rightarrow> u8 list res" where
  "dm_model_name fac_ver =
     (if 21 < length fac_ver then Inl BadAccess
      else let buf = fac_ver @ replicate (21 - length fac_ver) 0
           in cstr (dm_dashes False (take 20 buf) @ drop 20 buf))"

definition requestbuf_len :: nat where "requestbuf_len = 512"
definition base64_len :: nat where "base64_len = 384"

definition crlf :: "u8 list" where "crlf = [13, 10]"

definition telecom_header :: "nat \<Rightarrow> u8 list" where
  "telecom_header len =
     str ''POST / HTTP/1.1'' @ crlf @ str ''X-forwarded-for:117.61.5.70'' @ crlf @
     str ''Content-type:application/encrypted-json'' @ crlf @
     str ''Content-length:'' @ dec_digits len @ crlf @
     str ''Host:zzhc.vnet.cn:9999'' @ crlf @ crlf"

definition unicom_header :: "nat \<Rightarrow> u8 list" where
  "unicom_header len =
     str ''POST / HTTP/1.1'' @ crlf @
     str ''Content-type:application/encrypted-json'' @ crlf @
     str ''Content-length:'' @ dec_digits len @ crlf @
     str ''Host:114.255.193.236:9999'' @ crlf @ crlf"

text \<open>
  \<open>requestbuf\<close> after the packet was built: the JSON text is built in it, encoded into a buffer of
  384 bytes, and the header and the code are written to it; \<open>sprintf\<close> and \<open>base64_encode\<close> also
  store the terminator.
\<close>

definition dm_make_packet :: "(nat \<Rightarrow> u8 list) \<Rightarrow> u8 list \<Rightarrow> u8 list res" where
  "dm_make_packet header json =
     (if requestbuf_len < length json + 1 then Inl BadAccess
      else
        let code = base64_encode json; hd = header (length code)
        in if base64_len < length code + 1 \<or> requestbuf_len < length hd + max 1 (length code) then Inl BadAccess
           else Inr (hd @ code @ replicate (requestbuf_len - length hd - length code) 0))"

section \<open>One exchange with the server\<close>

text \<open>
  The results of the socket calls of one attempt; a receive that returns \<open>n > 0\<close> comes with
  \<open>n\<close> bytes.  \<open>stale_rc\<close> is the content of the uninitialised \<open>rc\<close> of \<open>unicom_dm.c\<close>.
\<close>

record dm_net =
  dns_rc :: int
  sock_fd :: int
  connect_rc :: int
  send_rc :: int
  recv1 :: "int \<times> u8 list"
  recv2 :: "int \<times> u8 list"
  stale_rc :: int

text \<open>
  The second receive goes to \<open>requestbuf + n\<close>, also when \<open>n\<close> is negative.  The result has what was
  sent beside the return value.
\<close>

definition handle_connection :: "dm_net \<Rightarrow> u8 list \<Rightarrow> (int \<times> u8 list) res" where
  "handle_connection net requestbuf =
     bind_res (cstr requestbuf) (\<lambda>sent.
       if send_rc net < 0 then Inr (-1, sent)
       else
         let (n, d1) = recv1 net; (_, d2) = recv2 net;
             buf = blit (replicate requestbuf_len 0) 0 d1
         in bind_res
              (if n = 0 then Inr buf
               else if n < 512 then
                 (if n < 0 \<and> d2 \<noteq> [] then Inl BadAccess
                  else let buf = (if n < 0 then buf else blit buf (nat n) d2)
                       in bind_res (cstr buf) (\<lambda>_. Inr buf))
               else Inr buf)
              (\<lambda>buf. bind_res (findstr buf (str ''Success'')) (\<lambda>found.
                 Inr (if 0 < found then 0 else 1, sent))))"

definition telecom_socket_client :: "dm_net \<Rightarrow> u8 list \<Rightarrow> (int \<times> u8 list list) res" where
  "telecom_socket_client net requestbuf =
     (if sock_fd net < 0 then Inr (dns_rc net, [])
      else if connect_rc net = 0
        then bind_res (handle_connection net requestbuf) (\<lambda>(r, sent). Inr (r, [sent]))
      else Inr (connect_rc net, []))"

definition unicom_socket_client :: "dm_net \<Rightarrow> u8 list \<Rightarrow> (int \<times> u8 list list) res" where
  "unicom_socket_client net requestbuf =
     (if sock_fd net < 0 then Inr (stale_rc net, [])
      else if connect_rc net = 0
        then bind_res (handle_connection net requestbuf) (\<lambda>(r, sent). Inr (r, [sent]))
      else Inr (connect_rc net, []))"

section \<open>The registration threads\<close>

record dm_var =
  have_retry_num :: u8
  ue_iccid :: "u8 list"
  last_reg_time :: u32

text \<open>What one round of the loop finds; \<open>meid\<close> and \<open>imsi\<close> are strings without terminator.\<close>

record dm_try =
  netif_ok :: bool
  meid :: "u8 list"
  imsi :: "u8 list"
  pri_dns :: u32
  sec_dns :: u32
  net :: dm_net
  ftl_ok :: bool

datatype dm_act =
    WorkLock | WorkUnlock | SetDnsServer nat u32 | Sent "u8 list" | RetryTimer nat
  | OverdueTimer u32 | DeleteOverdue | SaveVolatileNv | SendDmSuccess

datatype dm_result = DmOut | DmRegistered | DmFailed

text \<open>\<open>DmWaiting\<close>: the thread waits for the retry timer; \<open>DmExit\<close>: it has ended.\<close>

datatype dm_end = DmWaiting | DmExit

definition imsi_invalid :: "u8 list \<Rightarrow> bool" where
  "imsi_invalid s \<longleftrightarrow> s = []
     \<or> (take 2 s = [0x30, 0x30] \<and> 2 < length s \<and> (s ! 2 = 0x31 \<or> s ! 2 = 0x32))"

definition default_dns :: "dm_try \<Rightarrow> dm_act list" where
  "default_dns e =
     (if pri_dns e = 0 \<and> sec_dns e = 0
      then [SetDnsServer 0 0x020202DA, SetDnsServer 1 0x040404DA] else [])"

definition telecom_attempt :: "dm_fac \<Rightarrow> u8 list \<Rightarrow> dm_try \<Rightarrow> (dm_result \<times> dm_act list) res" where
  "telecom_attempt fac nccid e =
     bind_res (dm_model_name (fac_modul_ver fac)) (\<lambda>model.
       if meid e = [] then Inr (DmOut, [])
       else if imsi_invalid (imsi e) then Inr (DmOut, [])
       else bind_res (dm_make_packet telecom_header
                (FormJson (str ''MODEL'') (regver fac) (meid e) model (versionExt fac) nccid (imsi e)))
              (\<lambda>packet. bind_res (telecom_socket_client (net e) packet) (\<lambda>(r, sent).
                 Inr (if r = 0 then DmRegistered else DmFailed, default_dns e @ map Sent sent))))"

text \<open>\<open>FIRST_POWERON\<close> enters the loop behind the wait and the test of the network.\<close>

fun telecom_loop ::
    "dm_fac \<Rightarrow> u8 list \<Rightarrow> bool \<Rightarrow> dm_var \<Rightarrow> dm_try list \<Rightarrow> (dm_end \<times> dm_var \<times> dm_act list) res" where
  "telecom_loop fac nccid first var [] = Inr (DmWaiting, var, [])"
| "telecom_loop fac nccid first var (e # es) =
     (if \<not> first \<and> \<not> netif_ok e then Inr (DmExit, var, [])
      else bind_res (telecom_attempt fac nccid e) (\<lambda>(r, acts).
        (case r of
           DmOut \<Rightarrow> Inr (DmExit, var, acts)
         | DmRegistered \<Rightarrow>
             if ftl_ok e then
               Inr (DmExit, var\<lparr>ue_iccid := strncpy (ue_iccid var) nccid 20\<rparr>, acts @ [SaveVolatileNv, SendDmSuccess])
             else Inl AssertFail
         | DmFailed \<Rightarrow>
             let var = var\<lparr>have_retry_num := have_retry_num var + 1\<rparr>
             in if have_retry_num var < dm_retry_num fac then
                  bind_res (telecom_loop fac nccid False var es) (\<lambda>(st, var, more).
                    Inr (st, var, acts @ RetryTimer (unat (dm_retry_time fac) * 1000) # more))
                else Inr (DmExit, var, acts))))"

definition telecom_need_start_dm :: "u8 list \<Rightarrow> dm_var \<Rightarrow> u8 list option" where
  "telecom_need_start_dm nccid var = (if strncmp_eq nccid (ue_iccid var) 20 then None else Some nccid)"

text \<open>
  \<open>hold\<close>: powered on and an operator version, so that the thread keeps the system awake.  At the
  end of the thread its resources are freed.
\<close>

definition telecom_dm_run ::
    "bool \<Rightarrow> dm_fac \<Rightarrow> u8 list \<Rightarrow> dm_var \<Rightarrow> dm_try list \<Rightarrow> (dm_end \<times> dm_var \<times> dm_act list) res" where
  "telecom_dm_run hold fac nccid var es =
     (let lock = (if hold then [WorkLock] else []); unlock = (if hold then [WorkUnlock] else [])
      in case telecom_need_start_dm nccid var of
           None \<Rightarrow> Inr (DmExit, var, lock @ unlock)
         | Some nccid \<Rightarrow>
             bind_res (telecom_loop fac nccid True (var\<lparr>have_retry_num := 0\<rparr>) es) (\<lambda>(st, var, acts).
               Inr (st, var, lock @ acts @ (if st = DmExit then unlock else []))))"

text \<open>\<open>telecom_dm_init\<close> starts the thread unless it runs.\<close>

definition telecom_dm_init :: "bool \<Rightarrow> bool" where
  "telecom_dm_init running \<longleftrightarrow> \<not> running"

section \<open>China Unicom\<close>

record unicom_state =
  unicom_timer_flag :: bool
  dm_timer_overdue :: bool
  current_time :: u32

definition dm_register_overdue_proc :: "unicom_state \<Rightarrow> unicom_state" where
  "dm_register_overdue_proc st = st\<lparr>unicom_timer_flag := True\<rparr>"

definition unicom_is_start_dm ::
    "bool \<Rightarrow> dm_fac \<Rightarrow> u8 list \<Rightarrow> u32 \<Rightarrow> dm_var \<Rightarrow> unicom_state \<Rightarrow> u8 list option \<times> unicom_state \<times> dm_act list" where
  "unicom_is_start_dm hold fac nccid now var st =
     (let st = st\<lparr>current_time := now\<rparr>
      in if \<not> strncmp_eq nccid (ue_iccid var) 20 \<or> unicom_timer_flag st
            \<or> dm_reg_time fac < current_time st - last_reg_time var
         then (Some nccid, st, [])
         else (None, st\<lparr>dm_timer_overdue := True\<rparr>,
           (if dm_timer_overdue st then [DeleteOverdue] else []) @ [OverdueTimer (dm_reg_time fac * 1000)] @
           (if hold \<and> \<not> unicom_timer_flag st then [WorkLock] else [])))"

definition unicom_attempt :: "dm_fac \<Rightarrow> u8 list \<Rightarrow> dm_try \<Rightarrow> (dm_result \<times> dm_act list) res" where
  "unicom_attempt fac nccid e =
     bind_res (dm_model_name (fac_modul_ver fac)) (\<lambda>model.
       if meid e = [] then Inr (DmOut, [])
       else if imsi_invalid (imsi e) then Inr (DmOut, [])
       else bind_res (dm_make_packet unicom_header
                (FormJson (str ''MODELSMS'') (regver fac) (meid e) model (versionExt fac) nccid (imsi e)))
              (\<lambda>packet. bind_res (unicom_socket_client (net e) packet) (\<lambda>(r, sent).
                 Inr (if r = 0 then DmRegistered else DmFailed, map Sent sent))))"

fun unicom_loop ::
    "dm_fac \<Rightarrow> u8 list \<Rightarrow> bool \<Rightarrow> dm_var \<Rightarrow> unicom_state \<Rightarrow> dm_try list
     \<Rightarrow> (dm_end \<times> dm_var \<times> unicom_state \<times> dm_act list) res" where
  "unicom_loop fac nccid first var st [] = Inr (DmWaiting, var, st, [])"
| "unicom_loop fac nccid first var st (e # es) =
     (if \<not> first \<and> \<not> netif_ok e then Inr (DmExit, var, st, [])
      else bind_res (unicom_attempt fac nccid e) (\<lambda>(r, acts).
        (case r of
           DmOut \<Rightarrow> Inr (DmExit, var, st, acts)
         | DmRegistered \<Rightarrow>
             if ftl_ok e then
               Inr (DmExit, var\<lparr>ue_iccid := strncpy (ue_iccid var) nccid 20, last_reg_time := current_time st\<rparr>,
                    st\<lparr>dm_timer_overdue := True, unicom_timer_flag := False\<rparr>,
                    acts @ [OverdueTimer (dm_reg_time fac * 1000), SaveVolatileNv, SendDmSuccess])
             else Inl AssertFail
         | DmFailed \<Rightarrow>
             let var = var\<lparr>have_retry_num := have_retry_num var + 1\<rparr>
             in if have_retry_num var < dm_retry_num fac then
                  bind_res (unicom_loop fac nccid False var st es) (\<lambda>(ex, var, st, more).
                    Inr (ex, var, st, acts @ RetryTimer (unat (dm_retry_time fac) * 1000) # more))
                else Inr (DmExit, var, st, acts))))"

definition unicom_dm_run ::
    "bool \<Rightarrow> dm_fac \<Rightarrow> u8 list \<Rightarrow> u32 \<Rightarrow> dm_var \<Rightarrow> unicom_state \<Rightarrow> dm_try list
     \<Rightarrow> (dm_end \<times> dm_var \<times> unicom_state \<times> dm_act list) res" where
  "unicom_dm_run hold fac nccid now var st es =
     (let lock = (if hold \<and> \<not> unicom_timer_flag st then [WorkLock] else []);
          unlock = (\<lambda>st. if hold \<and> \<not> unicom_timer_flag st then [WorkUnlock] else [])
      in case unicom_is_start_dm hold fac nccid now var st of
           (None, st, acts) \<Rightarrow> Inr (DmExit, var, st, lock @ acts @ unlock st)
         | (Some nccid, st, acts) \<Rightarrow>
             let del = (if dm_timer_overdue st then [DeleteOverdue] else []);
                 st = st\<lparr>dm_timer_overdue := False\<rparr>
             in bind_res (unicom_loop fac nccid True (var\<lparr>have_retry_num := 0\<rparr>) st es) (\<lambda>(ex, var, st, more).
               Inr (ex, var, st, lock @ acts @ del @ more @ (if ex = DmExit then unlock st else []))))"

end
