(* ===== verification/DmSpec.thy ===== *)
theory DmSpec
  imports Dm "HOL-Library.Sublist"
begin

text \<open>
  A reference decoder for base64 and the lemmas on strings, packets and the registration loops.
\<close>

section \<open>base64\<close>

text \<open>RFC 4648, read from the characters back to the octets.\<close>

definition b64_val :: "u8 \<Rightarrow> u8" where
  "b64_val c =
     (if 0x41 \<le> c \<and> c \<le> 0x5A then c - 0x41
      else if 0x61 \<le> c \<and> c \<le> 0x7A then c - 0x47
      else if 0x30 \<le> c \<and> c \<le> 0x39 then c + 4
      else if c = 0x2B then 62 else 63)"

fun base64_decode :: "u8 list \<Rightarrow> u8 list" where
  "base64_decode (a # b # c # d # rest) =
     (let x = b64_val a; y = b64_val b; z = b64_val c; w = b64_val d;
          o1 = push_bit 2 x OR drop_bit 4 y; o2 = push_bit 4 y OR drop_bit 2 z; o3 = push_bit 6 z OR w
      in if c = 0x3D then [o1] else if d = 0x3D then [o1, o2] else o1 # o2 # o3 # base64_decode rest)"
| "base64_decode _ = []"

lemma base64char_eq: "base64char = map of_nat ([65..<91] @ [97..<123] @ [48..<58] @ [43, 47])"
  by (simp add: base64char_def str_def upt_conv_Cons)

lemma b64_map: "map b64_val base64char = map of_nat [0..<64] \<and> 0x3D \<notin> set base64char \<and> 0 \<notin> set base64char"
  by (simp add: base64char_eq b64_val_def upt_conv_Cons)

lemma b64_sound:
  assumes "unat x < 64"
  shows "b64_val (b64 x) = x" "b64 x \<noteq> 0x3D" "b64 x \<noteq> 0"
proof -
  have len: "length base64char = 64" by (simp add: base64char_eq)
  then have "b64 x \<in> set base64char" using assms by (simp add: b64_def)
  then show "b64 x \<noteq> 0x3D" "b64 x \<noteq> 0" using b64_map by auto
  have "map b64_val base64char ! unat x = map of_nat [0..<64] ! unat x" using b64_map by simp
  then show "b64_val (b64 x) = x" using assms len by (simp add: b64_def)
qed
lemma b64_masks: "(0x3F :: u8) = mask 6" "(0x30 :: u8) = push_bit 4 (mask 2)" "(0x0F :: u8) = mask 4"
    "(0x3C :: u8) = push_bit 2 (mask 4)" "(3 :: u8) = mask 2"
  by (simp_all add: mask_eq_exp_minus_1 push_bit_eq_mult)

lemma sextetI: "x AND mask 6 = x \<Longrightarrow> unat (x :: u8) < 64"
  using word_and_le1 [of x "mask 6"] by (simp add: word_le_nat_alt mask_eq_exp_minus_1)

lemma sextets:
  fixes a b c :: u8
  shows "unat (drop_bit 2 a AND 0x3F) < 64" "unat (push_bit 4 a AND 0x30) < 64"
    "unat ((push_bit 4 a AND 0x30) OR (drop_bit 4 b AND 0x0F)) < 64" "unat (push_bit 2 b AND 0x3C) < 64"
    "unat ((push_bit 2 b AND 0x3C) OR (drop_bit 6 c AND 3)) < 64" "unat (c AND 0x3F) < 64"
  unfolding b64_masks by (rule sextetI, rule bit_word_eqI, auto simp: bit_simps)+

lemma octet_eqI:
  assumes "\<And>n. n \<in> set [0..<8] \<Longrightarrow> bit a n = bit b n"
  shows "(a :: u8) = b"
  by (rule bit_word_eqI) (simp add: assms)

lemma octets:
  fixes a b c y z :: u8
  shows "push_bit 2 (drop_bit 2 a AND 0x3F) OR drop_bit 4 ((push_bit 4 a AND 0x30) OR (drop_bit 4 b AND 0x0F)) = a"
    "push_bit 2 (drop_bit 2 a AND 0x3F) OR drop_bit 4 (push_bit 4 a AND 0x30) = a"
    "push_bit 4 ((push_bit 4 a AND 0x30) OR (drop_bit 4 b AND 0x0F)) OR drop_bit 2 ((push_bit 2 b AND 0x3C) OR (drop_bit 6 c AND 3)) = b"
    "push_bit 4 ((push_bit 4 a AND 0x30) OR (drop_bit 4 b AND 0x0F)) OR drop_bit 2 (push_bit 2 b AND 0x3C) = b"
    "push_bit 6 ((push_bit 2 b AND 0x3C) OR (drop_bit 6 c AND 3)) OR (c AND 0x3F) = c"
  unfolding b64_masks
  by (rule octet_eqI; (auto simp: bit_simps upt_conv_Cons); simp add: eval_nat_numeral)+

lemmas b64_sextets = sextets [THEN b64_sound(1)] sextets [THEN b64_sound(2)]

lemma base64_decode_encode: "base64_decode (base64_encode d) = d"
  by (induction d rule: base64_encode.induct)
    (simp_all only: base64_encode.simps base64_decode.simps append.simps Let_def b64_sextets octets
      simp_thms if_False if_True)

lemma base64_nonzero: "0 \<notin> set (base64_encode d)"
  by (induction d rule: base64_encode.induct)
    (auto simp only: base64_encode.simps list.set set_append Un_iff insert_iff empty_iff
      sextets [THEN b64_sound(3), symmetric] simp_thms, simp_all)

lemma length_base64: "length (base64_encode d) = 4 * ((length d + 2) div 3)"
proof (induction d rule: base64_encode.induct)
  case (4 a b c rest)
  have "(length (a # b # c # rest) + 2) div 3 = Suc ((length rest + 2) div 3)" by simp
  then show ?case using 4 by simp
qed simp_all

section \<open>Strings in buffers\<close>

lemma cstr_terminated [simp]: "0 \<notin> set s \<Longrightarrow> 0 < n \<Longrightarrow> cstr (s @ replicate n 0) = Inr s"
  by (auto simp: cstr_def takeWhile_append)

lemma cstr_Inr: "cstr buf = Inr s \<Longrightarrow> \<exists>rest. buf = s @ 0 # rest \<and> 0 \<notin> set s"
proof -
  assume a: "cstr buf = Inr s"
  then have z: "0 \<in> set buf" and s: "s = takeWhile (\<lambda>b. b \<noteq> 0) buf" by (auto simp: cstr_def split: if_splits)
  have "dropWhile (\<lambda>b. b \<noteq> 0) buf \<noteq> []" using z by (simp add: dropWhile_eq_Nil_conv)
  then obtain y rest where d: "dropWhile (\<lambda>b. b \<noteq> 0) buf = y # rest" by (cases "dropWhile (\<lambda>b. b \<noteq> 0) buf") auto
  then have "y = 0" using hd_dropWhile [of "\<lambda>b. b \<noteq> 0" buf] by simp
  moreover have "buf = s @ y # rest" using takeWhile_dropWhile_id [of "\<lambda>b. b \<noteq> 0" buf] d s by simp
  moreover have "0 \<notin> set s" unfolding s by (auto dest: set_takeWhileD)
  ultimately show ?thesis by blast
qed

lemma length_dec_digits: "n < 1000 \<Longrightarrow> length (dec_digits n) \<le> 3"
  using length_dec_digits_le [of n 3] by simp

lemma dec_digits_nonzero: "0 \<notin> set (dec_digits n)"
proof (induction n rule: dec_digits.induct)
  case (1 n)
  have nz: "(of_nat (48 + k) :: u8) \<noteq> 0" if "k < 10" for k
    using that by (auto simp: word_of_nat_eq_0_iff simp del: of_nat_add dest: dvd_imp_le)
  show ?case
    using 1 nz [of n] nz [of "n mod 10"] by (subst dec_digits.simps) auto
qed

lemma strncmp_strncpy:
  "0 \<notin> set s \<Longrightarrow> length s \<le> n \<Longrightarrow> strncmp_eq s (strncpy dst s n) n"
proof -
  have "strncmp_eq s (s @ replicate (n - length s) 0 @ r) n" if "0 \<notin> set s" "length s \<le> n" for r
    using that
  proof (induction s arbitrary: n)
    case Nil
    then show ?case by (cases n) simp_all
  next
    case (Cons x s)
    then show ?case by (cases n) simp_all
  qed
  moreover assume "0 \<notin> set s" "length s \<le> n"
  ultimately show ?thesis by (simp add: strncpy_def)
qed

section \<open>Searching\<close>

lemma prefix_take: "prefix d xs \<longleftrightarrow> take (length d) xs = d"
  by (metis append_eq_conv_conj append_take_drop_id prefix_def)

lemma prefix_string:
  assumes "0 \<notin> set s"
  shows "takeWhile (\<lambda>b. b \<noteq> 0) (take (length d) (s @ 0 # r)) = d \<longleftrightarrow> 0 \<notin> set d \<and> prefix d s"
proof (cases "length d \<le> length s")
  case True
  have "takeWhile (\<lambda>b. b \<noteq> 0) (take (length d) s) = take (length d) s"
    by (rule takeWhile_eq_all_conv [THEN iffD2]) (use assms in_set_takeD in fastforce)
  moreover have "0 \<notin> set (take (length d) s)" using assms in_set_takeD by fastforce
  moreover have "take (length d) (s @ 0 # r) = take (length d) s" using True by simp
  ultimately show ?thesis by (simp only: prefix_take) metis
next
  case False
  then obtain k where "length d - length s = Suc k" by (metis Suc_diff_le diff_Suc_Suc not_less_eq_eq)
  then have "take (length d) (s @ 0 # r) = s @ 0 # take k r" using False by simp
  moreover have "takeWhile (\<lambda>b. b \<noteq> 0) (s @ 0 # take k r) = s"
    using assms by (auto simp: takeWhile_append takeWhile_eq_all_conv)
  ultimately show ?thesis using False assms prefix_length_le by fastforce
qed

lemma findstr_from_correct:
  assumes "0 \<notin> set s" "0 \<notin> set d" "d \<noteq> []" "length d \<le> Suc (length r)"
  shows "findstr_from (s @ 0 # r) (length s) d = Inr (if sublist d s then 1 else 0)"
  using assms(1)
proof (induction s)
  case Nil
  then show ?case using assms by simp
next
  case (Cons x s)
  then show ?case
    using prefix_string [of "x # s" d r] assms(2,4) by (simp add: Let_def sublist_Cons_right)
qed

lemma findstr_correct:
  assumes "cstr buf = Inr s" "0 \<notin> set d" "d \<noteq> []" "length d < 30" "length s + length d \<le> length buf"
  shows "findstr buf d = Inr (if sublist d s then 1 else 0)"
proof -
  obtain r where r: "buf = s @ 0 # r" "0 \<notin> set s" using cstr_Inr [OF assms(1)] by blast
  then show ?thesis
    using findstr_from_correct [OF r(2) assms(2,3)] assms by (simp add: findstr_def MAX_FINDSTR_SIZE_def)
qed

section \<open>Packets\<close>

lemma length_str [simp]: "length (str s) = length s"
  by (simp add: str_def)

definition string_le :: "nat \<Rightarrow> u8 list \<Rightarrow> bool" where
  "string_le n s \<longleftrightarrow> length s \<le> n \<and> 0 \<notin> set s"

text \<open>The fields as the configuration and the SIM hold them: with room for a terminator.\<close>

definition dm_fields_ok :: "dm_fac \<Rightarrow> u8 list \<Rightarrow> u8 list \<Rightarrow> u8 list \<Rightarrow> bool" where
  "dm_fields_ok fac iccid me im \<longleftrightarrow> string_le 19 (fac_modul_ver fac) \<and> string_le 27 (versionExt fac)
     \<and> string_le 20 iccid \<and> string_le 15 me \<and> string_le 15 im"

lemma dashes_length [simp]: "length (dm_dashes f s) = length s"
  by (induction f s rule: dm_dashes.induct) auto

lemma dashes_nonzero: "0 \<in> set (dm_dashes f s) \<longleftrightarrow> 0 \<in> set s"
  by (induction f s rule: dm_dashes.induct) auto

lemma dashes_append:
  "dm_dashes f (a @ b) = dm_dashes f a @ dm_dashes (f \<or> 0x2D \<in> set a) b"
  by (induction f a rule: dm_dashes.induct) auto

lemma dashes_zeros: "dm_dashes f (replicate n 0) = replicate n 0"
  by (induction n arbitrary: f) auto

lemma model_name_ok:
  assumes "string_le 19 s"
  shows "dm_model_name s = Inr (dm_dashes False s)" "string_le 19 (dm_dashes False s)"
proof -
  have s: "length s \<le> 19" "0 \<notin> set s" using assms by (auto simp: string_le_def)
  let ?b = "s @ replicate (21 - length s) 0"
  have t: "take 20 ?b = s @ replicate (20 - length s) 0" using s(1) by simp
  have d: "drop 20 ?b = [0]" using s(1) by (simp add: Suc_diff_le numeral_2_eq_2)
  have "dm_dashes False (take 20 ?b) @ drop 20 ?b = dm_dashes False s @ replicate (20 - length s) 0 @ [0]"
    unfolding t d by (simp add: dashes_append dashes_zeros)
  also have "\<dots> = dm_dashes False s @ replicate (Suc (20 - length s)) 0"
    by (simp only: replicate_Suc replicate_append_same)
  finally show "dm_model_name s = Inr (dm_dashes False s)"
    using s by (simp add: dm_model_name_def dashes_nonzero del: replicate_Suc take_append drop_append)
  show "string_le 19 (dm_dashes False s)" using assms by (simp add: string_le_def dashes_nonzero)
qed

text \<open>The largest JSON text and header fit their buffers.\<close>

lemma json_length:
  assumes "dm_fields_ok fac iccid me im" "string_le 19 model" "length key \<le> 8"
  shows "length (FormJson key ver me model (versionExt fac) iccid im) \<le> 190"
proof -
  have "unat ver < 1000" using u8_le_255 [of ver] by simp
  then show ?thesis
    using assms length_dec_digits [of "unat ver"] by (simp add: FormJson_def dm_fields_ok_def string_le_def)
qed

lemma make_packet_ok:
  assumes json: "length json \<le> 190" "json \<noteq> []"
    and hd: "\<And>n. n < 1000 \<Longrightarrow> length (header n) \<le> 140" "\<And>n. 0 \<notin> set (header n)"
  shows "dm_make_packet header json =
      Inr (header (length (base64_encode json)) @ base64_encode json
           @ replicate (512 - length (header (length (base64_encode json))) - length (base64_encode json)) 0)"
    "cstr (header (length (base64_encode json)) @ base64_encode json
           @ replicate (512 - length (header (length (base64_encode json))) - length (base64_encode json)) 0)
      = Inr (header (length (base64_encode json)) @ base64_encode json)"
proof -
  have l: "length (base64_encode json) \<le> 256" using json(1) by (simp add: length_base64)
  have n: "length (base64_encode json) \<noteq> 0" using json(2) by (cases json) (auto simp: length_base64)
  have h: "length (header (length (base64_encode json))) \<le> 140" using hd(1) l by simp
  show "dm_make_packet header json =
      Inr (header (length (base64_encode json)) @ base64_encode json
           @ replicate (512 - length (header (length (base64_encode json))) - length (base64_encode json)) 0)"
    using l h n json(1) by (simp add: dm_make_packet_def requestbuf_len_def base64_len_def Let_def)
  show "cstr (header (length (base64_encode json)) @ base64_encode json
           @ replicate (512 - length (header (length (base64_encode json))) - length (base64_encode json)) 0)
      = Inr (header (length (base64_encode json)) @ base64_encode json)"
    using cstr_terminated [of "header (length (base64_encode json)) @ base64_encode json"] hd(2) l h base64_nonzero
    by simp
qed

lemma headers_ok:
  "n < 1000 \<Longrightarrow> length (telecom_header n) \<le> 140" "0 \<notin> set (telecom_header n)"
  "n < 1000 \<Longrightarrow> length (unicom_header n) \<le> 140" "0 \<notin> set (unicom_header n)"
  using length_dec_digits [of n] dec_digits_nonzero [of n]
  by (simp_all add: telecom_header_def unicom_header_def crlf_def) (auto simp: str_def)

section \<open>The registration loop\<close>

fun is_sent :: "dm_act \<Rightarrow> bool" where
  "is_sent (Sent p) \<longleftrightarrow> True"
| "is_sent _ \<longleftrightarrow> False"

definition locks :: "dm_act list \<Rightarrow> nat" where
  "locks acts = length (filter (\<lambda>a. a = WorkLock) acts)"

definition unlocks :: "dm_act list \<Rightarrow> nat" where
  "unlocks acts = length (filter (\<lambda>a. a = WorkUnlock) acts)"

lemma socket_client_sent:
  "telecom_socket_client n p = Inr (r, sent) \<Longrightarrow> length sent \<le> 1"
  "unicom_socket_client n p = Inr (r, sent) \<Longrightarrow> length sent \<le> 1"
  by (auto simp: telecom_socket_client_def unicom_socket_client_def bind_res_eq_Inr split: if_splits)

lemma attempt_acts:
  assumes "telecom_attempt fac nccid e = Inr (r, acts)"
  shows "length (filter is_sent acts) \<le> 1 \<and> locks acts = 0 \<and> unlocks acts = 0 \<and> SaveVolatileNv \<notin> set acts
    \<and> (\<forall>t. RetryTimer t \<notin> set acts)"
proof -
  have d: "filter is_sent (default_dns e) = []" "locks (default_dns e) = 0" "unlocks (default_dns e) = 0"
      "SaveVolatileNv \<notin> set (default_dns e)" "RetryTimer t \<notin> set (default_dns e)" for t
    by (auto simp: default_dns_def locks_def unlocks_def)
  have "acts = [] \<or> (\<exists>sent. acts = default_dns e @ map Sent sent \<and> length sent \<le> 1)"
    using assms socket_client_sent
    by (fastforce simp: telecom_attempt_def bind_res_eq_Inr split: if_splits)
  then show ?thesis
    using d by (auto simp: locks_def unlocks_def comp_def)
qed

lemma loop_props:
  assumes "telecom_loop fac nccid first var es = Inr (st, var', acts)"
    and "unat (have_retry_num var) < max 1 (unat (dm_retry_num fac))"
  shows "length (filter is_sent acts) \<le> max 1 (unat (dm_retry_num fac)) - unat (have_retry_num var)
    \<and> locks acts = 0 \<and> unlocks acts = 0
    \<and> (\<forall>t. RetryTimer t \<in> set acts \<longrightarrow> t = unat (dm_retry_time fac) * 1000)
    \<and> (SaveVolatileNv \<in> set acts \<longrightarrow> (\<exists>old. ue_iccid var' = strncpy old nccid 20))"
  using assms
proof (induction es arbitrary: first var st var' acts)
  case Nil
  then show ?case by (simp add: locks_def unlocks_def)
next
  case (Cons e es)
  show ?case
  proof (cases "\<not> first \<and> \<not> netif_ok e")
    case True
    then show ?thesis using Cons.prems by (auto simp: locks_def unlocks_def)
  next
    case False
    then obtain r a where att: "telecom_attempt fac nccid e = Inr (r, a)"
      using Cons.prems by (auto simp: bind_res_eq_Inr)
    note a = attempt_acts [OF att]
    let ?v = "var\<lparr>have_retry_num := have_retry_num var + 1\<rparr>"
    consider "r = DmOut" | "r = DmRegistered" | "r = DmFailed" "\<not> have_retry_num ?v < dm_retry_num fac"
      | "r = DmFailed" "have_retry_num ?v < dm_retry_num fac" by (cases r) auto
    then show ?thesis
    proof cases
      case 4
      then obtain more where m: "telecom_loop fac nccid False ?v es = Inr (st, var', more)"
          "acts = a @ RetryTimer (unat (dm_retry_time fac) * 1000) # more"
        using Cons.prems False att by (auto simp: bind_res_eq_Inr Let_def)
      have k: "unat (have_retry_num ?v) = unat (have_retry_num var) + 1"
        using Cons.prems(2) u8_le_255 [of "dm_retry_num fac"] by (simp add: unat_word_ariths)
      have lt: "unat (have_retry_num ?v) < unat (dm_retry_num fac)" using 4 by (simp add: word_less_nat_alt)
      then have "unat (have_retry_num ?v) < max 1 (unat (dm_retry_num fac))" by simp
      note ih = Cons.IH [OF m(1) this]
      have "length (filter is_sent acts) \<le> max 1 (unat (dm_retry_num fac)) - unat (have_retry_num var)"
        using conjunct1 [OF ih] conjunct1 [OF a] k lt unfolding m(2) filter_append length_append filter.simps
        by simp
      then show ?thesis using ih a unfolding m(2) by (auto simp: locks_def unlocks_def)
    qed (use Cons.prems False att a in \<open>auto simp: Let_def locks_def unlocks_def split: if_splits\<close>)
  qed
qed

section \<open>Attempts\<close>

lemma attempt_packet:
  assumes "dm_fields_ok fac nccid (meid e) (imsi e)" "meid e \<noteq> []" "\<not> imsi_invalid (imsi e)"
  shows "\<exists>packet p. cstr packet = Inr p \<and> telecom_attempt fac nccid e =
     bind_res (telecom_socket_client (net e) packet)
       (\<lambda>(r, sent). Inr (if r = 0 then DmRegistered else DmFailed, default_dns e @ map Sent sent))"
proof -
  let ?m = "dm_dashes False (fac_modul_ver fac)"
  let ?json = "FormJson (str ''MODEL'') (regver fac) (meid e) ?m (versionExt fac) nccid (imsi e)"
  have m: "dm_model_name (fac_modul_ver fac) = Inr ?m" "string_le 19 ?m"
    using assms(1) model_name_ok by (auto simp: dm_fields_ok_def)
  have json: "length ?json \<le> 190" by (rule json_length [OF assms(1) m(2)]) simp
  have ne: "?json \<noteq> []" by (simp add: FormJson_def str_def)
  note p = make_packet_ok [where header = telecom_header, OF json ne headers_ok(1,2)]
  show ?thesis
    using p(2) by (intro exI conjI) (simp_all add: telecom_attempt_def assms m(1) p(1))
qed

lemma answer_success:
  assumes sent: "cstr requestbuf = Inr p" and net: "0 \<le> send_rc n" "recv1 n = (int (length d1), d1)"
    "recv2 n = (int (length d2), d2)"
    and d: "d1 \<noteq> []" "0 \<notin> set (d1 @ d2)" "length d1 + length d2 + 7 \<le> requestbuf_len"
  shows "handle_connection n requestbuf = Inr (if sublist (str ''Success'') (d1 @ d2) then 0 else 1, p)"
proof -
  let ?r = "requestbuf_len - length d1 - length d2"
  have b: "blit (blit (replicate requestbuf_len 0) 0 d1) (length d1) d2 = (d1 @ d2) @ replicate ?r 0"
    using d(3) by (simp add: blit_def)
  have r: "0 < ?r" using d(3) by simp
  have c: "cstr ((d1 @ d2) @ replicate ?r 0) = Inr (d1 @ d2)" by (rule cstr_terminated [OF d(2) r])
  have f: "findstr ((d1 @ d2) @ replicate ?r 0) (str ''Success'')
      = Inr (if sublist (str ''Success'') (d1 @ d2) then 1 else 0)"
    by (rule findstr_correct [OF c]) (use d(3) in \<open>auto simp: str_def\<close>)
  have n: "int (length d1) \<noteq> 0" "int (length d1) < 512" using d(1,3) by (auto simp: requestbuf_len_def)
  show ?thesis
    using n net b c f by (simp add: handle_connection_def sent)
qed

end
