(* ===== verification/DmProps.thy ===== *)
theory DmProps
  imports DmSpec
begin

text \<open>
  Properties of the device management registration, each with a run of the code on a concrete
  terminal.
\<close>

section \<open>A terminal\<close>

definition demo_fac :: dm_fac where
  "demo_fac = \<lparr>need_start_dm = 1, dm_inteval_time = 1440, dm_app_key = [], dm_app_pwd = [], dm_serv_flag = 0,
     dm_retry_num = 5, dm_retry_time = 3600, dm_reg_time = 2592000, regver = 2,
     fac_modul_ver = str ''XYS-XYM110'', versionExt = str ''XYM110_SW_V0.3.7''\<rparr>"

definition demo_iccid :: "u8 list" where "demo_iccid = str ''89860317482035195045''"

definition demo_var :: dm_var where
  "demo_var = \<lparr>have_retry_num = 0, ue_iccid = replicate 23 0, last_reg_time = 0\<rparr>"

definition demo_net :: dm_net where
  "demo_net = \<lparr>dns_rc = 0, sock_fd = 3, connect_rc = 0, send_rc = 300, recv1 = (17, str ''HTTP/1.1 200 OK {''),
     recv2 = (9, str '':Success}''), stale_rc = 0\<rparr>"

definition demo_try :: dm_try where
  "demo_try = \<lparr>netif_ok = True, meid = str ''460040772710417'', imsi = str ''460110333543990'', pri_dns = 1,
     sec_dns = 2, net = demo_net, ftl_ok = True\<rparr>"

lemma demo_fields: "dm_fields_ok demo_fac demo_iccid (meid demo_try) (imsi demo_try)"
  by (simp add: dm_fields_ok_def string_le_def demo_fac_def demo_iccid_def demo_try_def str_def)

section \<open>The packet\<close>

text \<open>C11: with every field as long as the configuration and the SIM allow, both operators' packets
  fit their buffers: what is sent is the header followed by exactly the announced number of
  characters, and decoding these as base64 gives back the JSON text.\<close>

theorem dm_packet_decodes:
  assumes ok: "dm_fields_ok fac iccid me im" and hd: "(header, key) = (telecom_header, str ''MODEL'')
      \<or> (header, key) = (unicom_header, str ''MODELSMS'')"
  shows "\<exists>model code packet. dm_model_name (fac_modul_ver fac) = Inr model
    \<and> dm_make_packet header (FormJson key (regver fac) me model (versionExt fac) iccid im) = Inr packet
    \<and> length packet = requestbuf_len \<and> cstr packet = Inr (header (length code) @ code)
    \<and> base64_decode code = FormJson key (regver fac) me model (versionExt fac) iccid im"
proof -
  let ?m = "dm_dashes False (fac_modul_ver fac)"
  let ?json = "FormJson key (regver fac) me ?m (versionExt fac) iccid im"
  let ?code = "base64_encode ?json"
  let ?packet = "header (length ?code) @ ?code @ replicate (512 - length (header (length ?code)) - length ?code) 0"
  have m: "dm_model_name (fac_modul_ver fac) = Inr ?m" "string_le 19 ?m"
    using ok model_name_ok by (auto simp: dm_fields_ok_def)
  have k: "length key \<le> 8" using hd by auto
  have json: "length ?json \<le> 190" by (rule json_length [OF ok m(2) k])
  have ne: "?json \<noteq> []" by (simp add: FormJson_def str_def)
  have h: "length (header n) \<le> 140" if "n < 1000" for n using hd headers_ok(1,3) [OF that] by auto
  have z: "0 \<notin> set (header n)" for n using hd headers_ok(2,4) by auto
  note p = make_packet_ok [where header = header, OF json ne h z]
  have "length ?code \<le> 256" using json by (simp add: length_base64)
  then have "length ?packet = requestbuf_len" using h [of "length ?code"] by (simp add: requestbuf_len_def)
  then show ?thesis using m(1) p base64_decode_encode [of ?json] by blast
qed

theorem dm_packet_decodes_witness:
  "\<exists>model code packet. dm_model_name (fac_modul_ver demo_fac) = Inr model
    \<and> dm_make_packet telecom_header (FormJson (str ''MODEL'') 2 (meid demo_try) model (versionExt demo_fac) demo_iccid
         (imsi demo_try)) = Inr packet
    \<and> cstr packet = Inr (telecom_header (length code) @ code)"
  using dm_packet_decodes [OF demo_fields, of telecom_header "str ''MODEL''"] by (auto simp: demo_fac_def)

section \<open>The answer\<close>

text \<open>the registration counts as successful exactly when the two parts of the answer together
  contain the word Success, as long as the answer leaves room for the word in the receive buffer.\<close>

lemma dm_answer_success_iff:
  assumes sent: "cstr requestbuf = Inr p" and net: "0 \<le> send_rc n" "recv1 n = (int (length d1), d1)"
    "recv2 n = (int (length d2), d2)"
    and d: "d1 \<noteq> []" "0 \<notin> set (d1 @ d2)" "length d1 + length d2 + 7 \<le> requestbuf_len"
  shows "handle_connection n requestbuf = Inr (if sublist (str ''Success'') (d1 @ d2) then 0 else 1, p)"
  by (rule answer_success [OF sent net d])

lemma dm_answer_success_iff_witness:
  "handle_connection demo_net (str ''POST'' @ replicate 508 0) = Inr (0, str ''POST'')"
proof -
  have c: "cstr (str ''POST'' @ replicate 508 0) = Inr (str ''POST'')"
    by (rule cstr_terminated) (simp_all add: str_def)
  have s: "sublist (str ''Success'') (str ''HTTP/1.1 200 OK {'' @ str '':Success}'')" by code_simp
  show ?thesis
    using dm_answer_success_iff [OF c, of demo_net "str ''HTTP/1.1 200 OK {''" "str '':Success}''"] s
    by (simp add: demo_net_def requestbuf_len_def) (simp add: str_def)
qed

text \<open>an error of the first receive makes the second one write before the buffer: -1 is used as an
  offset, so any answer that arrives then is stored from requestbuf - 1 on.\<close>

lemma dm_receive_error_underruns:
  assumes "cstr requestbuf = Inr p" "0 \<le> send_rc n" "recv1 n = (-1, [])" "recv2 n = (k, d2)" "d2 \<noteq> []"
  shows "handle_connection n requestbuf = Inl BadAccess"
  using assms by (simp add: handle_connection_def)

section \<open>The thread\<close>

text \<open>C12: in every environment the telecom thread sends at most dm_retry_num packets (one if that is
  0), waits exactly dm_retry_time seconds between them, leaves the work lock as it found it when it
  ends, and after a registration was saved the same SIM is not registered again.\<close>

theorem telecom_run_bounded:
  assumes run: "telecom_dm_run hold fac nccid var es = Inr (st, var', acts)"
    and iccid: "0 \<notin> set nccid" "length nccid \<le> 20"
  shows "length (filter is_sent acts) \<le> max 1 (unat (dm_retry_num fac))
    \<and> (\<forall>t. RetryTimer t \<in> set acts \<longrightarrow> t = unat (dm_retry_time fac) * 1000)
    \<and> (st = DmExit \<longrightarrow> locks acts = unlocks acts)
    \<and> (SaveVolatileNv \<in> set acts \<longrightarrow> telecom_need_start_dm nccid var' = None)"
proof (cases "telecom_need_start_dm nccid var")
  case None
  then show ?thesis using run by (auto simp: telecom_dm_run_def locks_def unlocks_def)
next
  case (Some n)
  then have "n = nccid" by (auto simp: telecom_need_start_dm_def split: if_splits)
  then obtain more where m: "telecom_loop fac nccid True (var\<lparr>have_retry_num := 0\<rparr>) es = Inr (st, var', more)"
      "acts = (if hold then [WorkLock] else []) @ more @ (if hold \<and> st = DmExit then [WorkUnlock] else [])"
    using run Some by (auto simp: telecom_dm_run_def bind_res_eq_Inr Let_def split: if_splits)
  have "unat (have_retry_num (var\<lparr>have_retry_num := 0\<rparr>)) < max 1 (unat (dm_retry_num fac))" by simp
  note p = loop_props [OF m(1) this]
  have "telecom_need_start_dm nccid var' = None" if "SaveVolatileNv \<in> set more"
    using p that strncmp_strncpy [OF iccid] by (auto simp: telecom_need_start_dm_def)
  then show ?thesis
    using p unfolding m(2) by (auto simp: locks_def unlocks_def)
qed

definition demo_run :: "(dm_end \<times> dm_var \<times> dm_act list) res" where
  "demo_run = telecom_dm_run True demo_fac demo_iccid demo_var
     [demo_try\<lparr>net := demo_net\<lparr>connect_rc := -1\<rparr>\<rparr>, demo_try]"

lemma demo_run_ends:
  "\<exists>v acts. demo_run = Inr (DmExit, v, acts) \<and> SaveVolatileNv \<in> set acts"
proof -
  let ?e1 = "demo_try\<lparr>net := demo_net\<lparr>connect_rc := -1\<rparr>\<rparr>"
  have i: "\<not> imsi_invalid (imsi demo_try)" by code_simp
  have ne: "meid demo_try \<noteq> []" by (simp add: demo_try_def str_def)
  obtain packet p where p: "cstr packet = Inr p" and
    att: "telecom_attempt demo_fac demo_iccid demo_try =
        bind_res (telecom_socket_client (net demo_try) packet)
          (\<lambda>(r, sent). Inr (if r = 0 then DmRegistered else DmFailed, default_dns demo_try @ map Sent sent))"
    using attempt_packet [OF demo_fields ne i] by blast
  have s: "sublist (str ''Success'') (str ''HTTP/1.1 200 OK {'' @ str '':Success}'')" by code_simp
  have h: "handle_connection demo_net packet = Inr (0, p)"
    using answer_success [OF p, of demo_net "str ''HTTP/1.1 200 OK {''" "str '':Success}''"] s
    by (simp add: demo_net_def requestbuf_len_def) (simp add: str_def)
  have 2: "telecom_attempt demo_fac demo_iccid demo_try = Inr (DmRegistered, default_dns demo_try @ [Sent p])"
    using att h by (simp add: telecom_socket_client_def) (simp add: demo_try_def demo_net_def)
  obtain packet1 where 1: "telecom_attempt demo_fac demo_iccid ?e1 =
        bind_res (telecom_socket_client (net ?e1) packet1)
          (\<lambda>(r, sent). Inr (if r = 0 then DmRegistered else DmFailed, default_dns ?e1 @ map Sent sent))"
    using attempt_packet [of demo_fac demo_iccid ?e1] demo_fields ne i by auto
  have 1: "telecom_attempt demo_fac demo_iccid ?e1 = Inr (DmFailed, default_dns ?e1)"
    unfolding 1 by (simp add: telecom_socket_client_def demo_net_def)
  have n: "telecom_need_start_dm demo_iccid demo_var = Some demo_iccid" by code_simp
  have ok: "netif_ok demo_try" "ftl_ok demo_try" "dm_retry_num demo_fac = 5" by (simp_all add: demo_try_def demo_fac_def)
  show ?thesis
    by (simp add: demo_run_def telecom_dm_run_def n 1 2 ok Let_def)
qed

theorem telecom_run_bounded_witness:
  "\<exists>var' acts. demo_run = Inr (DmExit, var', acts) \<and> SaveVolatileNv \<in> set acts \<and> locks acts = unlocks acts
     \<and> telecom_need_start_dm demo_iccid var' = None"
proof -
  obtain v acts where r: "demo_run = Inr (DmExit, v, acts)" "SaveVolatileNv \<in> set acts"
    using demo_run_ends by blast
  have i: "0 \<notin> set demo_iccid" "length demo_iccid \<le> 20" by (simp_all add: demo_iccid_def str_def)
  show ?thesis using telecom_run_bounded [OF r(1) [unfolded demo_run_def] i] r by blast
qed

text \<open>a socket that cannot be created after the name was resolved counts as a registration: the
  result of the resolution is returned, the SIM is stored as registered and success is reported
  although nothing was sent.\<close>

lemma telecom_no_socket_is_success:
  assumes need: "telecom_need_start_dm nccid var = Some nccid"
    and ok: "dm_fields_ok fac nccid (meid e) (imsi e)" "meid e \<noteq> []" "\<not> imsi_invalid (imsi e)" "ftl_ok e"
    and net: "sock_fd (net e) < 0" "dns_rc (net e) = 0"
  shows "\<exists>var' acts. telecom_dm_run hold fac nccid var (e # es) = Inr (DmExit, var', acts)
    \<and> filter is_sent acts = [] \<and> SendDmSuccess \<in> set acts \<and> SaveVolatileNv \<in> set acts
    \<and> telecom_need_start_dm nccid var' = None"
proof -
  obtain packet where p: "telecom_attempt fac nccid e = bind_res (telecom_socket_client (net e) packet)
      (\<lambda>(r, sent). Inr (if r = 0 then DmRegistered else DmFailed, default_dns e @ map Sent sent))"
    using attempt_packet [OF ok(1-3)] by blast
  have att: "telecom_attempt fac nccid e = Inr (DmRegistered, default_dns e)"
    unfolding p using net by (simp add: telecom_socket_client_def)
  have i: "0 \<notin> set nccid" "length nccid \<le> 20" using ok(1) by (auto simp: dm_fields_ok_def string_le_def)
  have d: "filter is_sent (default_dns e) = []" by (simp add: default_dns_def)
  show ?thesis
    using need att ok(4) d strncmp_strncpy [OF i]
    by (auto simp: telecom_dm_run_def telecom_need_start_dm_def Let_def)
qed

lemma telecom_no_socket_is_success_witness:
  "\<exists>var' acts. telecom_dm_run False demo_fac demo_iccid demo_var
       [demo_try\<lparr>net := demo_net\<lparr>sock_fd := -1\<rparr>\<rparr>] = Inr (DmExit, var', acts)
     \<and> filter is_sent acts = [] \<and> SendDmSuccess \<in> set acts"
proof -
  have n: "telecom_need_start_dm demo_iccid demo_var = Some demo_iccid" by code_simp
  have i: "\<not> imsi_invalid (imsi demo_try)" by code_simp
  show ?thesis
    using telecom_no_socket_is_success [OF n, of demo_fac "demo_try\<lparr>net := demo_net\<lparr>sock_fd := -1\<rparr>\<rparr>" False "[]"]
      demo_fields i
    by (auto simp: demo_try_def demo_net_def str_def)
qed

text \<open>a powered-on Unicom terminal whose SIM is registered and not overdue takes the work lock
  twice and releases it once, so the terminal is kept from deep sleep after the thread has
  ended.\<close>

lemma unicom_registered_keeps_lock:
  assumes "strncmp_eq nccid (ue_iccid var) 20" "\<not> unicom_timer_flag st"
    "now - last_reg_time var \<le> dm_reg_time fac"
  shows "\<exists>st' acts. unicom_dm_run True fac nccid now var st es = Inr (DmExit, var, st', acts)
    \<and> locks acts = 2 \<and> unlocks acts = 1"
  using assms
  by (auto simp: unicom_dm_run_def unicom_is_start_dm_def Let_def locks_def unlocks_def not_less)

lemma unicom_registered_keeps_lock_witness:
  "\<exists>st' acts. unicom_dm_run True demo_fac demo_iccid 1000
       (demo_var\<lparr>ue_iccid := strncpy (replicate 23 0) demo_iccid 20\<rparr>)
       \<lparr>unicom_timer_flag = False, dm_timer_overdue = False, current_time = 0\<rparr> [] =
     Inr (DmExit, demo_var\<lparr>ue_iccid := strncpy (replicate 23 0) demo_iccid 20\<rparr>, st', acts)
     \<and> locks acts = 2 \<and> unlocks acts = 1"
proof -
  have "strncmp_eq demo_iccid (ue_iccid (demo_var\<lparr>ue_iccid := strncpy (replicate 23 0) demo_iccid 20\<rparr>)) 20" by code_simp
  then show ?thesis by (rule unicom_registered_keeps_lock) (simp_all add: demo_var_def demo_fac_def)
qed

end
