(* ===== verification/Nv.thy ===== *)
theory Nv
  imports Ftl
begin

text \<open>
  \<open>SYSLIB/system/src/oss_nv.c\<close> with the choice of the DSP start mode of
  \<open>SYSLIB/system/src/dsp_process.c\<close>: what happens to the configuration and to the volatile data
  when the system boots, reboots and goes to deep sleep.  The retention memory at
  \<open>BACKUP_MEM_BASE\<close> is a list of 4096 bytes; the RTC list in it is changed by library functions,
  which are fields of the environment.  The factory configuration is the record of the fields
  the code tests; its place in the stored structure is a parameter.
\<close>

section \<open>Retention memory\<close>

definition BACKUP_LEN :: nat where "BACKUP_LEN = 4096"
definition DSP_VOLATILE_ALL_LEN :: nat where "DSP_VOLATILE_ALL_LEN = 0xEA0"
definition LPM_START :: nat where "LPM_START = 0xE60"
definition LPM_LEN :: nat where "LPM_LEN = 64"
definition SOFTAP_START :: nat where "SOFTAP_START = 0xEA0"
definition SOFTAP_LEN :: nat where "SOFTAP_LEN = 96"
definition RTCLIST_START :: nat where "RTCLIST_START = 0xF00"
definition RTCLIST_LEN :: nat where "RTCLIST_LEN = 236"
definition BACKUP_MEM_CHECKSUM :: nat where "BACKUP_MEM_CHECKSUM = 0xFF0"
definition BACKUP_MEM_FLAG :: nat where "BACKUP_MEM_FLAG = 0xFF4"
definition BK_FLAG_INVALID :: u32 where "BK_FLAG_INVALID = 0"
definition BK_FLAG_INUSE :: u32 where "BK_FLAG_INUSE = 0xaa55a5a5"
definition BK_FLAG_INUSE_2 :: u32 where "BK_FLAG_INUSE_2 = 0x55AA5A5A"

lemmas backup_defs = BACKUP_LEN_def DSP_VOLATILE_ALL_LEN_def LPM_START_def LPM_LEN_def SOFTAP_START_def
  SOFTAP_LEN_def RTCLIST_START_def RTCLIST_LEN_def BACKUP_MEM_CHECKSUM_def BACKUP_MEM_FLAG_def

text \<open>The fields of \<open>softap_var_nv_t\<close> that the code uses, by their offsets.\<close>

definition rtc_snap_sec :: "u8 list \<Rightarrow> u32" where "rtc_snap_sec b = get32 b SOFTAP_START"
definition next_PS_sec :: "u8 list \<Rightarrow> u32" where "next_PS_sec b = get32 b (SOFTAP_START + 4)"

definition rtc_msec_reset :: "u8 list \<Rightarrow> u64" where
  "rtc_msec_reset b = ucast (get32 b (SOFTAP_START + 8)) OR push_bit 32 (ucast (get32 b (SOFTAP_START + 12)))"

definition cclk_local_sec_set :: "u8 list \<Rightarrow> bool" where
  "cclk_local_sec_set b \<longleftrightarrow> take 8 (drop (SOFTAP_START + 32) b) \<noteq> replicate 8 0"

definition put_next_PS_sec :: "u8 list \<Rightarrow> u32 \<Rightarrow> u8 list" where
  "put_next_PS_sec b v = put32 b (SOFTAP_START + 4) v"

definition put_rtc_snap_sec :: "u8 list \<Rightarrow> u32 \<Rightarrow> u8 list" where
  "put_rtc_snap_sec b v = put32 b SOFTAP_START v"

definition put_rtc_msec_reset :: "u8 list \<Rightarrow> u64 \<Rightarrow> u8 list" where
  "put_rtc_msec_reset b v = put32 (put32 b (SOFTAP_START + 8) (ucast v)) (SOFTAP_START + 12) (ucast (drop_bit 32 v))"

definition dm_cfg_start :: nat where "dm_cfg_start = SOFTAP_START + 64"
definition dm_cfg_len :: nat where "dm_cfg_len = 28"

definition dm_cfg :: "u8 list \<Rightarrow> u8 list" where
  "dm_cfg b = take dm_cfg_len (drop dm_cfg_start b)"

definition softap_chksum :: "u8 list \<Rightarrow> u32" where
  "softap_chksum b = xy_chksum (take SOFTAP_LEN (drop SOFTAP_START b))"

text \<open>\<open>memset(BACKUP_MEM_BASE, 0, FLASH_SECTOR_LENGTH)\<close>, or 4 bytes less after a software reset.\<close>

definition clear_backup :: "bool \<Rightarrow> u8 list \<Rightarrow> u8 list" where
  "clear_backup all b = replicate (if all then BACKUP_LEN else BACKUP_LEN - 4) 0
                          @ drop (if all then BACKUP_LEN else BACKUP_LEN - 4) b"

definition on_rtc_list :: "(u8 list \<Rightarrow> u8 list) \<Rightarrow> u8 list \<Rightarrow> u8 list" where
  "on_rtc_list f b = blit b RTCLIST_START (f (take RTCLIST_LEN (drop RTCLIST_START b)))"

section \<open>State\<close>

datatype sys_start_stat =
    POWER_ON | PIN_RESET | SOFT_RESET | UTC_WAKEUP | EXTPIN_WAKEUP | WDT_RESET | UNKNOWN_ON

datatype ps_start = PS_OFF | PS_DO_ATTACH | PS_CAMP_ON

record nv_fac =
  deepsleep_enable :: u8
  high_freq_data :: u8
  keep_retension_mem :: u8
  work_mode :: u8
  offtime :: u8
  save_cloud :: u8
  open_log :: u8
  log_size :: u8
  dsp_ext_pool :: u8
  off_debug :: u8
  g_NPSMR_enable :: u8
  fac_need_start_dm :: u8
  ver_type :: u32
  backup_threshold :: u16
  uart_rate :: u16

record nv_st =
  ns :: sys
  backup :: "u8 list"
  ram_factory_nv :: "u8 list"
  fac :: nv_fac
  g_user_vol_data :: "u8 list option"
  g_dsp_mode_dbg :: u32
  g_need_offtime :: bool
  g_normal_wakeup :: bool
  ps_start_sync :: ps_start
  have_free_lock :: bool
  g_current_baudrate :: u32
  g_BKMEMCTL_reg :: u8
  dsp_pool_words :: "u32 list"

record nv_env =
  up_stat :: sys_start_stat
  reset_type :: rb_type
  cur_rtc_sec :: u32
  global_sec :: u64
  rtc_msec :: u64
  rtc_wakeup_type :: int
  main_pin_reset :: bool
  g_autobaud_rate :: u32
  ext_heap_ptr :: u32
  dsp_log_ptr :: u32
  fac_of :: "u8 list \<Rightarrow> nv_fac"
  fac_len :: nat
  dsp_fac_len :: nat
  restore_RTC_list :: "u8 list \<Rightarrow> u8 list"
  rtc_event_delete :: "nat \<Rightarrow> u8 list \<Rightarrow> u8 list"
  clear_lpm_event :: "u8 list \<Rightarrow> u8 list"
  lpm_id :: nat
  nrb_ids :: "nat list"

definition CHECK_OPERATION_VER :: "nv_fac \<Rightarrow> bool" where
  "CHECK_OPERATION_VER f \<longleftrightarrow> ver_type f AND 1 \<noteq> 0"

abbreviation set_dbg :: "nat \<Rightarrow> nv_st \<Rightarrow> nv_st" where
  "set_dbg k st \<equiv> st\<lparr>g_dsp_mode_dbg := g_dsp_mode_dbg st OR push_bit k 1\<rparr>"

section \<open>dsp_process.c: set_DSP_work_mode, set_dsp_no_work\<close>

text \<open>The comparison with the current time is unsigned.\<close>

definition ps_decision :: "nv_env \<Rightarrow> u8 list \<Rightarrow> nat \<times> ps_start" where
  "ps_decision env b =
     (if rtc_snap_sec b = 0 \<or> next_PS_sec b = 0 then (3, PS_DO_ATTACH)
      else if next_PS_sec b = 0xFFFFFFFF then (16, PS_DO_ATTACH)
      else if up_stat env = UTC_WAKEUP \<and> next_PS_sec b \<noteq> 0 \<and> cur_rtc_sec env - 1 \<le> next_PS_sec b
        then (if rtc_wakeup_type env = 1 then 2 else 1, PS_CAMP_ON)
      else if up_stat env = EXTPIN_WAKEUP \<and> next_PS_sec b \<noteq> 0 \<and> cur_rtc_sec env - 1 \<le> next_PS_sec b
        then (1, PS_CAMP_ON)
      else (15, PS_DO_ATTACH))"

definition set_DSP_work_mode :: "nv_env \<Rightarrow> nv_st \<Rightarrow> nv_st" where
  "set_DSP_work_mode env st =
     (let (k, sync) = ps_decision env (backup st);
          st = set_dbg k st\<lparr>ps_start_sync := sync,
                 g_normal_wakeup := (g_normal_wakeup st \<or> sync = PS_CAMP_ON)\<rparr>
      in st\<lparr>backup := on_rtc_list (rtc_event_delete env (lpm_id env)) (put_next_PS_sec (backup st) 0)\<rparr>)"

text \<open>The dynamic variant does not mark a normal wakeup.\<close>

definition dynamic_set_DSP_work_mode :: "nv_env \<Rightarrow> nv_st \<Rightarrow> nv_st" where
  "dynamic_set_DSP_work_mode env st =
     (let (k, sync) = ps_decision env (backup st); st = set_dbg k st\<lparr>ps_start_sync := sync\<rparr>
      in st\<lparr>backup := on_rtc_list (rtc_event_delete env (lpm_id env)) (put_next_PS_sec (backup st) 0)\<rparr>)"

definition set_dsp_no_work :: "nv_st \<Rightarrow> nv_st" where
  "set_dsp_no_work st = st\<lparr>ps_start_sync := PS_OFF\<rparr>"

section \<open>Erasing and saving\<close>

definition erase_flash_by_abnormal :: "flash_drv \<Rightarrow> sys \<Rightarrow> int \<Rightarrow> sys res" where
  "erase_flash_by_abnormal drv s state =
     bind_res (if state = 0 then xy_flash_erase drv s NV_FLASH_FACTORY_BASE NV_FLASH_FACTORY_LEN
               else Inr (XY_OK, s)) (\<lambda>(_, s).
     bind_res (xy_flash_erase drv s NV_FLASH_DSP_VOLATILE_BASE NV_FLASH_DSP_VOLATILE_LEN) (\<lambda>(_, s).
     bind_res (xy_flash_erase drv s NV_FLASH_DSP_NON_VOLATILE_BASE NV_FLASH_DSP_NON_VOLATILE_LEN) (\<lambda>(_, s).
     bind_res (xy_flash_erase drv s NV_FLASH_NET_BASE NV_FLASH_NET_LEN) (\<lambda>(_, s). Inr s))))"

text \<open>\<open>xy_ftl_write\<close> with the assertion that follows it at most places.\<close>

definition ftl_write_or_die :: "flash_drv \<Rightarrow> sys \<Rightarrow> nat \<Rightarrow> u8 list \<Rightarrow> sys res" where
  "ftl_write_or_die drv s base d =
     bind_res (xy_ftl_write drv s base 0 d) (\<lambda>(ret, s). if ret \<noteq> XY_OK then Inl AssertFail else Inr s)"

definition save_factory_nv :: "flash_drv \<Rightarrow> nv_env \<Rightarrow> nv_st \<Rightarrow> nv_st res" where
  "save_factory_nv drv env st =
     bind_res (xy_ftl_write drv (ns st) NV_FLASH_FACTORY_BASE 0 (take (dsp_fac_len env) (ram_factory_nv st)))
       (\<lambda>(ret, s).
         if ret \<noteq> XY_OK then
           bind_res (xy_flash_erase drv s NV_FLASH_FACTORY_BASE NV_FLASH_FACTORY_LEN) (\<lambda>_. Inl AssertFail)
         else Inr (st\<lparr>ns := s\<rparr>))"

definition varnv_is_need_wrtieback :: "nv_env \<Rightarrow> nv_st \<Rightarrow> bool" where
  "varnv_is_need_wrtieback env st \<longleftrightarrow> keep_retension_mem (fac st) = 0
     \<or> (next_PS_sec (backup st) \<noteq> 0 \<and> backup_threshold (fac st) \<noteq> 0
        \<and> ucast (backup_threshold (fac st)) < ucast (next_PS_sec (backup st)) - global_sec env)"

definition mark_backup :: "u32 \<Rightarrow> u8 list \<Rightarrow> u8 list" where
  "mark_backup flag b = put32 (put32 b BACKUP_MEM_CHECKSUM (softap_chksum b)) BACKUP_MEM_FLAG flag"

definition save_user_ram_to_retension_mem :: "flash_drv \<Rightarrow> nv_st \<Rightarrow> nv_st res" where
  "save_user_ram_to_retension_mem drv st =
     bind_res (if \<not> dsp_not_loaded (ns st)
               then ftl_write_or_die drv (ns st) NV_FLASH_DSP_VOLATILE_BASE (take XY_FTL_AVAILABLE_SIZE (backup st))
               else Inr (ns st)) (\<lambda>s.
       let st = st\<lparr>ns := s\<rparr>
       in case g_user_vol_data st of
            Some d \<Rightarrow> Inr (st\<lparr>backup := mark_backup BK_FLAG_INUSE_2 (blit (backup st) 0 (take DSP_VOLATILE_ALL_LEN d))\<rparr>)
          | None \<Rightarrow> Inr (st\<lparr>backup := mark_backup BK_FLAG_INUSE (backup st)\<rparr>))"

definition save_volatile_nv :: "flash_drv \<Rightarrow> nv_env \<Rightarrow> bool \<Rightarrow> nv_st \<Rightarrow> nv_st res" where
  "save_volatile_nv drv env reBoot st =
     (let st = (if reBoot \<and> cclk_local_sec_set (backup st)
                then st\<lparr>backup := put_rtc_msec_reset (backup st) (rtc_msec env)\<rparr> else st)
      in if high_freq_data (fac st) = 1 then
           bind_res (save_user_ram_to_retension_mem drv st) (\<lambda>st.
             Inr (if reBoot then st else st\<lparr>g_BKMEMCTL_reg := 0x41\<rparr>))
         else if varnv_is_need_wrtieback env st then
           bind_res (ftl_write_or_die drv (ns st) NV_FLASH_DSP_VOLATILE_BASE
                      (take XY_FTL_AVAILABLE_SIZE (backup st))) (\<lambda>s.
             let b = backup st;
                 b = put32 b BACKUP_MEM_CHECKSUM (get32 b BACKUP_MEM_CHECKSUM + 1);
                 st = st\<lparr>ns := s, backup := put32 b BACKUP_MEM_FLAG BK_FLAG_INVALID\<rparr>
             in Inr (if reBoot then st else st\<lparr>g_BKMEMCTL_reg := g_BKMEMCTL_reg st AND 0xFE\<rparr>))
         else
           let st = st\<lparr>backup := mark_backup BK_FLAG_INUSE (backup st)\<rparr>
           in Inr (if reBoot then st else st\<lparr>g_BKMEMCTL_reg := 0x41\<rparr>))"

text \<open>Before a reboot; the exchange with the PS stack is not state of this model.\<close>

definition reboot_nv :: "flash_drv \<Rightarrow> nv_env \<Rightarrow> nv_st \<Rightarrow> nv_st res" where
  "reboot_nv drv env st =
     bind_res (save_factory_nv drv env st) (\<lambda>st.
       save_volatile_nv drv env True
         (st\<lparr>backup := on_rtc_list (clear_lpm_event env) (put_next_PS_sec (backup st) 0)\<rparr>))"

text \<open>
  Before deep sleep: \<open>invar\<close> is the non-volatile data of the DSP, \<open>fast_off\<close> a requested power off,
  \<open>cloud_data\<close> whether resume data of a cloud exists, and \<open>save_net\<close> is
  \<open>save_net_app_infos\<close>.
\<close>

definition nv_write_to_flash ::
    "flash_drv \<Rightarrow> nv_env \<Rightarrow> u8 list option \<Rightarrow> bool \<Rightarrow> bool \<Rightarrow> (sys \<Rightarrow> sys res) \<Rightarrow> nv_st \<Rightarrow> nv_st res" where
  "nv_write_to_flash drv env invar fast_off cloud_data save_net st =
     bind_res (save_factory_nv drv env st) (\<lambda>st.
     bind_res (case invar of
                 Some d \<Rightarrow> if d \<noteq> [] then ftl_write_or_die drv (ns st) NV_FLASH_DSP_NON_VOLATILE_BASE d else Inr (ns st)
               | None \<Rightarrow> Inr (ns st)) (\<lambda>s.
     bind_res
       (if fast_off then
          bind_res (if cloud_data then xy_flash_erase drv s NV_FLASH_NET_BASE NV_FLASH_NET_LEN else Inr (XY_OK, s))
            (\<lambda>(_, s). Inr (st\<lparr>ns := s, backup := blit (backup st) 0 (replicate DSP_VOLATILE_ALL_LEN 0)\<rparr>))
        else bind_res (save_net s) (\<lambda>s. Inr (st\<lparr>ns := s\<rparr>)))
       (\<lambda>st. save_volatile_nv drv env False st)))"

section \<open>nv_restore\<close>

definition nv_abnormal_reset :: "flash_drv \<Rightarrow> nv_env \<Rightarrow> nv_st \<Rightarrow> nv_st res" where
  "nv_abnormal_reset drv env st =
     (if up_stat env = WDT_RESET \<or> (up_stat env = SOFT_RESET \<and> reset_type env = RB_BY_ASSERT) then
        bind_res (erase_flash_by_abnormal drv (ns st) 1) (\<lambda>s.
          Inr (st\<lparr>ns := s, backup := clear_backup (up_stat env \<noteq> SOFT_RESET) (backup st)\<rparr>))
      else if up_stat env = PIN_RESET \<and> main_pin_reset env then
        bind_res (erase_flash_by_abnormal drv (ns st) 2) (\<lambda>s.
          Inr (st\<lparr>ns := s, backup := clear_backup True (backup st)\<rparr>))
      else if up_stat env \<noteq> UTC_WAKEUP \<and> up_stat env \<noteq> EXTPIN_WAKEUP \<and> save_cloud (fac st) = 1 then
        bind_res (xy_flash_erase drv (ns st) NV_FLASH_NET_BASE NV_FLASH_NET_LEN) (\<lambda>(_, s).
          Inr (st\<lparr>ns := s\<rparr>))
      else Inr st)"

definition init_DSP_external_POOL :: "nv_env \<Rightarrow> nv_st \<Rightarrow> nv_st" where
  "init_DSP_external_POOL env st =
     (let pool = (if dsp_ext_pool (fac st) \<noteq> 0
                  then [get_Dsp_Addr_from_ARM (ext_heap_ptr env), ucast (dsp_ext_pool (fac st)) * 1024] else [0, 0]);
          log = (if open_log (fac st) \<noteq> 0
                 then [get_Dsp_Addr_from_ARM (dsp_log_ptr env),
                       if log_size (fac st) \<noteq> 0 then ucast (log_size (fac st)) * 1024 else 20480]
                 else [0, 0])
      in st\<lparr>dsp_pool_words := pool @ log\<rparr>)"

definition nv_baudrate :: "nv_env \<Rightarrow> nv_st \<Rightarrow> nv_st" where
  "nv_baudrate env st =
     st\<lparr>g_current_baudrate :=
       (if uart_rate (fac st) AND 0x1ff \<noteq> 0 then 2400 * ucast (uart_rate (fac st) AND 0x1ff)
        else g_autobaud_rate env)\<rparr>"

definition nv_free_lock :: "nv_env \<Rightarrow> nv_st \<Rightarrow> nv_st" where
  "nv_free_lock env st =
     st\<lparr>have_free_lock :=
       (if deepsleep_enable (fac st) = 0 then False
        else if \<not> CHECK_OPERATION_VER (fac st) then False
        else up_stat env \<noteq> EXTPIN_WAKEUP)\<rparr>"

definition nv_user_ram :: "nv_st \<Rightarrow> nv_st res" where
  "nv_user_ram st =
     (if high_freq_data (fac st) = 1 then
        bind_res (xy_assert (keep_retension_mem (fac st) = 1)) (\<lambda>_.
          Inr (st\<lparr>g_user_vol_data := Some (replicate DSP_VOLATILE_ALL_LEN 0)\<rparr>))
      else Inr st)"

text \<open>The volatile data: \<open>False\<close> is the jump to \<open>NV_ERR_PROC\<close>.\<close>

definition nv_read_flash :: "flash_drv \<Rightarrow> nv_env \<Rightarrow> nv_st \<Rightarrow> (bool \<times> nv_st) res" where
  "nv_read_flash drv env st =
     bind_res (xy_ftl_read drv (ns st) NV_FLASH_DSP_VOLATILE_BASE XY_FTL_AVAILABLE_SIZE) (\<lambda>((ret, d), s).
       let st = st\<lparr>ns := s\<rparr>
       in case (ret, d) of
            (XY_OK, Some d) \<Rightarrow> Inr (True, st\<lparr>backup := blit (backup st) 0 d\<rparr>)
          | _ \<Rightarrow>
              let st = set_dbg 11 st
              in if high_freq_data (fac st) = 1
                 then Inr (True, st\<lparr>backup := clear_backup (up_stat env \<noteq> SOFT_RESET) (backup st)\<rparr>)
                 else Inr (False, st))"

definition nv_abnormal_proc :: "flash_drv \<Rightarrow> nv_env \<Rightarrow> nv_st \<Rightarrow> (bool \<times> nv_st) res" where
  "nv_abnormal_proc drv env st =
     (if backup_threshold (fac st) \<noteq> 0 \<or> high_freq_data (fac st) = 1 then nv_read_flash drv env st
      else Inr (False, set_dbg 6 st))"

definition nv_load_volatile :: "flash_drv \<Rightarrow> nv_env \<Rightarrow> nv_st \<Rightarrow> (bool \<times> nv_st) res" where
  "nv_load_volatile drv env st =
     (if keep_retension_mem (fac st) = 1 then
        if get32 (backup st) BACKUP_MEM_CHECKSUM = softap_chksum (backup st) then
          if get32 (backup st) BACKUP_MEM_FLAG = BK_FLAG_INUSE_2 then
            (case g_user_vol_data st of
               None \<Rightarrow> Inl BadAccess
             | Some _ \<Rightarrow>
                 Inr (True, set_dbg 14 st\<lparr>g_user_vol_data := Some (take DSP_VOLATILE_ALL_LEN (backup st))\<rparr>))
          else if get32 (backup st) BACKUP_MEM_FLAG \<noteq> BK_FLAG_INUSE then nv_abnormal_proc drv env st
          else Inr (True, st)
        else nv_abnormal_proc drv env st
      else nv_read_flash drv env st)"

text \<open>What remains of the volatile data, and how the DSP is started.\<close>

definition nv_start_dsp :: "nv_env \<Rightarrow> nv_st \<Rightarrow> nv_st" where
  "nv_start_dsp env st =
     (if work_mode (fac st) \<noteq> 0 then set_dsp_no_work st else set_DSP_work_mode env st)"

definition nv_after_reset :: "nv_env \<Rightarrow> nv_st \<Rightarrow> nv_st" where
  "nv_after_reset env st =
     (let st = set_dbg 9 st; msec = rtc_msec_reset (backup st)
      in nv_start_dsp env
           (if up_stat env = SOFT_RESET \<and> reset_type env = RB_BY_NRB \<and> msec \<noteq> 0 \<and> msec \<noteq> 0xffffffff then
              let b = put_rtc_snap_sec (put_next_PS_sec (backup st) 0) 0;
                  b = on_rtc_list (fold (rtc_event_delete env) (nrb_ids env)) b;
                  b = on_rtc_list (restore_RTC_list env) b;
                  b = put_rtc_msec_reset b 0
              in st\<lparr>backup := blit b 0 (replicate DSP_VOLATILE_ALL_LEN 0)\<rparr>
            else st\<lparr>backup := clear_backup (up_stat env \<noteq> SOFT_RESET) (backup st)\<rparr>))"

definition nv_need_offtime :: "nv_env \<Rightarrow> nv_st \<Rightarrow> bool" where
  "nv_need_offtime env st \<longleftrightarrow> up_stat env = POWER_ON \<and> \<not> CHECK_OPERATION_VER (fac st)
     \<and> keep_retension_mem (fac st) = 0 \<and> offtime (fac st) = 1
     \<and> rtc_snap_sec (backup st) \<noteq> 0 \<and> next_PS_sec (backup st) \<noteq> 0
     \<and> rtc_snap_sec (backup st) < next_PS_sec (backup st)"

definition nv_after_wakeup :: "nv_env \<Rightarrow> nv_st \<Rightarrow> nv_st" where
  "nv_after_wakeup env st =
     (let no_lpm = blit (backup st) LPM_START (replicate LPM_LEN 0)
      in if work_mode (fac st) \<noteq> 0 then
           set_dsp_no_work (st\<lparr>backup := (if up_stat env = POWER_ON then clear_backup True (backup st)
                                          else on_rtc_list (restore_RTC_list env) no_lpm)\<rparr>)
         else if nv_need_offtime env st then
           set_dbg 12 st\<lparr>g_need_offtime := True, backup := no_lpm\<rparr>
         else if up_stat env = POWER_ON then
           set_DSP_work_mode env (st\<lparr>backup := clear_backup True (backup st)\<rparr>)
         else set_DSP_work_mode env (st\<lparr>backup := on_rtc_list (restore_RTC_list env) (backup st)\<rparr>))"

definition nv_wakeup :: "nv_env \<Rightarrow> nv_st \<Rightarrow> nv_st" where
  "nv_wakeup env st =
     (let dm_ctl_cpy = dm_cfg (backup st);
          st = (if up_stat env = WDT_RESET \<or> up_stat env = SOFT_RESET \<or> up_stat env = PIN_RESET
                then nv_after_reset env st else nv_after_wakeup env st)
      in if up_stat env = POWER_ON \<and> fac_need_start_dm (fac st) = 1
         then st\<lparr>backup := blit (backup st) dm_cfg_start dm_ctl_cpy\<rparr> else st)"

definition nv_err_proc :: "nv_env \<Rightarrow> nv_st \<Rightarrow> nv_st" where
  "nv_err_proc env st =
     (let st = (if up_stat env = WDT_RESET \<or> up_stat env = SOFT_RESET \<or> up_stat env = PIN_RESET
                   \<or> (up_stat env = POWER_ON \<and> (deepsleep_enable (fac st) = 0 \<or> work_mode (fac st) \<noteq> 0))
                then set_dbg 9 st else st)
      in nv_start_dsp env (st\<lparr>backup := clear_backup True (backup st)\<rparr>))"

definition nv_restore :: "flash_drv \<Rightarrow> nv_env \<Rightarrow> nv_st \<Rightarrow> nv_st res" where
  "nv_restore drv env st =
     bind_res (xy_nv_ftl_init (ns st)) (\<lambda>s.
     bind_res (xy_ftl_read drv s NV_FLASH_FACTORY_BASE (fac_len env)) (\<lambda>((_, d), s).
       let ram = (case d of None \<Rightarrow> ram_factory_nv st | Some d \<Rightarrow> d);
           st = st\<lparr>ns := s, ram_factory_nv := ram, fac := fac_of env (drop (dsp_fac_len env) ram)\<rparr>
       in bind_res (nv_abnormal_reset drv env st) (\<lambda>st.
          bind_res (nv_user_ram (nv_free_lock env (nv_baudrate env (init_DSP_external_POOL env st)))) (\<lambda>st.
          bind_res (nv_load_volatile drv env st) (\<lambda>(ok, st).
            Inr (if ok then nv_wakeup env st else nv_err_proc env st))))))"

section \<open>Conflicting settings\<close>

datatype nv_conflict = ConflictLog | ConflictHighFreq | ConflictOfftime | ConflictDeepsleep | ConflictNpsmr

definition check_conflict_nv :: "nv_fac \<Rightarrow> nv_conflict list" where
  "check_conflict_nv f =
     (if off_debug f = 1 then (if open_log f = 1 then [ConflictLog] else [])
      else
        (if high_freq_data f = 1 \<and> (work_mode f = 0 \<or> keep_retension_mem f \<noteq> 1) then [ConflictHighFreq] else []) @
        (if offtime f = 1 \<and> keep_retension_mem f = 1 then [ConflictOfftime] else []) @
        (if deepsleep_enable f = 0 \<and> (high_freq_data f \<noteq> 0 \<or> keep_retension_mem f \<noteq> 1) then [ConflictDeepsleep] else []) @
        (if deepsleep_enable f = 1 \<and> g_NPSMR_enable f = 1 \<and> offtime f \<noteq> 0 then [ConflictNpsmr] else []))"

end
