(* ===== verification/NvSpec.thy ===== *)
theory NvSpec
  imports Nv FotaSpec
begin

text \<open>
  Lemmas on the retention memory and on the flash blocks that the NV module writes and erases.
\<close>

section \<open>Retention memory\<close>

definition retained_valid :: "u8 list \<Rightarrow> bool" where
  "retained_valid b \<longleftrightarrow> get32 b BACKUP_MEM_CHECKSUM = softap_chksum b
     \<and> (get32 b BACKUP_MEM_FLAG = BK_FLAG_INUSE \<or> get32 b BACKUP_MEM_FLAG = BK_FLAG_INUSE_2)"

lemma bk_flags: "BK_FLAG_INUSE \<noteq> BK_FLAG_INUSE_2" "BK_FLAG_INVALID \<noteq> BK_FLAG_INUSE" "BK_FLAG_INVALID \<noteq> BK_FLAG_INUSE_2"
  by (simp_all add: BK_FLAG_INUSE_def BK_FLAG_INUSE_2_def BK_FLAG_INVALID_def)

lemma flag_words:
  assumes "length b = BACKUP_LEN"
  shows "take XY_FTL_AVAILABLE_SIZE (put32 (put32 b BACKUP_MEM_CHECKSUM c) BACKUP_MEM_FLAG f) = take XY_FTL_AVAILABLE_SIZE b"
    "get32 (put32 (put32 b BACKUP_MEM_CHECKSUM c) BACKUP_MEM_FLAG f) BACKUP_MEM_FLAG = f"
    "get32 (put32 (put32 b BACKUP_MEM_CHECKSUM c) BACKUP_MEM_FLAG f) BACKUP_MEM_CHECKSUM = c"
    "softap_chksum (put32 (put32 b BACKUP_MEM_CHECKSUM c) BACKUP_MEM_FLAG f) = softap_chksum b"
    "length (put32 (put32 b BACKUP_MEM_CHECKSUM c) BACKUP_MEM_FLAG f) = BACKUP_LEN"
proof -
  have l: "BACKUP_MEM_CHECKSUM + 4 \<le> length b" "BACKUP_MEM_FLAG + 4 \<le> length b"
    using assms by (simp_all add: backup_defs)
  have p: "BACKUP_MEM_FLAG + 4 \<le> length (put32 b BACKUP_MEM_CHECKSUM c)" using l by simp
  have o: "XY_FTL_AVAILABLE_SIZE \<le> BACKUP_MEM_CHECKSUM" "XY_FTL_AVAILABLE_SIZE \<le> BACKUP_MEM_FLAG"
      "BACKUP_MEM_CHECKSUM + 4 \<le> BACKUP_MEM_FLAG" "SOFTAP_START + SOFTAP_LEN \<le> BACKUP_MEM_CHECKSUM"
      "SOFTAP_START + SOFTAP_LEN \<le> BACKUP_MEM_FLAG" "SOFTAP_START + SOFTAP_LEN \<le> length b"
    using assms by (simp_all add: backup_defs XY_FTL_AVAILABLE_SIZE_def)
  show "take XY_FTL_AVAILABLE_SIZE (put32 (put32 b BACKUP_MEM_CHECKSUM c) BACKUP_MEM_FLAG f) = take XY_FTL_AVAILABLE_SIZE b"
    using take_put32_below [OF p o(2)] take_put32_below [OF l(1) o(1)] by simp
  show "get32 (put32 (put32 b BACKUP_MEM_CHECKSUM c) BACKUP_MEM_FLAG f) BACKUP_MEM_FLAG = f"
    by (rule get32_put32_same [OF p])
  show "get32 (put32 (put32 b BACKUP_MEM_CHECKSUM c) BACKUP_MEM_FLAG f) BACKUP_MEM_CHECKSUM = c"
    using get32_put32_other [OF p disjI1 [OF o(3)]] l get32_put32_same [OF l(1)] by simp
  show "softap_chksum (put32 (put32 b BACKUP_MEM_CHECKSUM c) BACKUP_MEM_FLAG f) = softap_chksum b"
    using read_put32_other [OF p disjI1 [OF o(5)]] read_put32_other [OF l(1) disjI1 [OF o(4)]] l o(6)
    by (simp add: softap_chksum_def)
  show "length (put32 (put32 b BACKUP_MEM_CHECKSUM c) BACKUP_MEM_FLAG f) = BACKUP_LEN" using l assms by simp
qed

lemma mark_backup_valid:
  assumes "length b = BACKUP_LEN"
  shows "take XY_FTL_AVAILABLE_SIZE (mark_backup f b) = take XY_FTL_AVAILABLE_SIZE b"
    "get32 (mark_backup f b) BACKUP_MEM_FLAG = f"
    "get32 (mark_backup f b) BACKUP_MEM_CHECKSUM = softap_chksum (mark_backup f b)"
    "length (mark_backup f b) = BACKUP_LEN"
  unfolding mark_backup_def using flag_words [OF assms] by simp_all

section \<open>Flash\<close>

context nor_flash
begin

lemma write_whole_block:
  assumes rdy: "ftl_ready s base" and snd: "ftl_sound s base" and bat: "battery_ok s"
    and len: "length d = XY_FTL_AVAILABLE_SIZE" and num: "ftl_last_num s base \<noteq> 0xFFFFFFFE"
  obtains m' where "ftl_write_or_die drv s base d = Inr (s\<lparr>flash := m'\<rparr>)"
    "xy_ftl_read drv (s\<lparr>flash := m'\<rparr>) base XY_FTL_AVAILABLE_SIZE = Inr ((XY_OK, Some d), s\<lparr>flash := m'\<rparr>)"
proof -
  have fits: "0 + length d \<le> XY_FTL_AVAILABLE_SIZE" using len by simp
  obtain m' where w: "xy_ftl_write drv s base (int 0) d = Inr (XY_OK, s\<lparr>flash := m'\<rparr>)"
      "ftl_sound (s\<lparr>flash := m'\<rparr>) base"
      "ftl_content (s\<lparr>flash := m'\<rparr>) base = Some (blit (ftl_base_data s base) 0 d)"
    using write_sound [OF rdy snd bat fits num] by blast
  have b: "blit (ftl_base_data s base) 0 d = d" using len by (simp add: blit_def)
  have z: "0 + XY_FTL_AVAILABLE_SIZE \<le> XY_FTL_AVAILABLE_SIZE" by simp
  have r: "xy_ftl_read drv (s\<lparr>flash := m'\<rparr>) base XY_FTL_AVAILABLE_SIZE = Inr ((XY_OK, Some d), s\<lparr>flash := m'\<rparr>)"
    using read_sound [where s = "s\<lparr>flash := m'\<rparr>" and base = base and off = 0 and n = XY_FTL_AVAILABLE_SIZE,
        OF _ w(2) z] rdy w(3) len b by simp
  show ?thesis by (rule that [OF _ r]) (use w(1) in \<open>simp add: ftl_write_or_die_def\<close>)
qed

lemma nv_erase:
  assumes "battery_ok s" "base \<in> {NV_FLASH_DSP_VOLATILE_BASE, NV_FLASH_DSP_NON_VOLATILE_BASE, NV_FLASH_NET_BASE}"
    "n = (if base = NV_FLASH_DSP_VOLATILE_BASE then NV_FLASH_DSP_VOLATILE_LEN
          else if base = NV_FLASH_DSP_NON_VOLATILE_BASE then NV_FLASH_DSP_NON_VOLATILE_LEN else NV_FLASH_NET_LEN)"
  shows "xy_flash_erase drv s base n = Inr (XY_OK, s\<lparr>flash := mem_write (flash s) base (replicate n 0xFF)\<rparr>)"
  by (rule xy_flash_erase_pages)
    (use assms in \<open>auto simp: in_flash_def memmap_defs EFTL_PAGE_SIZE_def\<close>)

end

end
