(* ===== verification/NvProps.thy ===== *)
theory NvProps
  imports NvSpec FtlProps
begin

text \<open>
  Properties of the NV module: deep sleep and wakeup, abnormal resets, and the registration data
  that must survive a power cycle.
\<close>

section \<open>A system\<close>

definition demo_nv_fac :: nv_fac where
  "demo_nv_fac = \<lparr>deepsleep_enable = 1, high_freq_data = 0, keep_retension_mem = 0, work_mode = 0, offtime = 0,
     save_cloud = 0, open_log = 0, log_size = 0, dsp_ext_pool = 20, off_debug = 0, g_NPSMR_enable = 0,
     fac_need_start_dm = 1, ver_type = 1, backup_threshold = 0, uart_rate = 4\<rparr>"

definition demo_nv_st :: "mem \<Rightarrow> u8 list \<Rightarrow> nv_st" where
  "demo_nv_st m b = \<lparr>ns = booted m, backup = b, ram_factory_nv = [], fac = demo_nv_fac, g_user_vol_data = None,
     g_dsp_mode_dbg = 0, g_need_offtime = False, g_normal_wakeup = False, ps_start_sync = PS_OFF,
     have_free_lock = False, g_current_baudrate = 0, g_BKMEMCTL_reg = 0x11, dsp_pool_words = []\<rparr>"

definition demo_env :: nv_env where
  "demo_env = \<lparr>up_stat = POWER_ON, reset_type = RB_BY_NRB, cur_rtc_sec = 100, global_sec = 100, rtc_msec = 100000,
     rtc_wakeup_type = 0, main_pin_reset = False, g_autobaud_rate = 9600, ext_heap_ptr = 0x20010000,
     dsp_log_ptr = 0x20018000, fac_of = (\<lambda>_. demo_nv_fac), fac_len = 4000, dsp_fac_len = 3400,
     restore_RTC_list = id, rtc_event_delete = (\<lambda>_. id), clear_lpm_event = id, lpm_id = 1, nrb_ids = [2, 3, 4]\<rparr>"

lemma booted_volatile:
  "ftl_pages (booted m) NV_FLASH_DSP_VOLATILE_BASE = 3" "ftl_ready (booted m) NV_FLASH_DSP_VOLATILE_BASE"
proof -
  show p: "ftl_pages (booted m) NV_FLASH_DSP_VOLATILE_BASE = 3"
    by (simp add: ftl_pages_def find_valid_ftl_cfg_def booted_def memmap_defs)
  show "ftl_ready (booted m) NV_FLASH_DSP_VOLATILE_BASE"
    by (simp add: ftl_ready_def p buf_ok_def in_flash_def)
      (simp add: booted_def blank_sys_def memmap_defs EFTL_PAGE_SIZE_def)
qed

lemma fresh_last: "ftl_last_num (booted factory_fresh) NV_FLASH_DSP_VOLATILE_BASE \<noteq> 0xFFFFFFFE"
  by (simp add: ftl_last_num_def) (simp add: memmap_defs)

section \<open>Deep sleep\<close>

text \<open>C13: the volatile data of the stack and the applications survives deep sleep.  Saving succeeds,
  and after the wakeup the 4076 bytes are what they were: from flash when they were written back,
  whatever is in a retention memory that does not claim to be valid, and from the retention memory
  itself otherwise; after a write-back the retention memory does not claim to be valid.\<close>

theorem deep_sleep_keeps_volatile_nv:
  assumes drv: "nor_flash drv" and rdy: "ftl_ready (ns st) NV_FLASH_DSP_VOLATILE_BASE"
    "ftl_sound (ns st) NV_FLASH_DSP_VOLATILE_BASE" "battery_ok (ns st)"
    "ftl_last_num (ns st) NV_FLASH_DSP_VOLATILE_BASE \<noteq> 0xFFFFFFFE"
    and len: "length (backup st) = BACKUP_LEN" and cfg: "high_freq_data (fac st) \<noteq> 1" "keep_retension_mem (fac st) = 0 \<or> keep_retension_mem (fac st) = 1"
  shows "\<exists>st1. save_volatile_nv drv env False st = Inr st1
    \<and> (varnv_is_need_wrtieback env st \<longrightarrow> \<not> retained_valid (backup st1))
    \<and> (\<forall>b env'. length b = BACKUP_LEN
         \<and> (if varnv_is_need_wrtieback env st then \<not> retained_valid b else b = backup st1) \<longrightarrow>
         (\<exists>st2. nv_load_volatile drv env' (st1\<lparr>backup := b\<rparr>) = Inr (True, st2)
            \<and> take XY_FTL_AVAILABLE_SIZE (backup st2) = take XY_FTL_AVAILABLE_SIZE (backup st)))"
proof (cases "varnv_is_need_wrtieback env st")
  case True
  let ?d = "take XY_FTL_AVAILABLE_SIZE (backup st)"
  have ld: "length ?d = XY_FTL_AVAILABLE_SIZE" using len by (simp add: backup_defs XY_FTL_AVAILABLE_SIZE_def)
  obtain m' where w: "ftl_write_or_die drv (ns st) NV_FLASH_DSP_VOLATILE_BASE ?d = Inr (ns st\<lparr>flash := m'\<rparr>)"
      "xy_ftl_read drv (ns st\<lparr>flash := m'\<rparr>) NV_FLASH_DSP_VOLATILE_BASE XY_FTL_AVAILABLE_SIZE
         = Inr ((XY_OK, Some ?d), ns st\<lparr>flash := m'\<rparr>)"
    using nor_flash.write_whole_block [OF drv rdy(1-3) ld rdy(4)] by blast
  let ?b = "put32 (put32 (backup st) BACKUP_MEM_CHECKSUM (get32 (backup st) BACKUP_MEM_CHECKSUM + 1)) BACKUP_MEM_FLAG
              BK_FLAG_INVALID"
  let ?st1 = "st\<lparr>ns := ns st\<lparr>flash := m'\<rparr>, backup := ?b, g_BKMEMCTL_reg := g_BKMEMCTL_reg st AND 0xFE\<rparr>"
  have save: "save_volatile_nv drv env False st = Inr ?st1"
    using True cfg(1) w(1) by (simp add: save_volatile_nv_def Let_def)
  have inv: "\<not> retained_valid ?b"
    using flag_words(2) [OF len] bk_flags by (simp add: retained_valid_def)
  have rd: "nv_read_flash drv env' (?st1\<lparr>backup := b\<rparr>) = Inr (True, ?st1\<lparr>backup := blit b 0 ?d\<rparr>)" for env' b
    using w(2) by (simp add: nv_read_flash_def)
  have load: "nv_load_volatile drv env' (?st1\<lparr>backup := b\<rparr>) = Inr (True, ?st1\<lparr>backup := blit b 0 ?d\<rparr>)"
    if "\<not> retained_valid b" for env' b
  proof (cases "keep_retension_mem (fac st) = 1")
    case True1: True
    then have "backup_threshold (fac st) \<noteq> 0" using True by (simp add: varnv_is_need_wrtieback_def)
    then have "nv_abnormal_proc drv env' (?st1\<lparr>backup := b\<rparr>) = Inr (True, ?st1\<lparr>backup := blit b 0 ?d\<rparr>)"
      using rd [of env' b] by (simp add: nv_abnormal_proc_def)
    then show ?thesis using that True1 by (auto simp: nv_load_volatile_def retained_valid_def)
  next
    case False
    then show ?thesis using rd [of env' b] by (simp add: nv_load_volatile_def)
  qed
  have "take XY_FTL_AVAILABLE_SIZE (blit b 0 ?d) = ?d" for b
    using ld by (simp add: blit_def)
  then show ?thesis using save inv load True by auto
next
  case False
  have keep: "keep_retension_mem (fac st) = 1"
    using False cfg(2) by (auto simp: varnv_is_need_wrtieback_def)
  let ?st1 = "st\<lparr>backup := mark_backup BK_FLAG_INUSE (backup st), g_BKMEMCTL_reg := 0x41\<rparr>"
  have save: "save_volatile_nv drv env False st = Inr ?st1"
    using False cfg(1) by (simp add: save_volatile_nv_def Let_def)
  have "nv_load_volatile drv env' ?st1 = Inr (True, ?st1)" for env'
    using mark_backup_valid [OF len, of BK_FLAG_INUSE] keep bk_flags by (simp add: nv_load_volatile_def)
  then show ?thesis
    using save False mark_backup_valid(1) [OF len, of BK_FLAG_INUSE] by auto
qed

theorem deep_sleep_keeps_volatile_nv_witness:
  "\<exists>st1 st2. save_volatile_nv nor_drv demo_env False (demo_nv_st factory_fresh (replicate BACKUP_LEN 7)) = Inr st1
     \<and> nv_load_volatile nor_drv demo_env (st1\<lparr>backup := replicate BACKUP_LEN 0\<rparr>) = Inr (True, st2)
     \<and> take XY_FTL_AVAILABLE_SIZE (backup st2) = replicate XY_FTL_AVAILABLE_SIZE 7"
proof -
  let ?st = "demo_nv_st factory_fresh (replicate BACKUP_LEN 7)"
  have f: "ns ?st = booted factory_fresh" "backup ?st = replicate BACKUP_LEN 7" "fac ?st = demo_nv_fac"
    by (simp_all add: demo_nv_st_def)
  have k: "high_freq_data demo_nv_fac \<noteq> 1" "keep_retension_mem demo_nv_fac = 0" by (simp_all add: demo_nv_fac_def)
  have wb: "varnv_is_need_wrtieback demo_env ?st" using k f by (simp add: varnv_is_need_wrtieback_def)
  have flag: "get32 (replicate BACKUP_LEN 0) BACKUP_MEM_FLAG = 0"
    by (simp add: get32_def u32_of_def backup_defs)
  have inv: "\<not> retained_valid (replicate BACKUP_LEN 0)"
    unfolding retained_valid_def flag by (simp add: BK_FLAG_INUSE_def BK_FLAG_INUSE_2_def)
  obtain st1 where st1: "save_volatile_nv nor_drv demo_env False ?st = Inr st1"
      "\<forall>b env'. length b = BACKUP_LEN
         \<and> (if varnv_is_need_wrtieback demo_env ?st then \<not> retained_valid b else b = backup st1) \<longrightarrow>
         (\<exists>st2. nv_load_volatile nor_drv env' (st1\<lparr>backup := b\<rparr>) = Inr (True, st2)
            \<and> take XY_FTL_AVAILABLE_SIZE (backup st2) = take XY_FTL_AVAILABLE_SIZE (backup ?st))"
    using deep_sleep_keeps_volatile_nv [OF nor_is_flash, of ?st demo_env] booted_volatile(2) fresh_sound
      booted_battery fresh_last k f by auto
  have "take XY_FTL_AVAILABLE_SIZE (backup ?st) = replicate XY_FTL_AVAILABLE_SIZE 7"
    unfolding f(2) by (simp add: backup_defs XY_FTL_AVAILABLE_SIZE_def)
  then show ?thesis
    using st1(1) spec [OF spec [OF st1(2), of "replicate BACKUP_LEN 0"], of demo_env] wb inv by auto
qed

section \<open>Abnormal resets\<close>

definition nv_blocks :: "nat set" where
  "nv_blocks = {NV_FLASH_DSP_VOLATILE_BASE ..< NV_FLASH_DSP_VOLATILE_BASE + NV_FLASH_DSP_VOLATILE_LEN}
     \<union> {NV_FLASH_DSP_NON_VOLATILE_BASE ..< NV_FLASH_DSP_NON_VOLATILE_BASE + NV_FLASH_DSP_NON_VOLATILE_LEN}
     \<union> {NV_FLASH_NET_BASE ..< NV_FLASH_NET_BASE + NV_FLASH_NET_LEN}"

lemma mem_write_blank: "mem_write m a (replicate n 0xFF) x = (if a \<le> x \<and> x < a + n then 0xFF else m x)"
  by (auto simp: mem_write_def)

text \<open>C15: after a watchdog, assertion or pin reset exactly the volatile, non-volatile and network blocks
  are erased; every other byte of the flash, the factory configuration included, is kept.\<close>

theorem abnormal_reset_keeps_factory:
  assumes "nor_flash drv" "battery_ok s" "state \<noteq> 0"
  shows "\<exists>s'. erase_flash_by_abnormal drv s state = Inr s'
    \<and> (\<forall>x. flash s' x = (if x \<in> nv_blocks then 0xFF else flash s x))
    \<and> nv_blocks \<inter> {NV_FLASH_FACTORY_BASE ..< NV_FLASH_FACTORY_BASE + NV_FLASH_FACTORY_LEN} = {}
    \<and> nv_blocks \<inter> {NV_FLASH_MAIN_FACTORY_BASE ..< NV_FLASH_MAIN_FACTORY_BASE + EFTL_PAGE_SIZE} = {}"
proof -
  have b: "battery_ok (s\<lparr>flash := m\<rparr>)" for m using assms(2) by simp
  note er = nor_flash.nv_erase [OF assms(1)]
  let ?m1 = "mem_write (flash s) NV_FLASH_DSP_VOLATILE_BASE (replicate NV_FLASH_DSP_VOLATILE_LEN 0xFF)"
  let ?m2 = "mem_write ?m1 NV_FLASH_DSP_NON_VOLATILE_BASE (replicate NV_FLASH_DSP_NON_VOLATILE_LEN 0xFF)"
  let ?m3 = "mem_write ?m2 NV_FLASH_NET_BASE (replicate NV_FLASH_NET_LEN 0xFF)"
  have "erase_flash_by_abnormal drv s state = Inr (s\<lparr>flash := ?m3\<rparr>)"
    using assms(3) er [OF assms(2), of NV_FLASH_DSP_VOLATILE_BASE NV_FLASH_DSP_VOLATILE_LEN]
      er [OF b [of ?m1], of NV_FLASH_DSP_NON_VOLATILE_BASE NV_FLASH_DSP_NON_VOLATILE_LEN]
      er [OF b [of ?m2], of NV_FLASH_NET_BASE NV_FLASH_NET_LEN]
    by (simp add: erase_flash_by_abnormal_def) (simp add: memmap_defs)
  moreover have "?m3 x = (if x \<in> nv_blocks then 0xFF else flash s x)" for x
    by (simp add: mem_write_blank nv_blocks_def)
  moreover have "nv_blocks \<inter> {NV_FLASH_FACTORY_BASE ..< NV_FLASH_FACTORY_BASE + NV_FLASH_FACTORY_LEN} = {}"
    "nv_blocks \<inter> {NV_FLASH_MAIN_FACTORY_BASE ..< NV_FLASH_MAIN_FACTORY_BASE + EFTL_PAGE_SIZE} = {}"
    by (auto simp: nv_blocks_def memmap_defs EFTL_PAGE_SIZE_def)
  ultimately show ?thesis by auto
qed

theorem abnormal_reset_keeps_factory_witness:
  "\<exists>s'. erase_flash_by_abnormal nor_drv (booted (\<lambda>_. 0)) 1 = Inr s' \<and> flash s' NV_FLASH_NET_BASE = 0xFF
     \<and> flash s' NV_FLASH_FACTORY_BASE = 0"
proof -
  have "NV_FLASH_NET_BASE \<in> nv_blocks" "NV_FLASH_FACTORY_BASE \<notin> nv_blocks"
    by (simp_all add: nv_blocks_def memmap_defs)
  then show ?thesis using abnormal_reset_keeps_factory [OF nor_is_flash, of "booted (\<lambda>_. 0)" 1] by fastforce
qed

section \<open>The DM registration\<close>

lemma dm_cfg_prefix: "take RTCLIST_START b = take RTCLIST_START b' \<Longrightarrow> dm_cfg b = dm_cfg b'"
proof -
  assume a: "take RTCLIST_START b = take RTCLIST_START b'"
  have "dm_cfg c = take dm_cfg_len (drop dm_cfg_start (take RTCLIST_START c))" for c :: "u8 list"
    by (simp add: dm_cfg_def dm_cfg_len_def dm_cfg_start_def backup_defs min_def drop_take)
  then show ?thesis using a by metis
qed

lemma start_dsp_keeps_dm_cfg:
  assumes "length (backup st) = BACKUP_LEN"
  shows "dm_cfg (backup (nv_start_dsp env st)) = dm_cfg (backup st)"
proof -
  have on: "take RTCLIST_START (on_rtc_list f b) = take RTCLIST_START b" if "length b = BACKUP_LEN" for f b
    using that by (simp add: on_rtc_list_def blit_def backup_defs)
  have l: "length (put_next_PS_sec (backup st) 0) = BACKUP_LEN"
    using assms by (simp add: put_next_PS_sec_def backup_defs)
  have p: "dm_cfg (put_next_PS_sec (backup st) 0) = dm_cfg (backup st)"
    unfolding dm_cfg_def put_next_PS_sec_def
    by (rule read_put32_other) (use assms in \<open>simp_all add: dm_cfg_start_def dm_cfg_len_def backup_defs\<close>)
  show ?thesis
    using p dm_cfg_prefix [OF on [OF l]]
    by (simp add: nv_start_dsp_def set_dsp_no_work_def set_DSP_work_mode_def Let_def split: prod.split)
qed

text \<open>with the retention memory in use and no write-back threshold, a power-on that finds the
  retention memory invalid clears the registration data of the device management, although a copy
  may be in flash and the code's comment asks for it to be valid whatever happens: the copy in
  flash is not read and dm_cfg is all zero at the end.\<close>

lemma power_on_forgets_dm_cfg:
  assumes "keep_retension_mem (fac st) = 1" "backup_threshold (fac st) = 0" "high_freq_data (fac st) \<noteq> 1"
    and "\<not> retained_valid (backup st)" "length (backup st) = BACKUP_LEN"
  shows "\<exists>st'. nv_load_volatile drv env st = Inr (False, st')
    \<and> dm_cfg (backup (nv_err_proc env st')) = replicate dm_cfg_len 0"
proof -
  have l: "nv_load_volatile drv env st = Inr (False, set_dbg 6 st)"
    using assms by (auto simp: nv_load_volatile_def nv_abnormal_proc_def retained_valid_def)
  have len: "length (clear_backup True (backup st)) = BACKUP_LEN" using assms(5) by (simp add: clear_backup_def)
  have c: "dm_cfg (clear_backup True (backup st)) = replicate dm_cfg_len 0"
    using assms(5) by (simp add: dm_cfg_def clear_backup_def dm_cfg_start_def dm_cfg_len_def backup_defs)
  have "dm_cfg (backup (nv_start_dsp env (x\<lparr>backup := clear_backup True (backup st)\<rparr>))) = replicate dm_cfg_len 0" for x
    using start_dsp_keeps_dm_cfg [of "x\<lparr>backup := clear_backup True (backup st)\<rparr>" env] len c by simp
  then have "dm_cfg (backup (nv_err_proc env (set_dbg 6 st))) = replicate dm_cfg_len 0"
    by (simp add: nv_err_proc_def Let_def)
  then show ?thesis using l by blast
qed

lemma power_on_forgets_dm_cfg_witness:
  "\<exists>st'. nv_load_volatile nor_drv demo_env
        ((demo_nv_st factory_fresh (replicate BACKUP_LEN 0))\<lparr>fac := demo_nv_fac\<lparr>keep_retension_mem := 1\<rparr>\<rparr>) = Inr (False, st')
     \<and> dm_cfg (backup (nv_err_proc demo_env st')) = replicate dm_cfg_len 0"
proof -
  have flag: "get32 (replicate BACKUP_LEN 0) BACKUP_MEM_FLAG = 0"
    by (simp add: get32_def u32_of_def backup_defs)
  have inv: "\<not> retained_valid (replicate BACKUP_LEN 0)"
    unfolding retained_valid_def flag by (simp add: BK_FLAG_INUSE_def BK_FLAG_INUSE_2_def)
  let ?st = "(demo_nv_st factory_fresh (replicate BACKUP_LEN 0))\<lparr>fac := demo_nv_fac\<lparr>keep_retension_mem := 1\<rparr>\<rparr>"
  show ?thesis
    by (rule power_on_forgets_dm_cfg) (use inv in \<open>simp_all add: demo_nv_st_def demo_nv_fac_def\<close>)
qed









end
