(* ===== verification/Simulation.thy ===== *)
theory Simulation
  imports Prelude
begin

text \<open>
  What it means that a component follows its specification message by message, failures
  included, and that a run of it then follows the run of the specification.
\<close>

section \<open>Following a specification step by step\<close>

text \<open>Running a list of messages, and a condition on every message at the state that meets it.\<close>

fun run_steps :: "('m \<Rightarrow> 's \<Rightarrow> 's res) \<Rightarrow> 'm list \<Rightarrow> 's \<Rightarrow> 's res" where
  "run_steps step [] s = Inr s"
| "run_steps step (m # ms) s = bind_res (step m s) (run_steps step ms)"

fun all_steps :: "('m \<Rightarrow> 's \<Rightarrow> bool) \<Rightarrow> ('m \<Rightarrow> 's \<Rightarrow> 's res) \<Rightarrow> 'm list \<Rightarrow> 's \<Rightarrow> bool" where
  "all_steps P step [] s = True"
| "all_steps P step (m # ms) s \<longleftrightarrow>
     P m s \<and> (case step m s of Inl e \<Rightarrow> True | Inr s' \<Rightarrow> all_steps P step ms s')"

lemma run_steps_append: "run_steps step (ms @ ns) s = bind_res (run_steps step ms s) (run_steps step ns)"
  by (induction ms arbitrary: s) (auto simp: bind_res_def split: sum.splits)

locale op_simulation =
  fixes inv :: "'s \<Rightarrow> bool"
    and abs_of :: "'s \<Rightarrow> 'a"
    and step :: "'m \<Rightarrow> 's \<Rightarrow> 's res"
    and spec :: "'m \<Rightarrow> 'a \<Rightarrow> 'a res"
    and admissible :: "'m \<Rightarrow> 's \<Rightarrow> bool"
  assumes step_fails: "inv s \<Longrightarrow> admissible m s \<Longrightarrow> step m s = Inl e \<Longrightarrow> spec m (abs_of s) = Inl e"
    and step_works: "inv s \<Longrightarrow> admissible m s \<Longrightarrow> step m s = Inr s' \<Longrightarrow>
      inv s' \<and> spec m (abs_of s) = Inr (abs_of s')"
begin

lemma run_follows:
  "inv s \<Longrightarrow> all_steps admissible step ms s \<Longrightarrow>
     (case run_steps step ms s of
        Inl e \<Rightarrow> run_steps spec ms (abs_of s) = Inl e
      | Inr s' \<Rightarrow> inv s' \<and> run_steps spec ms (abs_of s) = Inr (abs_of s'))"
proof (induction ms arbitrary: s)
  case Nil
  then show ?case by simp
next
  case (Cons m ms)
  show ?case
  proof (cases "step m s")
    case (Inl e)
    then show ?thesis using step_fails [OF Cons.prems(1) _ Inl] Cons.prems(2) by simp
  next
    case (Inr s')
    then show ?thesis
      using step_works [OF Cons.prems(1) _ Inr] Cons.prems(2) Cons.IH [of s']
      by (auto split: sum.splits)
  qed
qed

end

end
