(* ===== verification/Netif.thy ===== *)
theory Netif
  imports Simulation
begin

text \<open>
  The network interfaces of the packet service: \<open>APPLIB/lwip/xy_adapter/src/netif_mgmt.c\<close>, the
  interface table of \<open>ps_netif_api.c\<close>, the functions of \<open>core/netif.c\<close> of lwIP they call, and the
  proxy thread of \<open>SYSLIB/system/src/xy_proxy.c\<close> that runs them.  Interfaces are objects at
  addresses: \<open>ps_if\<close>, the list of lwIP and \<open>netif_default\<close> share them.  The address the allocator
  gives a new interface is an argument.  The notifications of \<open>netif_do_ip_addr_changed\<close> and
  the ND6 module to the protocols, and the debug output, are not modelled.
\<close>

section \<open>State\<close>

text \<open>\<open>struct pdp_active_info\<close> with its \<open>ip4_netif_into\<close>; \<open>char\<close> is signed in this build.\<close>

record pdp_active_info =
  c_id :: u8
  ip46flag :: u8
  pdp_ip :: u32
  gateway :: u32
  pri_dns :: u32
  sec_dns :: u32
  ipv6 :: "u32 list"

definition NON_IP :: u8 where "NON_IP = 0"
definition IPV4_TYPE :: u8 where "IPV4_TYPE = 1"
definition IPV6_TYPE :: u8 where "IPV6_TYPE = 2"
definition IPV46_TYPE :: u8 where "IPV46_TYPE = 3"

lemmas ip_type_defs = NON_IP_def IPV4_TYPE_def IPV6_TYPE_def IPV46_TYPE_def

datatype netif_output = netif_null_output | netif_ps_output

text \<open>
  \<open>struct netif\<close>; \<open>name_rest\<close> are the bytes that follow the member \<open>num\<close> up to the first zero:
  \<open>name\<close> has no terminator of its own.
\<close>

record netif =
  ip_addr :: u32
  ip6_addr :: "u32 list list"
  ip6_addr_state :: "u8 list"
  out4 :: netif_output
  out6 :: netif_output
  status_callback :: bool
  netif_state :: "pdp_active_info option"
  flags :: u8
  if_name :: string
  num :: u8
  name_rest :: string
  ip6_autoconfig_enabled :: bool

definition netif_zero :: netif where
  "netif_zero = \<lparr>ip_addr = 0, ip6_addr = replicate 2 (replicate 4 0), ip6_addr_state = [0, 0],
     out4 = netif_null_output, out6 = netif_null_output, status_callback = False, netif_state = None,
     flags = 0, if_name = '''', num = 0, name_rest = '''', ip6_autoconfig_enabled = False\<rparr>"

definition NETIF_FLAG_UP :: u8 where "NETIF_FLAG_UP = 0x01"
definition NETIF_FLAG_LINK_UP :: u8 where "NETIF_FLAG_LINK_UP = 0x04"
definition IP6_ADDR_VALID :: u8 where "IP6_ADDR_VALID = 0x10"
definition IP6_ADDR_PREFERRED :: u8 where "IP6_ADDR_PREFERRED = 0x30"
definition IP6_ADDR_TENTATIVE_COUNT_MASK :: u8 where "IP6_ADDR_TENTATIVE_COUNT_MASK = 0x07"

lemmas flag_defs = NETIF_FLAG_UP_def NETIF_FLAG_LINK_UP_def IP6_ADDR_VALID_def IP6_ADDR_PREFERRED_def
  IP6_ADDR_TENTATIVE_COUNT_MASK_def

definition netif_is_up :: "netif \<Rightarrow> bool" where
  "netif_is_up n \<longleftrightarrow> flags n AND NETIF_FLAG_UP \<noteq> 0"

definition netif_is_link_up :: "netif \<Rightarrow> bool" where
  "netif_is_link_up n \<longleftrightarrow> flags n AND NETIF_FLAG_LINK_UP \<noteq> 0"

datatype netif_mgmt_event = NETIF_MGMT_EVENT_UP | NETIF_MGMT_EVENT_DOWN | NETIF_MGMT_EVENT_IPV6

fun event_no :: "netif_mgmt_event \<Rightarrow> nat" where
  "event_no NETIF_MGMT_EVENT_UP = 0"
| "event_no NETIF_MGMT_EVENT_DOWN = 1"
| "event_no NETIF_MGMT_EVENT_IPV6 = 2"

record netif_mgmt_event_callback_t =
  cb_netif_name :: string
  callback :: nat
  netif_mgmt_event_bitmap :: u32

record ps_netif =
  cid :: u8
  ps_eth :: "nat option"

definition PS_PDP_CID_MAX :: nat where "PS_PDP_CID_MAX = 2"

text \<open>What the code calls and posts, in order: callbacks with interface and event, and PS events.\<close>

datatype net_out = Callback nat nat netif_mgmt_event | PsEvent bool

record net =
  netifs :: "nat \<rightharpoonup> netif"
  ps_if :: "ps_netif list"
  netif_list :: "nat list"
  netif_default :: "nat option"
  netif_num :: u8
  dns_servers :: "u32 list"
  ref_pridns :: u32
  ref_secdns :: u32
  cb_objs :: "nat \<rightharpoonup> netif_mgmt_event_callback_t"
  netif_mgmt_event_callback_list :: "nat list"
  net_log :: "net_out list"

definition get_netif :: "net \<Rightarrow> nat \<Rightarrow> netif res" where
  "get_netif s a = (case netifs s a of None \<Rightarrow> Inl BadAccess | Some n \<Rightarrow> Inr n)"

definition upd_netif :: "nat \<Rightarrow> (netif \<Rightarrow> netif) \<Rightarrow> net \<Rightarrow> net" where
  "upd_netif a f s = s\<lparr>netifs := (netifs s)(a := map_option f (netifs s a))\<rparr>"

section \<open>netif_mgmt.c\<close>

text \<open>A callback object lives at an address; \<open>0\<close> is \<open>NULL\<close>.\<close>

definition netif_mgmt_init_event_callback :: "nat \<Rightarrow> nat \<Rightarrow> netif_mgmt_event \<Rightarrow> net \<Rightarrow> net res" where
  "netif_mgmt_init_event_callback cb func event s =
     bind_res (xy_assert (cb \<noteq> 0)) (\<lambda>_.
       Inr (s\<lparr>cb_objs := (cb_objs s)(cb \<mapsto>
         \<lparr>cb_netif_name = '''', callback = func,
          netif_mgmt_event_bitmap = 0 OR push_bit (event_no event) 1\<rparr>)\<rparr>))"

definition netif_mgmt_add_event_callback_to_list :: "nat \<Rightarrow> net \<Rightarrow> net" where
  "netif_mgmt_add_event_callback_to_list cb s =
     s\<lparr>netif_mgmt_event_callback_list := netif_mgmt_event_callback_list s @ [cb]\<rparr>"

definition netif_mgmt_add_event_callback :: "nat \<Rightarrow> net \<Rightarrow> net res" where
  "netif_mgmt_add_event_callback cb s =
     bind_res (xy_assert (cb \<noteq> 0)) (\<lambda>_. Inr (netif_mgmt_add_event_callback_to_list cb s))"

text \<open>The two cases of the code, first node and later node; the first match is unlinked.\<close>

fun unlink_after_first :: "nat \<Rightarrow> nat list \<Rightarrow> nat list" where
  "unlink_after_first cb [] = []"
| "unlink_after_first cb (cur # rest) = (if cur = cb then rest else cur # unlink_after_first cb rest)"

definition netif_mgmt_del_event_callback :: "nat \<Rightarrow> net \<Rightarrow> int \<times> net" where
  "netif_mgmt_del_event_callback cb s =
     (case netif_mgmt_event_callback_list s of
        [] \<Rightarrow> (-1, s)
      | first # rest \<Rightarrow>
          (0, s\<lparr>netif_mgmt_event_callback_list :=
                 (if first = cb then rest else first # unlink_after_first cb rest)\<rparr>))"

definition netif_cname :: "netif \<Rightarrow> string" where
  "netif_cname n = (if num n = 0 then if_name n else if_name n @ char_of (unat (num n)) # name_rest n)"

definition cb_wants :: "netif_mgmt_event_callback_t \<Rightarrow> netif \<Rightarrow> netif_mgmt_event \<Rightarrow> bool" where
  "cb_wants cb n event \<longleftrightarrow>
     bit (netif_mgmt_event_bitmap cb) (event_no event)
     \<and> (cb_netif_name cb = '''' \<or> cb_netif_name cb = netif_cname n)"

fun run_callbacks ::
    "(nat \<rightharpoonup> netif_mgmt_event_callback_t) \<Rightarrow> nat \<Rightarrow> netif \<Rightarrow> netif_mgmt_event \<Rightarrow> nat list \<Rightarrow> net_out list res" where
  "run_callbacks objs a n event [] = Inr []"
| "run_callbacks objs a n event (cur # rest) =
     (case objs cur of
        None \<Rightarrow> Inl BadAccess
      | Some cb \<Rightarrow>
          bind_res (run_callbacks objs a n event rest) (\<lambda>out.
            Inr (if cb_wants cb n event then Callback (callback cb) a event # out else out)))"

definition netif_mgmt_status_callback_proc :: "nat \<Rightarrow> net \<Rightarrow> net res" where
  "netif_mgmt_status_callback_proc a s =
     bind_res (get_netif s a) (\<lambda>n.
     let up = netif_is_up n;
         event = (if up then (if ip6_addr_state n ! 1 = IP6_ADDR_PREFERRED then NETIF_MGMT_EVENT_IPV6
                              else NETIF_MGMT_EVENT_UP)
                  else NETIF_MGMT_EVENT_DOWN)
     in bind_res (run_callbacks (cb_objs s) a n event (netif_mgmt_event_callback_list s)) (\<lambda>out.
          Inr (s\<lparr>net_log := net_log s @ out @ [PsEvent up]\<rparr>)))"

definition set_netif_mgmt_status_callback :: "nat \<Rightarrow> net \<Rightarrow> net" where
  "set_netif_mgmt_status_callback a s = upd_netif a (\<lambda>n. n\<lparr>status_callback := True\<rparr>) s"

section \<open>core/netif.c\<close>

definition NETIF_STATUS_CALLBACK :: "nat \<Rightarrow> net \<Rightarrow> net res" where
  "NETIF_STATUS_CALLBACK a s =
     bind_res (get_netif s a) (\<lambda>n.
       if status_callback n then netif_mgmt_status_callback_proc a s else Inr s)"

definition netif_set_default :: "nat option \<Rightarrow> net \<Rightarrow> net" where
  "netif_set_default a s = s\<lparr>netif_default := a\<rparr>"

definition netif_set_up :: "nat \<Rightarrow> net \<Rightarrow> net res" where
  "netif_set_up a s =
     bind_res (get_netif s a) (\<lambda>n.
       if netif_is_up n then Inr s
       else NETIF_STATUS_CALLBACK a (upd_netif a (\<lambda>n. n\<lparr>flags := flags n OR NETIF_FLAG_UP\<rparr>) s))"

definition netif_set_down :: "nat \<Rightarrow> net \<Rightarrow> net res" where
  "netif_set_down a s =
     bind_res (get_netif s a) (\<lambda>n.
       if netif_is_up n
       then NETIF_STATUS_CALLBACK a (upd_netif a (\<lambda>n. n\<lparr>flags := flags n AND NOT NETIF_FLAG_UP\<rparr>) s)
       else Inr s)"

text \<open>No link callback is ever set by this program.\<close>

definition netif_set_link_up :: "nat \<Rightarrow> net \<Rightarrow> net res" where
  "netif_set_link_up a s =
     bind_res (get_netif s a) (\<lambda>n.
       Inr (if netif_is_link_up n then s
            else upd_netif a (\<lambda>n. n\<lparr>flags := flags n OR NETIF_FLAG_LINK_UP\<rparr>) s))"

definition netif_ip6_addr_set_state :: "nat \<Rightarrow> nat \<Rightarrow> u8 \<Rightarrow> net \<Rightarrow> net res" where
  "netif_ip6_addr_set_state a addr_idx st s =
     bind_res (get_netif s a) (\<lambda>n.
     let old_state = ip6_addr_state n ! addr_idx
     in if old_state = st then Inr s
        else let s = upd_netif a (\<lambda>n. n\<lparr>ip6_addr_state := (ip6_addr_state n)[addr_idx := st]\<rparr>) s
             in if old_state AND NOT IP6_ADDR_TENTATIVE_COUNT_MASK \<noteq> st AND NOT IP6_ADDR_TENTATIVE_COUNT_MASK
                then NETIF_STATUS_CALLBACK a s else Inr s)"

text \<open>
  The search for an unused number.  \<open>netif_add\<close> repeats it until no interface of the list has the
  number; with at most 254 numbers in use 256 rounds are enough.
\<close>

fun pick_num :: "nat \<Rightarrow> u8 \<Rightarrow> u8 list \<Rightarrow> u8 res" where
  "pick_num 0 n used = Inl NonReturn"
| "pick_num (Suc rounds) n used =
     (let n = (if n = 255 then 0 else n)
      in if n \<in> set used then pick_num rounds (n + 1) used else Inr n)"

definition used_nums :: "net \<Rightarrow> u8 list res" where
  "used_nums s =
     (case those (map (\<lambda>b. map_option num (netifs s b)) (netif_list s)) of
        None \<Rightarrow> Inl BadAccess | Some ns \<Rightarrow> Inr ns)"

section \<open>The interface table\<close>

definition has_ip4 :: "pdp_active_info \<Rightarrow> bool" where
  "has_ip4 p \<longleftrightarrow> ip46flag p = IPV4_TYPE \<or> ip46flag p = IPV46_TYPE"

definition has_ip6 :: "pdp_active_info \<Rightarrow> bool" where
  "has_ip6 p \<longleftrightarrow> ip46flag p = IPV6_TYPE \<or> ip46flag p = IPV46_TYPE"

text \<open>The members \<open>ps_netif_init\<close> sets; then the first IPv6 address becomes valid.\<close>

definition ps_netif_fields :: "pdp_active_info \<Rightarrow> netif \<Rightarrow> netif" where
  "ps_netif_fields pdpinfo n =
     (let n = n\<lparr>if_name := ''xy''\<rparr>;
          n = (if has_ip4 pdpinfo then n\<lparr>out4 := netif_ps_output\<rparr> else n)
      in if has_ip6 pdpinfo
         then n\<lparr>out6 := netif_ps_output, ip6_autoconfig_enabled := True,
                ip6_addr := (ip6_addr n)[0 := ipv6 pdpinfo]\<rparr>
         else n)"

definition ps_netif_init :: "nat \<Rightarrow> net \<Rightarrow> net res" where
  "ps_netif_init a s =
     bind_res (get_netif s a) (\<lambda>n.
     case netif_state n of
       None \<Rightarrow> Inl BadAccess
     | Some pdpinfo \<Rightarrow>
         let s = upd_netif a (ps_netif_fields pdpinfo) s
         in if has_ip6 pdpinfo then netif_ip6_addr_set_state a 0 IP6_ADDR_VALID s else Inr s)"

text \<open>
  The members \<open>netif_add\<close> sets.  The status callback is still \<open>NULL\<close> when it sets the address.
\<close>

definition netif_reset :: "u32 \<Rightarrow> pdp_active_info \<Rightarrow> u8 \<Rightarrow> netif \<Rightarrow> netif" where
  "netif_reset ipaddr state k n =
     n\<lparr>ip_addr := ipaddr, ip6_addr := replicate 2 (replicate 4 0), ip6_addr_state := [0, 0],
       out4 := netif_null_output, out6 := netif_null_output, flags := 0,
       ip6_autoconfig_enabled := False, status_callback := False, netif_state := Some state, num := k\<rparr>"

definition netif_add :: "nat \<Rightarrow> u32 \<Rightarrow> pdp_active_info \<Rightarrow> net \<Rightarrow> net res" where
  "netif_add a ipaddr state s =
     bind_res (get_netif s a) (\<lambda>_.
     bind_res (ps_netif_init a (upd_netif a (netif_reset ipaddr state (netif_num s)) s)) (\<lambda>s.
     bind_res (xy_assert (a \<notin> set (netif_list s))) (\<lambda>_.
     bind_res (used_nums s) (\<lambda>used.
     bind_res (pick_num 256 (netif_num s) used) (\<lambda>k.
       Inr ((upd_netif a (\<lambda>n. n\<lparr>num := k\<rparr>) s)
              \<lparr>netif_num := (if k = 254 then 0 else k + 1), netif_list := a # netif_list s\<rparr>))))))"

definition netif_remove :: "nat option \<Rightarrow> net \<Rightarrow> net res" where
  "netif_remove ao s =
     (case ao of
        None \<Rightarrow> Inr s
      | Some a \<Rightarrow>
          bind_res (get_netif s a) (\<lambda>n.
          bind_res (if netif_is_up n then netif_set_down a s else Inr s) (\<lambda>s.
          let s = (if netif_default s = Some a then netif_set_default None s else s)
          in Inr (s\<lparr>netif_list := remove1 a (netif_list s)\<rparr>))))"

text \<open>Only the number is compared: an empty entry has the number 0.\<close>

definition cid_is :: "u8 \<Rightarrow> ps_netif \<Rightarrow> bool" where
  "cid_is c e \<longleftrightarrow> uint (cid e) = sint c"

fun first_idx :: "('a \<Rightarrow> bool) \<Rightarrow> 'a list \<Rightarrow> nat option" where
  "first_idx P [] = None"
| "first_idx P (x # xs) = (if P x then Some 0 else map_option Suc (first_idx P xs))"

definition find_netif_by_cid :: "net \<Rightarrow> u8 \<Rightarrow> nat option" where
  "find_netif_by_cid s c = first_idx (cid_is c) (ps_if s)"

definition insert_one_netif :: "u8 \<Rightarrow> nat \<Rightarrow> net \<Rightarrow> net res" where
  "insert_one_netif c eth s =
     bind_res (xy_assert (\<forall>e \<in> set (ps_if s). \<not> (cid_is c e \<and> ps_eth e \<noteq> None))) (\<lambda>_.
       case first_idx (\<lambda>e. ps_eth e = None) (ps_if s) of
         Some i \<Rightarrow> Inr (s\<lparr>ps_if := (ps_if s)[i := \<lparr>cid = c, ps_eth = Some eth\<rparr>]\<rparr>)
       | None \<Rightarrow> Inl AssertFail)"

definition del_one_netif :: "u8 \<Rightarrow> net \<Rightarrow> net res" where
  "del_one_netif c s =
     (case first_idx (cid_is c) (ps_if s) of
        None \<Rightarrow> Inl AssertFail
      | Some i \<Rightarrow>
          (case ps_eth (ps_if s ! i) of
             None \<Rightarrow> Inl BadAccess
           | Some a \<Rightarrow>
               bind_res (get_netif s a) (\<lambda>_.
                 Inr (s\<lparr>netifs := (netifs s)(a := None),
                        ps_if := (ps_if s)[i := \<lparr>cid = 0, ps_eth = None\<rparr>]\<rparr>))))"

definition find_active_netif :: "net \<Rightarrow> nat option" where
  "find_active_netif s =
     (case first_idx (\<lambda>e. ps_eth e \<noteq> None) (ps_if s) of None \<Rightarrow> None | Some i \<Rightarrow> ps_eth (ps_if s ! i))"

section \<open>Activation and deactivation\<close>

text \<open>\<open>ref_pridns\<close>, \<open>ref_secdns\<close>: what \<open>inet_pton\<close> makes of the factory setting \<open>ref_dns\<close>.\<close>

definition set_pdp_dns :: "pdp_active_info \<Rightarrow> net \<Rightarrow> pdp_active_info \<times> net" where
  "set_pdp_dns p s =
     (if has_ip4 p
      then let p = (if pri_dns p = 0 then p\<lparr>pri_dns := ref_pridns s\<rparr> else p);
               p = (if sec_dns p = 0 then p\<lparr>sec_dns := ref_secdns s\<rparr> else p)
           in (p, s\<lparr>dns_servers := (dns_servers s)[0 := pri_dns p, 1 := sec_dns p]\<rparr>)
      else (p, s))"

definition ps_netif_activate :: "nat \<Rightarrow> pdp_active_info \<Rightarrow> net \<Rightarrow> net res" where
  "ps_netif_activate temp pdp_info s =
     (let s = s\<lparr>netifs := (netifs s)(temp \<mapsto> netif_zero)\<rparr>
      in bind_res (insert_one_netif (c_id pdp_info) temp s) (\<lambda>s.
         let (pdp_info, s) = set_pdp_dns pdp_info s
         in bind_res (netif_add temp (pdp_ip pdp_info) pdp_info s) (\<lambda>s.
            let s = set_netif_mgmt_status_callback temp s;
                s = netif_set_default (Some temp) s
            in bind_res (netif_set_link_up temp s) (netif_set_up temp))))"

definition ps_netif_deactivate :: "int \<Rightarrow> u8 \<Rightarrow> net \<Rightarrow> net res" where
  "ps_netif_deactivate c ipflag s =
     (if ipflag = IPV4_TYPE
      then case find_netif_by_cid s (word_of_int c) of
             None \<Rightarrow> Inl AssertFail
           | Some i \<Rightarrow>
               bind_res (netif_remove (ps_eth (ps_if s ! i)) s) (del_one_netif (word_of_int c))
      else Inr s)"

definition ps_netif_is_ok :: "net \<Rightarrow> bool res" where
  "ps_netif_is_ok s =
     (case netif_default s of
        None \<Rightarrow> Inr False
      | Some a \<Rightarrow> bind_res (get_netif s a) (\<lambda>n. Inr (netif_is_up n \<and> netif_is_link_up n)))"

section \<open>The proxy thread\<close>

text \<open>
  The messages of \<open>xy_proxy.c\<close>; the work of the messages other than the two for PDP contexts is in
  other modules and is recorded as an output.  The allocator's answer comes with the message.
\<close>

datatype proxy_msg =
    PROXY_MSG_AT_RECV "u8 list"
  | PROXY_MSG_PS_PDP_ACT nat pdp_active_info
  | PROXY_MSG_PS_PDP_DEACT int
  | PROXY_MSG_INTER_CORE_WAIT_FREE u32
  | PROXY_MSG_RESUME_CDP_EXCEPTION
  | PROXY_MSG_RESUME_CDP_UPDATE
  | PROXY_MSG_RESUME_ONENET_UPDATE
  | PROXY_MSG_HTTP_RESPOND u32

datatype proxy_out =
    ProcAtReq "u8 list" | ShmFree u32 | StartCdpRestart | StartCdpUpdate | StartOnenetUpdate | HttpParse u32

record proxy =
  proxy_net :: net
  cdp_handle_exist :: bool
  cdp_restart_running :: bool
  cdp_update_running :: bool
  onenet_update_running :: bool
  dbg_pdp_act_succ :: nat
  dbg_pdp_deact_num :: nat
  proxy_log :: "proxy_out list"

fun xy_proxy_ctl :: "proxy_msg \<Rightarrow> proxy \<Rightarrow> proxy res" where
  "xy_proxy_ctl (PROXY_MSG_AT_RECV d) s = Inr (s\<lparr>proxy_log := proxy_log s @ [ProcAtReq d]\<rparr>)"
| "xy_proxy_ctl (PROXY_MSG_PS_PDP_ACT a p) s =
     bind_res (ps_netif_activate a p (proxy_net s)) (\<lambda>t.
       Inr (s\<lparr>proxy_net := t, dbg_pdp_act_succ := dbg_pdp_act_succ s + 1\<rparr>))"
| "xy_proxy_ctl (PROXY_MSG_PS_PDP_DEACT c) s =
     bind_res (ps_netif_deactivate c IPV4_TYPE (proxy_net s)) (\<lambda>t.
       Inr (s\<lparr>proxy_net := t, dbg_pdp_deact_num := dbg_pdp_deact_num s + 1\<rparr>))"
| "xy_proxy_ctl (PROXY_MSG_INTER_CORE_WAIT_FREE d) s = Inr (s\<lparr>proxy_log := proxy_log s @ [ShmFree d]\<rparr>)"
| "xy_proxy_ctl PROXY_MSG_RESUME_CDP_EXCEPTION s =
     Inr (if \<not> cdp_handle_exist s \<and> \<not> cdp_restart_running s
          then s\<lparr>cdp_restart_running := True, proxy_log := proxy_log s @ [StartCdpRestart]\<rparr> else s)"
| "xy_proxy_ctl PROXY_MSG_RESUME_CDP_UPDATE s =
     Inr (if \<not> cdp_update_running s
          then s\<lparr>cdp_update_running := True, proxy_log := proxy_log s @ [StartCdpUpdate]\<rparr> else s)"
| "xy_proxy_ctl PROXY_MSG_RESUME_ONENET_UPDATE s =
     Inr (if \<not> onenet_update_running s
          then s\<lparr>onenet_update_running := True, proxy_log := proxy_log s @ [StartOnenetUpdate]\<rparr> else s)"
| "xy_proxy_ctl (PROXY_MSG_HTTP_RESPOND p) s = Inr (s\<lparr>proxy_log := proxy_log s @ [HttpParse p]\<rparr>)"

definition run_proxy :: "proxy_msg list \<Rightarrow> proxy \<Rightarrow> proxy res" where
  "run_proxy = run_steps xy_proxy_ctl"

end
