(* ===== verification/NetifSpec.thy ===== *)
theory NetifSpec
  imports Netif
begin

text \<open>
  The interface table as a map from context numbers to active contexts.  A locale states what it
  means that every operation of a component follows its specification, failures included; the
  proxy thread is its interpretation.
\<close>

section \<open>The invariant of the table\<close>

definition valid_cid :: "u8 \<Rightarrow> bool" where
  "valid_cid c \<longleftrightarrow> 0 < sint c"

definition netif_ok :: "u8 \<Rightarrow> netif \<Rightarrow> bool" where
  "netif_ok c n \<longleftrightarrow>
     valid_cid c \<and> netif_is_up n \<and> netif_is_link_up n \<and> status_callback n \<and> num n \<noteq> 255
     \<and> (\<exists>p. netif_state n = Some p \<and> c_id p = c \<and> ip_addr n = pdp_ip p
          \<and> (out4 n = netif_ps_output \<longleftrightarrow> has_ip4 p)
          \<and> (out6 n = netif_ps_output \<longleftrightarrow> has_ip6 p))"

definition entry_ok :: "(nat \<rightharpoonup> netif) \<Rightarrow> ps_netif \<Rightarrow> bool" where
  "entry_ok h e \<longleftrightarrow>
     (case ps_eth e of None \<Rightarrow> cid e = 0 | Some a \<Rightarrow> (case h a of None \<Rightarrow> False | Some n \<Rightarrow> netif_ok (cid e) n))"

definition active :: "ps_netif list \<Rightarrow> nat set" where
  "active t = {a. \<exists>e \<in> set t. ps_eth e = Some a}"

definition callbacks_live :: "net \<Rightarrow> bool" where
  "callbacks_live s \<longleftrightarrow> (\<forall>cb \<in> set (netif_mgmt_event_callback_list s). cb_objs s cb \<noteq> None)"

definition net_inv :: "net \<Rightarrow> bool" where
  "net_inv s \<longleftrightarrow>
     (\<exists>e0 e1. ps_if s = [e0, e1] \<and> entry_ok (netifs s) e0 \<and> entry_ok (netifs s) e1
        \<and> (ps_eth e0 \<noteq> None \<and> ps_eth e1 \<noteq> None \<longrightarrow> cid e0 \<noteq> cid e1 \<and> ps_eth e0 \<noteq> ps_eth e1))
     \<and> distinct (netif_list s) \<and> set (netif_list s) = active (ps_if s) \<and> dom (netifs s) = active (ps_if s)
     \<and> (\<forall>a. netif_default s = Some a \<longrightarrow> a \<in> active (ps_if s))
     \<and> length (dns_servers s) = 2 \<and> callbacks_live s"

text \<open>The contexts a client can look up.\<close>

definition contexts :: "net \<Rightarrow> u8 \<Rightarrow> pdp_active_info option" where
  "contexts s c =
     (case find_netif_by_cid s c of
        None \<Rightarrow> None
      | Some i \<Rightarrow> Option.bind (ps_eth (ps_if s ! i)) (\<lambda>a. Option.bind (netifs s a) netif_state))"

lemma valid_cid_uint: "valid_cid c \<Longrightarrow> uint c = sint c"
proof -
  assume "valid_cid c"
  moreover have "sint c < 2 ^ (LENGTH(8) - 1)" by (rule sint_lt)
  ultimately show ?thesis by (simp add: valid_cid_def uint_sint take_bit_eq_mod)
qed

lemma cid_is_iff: "valid_cid c \<Longrightarrow> cid_is c e \<longleftrightarrow> cid e = c"
proof -
  assume "valid_cid c"
  then have "uint c = sint c" by (rule valid_cid_uint)
  then show ?thesis by (simp add: cid_is_def word_uint_eq_iff)
qed

lemma cid_zero: "valid_cid c \<Longrightarrow> c \<noteq> 0"
  by (auto simp: valid_cid_def)

lemma cid_is_active: "valid_cid (cid e) \<Longrightarrow> cid_is c e \<longleftrightarrow> cid e = c"
proof -
  assume v: "valid_cid (cid e)"
  show ?thesis
  proof
    assume "cid_is c e"
    then have "sint c = sint (cid e)" using valid_cid_uint [OF v] by (simp add: cid_is_def)
    then show "cid e = c" by (metis signed_word_eqI)
  next
    assume "cid e = c"
    then show "cid_is c e" using v cid_is_iff [of c e] by simp
  qed
qed


section \<open>The steps on a live interface\<close>

lemma get_netif_Some [simp]: "netifs s a = Some n \<Longrightarrow> get_netif s a = Inr n"
  by (simp add: get_netif_def)

lemma upd_netif_Some [simp]: "netifs s a = Some n \<Longrightarrow> upd_netif a f s = s\<lparr>netifs := (netifs s)(a \<mapsto> f n)\<rparr>"
  by (simp add: upd_netif_def)

text \<open>The callbacks an event reaches, in the order of their registration.\<close>

definition calls :: "net \<Rightarrow> nat \<Rightarrow> netif \<Rightarrow> netif_mgmt_event \<Rightarrow> net_out list" where
  "calls s a n event =
     map (\<lambda>cb. Callback (callback (the (cb_objs s cb))) a event)
       (filter (\<lambda>cb. cb_wants (the (cb_objs s cb)) n event) (netif_mgmt_event_callback_list s))"

lemma run_callbacks_live:
  "\<forall>cb \<in> set cbs. objs cb \<noteq> None \<Longrightarrow>
     run_callbacks objs a n event cbs =
       Inr (map (\<lambda>cb. Callback (callback (the (objs cb))) a event)
              (filter (\<lambda>cb. cb_wants (the (objs cb)) n event) cbs))"
  by (induction cbs) auto

lemma status_callback_proc:
  assumes "callbacks_live s" "netifs s a = Some n"
  shows "netif_mgmt_status_callback_proc a s =
     Inr (s\<lparr>net_log := net_log s @ calls s a n
       (if netif_is_up n then (if ip6_addr_state n ! 1 = IP6_ADDR_PREFERRED then NETIF_MGMT_EVENT_IPV6
          else NETIF_MGMT_EVENT_UP) else NETIF_MGMT_EVENT_DOWN) @ [PsEvent (netif_is_up n)]\<rparr>)"
  using assms
  by (simp add: netif_mgmt_status_callback_proc_def run_callbacks_live callbacks_live_def calls_def Let_def)

lemma up_flag [simp]:
  "(x OR NETIF_FLAG_UP) AND NETIF_FLAG_UP = NETIF_FLAG_UP" "(x AND NOT NETIF_FLAG_UP) AND NETIF_FLAG_UP = 0"
  by (auto simp: NETIF_FLAG_UP_def bit_eq_iff bit_simps)

lemma pick_num_one:
  assumes "length used \<le> 1" "\<forall>u \<in> set used. u \<noteq> 255"
  shows "\<exists>k. pick_num 256 n used = Inr k \<and> k \<noteq> 255 \<and> k \<notin> set used"
proof -
  have two: "\<exists>k. pick_num (Suc (Suc r)) n used = Inr k \<and> k \<noteq> 255 \<and> k \<notin> set used" for r
  proof (cases used)
    case Nil
    then show ?thesis by (auto simp: Let_def)
  next
    case (Cons u us)
    then have "used = [u]" using assms(1) by simp
    then show ?thesis using assms(2) by (auto simp: Let_def)
  qed
  show ?thesis using two [of 254] by (simp add: numeral_eq_Suc)
qed


section \<open>Activation\<close>

lemma set_state_silent:
  assumes "netifs s a = Some n" "\<not> status_callback n"
  shows "netif_ip6_addr_set_state a i st s =
    Inr (s\<lparr>netifs := (netifs s)(a \<mapsto> n\<lparr>ip6_addr_state := (ip6_addr_state n)[i := st]\<rparr>)\<rparr>)"
proof (cases "ip6_addr_state n ! i = st")
  case True
  then have "n\<lparr>ip6_addr_state := (ip6_addr_state n)[i := st]\<rparr> = n" by auto
  then show ?thesis using assms True
    by (simp add: netif_ip6_addr_set_state_def fun_upd_idem)
next
  case False
  then show ?thesis using assms
    by (simp add: netif_ip6_addr_set_state_def NETIF_STATUS_CALLBACK_def Let_def)
qed

lemma ps_netif_fields_facts [simp]:
  "ip_addr (ps_netif_fields p n) = ip_addr n" "flags (ps_netif_fields p n) = flags n"
  "netif_state (ps_netif_fields p n) = netif_state n" "status_callback (ps_netif_fields p n) = status_callback n"
  "ip6_addr_state (ps_netif_fields p n) = ip6_addr_state n"
  "out4 (ps_netif_fields p n) = (if has_ip4 p then netif_ps_output else out4 n)"
  "out6 (ps_netif_fields p n) = (if has_ip6 p then netif_ps_output else out6 n)"
  by (simp_all add: ps_netif_fields_def Let_def)

text \<open>An interface after \<open>ps_netif_init\<close>, and after \<open>netif_add\<close> without its number.\<close>

definition inited :: "pdp_active_info \<Rightarrow> netif \<Rightarrow> netif" where
  "inited p n =
     (if has_ip6 p
      then (ps_netif_fields p n)\<lparr>ip6_addr_state := (ip6_addr_state n)[0 := IP6_ADDR_VALID]\<rparr>
      else ps_netif_fields p n)"

lemma inited_facts [simp]:
  "ip_addr (inited p n) = ip_addr n" "flags (inited p n) = flags n"
  "netif_state (inited p n) = netif_state n" "status_callback (inited p n) = status_callback n"
  "ip6_addr_state (inited p n) ! Suc 0 = ip6_addr_state n ! Suc 0"
  "out4 (inited p n) = (if has_ip4 p then netif_ps_output else out4 n)"
  "out6 (inited p n) = (if has_ip6 p then netif_ps_output else out6 n)"
  by (simp_all add: inited_def)

lemma ps_netif_init_inited:
  "netifs s a = Some n \<Longrightarrow> netif_state n = Some p \<Longrightarrow> \<not> status_callback n \<Longrightarrow>
     ps_netif_init a s = Inr (s\<lparr>netifs := (netifs s)(a \<mapsto> inited p n)\<rparr>)"
  by (simp add: ps_netif_init_def inited_def set_state_silent)

lemma netif_reset_facts [simp]:
  "netif_state (netif_reset ip p k n) = Some p" "\<not> status_callback (netif_reset ip p k n)"
  "ip_addr (netif_reset ip p k n) = ip" "flags (netif_reset ip p k n) = 0"
  "ip6_addr_state (netif_reset ip p k n) = [0, 0]"
  "out4 (netif_reset ip p k n) = netif_null_output" "out6 (netif_reset ip p k n) = netif_null_output"
  by (simp_all add: netif_reset_def)

abbreviation added :: "u32 \<Rightarrow> pdp_active_info \<Rightarrow> u8 \<Rightarrow> netif \<Rightarrow> netif" where
  "added ip p k n \<equiv> inited p (netif_reset ip p k n)"

lemma used_nums_one:
  assumes "a \<notin> set (netif_list s)" "length (netif_list s) \<le> 1"
    "\<forall>b \<in> set (netif_list s). \<exists>m. netifs s b = Some m \<and> num m \<noteq> 255"
  shows "\<exists>used. used_nums (s\<lparr>netifs := (netifs s)(a \<mapsto> n)\<rparr>) = Inr used \<and> length used \<le> 1 \<and> (\<forall>u \<in> set used. u \<noteq> 255)"
  using assms by (cases "netif_list s") (auto simp: used_nums_def)

lemma netif_add_numbered:
  assumes "netifs s a = Some n" "a \<notin> set (netif_list s)"
    "used_nums (s\<lparr>netifs := (netifs s)(a \<mapsto> added ip p (netif_num s) n)\<rparr>) = Inr used"
    "pick_num 256 (netif_num s) used = Inr k"
  shows "netif_add a ip p s =
      Inr (s\<lparr>netifs := (netifs s)(a \<mapsto> (added ip p (netif_num s) n)\<lparr>num := k\<rparr>),
             netif_num := (if k = 254 then 0 else k + 1), netif_list := a # netif_list s\<rparr>)"
  using assms by (simp add: netif_add_def ps_netif_init_inited)

lemma netif_add_ok:
  assumes "netifs s a = Some n" "a \<notin> set (netif_list s)" "length (netif_list s) \<le> 1"
    "\<forall>b \<in> set (netif_list s). \<exists>m. netifs s b = Some m \<and> num m \<noteq> 255"
  shows "\<exists>k k'. k \<noteq> 255 \<and> netif_add a ip p s =
      Inr (s\<lparr>netifs := (netifs s)(a \<mapsto> (added ip p (netif_num s) n)\<lparr>num := k\<rparr>),
             netif_num := k', netif_list := a # netif_list s\<rparr>)"
proof -
  obtain used where used: "used_nums (s\<lparr>netifs := (netifs s)(a \<mapsto> added ip p (netif_num s) n)\<rparr>) = Inr used"
    "length used \<le> 1" "\<forall>u \<in> set used. u \<noteq> 255"
    using used_nums_one [OF assms(2-4)] by blast
  obtain k where "pick_num 256 (netif_num s) used = Inr k" "k \<noteq> 255"
    using pick_num_one [OF used(2,3)] by blast
  then show ?thesis using netif_add_numbered [OF assms(1,2) used(1)] by blast
qed

text \<open>The callback, the default route, link up and up.\<close>

definition raised :: "netif \<Rightarrow> netif" where
  "raised n = n\<lparr>status_callback := True, flags := (flags n OR NETIF_FLAG_LINK_UP) OR NETIF_FLAG_UP\<rparr>"

lemma calls_cong:
  "cb_objs s = cb_objs t \<Longrightarrow> netif_mgmt_event_callback_list s = netif_mgmt_event_callback_list t \<Longrightarrow>
     calls s a n event = calls t a n event"
  by (simp add: calls_def)

lemma callbacks_live_cong:
  "cb_objs s = cb_objs t \<Longrightarrow> netif_mgmt_event_callback_list s = netif_mgmt_event_callback_list t \<Longrightarrow>
     callbacks_live s = callbacks_live t"
  by (simp add: callbacks_live_def)

lemma link_flag [simp]:
  "((x OR NETIF_FLAG_LINK_UP) OR NETIF_FLAG_UP) AND NETIF_FLAG_LINK_UP = NETIF_FLAG_LINK_UP"
  by (auto simp: bit_eq_iff bit_simps)

lemma flags_nonzero [simp]: "NETIF_FLAG_UP \<noteq> 0" "NETIF_FLAG_LINK_UP \<noteq> 0"
  by (simp_all add: flag_defs)

lemma raised_facts [simp]:
  "netif_is_up (raised n)" "netif_is_link_up (raised n)" "status_callback (raised n)"
  "netif_state (raised n) = netif_state n" "ip_addr (raised n) = ip_addr n" "num (raised n) = num n"
  "out4 (raised n) = out4 n" "out6 (raised n) = out6 n" "ip6_addr_state (raised n) = ip6_addr_state n"
  by (simp_all add: raised_def netif_is_up_def netif_is_link_up_def)

lemma bring_up:
  assumes "netifs s a = Some n" "flags n = 0" "ip6_addr_state n ! 1 = 0" "callbacks_live s"
  shows "bind_res (netif_set_link_up a (netif_set_default (Some a) (set_netif_mgmt_status_callback a s))) (netif_set_up a)
    = Inr (s\<lparr>netifs := (netifs s)(a \<mapsto> raised n), netif_default := Some a,
             net_log := net_log s @ calls s a (raised n) NETIF_MGMT_EVENT_UP @ [PsEvent True]\<rparr>)"
proof -
  let ?n1 = "n\<lparr>status_callback := True, flags := flags n OR NETIF_FLAG_LINK_UP\<rparr>"
  let ?s1 = "s\<lparr>netifs := (netifs s)(a \<mapsto> ?n1), netif_default := Some a\<rparr>"
  let ?s2 = "s\<lparr>netifs := (netifs s)(a \<mapsto> raised n), netif_default := Some a\<rparr>"
  have 1: "netif_set_link_up a (netif_set_default (Some a) (set_netif_mgmt_status_callback a s)) = Inr ?s1"
    using assms(1,2)
    by (simp add: netif_set_link_up_def netif_set_default_def set_netif_mgmt_status_callback_def netif_is_link_up_def)
  have 2: "upd_netif a (\<lambda>n. n\<lparr>flags := flags n OR NETIF_FLAG_UP\<rparr>) ?s1 = ?s2"
    by (simp add: raised_def)
  have 3: "\<not> netif_is_up ?n1"
    using assms(2) by (simp add: netif_is_up_def flag_defs)
  have "netif_set_up a ?s1 = NETIF_STATUS_CALLBACK a ?s2"
    using 3 unfolding netif_set_up_def 2 by simp
  then have "netif_set_up a ?s1 = netif_mgmt_status_callback_proc a ?s2"
    by (simp add: NETIF_STATUS_CALLBACK_def)
  moreover have "calls ?s2 a (raised n) NETIF_MGMT_EVENT_UP = calls s a (raised n) NETIF_MGMT_EVENT_UP"
    by (rule calls_cong) simp_all
  moreover from this have "netif_mgmt_status_callback_proc a ?s2 = Inr (?s2\<lparr>net_log := net_log s @ calls s a (raised n) NETIF_MGMT_EVENT_UP @ [PsEvent True]\<rparr>)"
    using assms(3,4) status_callback_proc [of ?s2 a "raised n"]
    by (simp add: IP6_ADDR_PREFERRED_def callbacks_live_def)
  ultimately show ?thesis by (simp add: 1)
qed

section \<open>The contexts\<close>

definition ctx_of :: "(nat \<rightharpoonup> netif) \<Rightarrow> ps_netif \<Rightarrow> pdp_active_info option" where
  "ctx_of h e = Option.bind (ps_eth e) (\<lambda>a. Option.bind (h a) netif_state)"

lemma entry_empty: "entry_ok h e \<Longrightarrow> ps_eth e = None \<Longrightarrow> cid e = 0 \<and> ctx_of h e = None"
  by (simp add: entry_ok_def ctx_of_def)

lemma entry_active:
  "entry_ok h e \<Longrightarrow> ps_eth e = Some a \<Longrightarrow>
     \<exists>n p. h a = Some n \<and> netif_ok (cid e) n \<and> valid_cid (cid e) \<and> ctx_of h e = Some p \<and> c_id p = cid e"
  by (auto simp: entry_ok_def ctx_of_def netif_ok_def split: option.splits)

lemma cid_is_empty: "cid e = 0 \<Longrightarrow> cid_is c e \<longleftrightarrow> c = 0"
  by (auto simp: cid_is_def signed_eq_0_iff)

lemma contexts_two:
  assumes "ps_if s = [e0, e1]" "entry_ok (netifs s) e0" "entry_ok (netifs s) e1"
  shows "contexts s c =
    (if ps_eth e0 \<noteq> None \<and> cid e0 = c then ctx_of (netifs s) e0
     else if ps_eth e1 \<noteq> None \<and> cid e1 = c then ctx_of (netifs s) e1 else None)"
proof -
  have lk: "contexts s c = (if cid_is c e0 then ctx_of (netifs s) e0
      else if cid_is c e1 then ctx_of (netifs s) e1 else None)"
    using assms(1) by (simp add: contexts_def find_netif_by_cid_def ctx_of_def)
  have c: "if ps_eth e = None then (cid_is c e \<longleftrightarrow> c = 0) \<and> ctx_of (netifs s) e = None
      else (cid_is c e \<longleftrightarrow> cid e = c) \<and> cid e \<noteq> 0" if "entry_ok (netifs s) e" for e
    using entry_empty [OF that] entry_active [OF that] cid_is_empty [of e c] cid_is_active [of e c] cid_zero
    by fastforce
  show ?thesis using lk c [OF assms(2)] c [OF assms(3)] by (auto split: if_splits)
qed

lemma dom_contexts:
  assumes "ps_if s = [e0, e1]" "entry_ok (netifs s) e0" "entry_ok (netifs s) e1"
  shows "dom (contexts s) = (if ps_eth e0 \<noteq> None then {cid e0} else {}) \<union> (if ps_eth e1 \<noteq> None then {cid e1} else {})"
proof -
  have "ctx_of (netifs s) e \<noteq> None" if "entry_ok (netifs s) e" "ps_eth e \<noteq> None" for e
    using that entry_active by fastforce
  from this [OF assms(2)] this [OF assms(3)] show ?thesis
    by (auto simp: dom_def contexts_two [OF assms] split: if_splits)
qed

lemma entry_ok_fresh: "entry_ok h e \<Longrightarrow> h a = None \<Longrightarrow> entry_ok (h(a \<mapsto> n)) e \<and> ctx_of (h(a \<mapsto> n)) e = ctx_of h e"
  by (auto simp: entry_ok_def ctx_of_def split: option.splits)

lemma full_iff:
  assumes "ps_if s = [e0, e1]" "entry_ok (netifs s) e0" "entry_ok (netifs s) e1"
    "ps_eth e0 \<noteq> None \<and> ps_eth e1 \<noteq> None \<longrightarrow> cid e0 \<noteq> cid e1"
  shows "card (dom (contexts s)) = 2 \<longleftrightarrow> ps_eth e0 \<noteq> None \<and> ps_eth e1 \<noteq> None"
  using assms(4) by (cases "ps_eth e0"; cases "ps_eth e1") (simp_all add: dom_contexts [OF assms(1-3)])

lemma insert_result:
  assumes inv: "net_inv s" and c: "valid_cid c"
  shows "insert_one_netif c a s =
    (if contexts s c \<noteq> None \<or> card (dom (contexts s)) = 2 then Inl AssertFail
     else Inr (s\<lparr>ps_if := (ps_if s)[(if ps_eth (ps_if s ! 0) = None then 0 else 1) := \<lparr>cid = c, ps_eth = Some a\<rparr>]\<rparr>))"
proof -
  obtain e0 e1 where e: "ps_if s = [e0, e1]" "entry_ok (netifs s) e0" "entry_ok (netifs s) e1"
    and ne: "ps_eth e0 \<noteq> None \<and> ps_eth e1 \<noteq> None \<longrightarrow> cid e0 \<noteq> cid e1"
    using inv by (auto simp: net_inv_def)
  have used: "(\<forall>e \<in> set (ps_if s). \<not> (cid_is c e \<and> ps_eth e \<noteq> None)) \<longleftrightarrow> c \<notin> dom (contexts s)"
    by (auto simp: e(1) dom_contexts [OF e] cid_is_iff [OF c])
  have full: "card (dom (contexts s)) = 2 \<longleftrightarrow> ps_eth e0 \<noteq> None \<and> ps_eth e1 \<noteq> None"
    by (rule full_iff [OF e ne])
  show ?thesis
    unfolding insert_one_netif_def used full by (auto simp: e(1) domIff xy_assert_def)
qed

text \<open>The invariant in the form the proofs use it.\<close>

lemma net_invI:
  assumes "ps_if s = [e0, e1]" "entry_ok (netifs s) e0" "entry_ok (netifs s) e1"
    "ps_eth e0 \<noteq> None \<Longrightarrow> ps_eth e1 \<noteq> None \<Longrightarrow> cid e0 \<noteq> cid e1 \<and> ps_eth e0 \<noteq> ps_eth e1"
    "distinct (netif_list s)" "set (netif_list s) = active (ps_if s)" "dom (netifs s) = active (ps_if s)"
    "\<And>a. netif_default s = Some a \<Longrightarrow> a \<in> active (ps_if s)" "length (dns_servers s) = 2" "callbacks_live s"
  shows "net_inv s"
  unfolding net_inv_def using assms by simp

lemma net_invE:
  assumes "net_inv s"
  obtains e0 e1 where "ps_if s = [e0, e1]" "entry_ok (netifs s) e0" "entry_ok (netifs s) e1"
    "ps_eth e0 \<noteq> None \<and> ps_eth e1 \<noteq> None \<longrightarrow> cid e0 \<noteq> cid e1 \<and> ps_eth e0 \<noteq> ps_eth e1"
    "distinct (netif_list s)" "set (netif_list s) = active [e0, e1]" "dom (netifs s) = active [e0, e1]"
    "\<forall>a. netif_default s = Some a \<longrightarrow> a \<in> active [e0, e1]"
    "callbacks_live s" "length (dns_servers s) = 2"
  using assms unfolding net_inv_def by (metis (no_types))

lemma active_two: "active [e0, e1] = set_option (ps_eth e0) \<union> set_option (ps_eth e1)"
  by (auto simp: active_def elem_set)

text \<open>The stored context: an unset DNS server is replaced by the configured one.\<close>

definition complete :: "u32 \<Rightarrow> u32 \<Rightarrow> pdp_active_info \<Rightarrow> pdp_active_info" where
  "complete r1 r2 p =
     (if has_ip4 p
      then p\<lparr>pri_dns := (if pri_dns p = 0 then r1 else pri_dns p), sec_dns := (if sec_dns p = 0 then r2 else sec_dns p)\<rparr>
      else p)"

lemma set_pdp_dns_complete:
  "set_pdp_dns p s =
    (let q = complete (ref_pridns s) (ref_secdns s) p
     in (q, s\<lparr>dns_servers := (if has_ip4 p then (dns_servers s)[0 := pri_dns q, 1 := sec_dns q] else dns_servers s)\<rparr>))"
  by (simp add: set_pdp_dns_def complete_def Let_def)

lemma insert_heap:
  "insert_one_netif c a (s\<lparr>netifs := h\<rparr>) =
     (case insert_one_netif c a s of Inl e \<Rightarrow> Inl e | Inr t \<Rightarrow> Inr (t\<lparr>netifs := h\<rparr>))"
  by (simp add: insert_one_netif_def bind_res_def split: option.split sum.split)

lemma short_list:
  assumes "distinct l" "set l = active [e0, e1]" "ps_eth e0 = None \<or> ps_eth e1 = None"
  shows "length l \<le> 1"
proof -
  have "card (active [e0, e1]) \<le> 1"
    using assms(3) by (cases "ps_eth e0"; cases "ps_eth e1") (simp_all add: active_two)
  then show ?thesis using assms(1,2) by (metis distinct_card)
qed

lemma complete_facts [simp]:
  "c_id (complete r1 r2 p) = c_id p" "pdp_ip (complete r1 r2 p) = pdp_ip p" "ip46flag (complete r1 r2 p) = ip46flag p"
  by (simp_all add: complete_def)

lemma activate_state:
  assumes inv: "net_inv s" and fresh: "netifs s a = None" and c: "valid_cid (c_id p)"
    and new: "contexts s (c_id p) = None" "card (dom (contexts s)) \<noteq> 2"
  shows "\<exists>d k' n. length d = 2 \<and> netif_ok (c_id p) n \<and> netif_state n = Some (complete (ref_pridns s) (ref_secdns s) p) \<and>
    ps_netif_activate a p s =
      Inr (s\<lparr>ps_if := (ps_if s)[(if ps_eth (ps_if s ! 0) = None then 0 else 1) := \<lparr>cid = c_id p, ps_eth = Some a\<rparr>],
             dns_servers := d, netif_num := k', netif_list := a # netif_list s,
             netifs := (netifs s)(a \<mapsto> n), netif_default := Some a,
             net_log := net_log s @ calls s a n NETIF_MGMT_EVENT_UP @ [PsEvent True]\<rparr>)"
proof -
  let ?p = "complete (ref_pridns s) (ref_secdns s) p"
  define t where "t = (ps_if s)[(if ps_eth (ps_if s ! 0) = None then 0 else 1) := \<lparr>cid = c_id p, ps_eth = Some a\<rparr>]"
  let ?s0 = "s\<lparr>netifs := (netifs s)(a \<mapsto> netif_zero)\<rparr>"
  obtain e0 e1 where e: "ps_if s = [e0, e1]" "entry_ok (netifs s) e0" "entry_ok (netifs s) e1"
    and ne: "ps_eth e0 \<noteq> None \<and> ps_eth e1 \<noteq> None \<longrightarrow> cid e0 \<noteq> cid e1 \<and> ps_eth e0 \<noteq> ps_eth e1"
    and l: "distinct (netif_list s)" "set (netif_list s) = active (ps_if s)"
    and more: "length (dns_servers s) = 2" "callbacks_live s"
    using inv by (auto simp: net_inv_def)
  define d where "d = (if has_ip4 p then (dns_servers s)[0 := pri_dns ?p, 1 := sec_dns ?p] else dns_servers s)"
  let ?s1 = "s\<lparr>netifs := (netifs s)(a \<mapsto> netif_zero), ps_if := t, dns_servers := d\<rparr>"
  have ins: "insert_one_netif (c_id p) a ?s0 = Inr (?s0\<lparr>ps_if := t\<rparr>)"
    unfolding t_def insert_heap insert_result [OF inv c] using new by simp
  have dns: "set_pdp_dns p (?s0\<lparr>ps_if := t\<rparr>) = (?p, ?s1)"
    unfolding set_pdp_dns_complete d_def Let_def by simp
  have free: "ps_eth e0 = None \<or> ps_eth e1 = None"
    using new(2) ne full_iff [OF e] by blast
  have members: "b \<noteq> a \<and> (\<exists>m. netifs s b = Some m \<and> num m \<noteq> 255)" if "b \<in> set (netif_list s)" for b
  proof -
    have "b \<in> active [e0, e1]" using that l(2) e(1) by simp
    then obtain x where x: "x = e0 \<or> x = e1" "ps_eth x = Some b" by (auto simp: active_def)
    then have "entry_ok (netifs s) x" using e(2,3) by blast
    from entry_active [OF this x(2)] show ?thesis using fresh by (auto simp: netif_ok_def)
  qed
  have "\<exists>k k'. k \<noteq> 255 \<and> netif_add a (pdp_ip ?p) ?p ?s1 =
      Inr (?s1\<lparr>netifs := (netifs ?s1)(a \<mapsto> (added (pdp_ip ?p) ?p (netif_num ?s1) netif_zero)\<lparr>num := k\<rparr>),
             netif_num := k', netif_list := a # netif_list ?s1\<rparr>)"
  proof (rule netif_add_ok)
    show "a \<notin> set (netif_list ?s1)" using members by auto
    show "length (netif_list ?s1) \<le> 1" using short_list [OF l(1) _ free] l(2) e(1) by simp
    show "\<forall>b \<in> set (netif_list ?s1). \<exists>m. netifs ?s1 b = Some m \<and> num m \<noteq> 255" using members by auto
  qed simp
  then obtain k k' where k: "k \<noteq> 255" and add': "netif_add a (pdp_ip ?p) ?p ?s1 =
      Inr (?s1\<lparr>netifs := (netifs ?s1)(a \<mapsto> (added (pdp_ip ?p) ?p (netif_num ?s1) netif_zero)\<lparr>num := k\<rparr>),
             netif_num := k', netif_list := a # netif_list ?s1\<rparr>)" by blast
  define n where "n = (added (pdp_ip ?p) ?p (netif_num s) netif_zero)\<lparr>num := k\<rparr>"
  let ?s2 = "s\<lparr>ps_if := t, dns_servers := d, netifs := (netifs s)(a \<mapsto> n), netif_num := k', netif_list := a # netif_list s\<rparr>"
  have add: "netif_add a (pdp_ip ?p) ?p ?s1 = Inr ?s2"
    unfolding add' n_def by simp
  have up: "bind_res (netif_set_link_up a (netif_set_default (Some a) (set_netif_mgmt_status_callback a ?s2))) (netif_set_up a)
    = Inr (?s2\<lparr>netifs := (netifs ?s2)(a \<mapsto> raised n), netif_default := Some a,
             net_log := net_log ?s2 @ calls ?s2 a (raised n) NETIF_MGMT_EVENT_UP @ [PsEvent True]\<rparr>)"
    by (rule bring_up) (use more(2) n_def k in \<open>simp_all add: callbacks_live_def\<close>)
  have log: "calls ?s2 a (raised n) NETIF_MGMT_EVENT_UP = calls s a (raised n) NETIF_MGMT_EVENT_UP"
    by (rule calls_cong) simp_all
  have "ps_netif_activate a p s = Inr (s\<lparr>ps_if := t, dns_servers := d, netif_num := k',
      netif_list := a # netif_list s, netifs := (netifs s)(a \<mapsto> raised n), netif_default := Some a,
      net_log := net_log s @ calls s a (raised n) NETIF_MGMT_EVENT_UP @ [PsEvent True]\<rparr>)"
    using add up log by (simp add: ps_netif_activate_def ins dns)
  moreover have "netif_ok (c_id p) (raised n)"
    using n_def k c by (simp add: netif_ok_def has_ip4_def has_ip6_def)
  moreover have "netif_state (raised n) = Some ?p" "length d = 2"
    using n_def d_def more(1) by simp_all
  ultimately show ?thesis unfolding t_def by blast
qed

text \<open>The interface a client finds for a context.\<close>

definition eth_of :: "net \<Rightarrow> u8 \<Rightarrow> nat option" where
  "eth_of s c = Option.bind (find_netif_by_cid s c) (\<lambda>i. ps_eth (ps_if s ! i))"

lemma activate_works:
  assumes inv: "net_inv s" and fresh: "netifs s a = None" and c: "valid_cid (c_id p)"
    and new: "contexts s (c_id p) = None" "card (dom (contexts s)) \<noteq> 2"
  shows "\<exists>s' n. ps_netif_activate a p s = Inr s' \<and> net_inv s'
    \<and> contexts s' = (contexts s)(c_id p \<mapsto> complete (ref_pridns s) (ref_secdns s) p)
    \<and> ref_pridns s' = ref_pridns s \<and> ref_secdns s' = ref_secdns s \<and> netif_default s' = Some a
    \<and> eth_of s' (c_id p) = Some a \<and> cb_objs s' = cb_objs s
    \<and> netif_mgmt_event_callback_list s' = netif_mgmt_event_callback_list s
    \<and> (\<exists>m. netifs s' a = Some m \<and> netif_ok (c_id p) m)
    \<and> net_log s' = net_log s @ calls s a n NETIF_MGMT_EVENT_UP @ [PsEvent True]"
proof -
  let ?c = "c_id p"
  let ?p = "complete (ref_pridns s) (ref_secdns s) p"
  let ?new = "\<lparr>cid = ?c, ps_eth = Some a\<rparr>"
  obtain e0 e1 where e: "ps_if s = [e0, e1]" "entry_ok (netifs s) e0" "entry_ok (netifs s) e1"
    and ne: "ps_eth e0 \<noteq> None \<and> ps_eth e1 \<noteq> None \<longrightarrow> cid e0 \<noteq> cid e1 \<and> ps_eth e0 \<noteq> ps_eth e1"
    and l: "distinct (netif_list s)" "set (netif_list s) = active (ps_if s)" "dom (netifs s) = active (ps_if s)"
    and more: "callbacks_live s"
    using inv by (auto simp: net_inv_def)
  obtain d k' n where d: "length d = 2" and n: "netif_ok ?c n" "netif_state n = Some ?p"
    and act: "ps_netif_activate a p s =
      Inr (s\<lparr>ps_if := (ps_if s)[(if ps_eth (ps_if s ! 0) = None then 0 else 1) := ?new],
             dns_servers := d, netif_num := k', netif_list := a # netif_list s,
             netifs := (netifs s)(a \<mapsto> n), netif_default := Some a,
             net_log := net_log s @ calls s a n NETIF_MGMT_EVENT_UP @ [PsEvent True]\<rparr>)" (is "_ = Inr ?s")
    using activate_state [OF inv fresh c new] by (elim exE conjE) (rule that)
  have new_ok: "entry_ok (netifs ?s) ?new" "ctx_of (netifs ?s) ?new = Some ?p"
    using n by (simp_all add: entry_ok_def ctx_of_def)
  have old: "entry_ok (netifs ?s) e0" "entry_ok (netifs ?s) e1"
      "ctx_of (netifs ?s) e0 = ctx_of (netifs s) e0" "ctx_of (netifs ?s) e1 = ctx_of (netifs s) e1"
    using entry_ok_fresh [OF e(2) fresh, of n] entry_ok_fresh [OF e(3) fresh, of n] by simp_all
  have a: "a \<notin> active (ps_if s)" using fresh l(3) by blast
  have nc: "ps_eth e0 \<noteq> None \<longrightarrow> cid e0 \<noteq> ?c" "ps_eth e1 \<noteq> None \<longrightarrow> cid e1 \<noteq> ?c"
    using domIff [of ?c "contexts s"] new(1) by (auto simp: dom_contexts [OF e] split: if_splits)
  have "net_inv ?s \<and> contexts ?s = (contexts s)(?c \<mapsto> ?p) \<and> eth_of ?s ?c = Some a"
  proof (cases "ps_eth e0 = None")
    case True
    then have t: "ps_if ?s = [?new, e1]" by (simp add: e(1))
    have "net_inv ?s"
      by (rule net_invI [OF t new_ok(1) old(2)])
         (use True l a nc d more in \<open>auto simp: e(1) active_two callbacks_live_def\<close>)
    moreover have "eth_of ?s ?c = Some a"
      using True cid_is_iff [OF c] by (simp add: eth_of_def find_netif_by_cid_def e(1))
    moreover have "contexts ?s x = ((contexts s)(?c \<mapsto> ?p)) x" for x
      unfolding contexts_two [OF t new_ok(1) old(2)] fun_upd_apply contexts_two [OF e] new_ok(2) old(4)
      using True by simp
    ultimately show ?thesis by blast
  next
    case False
    then have "ps_eth e1 = None" using full_iff [OF e] ne new(2) by blast
    have t: "ps_if ?s = [e0, ?new]" unfolding e(1) using False by auto
    have "net_inv ?s"
      by (rule net_invI [OF t old(1) new_ok(1)])
         (use \<open>ps_eth e1 = None\<close> l a nc d more in \<open>auto simp: e(1) active_two callbacks_live_def\<close>)
    moreover have "eth_of ?s ?c = Some a"
      using False nc unfolding eth_of_def find_netif_by_cid_def t by (simp add: cid_is_iff [OF c])
    moreover have "contexts ?s x = ((contexts s)(?c \<mapsto> ?p)) x" for x
      unfolding contexts_two [OF t old(1) new_ok(1)] fun_upd_apply contexts_two [OF e] new_ok(2) old(3)
      using \<open>ps_eth e1 = None\<close> nc by auto
    ultimately show ?thesis by blast
  qed
  moreover have "netifs ?s a = Some n" by simp
  ultimately show ?thesis using act n(1) by auto
qed

section \<open>Deactivation\<close>

lemma find_None:
  assumes "net_inv s" "valid_cid c"
  shows "find_netif_by_cid s c = None \<longleftrightarrow> contexts s c = None"
proof -
  obtain e0 e1 where e: "ps_if s = [e0, e1]" "entry_ok (netifs s) e0" "entry_ok (netifs s) e1"
    using assms(1) by (auto simp: net_inv_def)
  have "cid e = c \<Longrightarrow> ctx_of (netifs s) e \<noteq> None" if "entry_ok (netifs s) e" for e
    using entry_empty [OF that] entry_active [OF that] cid_zero [OF assms(2)] by (cases "ps_eth e") auto
  from this [OF e(2)] this [OF e(3)] show ?thesis
    by (auto simp: find_netif_by_cid_def contexts_def e(1) cid_is_iff [OF assms(2)] ctx_of_def)
qed

lemma find_Some:
  assumes "net_inv s" "valid_cid c" "contexts s c = Some p"
  shows "\<exists>i a n. find_netif_by_cid s c = Some i \<and> i < 2 \<and> ps_if s ! i = \<lparr>cid = c, ps_eth = Some a\<rparr>
    \<and> netifs s a = Some n \<and> netif_state n = Some p \<and> netif_ok c n"
proof -
  obtain e0 e1 where e: "ps_if s = [e0, e1]" "entry_ok (netifs s) e0" "entry_ok (netifs s) e1"
    using assms(1) by (auto simp: net_inv_def)
  obtain i where i: "find_netif_by_cid s c = Some i"
    using find_None [OF assms(1,2)] assms(3) by (cases "find_netif_by_cid s c") auto
  then have i2: "i < 2" "cid (ps_if s ! i) = c"
    by (auto simp: find_netif_by_cid_def e(1) cid_is_iff [OF assms(2)] split: if_splits)
  then have ok: "entry_ok (netifs s) (ps_if s ! i)" using e by (auto simp: less_2_cases_iff)
  obtain a n where "ps_eth (ps_if s ! i) = Some a" "netifs s a = Some n" "netif_state n = Some p"
    using assms(3) i by (auto simp: contexts_def Option.bind_eq_Some_conv)
  moreover have "ps_if s ! i = \<lparr>cid = c, ps_eth = Some a\<rparr>" using calculation(1) i2(2) by simp
  moreover have "netif_ok c n" using entry_active [OF ok calculation(1)] calculation(2) i2(2) by auto
  ultimately show ?thesis using i i2 by blast
qed

definition lowered :: "netif \<Rightarrow> netif" where
  "lowered n = n\<lparr>flags := flags n AND NOT NETIF_FLAG_UP\<rparr>"

lemma lowered_not_up [simp]: "\<not> netif_is_up (lowered n)"
  by (simp add: lowered_def netif_is_up_def)

lemma set_down:
  assumes "netifs s a = Some n" "netif_is_up n" "status_callback n" "callbacks_live s"
  shows "netif_set_down a s =
    Inr (s\<lparr>netifs := (netifs s)(a \<mapsto> lowered n),
           net_log := net_log s @ calls s a (lowered n) NETIF_MGMT_EVENT_DOWN @ [PsEvent False]\<rparr>)"
proof -
  let ?s = "s\<lparr>netifs := (netifs s)(a \<mapsto> lowered n)\<rparr>"
  have "netif_set_down a s = NETIF_STATUS_CALLBACK a ?s"
    using assms(1,2) by (simp add: netif_set_down_def lowered_def)
  also have "\<dots> = netif_mgmt_status_callback_proc a ?s"
    using assms(3) by (simp add: NETIF_STATUS_CALLBACK_def lowered_def)
  also have "\<dots> = Inr (?s\<lparr>net_log := net_log ?s @ calls ?s a (lowered n) NETIF_MGMT_EVENT_DOWN @ [PsEvent False]\<rparr>)"
    using assms(4) status_callback_proc [of ?s a "lowered n"] by (simp add: callbacks_live_def)
  also have "calls ?s a (lowered n) NETIF_MGMT_EVENT_DOWN = calls s a (lowered n) NETIF_MGMT_EVENT_DOWN"
    by (rule calls_cong) simp_all
  finally show ?thesis by (simp add: fun_upd_def)
qed

lemma deactivate_state:
  assumes "callbacks_live s" "find_netif_by_cid s (word_of_int c) = Some i" "ps_if s ! i = \<lparr>cid = k, ps_eth = Some a\<rparr>"
    "netifs s a = Some n" "netif_is_up n" "status_callback n"
  shows "ps_netif_deactivate c IPV4_TYPE s =
    Inr (s\<lparr>net_log := net_log s @ calls s a (lowered n) NETIF_MGMT_EVENT_DOWN @ [PsEvent False],
           netif_default := (if netif_default s = Some a then None else netif_default s),
           netif_list := remove1 a (netif_list s), netifs := (netifs s)(a := None),
           ps_if := (ps_if s)[i := \<lparr>cid = 0, ps_eth = None\<rparr>]\<rparr>)"
proof -
  let ?s = "s\<lparr>net_log := net_log s @ calls s a (lowered n) NETIF_MGMT_EVENT_DOWN @ [PsEvent False],
           netif_default := (if netif_default s = Some a then None else netif_default s),
           netif_list := remove1 a (netif_list s), netifs := (netifs s)(a \<mapsto> lowered n)\<rparr>"
  have "netif_remove (Some a) s = Inr ?s"
    using assms set_down [OF assms(4-6,1)]
    by (cases "netif_default s = Some a") (simp_all add: netif_remove_def netif_set_default_def Let_def)
  moreover have "first_idx (cid_is (word_of_int c)) (ps_if ?s) = Some i"
    using assms(2) by (simp add: find_netif_by_cid_def)
  moreover have "del_one_netif (word_of_int c) ?s = Inr (?s\<lparr>netifs := (netifs s)(a := None),
       ps_if := (ps_if s)[i := \<lparr>cid = 0, ps_eth = None\<rparr>]\<rparr>)"
    using calculation(2) assms(3) by (simp add: del_one_netif_def)
  ultimately show ?thesis
    using assms(2,3) by (simp add: ps_netif_deactivate_def)
qed

lemma entry_ok_other: "entry_ok h e \<Longrightarrow> ps_eth e \<noteq> Some a \<Longrightarrow> entry_ok (h(a := None)) e \<and> ctx_of (h(a := None)) e = ctx_of h e"
  by (auto simp: entry_ok_def ctx_of_def split: option.splits)

lemma remove_one:
  assumes "distinct l" "set l = active [e0, e1]" "ps_eth e0 = Some a" "ps_eth e1 \<noteq> Some a"
  shows "distinct (remove1 a l) \<and> set (remove1 a l) = active [\<lparr>cid = 0, ps_eth = None\<rparr>, e1]"
  using assms by (auto simp: active_two)

lemma active_swap: "active [e0, e1] = active [e1, e0]"
  by (auto simp: active_two)

lemma deactivate_works:
  assumes inv: "net_inv s" and c: "valid_cid (word_of_int c)" and ctx: "contexts s (word_of_int c) = Some p"
  shows "\<exists>s' a n. ps_netif_deactivate c IPV4_TYPE s = Inr s' \<and> net_inv s'
    \<and> contexts s' = (contexts s)(word_of_int c := None)
    \<and> ref_pridns s' = ref_pridns s \<and> ref_secdns s' = ref_secdns s \<and> eth_of s (word_of_int c) = Some a
    \<and> netif_default s' = (if netif_default s = Some a then None else netif_default s)
    \<and> net_log s' = net_log s @ calls s a n NETIF_MGMT_EVENT_DOWN @ [PsEvent False]"
proof -
  let ?c = "word_of_int c :: u8"
  let ?empty = "\<lparr>cid = 0, ps_eth = None\<rparr>"
  obtain e0 e1 where e: "ps_if s = [e0, e1]" "entry_ok (netifs s) e0" "entry_ok (netifs s) e1"
    and ne: "ps_eth e0 \<noteq> None \<and> ps_eth e1 \<noteq> None \<longrightarrow> cid e0 \<noteq> cid e1 \<and> ps_eth e0 \<noteq> ps_eth e1"
    and l: "distinct (netif_list s)" "set (netif_list s) = active [e0, e1]" "dom (netifs s) = active [e0, e1]"
    and def: "\<forall>a. netif_default s = Some a \<longrightarrow> a \<in> active [e0, e1]"
    and more: "callbacks_live s" "length (dns_servers s) = 2"
    using net_invE [OF inv] by blast
  obtain i a n where i: "find_netif_by_cid s ?c = Some i" "i < 2" "ps_if s ! i = \<lparr>cid = ?c, ps_eth = Some a\<rparr>"
    and n: "netifs s a = Some n" "netif_ok ?c n"
    using find_Some [OF inv c ctx] by blast
  let ?s = "s\<lparr>net_log := net_log s @ calls s a (lowered n) NETIF_MGMT_EVENT_DOWN @ [PsEvent False],
           netif_default := (if netif_default s = Some a then None else netif_default s),
           netif_list := remove1 a (netif_list s), netifs := (netifs s)(a := None),
           ps_if := (ps_if s)[i := ?empty]\<rparr>"
  have res: "ps_netif_deactivate c IPV4_TYPE s = Inr ?s"
    using n by (intro deactivate_state [OF more(1) i(1,3)]) (auto simp: netif_ok_def)
  have emp: "entry_ok (netifs ?s) ?empty" by (simp add: entry_ok_def)
  have "net_inv ?s \<and> contexts ?s = (contexts s)(?c := None)"
  proof (cases "i = 0")
    case True
    then have e0: "e0 = \<lparr>cid = ?c, ps_eth = Some a\<rparr>" using i(3) e(1) by simp
    then have e1: "ps_eth e1 \<noteq> Some a" "ps_eth e1 \<noteq> None \<longrightarrow> cid e1 \<noteq> ?c" using ne by auto
    have t: "ps_if ?s = [?empty, e1]" using True e(1) by simp
    have ok: "entry_ok (netifs ?s) e1" "ctx_of (netifs ?s) e1 = ctx_of (netifs s) e1"
      using entry_ok_other [OF e(3) e1(1)] by simp_all
    have "net_inv ?s"
      by (rule net_invI [OF t emp ok(1)])
         (use l def e0 e1 more remove_one [OF l(1,2), of a] in
           \<open>auto simp: t e(1) True active_two callbacks_live_def split: if_splits\<close>)
    moreover have "contexts ?s x = ((contexts s)(?c := None)) x" for x
      unfolding contexts_two [OF t emp ok(1)] fun_upd_apply contexts_two [OF e] ok(2)
      using e0 e1 by auto
    ultimately show ?thesis by blast
  next
    case False
    then have i1: "i = 1" using i(2) by simp
    then have e1: "e1 = \<lparr>cid = ?c, ps_eth = Some a\<rparr>" using i(3) e(1) by simp
    then have e0: "ps_eth e0 \<noteq> Some a" "ps_eth e0 \<noteq> None \<longrightarrow> cid e0 \<noteq> ?c" using ne by auto
    have t: "ps_if ?s = [e0, ?empty]" using i1 e(1) by simp
    have ok: "entry_ok (netifs ?s) e0" "ctx_of (netifs ?s) e0 = ctx_of (netifs s) e0"
      using entry_ok_other [OF e(2) e0(1)] by simp_all
    have "net_inv ?s"
      by (rule net_invI [OF t ok(1) emp])
         (use l def e0 e1 more remove_one [OF l(1) _ _ e0(1), of e1] in
           \<open>auto simp: t e(1) i1 active_two active_swap [of e0 e1] callbacks_live_def split: if_splits\<close>)
    moreover have "contexts ?s x = ((contexts s)(?c := None)) x" for x
      unfolding contexts_two [OF t ok(1) emp] fun_upd_apply contexts_two [OF e] ok(2)
      using e0 e1 by auto
    ultimately show ?thesis by blast
  qed
  moreover have "eth_of s ?c = Some a" using i by (simp add: eth_of_def)
  ultimately show ?thesis using res by auto
qed

end
