(* ===== verification/NetifProps.thy ===== *)
theory NetifProps
  imports NetifSpec
begin

text \<open>
  The properties of the interface table: runs of the proxy thread follow a map of contexts, what an
  activation announces, and two situations the code does not handle.
\<close>

section \<open>The proxy thread follows a map\<close>

fun proxy_spec ::
    "u32 \<Rightarrow> u32 \<Rightarrow> proxy_msg \<Rightarrow> (u8 \<Rightarrow> pdp_active_info option) \<Rightarrow> (u8 \<Rightarrow> pdp_active_info option) res" where
  "proxy_spec r1 r2 (PROXY_MSG_PS_PDP_ACT a p) m =
     (if m (c_id p) \<noteq> None \<or> card (dom m) = PS_PDP_CID_MAX then Inl AssertFail
      else Inr (m(c_id p \<mapsto> complete r1 r2 p)))"
| "proxy_spec r1 r2 (PROXY_MSG_PS_PDP_DEACT c) m =
     (if m (word_of_int c) = None then Inl AssertFail else Inr (m(word_of_int c := None)))"
| "proxy_spec r1 r2 msg m = Inr m"

text \<open>The allocator returns an unused address, and context numbers are positive as a \<open>char\<close>.\<close>

fun pdp_admissible :: "proxy_msg \<Rightarrow> proxy \<Rightarrow> bool" where
  "pdp_admissible (PROXY_MSG_PS_PDP_ACT a p) s \<longleftrightarrow> netifs (proxy_net s) a = None \<and> valid_cid (c_id p)"
| "pdp_admissible (PROXY_MSG_PS_PDP_DEACT c) s \<longleftrightarrow> valid_cid (word_of_int c)"
| "pdp_admissible msg s \<longleftrightarrow> True"

definition proxy_inv :: "u32 \<Rightarrow> u32 \<Rightarrow> proxy \<Rightarrow> bool" where
  "proxy_inv r1 r2 s \<longleftrightarrow>
     net_inv (proxy_net s) \<and> ref_pridns (proxy_net s) = r1 \<and> ref_secdns (proxy_net s) = r2"

lemma activate_fails:
  assumes "net_inv s" "valid_cid (c_id p)" "contexts s (c_id p) \<noteq> None \<or> card (dom (contexts s)) = 2"
  shows "ps_netif_activate a p s = Inl AssertFail"
  using assms(3) by (auto simp: ps_netif_activate_def Let_def insert_heap insert_result [OF assms(1,2)])

lemma proxy_step:
  assumes "proxy_inv r1 r2 s" "pdp_admissible msg s"
  shows "case xy_proxy_ctl msg s of
      Inl e \<Rightarrow> proxy_spec r1 r2 msg (contexts (proxy_net s)) = Inl e
    | Inr s' \<Rightarrow> proxy_inv r1 r2 s' \<and> proxy_spec r1 r2 msg (contexts (proxy_net s)) = Inr (contexts (proxy_net s'))"
proof (cases msg)
  case (PROXY_MSG_PS_PDP_ACT a p)
  have h: "net_inv (proxy_net s)" "netifs (proxy_net s) a = None" "valid_cid (c_id p)"
    using assms by (simp_all add: proxy_inv_def PROXY_MSG_PS_PDP_ACT)
  show ?thesis
  proof (cases "contexts (proxy_net s) (c_id p) \<noteq> None \<or> card (dom (contexts (proxy_net s))) = 2")
    case True
    then show ?thesis
      using activate_fails [OF h(1,3) True] by (simp add: PROXY_MSG_PS_PDP_ACT PS_PDP_CID_MAX_def)
  next
    case False
    then show ?thesis
      using activate_works [OF h] assms(1)
      by (auto simp: PROXY_MSG_PS_PDP_ACT PS_PDP_CID_MAX_def proxy_inv_def)
  qed
next
  case (PROXY_MSG_PS_PDP_DEACT c)
  have h: "net_inv (proxy_net s)" "valid_cid (word_of_int c)"
    using assms by (simp_all add: proxy_inv_def PROXY_MSG_PS_PDP_DEACT)
  show ?thesis
  proof (cases "contexts (proxy_net s) (word_of_int c)")
    case None
    then show ?thesis
      using find_None [OF h] by (simp add: PROXY_MSG_PS_PDP_DEACT ps_netif_deactivate_def)
  next
    case (Some p)
    then show ?thesis
      using deactivate_works [OF h Some] assms(1) by (auto simp: PROXY_MSG_PS_PDP_DEACT proxy_inv_def)
  qed
qed (use assms in \<open>simp_all add: proxy_inv_def\<close>)

interpretation proxy_thread: op_simulation "proxy_inv r1 r2" "\<lambda>s. contexts (proxy_net s)" xy_proxy_ctl
    "proxy_spec r1 r2" pdp_admissible for r1 r2
proof unfold_locales
  fix m s e
  assume "proxy_inv r1 r2 s" "pdp_admissible m s" "xy_proxy_ctl m s = Inl e"
  then show "proxy_spec r1 r2 m (contexts (proxy_net s)) = Inl e"
    using proxy_step [of r1 r2 s m] by simp
next
  fix m s s'
  assume "proxy_inv r1 r2 s" "pdp_admissible m s" "xy_proxy_ctl m s = Inr s'"
  then show "proxy_inv r1 r2 s' \<and> proxy_spec r1 r2 m (contexts (proxy_net s)) = Inr (contexts (proxy_net s'))"
    using proxy_step [of r1 r2 s m] by simp
qed

section \<open>A concrete program state\<close>

definition boot_net :: net where
  "boot_net = \<lparr>netifs = Map.empty, ps_if = replicate 2 \<lparr>cid = 0, ps_eth = None\<rparr>, netif_list = [],
     netif_default = None, netif_num = 0, dns_servers = [0, 0], ref_pridns = 0x72727272, ref_secdns = 0x08080808,
     cb_objs = Map.empty, netif_mgmt_event_callback_list = [], net_log = []\<rparr>"

definition boot_proxy :: proxy where
  "boot_proxy = \<lparr>proxy_net = boot_net, cdp_handle_exist = False, cdp_restart_running = False,
     cdp_update_running = False, onenet_update_running = False, dbg_pdp_act_succ = 0, dbg_pdp_deact_num = 0,
     proxy_log = []\<rparr>"

definition demo_pdp :: "u8 \<Rightarrow> pdp_active_info" where
  "demo_pdp c = \<lparr>c_id = c, ip46flag = IPV4_TYPE, pdp_ip = 0x0A00000A, gateway = 0, pri_dns = 0, sec_dns = 1,
     ipv6 = [0, 0, 0, 0]\<rparr>"

lemma boot_inv: "net_inv boot_net"
  by (rule net_invI [of _ "\<lparr>cid = 0, ps_eth = None\<rparr>" "\<lparr>cid = 0, ps_eth = None\<rparr>"])
     (simp_all add: boot_net_def entry_ok_def active_two callbacks_live_def numeral_2_eq_2)

lemma boot_contexts: "contexts boot_net = Map.empty"
  by (rule ext) (simp add: contexts_def boot_net_def find_netif_by_cid_def numeral_2_eq_2)

lemma demo_cids [simp]: "valid_cid 5" "valid_cid 6"
  by (simp_all add: valid_cid_def)

lemma demo_c_id [simp]: "c_id (demo_pdp c) = c"
  by (simp add: demo_pdp_def)

section \<open>Properties\<close>

text \<open>
  C16: The proxy thread keeps the invariant of the interface table, and every sequence of its
  messages does to the table what the corresponding updates do to a map with at most two contexts:
  a second activation of a context, a third context and the deactivation of an unknown one stop
  the system, everything else succeeds.
\<close>

theorem proxy_refines_contexts:
  assumes "proxy_inv r1 r2 s" "all_steps pdp_admissible xy_proxy_ctl msgs s"
  shows "case run_proxy msgs s of
      Inl e \<Rightarrow> run_steps (proxy_spec r1 r2) msgs (contexts (proxy_net s)) = Inl e
    | Inr s' \<Rightarrow> proxy_inv r1 r2 s'
        \<and> run_steps (proxy_spec r1 r2) msgs (contexts (proxy_net s)) = Inr (contexts (proxy_net s'))"
  unfolding run_proxy_def by (rule proxy_thread.run_follows [OF assms])

lemma demo_messages:
  "all_steps pdp_admissible xy_proxy_ctl
     [PROXY_MSG_PS_PDP_ACT 1000 (demo_pdp 5), PROXY_MSG_RESUME_CDP_UPDATE, PROXY_MSG_PS_PDP_DEACT 5,
      PROXY_MSG_PS_PDP_DEACT 5] boot_proxy"
proof -
  have v: "valid_cid (word_of_int 5)" by simp
  show ?thesis
    by (simp add: boot_proxy_def boot_net_def v split: sum.split)
qed

lemma proxy_refines_contexts_witness:
  "\<exists>s. run_proxy [PROXY_MSG_PS_PDP_ACT 1000 (demo_pdp 5), PROXY_MSG_RESUME_CDP_UPDATE] boot_proxy = Inr s
     \<and> contexts (proxy_net s) 5 = Some ((demo_pdp 5)\<lparr>pri_dns := 0x72727272\<rparr>)"
proof -
  let ?ms = "[PROXY_MSG_PS_PDP_ACT 1000 (demo_pdp 5), PROXY_MSG_RESUME_CDP_UPDATE]"
  have inv: "proxy_inv 0x72727272 0x08080808 boot_proxy"
    using boot_inv by (simp add: proxy_inv_def boot_proxy_def boot_net_def)
  have adm: "all_steps pdp_admissible xy_proxy_ctl ?ms boot_proxy"
    by (simp add: boot_proxy_def boot_net_def split: sum.split)
  have "run_steps (proxy_spec 0x72727272 0x08080808) ?ms (contexts (proxy_net boot_proxy))
      = Inr [5 \<mapsto> (demo_pdp 5)\<lparr>pri_dns := 0x72727272\<rparr>]"
    by (simp add: boot_proxy_def boot_contexts PS_PDP_CID_MAX_def complete_def has_ip4_def demo_pdp_def)
  then show ?thesis
    using proxy_refines_contexts [OF inv adm]
    by (cases "run_proxy ?ms boot_proxy") (simp_all del: run_steps.simps, metis fun_upd_same)
qed

text \<open>
  C17: Activating a context and deactivating it again calls each callback registered for going up
  once and then each callback registered for going down once, in the order of registration and
  with the interface of the context; in between the interface is the default route and up, and
  afterwards the contexts are as before.
\<close>

theorem activation_is_announced:
  assumes inv: "net_inv s" and fresh: "netifs s a = None" and c: "valid_cid (c_id p)" "word_of_int k = c_id p"
    and room: "contexts s (c_id p) = None" "card (dom (contexts s)) \<noteq> 2"
    and unnamed: "\<forall>cb \<in> set (netif_mgmt_event_callback_list s). cb_netif_name (the (cb_objs s cb)) = ''''"
  shows "\<exists>s' s''. ps_netif_activate a p s = Inr s' \<and> netif_default s' = Some a \<and> ps_netif_is_ok s' = Inr True
    \<and> ps_netif_deactivate k IPV4_TYPE s' = Inr s'' \<and> contexts s'' = contexts s
    \<and> net_log s'' = net_log s
        @ map (\<lambda>cb. Callback (callback (the (cb_objs s cb))) a NETIF_MGMT_EVENT_UP)
            (filter (\<lambda>cb. bit (netif_mgmt_event_bitmap (the (cb_objs s cb))) 0) (netif_mgmt_event_callback_list s))
        @ [PsEvent True]
        @ map (\<lambda>cb. Callback (callback (the (cb_objs s cb))) a NETIF_MGMT_EVENT_DOWN)
            (filter (\<lambda>cb. bit (netif_mgmt_event_bitmap (the (cb_objs s cb))) 1) (netif_mgmt_event_callback_list s))
        @ [PsEvent False]"
proof -
  have calls: "calls t a n ev = map (\<lambda>cb. Callback (callback (the (cb_objs s cb))) a ev)
      (filter (\<lambda>cb. bit (netif_mgmt_event_bitmap (the (cb_objs s cb))) (event_no ev)) (netif_mgmt_event_callback_list s))"
    if "cb_objs t = cb_objs s" "netif_mgmt_event_callback_list t = netif_mgmt_event_callback_list s" for t n ev
    using that unnamed by (auto simp: calls_def cb_wants_def cong: filter_cong)
  obtain s' n m where s': "ps_netif_activate a p s = Inr s'" "net_inv s'" "netif_default s' = Some a"
      "contexts s' = (contexts s)(c_id p \<mapsto> complete (ref_pridns s) (ref_secdns s) p)" "eth_of s' (c_id p) = Some a"
      "cb_objs s' = cb_objs s" "netif_mgmt_event_callback_list s' = netif_mgmt_event_callback_list s"
      "netifs s' a = Some m" "netif_ok (c_id p) m"
      "net_log s' = net_log s @ calls s a n NETIF_MGMT_EVENT_UP @ [PsEvent True]"
    using activate_works [OF inv fresh c(1) room] by metis
  obtain s'' n' where s'': "ps_netif_deactivate k IPV4_TYPE s' = Inr s''"
      "contexts s'' = (contexts s')(c_id p := None)"
      "net_log s'' = net_log s' @ calls s' a n' NETIF_MGMT_EVENT_DOWN @ [PsEvent False]"
    using deactivate_works [OF s'(2), of k] c s'(4,5) by fastforce
  have "ps_netif_is_ok s' = Inr True"
    using s'(3,8,9) by (simp add: ps_netif_is_ok_def netif_ok_def)
  moreover have "contexts s'' = contexts s"
    using s''(2) s'(4) room(1) by (simp add: fun_upd_idem)
  ultimately show ?thesis
    using s' s'' calls [of s n] calls [of s' n'] by (intro exI [of _ s'] exI [of _ s'']) simp
qed

lemma activation_is_announced_witness:
  "\<exists>s' s''. ps_netif_activate 1000 (demo_pdp 5) boot_net = Inr s' \<and> ps_netif_deactivate 5 IPV4_TYPE s' = Inr s''
     \<and> net_log s'' = [PsEvent True, PsEvent False]"
  using activation_is_announced [OF boot_inv, of 1000 "demo_pdp 5" 5]
  by (simp add: boot_contexts) (simp add: boot_net_def, blast)

text \<open>
  When the context that holds the default route is deactivated, the default route is cleared
  even if another context is still active: \<open>ps_netif_is_ok\<close> reports no network although
  \<open>find_active_netif\<close> still returns an interface that is up.
\<close>

lemma deactivation_loses_default_route:
  assumes inv: "net_inv s" and c: "valid_cid (word_of_int k)" and ctx: "contexts s (word_of_int k) = Some p"
    and route: "netif_default s = eth_of s (word_of_int k)"
    and other: "contexts s c' = Some q" "c' \<noteq> word_of_int k"
  shows "\<exists>s'. ps_netif_deactivate k IPV4_TYPE s = Inr s' \<and> contexts s' c' = Some q
    \<and> ps_netif_is_ok s' = Inr False
    \<and> (\<exists>b n. find_active_netif s' = Some b \<and> netifs s' b = Some n \<and> netif_is_up n)"
proof -
  obtain s' a where s': "ps_netif_deactivate k IPV4_TYPE s = Inr s'" "net_inv s'"
      "contexts s' = (contexts s)(word_of_int k := None)" "eth_of s (word_of_int k) = Some a"
      "netif_default s' = (if netif_default s = Some a then None else netif_default s)"
    using deactivate_works [OF inv c ctx] by metis
  have left: "contexts s' c' = Some q" using s'(3) other by simp
  obtain e0 e1 where e: "ps_if s' = [e0, e1]" "entry_ok (netifs s') e0" "entry_ok (netifs s') e1"
    using net_invE [OF s'(2)] by metis
  have "ps_eth e0 \<noteq> None \<or> ps_eth e1 \<noteq> None"
    using left by (auto simp: contexts_two [OF e] split: if_splits)
  moreover have "find_active_netif s' = (if ps_eth e0 \<noteq> None then ps_eth e0 else ps_eth e1)"
    by (auto simp: find_active_netif_def e(1))
  ultimately obtain e where x: "e \<in> {e0, e1}" "ps_eth e \<noteq> None" "find_active_netif s' = ps_eth e"
    by (metis insertCI)
  then obtain b where b: "ps_eth e = Some b" by blast
  have "entry_ok (netifs s') e" using x(1) e(2,3) by blast
  from entry_active [OF this b] obtain n where "netifs s' b = Some n" "netif_is_up n"
    by (auto simp: netif_ok_def)
  then have "\<exists>b n. find_active_netif s' = Some b \<and> netifs s' b = Some n \<and> netif_is_up n"
    using x(3) b by auto
  moreover have "ps_netif_is_ok s' = Inr False"
    using s'(4,5) route by (simp add: ps_netif_is_ok_def)
  ultimately show ?thesis using s'(1) left by blast
qed

lemma two_contexts:
  "\<exists>s. run_proxy [PROXY_MSG_PS_PDP_ACT 1000 (demo_pdp 5), PROXY_MSG_PS_PDP_ACT 2000 (demo_pdp 6)] boot_proxy = Inr s
     \<and> net_inv (proxy_net s) \<and> contexts (proxy_net s) 5 \<noteq> None \<and> contexts (proxy_net s) 6 \<noteq> None
     \<and> netif_default (proxy_net s) = eth_of (proxy_net s) 6"
proof -
  have 5: "netifs boot_net 1000 = None" "valid_cid (c_id (demo_pdp 5))" "contexts boot_net (c_id (demo_pdp 5)) = None"
      "card (dom (contexts boot_net)) \<noteq> 2"
    by (simp_all add: boot_contexts) (simp add: boot_net_def)
  obtain s where s: "ps_netif_activate 1000 (demo_pdp 5) boot_net = Inr s" "net_inv s"
      "\<exists>q. contexts s = [5 \<mapsto> q]"
    using activate_works [OF boot_inv 5] by (auto simp: boot_contexts)
  have "netifs s 2000 = None"
    using activate_state [OF boot_inv 5] s(1) by (auto simp: boot_net_def)
  then have 6: "netifs s 2000 = None" "valid_cid (c_id (demo_pdp 6))" "contexts s (c_id (demo_pdp 6)) = None"
      "card (dom (contexts s)) \<noteq> 2"
    using s(3) by auto
  obtain t where t: "ps_netif_activate 2000 (demo_pdp 6) s = Inr t" "net_inv t"
      "contexts t 6 \<noteq> None" "contexts t 5 \<noteq> None" "netif_default t = eth_of t 6"
    using activate_works [OF s(2) 6] s(3) by auto
  show ?thesis
    using s(1) t by (auto simp: run_proxy_def boot_proxy_def)
qed

lemma deactivation_loses_default_route_witness:
  "\<exists>s s'. run_proxy [PROXY_MSG_PS_PDP_ACT 1000 (demo_pdp 5), PROXY_MSG_PS_PDP_ACT 2000 (demo_pdp 6)] boot_proxy = Inr s
     \<and> ps_netif_deactivate 6 IPV4_TYPE (proxy_net s) = Inr s' \<and> ps_netif_is_ok s' = Inr False"
  using two_contexts deactivation_loses_default_route [where k = 6 and c' = 5] by fastforce

end
