(* ===== verification/NetData.thy ===== *)
theory NetData
  imports MemMap Simulation
begin

text \<open>
  Uplink data of \<open>APPLIB/lwip/xy_adapter/src/ps_netif_api.c\<close>: the log of a packet, the packets handed
  to the DSP core with their release assistance (RAI) and sequence numbers, and the part of
  \<open>lwip_send2\<close> and \<open>lwip_sendto2\<close> (\<open>api/sockets.c\<close>) that presets both for a socket.  The result of
  \<open>shm_msg_write\<close>, the tick counter and the allocator's address are arguments.
\<close>

section \<open>ip_packet_information_print\<close>

text \<open>The lines it prints; a read behind the packet is \<open>BadAccess\<close>.\<close>

datatype ip_log =
    IpPacket u16 u16 u8 u32 u32 u16
  | IcmpPacket u32
  | TcpPacket u16 u16 u32 u32 string u32
  | UdpPacket u16 u16 u32

definition byte_at :: "u8 list \<Rightarrow> nat \<Rightarrow> u8 res" where
  "byte_at d i = (if i < length d then Inr (d ! i) else Inl BadAccess)"

text \<open>\<open>lwip_ntohs\<close> and \<open>lwip_ntohl\<close> of a load: big-endian values; addresses stay as loaded.\<close>

definition ntohs_at :: "u8 list \<Rightarrow> nat \<Rightarrow> u16 res" where
  "ntohs_at d i = bind_res (byte_at d i) (\<lambda>h. bind_res (byte_at d (i + 1)) (\<lambda>l.
     Inr (push_bit 8 (ucast h) OR ucast l)))"

definition ntohl_at :: "u8 list \<Rightarrow> nat \<Rightarrow> u32 res" where
  "ntohl_at d i = bind_res (ntohs_at d i) (\<lambda>h. bind_res (ntohs_at d (i + 2)) (\<lambda>l.
     Inr (push_bit 16 (ucast h) OR ucast l)))"

definition load32_at :: "u8 list \<Rightarrow> nat \<Rightarrow> u32 res" where
  "load32_at d i = bind_res (byte_at d i) (\<lambda>b0. bind_res (byte_at d (i + 1)) (\<lambda>b1.
     bind_res (byte_at d (i + 2)) (\<lambda>b2. bind_res (byte_at d (i + 3)) (\<lambda>b3. Inr (u32_of b0 b1 b2 b3)))))"

definition IPPROTO_ICMP :: u8 where "IPPROTO_ICMP = 1"
definition IPPROTO_TCP :: u8 where "IPPROTO_TCP = 6"
definition IPPROTO_UDP :: u8 where "IPPROTO_UDP = 17"

lemmas ipproto_defs = IPPROTO_ICMP_def IPPROTO_TCP_def IPPROTO_UDP_def

definition tcp_flags_str :: "u16 \<Rightarrow> string" where
  "tcp_flags_str f =
     (if f AND 0x0010 \<noteq> 0 then ''A'' else '''') @ (if f AND 0x0008 \<noteq> 0 then ''P'' else '''')
     @ (if f AND 0x0004 \<noteq> 0 then ''R'' else '''') @ (if f AND 0x0002 \<noteq> 0 then ''S'' else '''')
     @ (if f AND 0x0001 \<noteq> 0 then ''F'' else '''')"

definition ip_packet_information_print :: "u8 list \<Rightarrow> u16 \<Rightarrow> ip_log list res" where
  "ip_packet_information_print data len =
     (if len \<le> 20 then Inr []
      else bind_res (byte_at data 0) (\<lambda>b0.
        if drop_bit 4 b0 \<noteq> 4 then Inr []
        else
          let ip_header_len = unat (b0 AND 0x0F) * 4
          in bind_res (ntohs_at data 2) (\<lambda>total_len.
             bind_res (ntohs_at data 4) (\<lambda>ident.
             bind_res (byte_at data 9) (\<lambda>protocol.
             bind_res (load32_at data 12) (\<lambda>src.
             bind_res (load32_at data 16) (\<lambda>dst.
             let head = IpPacket total_len ident protocol src dst len;
                 data_len = (\<lambda>sub. ucast total_len - of_nat ip_header_len - of_nat sub)
             in if total_len \<noteq> len then Inr [head]
                else if protocol = IPPROTO_ICMP then Inr [head, IcmpPacket (data_len 8)]
                else if protocol = IPPROTO_TCP then
                  bind_res (ntohs_at data ip_header_len) (\<lambda>src_port.
                  bind_res (ntohs_at data (ip_header_len + 2)) (\<lambda>dst_port.
                  bind_res (ntohl_at data (ip_header_len + 4)) (\<lambda>seqno.
                  bind_res (ntohl_at data (ip_header_len + 8)) (\<lambda>ackno.
                  bind_res (ntohs_at data (ip_header_len + 12)) (\<lambda>off_flags.
                    Inr [head, TcpPacket src_port dst_port seqno ackno (tcp_flags_str (off_flags AND 0x0FFF))
                      (data_len (unat (drop_bit 12 off_flags) * 4))])))))
                else if protocol = IPPROTO_UDP then
                  bind_res (ntohs_at data ip_header_len) (\<lambda>src_port.
                  bind_res (ntohs_at data (ip_header_len + 2)) (\<lambda>dst_port.
                    Inr [head, UdpPacket src_port dst_port (data_len 8)]))
                else Inr [head])))))))"

section \<open>State\<close>

definition NUM_SOCKETS :: nat where "NUM_SOCKETS = 10"

record ipdata_info =
  info_cid :: u8
  info_rai :: u8
  data_type :: u8
  sequence :: u16
  data_len :: u16
  data_addr :: u32
  info_data :: "u8 list"

record uplink =
  g_udp_send_seq :: "u16 list"
  g_udp_send_rai :: "u8 list"
  g_null_udp_rai :: int
  g_working_cid :: int
  g_udp_latest_seq :: u16
  g_udp_seq :: u16
  off_debug :: u8
  g_drop_up_dbg :: u8
  g_OOS_flag :: u8
  dsp_is_not_loaded :: bool
  dbg_drop_up_sum :: nat
  ip_logs :: "ip_log list"
  shm_ipdata :: "ipdata_info list"

record pbuf =
  soc_id :: u16
  payload :: "u8 list"

datatype err_t = ERR_OK | ERR_IF

section \<open>lwip_send2, lwip_sendto2: presetting RAI and sequence number\<close>

definition preset_udp :: "nat \<Rightarrow> bool \<Rightarrow> int \<Rightarrow> int \<Rightarrow> uplink \<Rightarrow> uplink" where
  "preset_udp s is_udp sq rai_val u =
     (if is_udp
      then
        let u = u\<lparr>g_udp_send_rai := (g_udp_send_rai u)[s := 0]\<rparr>;
            u = (if rai_val \<noteq> 0 then u\<lparr>g_udp_send_rai := (g_udp_send_rai u)[s := word_of_int rai_val]\<rparr> else u)
        in if sq \<noteq> 0
           then u\<lparr>g_udp_send_seq := (g_udp_send_seq u)[s := push_bit 8 (of_nat (s + 1)) + (word_of_int sq AND 0xFF)]\<rparr>
           else u
      else u)"

section \<open>send_ip_packet_to_ps_net (M3 core)\<close>

text \<open>The socket of the chain: the last buffer with a socket number decides; \<open>-1\<close> is \<open>None\<close>.\<close>

fun chain_socket :: "pbuf list \<Rightarrow> nat option \<Rightarrow> nat option" where
  "chain_socket [] acc = acc"
| "chain_socket (q # qs) acc =
     chain_socket qs (if 0 < unat (soc_id q) \<and> unat (soc_id q) \<le> NUM_SOCKETS then Some (unat (soc_id q) - 1) else acc)"

text \<open>Copying the chain into a block of \<open>tot_len\<close> zeros.\<close>

fun copy_chain :: "pbuf list \<Rightarrow> nat \<Rightarrow> u8 list \<Rightarrow> u8 list res" where
  "copy_chain [] offset_to block = Inr block"
| "copy_chain (q # qs) offset_to block =
     (if offset_to + length (payload q) \<le> length block
      then copy_chain qs (offset_to + length (payload q)) (blit block offset_to (payload q))
      else Inl BadAccess)"

definition clear_preset :: "nat option \<Rightarrow> uplink \<Rightarrow> uplink" where
  "clear_preset udp_seq_id u =
     (case udp_seq_id of
        None \<Rightarrow> u
      | Some i \<Rightarrow> u\<lparr>g_udp_send_rai := (g_udp_send_rai u)[i := 0], g_udp_send_seq := (g_udp_send_seq u)[i := 0]\<rparr>)"

definition choose_rai :: "nat option \<Rightarrow> uplink \<Rightarrow> (u8 \<times> u8) \<times> uplink" where
  "choose_rai udp_seq_id u =
     (if g_null_udp_rai u = 1 then ((1, 0xFD), u\<lparr>g_null_udp_rai := 0\<rparr>)
      else
        case udp_seq_id of
          Some i \<Rightarrow>
            if g_udp_send_rai u ! i \<noteq> 0 then ((g_udp_send_rai u ! i, word_of_int (g_working_cid u)), u)
            else ((0, word_of_int (g_working_cid u)), u)
        | None \<Rightarrow> ((0, word_of_int (g_working_cid u)), u))"

definition choose_seq :: "nat option \<Rightarrow> uplink \<Rightarrow> u16 \<times> uplink" where
  "choose_seq udp_seq_id u =
     (let own = (case udp_seq_id of None \<Rightarrow> 0 | Some i \<Rightarrow> g_udp_send_seq u ! i)
      in if own \<noteq> 0 then (own, u\<lparr>g_udp_latest_seq := own\<rparr>)
         else (g_udp_seq u, u\<lparr>g_udp_latest_seq := g_udp_seq u, g_udp_seq := g_udp_seq u + 1\<rparr>))"

definition dropped_for_debug :: "u8 \<Rightarrow> u8 \<Rightarrow> nat \<Rightarrow> bool" where
  "dropped_for_debug off drop_dbg tick \<longleftrightarrow> off = 0 \<and> 0 < drop_dbg \<and> tick mod unat drop_dbg = 0"

definition print_if_debug :: "u8 list \<Rightarrow> u16 \<Rightarrow> uplink \<Rightarrow> uplink res" where
  "print_if_debug data len u =
     (if off_debug u = 0
      then bind_res (ip_packet_information_print data len) (\<lambda>l. Inr (u\<lparr>ip_logs := ip_logs u @ l\<rparr>))
      else Inr u)"

text \<open>
  \<open>udp_seq_id\<close> is set while the chain is copied: the early exits leave the presets of the socket.
  \<open>ok\<close> tells whether \<open>shm_msg_write\<close> succeeds, \<open>addr\<close> is the address of the block.
\<close>

definition send_ip_packet_to_ps_net ::
    "nat \<Rightarrow> u32 \<Rightarrow> bool \<Rightarrow> u16 \<Rightarrow> pbuf list \<Rightarrow> uplink \<Rightarrow> (err_t \<times> uplink) res" where
  "send_ip_packet_to_ps_net tick addr ok tot_len p u =
     (if dropped_for_debug (off_debug u) (g_drop_up_dbg u) tick
      then Inr (ERR_OK, u\<lparr>dbg_drop_up_sum := dbg_drop_up_sum u + 1\<rparr>)
      else if g_OOS_flag u = 1 then Inr (ERR_IF, u)
      else if dsp_is_not_loaded u then Inr (ERR_OK, u)
      else
        bind_res (if 0 < tot_len then copy_chain p 0 (replicate (unat tot_len) 0) else Inr []) (\<lambda>user_ipdata.
        let udp_seq_id = (if 0 < tot_len then chain_socket p None else None);
            ((rai, cid), u) = choose_rai udp_seq_id u;
            (sq, u) = choose_seq udp_seq_id u;
            info = \<lparr>info_cid = cid, info_rai = rai, data_type = 0, sequence = sq, data_len = tot_len,
              data_addr = get_Dsp_Addr_from_ARM (if 0 < tot_len then addr else 0), info_data = user_ipdata\<rparr>
        in bind_res (print_if_debug user_ipdata tot_len u) (\<lambda>u.
           let u = (if ok then u\<lparr>shm_ipdata := shm_ipdata u @ [info]\<rparr> else u)
           in Inr (ERR_OK, clear_preset udp_seq_id u))))"

definition netif_ps_output_ipv4 where "netif_ps_output_ipv4 = send_ip_packet_to_ps_net"
definition netif_ps_output_ipv6 where "netif_ps_output_ipv6 = send_ip_packet_to_ps_net"

section \<open>send_nonip_packet_to_ps\<close>

definition send_nonip_packet_to_ps :: "u32 \<Rightarrow> bool \<Rightarrow> u8 list \<Rightarrow> int \<Rightarrow> uplink \<Rightarrow> (err_t \<times> uplink) res" where
  "send_nonip_packet_to_ps addr ok data rai u =
     (if dsp_is_not_loaded u then Inr (ERR_OK, u)
      else
        let info = \<lparr>info_cid = word_of_int (g_working_cid u), info_rai = word_of_int rai, data_type = 0, sequence = 0,
              data_len = of_nat (length data), data_addr = get_Dsp_Addr_from_ARM addr, info_data = data\<rparr>
        in bind_res (print_if_debug data (of_nat (length data)) u) (\<lambda>u.
             Inr (ERR_OK, if ok then u\<lparr>shm_ipdata := shm_ipdata u @ [info]\<rparr> else u)))"

end
