(* ===== verification/NetDataProps.thy ===== *)
theory NetDataProps
  imports NetData
begin

text \<open>
  What the uplink path guarantees for a packet it accepts, and what it leaves behind for one it
  does not.
\<close>

section \<open>Copying a chain\<close>

definition chain_bytes :: "pbuf list \<Rightarrow> u8 list" where
  "chain_bytes p = concat (map payload p)"

lemma copy_chain_fits:
  "offset_to + length (chain_bytes p) \<le> length block \<Longrightarrow>
     copy_chain p offset_to block = Inr (blit block offset_to (chain_bytes p))"
proof (induction p arbitrary: offset_to block)
  case Nil
  then show ?case by (simp add: chain_bytes_def blit_def)
next
  case (Cons q p)
  let ?b = "blit block offset_to (payload q)"
  have fit: "offset_to + length (payload q) + length (chain_bytes p) \<le> length block"
    using Cons.prems by (simp add: chain_bytes_def)
  then have "copy_chain (q # p) offset_to block = Inr (blit ?b (offset_to + length (payload q)) (chain_bytes p))"
    using Cons.IH [of "offset_to + length (payload q)" ?b] by simp
  moreover have "blit ?b (offset_to + length (payload q)) (chain_bytes p) = blit block offset_to (chain_bytes (q # p))"
    using fit by (simp add: blit_def chain_bytes_def ac_simps)
  ultimately show ?case by simp
qed

lemma copy_chain_all:
  "copy_chain p 0 (replicate (length (chain_bytes p)) 0) = Inr (chain_bytes p)"
  by (simp add: copy_chain_fits blit_def)

section \<open>The log of a complete packet\<close>

text \<open>A packet whose headers are inside it can be printed.\<close>

definition headers_inside :: "u8 list \<Rightarrow> bool" where
  "headers_inside d \<longleftrightarrow> unat (d ! 0 AND 0x0F) * 4 + 14 \<le> length d"

lemma byte_at_inside [simp]: "i < length d \<Longrightarrow> byte_at d i = Inr (d ! i)"
  by (simp add: byte_at_def)

lemma loads_inside:
  "i + 2 \<le> length d \<Longrightarrow> \<exists>v. ntohs_at d i = Inr v" "i + 4 \<le> length d \<Longrightarrow> \<exists>v. ntohl_at d i = Inr v"
  "i + 4 \<le> length d \<Longrightarrow> \<exists>v. load32_at d i = Inr v"
  by (simp_all add: ntohs_at_def ntohl_at_def load32_at_def)

lemma printable:
  assumes "headers_inside d" "len = of_nat (length d)" "length d < 2 ^ 16"
  shows "\<exists>l. ip_packet_information_print d len = Inr l"
proof (cases "len \<le> 20 \<or> drop_bit 4 (d ! 0) \<noteq> 4")
  case True
  then show ?thesis
    using assms by (cases "d = []") (auto simp: ip_packet_information_print_def headers_inside_def)
next
  case False
  define h where "h = unat (d ! 0 AND 0x0F) * 4"
  have "20 < unat len" using False by (simp add: word_le_nat_alt)
  then have len: "20 < length d" using assms(2,3) by (simp add: unat_of_nat take_bit_eq_mod)
  have h: "h + 14 \<le> length d" using assms(1) by (simp add: headers_inside_def h_def)
  obtain v1 v2 v3 v4 where "ntohs_at d 2 = Inr v1" "ntohs_at d 4 = Inr v2" "load32_at d 12 = Inr v3"
      "load32_at d 16 = Inr v4"
    using len loads_inside(1) [of 2 d] loads_inside(1) [of 4 d] loads_inside(3) [of 12 d] loads_inside(3) [of 16 d]
    by auto
  moreover obtain w1 w2 w3 w4 w5 where "ntohs_at d h = Inr w1" "ntohs_at d (h + 2) = Inr w2"
      "ntohl_at d (h + 4) = Inr w3" "ntohl_at d (h + 8) = Inr w4" "ntohs_at d (h + 12) = Inr w5"
    using h loads_inside(1) [of h d] loads_inside(1) [of "h + 2" d] loads_inside(2) [of "h + 4" d]
      loads_inside(2) [of "h + 8" d] loads_inside(1) [of "h + 12" d] by auto
  moreover have "byte_at d 0 = Inr (d ! 0)" "byte_at d 9 = Inr (d ! 9)"
    using len by (auto simp: byte_at_def)
  ultimately show ?thesis
    using False by (simp add: ip_packet_information_print_def h_def [symmetric] Let_def del: byte_at_inside)
qed

section \<open>Sending\<close>

definition accepted :: "nat \<Rightarrow> uplink \<Rightarrow> bool" where
  "accepted tick u \<longleftrightarrow>
     \<not> dropped_for_debug (off_debug u) (g_drop_up_dbg u) tick \<and> g_OOS_flag u \<noteq> 1 \<and> \<not> dsp_is_not_loaded u"

text \<open>What lwIP hands over: the length of the chain, and a packet that can be logged.\<close>

definition packet_ok :: "u16 \<Rightarrow> pbuf list \<Rightarrow> uplink \<Rightarrow> bool" where
  "packet_ok tot_len p u \<longleftrightarrow>
     0 < length (chain_bytes p) \<and> length (chain_bytes p) < 2 ^ 16 \<and> tot_len = of_nat (length (chain_bytes p))
     \<and> (off_debug u = 0 \<longrightarrow> headers_inside (chain_bytes p))"

lemma print_keeps:
  assumes "print_if_debug d len u = Inr v"
  shows "\<exists>l. v = u\<lparr>ip_logs := ip_logs u @ l\<rparr>"
proof (cases "off_debug u = 0")
  case True
  then show ?thesis using assms by (auto simp: print_if_debug_def bind_res_eq_Inr)
next
  case False
  then have "v = u\<lparr>ip_logs := ip_logs u @ []\<rparr>" using assms by (simp add: print_if_debug_def)
  then show ?thesis by blast
qed

lemma print_works:
  assumes "packet_ok tot_len p u" "off_debug w = off_debug u"
  shows "\<exists>v. print_if_debug (chain_bytes p) tot_len w = Inr v"
proof (cases "off_debug u = 0")
  case True
  then obtain l where "ip_packet_information_print (chain_bytes p) tot_len = Inr l"
    using assms(1) printable unfolding packet_ok_def by blast
  then show ?thesis by (simp add: print_if_debug_def)
qed (simp add: print_if_debug_def assms(2))

text \<open>
  A complete accepted packet: one message with the bytes of the chain; the sequence number and
  RAI of the socket if they are preset, else the running number and none.
\<close>

definition own_seq :: "nat option \<Rightarrow> uplink \<Rightarrow> u16" where
  "own_seq so u = (case so of None \<Rightarrow> 0 | Some i \<Rightarrow> g_udp_send_seq u ! i)"

definition own_rai :: "nat option \<Rightarrow> uplink \<Rightarrow> u8" where
  "own_rai so u = (case so of None \<Rightarrow> 0 | Some i \<Rightarrow> g_udp_send_rai u ! i)"

lemma choose_rai_facts:
  "choose_rai so u = ((rai, k), v) \<Longrightarrow>
     rai = (if g_null_udp_rai u = 1 then 1 else own_rai so u)
     \<and> k = (if g_null_udp_rai u = 1 then 0xFD else word_of_int (g_working_cid u))
     \<and> v = (if g_null_udp_rai u = 1 then u\<lparr>g_null_udp_rai := 0\<rparr> else u)"
  by (auto simp: choose_rai_def own_rai_def split: if_splits option.splits)

lemma choose_seq_facts:
  "choose_seq so u = (sq, v) \<Longrightarrow>
     sq = (if own_seq so u \<noteq> 0 then own_seq so u else g_udp_seq u)
     \<and> v = u\<lparr>g_udp_latest_seq := sq, g_udp_seq := (if own_seq so u \<noteq> 0 then g_udp_seq u else g_udp_seq u + 1)\<rparr>"
  by (auto simp: choose_seq_def own_seq_def Let_def split: if_splits option.splits)

lemma send_accepted:
  assumes ok: "accepted tick u" and p: "packet_ok tot_len p u" and so: "so = chain_socket p None"
    and sq: "sq = (if own_seq so u \<noteq> 0 then own_seq so u else g_udp_seq u)"
  shows "\<exists>l. send_ip_packet_to_ps_net tick addr True tot_len p u =
    Inr (ERR_OK, clear_preset so (u\<lparr>
      g_null_udp_rai := (if g_null_udp_rai u = 1 then 0 else g_null_udp_rai u),
      g_udp_latest_seq := sq, g_udp_seq := (if own_seq so u \<noteq> 0 then g_udp_seq u else g_udp_seq u + 1),
      ip_logs := ip_logs u @ l,
      shm_ipdata := shm_ipdata u @
        [\<lparr>info_cid = (if g_null_udp_rai u = 1 then 0xFD else word_of_int (g_working_cid u)),
          info_rai = (if g_null_udp_rai u = 1 then 1 else own_rai so u), data_type = 0, sequence = sq,
          data_len = tot_len, data_addr = get_Dsp_Addr_from_ARM addr, info_data = chain_bytes p\<rparr>]\<rparr>))"
proof -
  have len: "length (chain_bytes p) < 2 ^ 16" "0 < length (chain_bytes p)" "tot_len = of_nat (length (chain_bytes p))"
    using p by (simp_all add: packet_ok_def)
  then have n: "unat tot_len = length (chain_bytes p)" by (simp add: unat_of_nat take_bit_eq_mod)
  then have pos: "0 < tot_len" using len(2) by (metis unat_gt_0 word_neq_0_conv)
  obtain rai k v where r: "choose_rai so u = ((rai, k), v)" by (metis prod.exhaust)
  obtain sq' w where q: "choose_seq so v = (sq', w)" by fastforce
  have own: "own_seq so v = own_seq so u" "g_udp_seq v = g_udp_seq u" "off_debug v = off_debug u"
    using choose_rai_facts [OF r] by (simp_all add: own_seq_def split: option.split)
  have sq': "sq' = sq" using choose_seq_facts [OF q] own sq by simp
  have "off_debug w = off_debug u" using choose_seq_facts [OF q] own(3) by simp
  then obtain l where l: "print_if_debug (chain_bytes p) tot_len w = Inr (w\<lparr>ip_logs := ip_logs w @ l\<rparr>)"
    using print_works [OF p, of w] print_keeps [of "chain_bytes p" tot_len w] by metis
  have "send_ip_packet_to_ps_net tick addr True tot_len p u =
     Inr (ERR_OK, clear_preset so (w\<lparr>ip_logs := ip_logs w @ l, shm_ipdata := shm_ipdata w @
        [\<lparr>info_cid = k, info_rai = rai, data_type = 0, sequence = sq, data_len = tot_len,
          data_addr = get_Dsp_Addr_from_ARM addr, info_data = chain_bytes p\<rparr>]\<rparr>))"
    using ok pos l
    by (simp add: send_ip_packet_to_ps_net_def accepted_def n copy_chain_all so [symmetric] r q sq')
  then show ?thesis
    using choose_rai_facts [OF r] choose_seq_facts [OF q] own sq
    by (intro exI [of _ l]) (auto simp: sq')
qed

section \<open>Runs of packets\<close>



text \<open>How packets should be numbered: the number preset for a socket goes to its next packet only.\<close>

fun numbering :: "(nat \<Rightarrow> u16) \<Rightarrow> u16 \<Rightarrow> nat option list \<Rightarrow> u16 list" where
  "numbering own next [] = []"
| "numbering own next (None # ss) = next # numbering own (next + 1) ss"
| "numbering own next (Some i # ss) =
     (if own i \<noteq> 0 then own i # numbering (own(i := 0)) next ss
      else next # numbering own (next + 1) ss)"






section \<open>Properties\<close>


definition demo_uplink :: uplink where
  "demo_uplink = \<lparr>g_udp_send_seq = (replicate 10 0)[2 := 0x0307], g_udp_send_rai = replicate 10 0, g_null_udp_rai = 0,
     g_working_cid = 5, g_udp_latest_seq = 0, g_udp_seq = 0xA000, off_debug = 1, g_drop_up_dbg = 0, g_OOS_flag = 0,
     dsp_is_not_loaded = False, dbg_drop_up_sum = 0, ip_logs = [], shm_ipdata = []\<rparr>"



text \<open>The number \<open>lwip_send2\<close> presets for a socket is never 0.\<close>

definition preset_number :: "nat \<Rightarrow> int \<Rightarrow> u16" where
  "preset_number s sq = push_bit 8 (of_nat (s + 1)) + (word_of_int sq AND 0xFF)"

lemma preset_number_unat:
  assumes "s < NUM_SOCKETS"
  shows "256 \<le> unat (preset_number s sq)"
proof -
  let ?low = "word_of_int sq AND 0xFF :: u16"
  have low: "unat ?low < 256"
    using take_bit_nat_less_exp [of 8 "unat (word_of_int sq :: u16)"]
    by (simp add: unsigned_and_eq mask_eq_exp_minus_1 flip: take_bit_eq_mask) (simp add: take_bit_eq_mask mask_eq_exp_minus_1)
  have s: "s + 1 < 16" using assms by (simp add: NUM_SOCKETS_def)
  have "push_bit 8 (of_nat (s + 1)) = (of_nat (256 * (s + 1)) :: u16)"
    by (simp add: push_bit_eq_mult algebra_simps)
  then have h: "unat (push_bit 8 (of_nat (s + 1)) :: u16) = 256 * (s + 1)"
    using s by (simp only: unat_of_nat) (simp add: take_bit_eq_mod)
  have "unat (preset_number s sq) = 256 * (s + 1) + unat ?low"
    using h low s unfolding preset_number_def by (subst unat_add_lem [THEN iffD1]) simp_all
  then show ?thesis by simp
qed

lemma preset_number_nonzero: "s < NUM_SOCKETS \<Longrightarrow> preset_number s sq \<noteq> 0"
  using preset_number_unat [of s sq] by force

lemma preset_seq:
  assumes "s < NUM_SOCKETS" "length (g_udp_send_seq u) = NUM_SOCKETS" "sq \<noteq> 0"
  shows "g_udp_send_seq (preset_udp s True sq rai u) ! s = preset_number s sq"
  using assms by (auto simp: preset_udp_def preset_number_def Let_def)

text \<open>
  A packet that is dropped because the network is out of service keeps the sequence number
  that was preset for it: when the network is back, the next packet of the socket is sent under
  that number even if it was sent without one, so its acknowledgement is reported for the
  packet that was lost.
\<close>

lemma dropped_packet_keeps_number:
  assumes s: "s < NUM_SOCKETS" "length (g_udp_send_seq u) = NUM_SOCKETS" "sq \<noteq> 0"
    and lost: "g_OOS_flag u = 1" "\<not> dropped_for_debug (off_debug u) (g_drop_up_dbg u) tick"
    and later: "accepted tick' (u\<lparr>g_OOS_flag := 0\<rparr>)" "packet_ok n' p' u" "chain_socket p' None = Some s"
  shows "\<exists>u1 v m. u1 = preset_udp s True sq rai u
    \<and> send_ip_packet_to_ps_net tick addr ok n p u1 = Inr (ERR_IF, u1)
    \<and> send_ip_packet_to_ps_net tick' addr' True n' p' (u1\<lparr>g_OOS_flag := 0\<rparr>) = Inr (ERR_OK, v)
    \<and> shm_ipdata v = shm_ipdata u @ [m] \<and> sequence m = preset_number s sq \<and> info_data m = chain_bytes p'"
proof -
  define u1 where "u1 = preset_udp s True sq rai u"
  have same: "off_debug u1 = off_debug u" "g_drop_up_dbg u1 = g_drop_up_dbg u" "g_OOS_flag u1 = g_OOS_flag u"
      "dsp_is_not_loaded u1 = dsp_is_not_loaded u" "shm_ipdata u1 = shm_ipdata u"
    by (simp_all add: u1_def preset_udp_def Let_def)
  have 1: "send_ip_packet_to_ps_net tick addr ok n p u1 = Inr (ERR_IF, u1)"
    using lost by (simp add: send_ip_packet_to_ps_net_def same)
  have own: "own_seq (Some s) (u1\<lparr>g_OOS_flag := 0\<rparr>) = preset_number s sq"
    using preset_seq [OF s, of rai] by (simp add: own_seq_def u1_def)
  have acc: "accepted tick' (u1\<lparr>g_OOS_flag := 0\<rparr>)" "packet_ok n' p' (u1\<lparr>g_OOS_flag := 0\<rparr>)"
    using later(1,2) by (simp_all add: accepted_def packet_ok_def same)
  have "\<exists>v m. send_ip_packet_to_ps_net tick' addr' True n' p' (u1\<lparr>g_OOS_flag := 0\<rparr>) = Inr (ERR_OK, v)
     \<and> shm_ipdata v = shm_ipdata u1 @ [m] \<and> sequence m = preset_number s sq \<and> info_data m = chain_bytes p'"
    using send_accepted [OF acc later(3) [symmetric] refl, of addr'] preset_number_nonzero [OF s(1), of sq]
    by (auto simp: own clear_preset_def)
  then show ?thesis using 1 same(5) unfolding u1_def by auto
qed

lemma dropped_packet_keeps_number_witness:
  "\<exists>v m. send_ip_packet_to_ps_net 1 0 True 2 [\<lparr>soc_id = 3, payload = [69, 7]\<rparr>]
       ((preset_udp 2 True 9 0 (demo_uplink\<lparr>g_OOS_flag := 1\<rparr>))\<lparr>g_OOS_flag := 0\<rparr>) = Inr (ERR_OK, v)
     \<and> shm_ipdata v = [m] \<and> sequence m = 0x0309"
proof -
  let ?u = "demo_uplink\<lparr>g_OOS_flag := 1\<rparr>"
  have "\<exists>u1 v m. u1 = preset_udp 2 True 9 0 ?u
    \<and> send_ip_packet_to_ps_net 1 0 True 2 [\<lparr>soc_id = 3, payload = [69, 8]\<rparr>] u1 = Inr (ERR_IF, u1)
    \<and> send_ip_packet_to_ps_net 1 0 True 2 [\<lparr>soc_id = 3, payload = [69, 7]\<rparr>] (u1\<lparr>g_OOS_flag := 0\<rparr>) = Inr (ERR_OK, v)
    \<and> shm_ipdata v = shm_ipdata ?u @ [m] \<and> sequence m = preset_number 2 9
    \<and> info_data m = chain_bytes [\<lparr>soc_id = 3, payload = [69, 7]\<rparr>]"
    by (rule dropped_packet_keeps_number)
       (simp_all add: demo_uplink_def NUM_SOCKETS_def accepted_def packet_ok_def dropped_for_debug_def chain_bytes_def)
  then show ?thesis by (auto simp: demo_uplink_def preset_number_def)
qed

section \<open>Running numbers meet the numbers of the sockets\<close>

lemma numbering_plain: "numbering own next (replicate n None) = map (\<lambda>i. next + of_nat i) [0..<n]"
  by (induction n arbitrary: "next") (simp_all add: map_upt_Suc ac_simps del: upt_Suc)

text \<open>
  The running number starts at 0xA000 and wraps: packet 24833 without a socket number has the
  number that socket 0 uses for its first message.
\<close>

lemma sequence_numbers_meet:
  "numbering own 0xA000 (replicate 0x6102 None) ! 0x6101 = preset_number 0 1"
  by (simp add: numbering_plain preset_number_def nth_map del: upt_rec_numeral)

end
