(* ===== verification/Ip4Addr.thy ===== *)
theory Ip4Addr
  imports Prelude
begin

text \<open>
  IPv4 addresses as text: \<open>ip4addr_aton\<close> and \<open>ip4addr_ntoa_r\<close> of \<open>core/ipv4/ip4_addr.c\<close> (lwIP), which
  the socket and cloud code uses under the names \<open>inet_aton\<close>, \<open>inet_pton\<close> and \<open>inet_ntoa_r\<close>.  A text is a list of bytes
  that ends with its zero; reading on behind the list is \<open>BadAccess\<close>.  An address is the word as
  loaded by the little-endian core: its first byte is the low one.
\<close>

section \<open>Characters\<close>

definition lwip_isdigit :: "u8 \<Rightarrow> bool" where
  "lwip_isdigit c \<longleftrightarrow> 48 \<le> c \<and> c \<le> 57"

definition lwip_isxdigit :: "u8 \<Rightarrow> bool" where
  "lwip_isxdigit c \<longleftrightarrow> lwip_isdigit c \<or> (97 \<le> c \<and> c \<le> 102) \<or> (65 \<le> c \<and> c \<le> 70)"

definition lwip_islower :: "u8 \<Rightarrow> bool" where
  "lwip_islower c \<longleftrightarrow> 97 \<le> c \<and> c \<le> 122"

definition lwip_isspace :: "u8 \<Rightarrow> bool" where
  "lwip_isspace c \<longleftrightarrow> c = 32 \<or> c = 12 \<or> c = 10 \<or> c = 13 \<or> c = 9 \<or> c = 11"

section \<open>ip4addr_aton\<close>

text \<open>The digits of one number, in base 8, 10 or 16.\<close>

fun collect_number :: "u32 \<Rightarrow> u32 \<Rightarrow> u8 list \<Rightarrow> (u32 \<times> u8 list) res" where
  "collect_number base val [] = Inl BadAccess"
| "collect_number base val (c # cp) =
     (if lwip_isdigit c then collect_number base (val * base + (ucast c - 48)) cp
      else if base = 16 \<and> lwip_isxdigit c
        then collect_number base (push_bit 4 val OR (ucast c + 10 - (if lwip_islower c then 97 else 65))) cp
      else Inr (val, c # cp))"

definition one_number :: "u8 list \<Rightarrow> (u32 \<times> u8 list) option res" where
  "one_number cp =
     (case cp of
        [] \<Rightarrow> Inl BadAccess
      | c # cp' \<Rightarrow>
          if \<not> lwip_isdigit c then Inr None
          else bind_res
            (if c = 48
             then case cp' of
                    [] \<Rightarrow> Inl BadAccess
                  | c' # cp'' \<Rightarrow> if c' = 120 \<or> c' = 88 then collect_number 16 0 cp'' else collect_number 8 0 (c' # cp'')
             else collect_number 10 0 (c # cp'))
            (\<lambda>r. Inr (Some r)))"

text \<open>The outer loop: the parts before the last number, that number and the rest of the text.\<close>

function aton_loop :: "u32 list \<Rightarrow> u8 list \<Rightarrow> (u32 list \<times> u32 \<times> u8 list) option res" where
  "aton_loop parts cp =
     bind_res (one_number cp) (\<lambda>r.
       case r of
         None \<Rightarrow> Inr None
       | Some (val, []) \<Rightarrow> Inl BadAccess
       | Some (val, c # cp) \<Rightarrow>
           if c = 46
           then (if 3 \<le> length parts then Inr None else aton_loop (parts @ [val]) cp)
           else Inr (Some (parts, val, c # cp)))"
  by auto
termination by (relation "measure (\<lambda>(parts, _). 4 - length parts)") auto

declare aton_loop.simps [simp del]

definition lwip_htonl :: "u32 \<Rightarrow> u32" where
  "lwip_htonl v = u32_of (ucast (drop_bit 24 v)) (ucast (drop_bit 16 v)) (ucast (drop_bit 8 v)) (ucast v)"

definition concoct :: "u32 list \<Rightarrow> u32 \<Rightarrow> u32 option" where
  "concoct parts val =
     (case parts of
        [] \<Rightarrow> Some val
      | [a] \<Rightarrow> if 0xffffff < val \<or> 0xff < a then None else Some (val OR push_bit 24 a)
      | [a, b] \<Rightarrow>
          if 0xffff < val \<or> 0xff < a \<or> 0xff < b then None
          else Some (val OR (push_bit 24 a OR push_bit 16 b))
      | [a, b, c] \<Rightarrow>
          if 0xff < val \<or> 0xff < a \<or> 0xff < b \<or> 0xff < c then None
          else Some (val OR (push_bit 24 a OR push_bit 16 b OR push_bit 8 c))
      | _ \<Rightarrow> None)"

definition ip4addr_aton :: "u8 list \<Rightarrow> u32 option res" where
  "ip4addr_aton cp =
     bind_res (aton_loop [] cp) (\<lambda>r.
       case r of
         None \<Rightarrow> Inr None
       | Some (parts, val, rest) \<Rightarrow>
           bind_res (case rest of [] \<Rightarrow> Inl BadAccess | c # _ \<Rightarrow> Inr c) (\<lambda>c.
             if c \<noteq> 0 \<and> \<not> lwip_isspace c then Inr None
             else Inr (map_option lwip_htonl (concoct parts val))))"

section \<open>ip4addr_ntoa_r\<close>

text \<open>The digits of a byte, last one first, as the array \<open>inv\<close> holds them.\<close>

function inv_digits :: "u8 \<Rightarrow> u8 list" where
  "inv_digits ap = (48 + ap mod 10) # (if ap div 10 = 0 then [] else inv_digits (ap div 10))"
  by auto
termination
proof (relation "measure unat")
  fix ap :: u8
  assume "ap div 10 \<noteq> 0"
  then have "unat (ap div 10) \<noteq> 0" by (simp add: unat_eq_zero)
  then show "(ap div 10, ap) \<in> measure unat" by (simp add: unat_div)
qed simp

declare inv_digits.simps [simp del]

text \<open>Appending characters while there is room.\<close>

definition put_all :: "nat \<Rightarrow> u8 list \<Rightarrow> u8 list \<Rightarrow> u8 list option" where
  "put_all buflen out cs = (if length out + length cs \<le> buflen then Some (out @ cs) else None)"

fun ntoa_loop :: "nat \<Rightarrow> u8 list \<Rightarrow> u8 list \<Rightarrow> u8 list option" where
  "ntoa_loop buflen out [] = Some out"
| "ntoa_loop buflen out (ap # aps) =
     Option.bind (put_all buflen out (rev (inv_digits ap))) (\<lambda>out.
     Option.bind (put_all buflen out [46]) (\<lambda>out. ntoa_loop buflen out aps))"

text \<open>The last dot becomes the terminator.\<close>

definition ip4addr_ntoa_r :: "u32 \<Rightarrow> nat \<Rightarrow> u8 list option" where
  "ip4addr_ntoa_r addr buflen =
     map_option (\<lambda>out. butlast out @ [0]) (ntoa_loop buflen [] (bytes_of_u32 addr))"

end
