(* ===== verification/Ip4AddrProps.thy ===== *)
theory Ip4AddrProps
  imports Ip4Addr
begin

text \<open>Printing an address and parsing it again.\<close>

section \<open>One byte\<close>

lemma div10: "n < 256 \<Longrightarrow> (of_nat n :: u8) div 10 = of_nat (n div 10)"
  by (simp add: word_unat_eq_iff unat_div unat_of_nat take_bit_eq_mod)

lemma mod10: "n < 256 \<Longrightarrow> (of_nat n :: u8) mod 10 = of_nat (n mod 10)"
  by (simp add: word_unat_eq_iff unat_mod unat_of_nat take_bit_eq_mod)

lemma inv_digits_nat:
  assumes "n < 256"
  shows "inv_digits (of_nat n) = of_nat (48 + n mod 10) # (if n < 10 then [] else inv_digits (of_nat (n div 10)))"
proof -
  have "(of_nat (n div 10) :: u8) = 0 \<longleftrightarrow> n < 10"
    using assms by (simp add: word_unat_eq_iff unat_of_nat take_bit_eq_mod) auto
  then show ?thesis
    by (subst inv_digits.simps) (simp add: div10 [OF assms] mod10 [OF assms])
qed

text \<open>The printed digits, first one first.\<close>

definition digits :: "nat \<Rightarrow> nat list" where
  "digits n = (if n < 10 then [n] else if n < 100 then [n div 10, n mod 10]
     else [n div 100, n div 10 mod 10, n mod 10])"

definition digit_char :: "nat \<Rightarrow> u8" where
  "digit_char d = of_nat (48 + d)"

lemma inv_digits_digits: "n < 256 \<Longrightarrow> rev (inv_digits (of_nat n)) = map digit_char (digits n)"
proof -
  assume n: "n < 256"
  consider "n < 10" | "10 \<le> n" "n < 100" | "100 \<le> n" by linarith
  then show ?thesis
    using n by cases (auto simp: inv_digits_nat digits_def digit_char_def div_mult2_eq [symmetric])
qed

lemma digit_char_facts:
  assumes "d < 10"
  shows "lwip_isdigit (digit_char d)" "(ucast (digit_char d) - 48 :: u32) = of_nat d"
    "digit_char d = 48 \<longleftrightarrow> d = 0" "digit_char d \<noteq> 120" "digit_char d \<noteq> 88"
proof -
  have "d \<in> {0, 1, 2, 3, 4, 5, 6, 7, 8, 9}" using assms by auto
  then show "lwip_isdigit (digit_char d)" "(ucast (digit_char d) - 48 :: u32) = of_nat d"
    "digit_char d = 48 \<longleftrightarrow> d = 0" "digit_char d \<noteq> 120" "digit_char d \<noteq> 88"
    by (auto simp: digit_char_def lwip_isdigit_def)
qed

lemma collect_digits:
  assumes "\<forall>d \<in> set ds. d < 10" "\<not> lwip_isdigit c" "base \<noteq> 16"
  shows "collect_number base val (map digit_char ds @ c # rest)
    = Inr (foldl (\<lambda>v d. v * base + of_nat d) val ds, c # rest)"
  using assms(1)
proof (induction ds arbitrary: val)
  case Nil
  then show ?case using assms(2,3) by simp
next
  case (Cons d ds)
  then show ?case using digit_char_facts [of d] by simp
qed

lemma digits_value:
  assumes "n < 256"
  shows "foldl (\<lambda>v d. v * 10 + of_nat d) (0 :: u32) (digits n) = of_nat n"
proof -
  have v: "foldl (\<lambda>v d. v * 10 + of_nat d) (of_nat v0 :: u32) ds = of_nat (foldl (\<lambda>v d. v * 10 + d) v0 ds)" for v0 ds
  proof (induction ds arbitrary: v0)
    case (Cons d ds)
    show ?case using Cons.IH [of "v0 * 10 + d"] by simp
  qed simp
  have "foldl (\<lambda>v d. v * 10 + d) 0 (digits n) = n"
  proof -
    have "n div 100 = n div 10 div 10" by (simp add: div_mult2_eq [symmetric])
    then show ?thesis
      using div_mult_mod_eq [of n 10] div_mult_mod_eq [of "n div 10" 10] by (simp add: digits_def)
  qed
  then show ?thesis using v [of 0 "digits n"] by simp
qed

lemma number_of_byte:
  assumes "n < 256" "\<not> lwip_isdigit c" "c \<noteq> 120" "c \<noteq> 88"
  shows "one_number (rev (inv_digits (of_nat n)) @ c # rest) = Inr (Some (of_nat n, c # rest))"
proof (cases "n = 0")
  case True
  then show ?thesis
    using assms digit_char_facts(1) [of 0] inv_digits_nat [of 0]
    by (simp add: digit_char_def one_number_def)
next
  case False
  have small: "\<forall>d \<in> set (digits n). d < 10" using assms(1) by (auto simp: digits_def)
  obtain d ds where d: "digits n = d # ds" "d \<noteq> 0" "d < 10"
  proof (cases "digits n")
    case (Cons d ds)
    have "d \<noteq> 0" using False Cons by (auto simp: digits_def split: if_splits)
    then show ?thesis using that [OF Cons] small Cons by simp
  qed (simp add: digits_def split: if_splits)
  have "one_number (map digit_char (digits n) @ c # rest)
      = bind_res (collect_number 10 0 (map digit_char (digits n) @ c # rest)) (\<lambda>r. Inr (Some r))"
    using digit_char_facts [OF d(3)] d(2) by (simp add: one_number_def d(1))
  also have "\<dots> = Inr (Some (of_nat n, c # rest))"
    using collect_digits [OF small assms(2), of 10] digits_value [OF assms(1)] by simp
  finally show ?thesis using inv_digits_digits [OF assms(1)] by simp
qed

section \<open>A whole address\<close>

lemma number_of_u8:
  assumes "\<not> lwip_isdigit c" "c \<noteq> 120" "c \<noteq> 88"
  shows "one_number (rev (inv_digits b) @ c # rest) = Inr (Some (ucast b, c # rest))"
proof -
  have "unat b < 256" using u8_le_255 [of b] by simp
  from number_of_byte [OF this assms] have "one_number (rev (inv_digits b) @ c # rest) = Inr (Some (of_nat (unat b), c # rest))"
    by simp
  also have "(of_nat (unat b) :: u32) = ucast b" by (rule of_nat_unat)
  finally show ?thesis .
qed

lemma inv_digits_length: "1 \<le> length (inv_digits b) \<and> length (inv_digits b) \<le> 3"
proof -
  have n: "unat b < 256" using u8_le_255 [of b] by simp
  have "length (rev (inv_digits b)) = length (digits (unat b))"
    using inv_digits_digits [OF n] by simp
  then show ?thesis by (simp add: digits_def)
qed

lemma ntoa_loop_fits:
  "length out + sum_list (map (\<lambda>b. length (inv_digits b) + 1) bs) \<le> buflen \<Longrightarrow>
     ntoa_loop buflen out bs = Some (out @ concat (map (\<lambda>b. rev (inv_digits b) @ [46]) bs))"
  by (induction bs arbitrary: out) (auto simp: put_all_def)

text \<open>The text of an address.\<close>

definition dotted :: "u32 \<Rightarrow> u8 list" where
  "dotted a = rev (inv_digits (ucast a)) @ 46 # rev (inv_digits (ucast (drop_bit 8 a)))
     @ 46 # rev (inv_digits (ucast (drop_bit 16 a))) @ 46 # rev (inv_digits (ucast (drop_bit 24 a))) @ [0]"

lemma ntoa_dotted:
  assumes "16 \<le> buflen"
  shows "ip4addr_ntoa_r a buflen = Some (dotted a)"
proof -
  have "sum_list (map (\<lambda>b. length (inv_digits b) + 1) (bytes_of_u32 a)) \<le> 16"
    using inv_digits_length [of "ucast a"] inv_digits_length [of "ucast (drop_bit 8 a)"]
      inv_digits_length [of "ucast (drop_bit 16 a)"] inv_digits_length [of "ucast (drop_bit 24 a)"]
    by (simp add: bytes_of_u32_def)
  then have "ntoa_loop buflen [] (bytes_of_u32 a) = Some (concat (map (\<lambda>b. rev (inv_digits b) @ [46]) (bytes_of_u32 a)))"
    using ntoa_loop_fits [of "[]" "bytes_of_u32 a" buflen] assms by simp
  then show ?thesis
    by (simp add: ip4addr_ntoa_r_def dotted_def bytes_of_u32_def butlast_append)
qed

lemma dot_facts: "\<not> lwip_isdigit 46" "\<not> lwip_isdigit 0"
  by (simp_all add: lwip_isdigit_def)

lemma loop_dotted:
  "aton_loop [] (dotted a) =
     Inr (Some ([ucast (ucast a :: u8), ucast (ucast (drop_bit 8 a) :: u8), ucast (ucast (drop_bit 16 a) :: u8)],
       ucast (ucast (drop_bit 24 a) :: u8), [0]))"
  unfolding dotted_def by (simp add: aton_loop.simps number_of_u8 dot_facts)

lemma byte_le: "ucast (b :: u8) \<le> (255 :: u32)"
  using u8_le_255 [of b] by (simp add: word_le_nat_alt unsigned_ucast_eq take_bit_eq_mod)

lemma joined_bytes:
  fixes a0 a1 a2 a3 :: u8
  defines "v \<equiv> (ucast a3 :: u32) OR (push_bit 24 (ucast a0) OR push_bit 16 (ucast a1) OR push_bit 8 (ucast a2))"
  shows "lwip_htonl v = u32_of a0 a1 a2 a3"
proof -
  have "ucast (drop_bit 24 v) = a0" "ucast (drop_bit 16 v) = a1" "ucast (drop_bit 8 v) = a2" "ucast v = a3"
    by (rule bit_word_eqI; auto simp: v_def bit_simps dest: bit_imp_le_length)+
  then show ?thesis by (simp add: lwip_htonl_def)
qed

lemma concoct_bytes:
  "map_option lwip_htonl (concoct [ucast (a0 :: u8), ucast (a1 :: u8), ucast (a2 :: u8)] (ucast (a3 :: u8))) =
     Some (u32_of a0 a1 a2 a3)"
  using byte_le by (simp add: concoct_def joined_bytes not_less)

text \<open>
  C19: Every IPv4 address survives being printed into a buffer of 16 bytes and parsed again, with
  the terminator inside the buffer.
\<close>

theorem ip4addr_roundtrip:
  "\<exists>cp. ip4addr_ntoa_r a 16 = Some cp \<and> length cp \<le> 16 \<and> ip4addr_aton cp = Inr (Some a)"
proof (intro exI conjI)
  show "ip4addr_ntoa_r a 16 = Some (dotted a)" by (simp add: ntoa_dotted)
  show "length (dotted a) \<le> 16"
    using inv_digits_length [of "ucast a"] inv_digits_length [of "ucast (drop_bit 8 a)"]
      inv_digits_length [of "ucast (drop_bit 16 a)"] inv_digits_length [of "ucast (drop_bit 24 a)"]
    by (simp add: dotted_def)
  show "ip4addr_aton (dotted a) = Inr (Some a)"
    by (simp add: ip4addr_aton_def loop_dotted concoct_bytes u32_of_bytes)
qed

end
