(* ===== verification/NetResume.thy ===== *)
theory NetResume
  imports Ftl Ip4Addr Netif
begin

text \<open>
  \<open>APPLIB/lwip/xy_adapter/src/net_app_resume.c\<close>: the sessions of the cloud clients saved in flash before deep
  sleep and resumed after it, and the downlink of \<open>ps_netif_api.c\<close>, whose packets resume them.  The clients
  themselves (\<open>save_udp_context_deepsleep\<close>, \<open>cdp_resume_check_info\<close>, \<open>cdp_resume_task\<close> and the like) are not
  in the source tree: what they save and answer are arguments, and that they are started is recorded.
  The mutex is recursive and held throughout, so it is not modelled.
\<close>

section \<open>The saved sessions\<close>

datatype net_app_type_t = SOCKET_TASK | ONENET_TASK | CDP_TASK

fun app_no :: "net_app_type_t \<Rightarrow> nat" where
  "app_no SOCKET_TASK = 0"
| "app_no ONENET_TASK = 2"
| "app_no CDP_TASK = 3"

definition NO_TASK :: int where "NO_TASK = -2"
definition UNKNOWN_IP :: int where "UNKNOWN_IP = -1"

definition IP_RECEIVE_ERROR :: int where "IP_RECEIVE_ERROR = -2"
definition IP_NO_CHANGED :: int where "IP_NO_CHANGED = -1"
definition IP_IS_CHANGED :: int where "IP_IS_CHANGED = 0"

definition LIFETIME_TIMEOUT :: int where "LIFETIME_TIMEOUT = -1"
definition REG_CONFIG_ERROR :: int where "REG_CONFIG_ERROR = -2"
definition STATE_ERROR :: int where "STATE_ERROR = -3"

definition RESUME_SUCCEED :: int where "RESUME_SUCCEED = 0"
definition RESUME_SWITCH_INACTIVE :: int where "RESUME_SWITCH_INACTIVE = 1"
definition RESUME_READ_FLASH_FAILED :: int where "RESUME_READ_FLASH_FAILED = 2"
definition RESUME_FLAG_ERROR :: int where "RESUME_FLAG_ERROR = 3"

lemmas resume_codes = NO_TASK_def UNKNOWN_IP_def IP_RECEIVE_ERROR_def IP_NO_CHANGED_def IP_IS_CHANGED_def
  LIFETIME_TIMEOUT_def REG_CONFIG_ERROR_def STATE_ERROR_def RESUME_SUCCEED_def RESUME_SWITCH_INACTIVE_def
  RESUME_READ_FLASH_FAILED_def RESUME_FLAG_ERROR_def

text \<open>
  \<open>app_deepsleep_infos_t\<close>: the two words, \<open>udp_context\<close> with two sockets of 6 bytes and a word, and the records
  of the two clients, whose offsets and total size depend on headers of the client libraries.
\<close>

definition UDP_CONTEXT_OFFSET :: nat where "UDP_CONTEXT_OFFSET = 8"
definition UDP_CONTEXT_LEN :: nat where "UDP_CONTEXT_LEN = 16"
definition UDP_CONTEXT_FD_LEN :: nat where "UDP_CONTEXT_FD_LEN = 6"

lemmas udp_context_defs = UDP_CONTEXT_OFFSET_def UDP_CONTEXT_LEN_def UDP_CONTEXT_FD_LEN_def

datatype resume_out = ResumeSocket nat | OnenetResumeTask | CdpResumeTask | ResumeCdpException

record resume =
  rs_sys :: sys
  save_cloud :: bool
  keep_cloud_alive :: bool
  g_app_recovery_type :: u32
  g_app_local_ip :: u32
  g_have_read_saved_info :: bool
  onenet_offset :: nat
  cdp_offset :: nat
  infos_size :: nat
  resume_log :: "resume_out list"

definition NET_NEED_RECOVERY :: "net_app_type_t \<Rightarrow> u32 \<Rightarrow> bool" where
  "NET_NEED_RECOVERY t w \<longleftrightarrow> w AND push_bit (app_no t) 1 = push_bit (app_no t) 1"

definition SET_NET_RECOVERY_FLAG :: "net_app_type_t \<Rightarrow> bool \<Rightarrow> u32 \<Rightarrow> u32" where
  "SET_NET_RECOVERY_FLAG t need_write w = (if need_write then w OR push_bit (app_no t) 1 else w)"

definition clear_recovery :: "net_app_type_t \<Rightarrow> resume \<Rightarrow> resume" where
  "clear_recovery t r = r\<lparr>g_app_recovery_type := g_app_recovery_type r AND NOT (push_bit (app_no t) 1)\<rparr>"

text \<open>\<open>xy_ftl_read\<close> into a buffer that keeps its content when nothing can be read.\<close>

definition read_into :: "flash_drv \<Rightarrow> nat \<Rightarrow> u8 list \<Rightarrow> resume \<Rightarrow> ((xy_ret_Status_t \<times> u8 list) \<times> resume) res" where
  "read_into drv addr buf r =
     bind_res (xy_ftl_read drv (rs_sys r) addr (length buf)) (\<lambda>((st, d), s).
       Inr ((st, case d of None \<Rightarrow> buf | Some d \<Rightarrow> d), r\<lparr>rs_sys := s\<rparr>))"

definition write_net :: "flash_drv \<Rightarrow> u8 list \<Rightarrow> resume \<Rightarrow> resume res" where
  "write_net drv d r =
     bind_res (xy_ftl_write drv (rs_sys r) NV_FLASH_NET_BASE 0 d) (\<lambda>(_, s). Inr (r\<lparr>rs_sys := s\<rparr>))"

definition is_exist_resume_cloud_data :: "flash_drv \<Rightarrow> resume \<Rightarrow> (bool \<times> resume) res" where
  "is_exist_resume_cloud_data drv r =
     (if \<not> save_cloud r then Inr (False, r)
      else bind_res (read_into drv NV_FLASH_NET_BASE (replicate 4 0) r) (\<lambda>((st, d), r).
        if st \<noteq> XY_OK then Inr (True, r) else Inr (get32 d 0 \<noteq> 0, r)))"

text \<open>A client's save function: whether it has to be written, and its record afterwards.\<close>

type_synonym saver = "u8 list \<Rightarrow> bool \<times> u8 list"

definition save_slice :: "nat \<Rightarrow> nat \<Rightarrow> saver \<Rightarrow> net_app_type_t \<Rightarrow> u8 list \<times> u32 \<Rightarrow> u8 list \<times> u32" where
  "save_slice off n f t = (\<lambda>(info, w).
     let (need, d) = f (take n (drop off info)) in (blit info off d, SET_NET_RECOVERY_FLAG t need w))"

definition save_net_app_infos :: "flash_drv \<Rightarrow> u32 option \<Rightarrow> saver \<Rightarrow> saver \<Rightarrow> saver \<Rightarrow> resume \<Rightarrow> resume res" where
  "save_net_app_infos drv ip sock_f onenet_f cdp_f r =
     (if \<not> save_cloud r then Inr r
      else
        let ip_addr = (case ip of None \<Rightarrow> 0 | Some a \<Rightarrow> a)
        in bind_res (read_into drv NV_FLASH_NET_BASE (replicate (infos_size r) 0) r) (\<lambda>((_, net_info), r).
           let (net_info, w) = save_slice UDP_CONTEXT_OFFSET UDP_CONTEXT_LEN sock_f SOCKET_TASK (net_info, g_app_recovery_type r);
               (net_info, w) = save_slice (onenet_offset r) (cdp_offset r - onenet_offset r) onenet_f ONENET_TASK (net_info, w);
               (net_info, w) = save_slice (cdp_offset r) (infos_size r - cdp_offset r) cdp_f CDP_TASK (net_info, w);
               r = r\<lparr>g_app_recovery_type := w\<rparr>
           in if w = 0 then Inr r else write_net drv (put32 (put32 net_info 0 w) 4 ip_addr) r))"

definition is_IP_changed :: "flash_drv \<Rightarrow> u32 option \<Rightarrow> resume \<Rightarrow> (int \<times> resume) res" where
  "is_IP_changed drv ip r =
     bind_res (read_into drv NV_FLASH_NET_BASE (replicate 8 0) r) (\<lambda>((st, infos), r).
       if st \<noteq> XY_OK then Inr (IP_RECEIVE_ERROR, r)
       else if ip = None \<or> get32 infos 4 = 0 then Inr (IP_RECEIVE_ERROR, r)
       else if Some (get32 infos 4) = ip then Inr (IP_NO_CHANGED, r)
       else Inr (IP_IS_CHANGED, r))"

section \<open>Matching a downlink packet\<close>

definition data_at :: "u8 list \<Rightarrow> nat \<Rightarrow> u8 res" where
  "data_at d i = (if i < length d then Inr (d ! i) else Inl BadAccess)"

definition word_at :: "u8 list \<Rightarrow> nat \<Rightarrow> u32 res" where
  "word_at d i = (if i + 4 \<le> length d then Inr (get32 d i) else Inl BadAccess)"

text \<open>A port of the packet: two bytes in network order.\<close>

definition port_at :: "u8 list \<Rightarrow> nat \<Rightarrow> u16 res" where
  "port_at d i = bind_res (data_at d i) (\<lambda>h. bind_res (data_at d (i + 1)) (\<lambda>l.
     Inr (push_bit 8 (ucast h) OR ucast l)))"

definition get16 :: "u8 list \<Rightarrow> nat \<Rightarrow> u16" where
  "get16 d i = ucast (d ! i) OR push_bit 8 (ucast (d ! (i + 1)))"

text \<open>
  The source port is loaded as a word.  What cannot be read from flash or parsed leaves a local
  variable without a value.
\<close>

definition match_net_app_by_touple ::
    "flash_drv \<Rightarrow> net_app_type_t \<Rightarrow> u8 list \<Rightarrow> nat \<Rightarrow> resume \<Rightarrow> (bool \<times> resume) res" where
  "match_net_app_by_touple drv t data offset r =
     bind_res (word_at data 12) (\<lambda>src_ip.
     bind_res (word_at data 20) (\<lambda>_.
     bind_res (port_at data 20) (\<lambda>src_port.
       if t = SOCKET_TASK
       then bind_res (xy_ftl_read drv (rs_sys r) (NV_FLASH_NET_BASE + offset) 2) (\<lambda>((_, d), s).
            case d of
              None \<Rightarrow> Inl BadAccess
            | Some d \<Rightarrow>
                bind_res (data_at data 9) (\<lambda>protocol.
                bind_res (port_at data 22) (\<lambda>local_port.
                  Inr (get16 d 0 = local_port \<and> protocol = 17, r\<lparr>rs_sys := s\<rparr>))))
       else bind_res (xy_ftl_read drv (rs_sys r) (NV_FLASH_NET_BASE + offset) 20) (\<lambda>((_, d), s).
            case d of
              None \<Rightarrow> Inl BadAccess
            | Some d \<Rightarrow>
                bind_res (ip4addr_aton (drop 4 d)) (\<lambda>remote_ip.
                  case remote_ip of
                    None \<Rightarrow> Inl BadAccess
                  | Some remote_ip \<Rightarrow>
                      Inr (remote_ip = src_ip \<and> get16 d 2 = src_port, r\<lparr>rs_sys := s\<rparr>))))))"

section \<open>Resuming\<close>

definition log_resume :: "resume_out \<Rightarrow> resume \<Rightarrow> resume" where
  "log_resume x r = r\<lparr>resume_log := resume_log r @ [x]\<rparr>"

text \<open>\<open>chk\<close>: what the client's check of its saved record answers.\<close>

definition finish_resume :: "flash_drv \<Rightarrow> net_app_type_t \<Rightarrow> int \<Rightarrow> resume \<Rightarrow> (int \<times> resume) res" where
  "finish_resume drv t chk r =
     (case t of
        SOCKET_TASK \<Rightarrow> Inr (RESUME_SUCCEED, clear_recovery t (log_resume (ResumeSocket UDP_CONTEXT_OFFSET) r))
      | ONENET_TASK \<Rightarrow>
          bind_res
            (if chk = 0 then Inr (log_resume OnenetResumeTask r)
             else if chk = LIFETIME_TIMEOUT \<or> chk = REG_CONFIG_ERROR
             then let r = clear_recovery t r in write_net drv (bytes_of_u32 (g_app_recovery_type r)) r
             else Inr r)
            (\<lambda>r. Inr (chk, clear_recovery t r))
      | CDP_TASK \<Rightarrow>
          bind_res
            (if chk = 0 then Inr (log_resume CdpResumeTask r)
             else if chk = LIFETIME_TIMEOUT \<and> keep_cloud_alive r then Inr (log_resume ResumeCdpException r)
             else if chk = REG_CONFIG_ERROR \<or> chk = LIFETIME_TIMEOUT \<and> \<not> keep_cloud_alive r
             then let r = clear_recovery t r in write_net drv (bytes_of_u32 (g_app_recovery_type r)) r
             else Inr r)
            (\<lambda>r. Inr (chk, clear_recovery t r)))"

text \<open>The first resumption after power-on reads the saved words, even if the read fails.\<close>

definition read_saved_info :: "flash_drv \<Rightarrow> resume \<Rightarrow> (bool \<times> resume) res" where
  "read_saved_info drv r =
     bind_res (read_into drv NV_FLASH_NET_BASE (replicate 8 0) (r\<lparr>g_have_read_saved_info := True\<rparr>)) (\<lambda>((st, infos), r).
       if st \<noteq> XY_OK then Inr (False, r)
       else Inr (True, r\<lparr>g_app_recovery_type := get32 infos 0, g_app_local_ip := get32 infos 4\<rparr>))"

definition resume_net_app :: "flash_drv \<Rightarrow> (net_app_type_t \<Rightarrow> int) \<Rightarrow> net_app_type_t \<Rightarrow> resume \<Rightarrow> (int \<times> resume) res" where
  "resume_net_app drv chk t r =
     (if \<not> save_cloud r then Inr (RESUME_SWITCH_INACTIVE, r)
      else
        bind_res (if \<not> g_have_read_saved_info r then read_saved_info drv r else Inr (True, r)) (\<lambda>(go, r).
          if \<not> go then Inr (RESUME_READ_FLASH_FAILED, r)
          else if \<not> NET_NEED_RECOVERY t (g_app_recovery_type r) then Inr (RESUME_FLAG_ERROR, r)
          else finish_resume drv t (chk t) r))"

text \<open>One client of the downlink: match, resume, and its code as result.\<close>

definition try_resume ::
    "flash_drv \<Rightarrow> (net_app_type_t \<Rightarrow> int) \<Rightarrow> net_app_type_t \<Rightarrow> (resume \<Rightarrow> (bool \<times> resume) res) \<Rightarrow> int \<times> resume \<Rightarrow> (int \<times> resume) res" where
  "try_resume drv chk t match = (\<lambda>(ret, r).
     if \<not> NET_NEED_RECOVERY t (g_app_recovery_type r) then Inr (ret, r)
     else bind_res (match r) (\<lambda>(hit, r).
       if hit
       then bind_res (resume_net_app drv chk t r) (\<lambda>(_, r). Inr (int (app_no t), clear_recovery t r))
       else Inr (ret, r)))"

definition match_sockets :: "flash_drv \<Rightarrow> u8 list \<Rightarrow> resume \<Rightarrow> (bool \<times> resume) res" where
  "match_sockets drv data r =
     bind_res (match_net_app_by_touple drv SOCKET_TASK data UDP_CONTEXT_OFFSET r) (\<lambda>(hit, r).
       if hit then Inr (True, r)
       else match_net_app_by_touple drv SOCKET_TASK data (UDP_CONTEXT_OFFSET + UDP_CONTEXT_FD_LEN) r)"

definition resume_matching ::
    "flash_drv \<Rightarrow> (net_app_type_t \<Rightarrow> int) \<Rightarrow> u8 list \<Rightarrow> resume \<Rightarrow> (int \<times> resume) res" where
  "resume_matching drv chk data r =
     bind_res (try_resume drv chk SOCKET_TASK (match_sockets drv data) (NO_TASK, r)) (\<lambda>(ret, r).
     bind_res (try_resume drv chk ONENET_TASK (match_net_app_by_touple drv ONENET_TASK data (onenet_offset r)) (ret, r)) (\<lambda>(ret, r).
     try_resume drv chk CDP_TASK (match_net_app_by_touple drv CDP_TASK data (cdp_offset r)) (ret, r)))"

definition load_saved_info :: "flash_drv \<Rightarrow> resume \<Rightarrow> resume res" where
  "load_saved_info drv r =
     bind_res (read_into drv NV_FLASH_NET_BASE (replicate 8 0) r) (\<lambda>((_, infos), r).
       Inr (r\<lparr>g_app_recovery_type := get32 infos 0, g_app_local_ip := get32 infos 4, g_have_read_saved_info := True\<rparr>))"

definition resume_net_app_by_dl_pkt ::
    "flash_drv \<Rightarrow> (net_app_type_t \<Rightarrow> int) \<Rightarrow> u8 list \<Rightarrow> resume \<Rightarrow> (int \<times> resume) res" where
  "resume_net_app_by_dl_pkt drv chk data r =
     (if \<not> save_cloud r then Inr (NO_TASK, r)
      else
        bind_res (if \<not> g_have_read_saved_info r then load_saved_info drv r else Inr r) (\<lambda>r.
          if g_app_recovery_type r = 0 then Inr (NO_TASK, r)
          else bind_res (data_at data 0) (\<lambda>b0.
            if drop_bit 4 (b0 AND 0xF0) \<noteq> 4 then Inr (UNKNOWN_IP, r)
            else bind_res (word_at data 16) (\<lambda>dst_ip.
              if dst_ip \<noteq> g_app_local_ip r then Inr (UNKNOWN_IP, r)
              else resume_matching drv chk data r))))"

end
