(* ===== verification/NetDown.thy ===== *)
theory NetDown
  imports NetData NetResume
begin

text \<open>
  The downlink of \<open>ps_netif_api.c\<close> (M3 core): a packet of the DSP core lies in a block that the code hands to
  exactly one consumer or frees.  \<open>live\<close> is the set of blocks the downlink owns; freeing or passing
  on a block that is not in it is a \<open>BadAccess\<close>.  What \<open>netif->input\<close> answers is an argument.
\<close>

datatype down_out = ToStack nat "u8 list" | ToPing "u8 list" | ToNonIp "u8 list" | FreedDown u32

record down =
  dn_net :: net
  dn_resume :: resume
  live :: "u32 set"
  dn_off_debug :: u8
  g_drop_down_dbg :: u8
  HAVE_FREE_LOCK :: bool
  g_nonip_func :: bool
  now_in_ping :: bool
  ping_packet_q :: bool
  g_double_trance :: bool
  g_double_trance_num :: nat
  dbg_drop_down_sum :: nat
  dn_logs :: "ip_log list"
  down_log :: "down_out list"

definition take_block :: "u32 \<Rightarrow> down \<Rightarrow> down res" where
  "take_block b d = (if b \<in> live d then Inr (d\<lparr>live := live d - {b}\<rparr>) else Inl BadAccess)"

definition emit :: "down_out \<Rightarrow> down \<Rightarrow> down" where
  "emit x d = d\<lparr>down_log := down_log d @ [x]\<rparr>"

definition xy_free_down :: "u32 \<Rightarrow> down \<Rightarrow> down res" where
  "xy_free_down b d = bind_res (take_block b d) (\<lambda>d. Inr (emit (FreedDown b) d))"

definition is_SRAM_addr :: "u32 \<Rightarrow> unit res" where
  "is_SRAM_addr addr = xy_assert (SRAM_BASE \<le> unat addr \<and> unat addr \<le> SRAM_BASE + SRAM_LENGTH)"

definition print_down :: "u8 list \<Rightarrow> down \<Rightarrow> down res" where
  "print_down data d =
     bind_res (ip_packet_information_print data (of_nat (length data))) (\<lambda>l. Inr (d\<lparr>dn_logs := dn_logs d @ l\<rparr>))"

text \<open>The reference pbuf keeps the block; if the stack refuses it, \<open>pbuf_free\<close> frees the block.\<close>

definition send_ps_packet_to_tcpip ::
    "flash_drv \<Rightarrow> (net_app_type_t \<Rightarrow> int) \<Rightarrow> bool \<Rightarrow> u32 \<Rightarrow> u8 list \<Rightarrow> u8 \<Rightarrow> down \<Rightarrow> (xy_ret_Status_t \<times> down) res" where
  "send_ps_packet_to_tcpip drv chk accepts b data c d =
     bind_res
       (case find_netif_by_cid (dn_net d) c of
          None \<Rightarrow> Inr None
        | Some i \<Rightarrow>
            (case ps_eth (ps_if (dn_net d) ! i) of
               None \<Rightarrow> Inl BadAccess
             | Some a \<Rightarrow> bind_res (get_netif (dn_net d) a) (\<lambda>n. Inr (if netif_is_link_up n then Some a else None))))
       (\<lambda>eth.
         case eth of
           None \<Rightarrow> bind_res (xy_free_down b d) (\<lambda>d. Inr (XY_ERR, d))
         | Some a \<Rightarrow>
             bind_res (if b \<in> live d then resume_net_app_by_dl_pkt drv chk data (dn_resume d) else Inl BadAccess) (\<lambda>(_, r).
             let d = d\<lparr>dn_resume := r\<rparr>
             in if accepts
                then bind_res (take_block b d) (\<lambda>d. Inr (XY_OK, emit (ToStack a data) d))
                else bind_res (xy_free_down b d) (\<lambda>d. Inr (XY_ERR, d))))"

fun send_times ::
    "flash_drv \<Rightarrow> (net_app_type_t \<Rightarrow> int) \<Rightarrow> bool \<Rightarrow> u32 \<Rightarrow> u8 list \<Rightarrow> u8 \<Rightarrow> nat \<Rightarrow> down \<Rightarrow> down res" where
  "send_times drv chk accepts b data c 0 d = Inr d"
| "send_times drv chk accepts b data c (Suc n) d =
     bind_res (send_ps_packet_to_tcpip drv chk accepts b data c d) (\<lambda>(_, d). send_times drv chk accepts b data c n d)"

definition send_packet_to_ping :: "u32 \<Rightarrow> u8 list \<Rightarrow> down \<Rightarrow> down res" where
  "send_packet_to_ping b data d =
     (if ping_packet_q d then bind_res (take_block b d) (\<lambda>d. Inr (emit (ToPing data) d)) else xy_free_down b d)"

definition send_packet_to_user ::
    "flash_drv \<Rightarrow> (net_app_type_t \<Rightarrow> int) \<Rightarrow> bool \<Rightarrow> nat \<Rightarrow> u32 \<Rightarrow> u8 list \<Rightarrow> u8 \<Rightarrow> down \<Rightarrow> down res" where
  "send_packet_to_user drv chk accepts tick b data c d =
     bind_res (is_SRAM_addr b) (\<lambda>_.
     bind_res (if HAVE_FREE_LOCK d then print_down data d else Inr d) (\<lambda>d.
       if dropped_for_debug (dn_off_debug d) (g_drop_down_dbg d) tick
       then xy_free_down b (d\<lparr>dbg_drop_down_sum := dbg_drop_down_sum d + 1\<rparr>)
       else
         bind_res (if dn_off_debug d = 0 then print_down data d else Inr d) (\<lambda>d.
           if g_nonip_func d then xy_free_down b (emit (ToNonIp data) d)
           else if now_in_ping d then send_packet_to_ping b data d
           else send_times drv chk accepts b data c (if g_double_trance d then g_double_trance_num d else 1) d)))"

end
