(* ===== verification/NetResumeProps.thy ===== *)
theory NetResumeProps
  imports NetResume NetDown FtlProps NetifProps
begin

text \<open>
  What deep sleep and resumption guarantee for the sessions of the cloud clients, and what becomes of
  the blocks of downlink packets.
\<close>

section \<open>The recovery word\<close>

lemma app_bit: "NET_NEED_RECOVERY t w \<longleftrightarrow> bit w (app_no t)"
proof
  have n: "app_no t < 32" by (cases t) simp_all
  assume "NET_NEED_RECOVERY t w"
  then have "bit (w AND push_bit (app_no t) 1) (app_no t) = bit (push_bit (app_no t) (1 :: u32)) (app_no t)"
    by (simp only: NET_NEED_RECOVERY_def)
  then show "bit w (app_no t)" using n by (simp add: bit_simps)
next
  assume "bit w (app_no t)"
  then show "NET_NEED_RECOVERY t w"
    unfolding NET_NEED_RECOVERY_def by (intro bit_word_eqI) (auto simp: bit_simps)
qed

lemma app_no_inj: "app_no t = app_no u \<longleftrightarrow> t = u"
  by (cases t; cases u) simp_all

lemma need_clear: "NET_NEED_RECOVERY t (w AND NOT (2 ^ app_no u)) \<longleftrightarrow> NET_NEED_RECOVERY t w \<and> t \<noteq> u"
proof -
  have "app_no t < 32" by (cases t) simp_all
  then show ?thesis by (auto simp: app_bit bit_simps app_no_inj)
qed

lemma need_set: "NET_NEED_RECOVERY t (SET_NET_RECOVERY_FLAG u n w) \<longleftrightarrow> NET_NEED_RECOVERY t w \<or> (t = u \<and> n)"
proof -
  have "app_no t < 32" by (cases t) simp_all
  then show ?thesis by (auto simp: app_bit bit_simps app_no_inj SET_NET_RECOVERY_FLAG_def)
qed

section \<open>At most one start\<close>

fun app_of :: "resume_out \<Rightarrow> net_app_type_t" where
  "app_of (ResumeSocket off) = SOCKET_TASK"
| "app_of OnenetResumeTask = ONENET_TASK"
| "app_of CdpResumeTask = CDP_TASK"
| "app_of ResumeCdpException = CDP_TASK"

definition starts :: "net_app_type_t \<Rightarrow> resume \<Rightarrow> nat" where
  "starts t r = length (filter (\<lambda>x. app_of x = t) (resume_log r))"

definition once_inv :: "resume \<Rightarrow> bool" where
  "once_inv r \<longleftrightarrow>
     (\<forall>t. starts t r \<le> 1 \<and> (\<not> g_have_read_saved_info r \<or> NET_NEED_RECOVERY t (g_app_recovery_type r) \<longrightarrow> starts t r = 0))"

text \<open>Flash accesses change the flash only.\<close>

definition flash_step :: "resume \<Rightarrow> resume \<Rightarrow> bool" where
  "flash_step r r' \<longleftrightarrow> (\<exists>s. r' = r\<lparr>rs_sys := s\<rparr>)"

lemma flash_stepI [simp]: "flash_step r (r\<lparr>rs_sys := s\<rparr>)"
  by (auto simp: flash_step_def)

lemma flash_step_facts:
  assumes "flash_step r r'"
  shows "once_inv r' = once_inv r" "g_have_read_saved_info r' = g_have_read_saved_info r"
    "g_app_recovery_type r' = g_app_recovery_type r"
  using assms by (auto simp: flash_step_def once_inv_def starts_def)

lemma read_into_frame: "read_into drv a buf r = Inr (x, r') \<Longrightarrow> flash_step r r'"
  by (auto simp: read_into_def bind_res_eq_Inr)

lemma write_net_frame: "write_net drv d r = Inr r' \<Longrightarrow> flash_step r r'"
  by (auto simp: write_net_def bind_res_eq_Inr)

lemma match_frame: "match_net_app_by_touple drv t data off r = Inr (x, r') \<Longrightarrow> flash_step r r'"
  by (auto simp: match_net_app_by_touple_def bind_res_eq_Inr split: if_splits option.splits)

lemma once_clear: "once_inv r \<Longrightarrow> once_inv (clear_recovery t r)"
  by (auto simp: once_inv_def clear_recovery_def starts_def need_clear)

lemma once_log:
  "once_inv r \<Longrightarrow> g_have_read_saved_info r \<Longrightarrow> NET_NEED_RECOVERY (app_of x) (g_app_recovery_type r) \<Longrightarrow>
     once_inv (clear_recovery (app_of x) (log_resume x r))"
  by (auto simp: once_inv_def clear_recovery_def starts_def need_clear log_resume_def)

lemma have_read_simps [simp]:
  "g_have_read_saved_info (clear_recovery t r) = g_have_read_saved_info r"
  "g_have_read_saved_info (log_resume x r) = g_have_read_saved_info r"
  "g_app_recovery_type (log_resume x r) = g_app_recovery_type r"
  by (simp_all add: clear_recovery_def log_resume_def)

lemma finish_once:
  assumes "once_inv r" "g_have_read_saved_info r" "NET_NEED_RECOVERY t (g_app_recovery_type r)"
    "finish_resume drv t chk r = Inr (c, r')"
  shows "once_inv r' \<and> g_have_read_saved_info r'"
proof -
  have wr: "once_inv (clear_recovery t q) \<and> g_have_read_saved_info q"
    if "write_net drv d (clear_recovery t r) = Inr q" for d q
    using flash_step_facts [OF write_net_frame [OF that]] assms(1,2) by (simp add: once_clear)
  show ?thesis
  proof (cases t)
    case SOCKET_TASK
    then show ?thesis using assms once_log [OF assms(1,2), of "ResumeSocket UDP_CONTEXT_OFFSET"]
      by (auto simp: finish_resume_def)
  next
    case ONENET_TASK
    then show ?thesis
      using assms once_log [OF assms(1,2), of OnenetResumeTask] once_clear [OF assms(1), of t] wr
      by (auto simp: finish_resume_def Let_def bind_res_eq_Inr split: if_splits)
  next
    case CDP_TASK
    then show ?thesis
      using assms once_log [OF assms(1,2), of CdpResumeTask] once_log [OF assms(1,2), of ResumeCdpException]
        once_clear [OF assms(1), of t] wr
      by (auto simp: finish_resume_def Let_def bind_res_eq_Inr split: if_splits)
  qed
qed

text \<open>Loading the recovery word, whatever it is, before anything was started.\<close>

lemma load_once:
  assumes "once_inv r" "\<not> g_have_read_saved_info r"
  shows "once_inv (r\<lparr>g_have_read_saved_info := True, rs_sys := s, g_app_recovery_type := w, g_app_local_ip := ip\<rparr>)"
    "once_inv (r\<lparr>g_have_read_saved_info := True, rs_sys := s\<rparr>)"
    "once_inv (r\<lparr>rs_sys := s, g_app_recovery_type := w, g_app_local_ip := ip, g_have_read_saved_info := True\<rparr>)"
  using assms by (simp_all add: once_inv_def starts_def)

lemma read_saved_once:
  "once_inv r \<Longrightarrow> \<not> g_have_read_saved_info r \<Longrightarrow> read_saved_info drv r = Inr (go, q) \<Longrightarrow>
     once_inv q \<and> g_have_read_saved_info q"
  by (auto simp: read_saved_info_def read_into_def bind_res_eq_Inr load_once split: if_splits)

lemma load_saved_once:
  "once_inv r \<Longrightarrow> \<not> g_have_read_saved_info r \<Longrightarrow> load_saved_info drv r = Inr q \<Longrightarrow> once_inv q"
  by (auto simp: load_saved_info_def read_into_def bind_res_eq_Inr load_once)

lemma resume_net_app_once:
  assumes "once_inv r" "resume_net_app drv chk t r = Inr (c, r')"
  shows "once_inv r'"
proof (cases "save_cloud r")
  case True
  then obtain go q where q: "(if \<not> g_have_read_saved_info r then read_saved_info drv r else Inr (True, r)) = Inr (go, q)"
    and run: "(if \<not> go then Inr (RESUME_READ_FLASH_FAILED, q)
      else if \<not> NET_NEED_RECOVERY t (g_app_recovery_type q) then Inr (RESUME_FLAG_ERROR, q)
      else finish_resume drv t (chk t) q) = Inr (c, r')"
    using assms(2) by (auto simp: resume_net_app_def bind_res_eq_Inr)
  have "once_inv q \<and> g_have_read_saved_info q"
    using q assms(1) read_saved_once [OF assms(1), of drv go q] by (auto split: if_splits)
  then show ?thesis using run finish_once [of q t drv "chk t" c r'] by (auto split: if_splits)
next
  case False
  then show ?thesis using assms by (simp add: resume_net_app_def)
qed

lemma try_resume_once:
  assumes "once_inv r" "\<And>x q. match r = Inr (x, q) \<Longrightarrow> flash_step r q"
    "try_resume drv chk t match (ret, r) = Inr (ret', r')"
  shows "once_inv r'"
proof (cases "NET_NEED_RECOVERY t (g_app_recovery_type r)")
  case True
  then obtain hit q where m: "match r = Inr (hit, q)"
    and q: "(if hit then bind_res (resume_net_app drv chk t q) (\<lambda>(_, r). Inr (int (app_no t), clear_recovery t r))
             else Inr (ret, q)) = Inr (ret', r')"
    using assms(3) by (auto simp: try_resume_def bind_res_eq_Inr)
  have "once_inv q" using flash_step_facts(1) [OF assms(2) [OF m]] assms(1) by simp
  then show ?thesis
    using q resume_net_app_once [of q drv chk t] by (auto simp: bind_res_eq_Inr once_clear split: if_splits)
next
  case False
  then show ?thesis using assms(1,3) by (simp add: try_resume_def)
qed

lemma flash_step_trans: "flash_step r q \<Longrightarrow> flash_step q p \<Longrightarrow> flash_step r p"
  by (auto simp: flash_step_def)

lemma match_sockets_frame: "match_sockets drv data r = Inr (x, r') \<Longrightarrow> flash_step r r'"
  by (auto simp: match_sockets_def bind_res_eq_Inr split: if_splits dest!: match_frame intro: flash_step_trans)

lemma resume_matching_once:
  assumes q: "once_inv q" and run: "resume_matching drv chk data q = Inr (c', q')"
  shows "once_inv q'"
proof -
  obtain ret1 q1 where 1: "try_resume drv chk SOCKET_TASK (match_sockets drv data) (NO_TASK, q) = Inr (ret1, q1)"
    and run1: "bind_res (try_resume drv chk ONENET_TASK (match_net_app_by_touple drv ONENET_TASK data (onenet_offset q1)) (ret1, q1)) (\<lambda>(ret, r).
      try_resume drv chk CDP_TASK (match_net_app_by_touple drv CDP_TASK data (cdp_offset r)) (ret, r)) = Inr (c', q')"
    using run by (auto simp: resume_matching_def bind_res_eq_Inr)
  obtain ret2 q2 where 2: "try_resume drv chk ONENET_TASK (match_net_app_by_touple drv ONENET_TASK data (onenet_offset q1)) (ret1, q1) = Inr (ret2, q2)"
    and 3: "try_resume drv chk CDP_TASK (match_net_app_by_touple drv CDP_TASK data (cdp_offset q2)) (ret2, q2) = Inr (c', q')"
    using run1 by (auto simp: bind_res_eq_Inr)
  have "once_inv q1" using try_resume_once [OF q _ 1] match_sockets_frame by blast
  then have "once_inv q2" using try_resume_once [OF _ _ 2] match_frame by blast
  then show ?thesis using try_resume_once [OF _ _ 3] match_frame by blast
qed

lemma dl_pkt_once:
  assumes "once_inv r" "resume_net_app_by_dl_pkt drv chk data r = Inr (c, r')"
  shows "once_inv r'"
proof (cases "save_cloud r")
  case True
  then obtain q where q: "(if \<not> g_have_read_saved_info r then load_saved_info drv r else Inr r) = Inr q"
    and run: "r' = q \<or> resume_matching drv chk data q = Inr (c, r')"
    using assms(2) by (auto simp: resume_net_app_by_dl_pkt_def bind_res_eq_Inr split: if_splits)
  have "once_inv q" using q assms(1) load_saved_once by (auto split: if_splits)
  then show ?thesis using run resume_matching_once by blast
next
  case False
  then show ?thesis using assms by (simp add: resume_net_app_by_dl_pkt_def)
qed

datatype resume_op =
    ResumeApp net_app_type_t "net_app_type_t \<Rightarrow> int"
  | DlPkt "u8 list" "net_app_type_t \<Rightarrow> int"

fun resume_step :: "flash_drv \<Rightarrow> resume_op \<Rightarrow> resume \<Rightarrow> resume res" where
  "resume_step drv (ResumeApp t chk) r = bind_res (resume_net_app drv chk t r) (\<lambda>(_, r). Inr r)"
| "resume_step drv (DlPkt data chk) r = bind_res (resume_net_app_by_dl_pkt drv chk data r) (\<lambda>(_, r). Inr r)"

lemma resume_step_once: "once_inv r \<Longrightarrow> resume_step drv op r = Inr r' \<Longrightarrow> once_inv r'"
  by (cases op) (auto simp: bind_res_eq_Inr dest: resume_net_app_once dl_pkt_once)

lemma resume_run_once: "once_inv r \<Longrightarrow> run_steps (resume_step drv) ops r = Inr r' \<Longrightarrow> once_inv r'"
  by (induction ops arbitrary: r) (auto simp: bind_res_eq_Inr dest: resume_step_once)

section \<open>Deep sleep and back\<close>

text \<open>The layout of the saved record, and clients that keep the size of their part.\<close>

definition layout_ok :: "resume \<Rightarrow> bool" where
  "layout_ok r \<longleftrightarrow>
     UDP_CONTEXT_OFFSET + UDP_CONTEXT_LEN \<le> onenet_offset r \<and> onenet_offset r \<le> cdp_offset r
     \<and> cdp_offset r \<le> infos_size r \<and> infos_size r \<le> XY_FTL_AVAILABLE_SIZE"

definition keeps_size :: "saver \<Rightarrow> bool" where
  "keeps_size f \<longleftrightarrow> (\<forall>d. length (snd (f d)) = length d)"

text \<open>The recovery word after the clients were asked: old bits and those that have something to save.\<close>

definition saved_word :: "resume \<Rightarrow> u8 list \<Rightarrow> saver \<Rightarrow> saver \<Rightarrow> saver \<Rightarrow> u32" where
  "saved_word r info sock_f onenet_f cdp_f =
     snd (save_slice (cdp_offset r) (infos_size r - cdp_offset r) cdp_f CDP_TASK
       (save_slice (onenet_offset r) (cdp_offset r - onenet_offset r) onenet_f ONENET_TASK
         (save_slice UDP_CONTEXT_OFFSET UDP_CONTEXT_LEN sock_f SOCKET_TASK (info, g_app_recovery_type r))))"

lemma save_slice_length:
  assumes "keeps_size f" "off + n \<le> length info" "save_slice off n f t (info, w) = (info', w')"
  shows "length info' = length info"
proof -
  obtain need d where d: "f (take n (drop off info)) = (need, d)" by fastforce
  then have "length d = length (take n (drop off info))"
    using assms(1) unfolding keeps_size_def by (metis snd_conv)
  then show ?thesis using assms(2,3) d by (auto simp: save_slice_def)
qed

lemma header_words:
  "8 \<le> length d \<Longrightarrow> get32 (take 8 (put32 (put32 d 0 w) 4 ip)) 0 = w \<and> get32 (take 8 (put32 (put32 d 0 w) 4 ip)) 4 = ip"
  by (simp add: get32_take get32_put32_other)

context nor_flash
begin

lemma read_into_sound:
  assumes "ftl_ready (rs_sys r) NV_FLASH_NET_BASE" "ftl_sound (rs_sys r) NV_FLASH_NET_BASE"
    "off + length buf \<le> XY_FTL_AVAILABLE_SIZE"
  shows "read_into drv (NV_FLASH_NET_BASE + off) buf r =
    Inr (case ftl_content (rs_sys r) NV_FLASH_NET_BASE of
           None \<Rightarrow> ((XY_ERR, buf), r)
         | Some d \<Rightarrow> ((XY_OK, take (length buf) (drop off d)), r))"
  using read_sound [OF assms] by (simp add: read_into_def split: option.split)

lemma save_works:
  assumes rdy: "ftl_ready (rs_sys r) NV_FLASH_NET_BASE" and snd: "ftl_sound (rs_sys r) NV_FLASH_NET_BASE"
    and bat: "battery_ok (rs_sys r)" and num: "ftl_last_num (rs_sys r) NV_FLASH_NET_BASE \<noteq> 0xFFFFFFFE"
    and on: "save_cloud r" and lay: "layout_ok r" and savers: "keeps_size sock_f" "keeps_size onenet_f" "keeps_size cdp_f"
  shows "\<exists>info. length info = infos_size r \<and>
    (let w = saved_word r info sock_f onenet_f cdp_f in w \<noteq> 0 \<longrightarrow>
      (\<exists>m d. save_net_app_infos drv ip sock_f onenet_f cdp_f r
           = Inr (r\<lparr>g_app_recovery_type := w, rs_sys := (rs_sys r)\<lparr>flash := m\<rparr>\<rparr>)
         \<and> ftl_sound ((rs_sys r)\<lparr>flash := m\<rparr>) NV_FLASH_NET_BASE
         \<and> ftl_content ((rs_sys r)\<lparr>flash := m\<rparr>) NV_FLASH_NET_BASE = Some d \<and> 8 \<le> length d
         \<and> get32 (take 8 d) 0 = w \<and> get32 (take 8 d) 4 = (case ip of None \<Rightarrow> 0 | Some a \<Rightarrow> a)))"
proof -
  have size: "24 \<le> onenet_offset r" "onenet_offset r \<le> cdp_offset r" "cdp_offset r \<le> infos_size r"
      "infos_size r \<le> XY_FTL_AVAILABLE_SIZE"
    using lay by (simp_all add: layout_ok_def udp_context_defs)
  obtain st info where rd: "read_into drv NV_FLASH_NET_BASE (replicate (infos_size r) 0) r = Inr ((st, info), r)"
      "length info = infos_size r"
  proof -
    have "0 + length (replicate (infos_size r) (0 :: u8)) \<le> XY_FTL_AVAILABLE_SIZE" using size(4) by simp
    from read_into_sound [OF rdy snd this] show ?thesis
      using that size(4) by (cases "ftl_content (rs_sys r) NV_FLASH_NET_BASE")
        (auto simp: ftl_content_def page_data_def split: option.splits if_splits)
  qed
  obtain info1 w1 where s1: "save_slice UDP_CONTEXT_OFFSET UDP_CONTEXT_LEN sock_f SOCKET_TASK (info, g_app_recovery_type r) = (info1, w1)"
    by fastforce
  obtain info2 w2 where s2: "save_slice (onenet_offset r) (cdp_offset r - onenet_offset r) onenet_f ONENET_TASK (info1, w1) = (info2, w2)"
    by fastforce
  obtain info3 w3 where s3: "save_slice (cdp_offset r) (infos_size r - cdp_offset r) cdp_f CDP_TASK (info2, w2) = (info3, w3)"
    by fastforce
  have l1: "length info1 = infos_size r"
    using save_slice_length [OF savers(1) _ s1] rd(2) size by (simp add: udp_context_defs)
  have l2: "length info2 = infos_size r"
    using save_slice_length [OF savers(2) _ s2] l1 size by simp
  have l3: "length info3 = infos_size r"
    using save_slice_length [OF savers(3) _ s3] l2 size by simp
  have w: "saved_word r info sock_f onenet_f cdp_f = w3"
    by (simp add: saved_word_def s1 s2 s3)
  let ?ip = "case ip of None \<Rightarrow> 0 | Some a \<Rightarrow> a"
  let ?d = "put32 (put32 info3 0 w3) 4 ?ip"
  have ld: "length ?d = infos_size r" using l3 size by simp
  have "\<exists>m d. save_net_app_infos drv ip sock_f onenet_f cdp_f r
           = Inr (r\<lparr>g_app_recovery_type := w3, rs_sys := (rs_sys r)\<lparr>flash := m\<rparr>\<rparr>)
         \<and> ftl_sound ((rs_sys r)\<lparr>flash := m\<rparr>) NV_FLASH_NET_BASE
         \<and> ftl_content ((rs_sys r)\<lparr>flash := m\<rparr>) NV_FLASH_NET_BASE = Some d \<and> 8 \<le> length d
         \<and> get32 (take 8 d) 0 = w3 \<and> get32 (take 8 d) 4 = ?ip" if "w3 \<noteq> 0"
  proof -
    have fits: "0 + length ?d \<le> XY_FTL_AVAILABLE_SIZE" using ld size by simp
    obtain m where m: "xy_ftl_write drv (rs_sys r) NV_FLASH_NET_BASE (int 0) ?d = Inr (XY_OK, (rs_sys r)\<lparr>flash := m\<rparr>)"
        "ftl_sound ((rs_sys r)\<lparr>flash := m\<rparr>) NV_FLASH_NET_BASE"
        "ftl_content ((rs_sys r)\<lparr>flash := m\<rparr>) NV_FLASH_NET_BASE = Some (blit (ftl_base_data (rs_sys r) NV_FLASH_NET_BASE) 0 ?d)"
      using write_sound [OF rdy snd bat fits num] by blast
    have t: "take 8 (blit (ftl_base_data (rs_sys r) NV_FLASH_NET_BASE) 0 ?d) = take 8 ?d"
      using ld size by (simp add: blit_def)
    have "save_net_app_infos drv ip sock_f onenet_f cdp_f r
           = Inr (r\<lparr>g_app_recovery_type := w3, rs_sys := (rs_sys r)\<lparr>flash := m\<rparr>\<rparr>)"
      using on rd(1) m(1) that
      by (simp add: save_net_app_infos_def s1 s2 s3 write_net_def Let_def)
    moreover have "get32 (take 8 ?d) 0 = w3 \<and> get32 (take 8 ?d) 4 = ?ip"
      by (rule header_words) (use l3 size in simp)
    moreover have "8 \<le> length (blit (ftl_base_data (rs_sys r) NV_FLASH_NET_BASE) 0 ?d)"
      using ld size by (simp add: blit_def)
    ultimately show ?thesis
      using m(2,3) t by (intro exI [of _ m] exI [of _ "blit (ftl_base_data (rs_sys r) NV_FLASH_NET_BASE) 0 ?d"]) simp
  qed
  then show ?thesis using rd(2) w by (intro exI [of _ info]) (simp add: Let_def)
qed

end

definition power_on :: "resume \<Rightarrow> resume" where
  "power_on r = r\<lparr>g_app_recovery_type := 0, g_app_local_ip := 0xFFFF, g_have_read_saved_info := False, resume_log := []\<rparr>"

fun start_of :: "net_app_type_t \<Rightarrow> resume_out" where
  "start_of SOCKET_TASK = ResumeSocket UDP_CONTEXT_OFFSET"
| "start_of ONENET_TASK = OnenetResumeTask"
| "start_of CDP_TASK = CdpResumeTask"

fun wants :: "bool \<Rightarrow> bool \<Rightarrow> bool \<Rightarrow> net_app_type_t \<Rightarrow> bool" where
  "wants ns no nc SOCKET_TASK = ns"
| "wants ns no nc ONENET_TASK = no"
| "wants ns no nc CDP_TASK = nc"

lemma saved_word_flags:
  assumes "\<forall>d. fst (sock_f d) = ns" "\<forall>d. fst (onenet_f d) = no" "\<forall>d. fst (cdp_f d) = nc"
  shows "NET_NEED_RECOVERY t (saved_word r info sock_f onenet_f cdp_f)
    \<longleftrightarrow> NET_NEED_RECOVERY t (g_app_recovery_type r) \<or> wants ns no nc t"
proof -
  have "save_slice off n f u (i, w) = (blit i off (snd (f (take n (drop off i)))), SET_NET_RECOVERY_FLAG u (fst (f (take n (drop off i)))) w)"
    for off n f u i w
    by (simp add: save_slice_def split: prod.split)
  then show ?thesis using assms by (cases t) (auto simp: saved_word_def need_set)
qed

lemma need_nonzero: "NET_NEED_RECOVERY t w \<Longrightarrow> w \<noteq> 0"
  by (auto simp: app_bit)

context nor_flash
begin

lemma resume_after_power_on:
  assumes "ftl_ready (rs_sys r) NV_FLASH_NET_BASE" "ftl_sound (rs_sys r) NV_FLASH_NET_BASE" "save_cloud r"
    "ftl_content (rs_sys r) NV_FLASH_NET_BASE = Some d" "8 \<le> length d" "get32 (take 8 d) 0 = w"
  shows "\<exists>q. resume_net_app drv (\<lambda>_. 0) t (power_on r)
      = Inr (if NET_NEED_RECOVERY t w then RESUME_SUCCEED else RESUME_FLAG_ERROR, q)
    \<and> resume_log q = (if NET_NEED_RECOVERY t w then [start_of t] else [])"
proof -
  let ?r = "(power_on r)\<lparr>g_have_read_saved_info := True\<rparr>"
  have "read_into drv (NV_FLASH_NET_BASE + 0) (replicate 8 0) ?r = Inr ((XY_OK, take 8 d), ?r)"
    by (subst read_into_sound) (use assms in \<open>simp_all add: power_on_def eftl_defs\<close>)
  then have "read_saved_info drv (power_on r) = Inr (True, ?r\<lparr>g_app_recovery_type := w, g_app_local_ip := get32 (take 8 d) 4\<rparr>)"
    using assms(6) by (simp add: read_saved_info_def)
  then show ?thesis
    using assms(3)
    by (cases t) (simp_all add: resume_net_app_def power_on_def finish_resume_def log_resume_def clear_recovery_def
        RESUME_SUCCEED_def)
qed

lemma ip_after_power_on:
  assumes "ftl_ready (rs_sys r) NV_FLASH_NET_BASE" "ftl_sound (rs_sys r) NV_FLASH_NET_BASE"
    "ftl_content (rs_sys r) NV_FLASH_NET_BASE = Some d" "8 \<le> length d" "get32 (take 8 d) 4 = a" "a \<noteq> 0"
  shows "is_IP_changed drv (Some b) (power_on r) = Inr (if b = a then IP_NO_CHANGED else IP_IS_CHANGED, power_on r)"
proof -
  have "read_into drv (NV_FLASH_NET_BASE + 0) (replicate 8 0) (power_on r) = Inr ((XY_OK, take 8 d), power_on r)"
    by (subst read_into_sound) (use assms in \<open>simp_all add: power_on_def eftl_defs\<close>)
  then show ?thesis using assms(5,6) by (auto simp: is_IP_changed_def)
qed

end

section \<open>Properties of the sessions\<close>

text \<open>
  C20: Between two deep sleeps every cloud client is started at most once, by whatever calls of
  \<open>resume_net_app\<close> and downlink packets in any order, whatever the flash holds and whatever the clients' checks
  answer.
\<close>

theorem sessions_start_at_most_once:
  assumes "resume_log r = []" "run_steps (resume_step drv) ops r = Inr r'"
  shows "starts t r' \<le> 1"
proof -
  have "once_inv r" using assms(1) by (simp add: once_inv_def starts_def)
  then have "once_inv r'" using resume_run_once assms(2) by blast
  then show ?thesis by (simp add: once_inv_def)
qed

definition boot_resume :: "sys \<Rightarrow> resume" where
  "boot_resume s = \<lparr>rs_sys = s, save_cloud = True, keep_cloud_alive = False, g_app_recovery_type = 0, g_app_local_ip = 0xFFFF,
     g_have_read_saved_info = False, onenet_offset = 24, cdp_offset = 400, infos_size = 1200, resume_log = []\<rparr>"

lemma sessions_start_at_most_once_witness:
  "\<exists>r'. run_steps (resume_step nor_drv) [ResumeApp SOCKET_TASK (\<lambda>_. 0), ResumeApp SOCKET_TASK (\<lambda>_. 0)]
       ((boot_resume (booted factory_fresh))\<lparr>g_have_read_saved_info := True, g_app_recovery_type := 1\<rparr>) = Inr r'
     \<and> resume_log r' = [ResumeSocket 8] \<and> starts SOCKET_TASK r' \<le> 1"
proof -
  let ?r = "(boot_resume (booted factory_fresh))\<lparr>g_have_read_saved_info := True, g_app_recovery_type := 1\<rparr>"
  have run: "run_steps (resume_step nor_drv) [ResumeApp SOCKET_TASK (\<lambda>_. 0), ResumeApp SOCKET_TASK (\<lambda>_. 0)] ?r
      = Inr (?r\<lparr>g_app_recovery_type := 0, resume_log := [ResumeSocket 8]\<rparr>)"
    by (simp add: boot_resume_def resume_net_app_def NET_NEED_RECOVERY_def finish_resume_def clear_recovery_def
        log_resume_def udp_context_defs)
  have "resume_log ?r = []" by (simp add: boot_resume_def)
  from sessions_start_at_most_once [OF this run, of SOCKET_TASK] run show ?thesis by simp
qed

text \<open>
  C21: What is saved before deep sleep is resumed after it: after the next power-on \<open>resume_net_app\<close> starts a
  client exactly if it had something to save or was still waiting in RAM to be resumed, and
  \<open>is_IP_changed\<close> compares the new address with the one at the time of saving.
\<close>

theorem saved_sessions_are_resumed:
  assumes flash: "nor_flash drv"
    and rdy: "ftl_ready (rs_sys r) NV_FLASH_NET_BASE" "ftl_sound (rs_sys r) NV_FLASH_NET_BASE" "battery_ok (rs_sys r)"
      "ftl_last_num (rs_sys r) NV_FLASH_NET_BASE \<noteq> 0xFFFFFFFE"
    and on: "save_cloud r" and lay: "layout_ok r"
    and savers: "keeps_size sock_f" "keeps_size onenet_f" "keeps_size cdp_f"
    and needs: "\<forall>d. fst (sock_f d) = ns" "\<forall>d. fst (onenet_f d) = no" "\<forall>d. fst (cdp_f d) = nc" "ns \<or> no \<or> nc"
  shows "\<exists>r1. save_net_app_infos drv (Some ip) sock_f onenet_f cdp_f r = Inr r1
    \<and> (\<forall>t. \<exists>q. resume_net_app drv (\<lambda>_. 0) t (power_on r1)
          = Inr (if wants ns no nc t \<or> NET_NEED_RECOVERY t (g_app_recovery_type r) then RESUME_SUCCEED else RESUME_FLAG_ERROR, q)
        \<and> resume_log q = (if wants ns no nc t \<or> NET_NEED_RECOVERY t (g_app_recovery_type r) then [start_of t] else []))
    \<and> (ip \<noteq> 0 \<longrightarrow> (\<forall>b. is_IP_changed drv (Some b) (power_on r1) =
          Inr (if b = ip then IP_NO_CHANGED else IP_IS_CHANGED, power_on r1)))"
proof -
  obtain info where info: "let w = saved_word r info sock_f onenet_f cdp_f in w \<noteq> 0 \<longrightarrow>
      (\<exists>m d. save_net_app_infos drv (Some ip) sock_f onenet_f cdp_f r
           = Inr (r\<lparr>g_app_recovery_type := w, rs_sys := (rs_sys r)\<lparr>flash := m\<rparr>\<rparr>)
         \<and> ftl_sound ((rs_sys r)\<lparr>flash := m\<rparr>) NV_FLASH_NET_BASE
         \<and> ftl_content ((rs_sys r)\<lparr>flash := m\<rparr>) NV_FLASH_NET_BASE = Some d \<and> 8 \<le> length d
         \<and> get32 (take 8 d) 0 = w \<and> get32 (take 8 d) 4 = ip)"
    using nor_flash.save_works [OF flash rdy(1-4) on lay savers, of "Some ip"] by (auto simp: Let_def)
  define w where "w = saved_word r info sock_f onenet_f cdp_f"
  have need: "NET_NEED_RECOVERY t w \<longleftrightarrow> wants ns no nc t \<or> NET_NEED_RECOVERY t (g_app_recovery_type r)" for t
    using saved_word_flags [OF needs(1-3)] by (auto simp: w_def)
  have "w \<noteq> 0"
    using needs(4) need_nonzero need [of SOCKET_TASK] need [of ONENET_TASK] need [of CDP_TASK] by auto
  then obtain m d where md: "save_net_app_infos drv (Some ip) sock_f onenet_f cdp_f r
        = Inr (r\<lparr>g_app_recovery_type := w, rs_sys := (rs_sys r)\<lparr>flash := m\<rparr>\<rparr>)" (is "_ = Inr ?r1")
      "ftl_sound ((rs_sys r)\<lparr>flash := m\<rparr>) NV_FLASH_NET_BASE"
      "ftl_content ((rs_sys r)\<lparr>flash := m\<rparr>) NV_FLASH_NET_BASE = Some d" "8 \<le> length d"
      "get32 (take 8 d) 0 = w" "get32 (take 8 d) 4 = ip"
    using info by (auto simp: w_def [symmetric])
  have r1: "ftl_ready (rs_sys ?r1) NV_FLASH_NET_BASE" "ftl_sound (rs_sys ?r1) NV_FLASH_NET_BASE" "save_cloud ?r1"
      "ftl_content (rs_sys ?r1) NV_FLASH_NET_BASE = Some d"
    using rdy(1) md(2,3) on by simp_all
  have res: "\<exists>q. resume_net_app drv (\<lambda>_. 0) t (power_on ?r1)
        = Inr (if NET_NEED_RECOVERY t w then RESUME_SUCCEED else RESUME_FLAG_ERROR, q)
      \<and> resume_log q = (if NET_NEED_RECOVERY t w then [start_of t] else [])" for t
    by (rule nor_flash.resume_after_power_on [OF flash r1 md(4,5)])
  have ip: "is_IP_changed drv (Some b) (power_on ?r1) = Inr (if b = ip then IP_NO_CHANGED else IP_IS_CHANGED, power_on ?r1)"
    if "ip \<noteq> 0" for b
    by (rule nor_flash.ip_after_power_on [OF flash r1(1,2,4) md(4,6) that])
  show ?thesis
    using md(1) res ip unfolding need by blast
qed

lemma saved_sessions_are_resumed_witness:
  "\<exists>r1 q. save_net_app_infos nor_drv (Some 0x0A00000A) (\<lambda>d. (True, d)) (\<lambda>d. (False, d)) (\<lambda>d. (False, d))
       (boot_resume (booted factory_fresh)) = Inr r1
     \<and> resume_net_app nor_drv (\<lambda>_. 0) SOCKET_TASK (power_on r1) = Inr (RESUME_SUCCEED, q)
     \<and> resume_log q = [ResumeSocket 8]"
proof -
  let ?r = "boot_resume (booted factory_fresh)"
  have h: "ftl_ready (rs_sys ?r) NV_FLASH_NET_BASE" "ftl_sound (rs_sys ?r) NV_FLASH_NET_BASE" "battery_ok (rs_sys ?r)"
      "ftl_last_num (rs_sys ?r) NV_FLASH_NET_BASE \<noteq> 0xFFFFFFFE" "save_cloud ?r" "layout_ok ?r"
    using booted_ready(1) fresh_sound
    by (simp_all add: boot_resume_def ftl_last_num_def layout_ok_def udp_context_defs eftl_defs)
       (simp_all add: memmap_defs)
  have k: "keeps_size (\<lambda>d. (b, d))" for b by (simp add: keeps_size_def)
  have n: "\<forall>d :: u8 list. fst (True, d) = True" "\<forall>d :: u8 list. fst (False, d) = False" "True \<or> False \<or> False"
    by simp_all
  from saved_sessions_are_resumed [where ip = "0x0A00000A", OF nor_is_flash h k k k n(1,2,2,3)]
  obtain r1 where "save_net_app_infos nor_drv (Some 0x0A00000A) (\<lambda>d. (True, d)) (\<lambda>d. (False, d)) (\<lambda>d. (False, d)) ?r = Inr r1"
    and "\<exists>q. resume_net_app nor_drv (\<lambda>_. 0) SOCKET_TASK (power_on r1) = Inr (RESUME_SUCCEED, q) \<and> resume_log q = [start_of SOCKET_TASK]"
    by (elim exE conjE) (rule that, assumption, drule spec [of _ SOCKET_TASK], simp)
  then show ?thesis by (auto simp: udp_context_defs)
qed

text \<open>
  The recovery word in RAM is written, not the one in flash: a session still stored but not yet
  looked at since power-on is forgotten when another client saves.
\<close>

lemma save_forgets_unread_sessions:
  assumes flash: "nor_flash drv"
    and rdy: "ftl_ready (rs_sys r) NV_FLASH_NET_BASE" "ftl_sound (rs_sys r) NV_FLASH_NET_BASE" "battery_ok (rs_sys r)"
      "ftl_last_num (rs_sys r) NV_FLASH_NET_BASE \<noteq> 0xFFFFFFFE"
    and on: "save_cloud r" and lay: "layout_ok r" and unread: "g_app_recovery_type r = 0"
  shows "\<exists>r1 q. save_net_app_infos drv ip (\<lambda>d. (True, d)) (\<lambda>d. (False, d)) (\<lambda>d. (False, d)) r = Inr r1
    \<and> resume_net_app drv (\<lambda>_. 0) CDP_TASK (power_on r1) = Inr (RESUME_FLAG_ERROR, q)"
proof -
  have k: "keeps_size (\<lambda>d. (b, d))" for b by (simp add: keeps_size_def)
  obtain info where info: "let w = saved_word r info (\<lambda>d. (True, d)) (\<lambda>d. (False, d)) (\<lambda>d. (False, d)) in w \<noteq> 0 \<longrightarrow>
      (\<exists>m d. save_net_app_infos drv ip (\<lambda>d. (True, d)) (\<lambda>d. (False, d)) (\<lambda>d. (False, d)) r
           = Inr (r\<lparr>g_app_recovery_type := w, rs_sys := (rs_sys r)\<lparr>flash := m\<rparr>\<rparr>)
         \<and> ftl_sound ((rs_sys r)\<lparr>flash := m\<rparr>) NV_FLASH_NET_BASE
         \<and> ftl_content ((rs_sys r)\<lparr>flash := m\<rparr>) NV_FLASH_NET_BASE = Some d \<and> 8 \<le> length d
         \<and> get32 (take 8 d) 0 = w)"
    using nor_flash.save_works [where ip = ip, OF flash rdy(1-4) on lay k [of True] k [of False] k [of False]] by (auto simp: Let_def)
  define w where "w = saved_word r info (\<lambda>d. (True, d)) (\<lambda>d. (False, d)) (\<lambda>d. (False, d))"
  have need: "NET_NEED_RECOVERY t w \<longleftrightarrow> t = SOCKET_TASK" for t
    using saved_word_flags [of "\<lambda>d. (True, d)" True "\<lambda>d. (False, d)" False "\<lambda>d. (False, d)" False t r info] unread
    by (cases t) (simp_all add: w_def app_bit)
  then have "w \<noteq> 0" using need_nonzero by blast
  then obtain m d where md: "save_net_app_infos drv ip (\<lambda>d. (True, d)) (\<lambda>d. (False, d)) (\<lambda>d. (False, d)) r
        = Inr (r\<lparr>g_app_recovery_type := w, rs_sys := (rs_sys r)\<lparr>flash := m\<rparr>\<rparr>)" (is "_ = Inr ?r1")
      "ftl_sound ((rs_sys r)\<lparr>flash := m\<rparr>) NV_FLASH_NET_BASE"
      "ftl_content ((rs_sys r)\<lparr>flash := m\<rparr>) NV_FLASH_NET_BASE = Some d" "8 \<le> length d" "get32 (take 8 d) 0 = w"
    using info by (auto simp: w_def [symmetric])
  have r1: "ftl_ready (rs_sys ?r1) NV_FLASH_NET_BASE" "ftl_sound (rs_sys ?r1) NV_FLASH_NET_BASE" "save_cloud ?r1"
      "ftl_content (rs_sys ?r1) NV_FLASH_NET_BASE = Some d"
    using rdy(1) md(2,3) on by simp_all
  from nor_flash.resume_after_power_on [OF flash r1 md(4,5), of CDP_TASK] md(1) need
  show ?thesis by auto
qed

end
