(* ===== verification/NetDownProps.thy ===== *)
theory NetDownProps
  imports NetDown NetifProps NetDataProps NetResumeProps
begin









text \<open>
  Context number 0 is also the number of an empty entry: while the first entry is empty, a packet for
  number 0 follows the null pointer of that entry.
\<close>

lemma empty_entry_dereferenced:
  assumes "net_inv (dn_net d)" "ps_eth (ps_if (dn_net d) ! 0) = None"
  shows "send_ps_packet_to_tcpip drv chk acc b data 0 d = Inl BadAccess"
    "ps_netif_deactivate 0 IPV4_TYPE (dn_net d) = Inl BadAccess"
proof -
  obtain e0 e1 where e: "ps_if (dn_net d) = [e0, e1]" "entry_ok (netifs (dn_net d)) e0"
    using assms(1) by (auto simp: net_inv_def)
  then have "cid_is 0 e0" using assms(2) by (simp add: entry_ok_def cid_is_def)
  then have "find_netif_by_cid (dn_net d) 0 = Some 0" using e by (simp add: find_netif_by_cid_def)
  then show "send_ps_packet_to_tcpip drv chk acc b data 0 d = Inl BadAccess"
    "ps_netif_deactivate 0 IPV4_TYPE (dn_net d) = Inl BadAccess"
    using assms(2) \<open>cid_is 0 e0\<close> e
    by (simp_all add: send_ps_packet_to_tcpip_def ps_netif_deactivate_def netif_remove_def del_one_netif_def)
qed

text \<open>The debug option that repeats a packet passes the same block on twice.\<close>

lemma repeated_packet_reuses_block:
  assumes "net_inv (dn_net d)" "valid_cid c" "b \<in> live d" "contexts (dn_net d) c = None"
  shows "send_times drv chk acc b data c 2 d = Inl BadAccess"
proof -
  have "find_netif_by_cid (dn_net d) c = None" using find_None [OF assms(1,2)] assms(4) by simp
  then show ?thesis using assms(3)
    by (simp add: numeral_2_eq_2 send_ps_packet_to_tcpip_def xy_free_down_def take_block_def emit_def)
qed



end
