(* ===== verification/SoftSample.thy ===== *)
theory SoftSample
  imports Prelude
begin

text \<open>
  \<open>SYSLIB/at_uart/src/dirty_data_processing.c\<close>: while the chip is still waking up from standby it cannot use
  its serial port, so a timer interrupt samples the receive line eight times per bit and looks for the
  third character of an AT command.  The line is a list of levels, one per timer interrupt; when the
  list ends the interrupt never comes again and waiting for it is \<open>NonReturn\<close>.  BLE is compiled out.
\<close>

section \<open>State\<close>

text \<open>\<open>soft_sample_t\<close>, in the order of its members: the bit-band writes rely on it.\<close>

record soft_sample_t =
  special_id :: u8
  bit_num_cnt :: u8
  sample_flag :: u16
  wakeup_rea :: u8
  wakeup_sta :: u8
  fail_rea :: "u8 list"
  rcv_dat :: u32
  sample_cnt :: u16
  start_cnt :: u16
  data_cnt :: u8
  backup_special_id :: u8
  backup_sys_div :: u8
  reserved_byte :: u8
  backup_csp_mode :: u32
  enter_cnt :: "u16 list"
  success_cnt :: "u16 list"

definition SAMPLE_START :: nat where "SAMPLE_START = 0"
definition SAMPLE_END :: nat where "SAMPLE_END = 1"
definition SAMPLE_LAST_LEVEL :: nat where "SAMPLE_LAST_LEVEL = 2"
definition SAMPLE_REASON :: nat where "SAMPLE_REASON = 3"
definition SAMPLE_GIVE_SEM :: nat where "SAMPLE_GIVE_SEM = 4"
definition SAMPLE_WAKEUP :: nat where "SAMPLE_WAKEUP = 5"
definition SAMPLE_GPI_FAIL :: nat where "SAMPLE_GPI_FAIL = 6"
definition SAMPLE_UTC_SUC :: nat where "SAMPLE_UTC_SUC = 7"
definition SAMPLE_FIRST_ENTER :: nat where "SAMPLE_FIRST_ENTER = 8"

lemmas sample_flag_bits = SAMPLE_START_def SAMPLE_END_def SAMPLE_LAST_LEVEL_def SAMPLE_REASON_def
  SAMPLE_GIVE_SEM_def SAMPLE_WAKEUP_def SAMPLE_GPI_FAIL_def SAMPLE_UTC_SUC_def SAMPLE_FIRST_ENTER_def

definition SAMPLE_SUCCESS :: u8 where "SAMPLE_SUCCESS = 1"
definition SAMPLE_FAIL_ALL_IDLE :: u8 where "SAMPLE_FAIL_ALL_IDLE = 2"
definition SAMPLE_FAIL_WITH_DATA :: u8 where "SAMPLE_FAIL_WITH_DATA = 3"
definition WAKEUP_FROM_GPI0 :: u8 where "WAKEUP_FROM_GPI0 = 1"
definition WAKEUP_FROM_UTC :: u8 where "WAKEUP_FROM_UTC = 2"
definition WAKEUP_FROM_OTHERS :: u8 where "WAKEUP_FROM_OTHERS = 3"

lemmas sample_codes = SAMPLE_SUCCESS_def SAMPLE_FAIL_ALL_IDLE_def SAMPLE_FAIL_WITH_DATA_def
  WAKEUP_FROM_GPI0_def WAKEUP_FROM_UTC_def WAKEUP_FROM_OTHERS_def

definition ONE_BIT_SAMPLE_NUM :: nat where "ONE_BIT_SAMPLE_NUM = 8"
definition CSP_DATA_BITS :: nat where "CSP_DATA_BITS = 10"
definition MAX_SAMPLE_NUM :: nat where "MAX_SAMPLE_NUM = 3 * CSP_DATA_BITS * ONE_BIT_SAMPLE_NUM"

lemmas sample_bounds = ONE_BIT_SAMPLE_NUM_def CSP_DATA_BITS_def MAX_SAMPLE_NUM_def

text \<open>The registers the code saves and sets; \<open>0xA011000C\<close> is the clock divider.\<close>

datatype vector = Vector u32 | SoftSampleTimerHandler

record int_regs =
  primask :: bool
  nvic_enable :: u32
  systick_ctrl :: u32
  systick_load :: u32
  vector15 :: vector

record soft =
  gpi_utc :: soft_sample_t
  ints :: int_regs
  clk_div :: u8
  csp_mode1 :: u32
  at_uart_sem :: nat
  third_chars :: "u8 list"
  xtal_only :: bool
  xtal_freq :: u32
  hclk :: u32
  current_baudrate :: u32

definition upd_sample :: "(soft_sample_t \<Rightarrow> soft_sample_t) \<Rightarrow> soft \<Rightarrow> soft" where
  "upd_sample f s = s\<lparr>gpi_utc := f (gpi_utc s)\<rparr>"

section \<open>Bit-band access\<close>

definition put_bit :: "nat \<Rightarrow> bool \<Rightarrow> 'a::len word \<Rightarrow> 'a word" where
  "put_bit i v w = (if v then set_bit i w else unset_bit i w)"

definition flag :: "nat \<Rightarrow> soft_sample_t \<Rightarrow> bool" where
  "flag i g = bit (sample_flag g) i"

definition set_flag :: "nat \<Rightarrow> bool \<Rightarrow> soft_sample_t \<Rightarrow> soft_sample_t" where
  "set_flag i v g = g\<lparr>sample_flag := put_bit i v (sample_flag g)\<rparr>"

text \<open>
  \<open>MEM_BIT_ADDR (&gpi_utc.rcv_dat, i)\<close>: a number of 32 or more reaches the members behind \<open>rcv_dat\<close>; the
  256 bits cover the structure to its end.
\<close>

definition read_rcv_bit :: "nat \<Rightarrow> soft_sample_t \<Rightarrow> bool" where
  "read_rcv_bit i g =
     (if i < 32 then bit (rcv_dat g) i
      else if i < 48 then bit (sample_cnt g) (i - 32)
      else if i < 64 then bit (start_cnt g) (i - 48)
      else if i < 72 then bit (data_cnt g) (i - 64)
      else if i < 80 then bit (backup_special_id g) (i - 72)
      else if i < 88 then bit (backup_sys_div g) (i - 80)
      else if i < 96 then bit (reserved_byte g) (i - 88)
      else if i < 128 then bit (backup_csp_mode g) (i - 96)
      else if i < 192 then bit (enter_cnt g ! ((i - 128) div 16)) (i mod 16)
      else bit (success_cnt g ! ((i - 192) div 16)) (i mod 16))"

definition write_rcv_bit :: "nat \<Rightarrow> bool \<Rightarrow> soft_sample_t \<Rightarrow> soft_sample_t" where
  "write_rcv_bit i v g =
     (if i < 32 then g\<lparr>rcv_dat := put_bit i v (rcv_dat g)\<rparr>
      else if i < 48 then g\<lparr>sample_cnt := put_bit (i - 32) v (sample_cnt g)\<rparr>
      else if i < 64 then g\<lparr>start_cnt := put_bit (i - 48) v (start_cnt g)\<rparr>
      else if i < 72 then g\<lparr>data_cnt := put_bit (i - 64) v (data_cnt g)\<rparr>
      else if i < 80 then g\<lparr>backup_special_id := put_bit (i - 72) v (backup_special_id g)\<rparr>
      else if i < 88 then g\<lparr>backup_sys_div := put_bit (i - 80) v (backup_sys_div g)\<rparr>
      else if i < 96 then g\<lparr>reserved_byte := put_bit (i - 88) v (reserved_byte g)\<rparr>
      else if i < 128 then g\<lparr>backup_csp_mode := put_bit (i - 96) v (backup_csp_mode g)\<rparr>
      else if i < 192
        then g\<lparr>enter_cnt := (enter_cnt g)[(i - 128) div 16 := put_bit (i mod 16) v (enter_cnt g ! ((i - 128) div 16))]\<rparr>
      else g\<lparr>success_cnt := (success_cnt g)[(i - 192) div 16 := put_bit (i mod 16) v (success_cnt g ! ((i - 192) div 16))]\<rparr>)"

section \<open>soft_sample_timer_handler\<close>

definition sample_failed :: "u8 \<Rightarrow> soft_sample_t \<Rightarrow> soft_sample_t" where
  "sample_failed reason g =
     (set_flag SAMPLE_END True g)\<lparr>fail_rea := (fail_rea g)[of_bool (flag SAMPLE_REASON g) := reason]\<rparr>"

definition time_limits :: "soft_sample_t \<Rightarrow> soft_sample_t" where
  "time_limits g =
     (let g = (if CSP_DATA_BITS * ONE_BIT_SAMPLE_NUM < unat (sample_cnt g) \<and> start_cnt g = 0
               then sample_failed SAMPLE_FAIL_ALL_IDLE g else g)
      in if MAX_SAMPLE_NUM < unat (start_cnt g) then sample_failed SAMPLE_FAIL_WITH_DATA g else g)"

definition start_sampling :: "bool \<Rightarrow> soft_sample_t \<Rightarrow> soft_sample_t" where
  "start_sampling rxd_level g =
     (if rxd_level \<and> \<not> flag SAMPLE_START g then (set_flag SAMPLE_START True g)\<lparr>rcv_dat := 1, bit_num_cnt := 1\<rparr> else g)"

definition track_level :: "bool \<Rightarrow> soft_sample_t \<Rightarrow> soft_sample_t" where
  "track_level rxd_level g =
     (if start_cnt g \<noteq> 0 \<or> \<not> rxd_level
      then
        let g = g\<lparr>start_cnt := start_cnt g + 1\<rparr>;
            g = (if rxd_level \<noteq> flag SAMPLE_LAST_LEVEL g then g\<lparr>data_cnt := 0\<rparr> else g);
            g = set_flag SAMPLE_LAST_LEVEL rxd_level g
        in g\<lparr>data_cnt := data_cnt g + 1\<rparr>
      else g)"

fun match_third :: "u8 \<Rightarrow> u8 list \<Rightarrow> nat \<Rightarrow> u8 \<Rightarrow> u8" where
  "match_third c [] i current = current"
| "match_third c (x # xs) i current = (if c = x then of_nat (i + 1) else match_third c xs (i + 1) 0)"

definition check_char :: "u8 list \<Rightarrow> soft_sample_t \<Rightarrow> soft_sample_t" where
  "check_char chars g =
     (let n = unat (bit_num_cnt g)
      in if read_rcv_bit (n - 10) g \<and> \<not> read_rcv_bit (n - 9) g
         then g\<lparr>special_id := match_third (ucast (drop_bit (n - 8) (rcv_dat g))) chars 0 (special_id g)\<rparr>
         else g)"

definition count_one :: "u8 \<Rightarrow> u16 list \<Rightarrow> u16 list res" where
  "count_one reason cnt =
     (if unat reason < length cnt then Inr (cnt[unat reason := cnt ! unat reason + 1]) else Inl BadAccess)"

text \<open>Waiting for the stop bit, inside the interrupt; then the serial port takes over.\<close>

definition char_found :: "bool \<Rightarrow> bool list \<Rightarrow> soft \<Rightarrow> (bool list \<times> soft) res" where
  "char_found rxd_level later s =
     (let rest = (if rxd_level then later else dropWhile Not later)
      in if \<not> rxd_level \<and> rest = [] then Inl NonReturn
         else
           let g = set_flag SAMPLE_END True (gpi_utc s)
           in bind_res (count_one (wakeup_rea g) (success_cnt g)) (\<lambda>cnt.
              let g = g\<lparr>success_cnt := cnt\<rparr>;
                  g = (if wakeup_rea g = WAKEUP_FROM_UTC then set_flag SAMPLE_UTC_SUC True g else g)
              in Inr (rest, s\<lparr>clk_div := backup_sys_div g, csp_mode1 := backup_csp_mode g, gpi_utc := g\<rparr>)))"

definition soft_sample_timer_handler :: "bool list \<Rightarrow> soft \<Rightarrow> (bool list \<times> soft) res" where
  "soft_sample_timer_handler levels s =
     (case levels of
        [] \<Rightarrow> Inl NonReturn
      | rxd_level # later \<Rightarrow>
          let g = gpi_utc s;
              g = time_limits (g\<lparr>sample_cnt := sample_cnt g + 1\<rparr>)
          in if flag SAMPLE_END g then Inr (later, s\<lparr>gpi_utc := g\<rparr>)
             else
               let g = start_sampling rxd_level g
               in if \<not> flag SAMPLE_START g then Inr (later, s\<lparr>gpi_utc := g\<rparr>)
                  else
                    let g = track_level rxd_level g
                    in if unat (data_cnt g) mod ONE_BIT_SAMPLE_NUM \<noteq> ONE_BIT_SAMPLE_NUM div 2
                       then Inr (later, s\<lparr>gpi_utc := g\<rparr>)
                       else
                         let g = write_rcv_bit (unat (bit_num_cnt g)) rxd_level g;
                             g = g\<lparr>bit_num_cnt := bit_num_cnt g + 1\<rparr>
                         in if bit_num_cnt g < 10 then Inr (later, s\<lparr>gpi_utc := g\<rparr>)
                            else
                              let g = check_char (third_chars s) g
                              in if special_id g = 0 then Inr (later, s\<lparr>gpi_utc := g\<rparr>)
                                 else char_found rxd_level later (s\<lparr>gpi_utc := g\<rparr>))"

lemma handler_shorter:
  "soft_sample_timer_handler levels s = Inr (rest, s') \<Longrightarrow> length rest < length levels"
  by (cases levels)
    (auto simp: soft_sample_timer_handler_def char_found_def Let_def bind_res_eq_Inr le_imp_less_Suc
      length_dropWhile_le split: if_splits)

section \<open>soft_sample_init\<close>

definition BackupIntEnable :: "soft \<Rightarrow> int_regs \<times> soft" where
  "BackupIntEnable s = (ints s, s\<lparr>ints := (ints s)\<lparr>nvic_enable := 0, systick_ctrl := 0, primask := False\<rparr>\<rparr>)"

definition RestoreIntEnable :: "int_regs \<Rightarrow> soft \<Rightarrow> soft" where
  "RestoreIntEnable backup s = s\<lparr>ints := backup\<rparr>"

text \<open>The loop that waits until the interrupts have set \<open>SAMPLE_END_FLAG\<close>.\<close>

function sample_loop :: "bool list \<Rightarrow> soft \<Rightarrow> (bool list \<times> soft) res" where
  "sample_loop levels s =
     (if flag SAMPLE_END (gpi_utc s) then Inr (levels, s)
      else case soft_sample_timer_handler levels s of
             Inl e \<Rightarrow> Inl e
           | Inr (rest, s') \<Rightarrow> sample_loop rest s')"
  by auto
termination by (relation "measure (length \<circ> fst)") (auto simp: handler_shorter)

declare sample_loop.simps [simp del]

definition prepare_sample :: "bool \<Rightarrow> soft_sample_t \<Rightarrow> soft_sample_t" where
  "prepare_sample pll g =
     (let g = set_flag SAMPLE_LAST_LEVEL True g;
          g = g\<lparr>special_id := 0, bit_num_cnt := 0\<rparr>;
          g = set_flag SAMPLE_END False (set_flag SAMPLE_START False g);
          g = g\<lparr>rcv_dat := 0, sample_cnt := 0, start_cnt := 0, data_cnt := 0\<rparr>
      in set_flag SAMPLE_REASON pll g)"

definition clear_fail :: "soft_sample_t \<Rightarrow> soft_sample_t" where
  "clear_fail g = g\<lparr>fail_rea := [0, 0]\<rparr>"

definition start_sample_clock :: "bool \<Rightarrow> soft \<Rightarrow> soft" where
  "start_sample_clock pll s =
     (let s = (if pll then s else upd_sample (clear_fail \<circ> set_flag SAMPLE_FIRST_ENTER True) (s\<lparr>clk_div := 0x01\<rparr>));
          s = (if \<not> flag SAMPLE_FIRST_ENTER (gpi_utc s) then upd_sample clear_fail s else s)
      in s\<lparr>ints := (ints s)\<lparr>systick_load := (if pll then hclk s else xtal_freq s) div current_baudrate s div of_nat ONE_BIT_SAMPLE_NUM,
                          vector15 := SoftSampleTimerHandler, systick_ctrl := 0x7\<rparr>\<rparr>)"

definition after_sample :: "soft \<Rightarrow> soft" where
  "after_sample s =
     (let g = gpi_utc s
      in if special_id g = 0
         then
           let s = s\<lparr>clk_div := backup_sys_div g\<rparr>
           in if fail_rea g ! 0 = SAMPLE_FAIL_WITH_DATA \<or> flag SAMPLE_REASON g then s\<lparr>csp_mode1 := backup_csp_mode g\<rparr> else s
         else upd_sample (\<lambda>g. set_flag SAMPLE_GIVE_SEM True
                (g\<lparr>fail_rea := (fail_rea g)[of_bool (flag SAMPLE_REASON g) := SAMPLE_SUCCESS]\<rparr>)) s)"

definition give_sem :: "soft \<Rightarrow> soft" where
  "give_sem s =
     (if flag SAMPLE_GIVE_SEM (gpi_utc s)
      then (upd_sample (set_flag SAMPLE_GIVE_SEM False) s)\<lparr>at_uart_sem := at_uart_sem s + 1\<rparr> else s)"

definition soft_sample_init :: "bool \<Rightarrow> bool list \<Rightarrow> soft \<Rightarrow> (bool list \<times> soft) res" where
  "soft_sample_init pll levels s =
     (let (backup_IntDat, s) = BackupIntEnable s;
          s = upd_sample (\<lambda>g. g\<lparr>backup_sys_div := (if xtal_only s then clk_div s else clk_div s AND 0xFE),
                               backup_csp_mode := csp_mode1 s OR push_bit 5 1\<rparr>) s;
          s = upd_sample (prepare_sample pll) s
      in bind_res (count_one (wakeup_rea (gpi_utc s)) (enter_cnt (gpi_utc s))) (\<lambda>cnt.
         bind_res (sample_loop levels (start_sample_clock pll (upd_sample (\<lambda>g. g\<lparr>enter_cnt := cnt\<rparr>) s))) (\<lambda>(rest, s).
         let s = after_sample (s\<lparr>ints := (ints s)\<lparr>systick_ctrl := 0\<rparr>\<rparr>);
             s = upd_sample (\<lambda>g. g\<lparr>backup_special_id := special_id g\<rparr>) s
         in Inr (rest, give_sem (RestoreIntEnable backup_IntDat s)))))"

section \<open>soft_sample_from_standby\<close>

definition wakeup_reason :: "u32 \<Rightarrow> u8" where
  "wakeup_reason wakeup_status =
     (if wakeup_status AND 0x04 \<noteq> 0 then WAKEUP_FROM_GPI0
      else if wakeup_status AND 0x01 \<noteq> 0 then WAKEUP_FROM_UTC else WAKEUP_FROM_OTHERS)"

definition sample_refused :: "soft_sample_t \<Rightarrow> bool" where
  "sample_refused g \<longleftrightarrow>
     fail_rea g ! 0 = SAMPLE_FAIL_WITH_DATA \<or> fail_rea g ! 1 = SAMPLE_FAIL_WITH_DATA
     \<or> fail_rea g ! 0 = SAMPLE_FAIL_ALL_IDLE \<and> fail_rea g ! 1 = SAMPLE_FAIL_ALL_IDLE \<and> wakeup_rea g = WAKEUP_FROM_GPI0"

definition gpi_failed :: "soft \<Rightarrow> soft" where
  "gpi_failed s = (upd_sample (set_flag SAMPLE_GPI_FAIL True) s)\<lparr>at_uart_sem := at_uart_sem s + 1\<rparr>"

text \<open>\<open>on_xtal\<close>: the clock status bit; \<open>locks\<close>: whether the PLL ever locks.\<close>

definition fast_uart_wakeup :: "bool \<Rightarrow> bool \<Rightarrow> u32 \<Rightarrow> soft \<Rightarrow> soft res" where
  "fast_uart_wakeup on_xtal locks wakeup_status s =
     (let s = s\<lparr>csp_mode1 := csp_mode1 s OR push_bit 5 1\<rparr>
      in if \<not> on_xtal then Inr s
         else if \<not> xtal_only s \<and> \<not> locks then Inl NonReturn
         else Inr (if wakeup_status AND 0x04 \<noteq> 0 then gpi_failed s else s))"

definition soft_sample_from_standby ::
    "bool \<Rightarrow> bool \<Rightarrow> bool \<Rightarrow> u32 \<Rightarrow> bool list \<Rightarrow> soft \<Rightarrow> (bool list \<times> soft) res" where
  "soft_sample_from_standby on_xtal locks pll wakeup_status levels s =
     (let s = upd_sample (\<lambda>g. set_flag SAMPLE_WAKEUP True
                (g\<lparr>wakeup_sta := ucast wakeup_status, wakeup_rea := wakeup_reason wakeup_status\<rparr>)) s
      in if current_baudrate s \<le> 9600
         then
           bind_res
             (if \<not> pll then soft_sample_init False levels s
              else
                bind_res
                  (if fail_rea (gpi_utc s) ! 0 = SAMPLE_FAIL_ALL_IDLE \<or> \<not> flag SAMPLE_FIRST_ENTER (gpi_utc s)
                   then soft_sample_init True levels s else Inr (levels, s))
                  (\<lambda>(levels, s). Inr (levels, upd_sample (set_flag SAMPLE_FIRST_ENTER False) s)))
             (\<lambda>(levels, s). Inr (levels, if sample_refused (gpi_utc s) then gpi_failed s else s))
         else bind_res (fast_uart_wakeup on_xtal locks wakeup_status s) (\<lambda>s. Inr (levels, s)))"

end
