(* ===== verification/AtUart.thy ===== *)
theory AtUart
  imports SoftSample
begin

text \<open>
  The serial port for AT commands: \<open>SYSLIB/at_uart/src/at_uart.c\<close> and \<open>soft_sample_fill_char\<close> of
  \<open>dirty_data_processing.c\<close>.  The driver functions \<open>CSPInt...\<close> and \<open>CSPCharPut\<close> are in ROM: that they are called, and
  the writes of the interrupt status register, is recorded.  The receive FIFO is the list of characters \<open>CSPCharGetNonBlocking\<close> returns; what the
  baud rate detection reads from the receive pin and from SysTick is a list of samples, and
  waiting beyond its end is \<open>NonReturn\<close>.
\<close>

section \<open>State\<close>

datatype csp_call =
    CSPIntDisable u32 | CSPIntClear u32 | CSPIntEnable u32 | CSPCharPut u8 | WriteIntStatus u32

datatype wakeup_log =
    Gpi0Success | Gpi0Failure | UtcSuccess | UtcDataFailure | UtcWithoutData | OthersSuccess | OthersFailure

record uart =
  rx_soft :: soft
  aucATBuffer :: "u8 list"
  rx_fifo :: "u8 list"
  csp_out_flag :: u8
  autobaud_none :: bool
  uart_closed :: bool
  at_recv :: "u8 list list"
  csp_calls :: "csp_call list"
  wakeup_logs :: "wakeup_log list"

definition CSP_INT_RX_DONE :: u32 where "CSP_INT_RX_DONE = 0x1"
definition CSP_INT_RXFIFO_THD_REACH :: u32 where "CSP_INT_RXFIFO_THD_REACH = 0x100"
definition CSP_INT_CSP_RX_TIMEOUT :: u32 where "CSP_INT_CSP_RX_TIMEOUT = 0x800"
definition CSP_INT_CSP_TX_ALLOUT :: u32 where "CSP_INT_CSP_TX_ALLOUT = 0x1000"

lemmas csp_int_defs = CSP_INT_RX_DONE_def CSP_INT_RXFIFO_THD_REACH_def CSP_INT_CSP_RX_TIMEOUT_def
  CSP_INT_CSP_TX_ALLOUT_def

definition AT_BUFFER_LEN :: nat where "AT_BUFFER_LEN = 100"

definition csp_call :: "csp_call list \<Rightarrow> uart \<Rightarrow> uart" where
  "csp_call cs u = u\<lparr>csp_calls := csp_calls u @ cs\<rparr>"

definition release_sem :: "uart \<Rightarrow> uart" where
  "release_sem u = u\<lparr>rx_soft := (rx_soft u)\<lparr>at_uart_sem := at_uart_sem (rx_soft u) + 1\<rparr>\<rparr>"

section \<open>Receiving\<close>

definition at_uart_int_handler :: "u32 \<Rightarrow> u32 \<Rightarrow> uart \<Rightarrow> uart" where
  "at_uart_int_handler status enable u =
     (if status AND CSP_INT_RX_DONE \<noteq> 0 \<and> enable AND CSP_INT_RX_DONE \<noteq> 0
      then csp_call [CSPIntDisable CSP_INT_RX_DONE,
             CSPIntClear (CSP_INT_RXFIFO_THD_REACH OR CSP_INT_CSP_RX_TIMEOUT OR CSP_INT_RX_DONE),
             CSPIntEnable (CSP_INT_RXFIFO_THD_REACH OR CSP_INT_CSP_RX_TIMEOUT)] u
      else
        let u = (if status AND CSP_INT_CSP_RX_TIMEOUT \<noteq> 0 \<and> enable AND CSP_INT_CSP_RX_TIMEOUT \<noteq> 0
                 then csp_call [CSPIntDisable CSP_INT_CSP_RX_TIMEOUT] u else u)
        in release_sem (csp_call [CSPIntDisable CSP_INT_RXFIFO_THD_REACH,
             CSPIntClear (CSP_INT_RXFIFO_THD_REACH OR CSP_INT_CSP_RX_TIMEOUT OR CSP_INT_RX_DONE)] u))"

text \<open>A task that waits for the semaphore while nobody releases it does not go on.\<close>

definition at_uart_read :: "nat \<Rightarrow> uart \<Rightarrow> (int \<times> uart) res" where
  "at_uart_read len u =
     (if at_uart_sem (rx_soft u) = 0 then Inl NonReturn
      else
        let d = take len (rx_fifo u)
        in Inr (int (length d),
             u\<lparr>rx_soft := (rx_soft u)\<lparr>at_uart_sem := at_uart_sem (rx_soft u) - 1\<rparr>,
               rx_fifo := drop len (rx_fifo u), aucATBuffer := blit (aucATBuffer u) 0 d\<rparr>))"

text \<open>
  Putting back the characters that were sampled; the loop moves the data from its end.  Writing behind
  the buffer is a \<open>BadAccess\<close>.
\<close>

definition put_back :: "u8 list \<Rightarrow> u8 list \<Rightarrow> int \<Rightarrow> u8 list res" where
  "put_back cs buf len =
     (if nat len + 3 \<le> length buf then Inr (blit (blit buf 3 (take (nat len) buf)) 0 cs) else Inl BadAccess)"

definition soft_sample_fill_char :: "u8 list \<Rightarrow> int \<Rightarrow> soft \<Rightarrow> ((u8 list \<times> int) \<times> soft) res" where
  "soft_sample_fill_char buf len s =
     (let g = gpi_utc s; i = unat (special_id g)
      in if i \<noteq> 0
         then if length (third_chars s) < i then Inl BadAccess
              else bind_res (put_back [0x41, 0x54, third_chars s ! (i - 1)] buf len) (\<lambda>buf.
                Inr ((buf, len + 3), upd_sample (\<lambda>g. g\<lparr>special_id := 0\<rparr>) s))
         else if 0 < len then Inr ((buf, len), upd_sample (set_flag SAMPLE_GPI_FAIL False) s)
         else if flag SAMPLE_GPI_FAIL g
           then bind_res (put_back [0x41, 0x42, 0x43] buf 0) (\<lambda>buf.
                Inr ((buf, 3), upd_sample (set_flag SAMPLE_GPI_FAIL False) s))
         else Inr ((buf, len), s))"

definition sampled_once :: "soft_sample_t \<Rightarrow> u8 \<Rightarrow> bool" where
  "sampled_once g r \<longleftrightarrow> fail_rea g ! 0 = r \<or> fail_rea g ! 1 = r"

definition wakeup_log_of :: "soft_sample_t \<Rightarrow> wakeup_log" where
  "wakeup_log_of g =
     (if wakeup_rea g = WAKEUP_FROM_GPI0 then (if sampled_once g SAMPLE_SUCCESS then Gpi0Success else Gpi0Failure)
      else if wakeup_rea g = WAKEUP_FROM_UTC
        then (if sampled_once g SAMPLE_SUCCESS then UtcSuccess
              else if sampled_once g SAMPLE_FAIL_WITH_DATA then UtcDataFailure else UtcWithoutData)
      else if sampled_once g SAMPLE_SUCCESS then OthersSuccess else OthersFailure)"

definition soft_sample_print_wakeup_reason :: "uart \<Rightarrow> uart" where
  "soft_sample_print_wakeup_reason u =
     (if \<not> flag SAMPLE_WAKEUP (gpi_utc (rx_soft u)) then u
      else u\<lparr>rx_soft := upd_sample (set_flag SAMPLE_WAKEUP False) (rx_soft u),
             wakeup_logs := wakeup_logs u @ [wakeup_log_of (gpi_utc (rx_soft u))]\<rparr>)"

text \<open>One round of the receive task.\<close>

definition AT_uart_rx_task :: "uart \<Rightarrow> uart res" where
  "AT_uart_rx_task u =
     bind_res (at_uart_read AT_BUFFER_LEN u) (\<lambda>(len, u).
     let u = csp_call [CSPIntEnable CSP_INT_RX_DONE] u
     in bind_res (soft_sample_fill_char (aucATBuffer u) len (rx_soft u)) (\<lambda>((buf, len), s).
        let u = u\<lparr>aucATBuffer := buf, rx_soft := s\<rparr>
        in if len < 0 then Inr u
           else bind_res (xy_assert (len \<le> int AT_BUFFER_LEN)) (\<lambda>_.
             Inr (soft_sample_print_wakeup_reason (u\<lparr>at_recv := at_recv u @ [take (nat len) buf]\<rparr>)))))"

section \<open>Sending\<close>

definition at_write_to_uart :: "u8 list \<Rightarrow> int \<Rightarrow> uart \<Rightarrow> (int \<times> uart) res" where
  "at_write_to_uart buf sz u =
     (if sz \<le> 0 \<or> autobaud_none u \<or> csp_mode1 (rx_soft u) AND 0x20 = 0 \<or> uart_closed u then Inr (-1, u)
      else if length buf < nat sz then Inl BadAccess
      else Inr (0, csp_call (WriteIntStatus CSP_INT_CSP_TX_ALLOUT # map CSPCharPut (take (nat sz) buf))
                     (u\<lparr>csp_out_flag := csp_out_flag u OR 0x01\<rparr>)))"

definition csp_write_allout_state :: "u32 \<Rightarrow> uart \<Rightarrow> nat \<times> uart" where
  "csp_write_allout_state status u =
     (if csp_out_flag u AND 0x01 \<noteq> 0 \<and> status AND CSP_INT_CSP_TX_ALLOUT = 0 \<and> \<not> uart_closed u then (0, u)
      else (1, u\<lparr>csp_out_flag := 0\<rparr>))"

definition wait_for_csp_tx_allout :: "bool \<Rightarrow> uart \<Rightarrow> uart res" where
  "wait_for_csp_tx_allout empties u =
     (if csp_out_flag u AND 0x01 = 0 then Inr u
      else if empties then Inr (u\<lparr>csp_out_flag := 0\<rparr>) else Inl NonReturn)"

section \<open>AutoBaudStart\<close>

datatype AUTOBAUD_STATE =
    AUTOBAUD_STATE_NONE | AUTOBAUD_STATE_SKIP | AUTOBAUD_STATE_INIT | AUTOBAUD_STATE_WAITINT_FIRST
  | AUTOBAUD_STATE_WAITINT_SECOND | AUTOBAUD_STATE_WAITINT_THIRD | AUTOBAUD_STATE_VERIFY | AUTOBAUD_STATE_DONE

definition g_autobaud_table :: "u32 list" where
  "g_autobaud_table = [2400, 4800, 9600, 19200, 38400, 57600, 115200]"

text \<open>
  One pass of a waiting loop: the level of the receive pin, the SysTick counter, and whether \<open>COUNTFLAG\<close> is
  set when the control register is read.
\<close>

record rx_sample =
  rxd :: bool
  tick_val :: u32
  countflag :: bool

record autobaud =
  g_autobaud_state :: AUTOBAUD_STATE
  g_autobaud_stop_standby :: bool
  g_autobaud_rate :: u32
  uart_rate_nv :: u16
  close_at_uart :: u8
  peri_remap_enable :: u16
  csp2_rxd_pin :: u8

fun wait_first :: "rx_sample list \<Rightarrow> (u32 \<times> rx_sample list) res" where
  "wait_first [] = Inl NonReturn"
| "wait_first (x # xs) = (if rxd x then wait_first xs else Inr (tick_val x, xs))"

fun wait_while :: "bool \<Rightarrow> nat \<Rightarrow> rx_sample list \<Rightarrow> (u32 \<times> nat \<times> rx_sample list) res" where
  "wait_while lv n [] = Inl NonReturn"
| "wait_while lv n (x # xs) =
     (let n = n + of_bool (countflag x)
      in if rxd x = lv \<and> n < 2 then wait_while lv n xs else Inr (tick_val x, n, xs))"

text \<open>The next falling edge: its tick, or \<open>None\<close> after two turns of SysTick.\<close>

definition next_falling :: "rx_sample list \<Rightarrow> (u32 option \<times> rx_sample list) res" where
  "next_falling xs =
     bind_res (wait_while False 0 xs) (\<lambda>(_, n, xs).
       if 2 \<le> n then Inr (None, xs)
       else bind_res (wait_while True 0 xs) (\<lambda>(t, n, xs). Inr (if n < 2 then Some t else None, xs)))"

definition bits_len :: "u32 \<Rightarrow> u32 \<Rightarrow> u32" where
  "bits_len t0 t = (t0 + 0xFFFFFF - t) mod 0xFFFFFF"

text \<open>The loop runs from the highest rate down.\<close>

definition near_rate :: "u32 \<Rightarrow> u32 \<Rightarrow> bool" where
  "near_rate baudrate r \<longleftrightarrow> r * 8 div 10 < baudrate \<and> baudrate < r * 12 div 10"

definition snap_rate :: "u32 \<Rightarrow> u32 option" where
  "snap_rate baudrate = find (near_rate baudrate) (rev g_autobaud_table)"

text \<open>Ten more falling edges, \<open>None\<close> after two turns of SysTick; then the pin must get high.\<close>

fun count_edges :: "bool \<Rightarrow> nat \<Rightarrow> nat \<Rightarrow> rx_sample list \<Rightarrow> (bool \<times> rx_sample list) res" where
  "count_edges prev e n [] = Inl NonReturn"
| "count_edges prev e n (x # xs) =
     (let e = e + of_bool (prev \<and> \<not> rxd x); n = n + of_bool (countflag x)
      in if e < 10 \<and> n < 2 then count_edges (rxd x) e n xs else Inr (n < 2, xs))"

text \<open>A length of 0 divides to 0, as it does on the core without the trap.\<close>

definition verify_rate :: "u32 \<Rightarrow> u32 \<times> u32 \<times> u32 \<Rightarrow> u32 option" where
  "verify_rate hz = (\<lambda>(t0, t1, t2).
     let bits_len1 = bits_len t0 t1; bits_len2 = bits_len t0 t2; checkvalue = bits_len2 * 10 div bits_len1
     in if 36 < checkvalue \<and> checkvalue < 44 then snap_rate (hz * 8 div bits_len2) else None)"

text \<open>The pin is read once before the edges are counted.\<close>

definition verify_edges :: "rx_sample list \<Rightarrow> (bool \<times> rx_sample list) res" where
  "verify_edges xs =
     (case xs of
        [] \<Rightarrow> Inl NonReturn
      | x # xs \<Rightarrow>
          bind_res (count_edges (rxd x) 0 0 xs) (\<lambda>(ok, xs).
            if ok then (case dropWhile (\<lambda>x. \<not> rxd x) xs of [] \<Rightarrow> Inl NonReturn | _ # xs \<Rightarrow> Inr (True, xs))
            else Inr (False, xs)))"

lemma wait_first_shorter: "wait_first xs = Inr (t, ys) \<Longrightarrow> length ys < length xs"
  by (induction xs) (auto split: if_splits)

lemma wait_while_shorter: "wait_while lv n xs = Inr (t, m, ys) \<Longrightarrow> length ys < length xs"
  by (induction xs arbitrary: n) (auto simp: Let_def split: if_splits, (metis less_SucI)+)

lemma next_falling_shorter: "next_falling xs = Inr (t, ys) \<Longrightarrow> length ys < length xs"
  by (auto simp: next_falling_def bind_res_eq_Inr dest!: wait_while_shorter split: if_splits)

lemma count_edges_shorter: "count_edges prev e n xs = Inr (b, ys) \<Longrightarrow> length ys < length xs"
  by (induction xs arbitrary: prev e n) (auto simp: Let_def split: if_splits, (metis less_SucI)+)

lemma verify_edges_shorter:
  assumes "verify_edges xs = Inr (b, ys)"
  shows "length ys < length xs"
proof (cases xs)
  case Nil
  then show ?thesis using assms by (simp add: verify_edges_def)
next
  case (Cons x xs')
  obtain ok zs where z: "count_edges (rxd x) 0 0 xs' = Inr (ok, zs)"
    using assms by (auto simp: verify_edges_def Cons bind_res_eq_Inr)
  have "length ys \<le> length zs"
    using assms length_dropWhile_le [of "\<lambda>x. \<not> rxd x" zs]
    by (auto simp: verify_edges_def Cons z split: if_splits list.splits)
  then show ?thesis using count_edges_shorter [OF z] by (simp add: Cons)
qed

text \<open>
  The states of the measurement; \<open>NONE\<close>, \<open>SKIP\<close> and \<open>DONE\<close> leave the loop or stay for ever.  The rate is what
  the last \<open>VERIFY\<close> computed.
\<close>

fun state_rank :: "AUTOBAUD_STATE \<Rightarrow> nat" where
  "state_rank AUTOBAUD_STATE_VERIFY = 2"
| "state_rank AUTOBAUD_STATE_INIT = 1"
| "state_rank _ = 0"

function autobaud_loop ::
    "u32 \<Rightarrow> AUTOBAUD_STATE \<Rightarrow> u32 \<times> u32 \<times> u32 \<Rightarrow> u32 \<Rightarrow> rx_sample list \<Rightarrow> (u32 \<times> rx_sample list) res" where
  "autobaud_loop hz st (t0, t1, t2) rate xs =
     (case st of
        AUTOBAUD_STATE_INIT \<Rightarrow> autobaud_loop hz AUTOBAUD_STATE_WAITINT_FIRST (t0, t1, t2) rate xs
      | AUTOBAUD_STATE_WAITINT_FIRST \<Rightarrow>
          (case wait_first xs of
             Inl e \<Rightarrow> Inl e
           | Inr (t, xs') \<Rightarrow> autobaud_loop hz AUTOBAUD_STATE_WAITINT_SECOND (t, t1, t2) rate xs')
      | AUTOBAUD_STATE_WAITINT_SECOND \<Rightarrow>
          (case next_falling xs of
             Inl e \<Rightarrow> Inl e
           | Inr (None, xs') \<Rightarrow> autobaud_loop hz AUTOBAUD_STATE_WAITINT_FIRST (t0, t1, t2) rate xs'
           | Inr (Some t, xs') \<Rightarrow> autobaud_loop hz AUTOBAUD_STATE_WAITINT_THIRD (t0, t, t2) rate xs')
      | AUTOBAUD_STATE_WAITINT_THIRD \<Rightarrow>
          (case next_falling xs of
             Inl e \<Rightarrow> Inl e
           | Inr (None, xs') \<Rightarrow> autobaud_loop hz AUTOBAUD_STATE_WAITINT_FIRST (t0, t1, t2) rate xs'
           | Inr (Some t, xs') \<Rightarrow> autobaud_loop hz AUTOBAUD_STATE_VERIFY (t0, t1, t) rate xs')
      | AUTOBAUD_STATE_VERIFY \<Rightarrow>
          (case verify_rate hz (t0, t1, t2) of
             None \<Rightarrow> autobaud_loop hz AUTOBAUD_STATE_WAITINT_FIRST (t0, t1, t2) rate xs
           | Some rate' \<Rightarrow>
               (case verify_edges xs of
                  Inl e \<Rightarrow> Inl e
                | Inr (True, xs') \<Rightarrow> Inr (rate', xs')
                | Inr (False, xs') \<Rightarrow> autobaud_loop hz AUTOBAUD_STATE_INIT (t0, t1, t2) rate' xs'))
      | AUTOBAUD_STATE_DONE \<Rightarrow> Inr (rate, xs)
      | _ \<Rightarrow> Inl NonReturn)"
  by pat_completeness auto
termination
  by (relation "measure (\<lambda>(_, st, _, _, xs). 3 * length xs + state_rank st)")
    (auto dest: wait_first_shorter next_falling_shorter verify_edges_shorter)

declare autobaud_loop.simps [simp del]

definition set_rate :: "u32 \<Rightarrow> autobaud \<Rightarrow> autobaud" where
  "set_rate rate a =
     a\<lparr>g_autobaud_stop_standby := g_autobaud_stop_standby a \<or> 9600 < rate, g_autobaud_rate := rate\<rparr>"

definition autobaud_off :: "autobaud \<Rightarrow> bool" where
  "autobaud_off a \<longleftrightarrow>
     uart_rate_nv a AND 0x1ff \<noteq> 0 \<or> close_at_uart a = 1 \<or> peri_remap_enable a AND 0x2 = 0 \<or> csp2_rxd_pin a = 0xff"

text \<open>\<open>wakeup\<close>: the chip comes from deep sleep.\<close>

definition AutoBaudStart :: "u32 \<Rightarrow> bool \<Rightarrow> rx_sample list \<Rightarrow> autobaud \<Rightarrow> (autobaud \<times> rx_sample list) res" where
  "AutoBaudStart hz wakeup xs a =
     (let saved = ucast (drop_bit 9 (uart_rate_nv a)) * 2400 :: u32
      in if autobaud_off a then Inr (a\<lparr>g_autobaud_state := AUTOBAUD_STATE_SKIP\<rparr>, xs)
         else if wakeup \<and> 0 < saved \<and> saved \<le> last g_autobaud_table
           then Inr ((set_rate saved a)\<lparr>g_autobaud_state := AUTOBAUD_STATE_SKIP\<rparr>, xs)
         else
           bind_res (autobaud_loop hz AUTOBAUD_STATE_INIT (0, 0, 0) 0 xs) (\<lambda>(rate, xs).
             Inr ((set_rate rate a)\<lparr>g_autobaud_state := AUTOBAUD_STATE_DONE,
                    uart_rate_nv := push_bit 9 (ucast (rate div 2400))\<rparr>, xs)))"

end
