(* ===== verification/SoftSampleSpec.thy ===== *)
theory SoftSampleSpec
  imports SoftSample
begin

text \<open>
  The sampler without its counters and words: a reference decoder over lists of levels, what it reads
  from a line of pulses, and the proof that the interrupt handler follows it as long as the bits fit
  into \<open>rcv_dat\<close>.
\<close>

section \<open>The reference decoder\<close>

text \<open>The last ten bits: an idle bit, a start bit and the eight data bits, low bit first.\<close>

definition window_id :: "u8 list \<Rightarrow> bool list \<Rightarrow> u8" where
  "window_id chars bs =
     (let n = length bs
      in if 10 \<le> n \<and> bs ! (n - 10) \<and> \<not> bs ! (n - 9)
         then match_third (horner_sum of_bool 2 (drop (n - 8) bs)) chars 0 0 else 0)"

text \<open>\<open>d\<close> counts the samples since the last edge; a bit is read at every fourth sample of eight.\<close>

fun decode :: "u8 list \<Rightarrow> bool list \<Rightarrow> bool \<Rightarrow> nat \<Rightarrow> bool list \<Rightarrow> (u8 \<times> bool list) option" where
  "decode chars bs prev d [] = None"
| "decode chars bs prev d (lv # later) =
     (let d' = (if lv = prev then d + 1 else 1)
      in if d' mod 8 \<noteq> 4 then decode chars bs lv d' later
         else if window_id chars (bs @ [lv]) \<noteq> 0
           then Some (window_id chars (bs @ [lv]), if lv then later else dropWhile Not later)
           else decode chars (bs @ [lv]) lv d' later)"

text \<open>The number of bits the decoder reads.\<close>

fun bits_read :: "bool \<Rightarrow> nat \<Rightarrow> bool list \<Rightarrow> nat" where
  "bits_read prev d [] = 0"
| "bits_read prev d (lv # later) =
     (let d' = (if lv = prev then d + 1 else 1) in of_bool (d' mod 8 = 4) + bits_read lv d' later)"

section \<open>Pulses\<close>

type_synonym pulse = "nat \<times> bool"

definition line_of :: "pulse list \<Rightarrow> bool list" where
  "line_of ps = concat (map (\<lambda>(t, lv). replicate t lv) ps)"

text \<open>A pulse of \<open>t\<close> samples is read as so many bits: up to four samples short, three long.\<close>

definition bits_of_pulses :: "pulse list \<Rightarrow> bool list" where
  "bits_of_pulses ps = concat (map (\<lambda>(t, lv). replicate ((t + 4) div 8) lv) ps)"

fun alternating :: "bool \<Rightarrow> pulse list \<Rightarrow> bool" where
  "alternating prev [] = True"
| "alternating prev ((t, lv) # ps) \<longleftrightarrow> lv \<noteq> prev \<and> 0 < t \<and> alternating lv ps"

fun push_bits :: "u8 list \<Rightarrow> bool list \<Rightarrow> bool list \<Rightarrow> (u8 \<times> bool list) + bool list" where
  "push_bits chars bs [] = Inr bs"
| "push_bits chars bs (b # rest) =
     (if window_id chars (bs @ [b]) \<noteq> 0 then Inl (window_id chars (bs @ [b]), rest) else push_bits chars (bs @ [b]) rest)"

lemma line_of_simps [simp]: "line_of [] = []" "line_of ((t, lv) # ps) = replicate t lv @ line_of ps"
  by (simp_all add: line_of_def)

lemma bits_of_pulses_simps [simp]:
  "bits_of_pulses [] = []" "bits_of_pulses ((t, lv) # ps) = replicate ((t + 4) div 8) lv @ bits_of_pulses ps"
  by (simp_all add: bits_of_pulses_def)

lemma push_bits_append:
  "push_bits chars bs (xs @ ys) =
     (case push_bits chars bs xs of Inl (i, r) \<Rightarrow> Inl (i, r @ ys) | Inr bs' \<Rightarrow> push_bits chars bs' ys)"
  by (induction xs arbitrary: bs) auto

text \<open>With characters below 128 the last bit of a match is low.\<close>

lemma match_third_mem: "match_third c chars i 0 \<noteq> 0 \<Longrightarrow> c \<in> set chars"
  by (induction chars arbitrary: i) (auto split: if_splits)

lemma high_bit_clear: "(w :: u8) < 128 \<Longrightarrow> \<not> bit w 7"
proof -
  assume "w < 128"
  then have "uint w < 2 ^ 7" by (simp add: word_less_def)
  then have "take_bit 7 (uint w) = uint w" by (simp add: take_bit_int_eq_self)
  then have "\<not> bit (uint w) 7" by (metis bit_take_bit_iff less_irrefl)
  then show ?thesis by (simp add: bit_uint_iff)
qed

lemma match_last_low:
  assumes "\<forall>c \<in> set chars. c < 128" "window_id chars (bs @ [lv]) \<noteq> 0"
  shows "\<not> lv"
proof
  assume lv
  let ?d = "drop (length (bs @ [lv]) - 8) (bs @ [lv])"
  have n: "10 \<le> length (bs @ [lv])"
    and m: "match_third (horner_sum of_bool 2 ?d) chars 0 0 \<noteq> 0"
    using assms(2) by (auto simp: window_id_def Let_def split: if_splits)
  have "horner_sum of_bool 2 ?d < (128 :: u8)"
    using match_third_mem [OF m] assms(1) by blast
  moreover have "bit (horner_sum of_bool 2 ?d :: u8) 7"
    using n \<open>lv\<close> by (simp add: bit_horner_sum_bit_word_iff nth_append)
  ultimately show False using high_bit_clear by blast
qed

text \<open>Reading on within a pulse of which \<open>d\<close> samples have passed.\<close>

lemma fourth_sample:
  "(Suc d + 4) div 8 = (if Suc d mod 8 = 4 then Suc ((d + 4) div 8) else (d + 4) div 8)"
proof -
  have "Suc (d + 4) mod 8 = 0 \<longleftrightarrow> Suc d mod 8 = 4" by presburger
  then show ?thesis using div_Suc [of "d + 4" 8] by simp
qed

lemma skip_low [simp]: "dropWhile Not (replicate t False @ rest) = dropWhile Not rest"
  by (induction t) simp_all

lemma count_next: "b = Suc a \<Longrightarrow> b \<le> c \<Longrightarrow> c = c' \<Longrightarrow> c' - a = Suc (c - b)" for a b c c' :: nat
  by simp

lemma decode_hold:
  assumes "\<forall>c \<in> set chars. c < 128"
  shows "decode chars bs lv d (replicate t lv @ rest) =
     (case push_bits chars bs (replicate ((d + t + 4) div 8 - (d + 4) div 8) lv) of
        Inl (i, _) \<Rightarrow> Some (i, dropWhile Not rest)
      | Inr bs' \<Rightarrow> decode chars bs' lv (d + t) rest)"
proof (induction t arbitrary: bs d)
  case 0
  then show ?case by simp
next
  case (Suc t)
  have low: "\<not> lv" if "window_id chars (bs @ [lv]) \<noteq> 0" using match_last_low [OF assms that] .
  have le: "(Suc d + 4) div 8 \<le> (Suc d + t + 4) div 8" by (intro div_le_mono) simp
  show ?case
  proof (cases "Suc d mod 8 = 4")
    case False
    then show ?thesis using Suc.IH [of bs "Suc d"] fourth_sample [of d] by (simp split: sum.split)
  next
    case True
    then have n: "(d + Suc t + 4) div 8 - (d + 4) div 8 = Suc ((Suc d + t + 4) div 8 - (Suc d + 4) div 8)"
      using fourth_sample [of d] le by (rule_tac count_next) simp_all
    show ?thesis
    proof (cases "window_id chars (bs @ [lv]) = 0")
      case False
      then show ?thesis using True low unfolding n by simp
    next
      case w: True
      then show ?thesis using True Suc.IH [of "bs @ [lv]" "Suc d"] unfolding n by (simp split: sum.split)
    qed
  qed
qed

lemma decode_pulse:
  assumes "\<forall>c \<in> set chars. c < 128" "lv \<noteq> prev" "0 < t"
  shows "decode chars bs prev d (replicate t lv @ rest) =
     (case push_bits chars bs (replicate ((t + 4) div 8) lv) of
        Inl (i, _) \<Rightarrow> Some (i, dropWhile Not rest)
      | Inr bs' \<Rightarrow> decode chars bs' lv t rest)"
proof -
  from assms(3) obtain t' where t: "t = Suc t'" by (cases t) auto
  show ?thesis using assms(2) decode_hold [OF assms(1), of bs lv 1 t' rest] by (auto simp: t split: sum.split)
qed

text \<open>The bits left when a character is found end with the pulse it is found in.\<close>

lemma push_replicate_rest:
  "push_bits chars bs (replicate n b) = Inl (i, r) \<Longrightarrow> \<exists>m. r = replicate m b"
  by (induction n arbitrary: bs) (auto split: if_splits)

lemma push_found_low:
  "\<forall>c \<in> set chars. c < 128 \<Longrightarrow> push_bits chars bs (replicate n b) = Inl (i, r) \<Longrightarrow> \<not> b"
  using match_last_low by (induction n arbitrary: bs) (auto split: if_splits)

lemma decode_line:
  assumes "\<forall>c \<in> set chars. c < 128" "alternating prev ps"
    and "push_bits chars bs (bits_of_pulses ps) = Inl (i, r)"
  shows "\<exists>k m. decode chars bs prev d (line_of ps @ tail) = Some (i, dropWhile Not (line_of (drop k ps) @ tail))
     \<and> r = replicate m False @ bits_of_pulses (drop k ps) \<and> alternating False (drop k ps)"
  using assms(2,3)
proof (induction ps arbitrary: bs prev d)
  case Nil
  then show ?case by simp
next
  case (Cons p ps)
  obtain t lv where p: "p = (t, lv)" by (cases p)
  have a: "lv \<noteq> prev" "0 < t" "alternating lv ps" using Cons.prems(1) by (auto simp: p)
  show ?case
  proof (cases "push_bits chars bs (replicate ((t + 4) div 8) lv)")
    case (Inl x)
    obtain j r' where x: "x = (j, r')" by (cases x)
    have low: "\<not> lv" using push_found_low [OF assms(1)] Inl x by blast
    obtain m where "r' = replicate m lv" using push_replicate_rest Inl x by blast
    then show ?thesis
      using Cons.prems(2) low a(3) decode_pulse [OF assms(1) a(1,2), of bs d "line_of ps @ tail"] Inl x
      by (intro exI [of _ 1] exI [of _ m]) (simp add: p push_bits_append)
  next
    case (Inr bs')
    have "push_bits chars bs' (bits_of_pulses ps) = Inl (i, r)"
      using Cons.prems(2) by (simp add: p push_bits_append Inr)
    from Cons.IH [OF a(3) this, of t] obtain k m where
      "decode chars bs' lv t (line_of ps @ tail) = Some (i, dropWhile Not (line_of (drop k ps) @ tail))"
      "r = replicate m False @ bits_of_pulses (drop k ps)" "alternating False (drop k ps)" by blast
    then show ?thesis
      using decode_pulse [OF assms(1) a(1,2), of bs d "line_of ps @ tail"]
      by (intro exI [of _ "Suc k"] exI [of _ m]) (simp add: p Inr)
  qed
qed

text \<open>Followed by a stop bit, the rest of the line is exactly what comes after the character.\<close>

lemma decode_line_stop:
  assumes "\<forall>c \<in> set chars. c < 128" "alternating prev ps"
    and "push_bits chars bs (bits_of_pulses ps) = Inl (i, True # r)"
  shows "\<exists>k. decode chars bs prev d (line_of ps @ tail) = Some (i, line_of (drop k ps) @ tail)
     \<and> bits_of_pulses (drop k ps) = True # r"
proof -
  obtain k m where k: "decode chars bs prev d (line_of ps @ tail) = Some (i, dropWhile Not (line_of (drop k ps) @ tail))"
    and r: "True # r = replicate m False @ bits_of_pulses (drop k ps)" and a: "alternating False (drop k ps)"
    using decode_line [OF assms] by blast
  have m: "m = 0" using r by (cases m) auto
  with r obtain t lv ps' where ps': "drop k ps = (t, lv) # ps'" by (cases "drop k ps") auto
  with a obtain t' where "t = Suc t'" "lv" by (cases t) auto
  then have "dropWhile Not (line_of (drop k ps) @ tail) = line_of (drop k ps) @ tail" by (simp add: ps')
  with k r m show ?thesis by (metis append_Nil replicate_0)
qed

section \<open>Flags and bits of the structure\<close>

lemma bit_put_bit: "bit (put_bit i v w) j \<longleftrightarrow> (if j = i then i < LENGTH('a::len) \<and> v else bit (w :: 'a word) j)"
  by (auto simp: put_bit_def bit_set_bit_iff bit_unset_bit_iff dest: bit_imp_le_length)

lemma flag_set_flag [simp]: "i < 16 \<Longrightarrow> flag j (set_flag i v g) = (if j = i then v else flag j g)"
  by (simp add: flag_def set_flag_def bit_put_bit)

lemma set_flag_fields [simp]:
  "special_id (set_flag i v g) = special_id g" "bit_num_cnt (set_flag i v g) = bit_num_cnt g"
  "wakeup_rea (set_flag i v g) = wakeup_rea g" "wakeup_sta (set_flag i v g) = wakeup_sta g"
  "fail_rea (set_flag i v g) = fail_rea g" "rcv_dat (set_flag i v g) = rcv_dat g"
  "sample_cnt (set_flag i v g) = sample_cnt g" "start_cnt (set_flag i v g) = start_cnt g"
  "data_cnt (set_flag i v g) = data_cnt g" "backup_special_id (set_flag i v g) = backup_special_id g"
  "backup_sys_div (set_flag i v g) = backup_sys_div g" "backup_csp_mode (set_flag i v g) = backup_csp_mode g"
  "enter_cnt (set_flag i v g) = enter_cnt g" "success_cnt (set_flag i v g) = success_cnt g"
  by (simp_all add: set_flag_def)

lemma flag_update_simps [simp]:
  "flag j (g\<lparr>special_id := a\<rparr>) = flag j g" "flag j (g\<lparr>bit_num_cnt := a\<rparr>) = flag j g"
  "flag j (g\<lparr>rcv_dat := b\<rparr>) = flag j g" "flag j (g\<lparr>sample_cnt := c\<rparr>) = flag j g"
  "flag j (g\<lparr>start_cnt := c\<rparr>) = flag j g" "flag j (g\<lparr>data_cnt := a\<rparr>) = flag j g"
  "flag j (g\<lparr>fail_rea := l\<rparr>) = flag j g" "flag j (g\<lparr>enter_cnt := m\<rparr>) = flag j g"
  "flag j (g\<lparr>success_cnt := m\<rparr>) = flag j g" "flag j (g\<lparr>backup_special_id := a\<rparr>) = flag j g"
  "flag j (g\<lparr>backup_sys_div := a\<rparr>) = flag j g" "flag j (g\<lparr>backup_csp_mode := b\<rparr>) = flag j g"
  "flag j (g\<lparr>wakeup_rea := a\<rparr>) = flag j g" "flag j (g\<lparr>wakeup_sta := a\<rparr>) = flag j g"
  by (simp_all add: flag_def)

section \<open>The handler follows the decoder\<close>

text \<open>What sampling leaves alone: all but the counters, the received bits and flags.\<close>

definition same_setup :: "soft_sample_t \<Rightarrow> soft_sample_t \<Rightarrow> bool" where
  "same_setup g g' \<longleftrightarrow>
     wakeup_rea g' = wakeup_rea g \<and> wakeup_sta g' = wakeup_sta g \<and> fail_rea g' = fail_rea g
     \<and> enter_cnt g' = enter_cnt g \<and> length (success_cnt g') = length (success_cnt g)
     \<and> backup_sys_div g' = backup_sys_div g \<and> backup_csp_mode g' = backup_csp_mode g
     \<and> (\<forall>i. i \<notin> {SAMPLE_START, SAMPLE_END, SAMPLE_LAST_LEVEL, SAMPLE_UTC_SUC} \<longrightarrow> flag i g' = flag i g)"

lemma same_setup_refl [simp]: "same_setup g g"
  by (simp add: same_setup_def)

lemma same_setup_trans: "same_setup g h \<Longrightarrow> same_setup h k \<Longrightarrow> same_setup g k"
  by (simp add: same_setup_def)

text \<open>
  The handler has read the bits \<open>bs\<close>; the last level \<open>prev\<close> has lasted \<open>d\<close> samples, \<open>n\<close> samples are counted.
\<close>

definition tracks :: "bool list \<Rightarrow> bool \<Rightarrow> nat \<Rightarrow> nat \<Rightarrow> soft_sample_t \<Rightarrow> bool" where
  "tracks bs prev d n g \<longleftrightarrow>
     flag SAMPLE_START g \<and> \<not> flag SAMPLE_END g \<and> special_id g = 0
     \<and> unat (bit_num_cnt g) = length bs \<and> (\<forall>i < length bs. bit (rcv_dat g) i = bs ! i)
     \<and> flag SAMPLE_LAST_LEVEL g = prev \<and> unat (data_cnt g) = d \<and> unat (start_cnt g) = n"

lemma unat_next: "unat w + 1 < 2 ^ LENGTH('a) \<Longrightarrow> unat ((w :: 'a::len word) + 1) = unat w + 1"
  by (simp add: unat_word_ariths(1))

lemma tracks_level:
  assumes "tracks bs prev d n g" "n \<noteq> 0 \<or> \<not> lv" "d < 255" "n < 65535"
  shows "tracks bs lv (if lv = prev then d + 1 else 1) (n + 1) (track_level lv g)" "same_setup g (track_level lv g)"
proof -
  have c: "start_cnt g \<noteq> 0 \<or> \<not> lv" using assms(1,2) by (auto simp: tracks_def)
  have "unat (start_cnt g + 1) = n + 1" "unat (data_cnt g + 1) = d + 1"
    using assms unat_next [of "start_cnt g"] unat_next [of "data_cnt g"] by (simp_all add: tracks_def)
  then show "tracks bs lv (if lv = prev then d + 1 else 1) (n + 1) (track_level lv g)"
    using assms(1) c by (auto simp: tracks_def track_level_def Let_def sample_flag_bits)
  show "same_setup g (track_level lv g)"
    using c by (auto simp: same_setup_def track_level_def Let_def sample_flag_bits)
qed

lemma write_rcv_bit_num [simp]: "bit_num_cnt (write_rcv_bit i v g) = bit_num_cnt g"
  by (simp add: write_rcv_bit_def)

lemma tracks_bit:
  assumes "tracks bs prev d n g" "length bs < 32"
  shows "tracks (bs @ [lv]) prev d n ((write_rcv_bit (unat (bit_num_cnt g)) lv g)\<lparr>bit_num_cnt := bit_num_cnt g + 1\<rparr>)"
    "same_setup g ((write_rcv_bit (unat (bit_num_cnt g)) lv g)\<lparr>bit_num_cnt := bit_num_cnt g + 1\<rparr>)"
proof -
  have n: "unat (bit_num_cnt g) = length bs" "unat (bit_num_cnt g + 1) = length bs + 1"
    using assms unat_next [of "bit_num_cnt g"] by (simp_all add: tracks_def)
  show "tracks (bs @ [lv]) prev d n ((write_rcv_bit (unat (bit_num_cnt g)) lv g)\<lparr>bit_num_cnt := bit_num_cnt g + 1\<rparr>)"
    using assms n by (auto simp: tracks_def write_rcv_bit_def bit_put_bit nth_append less_Suc_eq)
  show "same_setup g ((write_rcv_bit (unat (bit_num_cnt g)) lv g)\<lparr>bit_num_cnt := bit_num_cnt g + 1\<rparr>)"
    using assms(2) n by (simp add: same_setup_def write_rcv_bit_def)
qed

lemma low_byte:
  assumes "\<forall>i < length bs. bit (w :: u32) i = bs ! i" "8 \<le> length bs" "length bs \<le> 32"
  shows "ucast (drop_bit (length bs - 8) w) = (horner_sum of_bool 2 (drop (length bs - 8) bs) :: u8)"
proof (rule bit_word_eqI)
  fix i
  assume "i < LENGTH(8)"
  then show "bit (ucast (drop_bit (length bs - 8) w) :: u8) i = bit (horner_sum of_bool 2 (drop (length bs - 8) bs) :: u8) i"
    using assms by (auto simp: bit_ucast_iff bit_drop_bit_eq bit_horner_sum_bit_word_iff)
qed

lemma tracks_check:
  assumes "tracks bs prev d n g" "10 \<le> length bs" "length bs \<le> 32"
  shows "check_char chars g = (if window_id chars bs = 0 then g else g\<lparr>special_id := window_id chars bs\<rparr>)"
proof -
  have n: "unat (bit_num_cnt g) = length bs" "special_id g = 0" and b: "\<forall>i < length bs. bit (rcv_dat g) i = bs ! i"
    using assms(1) by (simp_all add: tracks_def)
  have r: "read_rcv_bit (length bs - 10) g = bs ! (length bs - 10)" "read_rcv_bit (length bs - 9) g = bs ! (length bs - 9)"
    using assms(2,3) b by (auto simp: read_rcv_bit_def)
  show ?thesis
    using assms(2) low_byte [OF b _ assms(3)] n r
    by (auto simp: check_char_def window_id_def Let_def)
qed

definition in_time :: "nat \<Rightarrow> bool \<Rightarrow> soft_sample_t \<Rightarrow> bool" where
  "in_time n lv g \<longleftrightarrow> n \<le> 240 \<and> (n \<noteq> 0 \<or> \<not> lv \<and> unat (sample_cnt g) < 80)"

lemma count_sample:
  assumes "tracks bs prev d n g" "in_time n lv g"
  shows "time_limits (g\<lparr>sample_cnt := sample_cnt g + 1\<rparr>) = g\<lparr>sample_cnt := sample_cnt g + 1\<rparr>"
    "tracks bs prev d n (g\<lparr>sample_cnt := sample_cnt g + 1\<rparr>)"
proof -
  have "start_cnt g = 0 \<Longrightarrow> unat (sample_cnt g + 1) \<le> 80"
    using assms unat_next [of "sample_cnt g"] by (auto simp: in_time_def tracks_def)
  then show "time_limits (g\<lparr>sample_cnt := sample_cnt g + 1\<rparr>) = g\<lparr>sample_cnt := sample_cnt g + 1\<rparr>"
    using assms by (auto simp: time_limits_def Let_def sample_bounds in_time_def tracks_def)
  show "tracks bs prev d n (g\<lparr>sample_cnt := sample_cnt g + 1\<rparr>)"
    using assms(1) by (simp add: tracks_def)
qed

lemma window_short: "length bs < 10 \<Longrightarrow> window_id chars bs = 0"
  by (simp add: window_id_def Let_def)

text \<open>What one interrupt does to a handler that tracks the line.\<close>

definition next_d :: "bool \<Rightarrow> nat \<Rightarrow> bool \<Rightarrow> nat" where
  "next_d prev d lv = (if lv = prev then d + 1 else 1)"

lemma handler_step:
  assumes "tracks bs prev d n (gpi_utc s)" "in_time n lv (gpi_utc s)" "d < 255"
    and "next_d prev d lv mod 8 = 4 \<Longrightarrow> length bs < 32"
  obtains (quiet) g where "next_d prev d lv mod 8 \<noteq> 4"
      "soft_sample_timer_handler (lv # later) s = Inr (later, s\<lparr>gpi_utc := g\<rparr>)"
      "tracks bs lv (next_d prev d lv) (n + 1) g" "same_setup (gpi_utc s) g"
  | (unmatched) g where "next_d prev d lv mod 8 = 4" "window_id (third_chars s) (bs @ [lv]) = 0"
      "soft_sample_timer_handler (lv # later) s = Inr (later, s\<lparr>gpi_utc := g\<rparr>)"
      "tracks (bs @ [lv]) lv (next_d prev d lv) (n + 1) g" "same_setup (gpi_utc s) g"
  | (found) g where "next_d prev d lv mod 8 = 4" "window_id (third_chars s) (bs @ [lv]) \<noteq> 0"
      "soft_sample_timer_handler (lv # later) s = char_found lv later (s\<lparr>gpi_utc := g\<rparr>)"
      "special_id g = window_id (third_chars s) (bs @ [lv])" "same_setup (gpi_utc s) g"
proof -
  define g0 where "g0 = gpi_utc s"
  define g1 where "g1 = g0\<lparr>sample_cnt := sample_cnt g0 + 1\<rparr>"
  define g2 where "g2 = track_level lv g1"
  define g3 where "g3 = (write_rcv_bit (unat (bit_num_cnt g2)) lv g2)\<lparr>bit_num_cnt := bit_num_cnt g2 + 1\<rparr>"
  note t0 = assms(1) [folded g0_def] and i0 = assms(2) [folded g0_def]
  have t1: "time_limits g1 = g1" "tracks bs prev d n g1"
    using count_sample [OF t0 i0] by (simp_all add: g1_def)
  have s1: "same_setup g0 g1" by (simp add: g1_def same_setup_def)
  have st: "start_sampling lv g1 = g1" "flag SAMPLE_START g1" "\<not> flag SAMPLE_END g1"
    using t1(2) by (simp_all add: start_sampling_def tracks_def)
  have t2: "tracks bs lv (next_d prev d lv) (n + 1) g2" "same_setup g1 g2"
    using tracks_level [OF t1(2), of lv] i0 assms(3) by (auto simp: g2_def next_d_def in_time_def)
  have d2: "unat (data_cnt g2) = next_d prev d lv" using t2(1) by (simp add: tracks_def)
  have s2: "same_setup g0 g2" using s1 t2(2) by (rule same_setup_trans)
  have b3: "bit_num_cnt g2 + 1 = bit_num_cnt g3" by (simp add: g3_def)
  have w3: "(write_rcv_bit (unat (bit_num_cnt g2)) lv g2)\<lparr>bit_num_cnt := bit_num_cnt g3\<rparr> = g3"
    unfolding b3 [symmetric] by (simp add: g3_def)
  have h: "soft_sample_timer_handler (lv # later) s =
      (if next_d prev d lv mod 8 \<noteq> 4 then Inr (later, s\<lparr>gpi_utc := g2\<rparr>)
       else if bit_num_cnt g3 < 10 then Inr (later, s\<lparr>gpi_utc := g3\<rparr>)
       else if special_id (check_char (third_chars s) g3) = 0
         then Inr (later, s\<lparr>gpi_utc := check_char (third_chars s) g3\<rparr>)
       else char_found lv later (s\<lparr>gpi_utc := check_char (third_chars s) g3\<rparr>))"
    using t1(1) st d2 b3 w3
    by (simp add: soft_sample_timer_handler_def Let_def sample_bounds flip: g0_def g1_def g2_def)
  show thesis
  proof (cases "next_d prev d lv mod 8 = 4")
    case False
    then show ?thesis using quiet [OF _ _ t2(1)] h s2 by (simp add: g0_def)
  next
    case True
    then have b: "length bs < 32" using assms(4) by simp
    have t3: "tracks (bs @ [lv]) lv (next_d prev d lv) (n + 1) g3" "same_setup g2 g3"
      using tracks_bit [OF t2(1) b, of lv] by (simp_all add: g3_def)
    have s3: "same_setup g0 g3" using s2 t3(2) by (rule same_setup_trans)
    have n3: "unat (bit_num_cnt g3) = length bs + 1" "special_id g3 = 0"
      using t3(1) by (simp_all add: tracks_def)
    have c: "check_char (third_chars s) g3 =
        (if window_id (third_chars s) (bs @ [lv]) = 0 then g3
         else g3\<lparr>special_id := window_id (third_chars s) (bs @ [lv])\<rparr>)" if "10 \<le> length bs + 1"
      using tracks_check [OF t3(1)] that b by simp
    show ?thesis
    proof (cases "window_id (third_chars s) (bs @ [lv]) = 0")
      case w: True
      then have "soft_sample_timer_handler (lv # later) s = Inr (later, s\<lparr>gpi_utc := g3\<rparr>)"
        using True h n3 c by (cases "bit_num_cnt g3 < 10") (simp_all add: word_less_nat_alt)
      from unmatched [OF True w this t3(1) s3 [unfolded g0_def]] show ?thesis .
    next
      case w: False
      then have "10 \<le> length bs + 1" using window_short [of "bs @ [lv]"] by fastforce
      then have "soft_sample_timer_handler (lv # later) s =
          char_found lv later (s\<lparr>gpi_utc := g3\<lparr>special_id := window_id (third_chars s) (bs @ [lv])\<rparr>\<rparr>)"
        using True h n3(1) c w by (simp add: word_less_nat_alt)
      moreover have "same_setup g0 (g3\<lparr>special_id := window_id (third_chars s) (bs @ [lv])\<rparr>)"
        using s3 by (simp add: same_setup_def)
      ultimately show ?thesis using found [OF True w] by (simp add: g0_def)
    qed
  qed
qed

section \<open>The loop follows the decoder\<close>

lemma sample_loop_step:
  "\<not> flag SAMPLE_END (gpi_utc s) \<Longrightarrow> soft_sample_timer_handler levels s = Inr (rest, s') \<Longrightarrow>
     sample_loop levels s = sample_loop rest s'"
  by (subst sample_loop.simps) simp

lemma sample_loop_end: "flag SAMPLE_END (gpi_utc s) \<Longrightarrow> sample_loop levels s = Inr (levels, s)"
  by (subst sample_loop.simps) simp

lemma bits_read_step:
  "bits_read prev d (lv # ls) = of_bool (next_d prev d lv mod 8 = 4) + bits_read lv (next_d prev d lv) ls"
  by (simp add: next_d_def Let_def)

lemma decode_step:
  "decode chars bs prev d (lv # ls) =
     (if next_d prev d lv mod 8 \<noteq> 4 then decode chars bs lv (next_d prev d lv) ls
      else if window_id chars (bs @ [lv]) \<noteq> 0
        then Some (window_id chars (bs @ [lv]), if lv then ls else dropWhile Not ls)
        else decode chars (bs @ [lv]) lv (next_d prev d lv) ls)"
  by (simp add: next_d_def Let_def)

lemma next_d_le: "d \<le> n \<Longrightarrow> next_d prev d lv \<le> n + 1"
  by (simp add: next_d_def)

lemma char_found_works:
  assumes "unat (wakeup_rea (gpi_utc s)) < length (success_cnt (gpi_utc s))" "lv \<or> dropWhile Not later \<noteq> []"
  shows "\<exists>g. char_found lv later s =
       Inr (if lv then later else dropWhile Not later,
            s\<lparr>clk_div := backup_sys_div (gpi_utc s), csp_mode1 := backup_csp_mode (gpi_utc s), gpi_utc := g\<rparr>)
     \<and> same_setup (gpi_utc s) g \<and> special_id g = special_id (gpi_utc s) \<and> flag SAMPLE_END g"
  using assms by (auto simp: char_found_def Let_def count_one_def same_setup_def sample_flag_bits)

lemma loop_finds:
  assumes "tracks bs prev d n (gpi_utc s)" "decode (third_chars s) bs prev d ls \<noteq> None"
    and "decode (third_chars s) bs prev d (ls @ tail) = Some (i, rest)" "rest \<noteq> []"
    and "length bs + bits_read prev d ls \<le> 32" "n + length ls \<le> 241" "d \<le> n"
    and "n \<noteq> 0 \<or> \<not> hd ls \<and> unat (sample_cnt (gpi_utc s)) < 80"
    and "unat (wakeup_rea (gpi_utc s)) < length (success_cnt (gpi_utc s))"
  shows "\<exists>g. sample_loop (ls @ tail) s =
       Inr (rest, s\<lparr>clk_div := backup_sys_div (gpi_utc s), csp_mode1 := backup_csp_mode (gpi_utc s), gpi_utc := g\<rparr>)
     \<and> same_setup (gpi_utc s) g \<and> special_id g = i"
  using assms
proof (induction ls arbitrary: bs prev d n s)
  case Nil
  then show ?case by simp
next
  case (Cons lv ls)
  have live: "\<not> flag SAMPLE_END (gpi_utc s)" using Cons.prems(1) by (simp add: tracks_def)
  have time: "in_time n lv (gpi_utc s)" "d < 255"
    using Cons.prems(6-8) by (auto simp: in_time_def)
  have room: "next_d prev d lv mod 8 = 4 \<Longrightarrow> length bs < 32"
    using Cons.prems(5) by (simp only: bits_read_step) simp
  note n1 = next_d_le [OF Cons.prems(7), of prev lv]
  have go: ?case if h: "soft_sample_timer_handler (lv # (ls @ tail)) s = Inr (ls @ tail, s\<lparr>gpi_utc := g\<rparr>)"
    and t: "tracks bs' lv (next_d prev d lv) (n + 1) g" and k: "same_setup (gpi_utc s) g"
    and d: "decode (third_chars s) bs prev d (lv # ls) = decode (third_chars s) bs' lv (next_d prev d lv) ls"
      "decode (third_chars s) bs prev d (lv # ls @ tail) = decode (third_chars s) bs' lv (next_d prev d lv) (ls @ tail)"
    and b: "length bs' + bits_read lv (next_d prev d lv) ls \<le> 32" for g bs'
  proof -
    have "\<exists>h. sample_loop (ls @ tail) (s\<lparr>gpi_utc := g\<rparr>) =
         Inr (rest, s\<lparr>gpi_utc := g, clk_div := backup_sys_div g, csp_mode1 := backup_csp_mode g, gpi_utc := h\<rparr>)
       \<and> same_setup g h \<and> special_id h = i"
      using Cons.IH [of bs' lv "next_d prev d lv" "n + 1" "s\<lparr>gpi_utc := g\<rparr>"] t k d b n1 Cons.prems
      by (simp add: same_setup_def)
    then show ?thesis
      using sample_loop_step [OF live h] k by (auto simp: same_setup_def)
  qed
  show ?case
  proof (rule handler_step [OF Cons.prems(1) time room, where later = "ls @ tail"])
    fix g
    assume "next_d prev d lv mod 8 \<noteq> 4" "tracks bs lv (next_d prev d lv) (n + 1) g" "same_setup (gpi_utc s) g"
      "soft_sample_timer_handler (lv # (ls @ tail)) s = Inr (ls @ tail, s\<lparr>gpi_utc := g\<rparr>)"
    then show ?case using go [of g bs] Cons.prems(5) by (simp add: decode_step bits_read_step del: decode.simps bits_read.simps)
  next
    fix g
    assume "next_d prev d lv mod 8 = 4" "window_id (third_chars s) (bs @ [lv]) = 0"
      "tracks (bs @ [lv]) lv (next_d prev d lv) (n + 1) g" "same_setup (gpi_utc s) g"
      "soft_sample_timer_handler (lv # (ls @ tail)) s = Inr (ls @ tail, s\<lparr>gpi_utc := g\<rparr>)"
    then show ?case
      using go [of g "bs @ [lv]"] Cons.prems(5) by (simp add: decode_step bits_read_step del: decode.simps bits_read.simps)
  next
    fix g
    assume f: "next_d prev d lv mod 8 = 4" "window_id (third_chars s) (bs @ [lv]) \<noteq> 0"
      "soft_sample_timer_handler (lv # (ls @ tail)) s = char_found lv (ls @ tail) (s\<lparr>gpi_utc := g\<rparr>)"
      "special_id g = window_id (third_chars s) (bs @ [lv])" "same_setup (gpi_utc s) g"
    have i: "i = special_id g" "rest = (if lv then ls @ tail else dropWhile Not (ls @ tail))"
      using f Cons.prems(3) by (auto simp: decode_step simp del: decode.simps)
    have w: "unat (wakeup_rea g) < length (success_cnt g)"
      using f(5) Cons.prems(9) by (simp add: same_setup_def)
    have r: "lv \<or> dropWhile Not (ls @ tail) \<noteq> []"
      using i(2) Cons.prems(4) by (auto simp del: dropWhile_eq_Nil_conv)
    obtain h where h: "char_found lv (ls @ tail) (s\<lparr>gpi_utc := g\<rparr>) =
         Inr (rest, s\<lparr>gpi_utc := g, clk_div := backup_sys_div g, csp_mode1 := backup_csp_mode g, gpi_utc := h\<rparr>)"
      and hs: "same_setup g h" "special_id h = special_id g" "flag SAMPLE_END h"
      using char_found_works [of "s\<lparr>gpi_utc := g\<rparr>" lv "ls @ tail"] w r i(2)
      by (auto simp del: dropWhile_eq_Nil_conv)
    have "sample_loop (lv # (ls @ tail)) s =
        Inr (rest, s\<lparr>gpi_utc := g, clk_div := backup_sys_div g, csp_mode1 := backup_csp_mode g, gpi_utc := h\<rparr>)"
      using sample_loop_step [OF live f(3) [unfolded h]] hs(3) by (simp add: sample_loop_end)
    then show ?case
      using same_setup_trans [OF f(5) hs(1)] hs(2) i(1) f(5) by (auto simp: same_setup_def)
  qed
qed

text \<open>No character within 241 samples: the next interrupt gives up.\<close>

lemma give_up:
  assumes "tracks bs prev d 241 g"
  shows "time_limits (g\<lparr>sample_cnt := sample_cnt g + 1\<rparr>) = sample_failed SAMPLE_FAIL_WITH_DATA (g\<lparr>sample_cnt := sample_cnt g + 1\<rparr>)"
  using assms by (auto simp: tracks_def time_limits_def Let_def sample_bounds)

lemma failed_end [simp]: "flag SAMPLE_END (sample_failed r g)"
  by (simp add: sample_failed_def sample_flag_bits)

lemma loop_gives_up:
  assumes "tracks bs prev d n (gpi_utc s)" "decode (third_chars s) bs prev d ls = None"
    and "length bs + bits_read prev d ls \<le> 32" "n + length ls = 241" "d \<le> n"
    and "n \<noteq> 0 \<or> \<not> hd ls \<and> unat (sample_cnt (gpi_utc s)) < 80"
  shows "\<exists>g. sample_loop (ls @ x # tail) s = Inr (tail, s\<lparr>gpi_utc := sample_failed SAMPLE_FAIL_WITH_DATA g\<rparr>)
     \<and> same_setup (gpi_utc s) g \<and> special_id g = 0"
  using assms
proof (induction ls arbitrary: bs prev d n s)
  case Nil
  let ?g = "gpi_utc s\<lparr>sample_cnt := sample_cnt (gpi_utc s) + 1\<rparr>"
  have t: "tracks bs prev d 241 (gpi_utc s)" using Nil.prems(1,4) by simp
  then have live: "\<not> flag SAMPLE_END (gpi_utc s)" "special_id ?g = 0" by (simp_all add: tracks_def)
  have "soft_sample_timer_handler (x # tail) s = Inr (tail, s\<lparr>gpi_utc := sample_failed SAMPLE_FAIL_WITH_DATA ?g\<rparr>)"
    by (simp add: soft_sample_timer_handler_def Let_def give_up [OF t])
  then show ?case
    using sample_loop_step [OF live(1)] live(2)
    by (intro exI [of _ ?g]) (simp add: sample_loop_end same_setup_def)
next
  case (Cons lv ls)
  have live: "\<not> flag SAMPLE_END (gpi_utc s)" using Cons.prems(1) by (simp add: tracks_def)
  have time: "in_time n lv (gpi_utc s)" "d < 255"
    using Cons.prems(4-6) by (auto simp: in_time_def)
  have room: "next_d prev d lv mod 8 = 4 \<Longrightarrow> length bs < 32"
    using Cons.prems(3) by (simp only: bits_read_step) simp
  note n1 = next_d_le [OF Cons.prems(5), of prev lv]
  have go: ?case if h: "soft_sample_timer_handler (lv # (ls @ x # tail)) s = Inr (ls @ x # tail, s\<lparr>gpi_utc := g\<rparr>)"
    and t: "tracks bs' lv (next_d prev d lv) (n + 1) g" and k: "same_setup (gpi_utc s) g"
    and d: "decode (third_chars s) bs' lv (next_d prev d lv) ls = None"
    and b: "length bs' + bits_read lv (next_d prev d lv) ls \<le> 32" for g bs'
  proof -
    have "\<exists>h. sample_loop (ls @ x # tail) (s\<lparr>gpi_utc := g\<rparr>) =
         Inr (tail, s\<lparr>gpi_utc := g, gpi_utc := sample_failed SAMPLE_FAIL_WITH_DATA h\<rparr>)
       \<and> same_setup g h \<and> special_id h = 0"
      using Cons.IH [of bs' lv "next_d prev d lv" "n + 1" "s\<lparr>gpi_utc := g\<rparr>"] t k d b n1 Cons.prems(4) by simp
    then show ?thesis
      using sample_loop_step [OF live h] same_setup_trans [OF k] by auto
  qed
  show ?case
  proof (rule handler_step [OF Cons.prems(1) time room, where later = "ls @ x # tail"])
    fix g
    assume "next_d prev d lv mod 8 \<noteq> 4" "tracks bs lv (next_d prev d lv) (n + 1) g" "same_setup (gpi_utc s) g"
      "soft_sample_timer_handler (lv # (ls @ x # tail)) s = Inr (ls @ x # tail, s\<lparr>gpi_utc := g\<rparr>)"
    then show ?case
      using go [of g bs] Cons.prems(2,3) by (simp add: decode_step bits_read_step del: decode.simps bits_read.simps)
  next
    fix g
    assume "next_d prev d lv mod 8 = 4" "window_id (third_chars s) (bs @ [lv]) = 0"
      "tracks (bs @ [lv]) lv (next_d prev d lv) (n + 1) g" "same_setup (gpi_utc s) g"
      "soft_sample_timer_handler (lv # (ls @ x # tail)) s = Inr (ls @ x # tail, s\<lparr>gpi_utc := g\<rparr>)"
    then show ?case
      using go [of g "bs @ [lv]"] Cons.prems(2,3)
      by (simp add: decode_step bits_read_step del: decode.simps bits_read.simps)
  next
    assume "next_d prev d lv mod 8 = 4" "window_id (third_chars s) (bs @ [lv]) \<noteq> 0"
    then show ?case using Cons.prems(2) by (simp add: decode_step del: decode.simps)
  qed
qed

section \<open>Before the first falling edge\<close>

definition prepared :: "nat \<Rightarrow> soft_sample_t \<Rightarrow> bool" where
  "prepared k g \<longleftrightarrow>
     \<not> flag SAMPLE_START g \<and> \<not> flag SAMPLE_END g \<and> flag SAMPLE_LAST_LEVEL g
     \<and> special_id g = 0 \<and> start_cnt g = 0 \<and> data_cnt g = 0 \<and> unat (sample_cnt g) = k"

text \<open>After the first high level the handler tracks a line with one idle bit and no sample.\<close>

definition waits :: "nat \<Rightarrow> soft_sample_t \<Rightarrow> bool" where
  "waits k g \<longleftrightarrow> tracks [True] True 0 0 g \<and> unat (sample_cnt g) = k"

lemma unat_zero_word: "unat w = 0 \<longleftrightarrow> w = 0"
  by (simp add: unat_eq_zero)

lemma within_limits:
  "unat (sample_cnt g) < 80 \<Longrightarrow> start_cnt g = 0 \<Longrightarrow>
     time_limits (g\<lparr>sample_cnt := sample_cnt g + 1\<rparr>) = g\<lparr>sample_cnt := sample_cnt g + 1\<rparr>
     \<and> unat (sample_cnt g + 1) = unat (sample_cnt g) + 1"
  using unat_next [of "sample_cnt g"] by (simp add: time_limits_def Let_def sample_bounds)

lemma handler_low:
  assumes "prepared k (gpi_utc s)" "k < 80"
  shows "\<exists>g. soft_sample_timer_handler (False # later) s = Inr (later, s\<lparr>gpi_utc := g\<rparr>)
     \<and> prepared (k + 1) g \<and> same_setup (gpi_utc s) g"
  using assms within_limits [of "gpi_utc s"]
  by (auto simp: prepared_def soft_sample_timer_handler_def Let_def start_sampling_def same_setup_def)

lemma handler_high:
  assumes "prepared k (gpi_utc s) \<or> waits k (gpi_utc s)" "k < 80"
  shows "\<exists>g. soft_sample_timer_handler (True # later) s = Inr (later, s\<lparr>gpi_utc := g\<rparr>)
     \<and> waits (k + 1) g \<and> same_setup (gpi_utc s) g"
proof -
  let ?c = "gpi_utc s\<lparr>sample_cnt := sample_cnt (gpi_utc s) + 1\<rparr>"
  let ?g = "start_sampling True ?c"
  have z: "start_cnt (gpi_utc s) = 0" "data_cnt (gpi_utc s) = 0" "\<not> flag SAMPLE_END (gpi_utc s)"
    "unat (sample_cnt (gpi_utc s)) < 80"
    using assms by (auto simp: prepared_def waits_def tracks_def unat_zero_word)
  have c: "time_limits ?c = ?c" "unat (sample_cnt ?c) = k + 1"
    using assms within_limits [OF z(4,1)] by (auto simp: prepared_def waits_def)
  have f: "flag SAMPLE_START ?g" "start_cnt ?g = 0" "data_cnt ?g = 0"
    using z by (auto simp: start_sampling_def sample_flag_bits)
  have "soft_sample_timer_handler (True # later) s = Inr (later, s\<lparr>gpi_utc := ?g\<rparr>)"
    using c(1) z(3) f by (simp add: soft_sample_timer_handler_def track_level_def Let_def sample_bounds)
  moreover have "waits (k + 1) ?g"
    using assms(1) c(2) by (auto simp: prepared_def waits_def tracks_def start_sampling_def sample_flag_bits)
  moreover have "same_setup (gpi_utc s) ?g"
    by (simp add: start_sampling_def same_setup_def sample_flag_bits)
  ultimately show ?thesis by blast
qed

text \<open>The line stays low, or high, too long.\<close>

lemma handler_idle:
  assumes "prepared 80 (gpi_utc s) \<or> waits 80 (gpi_utc s)"
  shows "\<exists>g. soft_sample_timer_handler (lv # later) s = Inr (later, s\<lparr>gpi_utc := sample_failed SAMPLE_FAIL_ALL_IDLE g\<rparr>)
     \<and> same_setup (gpi_utc s) g \<and> special_id g = 0"
proof -
  have "unat (sample_cnt (gpi_utc s) + 1) = 81" "start_cnt (gpi_utc s) = 0" "special_id (gpi_utc s) = 0"
    using assms unat_next [of "sample_cnt (gpi_utc s)"]
    by (auto simp: prepared_def waits_def tracks_def unat_zero_word)
  then show ?thesis
    by (intro exI [of _ "gpi_utc s\<lparr>sample_cnt := sample_cnt (gpi_utc s) + 1\<rparr>"])
      (simp add: soft_sample_timer_handler_def Let_def time_limits_def sample_bounds same_setup_def sample_failed_def
        sample_flag_bits)
qed

lemma loop_lows:
  assumes "prepared k (gpi_utc s)" "k + a \<le> 80"
  shows "\<exists>g. sample_loop (replicate a False @ L) s = sample_loop L (s\<lparr>gpi_utc := g\<rparr>)
     \<and> prepared (k + a) g \<and> same_setup (gpi_utc s) g"
  using assms
proof (induction a arbitrary: k s)
  case 0
  then show ?case by (intro exI [of _ "gpi_utc s"]) simp
next
  case (Suc a)
  have live: "\<not> flag SAMPLE_END (gpi_utc s)" using Suc.prems(1) by (simp add: prepared_def)
  obtain g where g: "soft_sample_timer_handler (False # replicate a False @ L) s = Inr (replicate a False @ L, s\<lparr>gpi_utc := g\<rparr>)"
      "prepared (k + 1) g" "same_setup (gpi_utc s) g"
    using handler_low [OF Suc.prems(1)] Suc.prems(2) by fastforce
  then show ?case
    using Suc.IH [of "k + 1" "s\<lparr>gpi_utc := g\<rparr>"] Suc.prems(2) sample_loop_step [OF live g(1)] same_setup_trans [OF g(3)]
    by auto
qed

lemma loop_highs:
  assumes "prepared k (gpi_utc s) \<and> 0 < b \<or> waits k (gpi_utc s)" "k + b \<le> 80"
  shows "\<exists>g. sample_loop (replicate b True @ L) s = sample_loop L (s\<lparr>gpi_utc := g\<rparr>)
     \<and> waits (k + b) g \<and> same_setup (gpi_utc s) g"
  using assms
proof (induction b arbitrary: k s)
  case 0
  then show ?case by (intro exI [of _ "gpi_utc s"]) simp
next
  case (Suc b)
  have live: "\<not> flag SAMPLE_END (gpi_utc s)"
    using Suc.prems(1) by (auto simp: prepared_def waits_def tracks_def)
  obtain g where g: "soft_sample_timer_handler (True # replicate b True @ L) s = Inr (replicate b True @ L, s\<lparr>gpi_utc := g\<rparr>)"
      "waits (k + 1) g" "same_setup (gpi_utc s) g"
    using handler_high [of k s "replicate b True @ L"] Suc.prems by fastforce
  then show ?case
    using Suc.IH [of "k + 1" "s\<lparr>gpi_utc := g\<rparr>"] Suc.prems(2) sample_loop_step [OF live g(1)] same_setup_trans [OF g(3)]
    by auto
qed

text \<open>The line as the sampler may meet it: low for \<open>a\<close> samples, high for \<open>b\<close>, then a falling edge.\<close>

lemma loop_until_edge:
  assumes "prepared 0 (gpi_utc s)" "0 < b" "a + b < 80"
  shows "\<exists>g. sample_loop (replicate a False @ replicate b True @ L) s = sample_loop L (s\<lparr>gpi_utc := g\<rparr>)
     \<and> waits (a + b) g \<and> same_setup (gpi_utc s) g"
proof -
  obtain g where g: "sample_loop (replicate a False @ replicate b True @ L) s = sample_loop (replicate b True @ L) (s\<lparr>gpi_utc := g\<rparr>)"
      "prepared a g" "same_setup (gpi_utc s) g"
    using loop_lows [OF assms(1), of a "replicate b True @ L"] assms(3) by auto
  moreover obtain h where "sample_loop (replicate b True @ L) (s\<lparr>gpi_utc := g\<rparr>) = sample_loop L (s\<lparr>gpi_utc := g, gpi_utc := h\<rparr>)"
      "waits (a + b) h" "same_setup g h"
    using loop_highs [of a "s\<lparr>gpi_utc := g\<rparr>" b L] g(2) assms(2,3) by auto
  ultimately show ?thesis using same_setup_trans [of "gpi_utc s" g h] by auto
qed

section \<open>soft_sample_init\<close>

definition sampling_start :: "bool \<Rightarrow> soft \<Rightarrow> soft" where
  "sampling_start pll s =
     (let s = snd (BackupIntEnable s);
          s = upd_sample (\<lambda>g. g\<lparr>backup_sys_div := (if xtal_only s then clk_div s else clk_div s AND 0xFE),
                               backup_csp_mode := csp_mode1 s OR push_bit 5 1\<rparr>) s;
          s = upd_sample (prepare_sample pll) s;
          i = unat (wakeup_rea (gpi_utc s))
      in start_sample_clock pll (upd_sample (\<lambda>g. g\<lparr>enter_cnt := (enter_cnt g)[i := enter_cnt g ! i + 1]\<rparr>) s))"

definition sampling_finish :: "int_regs \<Rightarrow> soft \<Rightarrow> soft" where
  "sampling_finish backup s =
     (let s = after_sample (s\<lparr>ints := (ints s)\<lparr>systick_ctrl := 0\<rparr>\<rparr>)
      in give_sem (RestoreIntEnable backup (upd_sample (\<lambda>g. g\<lparr>backup_special_id := special_id g\<rparr>) s)))"

definition counters_ok :: "soft_sample_t \<Rightarrow> bool" where
  "counters_ok g \<longleftrightarrow> unat (wakeup_rea g) < length (enter_cnt g) \<and> unat (wakeup_rea g) < length (success_cnt g)
     \<and> length (fail_rea g) = 2 \<and> \<not> flag SAMPLE_GIVE_SEM g"

lemma prepare_sample_fields [simp]:
  "wakeup_rea (prepare_sample p g) = wakeup_rea g" "enter_cnt (prepare_sample p g) = enter_cnt g"
  "success_cnt (prepare_sample p g) = success_cnt g" "fail_rea (prepare_sample p g) = fail_rea g"
  "backup_csp_mode (prepare_sample p g) = backup_csp_mode g" "backup_sys_div (prepare_sample p g) = backup_sys_div g"
  "wakeup_sta (prepare_sample p g) = wakeup_sta g"
  by (simp_all add: prepare_sample_def Let_def)

lemma init_eq:
  assumes "counters_ok (gpi_utc s)"
  shows "soft_sample_init pll levels s =
     bind_res (sample_loop levels (sampling_start pll s)) (\<lambda>(rest, t). Inr (rest, sampling_finish (ints s) t))"
  using assms
  by (simp add: soft_sample_init_def sampling_start_def sampling_finish_def BackupIntEnable_def Let_def upd_sample_def
      counters_ok_def count_one_def)

lemma sampling_start_facts:
  assumes "counters_ok (gpi_utc s)"
  shows "prepared 0 (gpi_utc (sampling_start pll s))" "counters_ok (gpi_utc (sampling_start pll s))"
    "third_chars (sampling_start pll s) = third_chars s" "at_uart_sem (sampling_start pll s) = at_uart_sem s"
    "csp_mode1 (sampling_start pll s) = csp_mode1 s"
    "xtal_only (sampling_start pll s) = xtal_only s" "xtal_freq (sampling_start pll s) = xtal_freq s"
    "hclk (sampling_start pll s) = hclk s" "current_baudrate (sampling_start pll s) = current_baudrate s"
    "backup_csp_mode (gpi_utc (sampling_start pll s)) = csp_mode1 s OR 32"
    "backup_sys_div (gpi_utc (sampling_start pll s)) = (if xtal_only s then clk_div s else clk_div s AND 0xFE)"
    "flag SAMPLE_REASON (gpi_utc (sampling_start pll s)) = pll"
    "flag SAMPLE_FIRST_ENTER (gpi_utc (sampling_start pll s)) = (\<not> pll \<or> flag SAMPLE_FIRST_ENTER (gpi_utc s))"
    "flag SAMPLE_GPI_FAIL (gpi_utc (sampling_start pll s)) = flag SAMPLE_GPI_FAIL (gpi_utc s)"
    "wakeup_rea (gpi_utc (sampling_start pll s)) = wakeup_rea (gpi_utc s)"
    "fail_rea (gpi_utc (sampling_start pll s)) =
       (if pll \<and> flag SAMPLE_FIRST_ENTER (gpi_utc s) then fail_rea (gpi_utc s) else [0, 0])"
  using assms
  by (simp_all add: sampling_start_def BackupIntEnable_def Let_def upd_sample_def start_sample_clock_def clear_fail_def
      prepare_sample_def prepared_def counters_ok_def sample_flag_bits)

text \<open>
  What a call of \<open>soft_sample_init\<close> leaves: \<open>r\<close> is the code recorded for this sampling, \<open>i\<close> the number of the
  character, 0 if none was found.
\<close>

definition init_result :: "bool \<Rightarrow> u8 \<Rightarrow> u8 \<Rightarrow> soft \<Rightarrow> soft \<Rightarrow> bool" where
  "init_result pll r i s s' \<longleftrightarrow>
     ints s' = ints s \<and> third_chars s' = third_chars s \<and> xtal_only s' = xtal_only s
     \<and> current_baudrate s' = current_baudrate s
     \<and> special_id (gpi_utc s') = i \<and> backup_special_id (gpi_utc s') = i
     \<and> fail_rea (gpi_utc s') =
         (if pll \<and> flag SAMPLE_FIRST_ENTER (gpi_utc s) then fail_rea (gpi_utc s) else [0, 0])[of_bool pll := r]
     \<and> csp_mode1 s' = (if i \<noteq> 0 \<or> pll \<or> r = SAMPLE_FAIL_WITH_DATA then csp_mode1 s OR 32 else csp_mode1 s)
     \<and> clk_div s' = (if xtal_only s then clk_div s else clk_div s AND 0xFE)
     \<and> at_uart_sem s' = at_uart_sem s + of_bool (i \<noteq> 0)
     \<and> counters_ok (gpi_utc s') \<and> wakeup_rea (gpi_utc s') = wakeup_rea (gpi_utc s)
     \<and> flag SAMPLE_GPI_FAIL (gpi_utc s') = flag SAMPLE_GPI_FAIL (gpi_utc s)
     \<and> flag SAMPLE_FIRST_ENTER (gpi_utc s') = (\<not> pll \<or> flag SAMPLE_FIRST_ENTER (gpi_utc s))"

lemma same_setup_flags:
  "same_setup g h \<Longrightarrow> i \<in> {SAMPLE_REASON, SAMPLE_GIVE_SEM, SAMPLE_GPI_FAIL, SAMPLE_FIRST_ENTER} \<Longrightarrow> flag i h = flag i g"
  by (auto simp: same_setup_def sample_flag_bits)

lemma same_setup_counters: "same_setup g h \<Longrightarrow> counters_ok g \<Longrightarrow> counters_ok h"
  using same_setup_flags [of g h SAMPLE_GIVE_SEM] by (auto simp: same_setup_def counters_ok_def)

lemma sample_failed_fields [simp]:
  "special_id (sample_failed r g) = special_id g" "wakeup_rea (sample_failed r g) = wakeup_rea g"
  "backup_csp_mode (sample_failed r g) = backup_csp_mode g" "backup_sys_div (sample_failed r g) = backup_sys_div g"
  "fail_rea (sample_failed r g) = (fail_rea g)[of_bool (flag SAMPLE_REASON g) := r]"
  "enter_cnt (sample_failed r g) = enter_cnt g" "success_cnt (sample_failed r g) = success_cnt g"
  "flag i (sample_failed r g) = (i = SAMPLE_END \<or> flag i g)"
  by (simp_all add: sample_failed_def sample_flag_bits)

lemma finish_found:
  assumes "counters_ok (gpi_utc s)" "special_id h \<noteq> 0" "same_setup (gpi_utc (sampling_start pll s)) h"
  shows "init_result pll SAMPLE_SUCCESS (special_id h) s
     (sampling_finish (ints s) ((sampling_start pll s)\<lparr>clk_div := backup_sys_div (gpi_utc (sampling_start pll s)),
        csp_mode1 := backup_csp_mode (gpi_utc (sampling_start pll s)), gpi_utc := h\<rparr>))"
proof -
  note f = sampling_start_facts [OF assms(1), of pll]
  note k = same_setup_flags [OF assms(3)] same_setup_counters [OF assms(3) f(2)]
  have h: "fail_rea h = (if pll \<and> flag SAMPLE_FIRST_ENTER (gpi_utc s) then fail_rea (gpi_utc s) else [0, 0])"
    "wakeup_rea h = wakeup_rea (gpi_utc s)" "flag SAMPLE_REASON h = pll" "counters_ok h"
    "flag SAMPLE_FIRST_ENTER h = (\<not> pll \<or> flag SAMPLE_FIRST_ENTER (gpi_utc s))"
    "flag SAMPLE_GPI_FAIL h = flag SAMPLE_GPI_FAIL (gpi_utc s)"
    using assms(3) f k by (simp_all add: same_setup_def)
  show ?thesis
    using assms(2) f h
    by (simp add: init_result_def sampling_finish_def after_sample_def Let_def upd_sample_def RestoreIntEnable_def
        give_sem_def counters_ok_def sample_flag_bits)
qed

lemma finish_failed:
  assumes "counters_ok (gpi_utc s)" "special_id h = 0" "same_setup (gpi_utc (sampling_start pll s)) h"
    and "r = SAMPLE_FAIL_WITH_DATA \<or> r = SAMPLE_FAIL_ALL_IDLE"
  shows "init_result pll r 0 s (sampling_finish (ints s) ((sampling_start pll s)\<lparr>gpi_utc := sample_failed r h\<rparr>))"
proof -
  note f = sampling_start_facts [OF assms(1), of pll]
  note k = same_setup_flags [OF assms(3)] same_setup_counters [OF assms(3) f(2)]
  have h: "fail_rea h = (if pll \<and> flag SAMPLE_FIRST_ENTER (gpi_utc s) then fail_rea (gpi_utc s) else [0, 0])"
    "wakeup_rea h = wakeup_rea (gpi_utc s)" "flag SAMPLE_REASON h = pll" "counters_ok h"
    "flag SAMPLE_FIRST_ENTER h = (\<not> pll \<or> flag SAMPLE_FIRST_ENTER (gpi_utc s))"
    "flag SAMPLE_GPI_FAIL h = flag SAMPLE_GPI_FAIL (gpi_utc s)"
    "backup_csp_mode h = csp_mode1 s OR 32" "backup_sys_div h = (if xtal_only s then clk_div s else clk_div s AND 0xFE)"
    using assms(3) f k by (simp_all add: same_setup_def)
  show ?thesis
    using assms(2,4) f h
    by (cases pll)
      (auto simp: init_result_def sampling_finish_def after_sample_def Let_def upd_sample_def RestoreIntEnable_def
        give_sem_def counters_ok_def sample_flag_bits)
qed

text \<open>The three outcomes of a sampling, for a line that keeps the received bits within \<open>rcv_dat\<close>.\<close>

lemma waits_tracks: "waits k g \<Longrightarrow> tracks [True] True 0 0 g \<and> unat (sample_cnt g) = k"
  by (simp add: waits_def)

lemma init_reads:
  assumes "counters_ok (gpi_utc s)" "0 < b" "a + b < 80" "\<not> hd ls"
    and "decode (third_chars s) [True] True 0 ls \<noteq> None"
    and "decode (third_chars s) [True] True 0 (ls @ tail) = Some (i, rest)" "i \<noteq> 0" "rest \<noteq> []"
    and "bits_read True 0 ls \<le> 31" "length ls \<le> 241"
  shows "\<exists>s'. soft_sample_init pll (replicate a False @ replicate b True @ ls @ tail) s = Inr (rest, s')
     \<and> init_result pll SAMPLE_SUCCESS i s s'"
proof -
  let ?s = "sampling_start pll s"
  note f = sampling_start_facts [OF assms(1), of pll]
  obtain g where g: "sample_loop (replicate a False @ replicate b True @ ls @ tail) ?s = sample_loop (ls @ tail) (?s\<lparr>gpi_utc := g\<rparr>)"
      "waits (a + b) g" "same_setup (gpi_utc ?s) g"
    using loop_until_edge [OF f(1) assms(2,3), of "ls @ tail"] by blast
  obtain h where h: "sample_loop (ls @ tail) (?s\<lparr>gpi_utc := g\<rparr>) =
       Inr (rest, ?s\<lparr>gpi_utc := g, clk_div := backup_sys_div g, csp_mode1 := backup_csp_mode g, gpi_utc := h\<rparr>)"
      "same_setup g h" "special_id h = i"
    using loop_finds [of "[True]" True 0 0 "?s\<lparr>gpi_utc := g\<rparr>" ls tail i rest] waits_tracks [OF g(2)] assms(3-6,8-10)
      same_setup_counters [OF g(3) f(2)] f(3) by (auto simp: counters_ok_def)
  have "same_setup (gpi_utc ?s) h" using g(3) h(2) by (rule same_setup_trans)
  moreover have "backup_sys_div g = backup_sys_div (gpi_utc ?s)" "backup_csp_mode g = backup_csp_mode (gpi_utc ?s)"
    using g(3) by (simp_all add: same_setup_def)
  ultimately show ?thesis
    using finish_found [OF assms(1), of h pll] h assms(7) by (simp add: init_eq [OF assms(1)] g(1))
qed

lemma init_gives_up:
  assumes "counters_ok (gpi_utc s)" "0 < b" "a + b < 80" "\<not> hd ls"
    and "decode (third_chars s) [True] True 0 ls = None"
    and "bits_read True 0 ls \<le> 31" "length ls = 241"
  shows "\<exists>s'. soft_sample_init pll (replicate a False @ replicate b True @ ls @ x # tail) s = Inr (tail, s')
     \<and> init_result pll SAMPLE_FAIL_WITH_DATA 0 s s'"
proof -
  let ?s = "sampling_start pll s"
  note f = sampling_start_facts [OF assms(1), of pll]
  obtain g where g: "sample_loop (replicate a False @ replicate b True @ ls @ x # tail) ?s = sample_loop (ls @ x # tail) (?s\<lparr>gpi_utc := g\<rparr>)"
      "waits (a + b) g" "same_setup (gpi_utc ?s) g"
    using loop_until_edge [OF f(1) assms(2,3), of "ls @ x # tail"] by blast
  obtain h where h: "sample_loop (ls @ x # tail) (?s\<lparr>gpi_utc := g\<rparr>) =
       Inr (tail, ?s\<lparr>gpi_utc := g, gpi_utc := sample_failed SAMPLE_FAIL_WITH_DATA h\<rparr>)"
      "same_setup g h" "special_id h = 0"
    using loop_gives_up [of "[True]" True 0 0 "?s\<lparr>gpi_utc := g\<rparr>" ls x tail] waits_tracks [OF g(2)] assms(3-7) f(3) by auto
  have "same_setup (gpi_utc ?s) h" using g(3) h(2) by (rule same_setup_trans)
  then show ?thesis
    using finish_failed [OF assms(1), of h pll SAMPLE_FAIL_WITH_DATA] h by (simp add: init_eq [OF assms(1)] g(1))
qed

lemma init_idle:
  assumes "counters_ok (gpi_utc s)" "a + b = 80"
  shows "\<exists>s'. soft_sample_init pll (replicate a False @ replicate b True @ lv # tail) s = Inr (tail, s')
     \<and> init_result pll SAMPLE_FAIL_ALL_IDLE 0 s s'"
proof -
  let ?s = "sampling_start pll s"
  note f = sampling_start_facts [OF assms(1), of pll]
  have "\<exists>g. sample_loop (replicate a False @ replicate b True @ lv # tail) ?s = sample_loop (lv # tail) (?s\<lparr>gpi_utc := g\<rparr>)
     \<and> (prepared 80 g \<or> waits 80 g) \<and> same_setup (gpi_utc ?s) g"
  proof (cases "b = 0")
    case True
    then show ?thesis using loop_lows [OF f(1), of a "lv # tail"] assms(2) by auto
  next
    case False
    obtain g where g: "sample_loop (replicate a False @ replicate b True @ lv # tail) ?s = sample_loop (replicate b True @ lv # tail) (?s\<lparr>gpi_utc := g\<rparr>)"
        "prepared a g" "same_setup (gpi_utc ?s) g"
      using loop_lows [OF f(1), of a "replicate b True @ lv # tail"] assms(2) by auto
    moreover obtain h where "sample_loop (replicate b True @ lv # tail) (?s\<lparr>gpi_utc := g\<rparr>) = sample_loop (lv # tail) (?s\<lparr>gpi_utc := g, gpi_utc := h\<rparr>)"
        "waits 80 h" "same_setup g h"
      using loop_highs [of a "?s\<lparr>gpi_utc := g\<rparr>" b "lv # tail"] g(2) assms(2) False by auto
    ultimately show ?thesis using same_setup_trans [of "gpi_utc ?s" g h] by auto
  qed
  then obtain g where g: "sample_loop (replicate a False @ replicate b True @ lv # tail) ?s = sample_loop (lv # tail) (?s\<lparr>gpi_utc := g\<rparr>)"
      "prepared 80 g \<or> waits 80 g" "same_setup (gpi_utc ?s) g" by blast
  obtain h where h: "soft_sample_timer_handler (lv # tail) (?s\<lparr>gpi_utc := g\<rparr>) =
       Inr (tail, ?s\<lparr>gpi_utc := g, gpi_utc := sample_failed SAMPLE_FAIL_ALL_IDLE h\<rparr>)"
      "same_setup g h" "special_id h = 0"
    using handler_idle [of "?s\<lparr>gpi_utc := g\<rparr>" lv tail] g(2) by auto
  have "\<not> flag SAMPLE_END g" using g(2) by (auto simp: prepared_def waits_def tracks_def)
  then have "sample_loop (lv # tail) (?s\<lparr>gpi_utc := g\<rparr>) = Inr (tail, ?s\<lparr>gpi_utc := sample_failed SAMPLE_FAIL_ALL_IDLE h\<rparr>)"
    using sample_loop_step [OF _ h(1)] by (simp add: sample_loop_end)
  moreover have "same_setup (gpi_utc ?s) h" using g(3) h(2) by (rule same_setup_trans)
  ultimately show ?thesis
    using finish_failed [OF assms(1), of h pll SAMPLE_FAIL_ALL_IDLE] h(3) by (simp add: init_eq [OF assms(1)] g(1))
qed

lemma bits_read_hold: "bits_read lv d (replicate t lv @ rest) = ((d + t + 4) div 8 - (d + 4) div 8) + bits_read lv (d + t) rest"
proof (induction t arbitrary: d)
  case 0
  then show ?case by simp
next
  case (Suc t)
  have le: "(Suc d + 4) div 8 \<le> (Suc d + t + 4) div 8" by (intro div_le_mono) simp
  show ?case
  proof (cases "Suc d mod 8 = 4")
    case False
    then show ?thesis using Suc.IH [of "Suc d"] fourth_sample [of d] by simp
  next
    case True
    then have "(d + Suc t + 4) div 8 - (d + 4) div 8 = Suc ((Suc d + t + 4) div 8 - (Suc d + 4) div 8)"
      using fourth_sample [of d] le by (rule_tac count_next) simp_all
    then show ?thesis using True Suc.IH [of "Suc d"] le by simp
  qed
qed

lemma bits_read_line: "alternating prev ps \<Longrightarrow> bits_read prev d (line_of ps) = length (bits_of_pulses ps)"
proof (induction ps arbitrary: prev d)
  case Nil
  then show ?case by simp
next
  case (Cons p ps)
  obtain t lv where p: "p = (t, lv)" by (cases p)
  then obtain t' where t: "t = Suc t'" using Cons.prems by (cases t) auto
  show ?case
    using Cons.prems Cons.IH [of lv t] bits_read_hold [of lv 1 t' "line_of ps"] by (auto simp: p t)
qed

end
