(* ===== verification/SoftSampleProps.thy ===== *)
theory SoftSampleProps
  imports SoftSampleSpec
begin

text \<open>
  Properties of the line sampler: it ends, it finds the third character of an AT command wherever in the
  first two it starts and although every pulse may be up to four samples too short or three too long, and
  the one character for which it does not.
\<close>

text \<open>The characters of \<open>USERAPP/basic/src/xy_sys_hook.c\<close>, and a byte on the line.\<close>

definition g_AT_Req_third_chars :: "u8 list" where
  "g_AT_Req_third_chars = [0x2B, 0x0D, 0x44, 0x49, 0x45, 0x65]"

definition frame :: "u8 \<Rightarrow> bool list" where
  "frame c = False # map (bit c) [0..<8] @ [True]"

definition at_line :: "u8 \<Rightarrow> bool list" where
  "at_line c = frame 0x41 @ frame 0x54 @ frame c"

text \<open>The falling edges up to the start bit of the third character.\<close>

definition falling_edge :: "nat \<Rightarrow> bool" where
  "falling_edge j \<longleftrightarrow> j \<le> 20 \<and> (True # at_line 0) ! j \<and> \<not> at_line 0 ! j"

lemma falling_edges: "falling_edge j \<longleftrightarrow> j \<in> {0, 2, 8, 10, 14, 16, 18, 20}"
proof
  have all: "list_all (\<lambda>j. falling_edge j = (j \<in> {0, 2, 8, 10, 14, 16, 18, 20})) [0..<21]"
    by code_simp
  assume "falling_edge j"
  moreover from this have "j < 21" by (simp add: falling_edge_def)
  ultimately show "j \<in> {0, 2, 8, 10, 14, 16, 18, 20}" using all by (auto simp: list_all_iff simp del: insert_iff)
next
  assume "j \<in> {0, 2, 8, 10, 14, 16, 18, 20}"
  moreover have "list_all falling_edge [0, 2, 8, 10, 14, 16, 18, 20]" by code_simp
  ultimately show "falling_edge j" by auto
qed

lemma third_chars_ascii: "\<forall>c \<in> set g_AT_Req_third_chars. c < 128"
  by code_simp

lemma third_char_bits:
  "list_all (\<lambda>(c, i). list_all (\<lambda>j. push_bits g_AT_Req_third_chars [True] (drop j (at_line c)) = Inl (i, [True]))
     [0, 2, 8, 10, 14, 16, 18, 20]) [(0x2B, 1), (0x0D, 2), (0x49, 4), (0x45, 5), (0x65, 6)]"
  by code_simp

lemma no_line_no_bits: "line_of ps = [] \<Longrightarrow> bits_of_pulses ps = []"
  by (induction ps) auto

lemma length_frame [simp]: "length (frame c) = 10"
  by (simp add: frame_def)

lemma length_at_line [simp]: "length (at_line c) = 30"
  by (simp add: at_line_def)

lemma line_starts_low:
  "alternating True ps \<Longrightarrow> ps \<noteq> [] \<Longrightarrow> \<not> hd (line_of ps) \<and> line_of ps \<noteq> []"
  by (cases ps) (auto simp: gr0_conv_Suc)

text \<open>A character the decoder finds in the pulses is found by \<open>soft_sample_init\<close>.\<close>

lemma init_reads_pulses:
  assumes "counters_ok (gpi_utc s)" "third_chars s = g_AT_Req_third_chars" "0 < b" "a + b < 80"
    and "alternating True ps" "length (line_of ps) \<le> 241" "length (bits_of_pulses ps) \<le> 30" "i \<noteq> 0" "bs \<noteq> []"
    and found: "\<And>tail. \<exists>k. decode g_AT_Req_third_chars [True] True 0 (line_of ps @ tail) = Some (i, line_of (drop k ps) @ tail)
      \<and> bits_of_pulses (drop k ps) = bs"
  shows "\<exists>k s'. soft_sample_init pll (replicate a False @ replicate b True @ line_of ps @ tail) s = Inr (line_of (drop k ps) @ tail, s')
     \<and> bits_of_pulses (drop k ps) = bs \<and> init_result pll SAMPLE_SUCCESS i s s'"
proof -
  obtain k where k: "decode g_AT_Req_third_chars [True] True 0 (line_of ps @ tail) = Some (i, line_of (drop k ps) @ tail)"
      "bits_of_pulses (drop k ps) = bs"
    using found by blast
  have ne: "line_of (drop k ps) @ tail \<noteq> []" using k(2) assms(9) no_line_no_bits [of "drop k ps"] by auto
  have now: "decode g_AT_Req_third_chars [True] True 0 (line_of ps) \<noteq> None" using found [of "[]"] by auto
  then have "ps \<noteq> []" by auto
  then obtain s' where "soft_sample_init pll (replicate a False @ replicate b True @ line_of ps @ tail) s =
        Inr (line_of (drop k ps) @ tail, s')" "init_result pll SAMPLE_SUCCESS i s s'"
    using init_reads [OF assms(1,3,4), of "line_of ps" tail i "line_of (drop k ps) @ tail" pll] assms(2,5-8) k(1) ne now
      line_starts_low [OF assms(5)] bits_read_line [OF assms(5)] by auto
  then show ?thesis using k(2) by blast
qed

lemma third_char_read:
  assumes "counters_ok (gpi_utc s)" "third_chars s = g_AT_Req_third_chars"
    and "c \<in> {0x2B, 0x0D, 0x49, 0x45, 0x65}" "falling_edge j" "0 < b" "a + b < 80"
    and "alternating True ps" "bits_of_pulses ps = drop j (at_line c)" "length (line_of ps) \<le> 241"
  shows "\<exists>k s'. soft_sample_init pll (replicate a False @ replicate b True @ line_of ps @ tail) s =
       Inr (line_of (drop k ps) @ tail, s')
     \<and> bits_of_pulses (drop k ps) = [True]
     \<and> init_result pll SAMPLE_SUCCESS (match_third c g_AT_Req_third_chars 0 0) s s'"
proof -
  let ?i = "match_third c g_AT_Req_third_chars 0 0"
  have i: "?i \<noteq> 0" and p: "push_bits g_AT_Req_third_chars [True] (drop j (at_line c)) = Inl (?i, [True])"
    using third_char_bits assms(3,4) by (auto simp: g_AT_Req_third_chars_def falling_edges)
  have found: "\<exists>k. decode g_AT_Req_third_chars [True] True 0 (line_of ps @ tail) = Some (?i, line_of (drop k ps) @ tail)
      \<and> bits_of_pulses (drop k ps) = [True]" for tail
    using decode_line_stop [OF third_chars_ascii assms(7), of "[True]" ?i "[]" 0 tail] p assms(8) by simp
  show ?thesis
    by (rule init_reads_pulses [OF assms(1,2,5,6,7,9) _ i _ found]) (simp_all add: assms(8))
qed

section \<open>Properties\<close>

text \<open>
  If sampling starts anywhere while "AT" is on the line (low for \<open>a\<close> samples, high for \<open>b\<close>, then the falling
  edge before bit \<open>j\<close>) and the third character is one of + CR I E e, then \<open>soft_sample_init\<close> returns with the
  number of that character although each pulse may be four samples short or three long, the serial port is
  switched on exactly when the stop bit of that character begins, the task is woken once and the interrupt
  registers are as before.
\<close>

lemma third_char_found:
  assumes "counters_ok (gpi_utc s)" "third_chars s = g_AT_Req_third_chars"
    and "c \<in> {0x2B, 0x0D, 0x49, 0x45, 0x65}" "falling_edge j" "0 < b" "a + b < 80"
    and "alternating True ps" "bits_of_pulses ps = drop j (at_line c)" "length (line_of ps) \<le> 241"
  shows "\<exists>k s'. soft_sample_init pll (replicate a False @ replicate b True @ line_of ps @ tail) s =
       Inr (line_of (drop k ps) @ tail, s')
     \<and> bits_of_pulses (drop k ps) = [True]
     \<and> init_result pll SAMPLE_SUCCESS (match_third c g_AT_Req_third_chars 0 0) s s'"
  using assms by (rule third_char_read)

definition quiet_sample :: soft_sample_t where
  "quiet_sample = \<lparr>special_id = 0, bit_num_cnt = 0, sample_flag = 0, wakeup_rea = 1, wakeup_sta = 4, fail_rea = [0, 0],
     rcv_dat = 0, sample_cnt = 0, start_cnt = 0, data_cnt = 0, backup_special_id = 0, backup_sys_div = 0,
     reserved_byte = 0, backup_csp_mode = 0, enter_cnt = [0, 0, 0, 0], success_cnt = [0, 0, 0, 0]\<rparr>"

definition demo_soft :: soft where
  "demo_soft = \<lparr>gpi_utc = quiet_sample,
     ints = \<lparr>primask = True, nvic_enable = 5, systick_ctrl = 7, systick_load = 38399, vector15 = Vector 0x100\<rparr>,
     clk_div = 3, csp_mode1 = 0x40, at_uart_sem = 0, third_chars = g_AT_Req_third_chars, xtal_only = False,
     xtal_freq = 38400000, hclk = 38400000, current_baudrate = 9600\<rparr>"

lemma demo_counters: "counters_ok (gpi_utc demo_soft)"
  by (simp add: counters_ok_def demo_soft_def quiet_sample_def flag_def)

lemma demo_third [simp]: "third_chars demo_soft = g_AT_Req_third_chars"
  by (simp add: demo_soft_def)

text \<open>From the falling edge in the middle of "T": pulses with some error, then "+".\<close>

definition demo_pulses :: "pulse list" where
  "demo_pulses = [(7, False), (9, True), (6, False), (10, True), (8, False), (5, True), (9, False), (18, True),
     (8, False), (7, True), (11, False), (8, True), (15, False), (8, True)]"

lemma third_char_found_witness:
  "\<exists>k s'. soft_sample_init False (replicate 3 False @ replicate 5 True @ line_of demo_pulses @ [True]) demo_soft =
       Inr (line_of (drop k demo_pulses) @ [True], s')
     \<and> bits_of_pulses (drop k demo_pulses) = [True]
     \<and> init_result False SAMPLE_SUCCESS (match_third 0x2B g_AT_Req_third_chars 0 0) demo_soft s'"
  by (rule third_char_found [OF demo_counters demo_third, where j = 14])
    (code_simp | simp)+

lemma atd_bits:
  "list_all (\<lambda>j. push_bits g_AT_Req_third_chars [True] (drop j (at_line 0x44)) = Inl (5, [False, False, True, False, True]))
     [0, 2, 8, 10, 14, 16]"
  by code_simp

lemma low_pulse_rest:
  assumes "[False, False, True, False, True] = replicate m False @ bits_of_pulses qs" "alternating False qs"
    and "\<forall>(t, lv) \<in> set qs. 4 \<le> t"
  shows "bits_of_pulses qs = [True, False, True]"
proof (cases qs)
  case Nil
  then show ?thesis using assms(1) by (auto simp: Cons_replicate_eq dest: arg_cong [where f = set])
next
  case (Cons p qs')
  obtain t lv where p: "p = (t, lv)" by (cases p)
  have "lv" "1 \<le> (t + 4) div 8" using assms(2,3) by (auto simp: Cons p)
  then obtain n where q: "bits_of_pulses qs = True # replicate n True @ bits_of_pulses qs'"
    by (cases "(t + 4) div 8") (auto simp: Cons p)
  have "m = 2" using assms(1) unfolding q by (auto simp: Cons_eq_append_conv Cons_replicate_eq split: if_splits)
  then show ?thesis using assms(1) by (simp add: numeral_2_eq_2)
qed

text \<open>
  With D as the third character and sampling started before bit 17 of the line, the ten bits that begin in
  the middle of "T" look like a frame of E: \<open>soft_sample_init\<close> reports E and switches the serial port on
  inside D, at its bit 6.
\<close>

lemma atd_read_as_ate:
  assumes "counters_ok (gpi_utc s)" "third_chars s = g_AT_Req_third_chars"
    and "falling_edge j" "j < 17" "0 < b" "a + b < 80"
    and "alternating True ps" "bits_of_pulses ps = drop j (at_line 0x44)" "length (line_of ps) \<le> 241"
    and "\<forall>(t, lv) \<in> set ps. 4 \<le> t"
  shows "\<exists>k s'. soft_sample_init pll (replicate a False @ replicate b True @ line_of ps @ tail) s =
       Inr (line_of (drop k ps) @ tail, s')
     \<and> bits_of_pulses (drop k ps) = [True, False, True]
     \<and> init_result pll SAMPLE_SUCCESS (match_third 0x45 g_AT_Req_third_chars 0 0) s s'"
proof -
  have i: "match_third 0x45 g_AT_Req_third_chars 0 0 = 5" by (simp add: g_AT_Req_third_chars_def)
  have p: "push_bits g_AT_Req_third_chars [True] (bits_of_pulses ps) = Inl (5, [False, False, True, False, True])"
    using atd_bits assms(3,4,8) by (auto simp: falling_edges)
  have found: "\<exists>k. decode g_AT_Req_third_chars [True] True 0 (line_of ps @ tail) = Some (5, line_of (drop k ps) @ tail)
      \<and> bits_of_pulses (drop k ps) = [True, False, True]" for tail
  proof -
    obtain k m where k: "decode g_AT_Req_third_chars [True] True 0 (line_of ps @ tail) =
          Some (5, dropWhile Not (line_of (drop k ps) @ tail))"
        "[False, False, True, False, True] = replicate m False @ bits_of_pulses (drop k ps)" "alternating False (drop k ps)"
      using decode_line [OF third_chars_ascii assms(7) p, of 0 tail] by blast
    have b: "bits_of_pulses (drop k ps) = [True, False, True]"
      using low_pulse_rest [OF k(2,3)] assms(10) by (auto dest: in_set_dropD)
    have "dropWhile Not (line_of (drop k ps) @ tail) = line_of (drop k ps) @ tail"
      using b k(3) by (cases "drop k ps") (auto simp: gr0_conv_Suc)
    then show ?thesis using k(1) b by metis
  qed
  show ?thesis
    unfolding i by (rule init_reads_pulses [OF assms(1,2,5,6,7,9) _ _ _ found]) (simp_all add: assms(8))
qed

text \<open>"ATD" at the nominal rate, sampled from the idle line on.\<close>

definition atd_pulses :: "pulse list" where
  "atd_pulses = [(8, False), (8, True), (40, False), (8, True), (8, False), (8, True), (24, False), (8, True), (8, False),
     (8, True), (8, False), (8, True), (8, False), (8, True), (24, False), (8, True), (24, False), (8, True), (8, False), (8, True)]"

lemma atd_read_as_ate_witness:
  "\<exists>k s'. soft_sample_init True (replicate 0 False @ replicate 9 True @ line_of atd_pulses @ [True, True]) demo_soft =
       Inr (line_of (drop k atd_pulses) @ [True, True], s')
     \<and> bits_of_pulses (drop k atd_pulses) = [True, False, True]
     \<and> init_result True SAMPLE_SUCCESS (match_third 0x45 g_AT_Req_third_chars 0 0) demo_soft s'"
  by (rule atd_read_as_ate [OF demo_counters demo_third, where j = 0])
    (code_simp | simp)+






end
