(* ===== verification/AtUartProps.thy ===== *)
theory AtUartProps
  imports AtUart SoftSampleProps
begin

text \<open>
  Properties of the serial port: a command that wakes the chip is delivered whole, the bounds of the receive
  buffer, and the measurement of the baud rate.
\<close>

section \<open>The receive task\<close>



lemma read_fifo:
  assumes "at_uart_sem (rx_soft u) \<noteq> 0" "length (aucATBuffer u) = 100"
  shows "\<exists>u'. at_uart_read AT_BUFFER_LEN u = Inr (int (length (take 100 (rx_fifo u))), u')
     \<and> take (length (take 100 (rx_fifo u))) (aucATBuffer u') = take 100 (rx_fifo u) \<and> length (aucATBuffer u') = 100
     \<and> rx_fifo u' = drop 100 (rx_fifo u) \<and> at_recv u' = at_recv u
     \<and> third_chars (rx_soft u') = third_chars (rx_soft u) \<and> gpi_utc (rx_soft u') = gpi_utc (rx_soft u)"
  using assms by (simp add: at_uart_read_def AT_BUFFER_LEN_def blit_def min_def)

lemma log_keeps [simp]:
  "at_recv (soft_sample_print_wakeup_reason u) = at_recv u" "rx_fifo (soft_sample_print_wakeup_reason u) = rx_fifo u"
  "special_id (gpi_utc (rx_soft (soft_sample_print_wakeup_reason u))) = special_id (gpi_utc (rx_soft u))"
  by (simp_all add: soft_sample_print_wakeup_reason_def upd_sample_def)


section \<open>Properties of the receive task\<close>




text \<open>More than 97 characters behind a sampled one are written behind the buffer of the task.\<close>

lemma fill_char_overruns:
  assumes "at_uart_sem (rx_soft u) \<noteq> 0" "length (aucATBuffer u) = 100"
    and "special_id (gpi_utc (rx_soft u)) \<noteq> 0"
    and "unat (special_id (gpi_utc (rx_soft u))) \<le> length (third_chars (rx_soft u))" "98 \<le> length (rx_fifo u)"
  shows "AT_uart_rx_task u = Inl BadAccess"
proof -
  obtain v where v: "at_uart_read AT_BUFFER_LEN u = Inr (int (length (take 100 (rx_fifo u))), v)"
      "length (aucATBuffer v) = 100"
      "third_chars (rx_soft v) = third_chars (rx_soft u)" "gpi_utc (rx_soft v) = gpi_utc (rx_soft u)"
    using read_fifo [OF assms(1,2)] by auto
  have "unat (special_id (gpi_utc (rx_soft u))) \<noteq> 0" using assms(3) by (simp add: unat_eq_zero)
  then show ?thesis
    using v assms(4,5)
    by (simp add: AT_uart_rx_task_def soft_sample_fill_char_def Let_def csp_call_def put_back_def min_def)
qed

section \<open>Measuring the baud rate\<close>

definition turns :: "rx_sample list \<Rightarrow> nat" where
  "turns xs = length (filter countflag xs)"

lemma turns_simps [simp]:
  "turns [] = 0" "turns (x # xs) = of_bool (countflag x) + turns xs" "turns (xs @ ys) = turns xs + turns ys"
  by (simp_all add: turns_def)

lemma wait_while_run:
  "\<forall>x \<in> set xs. rxd x = lv \<Longrightarrow> rxd y \<noteq> lv \<Longrightarrow> n + turns (xs @ [y]) < 2 \<Longrightarrow>
     wait_while lv n (xs @ y # zs) = Inr (tick_val y, n + turns (xs @ [y]), zs)"
  by (induction xs arbitrary: n) (auto simp: Let_def)

text \<open>The line is low, gets high and falls at the tick \<open>t\<close>, each phase within two turns of SysTick.\<close>

definition falls_at :: "u32 \<Rightarrow> rx_sample list \<Rightarrow> bool" where
  "falls_at t xs \<longleftrightarrow>
     (\<exists>ls h hs e. xs = ls @ h # hs @ [e] \<and> (\<forall>x \<in> set ls. \<not> rxd x) \<and> rxd h \<and> (\<forall>x \<in> set hs. rxd x) \<and> \<not> rxd e
       \<and> tick_val e = t \<and> turns (ls @ [h]) < 2 \<and> turns (hs @ [e]) < 2)"

lemma next_falling_run: "falls_at t xs \<Longrightarrow> next_falling (xs @ ys) = Inr (Some t, ys)"
  using wait_while_run [where n = 0] by (fastforce simp: falls_at_def next_falling_def)

lemma wait_first_run: "\<forall>x \<in> set xs. rxd x \<Longrightarrow> \<not> rxd y \<Longrightarrow> wait_first (xs @ y # zs) = Inr (tick_val y, zs)"
  by (induction xs) auto

fun fall_count :: "bool \<Rightarrow> rx_sample list \<Rightarrow> nat" where
  "fall_count prev [] = 0"
| "fall_count prev (x # xs) = of_bool (prev \<and> \<not> rxd x) + fall_count (rxd x) xs"

text \<open>Samples that end with the tenth falling edge.\<close>

lemma count_edges_run:
  "xs \<noteq> [] \<Longrightarrow> e + fall_count prev xs = 10 \<Longrightarrow> e + fall_count prev (butlast xs) < 10 \<Longrightarrow> n + turns xs < 2 \<Longrightarrow>
     count_edges prev e n (xs @ zs) = Inr (True, zs)"
proof (induction xs arbitrary: prev e n)
  case Nil
  then show ?case by simp
next
  case (Cons x xs)
  show ?case
  proof (cases "xs = []")
    case True
    then show ?thesis using Cons.prems by simp
  next
    case False
    then show ?thesis
      using Cons.prems Cons.IH [of "e + of_bool (prev \<and> \<not> rxd x)" "rxd x" "n + of_bool (countflag x)"]
      by (auto simp: Let_def)
  qed
qed

text \<open>The states one after the other.\<close>

lemma loop_measures:
  assumes "wait_first xs = Inr (t0, ys)" "next_falling ys = Inr (Some t1, zs)" "next_falling zs = Inr (Some t2, vs)"
    and "verify_rate hz (t0, t1, t2) = Some r" "verify_edges vs = Inr (True, rest)"
  shows "autobaud_loop hz AUTOBAUD_STATE_INIT ts rate xs = Inr (r, rest)"
proof -
  obtain u0 u1 u2 where ts: "ts = (u0, u1, u2)" by (cases ts)
  have "autobaud_loop hz AUTOBAUD_STATE_VERIFY (t0, t1, t2) rate vs = Inr (r, rest)"
    by (subst autobaud_loop.simps) (simp add: assms(4,5))
  then have "autobaud_loop hz AUTOBAUD_STATE_WAITINT_THIRD (t0, t1, u2) rate zs = Inr (r, rest)"
    by (subst autobaud_loop.simps) (simp add: assms(3))
  then have "autobaud_loop hz AUTOBAUD_STATE_WAITINT_SECOND (t0, u1, u2) rate ys = Inr (r, rest)"
    by (subst autobaud_loop.simps) (simp add: assms(2))
  then have "autobaud_loop hz AUTOBAUD_STATE_WAITINT_FIRST (u0, u1, u2) rate xs = Inr (r, rest)"
    by (subst autobaud_loop.simps) (simp add: assms(1))
  then show ?thesis unfolding ts by (subst autobaud_loop.simps) simp
qed

text \<open>The bands around the supported rates do not overlap.\<close>

lemma snap_rate_near:
  assumes "r \<in> set g_autobaud_table" "near_rate m r"
  shows "snap_rate m = Some r"
proof -
  have "r \<in> {2400, 4800, 9600, 19200, 38400, 57600, 115200}" using assms(1) by (simp add: g_autobaud_table_def)
  then show ?thesis
    using assms(2)
    by (elim insertE emptyE)
      (simp_all add: snap_rate_def g_autobaud_table_def near_rate_def word_less_nat_alt)
qed

lemma saved_rate:
  assumes "r \<in> set g_autobaud_table"
  shows "ucast (drop_bit 9 (push_bit 9 (ucast (r div 2400)) :: u16)) * 2400 = r"
    "0 < r" "r \<le> last g_autobaud_table" "(push_bit 9 (ucast (r div 2400)) :: u16) AND 0x1ff = 0"
proof -
  have "list_all (\<lambda>r. ucast (drop_bit 9 (push_bit 9 (ucast (r div 2400)) :: u16)) * 2400 = r
      \<and> 0 < r \<and> r \<le> last g_autobaud_table \<and> (push_bit 9 (ucast (r div 2400)) :: u16) AND 0x1ff = 0) g_autobaud_table"
    by code_simp
  then show "ucast (drop_bit 9 (push_bit 9 (ucast (r div 2400)) :: u16)) * 2400 = r"
    "0 < r" "r \<le> last g_autobaud_table" "(push_bit 9 (ucast (r div 2400)) :: u16) AND 0x1ff = 0"
    using assms by (auto simp: list_all_iff)
qed

text \<open>
  C25: When the external MCU sends AT, the falling edges of its A are 2 and 8 bit times after the first; if
  the measured lengths have that ratio within a tenth and give a rate within 20 percent of a supported one, and ten more
  edges follow, \<open>AutoBaudStart\<close> sets exactly that rate and saves it, and after deep sleep it takes the saved rate at once,
  whatever is on the line.
\<close>

theorem autobaud_learns_rate:
  assumes "\<not> autobaud_off a" "r \<in> set g_autobaud_table"
    and "\<forall>x \<in> set idle. rxd x" "\<not> rxd e0" "falls_at t1 p1" "falls_at t2 p2"
    and "36 < bits_len (tick_val e0) t2 * 10 div bits_len (tick_val e0) t1"
    and "bits_len (tick_val e0) t2 * 10 div bits_len (tick_val e0) t1 < 44"
    and "near_rate (hz * 8 div bits_len (tick_val e0) t2) r"
    and "es \<noteq> []" "fall_count (rxd x0) es = 10" "fall_count (rxd x0) (butlast es) < 10" "turns es < 2"
    and "\<forall>x \<in> set ls. \<not> rxd x" "rxd h"
  shows "\<exists>a'. AutoBaudStart hz False (idle @ e0 # p1 @ p2 @ x0 # es @ ls @ h # xs) a = Inr (a', xs)
     \<and> g_autobaud_state a' = AUTOBAUD_STATE_DONE \<and> g_autobaud_rate a' = r
     \<and> (\<forall>ys hz'. \<exists>a''. AutoBaudStart hz' True ys a' = Inr (a'', ys)
          \<and> g_autobaud_state a'' = AUTOBAUD_STATE_SKIP \<and> g_autobaud_rate a'' = r)"
proof -
  have edges: "verify_edges (x0 # es @ ls @ h # xs) = Inr (True, xs)"
    using count_edges_run [OF assms(10), of 0 "rxd x0" 0 "ls @ h # xs"] assms(11-15)
    by (simp add: verify_edges_def dropWhile_append3 dropWhile_append2)
  have rate: "verify_rate hz (tick_val e0, t1, t2) = Some r"
    using assms(7-9) snap_rate_near [OF assms(2)] by (simp add: verify_rate_def Let_def)
  have loop: "autobaud_loop hz AUTOBAUD_STATE_INIT (0, 0, 0) 0 (idle @ e0 # p1 @ p2 @ x0 # es @ ls @ h # xs) = Inr (r, xs)"
    by (rule loop_measures [OF wait_first_run [OF assms(3,4)] next_falling_run [OF assms(5)]
          next_falling_run [OF assms(6)] rate edges])
  define w :: u16 where "w = push_bit 9 (ucast (r div 2400))"
  note w = saved_rate [OF assms(2), folded w_def]
  let ?a = "(set_rate r a)\<lparr>g_autobaud_state := AUTOBAUD_STATE_DONE, uart_rate_nv := w\<rparr>"
  have first: "AutoBaudStart hz False (idle @ e0 # p1 @ p2 @ x0 # es @ ls @ h # xs) a = Inr (?a, xs)"
    using assms(1) loop by (simp add: AutoBaudStart_def Let_def w_def)
  have on: "\<not> autobaud_off ?a" using assms(1) w(4) by (simp add: autobaud_off_def set_rate_def)
  have "AutoBaudStart hz' True ys ?a = Inr ((set_rate r ?a)\<lparr>g_autobaud_state := AUTOBAUD_STATE_SKIP\<rparr>, ys)" for hz' ys
    using on w(1-3) by (simp add: AutoBaudStart_def Let_def)
  with first show ?thesis by (intro exI [of _ ?a]) (simp add: set_rate_def)
qed

definition smp :: "bool \<Rightarrow> u32 \<Rightarrow> rx_sample" where
  "smp lv t = \<lparr>rxd = lv, tick_val = t, countflag = False\<rparr>"

definition demo_autobaud :: autobaud where
  "demo_autobaud = \<lparr>g_autobaud_state = AUTOBAUD_STATE_NONE, g_autobaud_stop_standby = False, g_autobaud_rate = 0,
     uart_rate_nv = 0, close_at_uart = 0, peri_remap_enable = 0x78B, csp2_rxd_pin = 16\<rparr>"

text \<open>9600 baud with a clock of 39.168 MHz: 4080 ticks per bit, SysTick counting down.\<close>

lemma autobaud_learns_rate_witness:
  "\<exists>a'. AutoBaudStart 39168000 False
       ([smp True 100000] @ smp False 90000 # [smp False 87000, smp True 85900, smp False 81840] @
        [smp False 81000, smp True 60000, smp False 57300] @ smp True 57000 #
        concat (replicate 10 [smp True 50000, smp False 40000]) @ [smp False 3000] @ smp True 2000 # []) demo_autobaud = Inr (a', [])
     \<and> g_autobaud_state a' = AUTOBAUD_STATE_DONE \<and> g_autobaud_rate a' = 9600
     \<and> (\<forall>ys hz'. \<exists>a''. AutoBaudStart hz' True ys a' = Inr (a'', ys)
          \<and> g_autobaud_state a'' = AUTOBAUD_STATE_SKIP \<and> g_autobaud_rate a'' = 9600)"
proof -
  have 1: "falls_at 81840 [smp False 87000, smp True 85900, smp False 81840]"
    unfolding falls_at_def
    by (intro exI [of _ "[smp False 87000]"] exI [of _ "smp True 85900"] exI [of _ "[]"] exI [of _ "smp False 81840"])
      (simp add: smp_def)
  have 2: "falls_at 57300 [smp False 81000, smp True 60000, smp False 57300]"
    unfolding falls_at_def
    by (intro exI [of _ "[smp False 81000]"] exI [of _ "smp True 60000"] exI [of _ "[]"] exI [of _ "smp False 57300"])
      (simp add: smp_def)
  show ?thesis
    by (rule autobaud_learns_rate [OF _ _ _ _ 1 2]) code_simp+
qed

end
