(* ===== verification/Ping.thy ===== *)
theory Ping
  imports NetData Netif Ip4Addr Utils
begin

text \<open>
  \<open>APPLIB/ping/xy_ping/src/\<close>: \<open>ping.c\<close>, \<open>net_utils.c\<close> and the requests of \<open>at_ping.c\<close> for IPv4.  The world of a
  ping is given by functions of the time in ticks of a millisecond: the address of the interface, the flag
  \<open>g_ping_stop\<close>, being out of service; packets arrive at given times.  Code takes no time, only waiting does.
\<close>

section \<open>net_utils.c\<close>

text \<open>\<open>net_tool_htons\<close> of a value stored by the little-endian core: its bytes, high one first.\<close>

definition net16 :: "u16 \<Rightarrow> u8 list" where
  "net16 n = [ucast (drop_bit 8 n), ucast n]"

definition net_tool_standard_chksum :: "u8 list \<Rightarrow> u16" where
  "net_tool_standard_chksum dataptr =
     (let acc = chksum_fold (chksum_acc dataptr 0);
          acc = (if acc AND 0xffff0000 \<noteq> 0 then chksum_fold acc else acc)
      in NOT (ucast acc))"

text \<open>\<open>net_tool_ip4addr_aton\<close> is, line by line, the \<open>ip4addr_aton\<close> of lwIP.\<close>

definition net_tool_ip4addr_aton :: "u8 list \<Rightarrow> u32 option res" where
  "net_tool_ip4addr_aton cp = ip4addr_aton cp"

section \<open>The packet\<close>

definition ICMP_ER :: u8 where "ICMP_ER = 0"
definition ICMP_ECHO :: u8 where "ICMP_ECHO = 8"
definition HEADERS :: nat where "HEADERS = 28"

text \<open>The identifier is always 0.\<close>

definition ping_identifier :: u16 where "ping_identifier = 0"

definition ip_header_with :: "u32 \<Rightarrow> u32 \<Rightarrow> nat \<Rightarrow> u16 \<Rightarrow> u8 list" where
  "ip_header_with src dst ip_packet_len chk =
     [0x45, 0x00] @ net16 (of_nat ip_packet_len) @ [0, 0, 0, 0, 64, IPPROTO_ICMP] @ net16 chk
     @ bytes_of_u32 src @ bytes_of_u32 dst"

definition ip_header :: "u32 \<Rightarrow> u32 \<Rightarrow> nat \<Rightarrow> u8 list" where
  "ip_header src dst ip_packet_len =
     ip_header_with src dst ip_packet_len (net_tool_standard_chksum (ip_header_with src dst ip_packet_len 0))"

definition icmp_echo_with :: "u16 \<Rightarrow> nat \<Rightarrow> u16 \<Rightarrow> u8 list" where
  "icmp_echo_with sq dlen chk =
     [ICMP_ECHO, 0] @ net16 chk @ net16 ping_identifier @ net16 sq @ map (\<lambda>i. of_nat i + 97) [0..<dlen]"

definition icmp_echo :: "u16 \<Rightarrow> nat \<Rightarrow> u8 list" where
  "icmp_echo sq dlen = icmp_echo_with sq dlen (net_tool_standard_chksum (icmp_echo_with sq dlen 0))"

definition ping_packet :: "u32 \<Rightarrow> u32 \<Rightarrow> u16 \<Rightarrow> nat \<Rightarrow> u8 list" where
  "ping_packet src dst sq dlen = ip_header src dst (HEADERS + dlen) @ icmp_echo sq dlen"

section \<open>The world\<close>

text \<open>
  \<open>out_of_service t\<close> is the time when the semaphore is released; \<open>dst_junk\<close> is the uninitialised \<open>dst_origin\<close>;
  \<open>up_addr\<close> and \<open>up_ok\<close> are the allocation and the message channel of a packet that is sent.
\<close>

record ping_world =
  localip :: "nat \<Rightarrow> u32 option"
  g_ping_stop :: "nat \<Rightarrow> bool"
  out_of_service :: "nat \<Rightarrow> nat option"
  dst_junk :: u32
  up_addr :: "nat \<Rightarrow> u32"
  up_ok :: "nat \<Rightarrow> bool"

record ping_info =
  ping_send_num :: nat
  ping_reply_num :: nat
  longest_rtt :: u32
  shortest_rtt :: u32
  time_average :: u32

datatype ping_out = PingTimeout | Statistics ping_info

text \<open>A packet in the queue: when it comes, its block and its length.\<close>

record ping_state =
  now :: nat
  inbox :: "(nat \<times> u8 list \<times> int) list"
  info :: ping_info
  total_rtt :: u32
  seqno :: u16
  iphdr_src :: u32
  up :: uplink
  ping_outs :: "ping_out list"

definition ping_info_zero :: ping_info where
  "ping_info_zero = \<lparr>ping_send_num = 0, ping_reply_num = 0, longest_rtt = 0, shortest_rtt = 0, time_average = 0\<rparr>"

section \<open>Sending\<close>

definition send_to_ps_directly :: "ping_world \<Rightarrow> u8 list \<Rightarrow> int \<Rightarrow> ping_state \<Rightarrow> ping_state res" where
  "send_to_ps_directly w d rai_val s =
     (let len = of_nat (length d) :: u16;
          u = (up s)\<lparr>g_udp_send_rai := (g_udp_send_rai (up s))[0 := word_of_int rai_val],
                     g_OOS_flag := (if out_of_service w (now s) = None then 0 else 1)\<rparr>
      in bind_res
           (send_ip_packet_to_ps_net (now s) (up_addr w (now s)) (up_ok w (now s)) len
              [\<lparr>soc_id = 1, payload = take (unat len) d\<rparr>] u)
           (\<lambda>(_, u). Inr (s\<lparr>up := u\<rparr>)))"

section \<open>Receiving\<close>

text \<open>The first \<open>malloc_len\<close> bytes of the block are copied, however long it is; \<open>None\<close> is the result \<open>-1\<close> of the timeout.\<close>

definition recv_from_ps_directly :: "nat \<Rightarrow> nat \<Rightarrow> ping_state \<Rightarrow> ((u8 list \<times> int) option \<times> ping_state) res" where
  "recv_from_ps_directly timeout_in_ms malloc_len s =
     (case inbox s of
        (time, block, len) # rest \<Rightarrow>
          if time \<le> now s + timeout_in_ms
          then if length block < malloc_len then Inl BadAccess
               else Inr (Some (take malloc_len block, len), s\<lparr>now := max (now s) time, inbox := rest\<rparr>)
          else Inr (None, s\<lparr>now := now s + timeout_in_ms, ping_outs := ping_outs s @ [PingTimeout]\<rparr>)
      | [] \<Rightarrow> Inr (None, s\<lparr>now := now s + timeout_in_ms, ping_outs := ping_outs s @ [PingTimeout]\<rparr>))"

text \<open>The time to live of an expected response.\<close>

definition is_expected_ping_response ::
    "ping_world \<Rightarrow> nat \<Rightarrow> u16 \<Rightarrow> u8 list \<Rightarrow> int \<Rightarrow> u8 list \<Rightarrow> nat \<Rightarrow> u8 option res" where
  "is_expected_ping_response w t sq packet packet_len host_ip original_icmp_data_len =
     bind_res (byte_at packet 0) (\<lambda>v_hl.
     bind_res (byte_at packet 9) (\<lambda>proto.
     bind_res (ntohs_at packet 2) (\<lambda>len.
     if drop_bit 4 v_hl AND 0x0F \<noteq> 4 \<or> proto \<noteq> IPPROTO_ICMP \<or> int (unat len) \<noteq> packet_len \<or> g_ping_stop w t
        \<or> localip w t = None
     then Inr None
     else
       let src_origin = the (localip w t)
       in bind_res (net_tool_ip4addr_aton host_ip) (\<lambda>a.
          let dst_origin = (case a of None \<Rightarrow> dst_junk w | Some a \<Rightarrow> a)
          in bind_res (load32_at packet 16) (\<lambda>dest.
             bind_res (load32_at packet 12) (\<lambda>src.
             if src_origin \<noteq> dest \<or> dst_origin \<noteq> src then Inr None
             else
               let ip_hdr_len = unat (v_hl AND 0x0F) * 4
               in bind_res (byte_at packet ip_hdr_len) (\<lambda>ty.
                  if ty \<noteq> ICMP_ER then Inr None
                  else bind_res (byte_at packet (ip_hdr_len + 1)) (\<lambda>code.
                  if code \<noteq> 0 then Inr None
                  else bind_res (ntohs_at packet (ip_hdr_len + 4)) (\<lambda>i.
                  if i \<noteq> ping_identifier then Inr None
                  else bind_res (ntohs_at packet (ip_hdr_len + 6)) (\<lambda>n.
                  if n \<noteq> sq then Inr None
                  else if packet_len - int ip_hdr_len - 8 \<noteq> int original_icmp_data_len then Inr None
                  else bind_res (byte_at packet 8) (\<lambda>ttl. Inr (Some ttl))))))))))))"

text \<open>A round trip time of 0 counts as none.\<close>

definition note_reply :: "u32 \<Rightarrow> u32 \<Rightarrow> ping_info \<Rightarrow> ping_info" where
  "note_reply rtt all i =
     (let n = ping_reply_num i + 1
      in i\<lparr>ping_reply_num := n,
           longest_rtt := (if longest_rtt i = 0 \<or> longest_rtt i < rtt then rtt else longest_rtt i),
           shortest_rtt := (if shortest_rtt i = 0 \<or> rtt < shortest_rtt i then rtt else shortest_rtt i),
           time_average := all div of_nat n\<rparr>)"

text \<open>
  The inner loop, with the time of sending and the time to wait for the next packet; the result tells whether it
  timed out.  The time to wait stays as it is once the timeout has passed.
\<close>

function receive_loop ::
    "ping_world \<Rightarrow> u8 list \<Rightarrow> nat \<Rightarrow> nat \<Rightarrow> u32 \<Rightarrow> nat \<Rightarrow> ping_state \<Rightarrow> (bool \<times> ping_state) res" where
  "receive_loop w host_ip dlen timeout start_time rcv_timeout s =
     (if localip w (now s) = None then Inr (False, s)
      else
        case recv_from_ps_directly rcv_timeout HEADERS s of
          Inl e \<Rightarrow> Inl e
        | Inr (None, s) \<Rightarrow> Inr (True, s)
        | Inr (Some (recv_data, recv_len), s') \<Rightarrow>
            (case (if 0 < recv_len
                   then is_expected_ping_response w (now s') (seqno s') recv_data recv_len host_ip dlen else Inr None) of
               Inl e \<Rightarrow> Inl e
             | Inr (Some ttl) \<Rightarrow>
                 let rtt = of_nat (now s') - start_time; all = total_rtt s' + rtt
                 in Inr (False, s'\<lparr>info := note_reply rtt all (info s'), total_rtt := all\<rparr>)
             | Inr None \<Rightarrow>
                 if recv_len = -1 then Inr (True, s')
                 else
                   let elapsed = of_nat (now s') - start_time;
                       rcv_timeout = (if elapsed < of_nat (timeout * 1000)
                                      then unat (of_nat (timeout * 1000) - elapsed) else rcv_timeout)
                   in receive_loop w host_ip dlen timeout start_time rcv_timeout s'))"
  by pat_completeness auto
termination
  by (relation "measure (\<lambda>(w, host_ip, dlen, timeout, start_time, rcv_timeout, s). length (inbox s))")
    (auto simp: recv_from_ps_directly_def split: list.splits if_splits)

declare receive_loop.simps [simp del]

section \<open>The ping\<close>

text \<open>\<open>dst\<close> is the address in the header: 0 when the text is no address.\<close>

definition send_ping :: "ping_world \<Rightarrow> u32 \<Rightarrow> nat \<Rightarrow> int \<Rightarrow> u32 \<Rightarrow> ping_state \<Rightarrow> ping_state res" where
  "send_ping w dst dlen rai_val src s =
     bind_res (send_to_ps_directly w (ping_packet src dst (seqno s) dlen) rai_val (s\<lparr>iphdr_src := src\<rparr>)) (\<lambda>s.
     Inr (s\<lparr>info := (info s)\<lparr>ping_send_num := ping_send_num (info s) + 1\<rparr>\<rparr>))"

definition next_ping :: "u32 \<Rightarrow> u32 \<Rightarrow> bool \<Rightarrow> ping_state \<Rightarrow> ping_state" where
  "next_ping interval_time start_time is_timedout s =
     (let elapsed = of_nat (now s) - start_time;
          wait = (if elapsed < interval_time * 1000 then unat (interval_time * 1000 - elapsed) else 0)
                 + (if is_timedout then 60 * 1000 else 0)
      in s\<lparr>now := now s + wait, seqno := seqno s + 1\<rparr>)"

text \<open>One turn of the loop, \<open>ping_num\<close> already counted down; the result tells whether the loop goes on.\<close>

definition ping_once ::
    "ping_world \<Rightarrow> u8 list \<Rightarrow> u32 \<Rightarrow> nat \<Rightarrow> nat \<Rightarrow> u32 \<Rightarrow> int \<Rightarrow> nat \<Rightarrow> ping_state \<Rightarrow> (bool \<times> ping_state) res" where
  "ping_once w host_ip dst dlen timeout interval_time rai_val ping_num s =
     (let waited = (out_of_service w (now s) \<noteq> None);
          s = (case out_of_service w (now s) of None \<Rightarrow> s | Some t \<Rightarrow> s\<lparr>now := max (now s) t\<rparr>);
          start_time = of_nat (now s) :: u32
      in if waited \<and> g_ping_stop w (now s) then Inr (False, s)
         else case localip w (now s) of
                None \<Rightarrow> Inr (False, s)
              | Some src \<Rightarrow>
                  bind_res (send_ping w dst dlen rai_val src s) (\<lambda>s.
                  bind_res (receive_loop w host_ip dlen timeout start_time (timeout * 1000) s) (\<lambda>(is_timedout, s).
                  if ping_num = 0 then Inr (False, s)
                  else Inr (True, next_ping interval_time start_time is_timedout s))))"

fun ping_loop ::
    "ping_world \<Rightarrow> u8 list \<Rightarrow> u32 \<Rightarrow> nat \<Rightarrow> nat \<Rightarrow> u32 \<Rightarrow> int \<Rightarrow> nat \<Rightarrow> ping_state \<Rightarrow> ping_state res" where
  "ping_loop w host_ip dst dlen timeout interval_time rai_val 0 s = Inr s"
| "ping_loop w host_ip dst dlen timeout interval_time rai_val (Suc ping_num) s =
     (if g_ping_stop w (now s) then Inr s
      else bind_res (ping_once w host_ip dst dlen timeout interval_time rai_val ping_num s) (\<lambda>(again, s).
        if again then ping_loop w host_ip dst dlen timeout interval_time rai_val ping_num s else Inr s))"

text \<open>What came before the ping is thrown away.  \<open>g_ping_stop\<close> of the world is the flag after the reset made here.\<close>

definition init_ping_ipv4 :: "ping_state \<Rightarrow> ping_state" where
  "init_ping_ipv4 s =
     s\<lparr>seqno := of_nat (now s), info := ping_info_zero, total_rtt := 0,
       inbox := dropWhile (\<lambda>(time, _, _). time \<le> now s) (inbox s)\<rparr>"

text \<open>The number of the function \<open>ping_netif_event_callback\<close> is \<open>func\<close>.\<close>

definition ping_netif_event_callback :: "netif_mgmt_event \<Rightarrow> bool" where
  "ping_netif_event_callback event \<longleftrightarrow> event \<noteq> NETIF_MGMT_EVENT_UP"

definition add_ping_callback :: "nat \<Rightarrow> nat \<Rightarrow> netif_mgmt_event \<Rightarrow> net \<Rightarrow> net res" where
  "add_ping_callback cb func event n =
     bind_res (netif_mgmt_init_event_callback cb func event n) (netif_mgmt_add_event_callback cb)"

text \<open>
  \<open>up_cb\<close> and \<open>down_cb\<close> are the allocated callbacks.  The test of the address, \<open>< 0\<close>, never holds.  The result is
  the state and the interfaces; the code returns 0.
\<close>

definition ping_ipv4 ::
    "ping_world \<Rightarrow> nat \<Rightarrow> nat \<Rightarrow> nat \<Rightarrow> u8 list \<Rightarrow> u16 \<Rightarrow> u8 \<Rightarrow> u32 \<Rightarrow> u32 \<Rightarrow> int \<Rightarrow> net \<times> ping_state \<Rightarrow> (net \<times> ping_state) res" where
  "ping_ipv4 w func up_cb down_cb host_ip dlen timeout ping_num interval_time rai_val = (\<lambda>(n, s).
     let rai_val = (if rai_val = -1 then if ping_num = 1 \<or> 20 <s interval_time then 2 else 0 else rai_val)
     in bind_res (add_ping_callback up_cb func NETIF_MGMT_EVENT_UP n) (\<lambda>n.
        bind_res (add_ping_callback down_cb func NETIF_MGMT_EVENT_DOWN n) (\<lambda>n.
        bind_res (net_tool_ip4addr_aton host_ip) (\<lambda>ipv4_target.
        let s = init_ping_ipv4 s
        in bind_res
             (case localip w (now s) of
                None \<Rightarrow> Inr s
              | Some src \<Rightarrow>
                  ping_loop w host_ip (case ipv4_target of None \<Rightarrow> 0 | Some a \<Rightarrow> a) (unat dlen) (unat timeout) interval_time
                    rai_val (unat ping_num) (s\<lparr>iphdr_src := src\<rparr>))
             (\<lambda>s.
               let n = snd (netif_mgmt_del_event_callback up_cb n);
                   n = snd (netif_mgmt_del_event_callback down_cb n)
               in Inr (n, s\<lparr>ping_outs := ping_outs s @ [Statistics (info s)], inbox := []\<rparr>))))))"

section \<open>The requests\<close>

record ping_arguments =
  host :: "u8 list"
  arg_data_len :: u32
  arg_ping_num :: u32
  arg_time_out :: u32
  arg_interval_time :: u32
  arg_rai_val :: int

text \<open>The parameters of \<open>_ping_ipv4\<close> are narrower than the arguments.\<close>

definition process_ping :: "ping_world \<Rightarrow> nat \<Rightarrow> nat \<Rightarrow> nat \<Rightarrow> ping_arguments \<Rightarrow> net \<times> ping_state \<Rightarrow> (net \<times> ping_state) res" where
  "process_ping w func up_cb down_cb a =
     ping_ipv4 w func up_cb down_cb (host a) (ucast (arg_data_len a)) (ucast (arg_time_out a)) (arg_ping_num a)
       (arg_interval_time a) (arg_rai_val a)"

text \<open>\<open>busy\<close>: \<open>at_ping_thread_id\<close> is set.  \<open>host\<close> has 40 bytes, the zero included.\<close>

definition start_ping :: "bool \<Rightarrow> ping_arguments \<Rightarrow> ping_arguments option res" where
  "start_ping busy a = (if busy then Inr None else if 40 \<le> length (takeWhile (\<lambda>c. c \<noteq> 0) (host a)) then Inl BadAccess else Inr (Some a))"

text \<open>What \<open>stop_ping\<close> returns, sets and releases.\<close>

definition stop_ping :: "bool \<Rightarrow> bool \<Rightarrow> bool \<times> bool \<times> bool" where
  "stop_ping busy oos = (if \<not> busy then (False, False, False) else (True, True, oos))"

datatype nping_rsp = ATERR_PARAM_INVALID | ATERR_NOT_NET_CONNECT | ATERR_NOT_ALLOWED

text \<open>\<open>parsed\<close> is what \<open>at_parse_param\<close> makes of the command, \<open>None\<close> for an error.\<close>

definition at_NPING_req ::
    "ping_arguments option \<Rightarrow> bool \<Rightarrow> bool \<Rightarrow> bool \<Rightarrow> (nping_rsp option \<times> ping_arguments option) res" where
  "at_NPING_req parsed netif_ok oos busy =
     (case parsed of
        None \<Rightarrow> Inr (Some ATERR_PARAM_INVALID, None)
      | Some a \<Rightarrow>
          if 2 < arg_rai_val a \<or> sint (arg_time_out a) \<le> 0 then Inr (Some ATERR_PARAM_INVALID, None)
          else if \<not> netif_ok \<or> oos then Inr (Some ATERR_NOT_NET_CONNECT, None)
          else bind_res (start_ping busy a) (\<lambda>r. Inr (case r of None \<Rightarrow> (Some ATERR_NOT_ALLOWED, None) | Some a \<Rightarrow> (None, Some a))))"

definition ping_opencpu_api ::
    "ping_world \<Rightarrow> nat \<Rightarrow> nat \<Rightarrow> nat \<Rightarrow> bool \<Rightarrow> bool \<Rightarrow> bool \<Rightarrow> u8 list \<Rightarrow> u16 \<Rightarrow> u8 \<Rightarrow> u32 \<Rightarrow> u32 \<Rightarrow> net \<times> ping_state
     \<Rightarrow> (ping_info option \<times> net \<times> ping_state) res" where
  "ping_opencpu_api w func up_cb down_cb netif_ok oos busy host_ip dlen timeout ping_num interval_time = (\<lambda>(n, s).
     if \<not> netif_ok \<or> oos \<or> busy then Inr (None, n, s)
     else bind_res (ping_ipv4 w func up_cb down_cb host_ip dlen timeout ping_num interval_time 0 (n, s)) (\<lambda>(n, s).
       Inr (Some (info s), n, s)))"

end
