(* ===== verification/PingSpec.thy ===== *)
theory PingSpec
  imports Ping NetDataProps
begin

text \<open>
  What the packets of the ping are: the checksums, their fields as a reader of the packet sees them, and the replies.
\<close>

section \<open>Checksums\<close>

lemma net_chksum_not: "net_tool_standard_chksum d = NOT (ucast (NOT (xy_chksum d)))"
  by (simp add: net_tool_standard_chksum_def xy_chksum_def Let_def)

lemma unat_u16_not: "unat (NOT x) = 65535 - unat (x :: u16)"
proof -
  have "NOT x = - 1 - x" by (simp add: not_eq_complement)
  moreover have "unat (- 1 - x) = unat (- 1 :: u16) - unat x" by (rule unat_sub) simp
  moreover have "unat (- 1 :: u16) = 65535"
  proof -
    have "(- 1 :: u16) = 65535" by simp
    then show ?thesis by (simp only:) simp
  qed
  ultimately show ?thesis by (simp only:)
qed

lemma unat_net_chksum: "unat (net_tool_standard_chksum d) = 65535 - chksum_sum d"
proof -
  have "unat (ucast (NOT (xy_chksum d)) :: u16) = chksum_sum d"
    using chksum_sum_bound_mod [of d] by (simp add: chksum_sum_def unsigned_ucast_eq take_bit_nat_eq_self)
  then show ?thesis by (simp only: net_chksum_not unat_u16_not)
qed

lemma chksum_sum_positive:
  assumes "0 < be_sum d" "be_sum d < 2 ^ 32"
  shows "0 < chksum_sum d"
proof -
  let ?a = "chksum_acc d 0" and ?f = "chksum_fold (chksum_acc d 0)"
  have "unat ?a = be_sum d" using assms by (simp add: unat_chksum_acc)
  then have a: "0 < unat ?a" using assms by simp
  have fold: "0 < unat (chksum_fold x)" if "0 < unat x" for x
  proof -
    have "unat x = 65536 * (unat x div 65536) + unat x mod 65536" by simp
    then show ?thesis using that unfolding unat_chksum_fold by linarith
  qed
  show ?thesis
    using fold [OF a] fold [OF fold [OF a]] by (simp add: chksum_sum_def xy_chksum_def Let_def)
qed

lemma be_sum_append: "even (length a) \<Longrightarrow> be_sum (a @ b) = be_sum a + be_sum b"
  by (induction a rule: be_sum.induct) auto

lemma be_sum_net16: "be_sum (net16 c) = unat c"
proof -
  have "unat (ucast (drop_bit 8 c) :: u8) = unat c div 256"
  proof -
    have "unat c div 256 < 256" using unsigned_less [of c, where 'a = nat] by (simp add: less_mult_imp_div_less)
    then show ?thesis
      by (simp only: unsigned_ucast_eq unsigned_drop_bit_eq) (simp add: take_bit_eq_mod drop_bit_eq_div)
  qed
  moreover have "unat (ucast c :: u8) = unat c mod 256" by (simp add: unsigned_ucast_eq take_bit_eq_mod)
  ultimately show ?thesis by (simp add: net16_def)
qed

text \<open>A checksum that is stored where zeros were makes the sum vanish.\<close>

lemma chksum_verifies:
  assumes "even (length a)" "0 < be_sum a + be_sum b" "length a + length b + 2 \<le> 131070"
    and "c = net_tool_standard_chksum (a @ net16 0 @ b)"
  shows "net_tool_standard_chksum (a @ net16 c @ b) = 0"
proof -
  let ?d = "a @ net16 0 @ b" and ?e = "a @ net16 c @ b"
  have even: "even (length (net16 x))" for x by (simp add: net16_def)
  have sums: "be_sum ?d = be_sum a + be_sum b" "be_sum ?e = be_sum a + be_sum b + unat c"
    by (simp_all add: be_sum_append assms(1) even be_sum_net16)
  have len: "length ?d = length a + length b + 2" "length ?e = length a + length b + 2" by (simp_all add: net16_def)
  have bound: "be_sum x < 2 ^ 32" if "length x = length a + length b + 2" for x
  proof -
    have "(length x + 1) div 2 \<le> 65535" using that assms(3) by simp
    then show ?thesis using be_sum_bound [of x] by simp
  qed
  have d: "chksum_sum ?d < 65536" "chksum_sum ?d mod 65535 = be_sum ?d mod 65535"
    using chksum_sum_bound_mod [of ?d] bound [OF len(1)] by simp_all
  have "0 < be_sum ?e" using sums assms(2) by linarith
  then have e: "chksum_sum ?e < 65536" "chksum_sum ?e mod 65535 = be_sum ?e mod 65535" "0 < chksum_sum ?e"
    using chksum_sum_bound_mod [of ?e] bound [OF len(2)] chksum_sum_positive [of ?e] by simp_all
  have "unat c = 65535 - chksum_sum ?d" unfolding assms(4) by (rule unat_net_chksum)
  then have "be_sum ?e mod 65535 = (be_sum ?d + (65535 - chksum_sum ?d)) mod 65535" by (simp only: sums)
  also have "\<dots> = (chksum_sum ?d + (65535 - chksum_sum ?d)) mod 65535" by (metis d(2) mod_add_left_eq)
  also have "\<dots> = 0" using d(1) by simp
  finally have "chksum_sum ?e mod 65535 = 0" by (simp only: e(2))
  then obtain k where "chksum_sum ?e = 65535 * k" by (auto simp: mod_eq_0_iff_dvd)
  then have "chksum_sum ?e = 65535" using e(1,3) by (cases k) auto
  then have "unat (net_tool_standard_chksum ?e) = 0" by (simp add: unat_net_chksum)
  then show ?thesis by (simp only: unat_eq_zero)
qed

lemma length_ip_header [simp]: "length (ip_header src dst n) = 20" "length (ip_header_with src dst n c) = 20"
  by (simp_all add: ip_header_def ip_header_with_def net16_def bytes_of_u32_def)

lemma length_icmp_echo [simp]: "length (icmp_echo sq dlen) = 8 + dlen" "length (icmp_echo_with sq dlen c) = 8 + dlen"
  by (simp_all add: icmp_echo_def icmp_echo_with_def net16_def)

lemma ip_header_verifies: "net_tool_standard_chksum (ip_header src dst n) = 0"
proof -
  let ?a = "[0x45, 0x00] @ net16 (of_nat n) @ [0, 0, 0, 0, 64, IPPROTO_ICMP]" and ?b = "bytes_of_u32 src @ bytes_of_u32 dst"
  have h: "ip_header_with src dst n c = ?a @ net16 c @ ?b" for c by (simp add: ip_header_with_def)
  have "0 < be_sum ?a + be_sum ?b" by (simp add: net16_def)
  moreover have "even (length ?a)" by (simp add: net16_def)
  ultimately show ?thesis
    unfolding ip_header_def h by (intro chksum_verifies) (simp_all add: net16_def bytes_of_u32_def)
qed

lemma icmp_echo_verifies:
  assumes "dlen \<le> 65535"
  shows "net_tool_standard_chksum (icmp_echo sq dlen) = 0"
proof -
  let ?a = "[ICMP_ECHO, 0]" and ?b = "net16 ping_identifier @ net16 sq @ map (\<lambda>i. of_nat i + 97) [0..<dlen]"
  have h: "icmp_echo_with sq dlen c = ?a @ net16 c @ ?b" for c by (simp add: icmp_echo_with_def)
  have "0 < be_sum ?a + be_sum ?b" by (simp add: ICMP_ECHO_def)
  then show ?thesis
    unfolding icmp_echo_def h by (intro chksum_verifies) (use assms in \<open>simp_all add: net16_def\<close>)
qed

section \<open>The inner loop\<close>

lemma recv_facts:
  assumes "recv_from_ps_directly timeout n s = Inr (r, s')"
  shows "up s' = up s" "seqno s' = seqno s" "info s' = info s" "total_rtt s' = total_rtt s" "set (inbox s') \<subseteq> set (inbox s)"
  using assms by (auto simp: recv_from_ps_directly_def split: list.splits if_splits)

lemma receive_loop_facts:
  assumes "receive_loop w host_ip dlen timeout start_time rcv_timeout s = Inr (to, s')"
  shows "up s' = up s \<and> seqno s' = seqno s \<and> ping_send_num (info s') = ping_send_num (info s)
    \<and> ping_reply_num (info s) \<le> ping_reply_num (info s') \<and> ping_reply_num (info s') \<le> ping_reply_num (info s) + 1
    \<and> set (inbox s') \<subseteq> set (inbox s)"
  using assms
proof (induction w host_ip dlen timeout start_time rcv_timeout s rule: receive_loop.induct)
  case (1 w host_ip dlen timeout start_time rcv_timeout s)
  show ?case
  proof (cases "localip w (now s) = None")
    case True
    then show ?thesis using 1(2) by (simp add: receive_loop.simps)
  next
    case False
    obtain r s1 where r: "recv_from_ps_directly rcv_timeout HEADERS s = Inr (r, s1)"
      using 1(2) False by (subst (asm) receive_loop.simps) (auto split: sum.splits)
    note f = recv_facts [OF r]
    show ?thesis
    proof (cases r)
      case None
      then show ?thesis using 1(2) False r f by (simp add: receive_loop.simps [of w host_ip dlen timeout start_time rcv_timeout s])
    next
      case (Some p)
      obtain d l where p: "p = (d, l)" by (cases p)
      have r': "recv_from_ps_directly rcv_timeout HEADERS s = Inr (Some (d, l), s1)" using r Some p by simp
      obtain e where e: "(if 0 < l then is_expected_ping_response w (now s1) (seqno s1) d l host_ip dlen else Inr None) = Inr e"
        using 1(2) False r' by (subst (asm) receive_loop.simps) (auto split: sum.splits)
      show ?thesis
        using 1(2) 1(1) [OF False r' refl refl refl e] False r' e f
        by (subst (asm) (1) receive_loop.simps)
          (auto simp: Let_def note_reply_def split: option.splits if_splits)
    qed
  qed
qed

text \<open>Blocks that hold both headers, without options, can be read.\<close>

definition readable :: "u8 list \<Rightarrow> bool" where
  "readable block \<longleftrightarrow> 28 \<le> length block \<and> unat (block ! 0 AND 0x0F) \<le> 5"

lemma bind_works: "(\<exists>x. m = Inr x) \<Longrightarrow> (\<And>x. m = Inr x \<Longrightarrow> \<exists>y. f x = Inr y) \<Longrightarrow> \<exists>y. bind_res m f = Inr (y :: 'a)"
  by auto

lemma if_works: "(c \<Longrightarrow> \<exists>y. a = Inr y) \<Longrightarrow> (\<not> c \<Longrightarrow> \<exists>y. b = Inr y) \<Longrightarrow> \<exists>y. (if c then a else b) = Inr y"
  by auto

lemma expected_works:
  assumes "readable block" "net_tool_ip4addr_aton host_ip = Inr a"
  shows "\<exists>r. is_expected_ping_response w t sq (take 28 block) len host_ip dlen = Inr r"
proof -
  let ?p = "take 28 block"
  have len: "length ?p = 28" "unat (block ! 0 AND 0x0F) * 4 \<le> 20" "?p ! 0 = block ! 0" using assms(1) by (auto simp: readable_def)
  have reads: "i < 28 \<Longrightarrow> byte_at ?p i = Inr (?p ! i)" "i + 2 \<le> 28 \<Longrightarrow> \<exists>v. ntohs_at ?p i = Inr v"
    "i + 4 \<le> 28 \<Longrightarrow> \<exists>v. load32_at ?p i = Inr v" for i
    using loads_inside [of i ?p] len(1) by simp_all
  show ?thesis
    unfolding is_expected_ping_response_def Let_def
    by (intro bind_works if_works; (simp add: reads len assms(2))?) (use len reads in auto)
qed
lemma receive_loop_works:
  assumes "\<forall>(time, block, len) \<in> set (inbox s). readable block" "net_tool_ip4addr_aton host_ip = Inr a"
  shows "\<exists>r. receive_loop w host_ip dlen timeout start_time rcv_timeout s = Inr r"
  using assms(1)
proof (induction "length (inbox s)" arbitrary: s rcv_timeout rule: less_induct)
  case less
  show ?case
  proof (cases "localip w (now s) = None")
    case True
    then show ?thesis by (auto simp: receive_loop.simps)
  next
    case False
    show ?thesis
    proof (cases "recv_from_ps_directly rcv_timeout HEADERS s")
      case (Inl e)
      then show ?thesis
        using less.prems by (auto simp: recv_from_ps_directly_def HEADERS_def readable_def split: list.splits if_splits)
    next
      case (Inr rs)
      obtain r s1 where r: "rs = (r, s1)" by (cases rs)
      show ?thesis
      proof (cases r)
        case None
        then show ?thesis using Inr r False by (auto simp: receive_loop.simps [of w host_ip dlen timeout start_time rcv_timeout s])
      next
        case (Some p)
        obtain time block len rest where inbox: "inbox s = (time, block, len) # rest" "p = (take 28 block, len)" "inbox s1 = rest"
          using Inr r Some by (auto simp: recv_from_ps_directly_def HEADERS_def split: list.splits if_splits)
        then have "readable block" "\<forall>(time, block, len) \<in> set (inbox s1). readable block" "length (inbox s1) < length (inbox s)"
          using less.prems by auto
        then show ?thesis
          using Inr r Some False inbox(2) less.hyps [of s1] expected_works [OF _ assms(2), of block w "now s1" "seqno s1" len dlen]
          by (subst receive_loop.simps) (auto simp: Let_def split: option.split)
      qed
    qed
  qed
qed

section \<open>The whole ping\<close>

lemma send_ping_facts:
  assumes "send_ping w dst dlen rai_val src s = Inr s'"
  shows "ping_send_num (info s') = ping_send_num (info s) + 1" "ping_reply_num (info s') = ping_reply_num (info s)"
    "seqno s' = seqno s" "inbox s' = inbox s"
  using assms by (auto simp: send_ping_def send_to_ps_directly_def bind_res_eq_Inr Let_def)

lemma next_ping_facts [simp]:
  "info (next_ping i t to s) = info s" "inbox (next_ping i t to s) = inbox s" "up (next_ping i t to s) = up s"
  "seqno (next_ping i t to s) = seqno s + 1"
  by (simp_all add: next_ping_def Let_def)

text \<open>A turn that sends nothing ends the loop.\<close>

lemma ping_once_cases:
  assumes "ping_once w host_ip dst dlen timeout interval_time rai_val n s = Inr (again, s')"
  obtains (stop) "\<not> again" "info s' = info s" "up s' = up s"
    | (sent) s1 s2 src where "s1 = (case out_of_service w (now s) of None \<Rightarrow> s | Some t \<Rightarrow> s\<lparr>now := max (now s) t\<rparr>)"
      "localip w (now s1) = Some src" "send_ping w dst dlen rai_val src s1 = Inr s2"
      "ping_send_num (info s') = ping_send_num (info s) + 1" "ping_reply_num (info s') \<le> ping_reply_num (info s) + 1"
      "set (inbox s') \<subseteq> set (inbox s)" "up s' = up s2" "again \<Longrightarrow> seqno s' = seqno s + 1"
proof -
  define s1 where "s1 = (case out_of_service w (now s) of None \<Rightarrow> s | Some t \<Rightarrow> s\<lparr>now := max (now s) t\<rparr>)"
  have s1: "info s1 = info s" "seqno s1 = seqno s" "inbox s1 = inbox s" "up s1 = up s" by (simp_all add: s1_def split: option.split)
  show thesis
  proof (cases "out_of_service w (now s) \<noteq> None \<and> g_ping_stop w (now s1) \<or> localip w (now s1) = None")
    case True
    then show thesis
      using assms s1 stop by (auto simp: ping_once_def Let_def s1_def [symmetric] split: if_splits)
  next
    case False
    then obtain src where src: "localip w (now s1) = Some src" by blast
    obtain s2 to s3 where r: "send_ping w dst dlen rai_val src s1 = Inr s2"
      "receive_loop w host_ip dlen timeout (of_nat (now s1)) (timeout * 1000) s2 = Inr (to, s3)"
      and s': "\<not> again \<and> s' = s3 \<or> again \<and> s' = next_ping interval_time (of_nat (now s1)) to s3"
      using assms False src
      by (auto simp: ping_once_def Let_def s1_def [symmetric] bind_res_eq_Inr split: if_splits)
    show thesis
      by (rule sent [OF s1_def src r(1)])
        (use s' s1 send_ping_facts [OF r(1)] receive_loop_facts [OF r(2)] in auto)
  qed
qed

lemma ping_loop_accounts:
  assumes "ping_loop w host_ip dst dlen timeout interval_time rai_val n s = Inr s'"
  shows "ping_send_num (info s) \<le> ping_send_num (info s') \<and> ping_send_num (info s') \<le> ping_send_num (info s) + n
    \<and> ping_reply_num (info s') + ping_send_num (info s) \<le> ping_reply_num (info s) + ping_send_num (info s')"
  using assms
proof (induction n arbitrary: s)
  case (Suc n)
  show ?case
  proof (cases "g_ping_stop w (now s)")
    case False
    then obtain again s1 where once: "ping_once w host_ip dst dlen timeout interval_time rai_val n s = Inr (again, s1)"
      and rest: "if again then ping_loop w host_ip dst dlen timeout interval_time rai_val n s1 = Inr s' else s' = s1"
      using Suc.prems by (auto simp: bind_res_eq_Inr split: if_splits)
    from once show ?thesis
    proof (cases rule: ping_once_cases)
      case stop
      then show ?thesis using rest by simp
    next
      case (sent s2 s3 src)
      then show ?thesis using rest Suc.IH [of s1] by (cases again) auto
    qed
  qed (use Suc.prems in simp)
qed simp

section \<open>What is sent\<close>

lemma clear_preset_keeps [simp]:
  "off_debug (clear_preset so u) = off_debug u" "shm_ipdata (clear_preset so u) = shm_ipdata u"
  "dsp_is_not_loaded (clear_preset so u) = dsp_is_not_loaded u"
  by (simp_all add: clear_preset_def split: option.split)

lemma send_ip_works:
  assumes "off_debug u \<noteq> 0" "length d = unat tot_len"
  shows "\<exists>e v. send_ip_packet_to_ps_net tick addr ok tot_len [\<lparr>soc_id = 1, payload = d\<rparr>] u = Inr (e, v) \<and> off_debug v = off_debug u"
proof -
  have "copy_chain [\<lparr>soc_id = 1, payload = d\<rparr>] 0 (replicate (unat tot_len) 0) = Inr d"
    using assms(2) by (simp add: blit_def)
  moreover define so where "so = (if 0 < tot_len then chain_socket [\<lparr>soc_id = 1, payload = d\<rparr>] None else None)"
  obtain rai k v where r: "choose_rai so u = ((rai, k), v)" by (metis prod.exhaust)
  obtain sq x where q: "choose_seq so v = (sq, x)" by fastforce
  have "off_debug x = off_debug u" using choose_rai_facts [OF r] choose_seq_facts [OF q] by simp
  ultimately show ?thesis
    using assms(1) r q
    by (auto simp: send_ip_packet_to_ps_net_def print_if_debug_def dropped_for_debug_def so_def [symmetric])
qed

lemma send_ping_works:
  assumes "off_debug (up s) \<noteq> 0"
  shows "\<exists>s'. send_ping w dst dlen rai_val src s = Inr s' \<and> off_debug (up s') = off_debug (up s)"
proof -
  let ?d = "ping_packet src dst (seqno s) dlen"
  let ?len = "of_nat (length ?d) :: u16"
  have "length (take (unat ?len) ?d) = unat ?len"
    by (simp add: unat_of_nat take_bit_eq_mod)
  from send_ip_works [OF _ this, of "(up s)\<lparr>g_udp_send_rai := (g_udp_send_rai (up s))[0 := word_of_int rai_val],
      g_OOS_flag := (if out_of_service w (now s) = None then 0 else 1)\<rparr>" "now s" "up_addr w (now s)" "up_ok w (now s)"]
    assms
  obtain e v where "send_ip_packet_to_ps_net (now s) (up_addr w (now s)) (up_ok w (now s)) ?len
      [\<lparr>soc_id = 1, payload = take (unat ?len) ?d\<rparr>]
      ((up s)\<lparr>g_udp_send_rai := (g_udp_send_rai (up s))[0 := word_of_int rai_val],
        g_OOS_flag := (if out_of_service w (now s) = None then 0 else 1)\<rparr>) = Inr (e, v)" "off_debug v = off_debug (up s)"
    by auto
  then show ?thesis by (simp add: send_ping_def send_to_ps_directly_def Let_def)
qed
lemma ping_once_works:
  assumes "off_debug (up s) \<noteq> 0" "\<forall>(time, block, len) \<in> set (inbox s). readable block" "net_tool_ip4addr_aton host_ip = Inr a"
  shows "\<exists>again s'. ping_once w host_ip dst dlen timeout interval_time rai_val n s = Inr (again, s')
    \<and> off_debug (up s') \<noteq> 0 \<and> (\<forall>(time, block, len) \<in> set (inbox s'). readable block)"
proof -
  define s1 where "s1 = (case out_of_service w (now s) of None \<Rightarrow> s | Some t \<Rightarrow> s\<lparr>now := max (now s) t\<rparr>)"
  have s1: "inbox s1 = inbox s" "up s1 = up s" by (simp_all add: s1_def split: option.split)
  show ?thesis
  proof (cases "out_of_service w (now s) \<noteq> None \<and> g_ping_stop w (now s1) \<or> localip w (now s1) = None")
    case True
    then show ?thesis
      using assms s1 by (auto simp: ping_once_def Let_def s1_def [symmetric] split: if_splits)
  next
    case False
    then obtain src where src: "localip w (now s1) = Some src" by blast
    obtain s2 where s2: "send_ping w dst dlen rai_val src s1 = Inr s2" "off_debug (up s2) = off_debug (up s1)"
      using send_ping_works [of s1 w dst dlen rai_val src] assms(1) s1 by auto
    then have "\<forall>(time, block, len) \<in> set (inbox s2). readable block"
      using send_ping_facts(4) [OF s2(1)] s1 assms(2) by simp
    then obtain to s3 where s3: "receive_loop w host_ip dlen timeout (of_nat (now s1)) (timeout * 1000) s2 = Inr (to, s3)"
      using receive_loop_works [OF _ assms(3)] by fastforce
    then have "up s3 = up s2" "set (inbox s3) \<subseteq> set (inbox s)"
      using receive_loop_facts [OF s3] send_ping_facts(4) [OF s2(1)] s1 by auto
    then have "off_debug (up s3) \<noteq> 0" "\<forall>(time, block, len) \<in> set (inbox s3). readable block"
      using assms s2 s1 by auto
    then show ?thesis
      using False src s2 s3 by (auto simp: ping_once_def Let_def s1_def [symmetric])
  qed
qed

lemma ping_loop_works:
  assumes "off_debug (up s) \<noteq> 0" "\<forall>(time, block, len) \<in> set (inbox s). readable block" "net_tool_ip4addr_aton host_ip = Inr a"
  shows "\<exists>s'. ping_loop w host_ip dst dlen timeout interval_time rai_val n s = Inr s'"
  using assms(1,2)
proof (induction n arbitrary: s)
  case (Suc n)
  from ping_once_works [OF Suc.prems assms(3), of w dst dlen timeout interval_time rai_val n] show ?case
    using Suc.IH by (elim exE conjE) (auto split: if_splits)
qed simp

text \<open>A connection that stays: the interface keeps its address and the DSP core takes every packet.\<close>

definition connected :: "ping_world \<Rightarrow> u32 \<Rightarrow> bool" where
  "connected w src \<longleftrightarrow> (\<forall>t. localip w t = Some src \<and> out_of_service w t = None \<and> up_ok w t)"

definition ready :: "uplink \<Rightarrow> bool" where
  "ready u \<longleftrightarrow> off_debug u \<noteq> 0 \<and> \<not> dsp_is_not_loaded u"

definition handed_over :: "uplink \<Rightarrow> u8 list list" where
  "handed_over u = map info_data (shm_ipdata u)"

lemma send_ping_connected:
  assumes "connected w src" "ready (up s)" "dlen \<le> 65507" "send_ping w dst dlen rai_val src s = Inr s'"
  shows "ready (up s')" "handed_over (up s') = handed_over (up s) @ [ping_packet src dst (seqno s) dlen]"
proof -
  let ?d = "ping_packet src dst (seqno s) dlen"
  let ?u = "(up s)\<lparr>g_udp_send_rai := (g_udp_send_rai (up s))[0 := word_of_int rai_val], g_OOS_flag := 0\<rparr>"
  let ?p = "[\<lparr>soc_id = 1, payload = ?d\<rparr>] :: pbuf list"
  have len: "length ?d < 2 ^ 16" "0 < length ?d" using assms(3) by (simp_all add: ping_packet_def)
  then have take: "take (unat (of_nat (length ?d) :: u16)) ?d = ?d"
    by (simp add: unat_of_nat take_bit_eq_mod)
  have ok: "packet_ok (of_nat (length ?d)) ?p ?u"
    using len assms(2) by (simp add: packet_ok_def chain_bytes_def ready_def)
  have acc: "accepted (now s) ?u" using assms(2) by (simp add: accepted_def dropped_for_debug_def ready_def)
  obtain u where u: "send_ip_packet_to_ps_net (now s) (up_addr w (now s)) True (of_nat (length ?d)) ?p ?u = Inr (ERR_OK, u)"
    "ready u" "handed_over u = handed_over (up s) @ [?d]"
    using send_accepted [OF acc ok refl refl, of "up_addr w (now s)"] assms(2)
    by (auto simp: ready_def handed_over_def chain_bytes_def)
  have "s' = s\<lparr>iphdr_src := src, up := u, info := (info s)\<lparr>ping_send_num := ping_send_num (info s) + 1\<rparr>\<rparr>"
    using assms(1,4) u(1) take by (simp add: send_ping_def send_to_ps_directly_def connected_def Let_def)
  then show "ready (up s')" "handed_over (up s') = handed_over (up s) @ [?d]"
    using u by simp_all
qed

lemma ping_loop_connected:
  assumes "connected w src" "ready (up s)" "dlen \<le> 65507"
    and "ping_loop w host_ip dst dlen timeout interval_time rai_val n s = Inr s'"
  shows "handed_over (up s') = handed_over (up s)
    @ map (\<lambda>k. ping_packet src dst (seqno s + of_nat k) dlen) [0..<ping_send_num (info s') - ping_send_num (info s)]"
  using assms(2,4)
proof (induction n arbitrary: s)
  case (Suc n)
  show ?case
  proof (cases "g_ping_stop w (now s)")
    case False
    then obtain again s1 where once: "ping_once w host_ip dst dlen timeout interval_time rai_val n s = Inr (again, s1)"
      and rest: "if again then ping_loop w host_ip dst dlen timeout interval_time rai_val n s1 = Inr s' else s' = s1"
      using Suc.prems by (auto simp: bind_res_eq_Inr split: if_splits)
    from once show ?thesis
    proof (cases rule: ping_once_cases)
      case stop
      then show ?thesis using rest by (simp add: handed_over_def)
    next
      case (sent s2 s3 src')
      have "src' = src" "s2 = s" using sent(1,2) assms(1) by (simp_all add: connected_def)
      then have up: "ready (up s1)" "handed_over (up s1) = handed_over (up s) @ [ping_packet src dst (seqno s) dlen]"
        using send_ping_connected [OF assms(1) Suc.prems(1) assms(3), of dst rai_val s3] sent by simp_all
      show ?thesis
      proof (cases again)
        case True
        then have loop: "ping_loop w host_ip dst dlen timeout interval_time rai_val n s1 = Inr s'" using rest by simp
        have sq: "seqno s1 = seqno s + 1" using sent(8) True by blast
        let ?m = "ping_send_num (info s') - ping_send_num (info s1)"
        have "ping_send_num (info s') - ping_send_num (info s) = Suc ?m"
          using ping_loop_accounts [OF loop] sent(4) by linarith
        moreover have "[0..<Suc ?m] = 0 # map Suc [0..<?m]" by (simp only: upt_conv_Cons map_Suc_upt zero_less_Suc)
        ultimately show ?thesis
          using Suc.IH [OF up(1) loop] up(2) sq by (simp add: comp_def ac_simps)
      next
        case False
        then show ?thesis using rest up(2) sent(4) by simp
      qed
    qed
  qed (use Suc.prems in simp)
qed simp

section \<open>Replies\<close>

text \<open>An echo reply of the peer; the fields that nobody looks at may be anything.\<close>

definition reply_packet :: "u8 \<Rightarrow> u32 \<Rightarrow> u8 \<Rightarrow> u16 \<Rightarrow> u16 \<Rightarrow> u32 \<Rightarrow> u32 \<Rightarrow> u16 \<Rightarrow> u8 list \<Rightarrow> u8 list" where
  "reply_packet tos fragment ttl chk chk' peer me sq d =
     [0x45, tos] @ net16 (of_nat (HEADERS + length d)) @ bytes_of_u32 fragment @ [ttl, IPPROTO_ICMP] @ net16 chk
     @ bytes_of_u32 peer @ bytes_of_u32 me @ [ICMP_ER, 0] @ net16 chk' @ net16 ping_identifier @ net16 sq @ d"

lemma join_net16: "push_bit 8 (ucast (ucast (drop_bit 8 n) :: u8)) OR ucast (ucast n :: u8) = (n :: u16)"
  by (rule bit_word_eqI) (auto simp: bit_simps)

lemma take_reply: "take 28 (reply_packet tos fragment ttl chk chk' peer me sq d) =
    [0x45, tos] @ net16 (of_nat (HEADERS + length d)) @ bytes_of_u32 fragment @ [ttl, IPPROTO_ICMP] @ net16 chk
     @ bytes_of_u32 peer @ bytes_of_u32 me @ [ICMP_ER, 0] @ net16 chk' @ net16 ping_identifier @ net16 sq"
  by (simp add: reply_packet_def net16_def bytes_of_u32_def)

lemma length_reply: "length (reply_packet tos fragment ttl chk chk' peer me sq d) = 28 + length d"
  by (simp add: reply_packet_def net16_def bytes_of_u32_def)

lemma reply_expected:
  assumes "localip w t = Some me" "net_tool_ip4addr_aton host_ip = Inr (Some peer)" "\<not> g_ping_stop w t" "length d \<le> 65507"
  shows "is_expected_ping_response w t sq' (take 28 (reply_packet tos fragment ttl chk chk' peer me sq d))
      (28 + int (length d)) host_ip (length d) = Inr (if sq = sq' then Some ttl else None)"
proof -
  let ?p = "take 28 (reply_packet tos fragment ttl chk chk' peer me sq d)"
  define n where "n = (of_nat (HEADERS + length d) :: u16)"
  have "unat n = 28 + length d"
    using assms(4) unfolding n_def by (simp only: unat_of_nat) (simp add: HEADERS_def take_bit_eq_mod)
  then have n: "int (unat n) = 28 + int (length d)" by (simp only: of_nat_add of_nat_numeral)
  have at: "byte_at ?p 0 = Inr 0x45" "byte_at ?p 9 = Inr IPPROTO_ICMP" "ntohs_at ?p 2 = Inr n"
    "load32_at ?p 16 = Inr me" "load32_at ?p 12 = Inr peer" "byte_at ?p 20 = Inr ICMP_ER" "byte_at ?p 21 = Inr 0"
    "ntohs_at ?p 24 = Inr ping_identifier" "ntohs_at ?p 26 = Inr sq" "byte_at ?p 8 = Inr ttl"
    unfolding take_reply n_def
    by (simp_all add: byte_at_def ntohs_at_def load32_at_def net16_def bytes_of_u32_def join_net16 u32_of_bytes)
  show ?thesis
    using n at by (cases "sq = sq'") (simp_all add: is_expected_ping_response_def assms Let_def)
qed

text \<open>Waiting: the first packet is the reply, or no reply at all.\<close>

lemma reply_counted:
  assumes "localip w (now s) = Some me" "localip w t = Some me" "net_tool_ip4addr_aton host_ip = Inr (Some peer)" "\<not> g_ping_stop w t"
    and "length d \<le> 65507" "inbox s = (t, reply_packet tos fragment ttl chk chk' peer me (seqno s) d, 28 + int (length d)) # rest"
    and "now s \<le> t" "t \<le> now s + rcv_timeout"
  shows "receive_loop w host_ip (length d) timeout start_time rcv_timeout s =
    Inr (False, s\<lparr>now := t, inbox := rest, total_rtt := total_rtt s + (of_nat t - start_time),
      info := note_reply (of_nat t - start_time) (total_rtt s + (of_nat t - start_time)) (info s)\<rparr>)"
proof -
  let ?b = "reply_packet tos fragment ttl chk chk' peer me (seqno s) d"
  have "recv_from_ps_directly rcv_timeout HEADERS s = Inr (Some (take 28 ?b, 28 + int (length d)), s\<lparr>now := t, inbox := rest\<rparr>)"
    using assms(6-8) by (simp add: recv_from_ps_directly_def HEADERS_def length_reply max_def)
  then show ?thesis
    using reply_expected [OF assms(2-5), of "seqno s" tos fragment ttl chk chk' "seqno s"] assms(1)
    by (subst receive_loop.simps) (simp add: Let_def add.commute)
qed

text \<open>A block of zeros, which is no response.\<close>

definition stray :: "nat \<Rightarrow> nat \<times> u8 list \<times> int" where
  "stray t = (t, replicate HEADERS 0, int HEADERS)"

lemma HEADERS_pos [simp]: "0 < HEADERS"
  by (simp add: HEADERS_def)

lemma stray_not_expected: "is_expected_ping_response w t sq (replicate HEADERS 0) len host_ip dlen = Inr None"
  by (simp add: is_expected_ping_response_def HEADERS_def byte_at_def ntohs_at_def)

lemma recv_stray:
  assumes "inbox s = stray t # rest" "now s \<le> t" "t \<le> now s + rcv_timeout"
  shows "recv_from_ps_directly rcv_timeout HEADERS s = Inr (Some (replicate HEADERS 0, int HEADERS), s\<lparr>now := t, inbox := rest\<rparr>)"
  using assms by (simp add: recv_from_ps_directly_def stray_def max_def)

text \<open>Once the timeout has passed, the time to wait is no longer shortened.\<close>

lemma strays_after_timeout:
  assumes "\<And>t. localip w t \<noteq> None" "start \<le> now s" "timeout * 1000 \<le> now s - start" "now s - start + n * r < 2 ^ 32"
    "inbox s = map (\<lambda>k. stray (now s + Suc k * r)) [0..<n]"
  shows "\<exists>s'. receive_loop w host_ip dlen timeout (of_nat start) r s = Inr (True, s') \<and> now s' = now s + Suc n * r
    \<and> info s' = info s"
  using assms(2-5)
proof (induction n arbitrary: s)
  case 0
  then show ?case
    using assms(1) by (subst receive_loop.simps) (simp add: recv_from_ps_directly_def)
next
  case (Suc n)
  let ?t = "now s + r"
  let ?s = "s\<lparr>now := ?t, inbox := map (\<lambda>k. stray (?t + Suc k * r)) [0..<n]\<rparr>"
  have up: "[0..<Suc n] = 0 # map Suc [0..<n]" by (simp only: upt_conv_Cons map_Suc_upt zero_less_Suc)
  have "inbox s = stray ?t # map (\<lambda>k. stray (?t + Suc k * r)) [0..<n]"
    unfolding Suc.prems(4) up by (simp add: comp_def add.assoc)
  then have recv: "recv_from_ps_directly r HEADERS s = Inr (Some (replicate HEADERS 0, int HEADERS), ?s)"
    by (intro recv_stray) simp_all
  have lt: "?t - start < 2 ^ 32" "timeout * 1000 \<le> ?t - start" using Suc.prems by auto
  have "of_nat ?t - of_nat start = (of_nat (?t - start) :: u32)" using Suc.prems(1) by (simp add: of_nat_diff)
  moreover have "\<not> (of_nat (?t - start) :: u32) < of_nat (timeout * 1000)"
    using lt by (simp add: word_less_nat_alt unat_of_nat take_bit_eq_mod del: of_nat_add of_nat_mult)
  ultimately have late: "\<not> (of_nat ?t - of_nat start :: u32) < of_nat (timeout * 1000)" by simp
  have "receive_loop w host_ip dlen timeout (of_nat start) r s = receive_loop w host_ip dlen timeout (of_nat start) r ?s"
    using assms(1) [of "now s"] recv late
    by (subst receive_loop.simps) (auto simp: stray_not_expected Let_def simp del: of_nat_add of_nat_mult)
  moreover have "\<exists>s'. receive_loop w host_ip dlen timeout (of_nat start) r ?s = Inr (True, s') \<and> now s' = now ?s + Suc n * r
    \<and> info s' = info ?s"
    by (rule Suc.IH) (use Suc.prems in auto)
  ultimately show ?case by auto
qed

end
