(* ===== verification/PingProps.thy ===== *)
theory PingProps
  imports PingSpec Ip4AddrProps
begin

text \<open>
  The properties of the ping, each with a witness: the requests, the accounts, the replies and the wait for them.
\<close>

section \<open>Setting up and clearing\<close>








section \<open>Properties\<close>



definition ping_uplink :: uplink where
  "ping_uplink = \<lparr>g_udp_send_seq = replicate 10 0, g_udp_send_rai = replicate 10 0, g_null_udp_rai = 0,
     g_working_cid = 1, g_udp_latest_seq = 0, g_udp_seq = 0, off_debug = 1, g_drop_up_dbg = 0, g_OOS_flag = 0,
     dsp_is_not_loaded = False, dbg_drop_up_sum = 0, ip_logs = [], shm_ipdata = []\<rparr>"

text \<open>10.0.0.7 pings 8.8.8.8; one reply comes after 80 ticks.\<close>

definition ping_host :: "u8 list" where
  "ping_host = map of_char ''8.8.8.8'' @ [0]"

definition my_world :: ping_world where
  "my_world = \<lparr>localip = (\<lambda>t. Some 0x0700000A), g_ping_stop = (\<lambda>t. False), out_of_service = (\<lambda>t. None), dst_junk = 0,
     up_addr = (\<lambda>t. 0x20002000), up_ok = (\<lambda>t. True)\<rparr>"

definition ping_begin :: ping_state where
  "ping_begin = \<lparr>now = 1000, inbox = [(1080, reply_packet 0 0 57 0x1234 0x5678 0x08080808 0x0700000A 1000 [97, 98, 99, 100], 32)],
     info = ping_info_zero, total_rtt = 0, seqno = 0, iphdr_src = 0, up = ping_uplink, ping_outs = []\<rparr>"

lemma ping_host_address: "net_tool_ip4addr_aton ping_host = Inr (Some 0x08080808)"
  by code_simp






text \<open>The reply of the pinged host to the current request, when it is the next packet and comes in time, ends the wait and is
  counted with the time since the request, whatever its checksums and the fields nobody looks at; a reply with any other
  sequence number, such as a late answer to an earlier request, is not taken for it.\<close>

lemma ping_reply_is_counted:
  assumes "localip w (now s) = Some me" "localip w t = Some me" "net_tool_ip4addr_aton host_ip = Inr (Some peer)" "\<not> g_ping_stop w t"
    and "length d \<le> 65507" "inbox s = (t, reply_packet tos fragment ttl chk chk' peer me (seqno s) d, 28 + int (length d)) # rest"
    and "now s \<le> t" "t \<le> now s + timeout * 1000"
  shows "(case receive_loop w host_ip (length d) timeout (of_nat (now s)) (timeout * 1000) s of
        Inl _ \<Rightarrow> False
      | Inr (timed_out, s') \<Rightarrow> \<not> timed_out \<and> now s' = t \<and> inbox s' = rest
          \<and> ping_reply_num (info s') = ping_reply_num (info s) + 1 \<and> total_rtt s' = total_rtt s + of_nat (t - now s)
          \<and> time_average (info s') = (total_rtt s + of_nat (t - now s)) div of_nat (ping_reply_num (info s) + 1))
    \<and> (sq \<noteq> seqno s \<longrightarrow>
        is_expected_ping_response w t (seqno s) (take 28 (reply_packet tos fragment ttl chk chk' peer me sq d))
          (28 + int (length d)) host_ip (length d) = Inr None)"
proof -
  have "of_nat t - of_nat (now s) = (of_nat (t - now s) :: u32)" using assms(7) by (simp add: of_nat_diff)
  then show ?thesis
    using reply_counted [OF assms(1-8), of timeout "of_nat (now s)"] reply_expected [OF assms(2-5), of "seqno s" tos fragment ttl chk chk' sq]
    by (simp add: note_reply_def Let_def)
qed

definition waiting :: ping_state where
  "waiting = ping_begin\<lparr>seqno := 1000\<rparr>"

lemma ping_reply_is_counted_witness:
  "localip my_world (now waiting) = Some 0x0700000A \<and> localip my_world 1080 = Some 0x0700000A
   \<and> net_tool_ip4addr_aton ping_host = Inr (Some 0x08080808) \<and> \<not> g_ping_stop my_world 1080 \<and> length [97, 98, 99, 100 :: u8] \<le> 65507
   \<and> inbox waiting = [(1080, reply_packet 0 0 57 0x1234 0x5678 0x08080808 0x0700000A (seqno waiting) [97, 98, 99, 100],
        28 + int (length [97, 98, 99, 100 :: u8]))]
   \<and> now waiting \<le> 1080 \<and> 1080 \<le> now waiting + 1 * 1000 \<and> (999 :: u16) \<noteq> seqno waiting
   \<and> (case receive_loop my_world ping_host (length [97, 98, 99, 100 :: u8]) 1 (of_nat (now waiting)) (1 * 1000) waiting of
        Inl _ \<Rightarrow> False
      | Inr (timed_out, s') \<Rightarrow> \<not> timed_out \<and> now s' = 1080 \<and> inbox s' = []
          \<and> ping_reply_num (info s') = ping_reply_num (info waiting) + 1
          \<and> total_rtt s' = total_rtt waiting + of_nat (1080 - now waiting)
          \<and> time_average (info s') = (total_rtt waiting + of_nat (1080 - now waiting)) div of_nat (ping_reply_num (info waiting) + 1))
   \<and> is_expected_ping_response my_world 1080 (seqno waiting)
       (take 28 (reply_packet 0 0 57 0x1234 0x5678 0x08080808 0x0700000A 999 [97, 98, 99, 100]))
       (28 + int (length [97, 98, 99, 100 :: u8])) ping_host (length [97, 98, 99, 100 :: u8]) = Inr None"
proof -
  have a: "localip my_world (now waiting) = Some 0x0700000A" "localip my_world 1080 = Some 0x0700000A"
    "\<not> g_ping_stop my_world 1080" "length [97, 98, 99, 100 :: u8] \<le> 65507"
    "inbox waiting = [(1080, reply_packet 0 0 57 0x1234 0x5678 0x08080808 0x0700000A (seqno waiting) [97, 98, 99, 100],
        28 + int (length [97, 98, 99, 100 :: u8]))]"
    "now waiting \<le> 1080" "1080 \<le> now waiting + 1 * 1000" "(999 :: u16) \<noteq> seqno waiting"
    by (simp_all add: my_world_def waiting_def ping_begin_def)
  show ?thesis
    using ping_reply_is_counted [OF a(1,2) ping_host_address a(3-7), of 999] a ping_host_address by blast
qed

text \<open>Packets that are no responses can keep the ping waiting for as long as they go on coming, far beyond its timeout: the
  time to wait for the next packet is shortened only while the timeout has not passed, and stays at its last value
  after that.\<close>

lemma strays_prolong_the_wait:
  assumes "\<And>t. localip w t \<noteq> None" "1 \<le> timeout" "r = timeout * 1000 - 100" "timeout * 1000 + n * r < 2 ^ 32"
    and "inbox s = stray (now s + 100) # map (\<lambda>k. stray (now s + timeout * 1000 + k * r)) [0..<Suc n]"
  shows "case receive_loop w host_ip dlen timeout (of_nat (now s)) (timeout * 1000) s of
      Inl _ \<Rightarrow> False
    | Inr (timed_out, s') \<Rightarrow> timed_out \<and> now s' = now s + timeout * 1000 + Suc n * r \<and> info s' = info s"
proof -
  let ?t = "now s + 100" and ?t' = "now s + timeout * 1000"
  let ?rest = "map (\<lambda>k. stray (?t' + Suc k * r)) [0..<n]"
  have "map (\<lambda>k. stray (?t' + k * r)) [0..<Suc n] = stray ?t' # ?rest"
    by (simp only: upt_conv_Cons [of 0] map_Suc_upt [symmetric] zero_less_Suc list.map map_map comp_def mult_0 add_0_right)
  then have inbox: "inbox s = stray ?t # stray ?t' # ?rest" using assms(5) by simp
  let ?s1 = "s\<lparr>now := ?t, inbox := stray ?t' # ?rest\<rparr>" and ?s2 = "s\<lparr>now := ?t', inbox := ?rest\<rparr>"
  have step: "receive_loop w host_ip dlen timeout (of_nat (now s)) rcv x =
      receive_loop w host_ip dlen timeout (of_nat (now s))
        (if (of_nat t - of_nat (now s) :: u32) < of_nat (timeout * 1000)
         then unat (of_nat (timeout * 1000) - (of_nat t - of_nat (now s)) :: u32) else rcv) (x\<lparr>now := t, inbox := rest\<rparr>)"
    if "inbox x = stray t # rest" "now x \<le> t" "t \<le> now x + rcv" for x t rest rcv
    using assms(1) [of "now x"] recv_stray [OF that]
    by (subst receive_loop.simps) (auto simp: stray_not_expected Let_def simp del: of_nat_add of_nat_mult)
  have small: "timeout * 1000 < 2 ^ 32" using assms(4) by simp
  have word: "of_nat ?t - of_nat (now s) = (100 :: u32)" "of_nat ?t' - of_nat (now s) = (of_nat (timeout * 1000) :: u32)"
    by simp_all
  have n: "unat (of_nat (timeout * 1000) :: u32) = timeout * 1000"
    using small by (simp only: unat_of_nat) (simp add: take_bit_eq_mod)
  then have less: "(100 :: u32) < of_nat (timeout * 1000)"
    using assms(2) by (simp only: word_less_nat_alt) simp
  then have r: "unat (of_nat (timeout * 1000) - 100 :: u32) = r"
    using n assms(3) by (simp only: unat_sub order_less_imp_le) simp
  have "now s \<le> ?t" "?t \<le> now s + timeout * 1000" using assms(2) by simp_all
  from step [OF inbox this] have "receive_loop w host_ip dlen timeout (of_nat (now s)) (timeout * 1000) s =
      receive_loop w host_ip dlen timeout (of_nat (now s)) r ?s1"
    unfolding word(1) using less r by (simp only: if_True)
  also have "inbox ?s1 = stray ?t' # ?rest" "now ?s1 \<le> ?t'" "?t' \<le> now ?s1 + r" using assms(2,3) by simp_all
  from step [OF this] have "receive_loop w host_ip dlen timeout (of_nat (now s)) r ?s1 =
      receive_loop w host_ip dlen timeout (of_nat (now s)) r ?s2"
    unfolding word(2) by simp
  finally have eq: "receive_loop w host_ip dlen timeout (of_nat (now s)) (timeout * 1000) s =
      receive_loop w host_ip dlen timeout (of_nat (now s)) r ?s2" .
  have "\<exists>s'. receive_loop w host_ip dlen timeout (of_nat (now s)) r ?s2 = Inr (True, s') \<and> now s' = now ?s2 + Suc n * r
    \<and> info s' = info ?s2"
    by (rule strays_after_timeout) (use assms(1,4) in simp_all)
  then show ?thesis unfolding eq by auto
qed

definition flooded :: ping_state where
  "flooded = ping_begin\<lparr>inbox := stray (1000 + 100) # map (\<lambda>k. stray (1000 + 1 * 1000 + k * 900)) [0..<Suc 3]\<rparr>"

lemma strays_prolong_the_wait_witness:
  "(\<forall>t. localip my_world t \<noteq> None) \<and> (1 :: nat) \<le> 1 \<and> (900 :: nat) = 1 * 1000 - 100 \<and> (1 * 1000 + 3 * 900 :: nat) < 2 ^ 32
   \<and> inbox flooded = stray (now flooded + 100) # map (\<lambda>k. stray (now flooded + 1 * 1000 + k * 900)) [0..<Suc 3]
   \<and> (case receive_loop my_world ping_host 4 1 (of_nat (now flooded)) (1 * 1000) flooded of
        Inl _ \<Rightarrow> False
      | Inr (timed_out, s') \<Rightarrow> timed_out \<and> now s' = now flooded + 1 * 1000 + Suc 3 * 900 \<and> info s' = info flooded)"
proof -
  have w: "localip my_world t \<noteq> None" for t by (simp add: my_world_def)
  have n: "(1 :: nat) \<le> 1" "(900 :: nat) = 1 * 1000 - 100" "(1 * 1000 + 3 * 900 :: nat) < 2 ^ 32" by simp_all
  have "inbox flooded = stray (now flooded + 100) # map (\<lambda>k. stray (now flooded + 1 * 1000 + k * 900)) [0..<Suc 3]"
    by (simp add: flooded_def ping_begin_def)
  from strays_prolong_the_wait [OF w n this] this show ?thesis using w n by blast
qed

end
