(* ===== verification/Lwm2mUtils.thy ===== *)
theory Lwm2mUtils
  imports Prelude
begin

text \<open>
  \<open>APPLIB/wakaama/core/utils.c\<close> and \<open>list.c\<close>: conversions between numbers, text and bytes that the LwM2M
  engine uses, and its lists sorted by identifier.  A text that is written into a buffer is the list of its
  characters; the result 0 of the C functions is the empty list or \<open>None\<close>.  Allocation succeeds.  The
  conversions of \<open>double\<close> to and from text are not modelled.
\<close>

section \<open>Results that may be missing\<close>

text \<open>A function that returns \<open>NULL\<close>, 0 or \<open>-1\<close> for a failure, and may also fault.\<close>

definition bind_some :: "'a option res \<Rightarrow> ('a \<Rightarrow> 'b option res) \<Rightarrow> 'b option res" where
  "bind_some r f = bind_res r (\<lambda>x. case x of None \<Rightarrow> Inr None | Some y \<Rightarrow> f y)"

lemma bind_some_simps [simp, res_simps]:
  "bind_some (Inl e) f = Inl e" "bind_some (Inr None) f = Inr None" "bind_some (Inr (Some x)) f = f x"
  by (simp_all add: bind_some_def)

lemma bind_some_eq_Some: "bind_some r f = Inr (Some y) \<longleftrightarrow> (\<exists>x. r = Inr (Some x) \<and> f x = Inr (Some y))"
  by (auto simp: bind_some_def bind_res_eq_Inr split: option.splits)

section \<open>Numbers as text\<close>

definition INT64_MIN :: u64 where "INT64_MIN = 0x8000000000000000"
definition INT64_MAX :: u64 where "INT64_MAX = 0x7FFFFFFFFFFFFFFF"
definition UINT64_MAX :: u64 where "UINT64_MAX = 0xFFFFFFFFFFFFFFFF"

lemmas int64_defs = INT64_MIN_def INT64_MAX_def UINT64_MAX_def

definition is_digit :: "u8 \<Rightarrow> bool" where
  "is_digit c \<longleftrightarrow> 0x30 \<le> c \<and> c \<le> 0x39"

fun text_number :: "u64 \<Rightarrow> u8 list \<Rightarrow> u64 option" where
  "text_number result [] = Some result"
| "text_number result (c # cs) =
     (if is_digit c
      then if UINT64_MAX div 10 < result then None else text_number (result * 10 + ucast (c - 0x30)) cs
      else None)"

definition xiny_utils_textToInt :: "u8 list \<Rightarrow> u64 option" where
  "xiny_utils_textToInt buffer =
     (case buffer of
        [] \<Rightarrow> None
      | c # cs \<Rightarrow>
          (case text_number 0 (if c = 0x2D then cs else buffer) of
             None \<Rightarrow> None
           | Some result \<Rightarrow>
               if INT64_MAX < result then None else Some (if c = 0x2D then - result else result)))"

text \<open>
  The loop fills the buffer from its end; \<open>n\<close> positions are left in front of the text.  Negating the least
  number overflows.
\<close>

fun text_digits :: "nat \<Rightarrow> u64 \<Rightarrow> u8 list \<Rightarrow> nat \<times> u64 \<times> u8 list" where
  "text_digits 0 data out = (0, data, out)"
| "text_digits (Suc n) data out =
     (let out = (0x30 + ucast (data mod 10)) # out; data = data div 10
      in if 0 < n \<and> 0 < data then text_digits n data out else (n, data, out))"

definition xiny_utils_intToText :: "u64 \<Rightarrow> nat \<Rightarrow> u8 list res" where
  "xiny_utils_intToText data len =
     (if data = INT64_MIN then Inl SignedOverflow
      else if len = 0 then Inl BadAccess
      else
        let minus = (data <s 0); data = (if minus then - data else data);
            (n, data, out) = text_digits len data []
        in if 0 < data then Inr []
           else if minus then (if n = 1 then Inr [] else if n = 0 then Inl BadAccess else Inr (0x2D # out))
           else Inr out)"

section \<open>Bytes\<close>

definition le_bytes :: "nat \<Rightarrow> 'a::len word \<Rightarrow> u8 list" where
  "le_bytes n w = map (\<lambda>i. ucast (drop_bit (8 * i) w)) [0..<n]"

definition of_le_bytes :: "u8 list \<Rightarrow> 'a::len word" where
  "of_le_bytes bs = foldr (\<lambda>b w. push_bit 8 w OR ucast b) bs 0"

text \<open>A little-endian core.\<close>

definition xiny_utils_copyValue :: "u8 list \<Rightarrow> u8 list" where
  "xiny_utils_copyValue src = rev src"

definition xiny_utils_base64GetSize :: "nat \<Rightarrow> nat" where
  "xiny_utils_base64GetSize dataLen = 4 * (dataLen div 3) + (if dataLen mod 3 \<noteq> 0 then 4 else 0)"

definition b64Alphabet :: "u8 list" where
  "b64Alphabet = map of_char ''ABCDEFGHIJKLMNOPQRSTUVWXYZabcdefghijklmnopqrstuvwxyz0123456789+/''"

definition PRV_B64_PADDING :: u8 where "PRV_B64_PADDING = 0x3D"

definition b64_at :: "u8 \<Rightarrow> u8" where
  "b64_at i = b64Alphabet ! unat i"

fun prv_encodeBlock :: "u8 \<Rightarrow> u8 \<Rightarrow> u8 \<Rightarrow> u8 list" where
  "prv_encodeBlock a b c =
     [b64_at (drop_bit 2 a), b64_at (push_bit 4 (a AND 0x03) OR drop_bit 4 b),
      b64_at (push_bit 2 (b AND 0x0F) OR drop_bit 6 c), b64_at (c AND 0x3F)]"

fun base64_blocks :: "u8 list \<Rightarrow> u8 list" where
  "base64_blocks [] = []"
| "base64_blocks [a] =
     [b64_at (drop_bit 2 a), b64_at (push_bit 4 (a AND 0x03)), PRV_B64_PADDING, PRV_B64_PADDING]"
| "base64_blocks [a, b] =
     [b64_at (drop_bit 2 a), b64_at (push_bit 4 (a AND 0x03) OR drop_bit 4 b),
      b64_at (push_bit 2 (b AND 0x0F)), PRV_B64_PADDING]"
| "base64_blocks (a # b # c # rest) = prv_encodeBlock a b c @ base64_blocks rest"

definition xiny_utils_base64Encode :: "u8 list \<Rightarrow> nat \<Rightarrow> u8 list" where
  "xiny_utils_base64Encode dataP bufferLen =
     (if bufferLen < xiny_utils_base64GetSize (length dataP) then [] else base64_blocks dataP)"

section \<open>Lists sorted by identifier\<close>

text \<open>\<open>id_of\<close> reads the identifier of a node; the node that is removed comes with the list.\<close>

fun insert_behind :: "('a \<Rightarrow> u16) \<Rightarrow> 'a \<Rightarrow> 'a list \<Rightarrow> 'a list" where
  "insert_behind id_of node [] = [node]"
| "insert_behind id_of node (x # xs) =
     (if id_of x < id_of node then x # insert_behind id_of node xs else node # x # xs)"

definition xiny_lwm2m_list_add :: "('a \<Rightarrow> u16) \<Rightarrow> 'a list \<Rightarrow> 'a \<Rightarrow> 'a list" where
  "xiny_lwm2m_list_add id_of head node =
     (case head of
        [] \<Rightarrow> [node]
      | x # xs \<Rightarrow> if id_of node < id_of x then node # head else x # insert_behind id_of node xs)"

definition xiny_lwm2m_list_find :: "('a \<Rightarrow> u16) \<Rightarrow> 'a list \<Rightarrow> u16 \<Rightarrow> 'a option" where
  "xiny_lwm2m_list_find id_of head i =
     (case dropWhile (\<lambda>x. id_of x < i) head of
        [] \<Rightarrow> None
      | x # _ \<Rightarrow> if id_of x = i then Some x else None)"

fun remove_behind :: "('a \<Rightarrow> u16) \<Rightarrow> u16 \<Rightarrow> 'a list \<Rightarrow> 'a list \<times> 'a option" where
  "remove_behind id_of i [] = ([], None)"
| "remove_behind id_of i (x # xs) =
     (if id_of x < i then (case remove_behind id_of i xs of (ys, n) \<Rightarrow> (x # ys, n))
      else if id_of x = i then (xs, Some x) else (x # xs, None))"

definition xiny_lwm2m_list_remove :: "('a \<Rightarrow> u16) \<Rightarrow> 'a list \<Rightarrow> u16 \<Rightarrow> 'a list \<times> 'a option" where
  "xiny_lwm2m_list_remove id_of head i =
     (case head of
        [] \<Rightarrow> ([], None)
      | x # xs \<Rightarrow>
          if id_of x = i then (xs, Some x)
          else (case remove_behind id_of i xs of (ys, n) \<Rightarrow> (x # ys, n)))"

fun new_id_from :: "('a \<Rightarrow> u16) \<Rightarrow> u16 \<Rightarrow> 'a list \<Rightarrow> u16" where
  "new_id_from id_of i [] = i"
| "new_id_from id_of i (x # xs) = (if i = id_of x then new_id_from id_of (id_of x + 1) xs else i)"

definition xiny_lwm2m_list_newId :: "('a \<Rightarrow> u16) \<Rightarrow> 'a list \<Rightarrow> u16" where
  "xiny_lwm2m_list_newId id_of head = new_id_from id_of 0 head"

end
