(* ===== verification/Lwm2mUri.thy ===== *)
theory Lwm2mUri
  imports Lwm2mUtils
begin

text \<open>
  \<open>APPLIB/wakaama/core/uri.c\<close>: LwM2M paths, as CoAP path segments and as text.  A path is the list of its
  segments; a number that does not fit into \<open>int\<close> is a \<open>SignedOverflow\<close>, reading behind a text a \<open>BadAccess\<close>.
\<close>

record lwm2m_uri =
  uri_flag :: u8
  objectId :: u16
  instanceId :: u16
  resourceId :: u16

definition LWM2M_MAX_ID :: int where "LWM2M_MAX_ID = 0xFFFF"
definition LWM2M_URI_FLAG_OBJECT_ID :: u8 where "LWM2M_URI_FLAG_OBJECT_ID = 0x04"
definition LWM2M_URI_FLAG_INSTANCE_ID :: u8 where "LWM2M_URI_FLAG_INSTANCE_ID = 0x02"
definition LWM2M_URI_FLAG_RESOURCE_ID :: u8 where "LWM2M_URI_FLAG_RESOURCE_ID = 0x01"
definition LWM2M_URI_FLAG_DM :: u8 where "LWM2M_URI_FLAG_DM = 0x00"
definition LWM2M_URI_FLAG_DELETE_ALL :: u8 where "LWM2M_URI_FLAG_DELETE_ALL = 0x10"
definition LWM2M_URI_FLAG_REGISTRATION :: u8 where "LWM2M_URI_FLAG_REGISTRATION = 0x20"
definition LWM2M_URI_FLAG_BOOTSTRAP :: u8 where "LWM2M_URI_FLAG_BOOTSTRAP = 0x40"
definition LWM2M_URI_MASK_TYPE :: u8 where "LWM2M_URI_MASK_TYPE = 0x70"

lemmas uri_flag_defs = LWM2M_URI_FLAG_OBJECT_ID_def LWM2M_URI_FLAG_INSTANCE_ID_def LWM2M_URI_FLAG_RESOURCE_ID_def
  LWM2M_URI_FLAG_DM_def LWM2M_URI_FLAG_DELETE_ALL_def LWM2M_URI_FLAG_REGISTRATION_def LWM2M_URI_FLAG_BOOTSTRAP_def
  LWM2M_URI_MASK_TYPE_def

definition uri_zero :: lwm2m_uri where
  "uri_zero = \<lparr>uri_flag = 0, objectId = 0, instanceId = 0, resourceId = 0\<rparr>"

definition uri_set :: "u8 \<Rightarrow> lwm2m_uri \<Rightarrow> lwm2m_uri" where
  "uri_set f u = u\<lparr>uri_flag := uri_flag u OR f\<rparr>"

definition LWM2M_URI_IS_SET_INSTANCE :: "lwm2m_uri \<Rightarrow> bool" where
  "LWM2M_URI_IS_SET_INSTANCE u \<longleftrightarrow> uri_flag u AND LWM2M_URI_FLAG_INSTANCE_ID \<noteq> 0"

definition LWM2M_URI_IS_SET_RESOURCE :: "lwm2m_uri \<Rightarrow> bool" where
  "LWM2M_URI_IS_SET_RESOURCE u \<longleftrightarrow> uri_flag u AND LWM2M_URI_FLAG_RESOURCE_ID \<noteq> 0"

datatype uri_depth = URI_DEPTH_OBJECT | URI_DEPTH_OBJECT_INSTANCE | URI_DEPTH_RESOURCE | URI_DEPTH_RESOURCE_INSTANCE

definition INT32_MAX :: int where "INT32_MAX = 2147483647"

definition char_at :: "u8 list \<Rightarrow> nat \<Rightarrow> u8 res" where
  "char_at s i = (if i < length s then Inr (s ! i) else Inl BadAccess)"

definition slash :: u8 where "slash = 0x2F"

section \<open>Numbers\<close>

text \<open>Each digit is added and the sum multiplied by 10; the result is divided once at the end.\<close>

function number_loop :: "u8 list \<Rightarrow> nat \<Rightarrow> int \<Rightarrow> nat \<Rightarrow> (int \<times> nat) res" where
  "number_loop s uriLength result head =
     (if uriLength \<le> head then Inr (result div 10, head)
      else case char_at s head of
             Inl e \<Rightarrow> Inl e
           | Inr c \<Rightarrow>
               if c = slash then Inr (result div 10, head)
               else if is_digit c
                 then if INT32_MAX < (result + (int (unat c) - 48)) * 10 then Inl SignedOverflow
                      else number_loop s uriLength ((result + (int (unat c) - 48)) * 10) (head + 1)
               else Inr (-1, head))"
  by auto
termination by (relation "measure (\<lambda>(s, uriLength, result, head). uriLength - head)") auto

declare number_loop.simps [simp del]

definition prv_parseNumber :: "u8 list \<Rightarrow> nat \<Rightarrow> nat \<Rightarrow> (int \<times> nat) res" where
  "prv_parseNumber s uriLength head =
     bind_res (char_at s head) (\<lambda>c. if c = slash then Inr (-1, head) else number_loop s uriLength 0 head)"

definition xiny_uri_getNumber_lwm2m :: "u8 list \<Rightarrow> int res" where
  "xiny_uri_getNumber_lwm2m s = bind_res (prv_parseNumber s (length s) 0) (\<lambda>(n, _). Inr n)"

section \<open>Path segments\<close>

definition segment_is :: "string \<Rightarrow> u8 list list \<Rightarrow> bool" where
  "segment_is name path = (case path of [] \<Rightarrow> False | s # _ \<Rightarrow> s = map of_char name)"

text \<open>The segment against \<open>altPath + 1\<close>, up to the length of the segment.\<close>

fun alt_path_matches :: "u8 list \<Rightarrow> u8 list \<Rightarrow> nat \<Rightarrow> bool res" where
  "alt_path_matches alt [] i = Inr True"
| "alt_path_matches alt (c # cs) i =
     bind_res (char_at (alt @ [0]) (i + 1)) (\<lambda>a. if c \<noteq> a then Inr False else alt_path_matches alt cs (i + 1))"

text \<open>
  The three parts of \<open>xiny_uri_decode_lwm2m\<close>; \<open>None\<close> is the result \<open>NULL\<close>.
\<close>

definition decode_resource :: "lwm2m_uri \<Rightarrow> u8 list list \<Rightarrow> lwm2m_uri option res" where
  "decode_resource u path =
     (case path of
        [] \<Rightarrow> Inr (Some u)
      | s # rest \<Rightarrow>
          bind_res
            (if s = [] then Inr (Some u)
             else if \<not> LWM2M_URI_IS_SET_INSTANCE u then Inr None
             else bind_res (xiny_uri_getNumber_lwm2m s) (\<lambda>n.
               if n < 0 \<or> LWM2M_MAX_ID < n then Inr None
               else Inr (Some (uri_set LWM2M_URI_FLAG_RESOURCE_ID (u\<lparr>resourceId := word_of_int n\<rparr>)))))
            (\<lambda>r. Inr (if rest = [] then r else None)))"

definition decode_instance :: "lwm2m_uri \<Rightarrow> u8 list list \<Rightarrow> lwm2m_uri option res" where
  "decode_instance u path =
     (case path of
        [] \<Rightarrow> Inr (Some u)
      | s # rest \<Rightarrow>
          if s = [] then decode_resource u rest
          else bind_res (xiny_uri_getNumber_lwm2m s) (\<lambda>n.
            if n < 0 \<or> LWM2M_MAX_ID \<le> n then Inr None
            else decode_resource (uri_set LWM2M_URI_FLAG_INSTANCE_ID (u\<lparr>instanceId := word_of_int n\<rparr>)) rest))"

definition decode_object :: "lwm2m_uri \<Rightarrow> u8 list \<Rightarrow> u8 list list \<Rightarrow> lwm2m_uri option res" where
  "decode_object u s rest =
     bind_res (xiny_uri_getNumber_lwm2m s) (\<lambda>n.
       if n < 0 \<or> LWM2M_MAX_ID < n then Inr None
       else
         let u = uri_set LWM2M_URI_FLAG_OBJECT_ID (u\<lparr>objectId := word_of_int n\<rparr>)
         in if uri_flag u AND LWM2M_URI_MASK_TYPE = LWM2M_URI_FLAG_REGISTRATION
            then Inr (if rest = [] then Some u else None)
            else decode_instance (uri_set LWM2M_URI_FLAG_DM u) rest)"

definition decode_dm :: "u8 list option \<Rightarrow> u8 list list \<Rightarrow> lwm2m_uri option res" where
  "decode_dm altPath path =
     bind_some
       (case altPath of
          None \<Rightarrow> Inr (Some path)
        | Some alt \<Rightarrow>
            (case path of
               [] \<Rightarrow> Inr None
             | s # rest \<Rightarrow> bind_res (alt_path_matches alt s 0) (\<lambda>ok. Inr (if ok then Some rest else None))))
       (\<lambda>path. case path of
          [] \<Rightarrow> Inr (Some (uri_set LWM2M_URI_FLAG_DELETE_ALL uri_zero))
        | s # rest \<Rightarrow>
            if s = [] then Inr (Some (uri_set LWM2M_URI_FLAG_DELETE_ALL uri_zero)) else decode_object uri_zero s rest)"

definition xiny_uri_decode_lwm2m :: "u8 list option \<Rightarrow> u8 list list \<Rightarrow> lwm2m_uri option res" where
  "xiny_uri_decode_lwm2m altPath path =
     (if segment_is ''rd'' path
      then
        let u = uri_set LWM2M_URI_FLAG_REGISTRATION uri_zero
        in (case tl path of [] \<Rightarrow> Inr (Some u) | s # rest \<Rightarrow> decode_object u s rest)
      else if segment_is ''bs'' path
        then Inr (if tl path = [] then Some (uri_set LWM2M_URI_FLAG_BOOTSTRAP uri_zero) else None)
      else decode_dm altPath path)"

section \<open>Text\<close>

definition is_space :: "u8 \<Rightarrow> bool" where
  "is_space c \<longleftrightarrow> c = 0x20 \<or> 0x09 \<le> c \<and> c \<le> 0x0D"

text \<open>One identifier and the slash behind it; \<open>None\<close> for a number that is not allowed.\<close>

definition text_id :: "int \<Rightarrow> u8 list \<Rightarrow> nat \<Rightarrow> nat \<Rightarrow> (u16 \<times> nat) option res" where
  "text_id limit buffer buffer_len head =
     bind_res (prv_parseNumber buffer buffer_len head) (\<lambda>(n, head).
       if n < 0 \<or> limit < n then Inr None else Inr (Some (word_of_int n, head)))"

definition skip_slash :: "u8 list \<Rightarrow> nat \<Rightarrow> nat res" where
  "skip_slash buffer head = bind_res (char_at buffer head) (\<lambda>c. Inr (if c = slash then head + 1 else head))"

definition xiny_lwm2m_stringToUri :: "u8 list \<Rightarrow> nat \<Rightarrow> (nat \<times> lwm2m_uri) option res" where
  "xiny_lwm2m_stringToUri buffer buffer_len =
     (let head = length (takeWhile is_space (take buffer_len buffer))
      in if buffer_len \<le> head then Inr None
         else
           bind_res (char_at buffer head) (\<lambda>c.
           if c \<noteq> slash \<or> head + 1 = buffer_len then Inr None
           else bind_some (text_id LWM2M_MAX_ID buffer buffer_len (head + 1)) (\<lambda>(i, head).
           let u = uri_set LWM2M_URI_FLAG_OBJECT_ID (uri_zero\<lparr>objectId := i\<rparr>)
           in bind_res (skip_slash buffer head) (\<lambda>head.
           if buffer_len \<le> head then Inr (Some (head, u))
           else bind_some (text_id (LWM2M_MAX_ID - 1) buffer buffer_len head) (\<lambda>(i, head).
           let u = uri_set LWM2M_URI_FLAG_INSTANCE_ID (u\<lparr>instanceId := i\<rparr>)
           in bind_res (skip_slash buffer head) (\<lambda>head.
           if buffer_len \<le> head then Inr (Some (head, u))
           else bind_some (text_id (LWM2M_MAX_ID - 1) buffer buffer_len head) (\<lambda>(i, head).
           let u = uri_set LWM2M_URI_FLAG_RESOURCE_ID (u\<lparr>resourceId := i\<rparr>)
           in Inr (if head \<noteq> buffer_len then None else Some (head, u)))))))))"

text \<open>A number behind what is written so far; there must be room for more than one character behind it.\<close>

definition put_id :: "u16 \<Rightarrow> nat \<Rightarrow> u8 list \<Rightarrow> u8 list option res" where
  "put_id i bufferLen text =
     bind_res (xiny_utils_intToText (ucast i) (bufferLen - length text)) (\<lambda>t.
       Inr (if t = [] \<or> bufferLen - 1 \<le> length text + length t then None else Some (text @ t)))"

definition xiny_uri_toString_lwm2m :: "lwm2m_uri option \<Rightarrow> nat \<Rightarrow> (u8 list \<times> uri_depth) option res" where
  "xiny_uri_toString_lwm2m uriP bufferLen =
     (if bufferLen = 0 then Inl BadAccess
      else case uriP of
        None \<Rightarrow> Inr (Some ([slash], URI_DEPTH_OBJECT))
      | Some u \<Rightarrow>
          bind_some (put_id (objectId u) bufferLen [slash]) (\<lambda>text.
          if \<not> LWM2M_URI_IS_SET_INSTANCE u then Inr (Some (text @ [slash], URI_DEPTH_OBJECT_INSTANCE))
          else bind_some (put_id (instanceId u) bufferLen (text @ [slash])) (\<lambda>text.
          if \<not> LWM2M_URI_IS_SET_RESOURCE u then Inr (Some (text @ [slash], URI_DEPTH_RESOURCE))
          else bind_some (put_id (resourceId u) bufferLen (text @ [slash])) (\<lambda>text.
          Inr (Some (text @ [slash], URI_DEPTH_RESOURCE_INSTANCE))))))"

end
