(* ===== verification/ErCoap.thy ===== *)
theory ErCoap
  imports Lwm2mUri
begin

text \<open>
  CoAP messages: \<open>APPLIB/wakaama/core/er-coap-13/er-coap-13.c\<close> with the macros and types of its header.  An array with
  its length is a list.  The bitmap of the options, five bytes, is a word of 40 bits; the enumeration of the content types
  takes two bytes.  A message is read from the memory at \<open>data\<close>, of which the first bytes are the message; reading
  behind that memory is a \<open>BadAccess\<close>.  Allocation succeeds.
\<close>

section \<open>Numbers\<close>

datatype coap_type = COAP_TYPE_CON | COAP_TYPE_NON | COAP_TYPE_ACK | COAP_TYPE_RST

fun coap_type_no :: "coap_type \<Rightarrow> u8" where
  "coap_type_no COAP_TYPE_CON = 0"
| "coap_type_no COAP_TYPE_NON = 1"
| "coap_type_no COAP_TYPE_ACK = 2"
| "coap_type_no COAP_TYPE_RST = 3"

definition coap_type_of :: "u8 \<Rightarrow> coap_type" where
  "coap_type_of n = (if n = 0 then COAP_TYPE_CON else if n = 1 then COAP_TYPE_NON
    else if n = 2 then COAP_TYPE_ACK else COAP_TYPE_RST)"

definition COAP_GET :: u8 where "COAP_GET = 1"
definition COAP_DELETE :: u8 where "COAP_DELETE = 4"
definition COAP_NO_ERROR :: u8 where "COAP_NO_ERROR = 0"
definition COAP_BAD_REQUEST_4_00 :: u8 where "COAP_BAD_REQUEST_4_00 = 128"
definition COAP_BAD_OPTION_4_02 :: u8 where "COAP_BAD_OPTION_4_02 = 130"
definition COAP_PROXYING_NOT_SUPPORTED_5_05 :: u8 where "COAP_PROXYING_NOT_SUPPORTED_5_05 = 165"

definition COAP_TOKEN_LEN :: nat where "COAP_TOKEN_LEN = 8"
definition COAP_ETAG_LEN :: nat where "COAP_ETAG_LEN = 8"
definition COAP_HEADER_LEN :: nat where "COAP_HEADER_LEN = 4"
definition COAP_MAX_OPTION_HEADER_LEN :: nat where "COAP_MAX_OPTION_HEADER_LEN = 5"
definition COAP_MAX_ACCEPT_NUM :: nat where "COAP_MAX_ACCEPT_NUM = 2"

definition COAP_OPTION_IF_MATCH :: nat where "COAP_OPTION_IF_MATCH = 1"
definition COAP_OPTION_URI_HOST :: nat where "COAP_OPTION_URI_HOST = 3"
definition COAP_OPTION_ETAG :: nat where "COAP_OPTION_ETAG = 4"
definition COAP_OPTION_IF_NONE_MATCH :: nat where "COAP_OPTION_IF_NONE_MATCH = 5"
definition COAP_OPTION_OBSERVE :: nat where "COAP_OPTION_OBSERVE = 6"
definition COAP_OPTION_URI_PORT :: nat where "COAP_OPTION_URI_PORT = 7"
definition COAP_OPTION_LOCATION_PATH :: nat where "COAP_OPTION_LOCATION_PATH = 8"
definition COAP_OPTION_URI_PATH :: nat where "COAP_OPTION_URI_PATH = 11"
definition COAP_OPTION_CONTENT_TYPE :: nat where "COAP_OPTION_CONTENT_TYPE = 12"
definition COAP_OPTION_MAX_AGE :: nat where "COAP_OPTION_MAX_AGE = 14"
definition COAP_OPTION_URI_QUERY :: nat where "COAP_OPTION_URI_QUERY = 15"
definition COAP_OPTION_ACCEPT :: nat where "COAP_OPTION_ACCEPT = 17"
definition COAP_OPTION_TOKEN :: nat where "COAP_OPTION_TOKEN = 19"
definition COAP_OPTION_LOCATION_QUERY :: nat where "COAP_OPTION_LOCATION_QUERY = 20"
definition COAP_OPTION_BLOCK2 :: nat where "COAP_OPTION_BLOCK2 = 23"
definition COAP_OPTION_BLOCK1 :: nat where "COAP_OPTION_BLOCK1 = 27"
definition COAP_OPTION_SIZE :: nat where "COAP_OPTION_SIZE = 28"
definition COAP_OPTION_PROXY_URI :: nat where "COAP_OPTION_PROXY_URI = 35"

lemmas coap_option_defs = COAP_OPTION_IF_MATCH_def COAP_OPTION_URI_HOST_def COAP_OPTION_ETAG_def
  COAP_OPTION_IF_NONE_MATCH_def COAP_OPTION_OBSERVE_def COAP_OPTION_URI_PORT_def COAP_OPTION_LOCATION_PATH_def
  COAP_OPTION_URI_PATH_def COAP_OPTION_CONTENT_TYPE_def COAP_OPTION_MAX_AGE_def COAP_OPTION_URI_QUERY_def
  COAP_OPTION_ACCEPT_def COAP_OPTION_TOKEN_def COAP_OPTION_LOCATION_QUERY_def COAP_OPTION_BLOCK2_def
  COAP_OPTION_BLOCK1_def COAP_OPTION_SIZE_def COAP_OPTION_PROXY_URI_def

lemmas coap_defs = COAP_GET_def COAP_DELETE_def COAP_NO_ERROR_def COAP_BAD_REQUEST_4_00_def COAP_BAD_OPTION_4_02_def
  COAP_PROXYING_NOT_SUPPORTED_5_05_def COAP_TOKEN_LEN_def COAP_ETAG_LEN_def COAP_HEADER_LEN_def
  COAP_MAX_OPTION_HEADER_LEN_def COAP_MAX_ACCEPT_NUM_def

section \<open>The message\<close>

record coap_packet =
  coap_version :: u8
  coap_type :: coap_type
  coap_code :: u8
  coap_mid :: u16
  coap_options :: "40 word"
  content_type :: u16
  max_age :: u32
  proxiny_uri :: "u8 list"
  etag :: "u8 list"
  uri_host :: "u8 list"
  location_path :: "u8 list list"
  uri_port :: u16
  location_query :: "u8 list"
  coap_uri_path :: "u8 list list"
  coap_observe :: u32
  coap_token :: "u8 list"
  coap_accept :: "u16 list"
  if_match :: "u8 list"
  block2_num :: u32
  block2_more :: u8
  block2_size :: u16
  block2_offset :: u32
  block1_num :: u32
  block1_more :: u8
  block1_size :: u16
  block1_offset :: u32
  coap_size :: u32
  uri_query :: "u8 list list"
  if_none_match :: u8
  coap_payload :: "u8 list"

definition packet_zero :: coap_packet where
  "packet_zero =
     \<lparr>coap_version = 0, coap_type = COAP_TYPE_CON, coap_code = 0, coap_mid = 0, coap_options = 0, content_type = 0,
      max_age = 0, proxiny_uri = [], etag = [], uri_host = [], location_path = [], uri_port = 0, location_query = [],
      coap_uri_path = [], coap_observe = 0, coap_token = [], coap_accept = [], if_match = [],
      block2_num = 0, block2_more = 0, block2_size = 0, block2_offset = 0,
      block1_num = 0, block1_more = 0, block1_size = 0, block1_offset = 0,
      coap_size = 0, uri_query = [], if_none_match = 0, coap_payload = []\<rparr>"

definition xiny_coap_init_message :: "coap_type \<Rightarrow> u8 \<Rightarrow> u16 \<Rightarrow> coap_packet" where
  "xiny_coap_init_message ty code mid = packet_zero\<lparr>coap_type := ty, coap_code := code, coap_mid := mid\<rparr>"

text \<open>
  The macros test \<open>opt <= 40\<close>: the option 40 is set in the byte behind the bitmap.  Only the parser uses a number that is
  not a constant.
\<close>

definition xiny_IS_OPTION :: "coap_packet \<Rightarrow> nat \<Rightarrow> bool" where
  "xiny_IS_OPTION p opt \<longleftrightarrow> bit (coap_options p) opt"

definition set_option :: "nat \<Rightarrow> coap_packet \<Rightarrow> coap_packet" where
  "set_option opt p = p\<lparr>coap_options := coap_options p OR push_bit opt 1\<rparr>"

definition xiny_SET_OPTION :: "coap_packet \<Rightarrow> nat \<Rightarrow> coap_packet res" where
  "xiny_SET_OPTION p opt = (if opt = 40 then Inl BadAccess else if opt < 40 then Inr (set_option opt p) else Inr p)"

section \<open>Filling a message\<close>

text \<open>The length of an element is kept in a byte.\<close>

definition xiny_coap_add_multi_option :: "u8 list list \<Rightarrow> u8 list \<Rightarrow> u8 list list" where
  "xiny_coap_add_multi_option dst option = dst @ [take (length option mod 256) option]"

definition xiny_coap_set_status_code :: "coap_packet \<Rightarrow> nat \<Rightarrow> bool \<times> coap_packet" where
  "xiny_coap_set_status_code p code = (if code \<le> 0xFF then (True, p\<lparr>coap_code := of_nat code\<rparr>) else (False, p))"

definition xiny_coap_set_header_content_type :: "u32 \<Rightarrow> coap_packet \<Rightarrow> coap_packet" where
  "xiny_coap_set_header_content_type v p = set_option COAP_OPTION_CONTENT_TYPE (p\<lparr>content_type := ucast v\<rparr>)"

definition xiny_coap_set_header_accept :: "u16 \<Rightarrow> coap_packet \<Rightarrow> coap_packet" where
  "xiny_coap_set_header_accept v p =
     (if length (coap_accept p) < COAP_MAX_ACCEPT_NUM
      then set_option COAP_OPTION_ACCEPT (p\<lparr>coap_accept := coap_accept p @ [v]\<rparr>) else p)"

definition xiny_coap_set_header_max_age :: "u32 \<Rightarrow> coap_packet \<Rightarrow> coap_packet" where
  "xiny_coap_set_header_max_age age p = set_option COAP_OPTION_MAX_AGE (p\<lparr>max_age := age\<rparr>)"

definition xiny_coap_set_header_etag :: "u8 list \<Rightarrow> coap_packet \<Rightarrow> coap_packet" where
  "xiny_coap_set_header_etag v p = set_option COAP_OPTION_ETAG (p\<lparr>etag := take COAP_ETAG_LEN v\<rparr>)"

definition xiny_coap_set_header_if_match :: "u8 list \<Rightarrow> coap_packet \<Rightarrow> coap_packet" where
  "xiny_coap_set_header_if_match v p = set_option COAP_OPTION_IF_MATCH (p\<lparr>if_match := take COAP_ETAG_LEN v\<rparr>)"

definition xiny_coap_set_header_if_none_match :: "coap_packet \<Rightarrow> coap_packet" where
  "xiny_coap_set_header_if_none_match p = set_option COAP_OPTION_IF_NONE_MATCH p"

definition xiny_coap_set_header_token :: "u8 list \<Rightarrow> nat \<Rightarrow> coap_packet \<Rightarrow> coap_packet" where
  "xiny_coap_set_header_token token token_len p =
     set_option COAP_OPTION_TOKEN (p\<lparr>coap_token := take (min COAP_TOKEN_LEN token_len) token\<rparr>)"

definition xiny_coap_get_header_token :: "coap_packet \<Rightarrow> u8 list" where
  "xiny_coap_get_header_token p = (if xiny_IS_OPTION p COAP_OPTION_TOKEN then coap_token p else [])"

text \<open>A text without its zero.\<close>

definition xiny_coap_set_header_proxiny_uri :: "u8 list \<Rightarrow> coap_packet \<Rightarrow> coap_packet" where
  "xiny_coap_set_header_proxiny_uri uri p = set_option COAP_OPTION_PROXY_URI (p\<lparr>proxiny_uri := uri\<rparr>)"

definition xiny_coap_set_header_uri_host :: "u8 list \<Rightarrow> coap_packet \<Rightarrow> coap_packet" where
  "xiny_coap_set_header_uri_host h p = set_option COAP_OPTION_URI_HOST (p\<lparr>uri_host := h\<rparr>)"

text \<open>The parts between the separators; nothing comes behind a separator at the end.\<close>

function text_segments :: "u8 \<Rightarrow> u8 list \<Rightarrow> u8 list list \<Rightarrow> u8 list list" where
  "text_segments sep path dst =
     (let part = takeWhile (\<lambda>c. c \<noteq> sep) path; rest = drop (length part + 1) path;
          dst = xiny_coap_add_multi_option dst part
      in if rest = [] then dst else text_segments sep rest dst)"
  by pat_completeness auto
termination
  by (relation "measure (\<lambda>(sep, path, dst). length path)") auto

declare text_segments.simps [simp del]

definition skip_one :: "u8 \<Rightarrow> u8 list \<Rightarrow> u8 list" where
  "skip_one c path = (case path of [] \<Rightarrow> [] | x # xs \<Rightarrow> if x = c then xs else path)"

definition xiny_coap_set_header_uri_path :: "u8 list \<Rightarrow> coap_packet \<Rightarrow> coap_packet" where
  "xiny_coap_set_header_uri_path path p =
     set_option COAP_OPTION_URI_PATH (p\<lparr>coap_uri_path := text_segments 0x2F (skip_one 0x2F path) []\<rparr>)"

definition xiny_coap_set_header_uri_path_segment :: "u8 list option \<Rightarrow> coap_packet \<Rightarrow> coap_packet" where
  "xiny_coap_set_header_uri_path_segment segment p =
     set_option COAP_OPTION_URI_PATH
       (p\<lparr>coap_uri_path := xiny_coap_add_multi_option (coap_uri_path p) (case segment of None \<Rightarrow> [] | Some s \<Rightarrow> s)\<rparr>)"

definition xiny_coap_set_header_uri_query :: "u8 list \<Rightarrow> coap_packet \<Rightarrow> coap_packet" where
  "xiny_coap_set_header_uri_query query p =
     set_option COAP_OPTION_URI_QUERY (p\<lparr>uri_query := text_segments 0x26 (skip_one 0x3F query) []\<rparr>)"

definition xiny_coap_set_header_location_path :: "u8 list \<Rightarrow> coap_packet \<Rightarrow> coap_packet" where
  "xiny_coap_set_header_location_path path p =
     set_option COAP_OPTION_LOCATION_PATH (p\<lparr>location_path := text_segments 0x2F (skip_one 0x2F path) []\<rparr>)"

definition xiny_coap_set_header_location_query :: "u8 list \<Rightarrow> coap_packet \<Rightarrow> coap_packet" where
  "xiny_coap_set_header_location_query query p =
     set_option COAP_OPTION_LOCATION_QUERY (p\<lparr>location_query := dropWhile (\<lambda>c. c = 0x3F) query\<rparr>)"

definition xiny_coap_set_header_observe :: "u32 \<Rightarrow> coap_packet \<Rightarrow> coap_packet" where
  "xiny_coap_set_header_observe v p = set_option COAP_OPTION_OBSERVE (p\<lparr>coap_observe := 0x00FFFFFF AND v\<rparr>)"

definition block_ok :: "u32 \<Rightarrow> u16 \<Rightarrow> bool" where
  "block_ok num s \<longleftrightarrow> 16 \<le> s \<and> s \<le> 2048 \<and> num \<le> 0x0FFFFF"

definition xiny_coap_set_header_block2 :: "u32 \<Rightarrow> u8 \<Rightarrow> u16 \<Rightarrow> coap_packet \<Rightarrow> bool \<times> coap_packet" where
  "xiny_coap_set_header_block2 num m s p =
     (if block_ok num s
      then (True, set_option COAP_OPTION_BLOCK2
             (p\<lparr>block2_num := num, block2_more := (if m \<noteq> 0 then 1 else 0), block2_size := s\<rparr>))
      else (False, p))"

definition xiny_coap_set_header_block1 :: "u32 \<Rightarrow> u8 \<Rightarrow> u16 \<Rightarrow> coap_packet \<Rightarrow> bool \<times> coap_packet" where
  "xiny_coap_set_header_block1 num m s p =
     (if block_ok num s
      then (True, set_option COAP_OPTION_BLOCK1 (p\<lparr>block1_num := num, block1_more := m, block1_size := s\<rparr>))
      else (False, p))"

definition xiny_coap_set_header_size :: "u32 \<Rightarrow> coap_packet \<Rightarrow> coap_packet" where
  "xiny_coap_set_header_size v p = set_option COAP_OPTION_SIZE (p\<lparr>coap_size := v\<rparr>)"

definition xiny_coap_set_payload :: "u8 list \<Rightarrow> coap_packet \<Rightarrow> coap_packet" where
  "xiny_coap_set_payload b p = p\<lparr>coap_payload := take (length b mod 65536) b\<rparr>"

definition xiny_coap_free_header :: "coap_packet \<Rightarrow> coap_packet" where
  "xiny_coap_free_header p = p\<lparr>coap_uri_path := [], uri_query := [], location_path := []\<rparr>"

section \<open>Writing\<close>

definition coap_option_nibble :: "nat \<Rightarrow> u8" where
  "coap_option_nibble v = (if v < 13 then of_nat v else if v \<le> 0xFF + 13 then 13 else 14)"

definition option_extension :: "nat \<Rightarrow> u8 list" where
  "option_extension x =
     (if 268 < x then [of_nat ((x - 269) div 256), of_nat (x - 269)] else if 12 < x then [of_nat (x - 13)] else [])"

definition coap_set_option_header :: "nat \<Rightarrow> nat \<Rightarrow> u8 list" where
  "coap_set_option_header delta len =
     [push_bit 4 (coap_option_nibble delta) OR coap_option_nibble len] @ option_extension delta @ option_extension len"

definition int_bytes :: "u32 \<Rightarrow> u8 list" where
  "int_bytes v =
     (if v AND 0xFF000000 \<noteq> 0 then [ucast (drop_bit 24 v)] else [])
     @ (if v AND 0xFFFF0000 \<noteq> 0 then [ucast (drop_bit 16 v)] else [])
     @ (if v AND 0xFFFFFF00 \<noteq> 0 then [ucast (drop_bit 8 v)] else [])
     @ (if v \<noteq> 0 then [ucast v] else [])"

definition xiny_coap_serialize_int_option :: "nat \<Rightarrow> nat \<Rightarrow> u32 \<Rightarrow> u8 list" where
  "xiny_coap_serialize_int_option number current v =
     coap_set_option_header (number - current) (length (int_bytes v)) @ int_bytes v"

text \<open>The elements of a list, the first with the difference to the option before.\<close>

fun xiny_coap_serialize_multi_option :: "nat \<Rightarrow> nat \<Rightarrow> u8 list list \<Rightarrow> u8 list" where
  "xiny_coap_serialize_multi_option number current [] = []"
| "xiny_coap_serialize_multi_option number current (x # xs) =
     coap_set_option_header (number - current) (length x) @ x @ xiny_coap_serialize_multi_option number number xs"

text \<open>
  The parts of an array; the character behind a splitter is not looked at.  At the end of the array the code reads
  the byte behind it, whose value does not matter.
\<close>

function split_parts :: "u8 \<Rightarrow> u8 list \<Rightarrow> nat \<Rightarrow> nat \<Rightarrow> u8 list list" where
  "split_parts c a j start =
     (if length a < j then []
      else if j = length a \<or> a ! j = c then take (j - start) (drop start a) # split_parts c a (j + 2) (j + 1)
      else split_parts c a (j + 1) start)"
  by pat_completeness auto
termination
  by (relation "measure (\<lambda>(c, a, j, start). length a + 1 - j)") auto

declare split_parts.simps [simp del]

definition xiny_coap_serialize_array_option :: "nat \<Rightarrow> nat \<Rightarrow> u8 list \<Rightarrow> u8 \<Rightarrow> u8 list" where
  "xiny_coap_serialize_array_option number current a split_char =
     (if split_char \<noteq> 0 then xiny_coap_serialize_multi_option number current (split_parts split_char a 0 0)
      else coap_set_option_header (number - current) (length a) @ a)"

text \<open>\<open>do { value >>= 1; result++; } while (value)\<close>\<close>

function log_2_loop :: "u16 \<Rightarrow> u16 \<Rightarrow> u16" where
  "log_2_loop v result =
     (let v = drop_bit 1 v; result = result + 1 in if v \<noteq> 0 then log_2_loop v result else result)"
  by pat_completeness auto
termination
proof (relation "measure (\<lambda>(v, result). unat v)")
  fix v result x y :: u16
  assume x: "x = drop_bit 1 v" and "y = result + 1" and "x \<noteq> 0"
  have "unat x = unat v div 2" by (simp add: x drop_bit_eq_div unat_div)
  moreover have "0 < unat x" using \<open>x \<noteq> 0\<close> by (simp add: unat_gt_0)
  ultimately show "((x, y), v, result) \<in> measure (\<lambda>(v, result). unat v)" by simp
qed simp

declare log_2_loop.simps [simp del]

definition xiny_coap_log_2 :: "u16 \<Rightarrow> u16" where
  "xiny_coap_log_2 v = (let result = log_2_loop v 0 in if result \<noteq> 0 then result - 1 else result)"

definition block_value :: "u32 \<Rightarrow> u8 \<Rightarrow> u16 \<Rightarrow> u32" where
  "block_value num m s =
     (let block = push_bit 4 num; block = (if m \<noteq> 0 then block OR 0x8 else block)
      in block OR (0xF AND ucast (xiny_coap_log_2 (s div 16))))"

text \<open>
  The macros \<open>xiny_COAP_SERIALIZE_*_OPTION\<close>: the number of the last option and what is written.  A list that is set but
  empty writes nothing, yet its number becomes the last one.
\<close>

definition put_int_option :: "nat \<Rightarrow> u32 \<Rightarrow> coap_packet \<Rightarrow> nat \<times> u8 list \<Rightarrow> nat \<times> u8 list" where
  "put_int_option number v p = (\<lambda>(current, out).
     if xiny_IS_OPTION p number then (number, out @ xiny_coap_serialize_int_option number current v) else (current, out))"

definition put_array_option :: "nat \<Rightarrow> u8 list \<Rightarrow> u8 \<Rightarrow> coap_packet \<Rightarrow> nat \<times> u8 list \<Rightarrow> nat \<times> u8 list" where
  "put_array_option number a split_char p = (\<lambda>(current, out).
     if xiny_IS_OPTION p number then (number, out @ xiny_coap_serialize_array_option number current a split_char)
     else (current, out))"

definition put_multi_option :: "nat \<Rightarrow> u8 list list \<Rightarrow> coap_packet \<Rightarrow> nat \<times> u8 list \<Rightarrow> nat \<times> u8 list" where
  "put_multi_option number xs p = (\<lambda>(current, out).
     if xiny_IS_OPTION p number then (number, out @ xiny_coap_serialize_multi_option number current xs) else (current, out))"

definition put_accept_option :: "coap_packet \<Rightarrow> nat \<times> u8 list \<Rightarrow> nat \<times> u8 list" where
  "put_accept_option p out =
     (if xiny_IS_OPTION p COAP_OPTION_ACCEPT
      then fold (\<lambda>a (current, out).
             (COAP_OPTION_ACCEPT, out @ xiny_coap_serialize_int_option COAP_OPTION_ACCEPT current (ucast a)))
             (coap_accept p) out
      else out)"

definition put_options :: "coap_packet \<Rightarrow> nat \<times> u8 list \<Rightarrow> nat \<times> u8 list" where
  "put_options p out = fold (\<lambda>f. f)
     [put_array_option COAP_OPTION_IF_MATCH (if_match p) 0 p,
      put_array_option COAP_OPTION_URI_HOST (uri_host p) 0 p,
      put_array_option COAP_OPTION_ETAG (etag p) 0 p,
      put_int_option COAP_OPTION_IF_NONE_MATCH 0 p,
      put_int_option COAP_OPTION_OBSERVE (coap_observe p) p,
      put_int_option COAP_OPTION_URI_PORT (ucast (uri_port p)) p,
      put_multi_option COAP_OPTION_LOCATION_PATH (location_path p) p,
      put_multi_option COAP_OPTION_URI_PATH (coap_uri_path p) p,
      put_int_option COAP_OPTION_CONTENT_TYPE (ucast (content_type p)) p,
      put_int_option COAP_OPTION_MAX_AGE (max_age p) p,
      put_multi_option COAP_OPTION_URI_QUERY (uri_query p) p,
      put_accept_option p,
      put_array_option COAP_OPTION_LOCATION_QUERY (location_query p) 0x26 p,
      put_int_option COAP_OPTION_BLOCK2 (block_value (block2_num p) (block2_more p) (block2_size p)) p,
      put_int_option COAP_OPTION_BLOCK1 (block_value (block1_num p) (block1_more p) (block1_size p)) p,
      put_int_option COAP_OPTION_SIZE (coap_size p) p,
      put_array_option COAP_OPTION_PROXY_URI (proxiny_uri p) 0 p] out"

definition coap_header :: "coap_packet \<Rightarrow> u8 list" where
  "coap_header p =
     [(0xC0 AND push_bit 6 1) OR (0x30 AND push_bit 4 (coap_type_no (coap_type p))) OR (0x0F AND of_nat (length (coap_token p))),
      coap_code p, ucast (drop_bit 8 (coap_mid p)), ucast (coap_mid p)] @ coap_token p"

text \<open>What is written, and the message afterwards, without its lists.\<close>

definition xiny_coap_serialize_message :: "coap_packet \<Rightarrow> u8 list \<times> coap_packet" where
  "xiny_coap_serialize_message p =
     (coap_header p @ snd (put_options p (0, [])) @ (if coap_payload p \<noteq> [] then [0xFF] else []) @ coap_payload p,
      xiny_coap_free_header (p\<lparr>coap_version := 1\<rparr>))"

definition option_size :: "coap_packet \<Rightarrow> nat \<Rightarrow> nat \<Rightarrow> nat" where
  "option_size p number n = (if xiny_IS_OPTION p number then n else 0)"

definition multi_size :: "u8 list list \<Rightarrow> nat" where
  "multi_size xs = sum_list (map (\<lambda>x. COAP_MAX_OPTION_HEADER_LEN + length x) xs)"

definition xiny_coap_serialize_get_size :: "coap_packet \<Rightarrow> nat" where
  "xiny_coap_serialize_get_size p =
     COAP_HEADER_LEN + length (coap_payload p) + length (coap_token p)
     + option_size p COAP_OPTION_IF_MATCH (COAP_MAX_OPTION_HEADER_LEN + length (if_match p))
     + option_size p COAP_OPTION_URI_HOST (COAP_MAX_OPTION_HEADER_LEN + length (uri_host p))
     + option_size p COAP_OPTION_ETAG (COAP_MAX_OPTION_HEADER_LEN + length (etag p))
     + option_size p COAP_OPTION_IF_NONE_MATCH COAP_MAX_OPTION_HEADER_LEN
     + option_size p COAP_OPTION_OBSERVE COAP_MAX_OPTION_HEADER_LEN
     + option_size p COAP_OPTION_URI_PORT COAP_MAX_OPTION_HEADER_LEN
     + option_size p COAP_OPTION_LOCATION_PATH (multi_size (location_path p))
     + option_size p COAP_OPTION_URI_PATH (multi_size (coap_uri_path p))
     + option_size p COAP_OPTION_CONTENT_TYPE COAP_MAX_OPTION_HEADER_LEN
     + option_size p COAP_OPTION_MAX_AGE COAP_MAX_OPTION_HEADER_LEN
     + option_size p COAP_OPTION_URI_QUERY (multi_size (uri_query p))
     + option_size p COAP_OPTION_ACCEPT (length (coap_accept p) * COAP_MAX_OPTION_HEADER_LEN)
     + option_size p COAP_OPTION_LOCATION_QUERY (COAP_MAX_OPTION_HEADER_LEN + length (location_query p))
     + option_size p COAP_OPTION_BLOCK2 COAP_MAX_OPTION_HEADER_LEN
     + option_size p COAP_OPTION_BLOCK1 COAP_MAX_OPTION_HEADER_LEN
     + option_size p COAP_OPTION_SIZE COAP_MAX_OPTION_HEADER_LEN
     + option_size p COAP_OPTION_PROXY_URI (COAP_MAX_OPTION_HEADER_LEN + length (proxiny_uri p))
     + (if coap_payload p \<noteq> [] then 1 else 0)"

section \<open>Reading\<close>

definition coap_parse_int_option :: "u8 list \<Rightarrow> u32" where
  "coap_parse_int_option bytes = foldl (\<lambda>v b. push_bit 8 v OR ucast b) 0 bytes"

definition coap_merge_multi_option :: "u8 list \<Rightarrow> u8 list \<Rightarrow> u8 \<Rightarrow> u8 list" where
  "coap_merge_multi_option dst option separator = (if dst \<noteq> [] then dst @ [separator] @ option else option)"

text \<open>A difference or a length with the bytes that extend it, and how many these are.\<close>

definition option_value :: "nat \<Rightarrow> u8 list \<Rightarrow> (nat \<times> nat) res" where
  "option_value x cur =
     (if x = 13 then bind_res (char_at cur 0) (\<lambda>b. Inr (13 + unat b, 1))
      else if x = 14
        then bind_res (char_at cur 0) (\<lambda>b. bind_res (char_at cur 1) (\<lambda>c. Inr (14 + 255 + 256 * unat b + unat c, 2)))
      else Inr (x, 0))"

definition parse_option_header :: "u8 list \<Rightarrow> (nat \<times> nat \<times> nat) res" where
  "parse_option_header cur =
     bind_res (char_at cur 0) (\<lambda>b.
     bind_res (option_value (unat (drop_bit 4 b)) (drop 1 cur)) (\<lambda>(option_delta, n).
     bind_res (option_value (unat (b AND 0x0F)) (drop (1 + n) cur)) (\<lambda>(option_length, k).
     Inr (option_delta, option_length, 1 + n + k))))"

text \<open>Storing an option: the result, the new \<open>xiny_coap_error_message\<close> and the message.\<close>

definition store_block2 :: "u32 \<Rightarrow> coap_packet \<Rightarrow> coap_packet" where
  "store_block2 v p =
     p\<lparr>block2_num := drop_bit 4 v, block2_more := ucast (drop_bit 3 (v AND 0x08)),
       block2_size := push_bit (unat (v AND 0x07)) 16,
       block2_offset := push_bit (unat (v AND 0x07)) (v AND NOT 0x0F)\<rparr>"

definition store_block1 :: "u32 \<Rightarrow> coap_packet \<Rightarrow> coap_packet" where
  "store_block1 v p =
     p\<lparr>block1_num := drop_bit 4 v, block1_more := ucast (drop_bit 3 (v AND 0x08)),
       block1_size := push_bit (unat (v AND 0x07)) 16,
       block1_offset := push_bit (unat (v AND 0x07)) (v AND NOT 0x0F)\<rparr>"

definition store_option :: "nat \<Rightarrow> u8 list \<Rightarrow> coap_packet \<Rightarrow> u8 \<times> string option \<times> coap_packet" where
  "store_option number option p =
     (let v = coap_parse_int_option option; ok = (\<lambda>p. (COAP_NO_ERROR, None, p))
      in if number = COAP_OPTION_CONTENT_TYPE then ok (p\<lparr>content_type := ucast v\<rparr>)
         else if number = COAP_OPTION_MAX_AGE then ok (p\<lparr>max_age := v\<rparr>)
         else if number = COAP_OPTION_ETAG then ok (p\<lparr>etag := take COAP_ETAG_LEN option\<rparr>)
         else if number = COAP_OPTION_ACCEPT
           then ok (if length (coap_accept p) < COAP_MAX_ACCEPT_NUM then p\<lparr>coap_accept := coap_accept p @ [ucast v]\<rparr> else p)
         else if number = COAP_OPTION_IF_MATCH then ok (p\<lparr>if_match := take COAP_ETAG_LEN option\<rparr>)
         else if number = COAP_OPTION_IF_NONE_MATCH then ok (p\<lparr>if_none_match := 1\<rparr>)
         else if number = COAP_OPTION_URI_HOST then ok (p\<lparr>uri_host := option\<rparr>)
         else if number = COAP_OPTION_URI_PORT then ok (p\<lparr>uri_port := ucast v\<rparr>)
         else if number = COAP_OPTION_URI_PATH
           then ok (p\<lparr>coap_uri_path := xiny_coap_add_multi_option (coap_uri_path p) option\<rparr>)
         else if number = COAP_OPTION_URI_QUERY then ok (p\<lparr>uri_query := xiny_coap_add_multi_option (uri_query p) option\<rparr>)
         else if number = COAP_OPTION_LOCATION_PATH
           then ok (p\<lparr>location_path := xiny_coap_add_multi_option (location_path p) option\<rparr>)
         else if number = COAP_OPTION_LOCATION_QUERY
           then ok (p\<lparr>location_query := coap_merge_multi_option (location_query p) option 0x26\<rparr>)
         else if number = COAP_OPTION_PROXY_URI
           then (COAP_PROXYING_NOT_SUPPORTED_5_05, Some ''This is a constrained server (Contiki)'', p\<lparr>proxiny_uri := option\<rparr>)
         else if number = COAP_OPTION_OBSERVE then ok (p\<lparr>coap_observe := v\<rparr>)
         else if number = COAP_OPTION_BLOCK2 then ok (store_block2 v p)
         else if number = COAP_OPTION_BLOCK1 then ok (store_block1 v p)
         else if number = COAP_OPTION_SIZE then ok (p\<lparr>coap_size := v\<rparr>)
         else if odd number then (COAP_BAD_OPTION_4_02, Some ''Unsupported critical option'', p)
         else ok p)"

text \<open>\<open>cur\<close> is the memory from the current option on, of which \<open>n\<close> bytes belong to the message.\<close>

lemma parse_option_header_pos: "parse_option_header cur = Inr (d, l, h) \<Longrightarrow> 0 < h"
  by (auto simp: parse_option_header_def bind_res_eq_Inr)

function parse_options ::
    "nat \<Rightarrow> u8 list \<Rightarrow> nat \<Rightarrow> coap_packet \<Rightarrow> (u8 \<times> string option \<times> coap_packet) res" where
  "parse_options number cur n p =
     (if n = 0 then Inr (COAP_NO_ERROR, None, p)
      else case char_at cur 0 of
        Inl e \<Rightarrow> Inl e
      | Inr b \<Rightarrow>
          if b AND 0xF0 = 0xF0 then Inr (COAP_NO_ERROR, None, p\<lparr>coap_payload := take (n - 1) (drop 1 cur)\<rparr>)
          else case parse_option_header cur of
            Inl e \<Rightarrow> Inl e
          | Inr (delta, len, h) \<Rightarrow>
              if n < h + len then Inr (COAP_BAD_REQUEST_4_00, None, p)
              else case xiny_SET_OPTION p (number + delta) of
                Inl e \<Rightarrow> Inl e
              | Inr p \<Rightarrow>
                  (case store_option (number + delta) (take len (drop h cur)) p of
                     (code, msg, p) \<Rightarrow>
                       if code \<noteq> COAP_NO_ERROR then Inr (code, msg, p)
                       else parse_options (number + delta) (drop (h + len) cur) (n - (h + len)) p))"
  by pat_completeness auto
termination
  by (relation "measure (\<lambda>(number, cur, n, p). n)") (auto dest: parse_option_header_pos)

declare parse_options.simps [simp del]

definition xiny_coap_parse_message :: "u8 list \<Rightarrow> nat \<Rightarrow> (u8 \<times> string option \<times> coap_packet) res" where
  "xiny_coap_parse_message data data_len =
     bind_res (char_at data 0) (\<lambda>b0.
     bind_res (char_at data 1) (\<lambda>code.
     bind_res (char_at data 2) (\<lambda>hi.
     bind_res (char_at data 3) (\<lambda>lo.
       let token_len = min COAP_TOKEN_LEN (unat (b0 AND 0x0F));
           p = packet_zero\<lparr>coap_version := drop_bit 6 (b0 AND 0xC0), coap_type := coap_type_of (drop_bit 4 (b0 AND 0x30)),
                 coap_code := code, coap_mid := push_bit 8 (ucast hi) OR ucast lo, coap_token := replicate token_len 0\<rparr>
       in if coap_version p \<noteq> 1 then Inr (COAP_BAD_REQUEST_4_00, Some ''CoAP version must be 1'', p)
          else if length data < COAP_HEADER_LEN + token_len then Inl BadAccess
          else
            let p = (if token_len \<noteq> 0
                     then set_option COAP_OPTION_TOKEN (p\<lparr>coap_token := take token_len (drop COAP_HEADER_LEN data)\<rparr>) else p)
            in parse_options 0 (drop (COAP_HEADER_LEN + token_len) data) (data_len - (COAP_HEADER_LEN + token_len)) p))))"

section \<open>The members of a message\<close>

text \<open>
  The functions that give the lists of a path or a query as a text give none.  \<open>None\<close> is a result without the member; an
  array that is empty is not told from one that is not there.
\<close>

definition COAP_DEFAULT_MAX_AGE :: u32 where "COAP_DEFAULT_MAX_AGE = 60"

definition xiny_coap_get_header_content_type :: "coap_packet \<Rightarrow> u32" where
  "xiny_coap_get_header_content_type p = (if xiny_IS_OPTION p COAP_OPTION_CONTENT_TYPE then ucast (content_type p) else - 1)"

definition xiny_coap_get_header_accept :: "coap_packet \<Rightarrow> u16 list" where
  "xiny_coap_get_header_accept p = (if xiny_IS_OPTION p COAP_OPTION_ACCEPT then coap_accept p else [])"

definition xiny_coap_get_header_max_age :: "coap_packet \<Rightarrow> u32" where
  "xiny_coap_get_header_max_age p = (if xiny_IS_OPTION p COAP_OPTION_MAX_AGE then max_age p else COAP_DEFAULT_MAX_AGE)"

definition xiny_coap_get_header_etag :: "coap_packet \<Rightarrow> u8 list" where
  "xiny_coap_get_header_etag p = (if xiny_IS_OPTION p COAP_OPTION_ETAG then etag p else [])"

definition xiny_coap_get_header_if_match :: "coap_packet \<Rightarrow> u8 list" where
  "xiny_coap_get_header_if_match p = (if xiny_IS_OPTION p COAP_OPTION_IF_MATCH then if_match p else [])"

definition xiny_coap_get_header_if_none_match :: "coap_packet \<Rightarrow> bool" where
  "xiny_coap_get_header_if_none_match p = xiny_IS_OPTION p COAP_OPTION_IF_NONE_MATCH"

definition xiny_coap_get_header_proxiny_uri :: "coap_packet \<Rightarrow> u8 list" where
  "xiny_coap_get_header_proxiny_uri p = (if xiny_IS_OPTION p COAP_OPTION_PROXY_URI then proxiny_uri p else [])"

definition xiny_coap_get_header_uri_host :: "coap_packet \<Rightarrow> u8 list" where
  "xiny_coap_get_header_uri_host p = (if xiny_IS_OPTION p COAP_OPTION_URI_HOST then uri_host p else [])"

definition xiny_coap_get_header_location_query :: "coap_packet \<Rightarrow> u8 list" where
  "xiny_coap_get_header_location_query p = (if xiny_IS_OPTION p COAP_OPTION_LOCATION_QUERY then location_query p else [])"

definition xiny_coap_get_header_uri_path :: "coap_packet \<Rightarrow> u8 list" where
  "xiny_coap_get_header_uri_path p = []"

definition xiny_coap_get_header_uri_query :: "coap_packet \<Rightarrow> u8 list" where
  "xiny_coap_get_header_uri_query p = []"

definition xiny_coap_get_header_location_path :: "coap_packet \<Rightarrow> u8 list" where
  "xiny_coap_get_header_location_path p = []"

definition xiny_coap_get_header_observe :: "coap_packet \<Rightarrow> u32 option" where
  "xiny_coap_get_header_observe p = (if xiny_IS_OPTION p COAP_OPTION_OBSERVE then Some (coap_observe p) else None)"

definition xiny_coap_get_header_size :: "coap_packet \<Rightarrow> u32 option" where
  "xiny_coap_get_header_size p = (if xiny_IS_OPTION p COAP_OPTION_SIZE then Some (coap_size p) else None)"

definition xiny_coap_get_header_block2 :: "coap_packet \<Rightarrow> (u32 \<times> u8 \<times> u16 \<times> u32) option" where
  "xiny_coap_get_header_block2 p = (if xiny_IS_OPTION p COAP_OPTION_BLOCK2 then Some (block2_num p, block2_more p, block2_size p, block2_offset p) else None)"

definition xiny_coap_get_header_block1 :: "coap_packet \<Rightarrow> (u32 \<times> u8 \<times> u16 \<times> u32) option" where
  "xiny_coap_get_header_block1 p = (if xiny_IS_OPTION p COAP_OPTION_BLOCK1 then Some (block1_num p, block1_more p, block1_size p, block1_offset p) else None)"

definition xiny_coap_get_payload :: "coap_packet \<Rightarrow> u8 list" where
  "xiny_coap_get_payload p = coap_payload p"

text \<open>The segments, each behind a slash, and a zero.\<close>

definition xiny_coap_get_multi_option_as_string :: "u8 list list \<Rightarrow> u8 list" where
  "xiny_coap_get_multi_option_as_string xs = concat (map (\<lambda>x. 0x2F # x) xs) @ [0]"

text \<open>
  The value of a variable in \<open>name=value&name=value\<close>; \<open>here\<close> tells whether a variable begins at the rest.  The name has no
  zero.
\<close>

fun variable_from :: "u8 list \<Rightarrow> bool \<Rightarrow> u8 list \<Rightarrow> u8 list option" where
  "variable_from name here [] = None"
| "variable_from name here (c # cs) =
     (if length (c # cs) \<le> length name then None
      else if here \<and> (c # cs) ! length name = 0x3D \<and> take (length name) (c # cs) = name
        then Some (takeWhile (\<lambda>b. b \<noteq> 0x26) (drop (length name + 1) (c # cs)))
      else variable_from name (c = 0x26) cs)"

definition coap_get_variable :: "u8 list \<Rightarrow> u8 list \<Rightarrow> u8 list option" where
  "coap_get_variable buffer name = variable_from name True buffer"

definition xiny_coap_get_query_variable :: "coap_packet \<Rightarrow> u8 list \<Rightarrow> u8 list option" where
  "xiny_coap_get_query_variable p name = None"

definition xiny_coap_get_post_variable :: "coap_packet \<Rightarrow> u8 list \<Rightarrow> u8 list option" where
  "xiny_coap_get_post_variable p name = (if coap_payload p \<noteq> [] then coap_get_variable (coap_payload p) name else None)"

definition xiny_coap_get_mid :: "u16 \<Rightarrow> u16" where
  "xiny_coap_get_mid current_mid = current_mid + 1"

end
