(* ===== verification/Lwm2mTransaction.thy ===== *)
theory Lwm2mTransaction
  imports ErCoap
begin

text \<open>
  The CoAP transactions of LwM2M: \<open>APPLIB/wakaama/core/transaction.c\<close>.  The time is an argument, and so is whether an
  allocation of a buffer succeeds; the other allocations do.  What is sent and which callbacks are called is a list of
  events; what a callback does is left out.  An alternative path begins with a slash.
\<close>

section \<open>Transactions\<close>

definition COAP_401_UNAUTHORIZED :: u8 where "COAP_401_UNAUTHORIZED = 0x81"
definition COAP_500_INTERNAL_SERVER_ERROR :: int where "COAP_500_INTERNAL_SERVER_ERROR = 0xA0"
definition COAP_RESPONSE_TIMEOUT :: int where "COAP_RESPONSE_TIMEOUT = 2"
definition COAP_MAX_RETRANSMIT :: nat where "COAP_MAX_RETRANSMIT = 4"

lemmas tx_defs = COAP_DELETE_def COAP_401_UNAUTHORIZED_def COAP_500_INTERNAL_SERVER_ERROR_def
  COAP_RESPONSE_TIMEOUT_def COAP_MAX_RETRANSMIT_def

text \<open>\<open>node\<close> is the address of the structure; \<open>has_callback\<close> tells whether there is a callback.\<close>

record transaction =
  node :: nat
  mID :: u16
  peerH :: nat
  ack_received :: bool
  response_timeout :: int
  retrans_counter :: u8
  retrans_time :: int
  message :: coap_packet
  tbuffer :: "u8 list option"
  has_callback :: bool

datatype event =
    TxSent (event_node: nat) nat "u8 list"
  | TxAcked nat coap_packet
  | TxCallback (event_node: nat) "coap_packet option"

definition prv_checkFinished :: "transaction \<Rightarrow> coap_packet \<Rightarrow> bool" where
  "prv_checkFinished t receivedMessage =
     (if COAP_DELETE < coap_code (message t) then ack_received t
      else if \<not> xiny_IS_OPTION (message t) COAP_OPTION_TOKEN then ack_received t
      else coap_token (message t) = xiny_coap_get_header_token receivedMessage)"

text \<open>The identifiers of the path become segments; \<open>None\<close> is the branch \<open>error\<close>.\<close>

definition LWM2M_STRING_ID_MAX_LEN :: nat where "LWM2M_STRING_ID_MAX_LEN = 6"

definition id_segment :: "u16 \<Rightarrow> coap_packet \<Rightarrow> coap_packet option res" where
  "id_segment i p =
     bind_res (xiny_utils_intToText (ucast i) LWM2M_STRING_ID_MAX_LEN) (\<lambda>t.
       if t = [] then Inr None
       else if LWM2M_STRING_ID_MAX_LEN \<le> length t then Inl BadAccess
       else Inr (Some (xiny_coap_set_header_uri_path_segment (Some t) p)))"

definition uri_path_of :: "lwm2m_uri \<Rightarrow> coap_packet \<Rightarrow> coap_packet option res" where
  "uri_path_of u p =
     bind_some (id_segment (objectId u) p) (\<lambda>p.
     bind_some
       (if LWM2M_URI_IS_SET_INSTANCE u then id_segment (instanceId u) p
        else Inr (Some (if LWM2M_URI_IS_SET_RESOURCE u then xiny_coap_set_header_uri_path_segment None p else p)))
       (\<lambda>p. if LWM2M_URI_IS_SET_RESOURCE u then id_segment (resourceId u) p else Inr (Some p)))"

text \<open>\<open>junk\<close> are the bytes on the stack behind the six of a generated token.\<close>

definition token_of :: "u8 list \<Rightarrow> int \<Rightarrow> u16 \<Rightarrow> nat \<Rightarrow> u8 list option \<Rightarrow> coap_packet \<Rightarrow> coap_packet" where
  "token_of junk now mid token_len token p =
     (if token_len = 0 then p
      else case token of
             Some t \<Rightarrow> xiny_coap_set_header_token t token_len p
           | None \<Rightarrow>
               xiny_coap_set_header_token
                 ([ucast mid, ucast (drop_bit 8 mid)]
                  @ map (\<lambda>k. word_of_int (now div 2 ^ (8 * k))) [0..<4] @ junk) token_len p)"

definition xiny_transaction_new ::
    "u8 list \<Rightarrow> int \<Rightarrow> nat \<Rightarrow> nat option \<Rightarrow> u8 \<Rightarrow> u8 list option \<Rightarrow> lwm2m_uri option \<Rightarrow> u16 \<Rightarrow> nat \<Rightarrow> u8 list option
     \<Rightarrow> transaction option res" where
  "xiny_transaction_new junk now addr sessionH meth altPath uriP mid token_len token =
     (case sessionH of
        None \<Rightarrow> Inr None
      | Some peer \<Rightarrow>
          let p = xiny_coap_init_message COAP_TYPE_CON meth mid;
              p = (case altPath of None \<Rightarrow> p | Some a \<Rightarrow> xiny_coap_set_header_uri_path_segment (Some (tl a)) p)
          in bind_some (case uriP of None \<Rightarrow> Inr (Some p) | Some u \<Rightarrow> uri_path_of u p) (\<lambda>p.
             Inr (Some \<lparr>node = addr, mID = mid, peerH = peer, ack_received = False, response_timeout = 0,
               retrans_counter = 0, retrans_time = 0, message = token_of junk now mid token_len token p,
               tbuffer = None, has_callback = False\<rparr>)))"

text \<open>
  The list is searched for the identifier; when it finds another transaction, the one that is freed stays in
  the list: a \<open>BadAccess\<close>.
\<close>

definition xiny_transaction_remove :: "transaction list \<Rightarrow> transaction \<Rightarrow> transaction list res" where
  "xiny_transaction_remove ts t =
     (case xiny_lwm2m_list_remove mID ts (mID t) of
        (ts', None) \<Rightarrow> Inr ts'
      | (ts', Some t') \<Rightarrow> if node t' = node t then Inr ts' else Inl BadAccess)"

definition put_transaction :: "transaction \<Rightarrow> transaction list \<Rightarrow> transaction list" where
  "put_transaction t ts = map (\<lambda>x. if node x = node t then t else x) ts"

section \<open>Responses\<close>

definition callback_of :: "transaction \<Rightarrow> coap_packet option \<Rightarrow> event list" where
  "callback_of t m = (if has_callback t then [TxCallback (node t) m] else [])"

text \<open>What one transaction does with a message; \<open>None\<close> to go on with the next one.\<close>

definition handle_one ::
    "int \<Rightarrow> nat \<Rightarrow> coap_packet \<Rightarrow> bool \<Rightarrow> transaction \<Rightarrow> transaction list \<Rightarrow> (transaction list \<times> event list) option res" where
  "handle_one now fromSessionH m response t ts =
     (if fromSessionH \<noteq> peerH t then Inr None
      else
        let found = (\<not> ack_received t \<and> (coap_type m = COAP_TYPE_ACK \<or> coap_type m = COAP_TYPE_RST) \<and> mID t = coap_mid m);
            reset = (found \<and> coap_type m = COAP_TYPE_RST);
            t = (if found then t\<lparr>ack_received := True\<rparr> else t)
        in if reset \<or> prv_checkFinished t m
           then
             let acked = (if \<not> reset \<and> coap_type m = COAP_TYPE_CON \<and> response
                          then [TxAcked fromSessionH (xiny_coap_init_message COAP_TYPE_ACK 0 (coap_mid m))] else [])
             in if \<not> reset \<and> coap_code m = COAP_401_UNAUTHORIZED \<and> unat (retrans_counter t) < COAP_MAX_RETRANSMIT
                then Inr (Some (put_transaction (t\<lparr>ack_received := False,
                       retrans_time := retrans_time t + COAP_RESPONSE_TIMEOUT\<rparr>) ts, acked))
                else bind_res (xiny_transaction_remove ts t) (\<lambda>ts. Inr (Some (ts, acked @ callback_of t (Some m))))
           else if found
             then
               let time = (if 0 \<le> now then now else retrans_time t);
                   time = time + (if response_timeout t \<noteq> 0 then response_timeout t
                                  else COAP_RESPONSE_TIMEOUT * int (unat (retrans_counter t)))
               in Inr (Some (put_transaction (t\<lparr>retrans_time := time\<rparr>) ts, []))
           else Inr None)"

fun handle_from ::
    "int \<Rightarrow> nat \<Rightarrow> coap_packet \<Rightarrow> bool \<Rightarrow> transaction list \<Rightarrow> transaction list \<Rightarrow> (bool \<times> transaction list \<times> event list) res" where
  "handle_from now fromSessionH m response ts [] = Inr (False, ts, [])"
| "handle_from now fromSessionH m response ts (t # rest) =
     bind_res (handle_one now fromSessionH m response t ts) (\<lambda>r.
       case r of
         None \<Rightarrow> handle_from now fromSessionH m response ts rest
       | Some (ts, es) \<Rightarrow> Inr (True, ts, es))"

definition xiny_transaction_handleResponse ::
    "int \<Rightarrow> nat \<Rightarrow> coap_packet \<Rightarrow> bool \<Rightarrow> transaction list \<Rightarrow> (bool \<times> transaction list \<times> event list) res" where
  "xiny_transaction_handleResponse now fromSessionH m response ts = handle_from now fromSessionH m response ts ts"

section \<open>Sending\<close>

definition retransmit ::
    "int \<Rightarrow> transaction \<Rightarrow> transaction \<times> bool \<times> event list" where
  "retransmit now t =
     (let (t, timeout, maxRetriesReached) =
        (if retrans_counter t = 0
         then if 0 \<le> now then (t\<lparr>retrans_time := now + COAP_RESPONSE_TIMEOUT, retrans_counter := 1\<rparr>, 0, False)
              else (t, 0, True)
         else (t, COAP_RESPONSE_TIMEOUT * 2 ^ (unat (retrans_counter t) - 1), False))
      in if unat (retrans_counter t) \<le> COAP_MAX_RETRANSMIT + 1
         then (t\<lparr>retrans_time := retrans_time t + timeout, retrans_counter := retrans_counter t + 1\<rparr>, maxRetriesReached,
               [TxSent (node t) (peerH t) (case tbuffer t of None \<Rightarrow> [] | Some b \<Rightarrow> b)])
         else (t, True, []))"

text \<open>
  The message is written at the first time, into a buffer of the size that was calculated, and loses its lists; the size is
  kept in 16 bits.  \<open>None\<close> are the branches that end with an error.
\<close>

definition fill_buffer :: "(nat \<Rightarrow> bool) \<Rightarrow> transaction \<Rightarrow> transaction option res" where
  "fill_buffer alloc t =
     (case tbuffer t of
        Some b \<Rightarrow> Inr (Some t)
      | None \<Rightarrow>
          let room = xiny_coap_serialize_get_size (message t) mod 65536; (b, m) = xiny_coap_serialize_message (message t)
          in if room = 0 \<or> \<not> alloc room then Inr None
             else if room < length b then Inl BadAccess
             else if b = [] then Inr None
             else Inr (Some (t\<lparr>tbuffer := Some b, message := m\<rparr>)))"

definition xiny_transaction_send ::
    "(nat \<Rightarrow> bool) \<Rightarrow> int \<Rightarrow> transaction list \<Rightarrow> transaction \<Rightarrow> (int \<times> transaction list \<times> event list) res" where
  "xiny_transaction_send alloc now ts t =
     bind_res (fill_buffer alloc t) (\<lambda>r. case r of
       None \<Rightarrow> bind_res (xiny_transaction_remove ts t) (\<lambda>ts. Inr (COAP_500_INTERNAL_SERVER_ERROR, ts, []))
     | Some t \<Rightarrow>
         let (t, maxRetriesReached, es) = (if ack_received t then (t, False, []) else retransmit now t)
         in if ack_received t \<or> maxRetriesReached
            then bind_res (xiny_transaction_remove ts t) (\<lambda>ts. Inr (-1, ts, es @ callback_of t None))
            else Inr (0, put_transaction t ts, es))"

text \<open>The transactions of the list one after the other; the timeout becomes the shortest wait.\<close>

fun step_from ::
    "(nat \<Rightarrow> bool) \<Rightarrow> int \<Rightarrow> int \<Rightarrow> int \<Rightarrow> transaction list \<Rightarrow> transaction list
     \<Rightarrow> (int \<times> transaction list \<times> event list) res" where
  "step_from alloc now currentTime timeout ts [] = Inr (timeout, ts, [])"
| "step_from alloc now currentTime timeout ts (t # rest) =
     bind_res
       (if retrans_time t \<le> currentTime then xiny_transaction_send alloc now ts t else Inr (0, ts, []))
       (\<lambda>(removed, ts, es).
          let time = (case find (\<lambda>x. node x = node t) ts of None \<Rightarrow> 0 | Some t \<Rightarrow> retrans_time t);
              interval = (if currentTime < time then time - currentTime else 1);
              timeout = (if removed = 0 then min timeout interval else 1)
          in bind_res (step_from alloc now currentTime timeout ts rest) (\<lambda>(timeout, ts, es').
             Inr (timeout, ts, es @ es')))"

definition xiny_transaction_step ::
    "(nat \<Rightarrow> bool) \<Rightarrow> int \<Rightarrow> int \<Rightarrow> int \<Rightarrow> transaction list \<Rightarrow> (int \<times> transaction list \<times> event list) res" where
  "xiny_transaction_step alloc now currentTime timeout ts = step_from alloc now currentTime timeout ts ts"

end
