(* ===== verification/Lwm2mTlv.thy ===== *)
theory Lwm2mTlv
  imports Lwm2mUtils
begin

text \<open>
  The data of LwM2M resources and its binary form: \<open>APPLIB/wakaama/core/tlv.c\<close> and the constructors and
  readers of \<open>data.c\<close>.  An array with its size is a list.  The member of the union is the constructor
  of the value; reading another member than the type tells is a \<open>BadAccess\<close>.
\<close>

section \<open>Data\<close>

datatype lwm2m_data_type =
    LWM2M_TYPE_UNDEFINED | LWM2M_TYPE_OBJECT | LWM2M_TYPE_OBJECT_INSTANCE | LWM2M_TYPE_MULTIPLE_RESOURCE
  | LWM2M_TYPE_STRING | LWM2M_TYPE_OPAQUE | LWM2M_TYPE_INTEGER | LWM2M_TYPE_FLOAT | LWM2M_TYPE_BOOLEAN
  | LWM2M_TYPE_OBJECT_LINK

text \<open>\<open>asFloat\<close> holds the bits of the \<open>double\<close>.\<close>

datatype lwm2m_data = LwData (data_type: lwm2m_data_type) (data_id: u16) (data_value: lwm2m_value)
  and lwm2m_value =
    AsBoolean bool
  | AsInteger u64
  | AsFloat u64
  | AsBuffer "u8 list"
  | AsChildren "lwm2m_data list"
  | AsObjLink u16 u16

definition PRV_TLV_TYPE_UNKNOWN :: u8 where "PRV_TLV_TYPE_UNKNOWN = 0xFF"
definition PRV_TLV_TYPE_OBJECT :: u8 where "PRV_TLV_TYPE_OBJECT = 0x10"
definition PRV_TLV_TYPE_OBJECT_INSTANCE :: u8 where "PRV_TLV_TYPE_OBJECT_INSTANCE = 0x00"
definition PRV_TLV_TYPE_RESOURCE :: u8 where "PRV_TLV_TYPE_RESOURCE = 0xC0"
definition PRV_TLV_TYPE_MULTIPLE_RESOURCE :: u8 where "PRV_TLV_TYPE_MULTIPLE_RESOURCE = 0x80"
definition PRV_TLV_TYPE_RESOURCE_INSTANCE :: u8 where "PRV_TLV_TYPE_RESOURCE_INSTANCE = 0x40"
definition PRV_TLV_TYPE_MASK :: u8 where "PRV_TLV_TYPE_MASK = 0xC0"

lemmas tlv_type_defs = PRV_TLV_TYPE_UNKNOWN_def PRV_TLV_TYPE_OBJECT_def PRV_TLV_TYPE_OBJECT_INSTANCE_def
  PRV_TLV_TYPE_RESOURCE_def PRV_TLV_TYPE_MULTIPLE_RESOURCE_def PRV_TLV_TYPE_RESOURCE_INSTANCE_def
  PRV_TLV_TYPE_MASK_def

section \<open>Numbers\<close>

text \<open>
  \<open>(float)data\<close>, rounding to the nearest value, to the even one in the middle; only used for values up to
  \<open>FLT_MAX\<close>, and for a NaN, which stays one.
\<close>

definition round_even :: "nat \<Rightarrow> u64 \<Rightarrow> u64" where
  "round_even n m =
     (let q = drop_bit n m; r = take_bit n m; half = push_bit (n - 1) 1
      in if half < r \<or> r = half \<and> bit q 0 then q + 1 else q)"

definition float_of_double :: "u64 \<Rightarrow> u32" where
  "float_of_double x =
     (let sign = push_bit 31 (ucast (drop_bit 63 x)); e = unat (drop_bit 52 x AND 0x7FF); m = x AND 0xFFFFFFFFFFFFF
      in if e = 0x7FF then sign OR 0x7F800000 OR (if m = 0 then 0 else 0x400000 OR ucast (drop_bit 29 m))
         else if 897 \<le> e then sign OR ucast (round_even 29 (push_bit 52 (of_nat (e - 896)) OR m))
         else if e = 0 \<or> e < 873 then sign
         else sign OR ucast (round_even (926 - e) (0x10000000000000 OR m)))"

text \<open>\<open>data < 0.0 - (double)FLT_MAX || data > (double)FLT_MAX\<close>: false for a NaN.\<close>

definition beyond_float :: "u64 \<Rightarrow> bool" where
  "beyond_float x =
     (let y = x AND 0x7FFFFFFFFFFFFFFF in 0x47EFFFFFE0000000 < y \<and> y \<le> 0x7FF0000000000000)"

definition prv_encodeFloat :: "u64 \<Rightarrow> u8 list" where
  "prv_encodeFloat x =
     (if beyond_float x then xiny_utils_copyValue (le_bytes 8 x)
      else xiny_utils_copyValue (le_bytes 4 (float_of_double x)))"

definition prv_encodeInt :: "u64 \<Rightarrow> u8 list" where
  "prv_encodeInt x =
     (let d = sint x
      in if - 128 \<le> d \<and> d \<le> 127 then [ucast x]
         else if - 32768 \<le> d \<and> d \<le> 32767
           then (let v = ucast x :: u16 in [ucast (drop_bit 8 v AND 0xFF), ucast (v AND 0xFF)])
         else if - 2147483648 \<le> d \<and> d \<le> 2147483647 then xiny_utils_copyValue (le_bytes 4 (ucast x :: u32))
         else xiny_utils_copyValue (le_bytes 8 x))"

section \<open>Headers\<close>

fun prv_getHeaderType :: "lwm2m_data_type \<Rightarrow> u8" where
  "prv_getHeaderType LWM2M_TYPE_OBJECT = PRV_TLV_TYPE_OBJECT"
| "prv_getHeaderType LWM2M_TYPE_OBJECT_INSTANCE = PRV_TLV_TYPE_OBJECT_INSTANCE"
| "prv_getHeaderType LWM2M_TYPE_MULTIPLE_RESOURCE = PRV_TLV_TYPE_MULTIPLE_RESOURCE"
| "prv_getHeaderType LWM2M_TYPE_UNDEFINED = PRV_TLV_TYPE_UNKNOWN"
| "prv_getHeaderType _ = PRV_TLV_TYPE_RESOURCE"

definition prv_getDataType :: "u8 \<Rightarrow> lwm2m_data_type" where
  "prv_getDataType t =
     (if t = PRV_TLV_TYPE_OBJECT then LWM2M_TYPE_OBJECT
      else if t = PRV_TLV_TYPE_OBJECT_INSTANCE then LWM2M_TYPE_OBJECT_INSTANCE
      else if t = PRV_TLV_TYPE_MULTIPLE_RESOURCE then LWM2M_TYPE_MULTIPLE_RESOURCE
      else if t = PRV_TLV_TYPE_RESOURCE \<or> t = PRV_TLV_TYPE_RESOURCE_INSTANCE then LWM2M_TYPE_OPAQUE
      else LWM2M_TYPE_UNDEFINED)"

definition prv_getHeaderLength :: "u16 \<Rightarrow> nat \<Rightarrow> nat" where
  "prv_getHeaderLength i dataLen =
     2 + (if 0xFF < i then 1 else 0)
       + (if 0xFFFF < dataLen then 3 else if 0xFF < dataLen then 2 else if 7 < dataLen then 1 else 0)"

text \<open>
  For data of \<open>2 ^ 24\<close> bytes or more the three bytes of the length are not written: they keep what the
  allocation left there, which is an argument.
\<close>

definition prv_createHeader :: "u8 list \<Rightarrow> bool \<Rightarrow> lwm2m_data_type \<Rightarrow> u16 \<Rightarrow> nat \<Rightarrow> u8 list" where
  "prv_createHeader old isInstance ty i data_len =
     (let hdrType = (if isInstance then PRV_TLV_TYPE_RESOURCE_INSTANCE else prv_getHeaderType ty);
          h0 = hdrType AND PRV_TLV_TYPE_MASK;
          (h0, ids) = (if 0xFF < i then (h0 OR 0x20, [ucast (drop_bit 8 i AND 0xFF), ucast (i AND 0xFF)])
                       else (h0, [ucast i]));
          (h0, lens) =
            (if data_len \<le> 7 then (h0 + of_nat data_len, [])
             else if data_len \<le> 0xFF then (h0 OR 0x08, [of_nat data_len])
             else if data_len \<le> 0xFFFF then (h0 OR 0x10, [of_nat (data_len div 0x100), of_nat data_len])
             else if data_len \<le> 0xFFFFFF
               then (h0 OR 0x18, [of_nat (data_len div 0x10000), of_nat (data_len div 0x100), of_nat data_len])
             else (h0, take 3 (drop (1 + length ids) old)))
      in h0 # ids @ lens)"

section \<open>Reading\<close>

text \<open>The result is the type, the identifier, the index of the data and its length; \<open>None\<close> is the result 0.\<close>

definition xiny_lwm2m_decode_TLV :: "u8 list \<Rightarrow> (lwm2m_data_type \<times> u16 \<times> nat \<times> nat) option" where
  "xiny_lwm2m_decode_TLV buffer =
     (if length buffer < 2 then None
      else
        let b0 = buffer ! 0; ty = prv_getDataType (b0 AND PRV_TLV_TYPE_MASK)
        in if b0 AND 0x20 = 0x20 \<and> length buffer < 3 then None
           else
             let (i, index) = (if b0 AND 0x20 = 0x20
                               then (push_bit 8 (ucast (buffer ! 1)) + ucast (buffer ! 2) :: u16, 3)
                               else (ucast (buffer ! 1), 2));
                 n = (if b0 AND 0x18 = 0x00 then 0 else if b0 AND 0x18 = 0x08 then 1
                      else if b0 AND 0x18 = 0x10 then 2 else 3)
             in if length buffer < index + n then None
                else
                  let len = (if n = 0 then unat (b0 AND 0x07)
                             else foldl (\<lambda>l b. 256 * l + unat b) 0 (take n (drop index buffer)));
                      index = index + n
                  in if length buffer < index + len then None else Some (ty, i, index, len))"

lemma decode_TLV_bounds:
  "xiny_lwm2m_decode_TLV buffer = Some (ty, i, index, len) \<Longrightarrow> 2 \<le> index \<and> index + len \<le> length buffer"
  by (auto simp: xiny_lwm2m_decode_TLV_def Let_def split: if_splits)

text \<open>
  An instance or a multiple resource without children, or with children that cannot be read, makes the
  whole result empty.
\<close>

function xiny_tlv_parse :: "u8 list \<Rightarrow> lwm2m_data list \<Rightarrow> lwm2m_data list" where
  "xiny_tlv_parse buffer read =
     (case xiny_lwm2m_decode_TLV buffer of
        None \<Rightarrow> read
      | Some (ty, i, index, len) \<Rightarrow>
          let d = take len (drop index buffer)
          in if ty = LWM2M_TYPE_OBJECT_INSTANCE \<or> ty = LWM2M_TYPE_MULTIPLE_RESOURCE
             then (case xiny_tlv_parse d [] of
                     [] \<Rightarrow> []
                   | children \<Rightarrow> xiny_tlv_parse (drop (index + len) buffer) (read @ [LwData ty i (AsChildren children)]))
             else xiny_tlv_parse (drop (index + len) buffer) (read @ [LwData LWM2M_TYPE_OPAQUE i (AsBuffer d)]))"
  by pat_completeness auto
termination
  by (relation "measure (length \<circ> fst)") (auto dest!: decode_TLV_bounds)

declare xiny_tlv_parse.simps [simp del]

definition xiny_tlv_parse_lwm2m :: "u8 list \<Rightarrow> lwm2m_data list" where
  "xiny_tlv_parse_lwm2m buffer = xiny_tlv_parse buffer []"

section \<open>Writing\<close>

text \<open>\<open>-1\<close> for a type that cannot be written; it ends the loop.\<close>

fun length_loop :: "int \<Rightarrow> lwm2m_data list \<Rightarrow> int res"
  and item_length :: "lwm2m_data \<Rightarrow> int res" where
  "length_loop len [] = Inr len"
| "length_loop len (d # ds) =
     bind_res (item_length d) (\<lambda>n. if n = -1 then Inr (-1) else length_loop (len + n) ds)"
| "item_length (LwData ty i v) =
     (let with_header = (\<lambda>n. Inr (int (prv_getHeaderLength i n + n)))
      in case ty of
           LWM2M_TYPE_OBJECT_INSTANCE \<Rightarrow>
             (case v of
                AsChildren ds \<Rightarrow> bind_res (length_loop 0 ds) (\<lambda>n. if n = -1 then Inr (-1) else with_header (nat n))
              | _ \<Rightarrow> Inl BadAccess)
         | LWM2M_TYPE_MULTIPLE_RESOURCE \<Rightarrow>
             (case v of
                AsChildren ds \<Rightarrow> bind_res (length_loop 0 ds) (\<lambda>n. if n = -1 then Inr (-1) else with_header (nat n))
              | _ \<Rightarrow> Inl BadAccess)
         | LWM2M_TYPE_STRING \<Rightarrow> (case v of AsBuffer b \<Rightarrow> with_header (length b) | _ \<Rightarrow> Inl BadAccess)
         | LWM2M_TYPE_OPAQUE \<Rightarrow> (case v of AsBuffer b \<Rightarrow> with_header (length b) | _ \<Rightarrow> Inl BadAccess)
         | LWM2M_TYPE_INTEGER \<Rightarrow> (case v of AsInteger x \<Rightarrow> with_header (length (prv_encodeInt x)) | _ \<Rightarrow> Inl BadAccess)
         | LWM2M_TYPE_FLOAT \<Rightarrow> (case v of AsFloat x \<Rightarrow> with_header (if beyond_float x then 8 else 4) | _ \<Rightarrow> Inl BadAccess)
         | LWM2M_TYPE_BOOLEAN \<Rightarrow> with_header 1
         | LWM2M_TYPE_OBJECT_LINK \<Rightarrow> with_header 4
         | _ \<Rightarrow> Inr (-1))"

definition prv_getLength :: "lwm2m_data list \<Rightarrow> int res" where
  "prv_getLength dataP = length_loop 0 dataP"

text \<open>Writing behind the allocated buffer is a \<open>BadAccess\<close>.\<close>

definition put_at :: "nat \<Rightarrow> u8 list \<Rightarrow> u8 list \<Rightarrow> (nat \<times> u8 list) res" where
  "put_at index d buffer =
     (if index + length d \<le> length buffer then Inr (index + length d, blit buffer index d) else Inl BadAccess)"

definition put_tlv ::
    "bool \<Rightarrow> lwm2m_data_type \<Rightarrow> u16 \<Rightarrow> u8 list \<Rightarrow> nat \<times> u8 list \<Rightarrow> (nat \<times> u8 list) res" where
  "put_tlv isInstance ty i d = (\<lambda>(index, buffer).
     bind_res (put_at index (prv_createHeader (drop index buffer) isInstance ty i (length d)) buffer) (\<lambda>(index, buffer).
     put_at index d buffer))"

definition link_bytes :: "u16 \<Rightarrow> u16 \<Rightarrow> u8 list" where
  "link_bytes objectId objectInstanceId =
     (let v = push_bit 16 (ucast objectId) OR ucast objectInstanceId :: u32
      in map (\<lambda>k. ucast (drop_bit (24 - 8 * k) v AND 0xFF)) [0..<4])"

text \<open>
  \<open>junk n\<close> is what \<open>malloc\<close> leaves in a block of \<open>n\<close> bytes.  The result is the returned length and the buffer, empty where
  the code returns none.  After a type that cannot be written the loop goes on with the length \<open>-1\<close>.
\<close>

fun xiny_tlv_serialize ::
    "(nat \<Rightarrow> u8 list) \<Rightarrow> bool \<Rightarrow> lwm2m_data list \<Rightarrow> (int \<times> u8 list) res"
  and serialize_loop ::
    "(nat \<Rightarrow> u8 list) \<Rightarrow> bool \<Rightarrow> int \<Rightarrow> lwm2m_data list \<Rightarrow> nat \<times> u8 list \<Rightarrow> (int \<times> u8 list) res"
  and serialize_item ::
    "(nat \<Rightarrow> u8 list) \<Rightarrow> bool \<Rightarrow> lwm2m_data \<Rightarrow> nat \<times> u8 list \<Rightarrow> (nat \<times> u8 list) option res" where
  "xiny_tlv_serialize junk isResourceInstance dataP =
     bind_res (prv_getLength dataP) (\<lambda>len.
       if len \<le> 0 then Inr (len, [])
       else
         bind_res (serialize_loop junk isResourceInstance len dataP (0, junk (nat len))) (\<lambda>(len, buffer).
         Inr (len, if len < 0 then [] else buffer)))"
| "serialize_loop junk isResourceInstance len [] = (\<lambda>(index, buffer). Inr (len, buffer))"
| "serialize_loop junk isResourceInstance len (d # ds) = (\<lambda>out.
     bind_res (serialize_item junk isResourceInstance d out) (\<lambda>r.
       case r of
         None \<Rightarrow> serialize_loop junk isResourceInstance (-1) ds out
       | Some out \<Rightarrow> serialize_loop junk isResourceInstance len ds out))"
| "serialize_item junk isInstance (LwData ty i v) = (\<lambda>out.
     let put = (\<lambda>d. bind_res (put_tlv isInstance ty i d out) (\<lambda>out. Inr (Some out)));
         put_children = (\<lambda>(n, d). if n < 0 then Inr None else bind_res (put_tlv False ty i d out) (\<lambda>out. Inr (Some out)))
     in case ty of
          LWM2M_TYPE_MULTIPLE_RESOURCE \<Rightarrow>
            (case v of AsChildren ds \<Rightarrow> bind_res (xiny_tlv_serialize junk True ds) put_children | _ \<Rightarrow> Inl BadAccess)
        | LWM2M_TYPE_OBJECT_INSTANCE \<Rightarrow>
            (case v of AsChildren ds \<Rightarrow> bind_res (xiny_tlv_serialize junk isInstance ds) put_children | _ \<Rightarrow> Inl BadAccess)
        | LWM2M_TYPE_OBJECT_LINK \<Rightarrow> (case v of AsObjLink a b \<Rightarrow> put (link_bytes a b) | _ \<Rightarrow> Inl BadAccess)
        | LWM2M_TYPE_STRING \<Rightarrow> (case v of AsBuffer b \<Rightarrow> put b | _ \<Rightarrow> Inl BadAccess)
        | LWM2M_TYPE_OPAQUE \<Rightarrow> (case v of AsBuffer b \<Rightarrow> put b | _ \<Rightarrow> Inl BadAccess)
        | LWM2M_TYPE_INTEGER \<Rightarrow> (case v of AsInteger x \<Rightarrow> put (prv_encodeInt x) | _ \<Rightarrow> Inl BadAccess)
        | LWM2M_TYPE_FLOAT \<Rightarrow> (case v of AsFloat x \<Rightarrow> put (prv_encodeFloat x) | _ \<Rightarrow> Inl BadAccess)
        | LWM2M_TYPE_BOOLEAN \<Rightarrow> (case v of AsBoolean b \<Rightarrow> put [if b then 1 else 0] | _ \<Rightarrow> Inl BadAccess)
        | _ \<Rightarrow> Inr None)"

definition xiny_tlv_serialize_lwm2m :: "(nat \<Rightarrow> u8 list) \<Rightarrow> bool \<Rightarrow> lwm2m_data list \<Rightarrow> (int \<times> u8 list) res" where
  "xiny_tlv_serialize_lwm2m junk isResourceInstance dataP = xiny_tlv_serialize junk isResourceInstance dataP"

end
