(* ===== verification/Lwm2mDiscover.thy ===== *)
theory Lwm2mDiscover
  imports Lwm2mTlv Lwm2mUri
begin

text \<open>
  The link format of \<open>APPLIB/wakaama/core/discover.c\<close> for a caller without a server (as in \<open>data.c\<close>): no
  attributes are written, and only those parts are modelled.  \<open>None\<close> is the result \<open>-1\<close>.  That the code clears
  the resource flag of the caller's path is visible only to the caller.
\<close>

definition PRV_LINK_BUFFER_SIZE :: nat where "PRV_LINK_BUFFER_SIZE = 1024"
definition URI_MAX_STRING_LEN :: nat where "URI_MAX_STRING_LEN = 18"

text \<open>\<open>PRV_CONCAT_STR\<close>, and a number behind what is written.\<close>

definition PRV_CONCAT_STR :: "nat \<Rightarrow> u8 list \<Rightarrow> u8 list \<Rightarrow> u8 list option res" where
  "PRV_CONCAT_STR len s buf = Inr (if len - length buf < length s then None else Some (buf @ s))"

definition concat_number :: "nat \<Rightarrow> u64 \<Rightarrow> u8 list \<Rightarrow> u8 list option res" where
  "concat_number len i buf =
     bind_res (xiny_utils_intToText i (len - length buf)) (\<lambda>t. Inr (if t = [] then None else Some (buf @ t)))"

definition link_start :: "u8 list" where "link_start = [0x3C]"
definition link_end :: "u8 list" where "link_end = [0x3E, 0x2C]"
definition link_dim_start :: "u8 list" where "link_dim_start = map of_char ''>;dim=''"

fun prv_serializeLinkData :: "lwm2m_data \<Rightarrow> u8 list \<Rightarrow> nat \<Rightarrow> u8 list option res"
  and link_children :: "lwm2m_data list \<Rightarrow> u8 list \<Rightarrow> nat \<Rightarrow> u8 list \<Rightarrow> u8 list option res" where
  "prv_serializeLinkData (LwData ty i v) parent bufferLen =
     (if ty = LWM2M_TYPE_OBJECT then Inr None
      else if ty = LWM2M_TYPE_OBJECT_INSTANCE
      then
        bind_some (if URI_MAX_STRING_LEN < length parent then Inr None
                   else PRV_CONCAT_STR URI_MAX_STRING_LEN [slash] parent) (\<lambda>uriStr.
        bind_some (concat_number URI_MAX_STRING_LEN (ucast i) uriStr) (\<lambda>uriStr.
        bind_some (PRV_CONCAT_STR bufferLen link_start []) (\<lambda>buf.
        bind_some (PRV_CONCAT_STR bufferLen uriStr buf) (\<lambda>buf.
        bind_some (PRV_CONCAT_STR bufferLen link_end buf) (\<lambda>buf.
        case v of AsChildren ds \<Rightarrow> link_children ds uriStr bufferLen buf | _ \<Rightarrow> Inl BadAccess)))))
      else
        bind_some (PRV_CONCAT_STR bufferLen link_start []) (\<lambda>buf.
        bind_some (PRV_CONCAT_STR bufferLen parent buf) (\<lambda>buf.
        bind_some (PRV_CONCAT_STR bufferLen [slash] buf) (\<lambda>buf.
        bind_some (concat_number bufferLen (ucast i) buf) (\<lambda>buf.
        if ty = LWM2M_TYPE_MULTIPLE_RESOURCE
        then
          (case v of
             AsChildren ds \<Rightarrow>
               bind_some (PRV_CONCAT_STR bufferLen link_dim_start buf) (\<lambda>buf.
               bind_some (concat_number bufferLen (of_nat (length ds)) buf) (\<lambda>buf.
               PRV_CONCAT_STR bufferLen [0x2C] buf))
           | _ \<Rightarrow> Inl BadAccess)
        else PRV_CONCAT_STR bufferLen link_end buf)))))"
| "link_children [] parent bufferLen buf = Inr (Some buf)"
| "link_children (d # ds) parent bufferLen buf =
     bind_some (prv_serializeLinkData d parent (bufferLen - length buf)) (\<lambda>s.
     link_children ds parent bufferLen (buf @ s))"

text \<open>The object or the instance itself, when no resource is asked for.\<close>

definition link_head :: "lwm2m_uri \<Rightarrow> u8 list option res" where
  "link_head u =
     (if LWM2M_URI_IS_SET_RESOURCE u then Inr (Some [])
      else
        bind_some (PRV_CONCAT_STR PRV_LINK_BUFFER_SIZE link_start []) (\<lambda>buf.
        bind_some (PRV_CONCAT_STR PRV_LINK_BUFFER_SIZE [slash] buf) (\<lambda>buf.
        bind_some (concat_number PRV_LINK_BUFFER_SIZE (ucast (objectId u)) buf) (\<lambda>buf.
        bind_some
          (if LWM2M_URI_IS_SET_INSTANCE u
           then bind_some (PRV_CONCAT_STR PRV_LINK_BUFFER_SIZE [slash] buf)
                  (concat_number PRV_LINK_BUFFER_SIZE (ucast (instanceId u)))
           else Inr (Some buf))
          (PRV_CONCAT_STR PRV_LINK_BUFFER_SIZE link_end)))))"

fun link_all :: "lwm2m_data list \<Rightarrow> u8 list \<Rightarrow> u8 list \<Rightarrow> u8 list option res" where
  "link_all [] base buf = Inr (Some buf)"
| "link_all (d # ds) base buf =
     (if length buf < PRV_LINK_BUFFER_SIZE
      then bind_some (prv_serializeLinkData d base (PRV_LINK_BUFFER_SIZE - length buf)) (\<lambda>s. link_all ds base (buf @ s))
      else Inr (Some buf))"

definition xiny_discover_serialize :: "lwm2m_uri option \<Rightarrow> lwm2m_data list \<Rightarrow> u8 list option res" where
  "xiny_discover_serialize uriP ds =
     (case uriP of
        None \<Rightarrow> Inl BadAccess
      | Some u \<Rightarrow>
          bind_some (link_head u) (\<lambda>buf.
          let u = (if LWM2M_URI_IS_SET_RESOURCE u
                   then u\<lparr>uri_flag := uri_flag u AND NOT LWM2M_URI_FLAG_RESOURCE_ID\<rparr> else u)
          in bind_some (xiny_uri_toString_lwm2m (Some u) URI_MAX_STRING_LEN) (\<lambda>(base, _).
          bind_some (link_all ds (butlast base) buf) (\<lambda>buf. Inr (Some (butlast buf))))))"

end
