(* ===== verification/Lwm2mData.thy ===== *)
theory Lwm2mData
  imports Lwm2mDiscover
begin

text \<open>
  \<open>APPLIB/wakaama/core/data.c\<close>: building and reading LwM2M data, and choosing its format.  A client build without
  JSON; the text of a \<open>double\<close> is an argument.
\<close>

section \<open>Building\<close>

definition xiny_lwm2m_data_encode_string :: "u8 list option \<Rightarrow> lwm2m_data \<Rightarrow> lwm2m_data" where
  "xiny_lwm2m_data_encode_string s d =
     LwData LWM2M_TYPE_STRING (data_id d) (AsBuffer (case s of None \<Rightarrow> [] | Some s \<Rightarrow> takeWhile (\<lambda>c. c \<noteq> 0) s))"

definition xiny_lwm2m_data_encode_opaque :: "u8 list \<Rightarrow> lwm2m_data \<Rightarrow> lwm2m_data" where
  "xiny_lwm2m_data_encode_opaque buffer d = LwData LWM2M_TYPE_OPAQUE (data_id d) (AsBuffer buffer)"

definition xiny_lwm2m_data_encode_nstring :: "u8 list \<Rightarrow> lwm2m_data \<Rightarrow> lwm2m_data" where
  "xiny_lwm2m_data_encode_nstring s d = LwData LWM2M_TYPE_STRING (data_id d) (AsBuffer s)"

definition xiny_lwm2m_data_encode_int :: "u64 \<Rightarrow> lwm2m_data \<Rightarrow> lwm2m_data" where
  "xiny_lwm2m_data_encode_int x d = LwData LWM2M_TYPE_INTEGER (data_id d) (AsInteger x)"

definition xiny_lwm2m_data_encode_float :: "u64 \<Rightarrow> lwm2m_data \<Rightarrow> lwm2m_data" where
  "xiny_lwm2m_data_encode_float x d = LwData LWM2M_TYPE_FLOAT (data_id d) (AsFloat x)"

definition xiny_lwm2m_data_encode_bool :: "bool \<Rightarrow> lwm2m_data \<Rightarrow> lwm2m_data" where
  "xiny_lwm2m_data_encode_bool b d = LwData LWM2M_TYPE_BOOLEAN (data_id d) (AsBoolean b)"

definition xiny_lwm2m_data_encode_objlink :: "u16 \<Rightarrow> u16 \<Rightarrow> lwm2m_data \<Rightarrow> lwm2m_data" where
  "xiny_lwm2m_data_encode_objlink a b d = LwData LWM2M_TYPE_OBJECT_LINK (data_id d) (AsObjLink a b)"

definition xiny_lwm2m_data_include :: "lwm2m_data list \<Rightarrow> lwm2m_data \<Rightarrow> lwm2m_data" where
  "xiny_lwm2m_data_include sub d =
     (case sub of
        [] \<Rightarrow> d
      | x # _ \<Rightarrow>
          (case data_type x of
             LWM2M_TYPE_OBJECT_INSTANCE \<Rightarrow> LwData LWM2M_TYPE_OBJECT (data_id d) (AsChildren sub)
           | LWM2M_TYPE_UNDEFINED \<Rightarrow> d
           | LWM2M_TYPE_OBJECT \<Rightarrow> d
           | _ \<Rightarrow> LwData LWM2M_TYPE_OBJECT_INSTANCE (data_id d) (AsChildren sub)))"

definition xiny_lwm2m_data_encode_instances :: "lwm2m_data list \<Rightarrow> lwm2m_data \<Rightarrow> lwm2m_data" where
  "xiny_lwm2m_data_encode_instances sub d =
     (let d = xiny_lwm2m_data_include sub d in LwData LWM2M_TYPE_MULTIPLE_RESOURCE (data_id d) (data_value d))"

section \<open>Reading\<close>

definition xiny_lwm2m_data_decode_int :: "lwm2m_data \<Rightarrow> u64 option res" where
  "xiny_lwm2m_data_decode_int d =
     (case data_type d of
        LWM2M_TYPE_INTEGER \<Rightarrow> (case data_value d of AsInteger x \<Rightarrow> Inr (Some x) | _ \<Rightarrow> Inl BadAccess)
      | LWM2M_TYPE_STRING \<Rightarrow> (case data_value d of AsBuffer b \<Rightarrow> Inr (xiny_utils_textToInt b) | _ \<Rightarrow> Inl BadAccess)
      | LWM2M_TYPE_OPAQUE \<Rightarrow>
          (case data_value d of
             AsBuffer b \<Rightarrow>
               Inr (if length b = 1 then Some (scast (hd b))
                    else if length b = 2 then Some (scast (of_le_bytes (xiny_utils_copyValue b) :: u16))
                    else if length b = 4 then Some (scast (of_le_bytes (xiny_utils_copyValue b) :: u32))
                    else if length b = 8 then Some (of_le_bytes (xiny_utils_copyValue b))
                    else None)
           | _ \<Rightarrow> Inl BadAccess)
      | _ \<Rightarrow> Inr None)"

definition one_byte :: "u8 \<Rightarrow> u8 \<Rightarrow> u8 list \<Rightarrow> bool option" where
  "one_byte false true b = (if b = [false] then Some False else if b = [true] then Some True else None)"

definition xiny_lwm2m_data_decode_bool :: "lwm2m_data \<Rightarrow> bool option res" where
  "xiny_lwm2m_data_decode_bool d =
     (case data_type d of
        LWM2M_TYPE_BOOLEAN \<Rightarrow> (case data_value d of AsBoolean b \<Rightarrow> Inr (Some b) | _ \<Rightarrow> Inl BadAccess)
      | LWM2M_TYPE_STRING \<Rightarrow> (case data_value d of AsBuffer b \<Rightarrow> Inr (one_byte 0x30 0x31 b) | _ \<Rightarrow> Inl BadAccess)
      | LWM2M_TYPE_OPAQUE \<Rightarrow> (case data_value d of AsBuffer b \<Rightarrow> Inr (one_byte 0 1 b) | _ \<Rightarrow> Inl BadAccess)
      | _ \<Rightarrow> Inr None)"

section \<open>Formats\<close>

datatype media_type =
    LWM2M_CONTENT_TEXT | LWM2M_CONTENT_LINK | LWM2M_CONTENT_OPAQUE | LWM2M_CONTENT_TLV_OLD | LWM2M_CONTENT_TLV
  | LWM2M_CONTENT_JSON_OLD | LWM2M_CONTENT_JSON

definition xiny_lwm2m_data_parse :: "lwm2m_uri \<Rightarrow> u8 list \<Rightarrow> media_type \<Rightarrow> lwm2m_data list" where
  "xiny_lwm2m_data_parse u buffer format =
     (case format of
        LWM2M_CONTENT_TEXT \<Rightarrow>
          if LWM2M_URI_IS_SET_RESOURCE u then [LwData LWM2M_TYPE_STRING (resourceId u) (AsBuffer buffer)] else []
      | LWM2M_CONTENT_OPAQUE \<Rightarrow>
          if LWM2M_URI_IS_SET_RESOURCE u then [LwData LWM2M_TYPE_OPAQUE (resourceId u) (AsBuffer buffer)] else []
      | LWM2M_CONTENT_TLV \<Rightarrow> xiny_tlv_parse_lwm2m buffer
      | _ \<Rightarrow> [])"

text \<open>\<open>xiny_utils_intToText\<close> writes at the end of the buffer and moves the text to its front.\<close>

definition text_in_buffer :: "u8 list \<Rightarrow> u8 list \<Rightarrow> u8 list" where
  "text_in_buffer buf text = blit (blit buf (length buf - length text) text) 0 text"

text \<open>\<open>junk 11\<close>: the buffer on the stack.\<close>

definition text_of_link :: "(nat \<Rightarrow> u8 list) \<Rightarrow> u16 \<Rightarrow> u16 \<Rightarrow> (int \<times> u8 list) res" where
  "text_of_link junk a b =
     bind_res (xiny_utils_intToText (ucast a) 5) (\<lambda>t.
       if t = [] then Inr (-1, [])
       else
         let sb = blit (junk 11) 0 (text_in_buffer (take 5 (junk 11)) t); sb = sb[5 := 0x3A]; n = length t + 1
         in bind_res (xiny_utils_intToText (ucast b) 5) (\<lambda>t'.
            if t' = [] then Inr (-1, [])
            else
              let sb = blit sb n (text_in_buffer (take 5 (drop n sb)) t')
              in Inr (int (n + length t'), take (n + length t') sb)))"

definition prv_textSerialize :: "(nat \<Rightarrow> u8 list) \<Rightarrow> (u64 \<Rightarrow> u8 list) \<Rightarrow> lwm2m_data \<Rightarrow> (int \<times> u8 list) res" where
  "prv_textSerialize junk floatToText d =
     (case (data_type d, data_value d) of
        (LWM2M_TYPE_STRING, AsBuffer b) \<Rightarrow> Inr (int (length b), b)
      | (LWM2M_TYPE_INTEGER, AsInteger x) \<Rightarrow>
          bind_res (xiny_utils_intToText x 32) (\<lambda>t. Inr (if t = [] then (-1, []) else (int (length t), t)))
      | (LWM2M_TYPE_FLOAT, AsFloat x) \<Rightarrow>
          Inr (if floatToText x = [] then (-1, []) else (int (length (floatToText x)), floatToText x))
      | (LWM2M_TYPE_BOOLEAN, AsBoolean b) \<Rightarrow> Inr (1, [if b then 0x31 else 0x30])
      | (LWM2M_TYPE_OBJECT_LINK, AsObjLink a b) \<Rightarrow> text_of_link junk a b
      | (LWM2M_TYPE_OPAQUE, AsBuffer b) \<Rightarrow>
          (let t = xiny_utils_base64Encode b (xiny_utils_base64GetSize (length b)) in Inr (int (length t), t))
      | (ty, _) \<Rightarrow>
          if ty \<in> {LWM2M_TYPE_UNDEFINED, LWM2M_TYPE_OBJECT, LWM2M_TYPE_OBJECT_INSTANCE, LWM2M_TYPE_MULTIPLE_RESOURCE}
          then Inr (-1, []) else Inl BadAccess)"

definition is_container :: "lwm2m_data \<Rightarrow> bool" where
  "is_container d \<longleftrightarrow>
     data_type d \<in> {LWM2M_TYPE_OBJECT, LWM2M_TYPE_OBJECT_INSTANCE, LWM2M_TYPE_MULTIPLE_RESOURCE}"

text \<open>The chosen format, the length and the buffer; \<open>hd\<close> of an empty array is not evaluated by the code either.\<close>

definition choose_format :: "lwm2m_uri option \<Rightarrow> lwm2m_data list \<Rightarrow> media_type \<Rightarrow> media_type" where
  "choose_format u ds format =
     (if (format = LWM2M_CONTENT_TEXT \<or> format = LWM2M_CONTENT_OPAQUE)
         \<and> (length ds \<noteq> 1 \<or> (case u of None \<Rightarrow> False | Some v \<Rightarrow> \<not> LWM2M_URI_IS_SET_RESOURCE v) \<or> is_container (hd ds))
      then LWM2M_CONTENT_TLV else format)"

definition resource_instances :: "lwm2m_uri option \<Rightarrow> lwm2m_data list \<Rightarrow> bool" where
  "resource_instances u ds =
     (case u of
        None \<Rightarrow> False
      | Some v \<Rightarrow> LWM2M_URI_IS_SET_RESOURCE v \<and> (length ds \<noteq> 1 \<or> data_id (hd ds) \<noteq> resourceId v))"

definition xiny_lwm2m_data_serialize ::
    "(nat \<Rightarrow> u8 list) \<Rightarrow> (u64 \<Rightarrow> u8 list) \<Rightarrow> lwm2m_uri option \<Rightarrow> lwm2m_data list \<Rightarrow> media_type
     \<Rightarrow> (media_type \<times> int \<times> u8 list) res" where
  "xiny_lwm2m_data_serialize junk floatToText u ds format =
     (let format = choose_format u ds format
      in if format = LWM2M_CONTENT_OPAQUE \<and> data_type (hd ds) \<noteq> LWM2M_TYPE_OPAQUE then Inr (format, -1, [])
         else
           bind_res
             (case format of
                LWM2M_CONTENT_TEXT \<Rightarrow> prv_textSerialize junk floatToText (hd ds)
              | LWM2M_CONTENT_OPAQUE \<Rightarrow>
                  (case data_value (hd ds) of AsBuffer b \<Rightarrow> Inr (int (length b), b) | _ \<Rightarrow> Inl BadAccess)
              | LWM2M_CONTENT_TLV \<Rightarrow> xiny_tlv_serialize_lwm2m junk (resource_instances u ds) ds
              | LWM2M_CONTENT_TLV_OLD \<Rightarrow> xiny_tlv_serialize_lwm2m junk (resource_instances u ds) ds
              | LWM2M_CONTENT_LINK \<Rightarrow>
                  bind_res (xiny_discover_serialize u ds) (\<lambda>r.
                  Inr (case r of None \<Rightarrow> (-1, []) | Some t \<Rightarrow> (int (length t), t)))
              | _ \<Rightarrow> Inr (-1, []))
             (\<lambda>r. Inr (format, r)))"

end
