(* ===== verification/Lwm2mSpec.thy ===== *)
theory Lwm2mSpec
  imports Lwm2mData
begin

text \<open>
  Facts about the numbers, texts and bytes of the LwM2M engine: what is printed is read back.
\<close>

section \<open>Digits\<close>

definition digit :: "nat \<Rightarrow> u8" where
  "digit d = of_nat (48 + d)"

lemma digit_facts:
  assumes "d < 10"
  shows "is_digit (digit d)" "digit d \<noteq> 0x2D" "digit d \<noteq> slash" "unat (digit d) = 48 + d"
    "ucast (digit d - 0x30) = (of_nat d :: u64)" "\<not> is_space (digit d)"
proof -
  have "d \<in> {0, 1, 2, 3, 4, 5, 6, 7, 8, 9}" using assms by auto
  then show "is_digit (digit d)" "digit d \<noteq> 0x2D" "digit d \<noteq> slash" "unat (digit d) = 48 + d"
    "ucast (digit d - 0x30) = (of_nat d :: u64)" "\<not> is_space (digit d)"
    by (auto simp: digit_def is_digit_def slash_def is_space_def)
qed

lemma dec_digits_step: "dec_digits n = (if n < 10 then [digit n] else dec_digits (n div 10) @ [digit (n mod 10)])"
  by (subst dec_digits.simps) (simp add: digit_def)

lemma dec_digits_hd: "\<exists>d ds. d < 10 \<and> dec_digits n = digit d # ds"
proof (induction n rule: dec_digits.induct)
  case (1 n)
  then show ?case by (cases "n < 10") (auto simp: dec_digits_step [of n])
qed

lemma text_digit: "unat (x :: u64) mod 10 = d \<Longrightarrow> 0x30 + ucast (x mod 10) = digit d"
proof -
  assume d: "unat x mod 10 = d"
  then have "x mod 10 = of_nat d" by (simp add: word_unat_eq_iff unat_mod unat_of_nat take_bit_eq_mod)
  moreover have "d < 10" using d by simp
  then have "d \<in> {0, 1, 2, 3, 4, 5, 6, 7, 8, 9}" by auto
  ultimately show ?thesis by (auto simp: digit_def)
qed

lemma unat_div_ten: "unat ((x :: u64) div 10) = unat x div 10"
  by (simp add: unat_div)

lemma text_digits_fits:
  assumes "length (dec_digits (unat x)) \<le> k"
  shows "text_digits k x out = (k - length (dec_digits (unat x)), 0, dec_digits (unat x) @ out)"
  using assms
proof (induction k arbitrary: x out)
  case 0
  then show ?case using length_dec_digits_pos [of "unat x"] by linarith
next
  case (Suc k)
  let ?y = "x div 10"
  have d: "0x30 + ucast (x mod 10) = digit (unat x mod 10)" by (rule text_digit) simp
  show ?case
  proof (cases "unat x < 10")
    case True
    then have "?y = 0" by (simp add: word_unat_eq_iff unat_div_ten)
    then show ?thesis using True d by (simp add: dec_digits_step [of "unat x"] Let_def)
  next
    case False
    then have pos: "0 < ?y" by (simp add: word_less_nat_alt unat_div_ten)
    have len: "length (dec_digits (unat x)) = length (dec_digits (unat ?y)) + 1"
      using False by (simp add: dec_digits_step [of "unat x"] unat_div_ten)
    then have k: "length (dec_digits (unat ?y)) \<le> k" using Suc.prems by simp
    then have "0 < k" using length_dec_digits_pos [of "unat ?y"] by linarith
    then have "text_digits (Suc k) x out = text_digits k ?y (digit (unat x mod 10) # out)"
      using pos d by (simp add: Let_def)
    also have "\<dots> = (k - length (dec_digits (unat ?y)), 0, dec_digits (unat ?y) @ digit (unat x mod 10) # out)"
      by (rule Suc.IH [OF k])
    finally show ?thesis using False len by (simp add: dec_digits_step [of "unat x"] unat_div_ten)
  qed
qed

lemma u64_less: "unat (x :: u64) < 2 ^ 64"
proof -
  have "unat x < 2 ^ LENGTH(64)" by (rule unsigned_less)
  then show ?thesis by simp
qed

lemma sum_wraps: "(a + b) mod n = 0 \<Longrightarrow> 0 < b \<Longrightarrow> a < n \<Longrightarrow> b < n \<Longrightarrow> a = n - b" for a b n :: nat
  by (cases "a + b < n") (auto simp: le_mod_geq)

lemma unat_neg: "x \<noteq> 0 \<Longrightarrow> unat (- x :: u64) = 2 ^ 64 - unat x"
proof -
  assume x: "x \<noteq> 0"
  have "unat (- x + x) = (unat (- x) + unat x) mod 2 ^ LENGTH(64)" by (rule unat_word_ariths)
  then have "(unat (- x) + unat x) mod 2 ^ 64 = 0" by simp
  then show ?thesis
    using x u64_less [of x] u64_less [of "- x"] by (intro sum_wraps) (auto simp: unat_gt_0)
qed

lemma negative_iff: "x <s 0 \<longleftrightarrow> 2 ^ 63 \<le> unat (x :: u64)"
proof -
  have u: "unat x < 2 ^ 64" by (rule u64_less)
  have "x <s 0 \<longleftrightarrow> bit x 63" using bit_last_iff [of x] by (simp add: word_sless_alt)
  also have "\<dots> \<longleftrightarrow> bit (unat x) 63" by (simp add: bit_unsigned_iff)
  also have "\<dots> \<longleftrightarrow> odd (unat x div 2 ^ 63)" by (simp add: bit_iff_odd)
  also have "\<dots> \<longleftrightarrow> 2 ^ 63 \<le> unat x"
  proof (cases "unat x < 2 ^ 63")
    case False
    then have "unat x div 2 ^ 63 = 1" using u by (intro div_nat_eqI) simp_all
    then show ?thesis using False by simp
  qed simp
  finally show ?thesis .
qed

lemma not_least: "unat x < 2 ^ 63 \<Longrightarrow> x \<noteq> INT64_MIN"
  by (auto simp: INT64_MIN_def)

lemma int_to_text:
  assumes "unat x < 2 ^ 63" "length (dec_digits (unat x)) \<le> k"
  shows "xiny_utils_intToText x k = Inr (dec_digits (unat x))"
proof -
  have "0 < k" using assms(2) length_dec_digits_pos [of "unat x"] by linarith
  moreover have "\<not> x <s 0" using assms(1) by (simp add: negative_iff)
  ultimately show ?thesis
    by (simp add: xiny_utils_intToText_def text_digits_fits [OF assms(2)] Let_def not_least [OF assms(1)])
qed

text \<open>Reading digits.\<close>

lemma text_number_append:
  "text_number r (xs @ ys) = (case text_number r xs of None \<Rightarrow> None | Some r' \<Rightarrow> text_number r' ys)"
  by (induction xs arbitrary: r) auto

lemma text_number_digits: "n < 2 ^ 63 \<Longrightarrow> text_number 0 (dec_digits n) = Some (of_nat n)"
proof (induction n rule: dec_digits.induct)
  case (1 n)
  show ?case
  proof (cases "n < 10")
    case True
    then show ?thesis by (simp add: dec_digits_step [of n] digit_facts UINT64_MAX_def)
  next
    case False
    have "n div 10 < 2 ^ 63" "n div 10 \<le> 1844674407370955161" using 1(2) by auto
    moreover have "unat (of_nat (n div 10) :: u64) = n div 10"
      using 1(2) by (simp add: unat_of_nat take_bit_eq_mod)
    ultimately have "\<not> (UINT64_MAX div 10 < (of_nat (n div 10) :: u64))"
      by (simp add: UINT64_MAX_def word_less_nat_alt)
    moreover have "text_number 0 (dec_digits (n div 10)) = Some (of_nat (n div 10))"
      using 1 False by simp
    moreover have "of_nat (n div 10) * 10 + of_nat (n mod 10) = (of_nat n :: u64)"
      by (metis div_mult_mod_eq of_nat_add of_nat_mult of_nat_numeral)
    ultimately show ?thesis
      using False by (simp add: dec_digits_step [of n] text_number_append digit_facts)
  qed
qed

lemma text_to_int:
  assumes "n < 2 ^ 63"
  shows "xiny_utils_textToInt (dec_digits n) = Some (of_nat n)" "xiny_utils_textToInt (0x2D # dec_digits n) = Some (- of_nat n)"
proof -
  obtain d ds where d: "dec_digits n = digit d # ds" "d < 10" using dec_digits_hd by blast
  have "unat (of_nat n :: u64) = n" using assms by (simp add: unat_of_nat take_bit_eq_mod)
  then have "\<not> INT64_MAX < (of_nat n :: u64)" using assms by (simp add: INT64_MAX_def word_less_nat_alt)
  then show "xiny_utils_textToInt (dec_digits n) = Some (of_nat n)"
    "xiny_utils_textToInt (0x2D # dec_digits n) = Some (- of_nat n)"
    using text_number_digits [OF assms] d by (simp_all add: xiny_utils_textToInt_def digit_facts)
qed

text \<open>Every number but the least has a text that is read back; a buffer of 21 characters is enough, although the
  longest text has 20.\<close>

lemma int_text_int:
  assumes "x \<noteq> INT64_MIN" "21 \<le> k"
  shows "\<exists>t. xiny_utils_intToText x k = Inr t \<and> t \<noteq> [] \<and> xiny_utils_textToInt t = Some x"
proof (cases "x <s 0")
  case False
  then have n: "unat x < 2 ^ 63" by (simp add: negative_iff)
  then have "length (dec_digits (unat x)) \<le> k"
    using length_dec_digits_le [of "unat x" 19] assms(2) by simp
  then show ?thesis using int_to_text [OF n] text_to_int [OF n] length_dec_digits_pos [of "unat x"] by auto
next
  case True
  let ?n = "unat (- x)"
  have "unat x \<noteq> 2 ^ 63"
  proof
    assume "unat x = 2 ^ 63"
    then have "unat x = unat INT64_MIN" by (simp add: INT64_MIN_def)
    then show False using assms(1) by (simp only: word_unat_eq_iff)
  qed
  moreover have "?n = 2 ^ 64 - unat x" using True by (intro unat_neg) (auto simp: negative_iff)
  ultimately have n: "?n < 2 ^ 63" using True by (simp add: negative_iff)
  then have l: "length (dec_digits ?n) \<le> 19" using length_dec_digits_le [of ?n 19] by simp
  then have fits: "length (dec_digits ?n) \<le> k" using assms(2) by simp
  have "xiny_utils_intToText x k = Inr (0x2D # dec_digits ?n)"
    using True assms l by (simp add: xiny_utils_intToText_def text_digits_fits [OF fits] Let_def)
  then show ?thesis using text_to_int(2) [OF n] by simp
qed

text \<open>A negative number whose digits fill the buffer is written in front of it.\<close>

lemma sign_underruns:
  assumes "x <s 0" "x \<noteq> INT64_MIN"
  shows "xiny_utils_intToText x (length (dec_digits (unat (- x)))) = Inl BadAccess"
  using assms by (simp add: xiny_utils_intToText_def text_digits_fits Let_def)

text \<open>Numbers beyond the range of the accumulator are not refused but wrap around.\<close>

lemma text_to_int_wraps: "xiny_utils_textToInt (map of_char ''18446744073709551617'') = Some 1"
  by (simp add: xiny_utils_textToInt_def is_digit_def int64_defs)

end
