(* ===== verification/TlvSpec.thy ===== *)
theory TlvSpec
  imports Lwm2mSpec
begin

text \<open>
  The bytes of a tree of data, written by recursion on it, and what a reader sees of it: identifiers, the tree
  of instances and the bytes of the resources.
\<close>

section \<open>Types\<close>

text \<open>The member of the union is the one of the type; an undefined value may hold anything.\<close>

fun well_typed :: "lwm2m_data \<Rightarrow> bool" where
  "well_typed (LwData ty i v) \<longleftrightarrow> ty = LWM2M_TYPE_UNDEFINED \<or>
     (case v of
        AsBoolean b \<Rightarrow> ty = LWM2M_TYPE_BOOLEAN
      | AsInteger x \<Rightarrow> ty = LWM2M_TYPE_INTEGER
      | AsFloat x \<Rightarrow> ty = LWM2M_TYPE_FLOAT
      | AsBuffer b \<Rightarrow> ty = LWM2M_TYPE_STRING \<or> ty = LWM2M_TYPE_OPAQUE
      | AsChildren ds \<Rightarrow>
          (ty = LWM2M_TYPE_OBJECT_INSTANCE \<or> ty = LWM2M_TYPE_MULTIPLE_RESOURCE \<or> ty = LWM2M_TYPE_OBJECT)
          \<and> list_all well_typed ds
      | AsObjLink a b \<Rightarrow> ty = LWM2M_TYPE_OBJECT_LINK)"

section \<open>Bytes\<close>

fun payload :: "lwm2m_value \<Rightarrow> u8 list" where
  "payload (AsBoolean b) = [if b then 1 else 0]"
| "payload (AsInteger x) = prv_encodeInt x"
| "payload (AsFloat x) = prv_encodeFloat x"
| "payload (AsBuffer b) = b"
| "payload (AsObjLink a b) = link_bytes a b"
| "payload (AsChildren ds) = []"

definition tlv_of :: "bool \<Rightarrow> lwm2m_data_type \<Rightarrow> u16 \<Rightarrow> u8 list \<Rightarrow> u8 list" where
  "tlv_of inst ty i d = prv_createHeader [] inst ty i (length d) @ d"

fun tlv :: "bool \<Rightarrow> lwm2m_data \<Rightarrow> u8 list" where
  "tlv inst (LwData ty i v) =
     (case v of
        AsChildren ds \<Rightarrow> tlv_of False ty i (concat (map (tlv (inst \<or> ty = LWM2M_TYPE_MULTIPLE_RESOURCE)) ds))
      | _ \<Rightarrow> tlv_of inst ty i (payload v))"

definition tlvs :: "bool \<Rightarrow> lwm2m_data list \<Rightarrow> u8 list" where
  "tlvs inst ds = concat (map (tlv inst) ds)"

text \<open>What can be written and read again: no objects, no empty containers, lengths of 24 bits.\<close>

fun sendable :: "bool \<Rightarrow> lwm2m_data \<Rightarrow> bool" where
  "sendable inst (LwData ty i v) \<longleftrightarrow>
     (case v of
        AsBoolean b \<Rightarrow> ty = LWM2M_TYPE_BOOLEAN
      | AsInteger x \<Rightarrow> ty = LWM2M_TYPE_INTEGER
      | AsFloat x \<Rightarrow> ty = LWM2M_TYPE_FLOAT
      | AsBuffer b \<Rightarrow> (ty = LWM2M_TYPE_STRING \<or> ty = LWM2M_TYPE_OPAQUE) \<and> length b < 2 ^ 24
      | AsChildren ds \<Rightarrow>
          (ty = LWM2M_TYPE_OBJECT_INSTANCE \<or> ty = LWM2M_TYPE_MULTIPLE_RESOURCE) \<and> ds \<noteq> []
          \<and> list_all (sendable (inst \<or> ty = LWM2M_TYPE_MULTIPLE_RESOURCE)) ds
          \<and> length (concat (map (tlv (inst \<or> ty = LWM2M_TYPE_MULTIPLE_RESOURCE)) ds)) < 2 ^ 24
      | AsObjLink a b \<Rightarrow> ty = LWM2M_TYPE_OBJECT_LINK)"

fun as_read :: "lwm2m_data \<Rightarrow> lwm2m_data" where
  "as_read (LwData ty i v) =
     (case v of
        AsChildren ds \<Rightarrow> LwData ty i (AsChildren (map as_read ds))
      | _ \<Rightarrow> LwData LWM2M_TYPE_OPAQUE i (AsBuffer (payload v)))"

lemma sendable_well_typed: "sendable inst d \<Longrightarrow> well_typed d"
  by (induction d arbitrary: inst rule: well_typed.induct) (auto simp: list_all_iff split: lwm2m_value.splits)

section \<open>Headers\<close>

lemma length_prv_createHeader:
  assumes "n < 2 ^ 24 \<or> prv_getHeaderLength i n \<le> length old"
  shows "length (prv_createHeader old inst ty i n) = prv_getHeaderLength i n"
  using assms by (auto simp: prv_createHeader_def prv_getHeaderLength_def Let_def)

lemma header_old: "n < 2 ^ 24 \<Longrightarrow> prv_createHeader old inst ty i n = prv_createHeader [] inst ty i n"
  by (auto simp: prv_createHeader_def Let_def)

text \<open>The type a reader sees.\<close>

definition seen_type :: "bool \<Rightarrow> lwm2m_data_type \<Rightarrow> lwm2m_data_type" where
  "seen_type inst ty =
     (if \<not> inst \<and> (ty = LWM2M_TYPE_OBJECT_INSTANCE \<or> ty = LWM2M_TYPE_MULTIPLE_RESOURCE) then ty else LWM2M_TYPE_OPAQUE)"

lemma header_types:
  assumes "ty \<noteq> LWM2M_TYPE_UNDEFINED" "ty \<noteq> LWM2M_TYPE_OBJECT"
  shows "\<exists>h \<in> {0, 0x40, 0x80, 0xC0}.
    (if inst then PRV_TLV_TYPE_RESOURCE_INSTANCE else prv_getHeaderType ty) AND PRV_TLV_TYPE_MASK = h
    \<and> prv_getDataType h = seen_type inst ty"
  using assms by (cases inst; cases ty) (simp_all add: tlv_type_defs prv_getDataType_def seen_type_def)

text \<open>The bytes of lengths and identifiers.\<close>

lemma unat_of_byte [simp]: "unat (of_nat n :: u8) = n mod 256"
  by (simp add: unat_of_nat take_bit_eq_mod)

lemma two_bytes: "n \<le> 0xFFFF \<Longrightarrow> 256 * (n div 0x100 mod 256) + n mod 256 = n" for n :: nat
  by simp

lemma three_bytes: "n \<le> 0xFFFFFF \<Longrightarrow> 256 * (256 * (n div 0x10000 mod 256) + n div 0x100 mod 256) + n mod 256 = n" for n :: nat
  by (simp add: div_mult2_eq [of n 256 256, simplified])

lemma and_0xFF: "(x :: 'a :: len word) AND 0xFF = take_bit 8 x"
  by (simp only: take_bit_eq_mask mask_eq_exp_minus_1) simp

lemma unat_u16_less: "unat (i :: u16) < 65536"
  using unsigned_less [of i, where 'a = nat] by simp

lemma byte_low: "unat (ucast (i AND 0xFF) :: u8) = unat (i :: u16) mod 256"
  by (simp only: and_0xFF unsigned_ucast_eq unsigned_take_bit_eq) (simp add: take_bit_eq_mod)

lemma byte_high: "unat (ucast (drop_bit 8 i AND 0xFF) :: u8) = unat (i :: u16) div 256"
proof -
  have "unat i div 256 < 256" using unat_u16_less [of i] by (simp add: less_mult_imp_div_less)
  then show ?thesis
    by (simp only: and_0xFF unsigned_ucast_eq unsigned_take_bit_eq unsigned_drop_bit_eq) (simp add: take_bit_eq_mod drop_bit_eq_div)
qed

lemma join_bytes: "push_bit 8 (ucast a) + ucast b = (of_nat (256 * unat a + unat b) :: u16)" for a b :: u8
  by (simp add: push_bit_eq_mult mult.commute)

lemma join_id:
  "push_bit 8 (ucast (ucast (drop_bit 8 i AND 0xFF) :: u8)) + ucast (ucast (i AND 0xFF) :: u8) = (i :: u16)"
  by (simp only: join_bytes byte_high, simp only: byte_low mult_div_mod_eq of_nat_unat ucast_id)

lemma short_id: "\<not> 0xFF < i \<Longrightarrow> ucast (ucast i :: u8) = (i :: u16)"
proof -
  assume "\<not> 0xFF < i"
  then have "unat i < 2 ^ 8" by (simp add: word_less_nat_alt)
  then have "take_bit 8 i = i" by (simp only: word_unat_eq_iff unsigned_take_bit_eq take_bit_nat_eq_self)
  moreover have "ucast (ucast i :: u8) = take_bit 8 i" by (rule bit_word_eqI) (auto simp: bit_simps)
  ultimately show ?thesis by (simp only:)
qed

text \<open>A header is a first byte, the identifier and the length.\<close>

definition id_bytes :: "u16 \<Rightarrow> u8 list" where
  "id_bytes i = (if 0xFF < i then [ucast (drop_bit 8 i AND 0xFF), ucast (i AND 0xFF)] else [ucast i])"

definition len_bytes :: "nat \<Rightarrow> u8 list" where
  "len_bytes n =
     (if n \<le> 7 then [] else if n \<le> 0xFF then [of_nat n]
      else if n \<le> 0xFFFF then [of_nat (n div 0x100), of_nat n]
      else [of_nat (n div 0x10000), of_nat (n div 0x100), of_nat n])"

definition head_byte :: "u8 \<Rightarrow> bool \<Rightarrow> nat \<Rightarrow> u8" where
  "head_byte h wide n =
     (let h = if wide then h OR 0x20 else h
      in if n \<le> 7 then h + of_nat n else if n \<le> 0xFF then h OR 0x08 else if n \<le> 0xFFFF then h OR 0x10 else h OR 0x18)"

lemma prv_createHeader_eq:
  assumes "n < 2 ^ 24"
    and "(if inst then PRV_TLV_TYPE_RESOURCE_INSTANCE else prv_getHeaderType ty) AND PRV_TLV_TYPE_MASK = h"
  shows "prv_createHeader old inst ty i n = head_byte h (0xFF < i) n # id_bytes i @ len_bytes n"
  using assms by (auto simp: prv_createHeader_def id_bytes_def len_bytes_def head_byte_def Let_def)

lemma upto_7: "n \<le> 7 \<Longrightarrow> n = 0 \<or> n = 1 \<or> n = 2 \<or> n = 3 \<or> n = 4 \<or> n = 5 \<or> n = 6 \<or> n = (7 :: nat)"
  by arith

lemma head_byte_short:
  assumes "h \<in> {0, 0x40, 0x80, 0xC0}" "n \<le> 7"
  shows "head_byte h wide n AND PRV_TLV_TYPE_MASK = h"
    and "head_byte h wide n AND 0x20 = 0x20 \<longleftrightarrow> wide"
    and "head_byte h wide n AND 0x18 = 0"
    and "unat (head_byte h wide n AND 7) = n"
  using assms(1) upto_7 [OF assms(2)] by (cases wide; auto simp: head_byte_def tlv_type_defs)+

lemma head_byte_long:
  assumes "h \<in> {0, 0x40, 0x80, 0xC0}" "\<not> n \<le> 7"
  shows "head_byte h wide n AND PRV_TLV_TYPE_MASK = h"
    and "head_byte h wide n AND 0x20 = 0x20 \<longleftrightarrow> wide"
    and "head_byte h wide n AND 0x18 = (if n \<le> 0xFF then 0x08 else if n \<le> 0xFFFF then 0x10 else 0x18)"
  using assms by (cases wide; auto simp: head_byte_def tlv_type_defs)+

definition read_id :: "u8 list \<Rightarrow> u16" where
  "read_id bs = (if length bs = 2 then push_bit 8 (ucast (bs ! 0)) + ucast (bs ! 1) else ucast (bs ! 0))"

lemma read_id_simps: "read_id [a] = ucast a" "read_id [a, b] = push_bit 8 (ucast a) + ucast b"
  by (simp_all add: read_id_def)

lemma read_id_bytes: "read_id (id_bytes i) = i"
proof (cases "0xFF < i")
  case True
  then show ?thesis by (simp only: id_bytes_def if_True read_id_simps join_id)
next
  case False
  then show ?thesis by (simp only: id_bytes_def if_False read_id_simps short_id [OF False])
qed

lemma len_of_bytes:
  assumes "n < 2 ^ 24" "\<not> n \<le> 7"
  shows "foldl (\<lambda>l b. 256 * l + unat b) 0 (len_bytes n) = n"
  using assms two_bytes [of n] three_bytes [of n] by (auto simp: len_bytes_def)

lemma length_id_bytes: "length (id_bytes i) = (if 0xFF < i then 2 else 1)"
  and length_len_bytes: "length (len_bytes n) = (if n \<le> 7 then 0 else if n \<le> 0xFF then 1 else if n \<le> 0xFFFF then 2 else 3)"
  by (simp_all add: id_bytes_def len_bytes_def)

lemma len_bytes_Nil: "len_bytes n = [] \<longleftrightarrow> n \<le> 7"
  by (simp add: len_bytes_def)

section \<open>Reading what was written\<close>

lemma decode_TLV_head:
  assumes "b AND 0x20 = 0x20 \<longleftrightarrow> length ids = 2" "length ids = 1 \<or> length ids = 2"
    and "b AND 0x18 = 0 \<longleftrightarrow> length lens = 0" "b AND 0x18 = 0x08 \<longleftrightarrow> length lens = 1"
      "b AND 0x18 = 0x10 \<longleftrightarrow> length lens = 2" "length lens \<le> 3"
    and "n = (if lens = [] then unat (b AND 0x07) else foldl (\<lambda>l b. 256 * l + unat b) 0 lens)"
    and "n \<le> length rest"
  shows "xiny_lwm2m_decode_TLV (b # ids @ lens @ rest) =
    Some (prv_getDataType (b AND PRV_TLV_TYPE_MASK), read_id ids, 1 + length ids + length lens, n)"
proof -
  have wide: "length ids = 2 \<Longrightarrow> \<exists>x y. ids = [x, y]" by (auto simp: length_Suc_conv numeral_2_eq_2)
  have narrow: "length ids = 1 \<Longrightarrow> \<exists>x. ids = [x]" by (auto simp: length_Suc_conv)
  have count: "(if b AND 0x18 = 0x00 then 0 else if b AND 0x18 = 0x08 then 1 else if b AND 0x18 = 0x10 then 2 else 3) = length lens"
  proof -
    have "length lens = 0 \<or> length lens = 1 \<or> length lens = 2 \<or> length lens = 3" using assms(6) by linarith
    then show ?thesis using assms(3-5) by auto
  qed
  show ?thesis
    using assms(1,2,7,8) wide narrow unfolding xiny_lwm2m_decode_TLV_def Let_def nth_Cons_0 count
    by (cases "length ids = 2") (auto simp: read_id_simps)
qed

lemma decode_TLV_tlv_of:
  assumes "ty \<noteq> LWM2M_TYPE_UNDEFINED" "ty \<noteq> LWM2M_TYPE_OBJECT" "length d < 2 ^ 24"
  shows "xiny_lwm2m_decode_TLV (tlv_of inst ty i d @ rest) =
    Some (seen_type inst ty, i, prv_getHeaderLength i (length d), length d)"
proof -
  obtain h where h: "h \<in> {0, 0x40, 0x80, 0xC0}"
    and mask: "(if inst then PRV_TLV_TYPE_RESOURCE_INSTANCE else prv_getHeaderType ty) AND PRV_TLV_TYPE_MASK = h"
    and seen: "prv_getDataType h = seen_type inst ty"
    using header_types [OF assms(1,2)] by metis
  have head: "Suc (length (id_bytes i) + length (len_bytes (length d))) = prv_getHeaderLength i (length d)"
    by (simp add: length_id_bytes length_len_bytes prv_getHeaderLength_def)
  let ?b = "head_byte h (0xFF < i) (length d)"
  have "xiny_lwm2m_decode_TLV (?b # id_bytes i @ len_bytes (length d) @ d @ rest) =
    Some (prv_getDataType (?b AND PRV_TLV_TYPE_MASK), read_id (id_bytes i),
      1 + length (id_bytes i) + length (len_bytes (length d)), length d)"
    by (cases "length d \<le> 7"; rule decode_TLV_head)
      (use head_byte_short [OF h] head_byte_long [OF h] len_of_bytes [OF assms(3)] in
        \<open>auto simp: length_id_bytes length_len_bytes len_bytes_Nil\<close>)
  then show ?thesis
    using head_byte_short(1) [OF h] head_byte_long(1) [OF h]
    by (cases "length d \<le> 7")
      (simp_all add: tlv_of_def prv_createHeader_eq [OF assms(3) mask] head read_id_bytes seen)
qed

lemma length_tlv_of: "length d < 2 ^ 24 \<Longrightarrow> length (tlv_of inst ty i d) = prv_getHeaderLength i (length d) + length d"
  by (simp add: tlv_of_def length_prv_createHeader)

lemma drop_tlv_of:
  "length d < 2 ^ 24 \<Longrightarrow> drop (prv_getHeaderLength i (length d)) (tlv_of inst ty i d @ rest) = d @ rest"
  by (simp add: tlv_of_def length_prv_createHeader)

section \<open>Writing\<close>

lemma sendable_induct [consumes 1, case_names Item]:
  assumes "sendable inst d"
    and "\<And>inst ty i v. sendable inst (LwData ty i v) \<Longrightarrow>
      (\<And>ds d. v = AsChildren ds \<Longrightarrow> d \<in> set ds \<Longrightarrow> P (inst \<or> ty = LWM2M_TYPE_MULTIPLE_RESOURCE) d) \<Longrightarrow> P inst (LwData ty i v)"
  shows "P inst d"
  using assms(1)
proof (induction inst d rule: sendable.induct)
  case (1 inst ty i v)
  show ?case
  proof (rule assms(2) [OF 1(2)])
    fix ds d assume ds: "v = AsChildren ds" "d \<in> set ds"
    then have "sendable (inst \<or> ty = LWM2M_TYPE_MULTIPLE_RESOURCE) d" using 1(2) by (simp add: list_all_iff)
    then show "P (inst \<or> ty = LWM2M_TYPE_MULTIPLE_RESOURCE) d" using 1(1) ds by blast
  qed
qed

lemma tlvs_simps [simp]: "tlvs inst [] = []" "tlvs inst (d # ds) = tlv inst d @ tlvs inst ds"
  by (simp_all add: tlvs_def)

lemma length_payload:
  "v = AsInteger x \<Longrightarrow> length (payload v) \<le> 8" "v = AsFloat x \<Longrightarrow> length (payload v) = (if beyond_float x then 8 else 4)"
  by (auto simp: prv_encodeInt_def prv_encodeFloat_def xiny_utils_copyValue_def le_bytes_def Let_def)

lemma length_link_bytes [simp]: "length (link_bytes a b) = 4"
  by (simp add: link_bytes_def Let_def)

lemma sendable_payload: "sendable inst (LwData ty i v) \<Longrightarrow> (\<And>ds. v \<noteq> AsChildren ds) \<Longrightarrow> length (payload v) < 2 ^ 24"
  using length_payload by (cases v) (fastforce simp: order.strict_trans1)+

lemma sendable_cases:
  assumes "sendable inst (LwData ty i v)"
  obtains (leaf) "\<And>ds. v \<noteq> AsChildren ds" "length (payload v) < 2 ^ 24" "ty \<noteq> LWM2M_TYPE_UNDEFINED" "ty \<noteq> LWM2M_TYPE_OBJECT"
      "seen_type inst ty = LWM2M_TYPE_OPAQUE"
    | (children) ds where "v = AsChildren ds" "ty = LWM2M_TYPE_OBJECT_INSTANCE \<or> ty = LWM2M_TYPE_MULTIPLE_RESOURCE"
      "ds \<noteq> []" "list_all (sendable (inst \<or> ty = LWM2M_TYPE_MULTIPLE_RESOURCE)) ds"
      "length (tlvs (inst \<or> ty = LWM2M_TYPE_MULTIPLE_RESOURCE) ds) < 2 ^ 24"
proof (cases "\<exists>ds. v = AsChildren ds")
  case True
  then show thesis using children assms by (auto simp: tlvs_def)
next
  case False
  then show thesis
    using assms sendable_payload [OF assms] by (intro leaf) (auto simp: seen_type_def split: lwm2m_value.splits)
qed
lemma tlv_leaf: "(\<And>ds. v \<noteq> AsChildren ds) \<Longrightarrow> tlv inst (LwData ty i v) = tlv_of inst ty i (payload v)"
  by (cases v) auto

lemma tlv_children:
  "tlv inst (LwData ty i (AsChildren ds)) = tlv_of False ty i (tlvs (inst \<or> ty = LWM2M_TYPE_MULTIPLE_RESOURCE) ds)"
  by (simp add: tlvs_def)

declare tlv.simps [simp del] xiny_tlv_serialize.simps [simp del]

lemma tlv_of_nonempty: "length d < 2 ^ 24 \<Longrightarrow> 2 \<le> length (tlv_of inst ty i d)"
  by (simp add: length_tlv_of prv_getHeaderLength_def)

lemma length_loop_items:
  "(\<And>d. d \<in> set ds \<Longrightarrow> item_length d = Inr (int (length (tlv inst d)))) \<Longrightarrow>
   length_loop len ds = Inr (len + int (length (tlvs inst ds)))"
  by (induction ds arbitrary: len) (auto simp: add.assoc)

lemma item_length_tlv: "sendable inst d \<Longrightarrow> item_length d = Inr (int (length (tlv inst d)))"
proof (induction rule: sendable_induct)
  case (Item inst ty i v)
  from Item(1) show ?case
  proof (cases rule: sendable_cases)
    case leaf
    then show ?thesis
      using Item(1) length_payload(2) by (cases v) (auto simp: tlv_leaf length_tlv_of)
  next
    case (children ds)
    let ?inst = "inst \<or> ty = LWM2M_TYPE_MULTIPLE_RESOURCE"
    have "length_loop 0 ds = Inr (int (length (tlvs ?inst ds)))"
      using length_loop_items [of ds ?inst 0] Item(2) children(1) by simp
    then show ?thesis using children by (auto simp: tlv_children length_tlv_of)
  qed
qed

lemma length_loop_sendable:
  "list_all (sendable inst) ds \<Longrightarrow> length_loop len ds = Inr (len + int (length (tlvs inst ds)))"
  by (rule length_loop_items) (auto simp: list_all_iff item_length_tlv)

lemma blit_blit:
  assumes "n + length a + length b \<le> length buf"
  shows "blit (blit buf n a) (n + length a) b = blit buf n (a @ b)"
  using assms by (simp add: blit_def ac_simps)

lemma put_tlv_eq:
  assumes "length d < 2 ^ 24" "index + length (tlv_of inst ty i d) \<le> length buf"
  shows "put_tlv inst ty i d (index, buf) =
    Inr (index + length (tlv_of inst ty i d), blit buf index (tlv_of inst ty i d))"
  using assms blit_blit [of index "prv_createHeader [] inst ty i (length d)" d buf]
  by (simp add: put_tlv_def put_at_def header_old [of _ "drop index buf"] tlv_of_def length_prv_createHeader)

definition writes_item :: "(nat \<Rightarrow> u8 list) \<Rightarrow> bool \<Rightarrow> lwm2m_data \<Rightarrow> bool" where
  "writes_item junk inst d \<longleftrightarrow>
     (\<forall>index buf. index + length (tlv inst d) \<le> length buf \<longrightarrow>
        serialize_item junk inst d (index, buf) = Inr (Some (index + length (tlv inst d), blit buf index (tlv inst d))))"

lemma serialize_loop_items:
  assumes "\<And>d. d \<in> set ds \<Longrightarrow> writes_item junk inst d" "index + length (tlvs inst ds) \<le> length buf"
  shows "serialize_loop junk inst len ds (index, buf) = Inr (len, blit buf index (tlvs inst ds))"
  using assms
proof (induction ds arbitrary: index buf)
  case Nil
  then show ?case by (simp add: blit_def)
next
  case (Cons d ds)
  then have "serialize_item junk inst d (index, buf) = Inr (Some (index + length (tlv inst d), blit buf index (tlv inst d)))"
    by (simp add: writes_item_def)
  then show ?case using Cons by (simp add: blit_blit)
qed

lemma blit_all [simp]: "length d = length buf \<Longrightarrow> blit buf 0 d = d"
  by (simp add: blit_def)

lemma tlv_nonempty: "sendable inst d \<Longrightarrow> 2 \<le> length (tlv inst d)"
proof (cases d)
  case (LwData ty i v)
  moreover assume "sendable inst d"
  ultimately have "sendable inst (LwData ty i v)" by simp
  then show ?thesis
    by (cases rule: sendable_cases) (auto simp: LwData tlv_leaf tlv_children tlv_of_nonempty)
qed

lemma tlvs_nonempty: "list_all (sendable inst) ds \<Longrightarrow> ds \<noteq> [] \<Longrightarrow> 0 < length (tlvs inst ds)"
  by (cases ds) (auto dest: tlv_nonempty)

lemma serialize_items:
  assumes "\<And>n. length (junk n) = n" "list_all (sendable inst) ds" "ds \<noteq> []" "\<And>d. d \<in> set ds \<Longrightarrow> writes_item junk inst d"
  shows "xiny_tlv_serialize junk inst ds = Inr (int (length (tlvs inst ds)), tlvs inst ds)"
  using tlvs_nonempty [OF assms(2,3)] serialize_loop_items [OF assms(4), of ds 0 "junk (length (tlvs inst ds))"] assms(1)
  by (simp add: xiny_tlv_serialize.simps prv_getLength_def length_loop_sendable [OF assms(2)])

lemma serialize_item_sendable:
  assumes "\<And>n. length (junk n) = n"
  shows "sendable inst d \<Longrightarrow> writes_item junk inst d"
proof (induction rule: sendable_induct)
  case (Item inst ty i v)
  from Item(1) show ?case
  proof (cases rule: sendable_cases)
    case leaf
    then show ?thesis
      using Item(1) by (cases v) (auto simp: writes_item_def tlv_leaf put_tlv_eq)
  next
    case (children ds)
    let ?inst = "inst \<or> ty = LWM2M_TYPE_MULTIPLE_RESOURCE"
    have "xiny_tlv_serialize junk ?inst ds = Inr (int (length (tlvs ?inst ds)), tlvs ?inst ds)"
      using serialize_items [OF assms children(4,3)] Item(2) children(1) by simp
    then show ?thesis using children by (auto simp: writes_item_def tlv_children put_tlv_eq)
  qed
qed

lemma serialize_sendable:
  assumes "\<And>n. length (junk n) = n" "list_all (sendable inst) ds" "ds \<noteq> []"
  shows "xiny_tlv_serialize junk inst ds = Inr (int (length (tlvs inst ds)), tlvs inst ds)"
  by (rule serialize_items [OF assms])
    (use assms(2) serialize_item_sendable [OF assms(1)] in \<open>auto simp: list_all_iff\<close>)

section \<open>Parsing\<close>

lemma decode_TLV_short: "length buffer < 2 \<Longrightarrow> xiny_lwm2m_decode_TLV buffer = None"
  by (simp add: xiny_lwm2m_decode_TLV_def)

definition reads_item :: "bool \<Rightarrow> lwm2m_data \<Rightarrow> bool" where
  "reads_item inst d \<longleftrightarrow>
     (\<forall>rest read. xiny_tlv_parse (tlv inst d @ rest) read = xiny_tlv_parse rest (read @ [as_read d]))"

lemma parse_items:
  "(\<And>d. d \<in> set ds \<Longrightarrow> reads_item inst d) \<Longrightarrow>
   xiny_tlv_parse (tlvs inst ds @ rest) read = xiny_tlv_parse rest (read @ map as_read ds)"
  by (induction ds arbitrary: read) (simp_all add: reads_item_def)

lemma parse_end: "xiny_tlv_parse [] read = read"
  by (simp add: xiny_tlv_parse.simps [of "[]"] decode_TLV_short)

lemma parse_items_end:
  "(\<And>d. d \<in> set ds \<Longrightarrow> reads_item inst d) \<Longrightarrow> xiny_tlv_parse (tlvs inst ds) [] = map as_read ds"
  using parse_items [of ds inst "[]" "[]"] by (simp add: parse_end)

lemma parse_tlv_of:
  assumes "ty \<noteq> LWM2M_TYPE_UNDEFINED" "ty \<noteq> LWM2M_TYPE_OBJECT" "length d < 2 ^ 24"
  shows "xiny_tlv_parse (tlv_of inst ty i d @ rest) read =
    (if seen_type inst ty = LWM2M_TYPE_OPAQUE
     then xiny_tlv_parse rest (read @ [LwData LWM2M_TYPE_OPAQUE i (AsBuffer d)])
     else case xiny_tlv_parse d [] of
            [] \<Rightarrow> []
          | children \<Rightarrow> xiny_tlv_parse rest (read @ [LwData (seen_type inst ty) i (AsChildren children)]))"
proof -
  have "take (length d) (drop (prv_getHeaderLength i (length d)) (tlv_of inst ty i d @ rest)) = d"
    and "drop (prv_getHeaderLength i (length d) + length d) (tlv_of inst ty i d @ rest) = rest"
    using drop_tlv_of [OF assms(3), of i inst ty rest] by (simp_all add: length_tlv_of [OF assms(3)])
  moreover have "seen_type inst ty = LWM2M_TYPE_OBJECT_INSTANCE \<or> seen_type inst ty = LWM2M_TYPE_MULTIPLE_RESOURCE
      \<longleftrightarrow> seen_type inst ty \<noteq> LWM2M_TYPE_OPAQUE"
    by (auto simp: seen_type_def)
  ultimately show ?thesis
    by (subst xiny_tlv_parse.simps) (simp add: decode_TLV_tlv_of [OF assms] Let_def del: drop_append split: list.split)
qed

lemma as_read_leaf: "(\<And>ds. v \<noteq> AsChildren ds) \<Longrightarrow> as_read (LwData ty i v) = LwData LWM2M_TYPE_OPAQUE i (AsBuffer (payload v))"
  by (cases v) auto

lemma reads_sendable: "sendable inst d \<Longrightarrow> reads_item inst d"
proof (induction rule: sendable_induct)
  case (Item inst ty i v)
  from Item(1) show ?case
  proof (cases rule: sendable_cases)
    case leaf
    then show ?thesis by (simp add: reads_item_def tlv_leaf as_read_leaf parse_tlv_of del: as_read.simps)
  next
    case (children ds)
    let ?inst = "inst \<or> ty = LWM2M_TYPE_MULTIPLE_RESOURCE"
    have "xiny_tlv_parse (tlvs ?inst ds) [] = map as_read ds"
      using parse_items_end [of ds ?inst] Item(2) children(1) by blast
    then show ?thesis
      using children by (auto simp: reads_item_def tlv_children parse_tlv_of seen_type_def split: list.splits)
  qed
qed

lemma parse_sendable: "list_all (sendable inst) ds \<Longrightarrow> xiny_tlv_parse (tlvs inst ds) [] = map as_read ds"
  by (rule parse_items_end) (auto simp: list_all_iff reads_sendable)

section \<open>Typed data\<close>

text \<open>Objects and undefined values cannot be written.\<close>

fun writable :: "lwm2m_data \<Rightarrow> bool" where
  "writable (LwData ty i v) \<longleftrightarrow>
     ty \<noteq> LWM2M_TYPE_UNDEFINED \<and> ty \<noteq> LWM2M_TYPE_OBJECT
     \<and> (case v of AsChildren ds \<Rightarrow> list_all writable ds | _ \<Rightarrow> True)"

lemma put_tlv_length:
  assumes "index + (prv_getHeaderLength i (length d) + length d) \<le> length buf"
  shows "\<exists>buf'. put_tlv inst ty i d (index, buf) =
    Inr (index + (prv_getHeaderLength i (length d) + length d), buf') \<and> length buf' = length buf"
proof -
  have "length (prv_createHeader (drop index buf) inst ty i (length d)) = prv_getHeaderLength i (length d)"
    by (rule length_prv_createHeader, rule disjI2) (use assms in simp)
  then show ?thesis using assms by (simp add: put_tlv_def put_at_def)
qed

text \<open>The length of an item, and that writing it fills as much.\<close>

definition item_ok :: "(nat \<Rightarrow> u8 list) \<Rightarrow> lwm2m_data \<Rightarrow> nat \<Rightarrow> bool" where
  "item_ok junk d n \<longleftrightarrow>
     item_length d = Inr (if writable d then int n else -1) \<and>
     (writable d \<longrightarrow> (\<forall>inst index buf. index + n \<le> length buf \<longrightarrow>
        (\<exists>buf'. serialize_item junk inst d (index, buf) = Inr (Some (index + n, buf')) \<and> length buf' = length buf)))"

definition list_ok :: "(nat \<Rightarrow> u8 list) \<Rightarrow> lwm2m_data list \<Rightarrow> nat \<Rightarrow> bool" where
  "list_ok junk ds n \<longleftrightarrow>
     (\<forall>len. length_loop len ds = Inr (if list_all writable ds then len + int n else -1)) \<and>
     (list_all writable ds \<longrightarrow> (\<forall>inst len index buf. index + n \<le> length buf \<longrightarrow>
        (\<exists>buf'. serialize_loop junk inst len ds (index, buf) = Inr (len, buf') \<and> length buf' = length buf)))"

lemma item_okD:
  assumes "item_ok junk d n"
  shows "item_length d = Inr (if writable d then int n else -1)"
    and "writable d \<Longrightarrow> index + n \<le> length buf \<Longrightarrow>
      \<exists>buf'. serialize_item junk inst d (index, buf) = Inr (Some (index + n, buf')) \<and> length buf' = length buf"
  using assms unfolding item_ok_def by blast+

lemma list_okD:
  assumes "list_ok junk ds n"
  shows "length_loop len ds = Inr (if list_all writable ds then len + int n else -1)"
    and "list_all writable ds \<Longrightarrow> index + n \<le> length buf \<Longrightarrow>
      \<exists>buf'. serialize_loop junk inst len ds (index, buf) = Inr (len, buf') \<and> length buf' = length buf"
  using assms unfolding list_ok_def by blast+

lemma list_ok_Cons:
  assumes "item_ok junk d m" "list_ok junk ds n"
  shows "list_ok junk (d # ds) (m + n)"
  unfolding list_ok_def
proof (intro conjI allI impI)
  fix len
  show "length_loop len (d # ds) = Inr (if list_all writable (d # ds) then len + int (m + n) else -1)"
    using item_okD(1) [OF assms(1)] list_okD(1) [OF assms(2)] by (simp add: add.assoc)
next
  fix inst len index buf
  assume "list_all writable (d # ds)" "index + (m + n) \<le> length (buf :: u8 list)"
  then have w: "writable d" "list_all writable ds" and room: "index + m \<le> length buf" "index + m + n \<le> length buf"
    by simp_all
  obtain buf1 where buf1: "serialize_item junk inst d (index, buf) = Inr (Some (index + m, buf1))" "length buf1 = length buf"
    using item_okD(2) [OF assms(1) w(1) room(1)] by blast
  then have "index + m + n \<le> length buf1" using room by simp
  then obtain buf2 where "serialize_loop junk inst len ds (index + m, buf1) = Inr (len, buf2)" "length buf2 = length buf1"
    using list_okD(2) [OF assms(2) w(2)] by blast
  then show "\<exists>buf'. serialize_loop junk inst len (d # ds) (index, buf) = Inr (len, buf') \<and> length buf' = length buf"
    using buf1 by simp
qed

lemma list_ok_items: "(\<And>d. d \<in> set ds \<Longrightarrow> \<exists>n. item_ok junk d n) \<Longrightarrow> \<exists>n. list_ok junk ds n"
proof (induction ds)
  case Nil
  show ?case by (rule exI [of _ 0]) (simp add: list_ok_def)
next
  case (Cons d ds)
  then show ?case by (meson list.set_intros list_ok_Cons)
qed

lemma serialize_ok:
  assumes "\<And>n. length (junk n) = n" "list_ok junk ds n"
  shows "\<exists>buf. xiny_tlv_serialize junk inst ds = Inr (if list_all writable ds then int n else -1, buf)
    \<and> (if list_all writable ds then length buf = n else buf = [])"
proof (cases "list_all writable ds \<and> n \<noteq> 0")
  case True
  then have "list_all writable ds" "0 + n \<le> length (junk n)" using assms(1) by simp_all
  then obtain buf where "serialize_loop junk inst (int n) ds (0, junk n) = Inr (int n, buf)" "length buf = n"
    using list_okD(2) [OF assms(2)] assms(1) by metis
  then show ?thesis
    using list_okD(1) [OF assms(2), of 0] True by (simp add: xiny_tlv_serialize.simps prv_getLength_def)
next
  case False
  then show ?thesis
    using list_okD(1) [OF assms(2), of 0] by (auto simp: xiny_tlv_serialize.simps prv_getLength_def)
qed

lemma item_okI:
  assumes "item_length (LwData ty i v) = Inr (int (prv_getHeaderLength i (length d) + length d))"
    and "\<And>out inst. serialize_item junk inst (LwData ty i v) out = bind_res (put_tlv (b inst) ty i d out) (\<lambda>out. Inr (Some out))"
    and "writable (LwData ty i v)"
  shows "item_ok junk (LwData ty i v) (prv_getHeaderLength i (length d) + length d)"
  unfolding item_ok_def assms(1,2)
proof (intro conjI impI allI)
  fix inst index buf
  assume "index + (prv_getHeaderLength i (length d) + length d) \<le> length (buf :: u8 list)"
  then show "\<exists>buf'. bind_res (put_tlv (b inst) ty i d (index, buf)) (\<lambda>out. Inr (Some out)) =
      Inr (Some (index + (prv_getHeaderLength i (length d) + length d), buf')) \<and> length buf' = length buf"
    by (auto dest: put_tlv_length [of _ _ _ _ "b inst" ty])
qed (use assms(3) in simp)

lemma item_ok_leaf:
  assumes "well_typed (LwData ty i v)" "\<And>ds. v \<noteq> AsChildren ds" "writable (LwData ty i v)"
  shows "item_ok junk (LwData ty i v) (prv_getHeaderLength i (length (payload v)) + length (payload v))"
  by (rule item_okI [where b = "\<lambda>inst. inst"])
    (use assms length_payload(2) in \<open>cases v; auto split: lwm2m_data_type.splits\<close>)+
lemma item_ok_unwritable_leaf:
  "\<not> writable (LwData ty i v) \<Longrightarrow> (\<And>ds. v \<noteq> AsChildren ds) \<Longrightarrow> item_ok junk (LwData ty i v) n"
  by (cases v) (auto simp: item_ok_def)

lemma item_ok_children:
  assumes "\<And>n. length (junk n) = n" "list_ok junk ds n"
    and "ty = LWM2M_TYPE_OBJECT_INSTANCE \<or> ty = LWM2M_TYPE_MULTIPLE_RESOURCE"
  shows "item_ok junk (LwData ty i (AsChildren ds)) (prv_getHeaderLength i n + n)"
proof (cases "list_all writable ds")
  case True
  have "item_length (LwData ty i (AsChildren ds)) = Inr (int (prv_getHeaderLength i n + n))"
    using assms(3) list_okD(1) [OF assms(2), of 0] True by auto
  moreover have "\<exists>buf'. serialize_item junk inst (LwData ty i (AsChildren ds)) (index, buf) =
      Inr (Some (index + (prv_getHeaderLength i n + n), buf')) \<and> length buf' = length buf"
    if room: "index + (prv_getHeaderLength i n + n) \<le> length (buf :: u8 list)" for inst index buf
  proof -
    obtain d where d: "xiny_tlv_serialize junk inst' ds = Inr (int n, d)" "length d = n"
      if "inst' = (inst \<or> ty = LWM2M_TYPE_MULTIPLE_RESOURCE)" for inst'
      using serialize_ok [OF assms(1,2), of "inst \<or> ty = LWM2M_TYPE_MULTIPLE_RESOURCE"] True by auto
    then show ?thesis
      using assms(3) put_tlv_length [of index i d buf False ty] room by auto
  qed
  ultimately show ?thesis using assms(3) True by (auto simp: item_ok_def)
next
  case False
  then show ?thesis
    using assms(3) list_okD(1) [OF assms(2), of 0] by (auto simp: item_ok_def)
qed

lemma item_ok_well_typed:
  assumes "\<And>n. length (junk n) = n"
  shows "well_typed d \<Longrightarrow> \<exists>n. item_ok junk d n"
proof (induction d rule: well_typed.induct)
  case (1 ty i v)
  show ?case
  proof (cases "\<exists>ds. v = AsChildren ds")
    case False
    then show ?thesis
      using item_ok_leaf [of ty i v junk] item_ok_unwritable_leaf [of ty i v junk] 1(2) by blast
  next
    case True
    then obtain ds where ds: "v = AsChildren ds" by blast
    consider "ty = LWM2M_TYPE_UNDEFINED \<or> ty = LWM2M_TYPE_OBJECT"
      | "ty = LWM2M_TYPE_OBJECT_INSTANCE \<or> ty = LWM2M_TYPE_MULTIPLE_RESOURCE" "list_all well_typed ds"
      using 1(2) ds by auto
    then show ?thesis
    proof cases
      case 1
      then show ?thesis by (auto simp: item_ok_def)
    next
      case 2
      have "\<exists>n. list_ok junk ds n"
        by (rule list_ok_items) (use 1(1) 2 ds in \<open>auto simp: list_all_iff\<close>)
      then show ?thesis using item_ok_children [OF assms _ 2(1)] ds by blast
    qed
  qed
qed

lemma list_ok_well_typed:
  "(\<And>n. length (junk n) = n) \<Longrightarrow> list_all well_typed ds \<Longrightarrow> \<exists>n. list_ok junk ds n"
  by (rule list_ok_items) (auto simp: list_all_iff item_ok_well_typed)

text \<open>What is parsed is typed and can be written.\<close>

lemma parse_typed:
  "list_all well_typed read \<Longrightarrow> list_all well_typed (xiny_tlv_parse buffer read)"
proof (induction buffer read rule: xiny_tlv_parse.induct)
  case (1 buffer read)
  then show ?case
    by (subst xiny_tlv_parse.simps) (auto simp: Let_def split: option.splits list.splits)
qed

section \<open>Integers\<close>

lemma scast_ucast_in_range:
  fixes x :: u64
  assumes "- (2 ^ (LENGTH('a::len) - 1)) \<le> sint x" "sint x < 2 ^ (LENGTH('a) - 1)" "LENGTH('a) \<le> 64"
  shows "scast (ucast x :: 'a word) = x"
proof -
  have "LENGTH('a) - 1 \<le> 63" using assms(3) by simp
  then have "sint (ucast x :: 'a word) = signed_take_bit (LENGTH('a) - 1) (signed_take_bit 63 (uint x))"
    by (simp add: signed_ucast_eq signed_take_bit_signed_take_bit min_absorb1)
  also have "signed_take_bit 63 (uint x) = sint x" by (simp add: sint_uint)
  also have "signed_take_bit (LENGTH('a) - 1) (sint x) = sint x" using assms by (intro signed_take_bit_int_eq_self)
  finally have "word_of_int (sint (ucast x :: 'a word)) = (word_of_int (sint x) :: u64)" by simp
  then show ?thesis by simp
qed

lemma length_le_bytes [simp]: "length (le_bytes n w) = n"
  by (simp add: le_bytes_def)

lemma le_bytes_Suc: "le_bytes (Suc n) w = ucast w # le_bytes n (drop_bit 8 w)"
  by (simp add: le_bytes_def upt_conv_Cons map_Suc_upt [symmetric] add.commute del: upt_Suc)

lemma of_le_bytes_le_bytes: "of_le_bytes (le_bytes n w) = take_bit (8 * n) w"
proof (induction n arbitrary: w)
  case 0
  show ?case by (simp add: of_le_bytes_def le_bytes_def)
next
  case (Suc n)
  have "of_le_bytes (le_bytes (Suc n) w) = push_bit 8 (take_bit (8 * n) (drop_bit 8 w)) OR ucast (ucast w :: u8)"
    using Suc by (simp add: of_le_bytes_def le_bytes_Suc)
  also have "\<dots> = take_bit (8 * Suc n) w"
    by (rule bit_word_eqI) (auto simp: bit_simps)
  finally show ?case .
qed

lemma ucast_and_0xFF: "ucast (w AND 0xFF) = (ucast w :: u8)"
  by (rule bit_word_eqI) (auto simp: and_0xFF bit_simps)

lemma le_bytes_2: "le_bytes 2 w = [ucast w, ucast (drop_bit 8 w)]"
  by (simp add: numeral_2_eq_2 le_bytes_Suc) (simp add: le_bytes_def)

lemma two_be_bytes: "of_le_bytes [ucast (v AND 0xFF), ucast (drop_bit 8 v AND 0xFF)] = (v :: u16)"
  using of_le_bytes_le_bytes [of 2 v] by (simp only: ucast_and_0xFF le_bytes_2) (simp add: take_bit_word_eq_self)

lemma decode_encoded_int:
  "xiny_lwm2m_data_decode_int (LwData LWM2M_TYPE_OPAQUE i (AsBuffer (prv_encodeInt x))) = Inr (Some x)"
proof -
  consider (a) "- 128 \<le> sint x" "sint x \<le> 127" | (b) "\<not> (- 128 \<le> sint x \<and> sint x \<le> 127)" "- 32768 \<le> sint x" "sint x \<le> 32767"
    | (c) "\<not> (- 128 \<le> sint x \<and> sint x \<le> 127)" "\<not> (- 32768 \<le> sint x \<and> sint x \<le> 32767)"
        "- 2147483648 \<le> sint x" "sint x \<le> 2147483647"
    | (d) "\<not> (- 128 \<le> sint x \<and> sint x \<le> 127)" "\<not> (- 32768 \<le> sint x \<and> sint x \<le> 32767)"
        "\<not> (- 2147483648 \<le> sint x \<and> sint x \<le> 2147483647)"
    by blast
  then show ?thesis
  proof cases
    case a
    then have "scast (ucast x :: u8) = x" by (intro scast_ucast_in_range) simp_all
    then show ?thesis using a by (simp add: xiny_lwm2m_data_decode_int_def prv_encodeInt_def)
  next
    case b
    then have "scast (ucast x :: u16) = x" by (intro scast_ucast_in_range) simp_all
    then show ?thesis using b two_be_bytes [of "ucast x"]
      by (simp only: xiny_lwm2m_data_decode_int_def prv_encodeInt_def Let_def xiny_utils_copyValue_def) simp
  next
    case c
    then have "scast (ucast x :: u32) = x" by (intro scast_ucast_in_range) simp_all
    then show ?thesis using c of_le_bytes_le_bytes [of 4 "ucast x :: u32"]
      by (auto simp: xiny_lwm2m_data_decode_int_def prv_encodeInt_def xiny_utils_copyValue_def Let_def take_bit_word_eq_self)
  next
    case d
    then show ?thesis using of_le_bytes_le_bytes [of 8 x]
      by (auto simp: xiny_lwm2m_data_decode_int_def prv_encodeInt_def xiny_utils_copyValue_def Let_def take_bit_word_eq_self)
  qed
qed

end
