(* ===== verification/UriSpec.thy ===== *)
theory UriSpec
  imports TlvSpec
begin

text \<open>
  What the paths of LwM2M mean: the identifiers of a path as decimal numbers, with slashes before them as a text
  and one by one as CoAP segments, are read back as the path.
\<close>

section \<open>Reading numbers\<close>

text \<open>The number loop keeps ten times the number it has read.\<close>

definition loop_value :: "int \<Rightarrow> u8 list \<Rightarrow> int" where
  "loop_value r xs = foldl (\<lambda>r c. (r + (int (unat c) - 48)) * 10) r xs"

lemma loop_value_simps [simp]:
  "loop_value r [] = r"
  "loop_value r (c # xs) = loop_value ((r + (int (unat c) - 48)) * 10) xs"
  "loop_value r (xs @ ys) = loop_value (loop_value r xs) ys"
  by (simp_all add: loop_value_def)

lemma is_digit_value: "is_digit c \<Longrightarrow> 48 \<le> uint c"
  by (simp add: is_digit_def word_le_def)

lemma loop_value_grows: "0 \<le> r \<Longrightarrow> list_all is_digit xs \<Longrightarrow> r \<le> loop_value r xs"
proof (induction xs arbitrary: r)
  case (Cons c xs)
  have "48 \<le> uint c" using is_digit_value [of c] Cons.prems by simp
  then show ?case using Cons.IH [of "(r + (int (unat c) - 48)) * 10"] Cons.prems by simp
qed simp

lemma digit_not_slash: "is_digit c \<Longrightarrow> c \<noteq> slash"
  by (auto simp: is_digit_def slash_def)

lemma drop_Cons_nth:
  assumes "drop head s = c # xs"
  shows "head < length s" "s ! head = c" "drop (Suc head) s = xs"
proof -
  show len: "head < length s" using assms by (metis drop_all linorder_not_le list.distinct(1))
  show "s ! head = c" using assms len by (metis hd_drop_conv_nth list.sel(1))
  show "drop (Suc head) s = xs" using assms by (metis drop_Suc drop_tl list.sel(3))
qed

lemma number_loop_digits:
  assumes "list_all is_digit xs" "drop head s = xs @ ys" "head + length xs \<le> L" "0 \<le> r" "loop_value r xs \<le> INT32_MAX"
  shows "number_loop s L r head = number_loop s L (loop_value r xs) (head + length xs)"
  using assms
proof (induction xs arbitrary: r head)
  case (Cons c xs)
  have at: "head < length s" "s ! head = c" "drop (Suc head) s = xs @ ys"
    using drop_Cons_nth [of head s c "xs @ ys"] Cons.prems(2) by simp_all
  have c: "is_digit c" "c \<noteq> slash" using Cons.prems(1) digit_not_slash by simp_all
  let ?r = "(r + (int (unat c) - 48)) * 10"
  have "0 \<le> ?r" using Cons.prems(4) is_digit_value [OF c(1)] by simp
  moreover have "?r \<le> INT32_MAX"
    using loop_value_grows [OF \<open>0 \<le> ?r\<close>, of xs] Cons.prems(1,5) by simp
  ultimately show ?case
    using Cons.IH [of "Suc head" ?r] Cons.prems(1,3,5) at c
    by (simp add: number_loop.simps [of s L r head] char_at_def)
qed simp

lemma is_digit_dec_digits: "list_all is_digit (dec_digits n)"
proof (induction n rule: dec_digits.induct)
  case (1 n)
  then show ?case by (cases "n < 10") (simp_all add: dec_digits_step [of n] digit_facts)
qed

lemma loop_value_dec_digits: "loop_value 0 (dec_digits n) = 10 * int n"
proof (induction n rule: dec_digits.induct)
  case (1 n)
  have "int n = 10 * int (n div 10) + int (n mod 10)" by presburger
  then show ?case using 1 by (cases "n < 10") (simp_all add: dec_digits_step [of n] digit_facts)
qed

text \<open>A number at the end of the text or before a slash.\<close>

definition number_ends :: "u8 list \<Rightarrow> nat \<Rightarrow> nat \<Rightarrow> bool" where
  "number_ends ys head L \<longleftrightarrow> head = L \<or> head < L \<and> (\<exists>zs. ys = slash # zs)"

lemma parse_number:
  assumes "drop head s = dec_digits n @ ys" "n \<le> 0xFFFF" "number_ends ys (head + length (dec_digits n)) L"
  shows "prv_parseNumber s L head = Inr (int n, head + length (dec_digits n))"
proof -
  obtain d ds where d: "dec_digits n = digit d # ds" "d < 10" using dec_digits_hd by blast
  then have at: "head < length s" "s ! head = digit d"
    using drop_Cons_nth [of head s "digit d" "ds @ ys"] assms(1) by simp_all
  have "number_loop s L 0 head = number_loop s L (10 * int n) (head + length (dec_digits n))"
    using number_loop_digits [OF is_digit_dec_digits assms(1), of L 0] assms(2,3)
    by (auto simp: loop_value_dec_digits INT32_MAX_def number_ends_def)
  also have "\<dots> = Inr (int n, head + length (dec_digits n))"
    using assms(3) unfolding number_ends_def
  proof
    assume "head + length (dec_digits n) < L \<and> (\<exists>zs. ys = slash # zs)"
    moreover have "drop (head + length (dec_digits n)) s = ys" using assms(1) by (metis add.commute append_eq_conv_conj drop_drop)
    ultimately show ?thesis
      using drop_Cons_nth [of "head + length (dec_digits n)" s slash] by (auto simp: number_loop.simps [of s L "10 * int n"] char_at_def)
  qed (simp add: number_loop.simps [of s L "10 * int n"])
  finally show ?thesis
    using at d(2) digit_facts(3) [OF d(2)] by (simp add: prv_parseNumber_def char_at_def)
qed

lemma get_number: "n \<le> 0xFFFF \<Longrightarrow> xiny_uri_getNumber_lwm2m (dec_digits n) = Inr (int n)"
  using parse_number [of 0 "dec_digits n" n "[]"] by (simp add: xiny_uri_getNumber_lwm2m_def number_ends_def)

section \<open>Paths\<close>

text \<open>The identifiers of a path; the members that the flags do not name are 0, and 65535 is not an identifier.\<close>

definition uri_ids :: "lwm2m_uri \<Rightarrow> u16 list" where
  "uri_ids u =
     objectId u # (if \<not> LWM2M_URI_IS_SET_INSTANCE u then []
                   else instanceId u # (if LWM2M_URI_IS_SET_RESOURCE u then [resourceId u] else []))"

definition proper_uri :: "lwm2m_uri \<Rightarrow> bool" where
  "proper_uri u \<longleftrightarrow>
     (uri_flag u = 4 \<and> instanceId u = 0 \<and> resourceId u = 0
      \<or> uri_flag u = 6 \<and> resourceId u = 0 \<or> uri_flag u = 7)
     \<and> instanceId u < 0xFFFF \<and> resourceId u < 0xFFFF"

definition id_text :: "u16 \<Rightarrow> u8 list" where
  "id_text i = slash # dec_digits (unat i)"

definition uri_text :: "lwm2m_uri \<Rightarrow> u8 list" where
  "uri_text u = concat (map id_text (uri_ids u))"

lemma proper_uri_cases [consumes 1, case_names object instance_ resource_]:
  assumes "proper_uri u"
  obtains a where "u = \<lparr>uri_flag = 4, objectId = a, instanceId = 0, resourceId = 0\<rparr>"
    | a b where "u = \<lparr>uri_flag = 6, objectId = a, instanceId = b, resourceId = 0\<rparr>" "b < 0xFFFF"
    | a b c where "u = \<lparr>uri_flag = 7, objectId = a, instanceId = b, resourceId = c\<rparr>" "b < 0xFFFF" "c < 0xFFFF"
  using assms by (cases u) (auto simp: proper_uri_def)

lemma flags [simp]:
  "LWM2M_URI_IS_SET_INSTANCE \<lparr>uri_flag = f, objectId = a, instanceId = b, resourceId = c\<rparr> \<longleftrightarrow> f AND 2 \<noteq> 0"
  "LWM2M_URI_IS_SET_RESOURCE \<lparr>uri_flag = f, objectId = a, instanceId = b, resourceId = c\<rparr> \<longleftrightarrow> f AND 1 \<noteq> 0"
  by (simp_all add: LWM2M_URI_IS_SET_INSTANCE_def LWM2M_URI_IS_SET_RESOURCE_def uri_flag_defs)

lemma uri_set_simp [simp]:
  "uri_set g \<lparr>uri_flag = f, objectId = a, instanceId = b, resourceId = c\<rparr> =
   \<lparr>uri_flag = f OR g, objectId = a, instanceId = b, resourceId = c\<rparr>"
  by (simp add: uri_set_def)

lemma id_le: "unat (i :: u16) \<le> 0xFFFF"
  using unat_u16_less [of i] by simp

lemma id_small: "i < 0xFFFF \<Longrightarrow> unat (i :: u16) < 0xFFFF"
  by (simp add: word_less_nat_alt)

lemma uint_id_le: "uint (i :: u16) \<le> 65535" "i < 0xFFFF \<Longrightarrow> uint i \<le> 65534"
proof -
  have u: "uint i = int (unat i)" by simp
  show "uint i \<le> 65535" unfolding u using id_le [of i] by linarith
  show "i < 0xFFFF \<Longrightarrow> uint i \<le> 65534" unfolding u using id_small [of i] by linarith
qed

lemma id_back: "(of_nat (unat i) :: u16) = i" "word_of_int (int (unat i)) = i"
  by simp_all

lemma length_id_digits: "length (dec_digits (unat (i :: u16))) \<le> 5"
  using length_dec_digits_le [of "unat i" 5] unat_u16_less [of i] by simp

section \<open>Segments\<close>

lemma segment_digits: "segment_is ''rd'' (dec_digits n # path) = False" "segment_is ''bs'' (dec_digits n # path) = False"
proof -
  obtain d ds where "dec_digits n = digit d # ds" "d < 10" using dec_digits_hd by blast
  then show "segment_is ''rd'' (dec_digits n # path) = False" "segment_is ''bs'' (dec_digits n # path) = False"
    using digit_facts(1) [of d] by (auto simp: segment_is_def is_digit_def)
qed

lemma dec_digits_not_Nil [simp]: "dec_digits n \<noteq> []"
  using length_dec_digits_pos [of n] by auto

definition uri_segments :: "lwm2m_uri \<Rightarrow> u8 list list" where
  "uri_segments u = map (\<lambda>i. dec_digits (unat i)) (uri_ids u)"

lemma get_id: "xiny_uri_getNumber_lwm2m (dec_digits (unat (i :: u16))) = Inr (int (unat i))"
  by (rule get_number [OF id_le])

lemma decode_segments:
  assumes "proper_uri u"
  shows "xiny_uri_decode_lwm2m None (uri_segments u) = Inr (Some u)"
  using assms
proof (cases rule: proper_uri_cases)
  case (object a)
  then show ?thesis
    using id_le [of a]
    by (simp add: uri_segments_def uri_ids_def xiny_uri_decode_lwm2m_def segment_digits decode_dm_def decode_object_def get_id
        decode_instance_def uri_zero_def uri_flag_defs LWM2M_MAX_ID_def id_back del: of_nat_unat)
next
  case (instance_ a b)
  then show ?thesis
    using id_le [of a] id_small [OF instance_(2)]
    by (simp add: uri_segments_def uri_ids_def xiny_uri_decode_lwm2m_def segment_digits decode_dm_def decode_object_def get_id
        decode_instance_def decode_resource_def uri_zero_def uri_flag_defs LWM2M_MAX_ID_def id_back del: of_nat_unat)
next
  case (resource_ a b c)
  then show ?thesis
    using id_le [of a] id_le [of c] id_small [OF resource_(2)]
    by (simp add: uri_segments_def uri_ids_def xiny_uri_decode_lwm2m_def segment_digits decode_dm_def decode_object_def get_id
        decode_instance_def decode_resource_def uri_zero_def uri_flag_defs LWM2M_MAX_ID_def id_back del: of_nat_unat)
qed

section \<open>Text\<close>

lemma put_id_text:
  assumes "length t + 6 < L"
  shows "put_id i L t = Inr (Some (t @ dec_digits (unat i)))"
proof -
  have n: "unat (ucast i :: u64) = unat i" by (simp add: unsigned_ucast_eq take_bit_nat_eq_self unat_u16_less less_trans [OF unat_u16_less])
  have "xiny_utils_intToText (ucast i) (L - length t) = Inr (dec_digits (unat i))"
    using int_to_text [of "ucast i" "L - length t"] assms length_id_digits [of i] unat_u16_less [of i] by (simp only: n) simp
  then show ?thesis using assms length_id_digits [of i] by (simp add: put_id_def)
qed

lemma uri_to_string:
  assumes "proper_uri u" "20 \<le> L"
  shows "\<exists>depth. xiny_uri_toString_lwm2m (Some u) L = Inr (Some (uri_text u @ [slash], depth))"
  using assms(1)
proof (cases rule: proper_uri_cases)
  case (object a)
  then show ?thesis
    using assms(2) by (simp add: xiny_uri_toString_lwm2m_def put_id_text uri_text_def uri_ids_def id_text_def)
next
  case (instance_ a b)
  then show ?thesis
    using assms(2) length_id_digits [of a]
    by (simp add: xiny_uri_toString_lwm2m_def put_id_text uri_text_def uri_ids_def id_text_def)
next
  case (resource_ a b c)
  then show ?thesis
    using assms(2) length_id_digits [of a] length_id_digits [of b]
    by (simp add: xiny_uri_toString_lwm2m_def put_id_text uri_text_def uri_ids_def id_text_def)
qed

lemma text_id_digits:
  assumes "drop head s = dec_digits (unat i) @ ys" "number_ends ys (head + length (dec_digits (unat i))) L" "int (unat i) \<le> limit"
  shows "text_id limit s L head = Inr (Some (i, head + length (dec_digits (unat i))))"
  using parse_number [OF assms(1) id_le assms(2)] assms(3) by (simp add: text_id_def id_back del: of_nat_unat)

lemma skip_slash_at:
  "drop head s = c # ys \<Longrightarrow> skip_slash s head = Inr (if c = slash then head + 1 else head)"
  using drop_Cons_nth [of head s c ys] by (simp add: skip_slash_def char_at_def)

lemma slash_is_no_space: "\<not> is_space slash"
  by (simp add: is_space_def slash_def)

text \<open>A path that ends with the text, and one with a slash behind it.\<close>

lemma string_to_uri:
  assumes "proper_uri u" "L = length (uri_text u) + (if c = slash then 1 else 0)"
  shows "xiny_lwm2m_stringToUri (uri_text u @ [c]) L =
    Inr (if c = slash \<and> LWM2M_URI_IS_SET_RESOURCE u then None else Some (L, u))"
  using assms(1)
proof (cases rule: proper_uri_cases)
  case (object a)
  let ?s = "slash # dec_digits (unat a) @ [c]"
  have "text_id LWM2M_MAX_ID ?s L 1 = Inr (Some (a, 1 + length (dec_digits (unat a))))"
    using object assms(2) uint_id_le(1) [of a]
    by (intro text_id_digits [where ys = "[c]"]) (simp_all add: number_ends_def LWM2M_MAX_ID_def uri_text_def uri_ids_def id_text_def)
  then show ?thesis
    using object assms(2) skip_slash_at [of "1 + length (dec_digits (unat a))" ?s c "[]"]
    by (simp add: xiny_lwm2m_stringToUri_def uri_text_def uri_ids_def id_text_def slash_is_no_space char_at_def
        uri_zero_def uri_flag_defs)
next
  case (instance_ a b)
  let ?s = "slash # dec_digits (unat a) @ slash # dec_digits (unat b) @ [c]"
  let ?p = "2 + length (dec_digits (unat a))"
  have "text_id LWM2M_MAX_ID ?s L 1 = Inr (Some (a, 1 + length (dec_digits (unat a))))"
    using instance_ assms(2) uint_id_le(1) [of a]
    by (intro text_id_digits [where ys = "slash # dec_digits (unat b) @ [c]"])
      (simp_all add: number_ends_def LWM2M_MAX_ID_def uri_text_def uri_ids_def id_text_def)
  moreover have "text_id (LWM2M_MAX_ID - 1) ?s L ?p = Inr (Some (b, ?p + length (dec_digits (unat b))))"
    using instance_ assms(2) uint_id_le(2) [OF instance_(2)]
    by (intro text_id_digits [where ys = "[c]"]) (simp_all add: number_ends_def LWM2M_MAX_ID_def uri_text_def uri_ids_def id_text_def)
  ultimately show ?thesis
    using instance_ assms(2) skip_slash_at [of "1 + length (dec_digits (unat a))" ?s slash]
      skip_slash_at [of "?p + length (dec_digits (unat b))" ?s c "[]"]
    by (simp add: xiny_lwm2m_stringToUri_def uri_text_def uri_ids_def id_text_def slash_is_no_space char_at_def
        uri_zero_def uri_flag_defs)
next
  case (resource_ a b d)
  let ?s = "slash # dec_digits (unat a) @ slash # dec_digits (unat b) @ slash # dec_digits (unat d) @ [c]"
  let ?p = "2 + length (dec_digits (unat a))"
  let ?q = "Suc (Suc (Suc (length (dec_digits (unat a)) + length (dec_digits (unat b)))))"
  have "text_id LWM2M_MAX_ID ?s L 1 = Inr (Some (a, 1 + length (dec_digits (unat a))))"
    using resource_ assms(2) uint_id_le(1) [of a]
    by (intro text_id_digits [where ys = "slash # dec_digits (unat b) @ slash # dec_digits (unat d) @ [c]"])
      (simp_all add: number_ends_def LWM2M_MAX_ID_def uri_text_def uri_ids_def id_text_def)
  moreover have "text_id (LWM2M_MAX_ID - 1) ?s L ?p = Inr (Some (b, ?p + length (dec_digits (unat b))))"
    using resource_ assms(2) uint_id_le(2) [OF resource_(2)]
    by (intro text_id_digits [where ys = "slash # dec_digits (unat d) @ [c]"])
      (simp_all add: number_ends_def LWM2M_MAX_ID_def uri_text_def uri_ids_def id_text_def)
  moreover have "text_id (LWM2M_MAX_ID - 1) ?s L ?q = Inr (Some (d, ?q + length (dec_digits (unat d))))"
    using resource_ assms(2) uint_id_le(2) [OF resource_(3)]
    by (intro text_id_digits [where ys = "[c]"]) (simp_all add: number_ends_def LWM2M_MAX_ID_def uri_text_def uri_ids_def id_text_def)
  ultimately show ?thesis
    using resource_ assms(2) skip_slash_at [of "1 + length (dec_digits (unat a))" ?s slash]
      skip_slash_at [of "?p + length (dec_digits (unat b))" ?s slash]
    by (simp add: xiny_lwm2m_stringToUri_def uri_text_def uri_ids_def id_text_def slash_is_no_space char_at_def
        uri_zero_def uri_flag_defs)
qed

end
