(* ===== verification/CoapSpec.thy ===== *)
theory CoapSpec
  imports ErCoap
begin

text \<open>
  What the CoAP writer writes, as a list of numbered options, and how the parser reads it.
\<close>

section \<open>Option headers\<close>

lemma nibble_facts: "coap_option_nibble x = of_nat (if x < 13 then x else if x \<le> 268 then 13 else 14)"
  by (simp add: coap_option_nibble_def)

lemma unat_nibble: "unat (coap_option_nibble x) = (if x < 13 then x else if x \<le> 268 then 13 else 14)"
  by (simp add: nibble_facts unat_of_nat take_bit_eq_mod)

lemma nibbles:
  assumes "a \<in> {0..15}" "b \<in> {0..15}"
  shows "drop_bit 4 (push_bit 4 (of_nat a) OR of_nat b :: u8) = of_nat a" "(push_bit 4 (of_nat a) OR of_nat b :: u8) AND 0x0F = of_nat b"
proof -
  have "\<forall>a \<in> set [0..<16]. \<forall>b \<in> set [0..<16]. drop_bit 4 (push_bit 4 (of_nat a) OR of_nat b :: u8) = of_nat a
    \<and> (push_bit 4 (of_nat a) OR of_nat b :: u8) AND 0x0F = of_nat b"
    by code_simp
  moreover have "a \<in> set [0..<16]" "b \<in> set [0..<16]" using assms by auto
  ultimately show "drop_bit 4 (push_bit 4 (of_nat a) OR of_nat b :: u8) = of_nat a"
    "(push_bit 4 (of_nat a) OR of_nat b :: u8) AND 0x0F = of_nat b" by blast+
qed

lemma header_nibbles:
  "unat (drop_bit 4 (push_bit 4 (coap_option_nibble d) OR coap_option_nibble l)) = unat (coap_option_nibble d)"
  "unat ((push_bit 4 (coap_option_nibble d) OR coap_option_nibble l) AND 0x0F) = unat (coap_option_nibble l)"
  unfolding nibble_facts by (rule arg_cong [of _ _ unat], rule nibbles; simp)+

lemma option_value_extension:
  assumes "x < 65805"
  shows "option_value (unat (coap_option_nibble x)) (option_extension x @ rest) = Inr (x, length (option_extension x))"
proof -
  have "unat (of_nat ((x - 269) div 256) :: u8) = (x - 269) div 256" "unat (of_nat (x - 269) :: u8) = (x - 269) mod 256"
    using assms by (simp_all add: unat_of_nat take_bit_eq_mod del: of_nat_diff)
  moreover have "unat (of_nat (x - 13) :: u8) = x - 13" if "x \<le> 268"
    using that by (simp add: unat_of_nat take_bit_eq_mod del: of_nat_diff)
  moreover have "269 + 256 * ((x - 269) div 256) + (x - 269) mod 256 = x" if "268 < x"
    using that mult_div_mod_eq [of 256 "x - 269"] by linarith
  ultimately show ?thesis
    by (auto simp: option_value_def unat_nibble option_extension_def char_at_def simp del: of_nat_diff)
qed

lemma parse_option_header_set:
  assumes "delta < 65805" "len < 65805"
  shows "parse_option_header (coap_set_option_header delta len @ rest) =
    Inr (delta, len, length (coap_set_option_header delta len))"
  using option_value_extension [OF assms(1), of "option_extension len @ rest"] option_value_extension [OF assms(2), of rest]
  by (simp add: parse_option_header_def coap_set_option_header_def char_at_def header_nibbles del: drop_bit_or)

lemma header_is_no_payload: "coap_set_option_header delta len ! 0 AND 0xF0 \<noteq> 0xF0" "coap_set_option_header delta len \<noteq> []"
proof -
  let ?b = "coap_set_option_header delta len ! 0"
  have "drop_bit 4 ?b = coap_option_nibble delta"
    by (simp only: coap_set_option_header_def nibble_facts append.simps nth_Cons_0) (rule nibbles; simp)
  moreover have "coap_option_nibble delta \<noteq> 0xF"
    by (simp add: word_unat_eq_iff unat_nibble)
  moreover have "drop_bit 4 ?b = 0xF" if "?b AND 0xF0 = 0xF0"
  proof -
    have "drop_bit 4 (?b AND 0xF0) = drop_bit 4 ?b"
    proof -
      have "drop_bit 4 (?b AND 0xF0) = drop_bit 4 ?b AND drop_bit 4 0xF0" by (simp only: drop_bit_and)
      also have "drop_bit 4 (0xF0 :: u8) = mask 4" by (simp add: mask_eq_decr_exp)
      also have "drop_bit 4 ?b AND mask 4 = drop_bit 4 ?b"
        by (rule bit_word_eqI) (auto simp: bit_simps dest: bit_imp_le_length)
      finally show ?thesis .
    qed
    then show ?thesis using that by simp
  qed
  ultimately show "?b AND 0xF0 \<noteq> 0xF0" by auto
  show "coap_set_option_header delta len \<noteq> []" by (simp add: coap_set_option_header_def)
qed

lemma length_option_header:
  "delta \<le> 268 \<Longrightarrow> length (coap_set_option_header delta len) \<le> 4"
  "delta \<le> 268 \<Longrightarrow> len \<le> 12 \<Longrightarrow> length (coap_set_option_header delta len) = (if delta \<le> 12 then 1 else 2)"
  by (simp_all add: coap_set_option_header_def option_extension_def)

section \<open>Integers\<close>

lemma u32_bytes_bits:
  "n < 8 \<Longrightarrow> bit (ucast (drop_bit k v) :: u8) n = bit (v :: u32) (k + n)" "\<not> n < 8 \<Longrightarrow> \<not> bit (b :: u8) n"
  by (auto simp: bit_simps dest: bit_imp_le_length)

lemma join_u32:
  "push_bit 8 (push_bit 8 (push_bit 8 (ucast (ucast (drop_bit 24 v) :: u8)) OR ucast (ucast (drop_bit 16 v) :: u8))
     OR ucast (ucast (drop_bit 8 v) :: u8)) OR ucast (ucast v :: u8) = (v :: u32)" (is "?l = v")
proof (rule bit_word_eqI)
  fix n assume n: "n < LENGTH(32)"
  consider "n < 8" | "8 \<le> n" "n < 16" | "16 \<le> n" "n < 24" | "24 \<le> n" by linarith
  then show "bit ?l n = bit v n"
    using n by cases (auto simp: bit_simps less_diff_conv2)
qed

lemma top_bits_zero:
  assumes "k < 32"
  shows "v AND push_bit k (mask (32 - k)) = 0 \<longleftrightarrow> drop_bit k (v :: u32) = 0"
proof -
  have "v AND push_bit k (mask (32 - k)) = push_bit k (drop_bit k v)"
    by (rule bit_word_eqI) (use assms in \<open>auto simp: bit_simps\<close>)
  moreover have "drop_bit k (push_bit k (drop_bit k v)) = drop_bit k v"
    by (rule bit_word_eqI) (use assms in \<open>auto simp: bit_simps dest: bit_imp_le_length\<close>)
  then have "push_bit k (drop_bit k v) = 0 \<longleftrightarrow> drop_bit k v = 0"
    by (metis drop_bit_of_0 push_bit_of_0)
  ultimately show ?thesis by simp
qed

lemma no_top_bits:
  "v AND 0xFF000000 = 0 \<longleftrightarrow> drop_bit 24 (v :: u32) = 0" "v AND 0xFFFF0000 = 0 \<longleftrightarrow> drop_bit 16 v = 0"
  "v AND 0xFFFFFF00 = 0 \<longleftrightarrow> drop_bit 8 v = 0"
proof -
  have m: "(0xFF000000 :: u32) = push_bit 24 (mask (32 - 24))" "(0xFFFF0000 :: u32) = push_bit 16 (mask (32 - 16))"
    "(0xFFFFFF00 :: u32) = push_bit 8 (mask (32 - 8))"
    by (simp_all add: mask_eq_decr_exp)
  show "v AND 0xFF000000 = 0 \<longleftrightarrow> drop_bit 24 (v :: u32) = 0" unfolding m by (rule top_bits_zero) simp
  show "v AND 0xFFFF0000 = 0 \<longleftrightarrow> drop_bit 16 v = 0" unfolding m by (rule top_bits_zero) simp
  show "v AND 0xFFFFFF00 = 0 \<longleftrightarrow> drop_bit 8 v = 0" unfolding m by (rule top_bits_zero) simp
qed

lemma drop_more_zero: "drop_bit k (v :: u32) = 0 \<Longrightarrow> k \<le> m \<Longrightarrow> drop_bit m v = 0"
  by (metis drop_bit_drop_bit drop_bit_of_0 le_add_diff_inverse2)

lemma parse_int_bytes: "coap_parse_int_option (int_bytes v) = v"
proof -
  note join = join_u32 [of v]
  consider "drop_bit 24 v \<noteq> 0" | "drop_bit 24 v = 0" "drop_bit 16 v \<noteq> 0" | "drop_bit 16 v = 0" "drop_bit 8 v \<noteq> 0"
    | "drop_bit 8 v = 0" "v \<noteq> 0" | "v = 0"
    by blast
  then show ?thesis
    by cases (use join drop_more_zero [of 8 v 16] drop_more_zero [of 16 v 24] drop_more_zero [of 8 v 24] in
      \<open>auto simp: coap_parse_int_option_def int_bytes_def no_top_bits\<close>)
qed

lemma length_int_bytes: "length (int_bytes v) \<le> 4" "drop_bit 24 v = 0 \<Longrightarrow> length (int_bytes v) \<le> 3"
  "drop_bit 16 v = 0 \<Longrightarrow> length (int_bytes v) \<le> 2"
  using drop_more_zero [of 16 v 24] by (auto simp: int_bytes_def no_top_bits)

section \<open>Lists of options\<close>

text \<open>Numbered options, each with the difference to the one before.\<close>

fun encode_options :: "nat \<Rightarrow> (nat \<times> u8 list) list \<Rightarrow> u8 list" where
  "encode_options current [] = []"
| "encode_options current ((k, v) # xs) = coap_set_option_header (k - current) (length v) @ v @ encode_options k xs"

fun last_number :: "nat \<Rightarrow> (nat \<times> u8 list) list \<Rightarrow> nat" where
  "last_number current [] = current"
| "last_number current ((k, v) # xs) = last_number k xs"

lemma encode_options_append:
  "encode_options current (xs @ ys) = encode_options current xs @ encode_options (last_number current xs) ys"
  "last_number current (xs @ ys) = last_number (last_number current xs) ys"
  by (induction current xs rule: encode_options.induct) auto

lemma encode_same: "encode_options current (map (Pair k) vs) = xiny_coap_serialize_multi_option k current vs"
  by (induction vs arbitrary: current) simp_all

lemma last_same: "last_number current (map (Pair k) vs) = (if vs = [] then current else k)"
proof (induction vs arbitrary: current)
  case (Cons v vs)
  then show ?case by (cases vs) simp_all
qed simp

text \<open>The options that the parser knows and accepts, and what it does with one.\<close>

definition known_option :: "nat \<Rightarrow> bool" where
  "known_option k \<longleftrightarrow> k \<in> {COAP_OPTION_IF_MATCH, COAP_OPTION_URI_HOST, COAP_OPTION_ETAG, COAP_OPTION_IF_NONE_MATCH,
     COAP_OPTION_OBSERVE, COAP_OPTION_URI_PORT, COAP_OPTION_LOCATION_PATH, COAP_OPTION_URI_PATH, COAP_OPTION_CONTENT_TYPE,
     COAP_OPTION_MAX_AGE, COAP_OPTION_URI_QUERY, COAP_OPTION_ACCEPT, COAP_OPTION_LOCATION_QUERY, COAP_OPTION_BLOCK2,
     COAP_OPTION_BLOCK1, COAP_OPTION_SIZE}"

definition read_option :: "nat \<times> u8 list \<Rightarrow> coap_packet \<Rightarrow> coap_packet" where
  "read_option = (\<lambda>(k, v) p. snd (snd (store_option k v (set_option k p))))"

lemma known_option_stored:
  assumes "known_option k"
  shows "xiny_SET_OPTION p k = Inr (set_option k p)"
    "store_option k v (set_option k p) = (COAP_NO_ERROR, None, read_option (k, v) p)"
proof -
  have k: "k \<in> {1, 3, 4, 5, 6, 7, 8, 11, 12, 14, 15, 17, 20, 23, 27, 28}"
    using assms by (simp add: known_option_def coap_option_defs)
  then have "k < 40" by auto
  then show "xiny_SET_OPTION p k = Inr (set_option k p)" by (simp add: xiny_SET_OPTION_def)
  have "fst (store_option k v q) = COAP_NO_ERROR \<and> fst (snd (store_option k v q)) = None" for q
    using k by (elim insertE emptyE) (simp_all add: store_option_def coap_option_defs Let_def)
  then show "store_option k v (set_option k p) = (COAP_NO_ERROR, None, read_option (k, v) p)"
    by (simp add: read_option_def prod_eq_iff)
qed

text \<open>In the order of the numbers, each known and short.\<close>

fun options_ok :: "nat \<Rightarrow> (nat \<times> u8 list) list \<Rightarrow> bool" where
  "options_ok current [] \<longleftrightarrow> True"
| "options_ok current ((k, v) # xs) \<longleftrightarrow> current \<le> k \<and> known_option k \<and> length v < 65805 \<and> options_ok k xs"

lemma options_ok_append: "options_ok current (xs @ ys) \<longleftrightarrow> options_ok current xs \<and> options_ok (last_number current xs) ys"
  by (induction current xs rule: options_ok.induct) auto

lemma parse_encoded:
  assumes "options_ok current xs"
  shows "parse_options current (encode_options current xs @ rest) (length (encode_options current xs) + m) p =
    parse_options (last_number current xs) rest m (fold read_option xs p)"
  using assms
proof (induction current xs arbitrary: p rule: encode_options.induct)
  case (2 current k v xs)
  let ?h = "coap_set_option_header (k - current) (length v)"
  have ok: "current \<le> k" "known_option k" "length v < 65805" "options_ok k xs" using 2(2) by simp_all
  then have "k < 65805" by (auto simp: known_option_def coap_option_defs)
  then have h: "parse_option_header (?h @ v @ encode_options k xs @ rest) = Inr (k - current, length v, length ?h)"
    using ok by (intro parse_option_header_set) simp_all
  have "char_at (?h @ v @ encode_options k xs @ rest) 0 = Inr (?h ! 0)"
    using header_is_no_payload(2) [of "k - current" "length v"] by (simp add: char_at_def nth_append)
  then show ?case
    using h ok 2(1) [OF ok(4), of "read_option (k, v) p"] header_is_no_payload [of "k - current" "length v"]
    by (subst parse_options.simps) (simp add: known_option_stored)
qed simp

lemma parse_payload:
  "parse_options current (if b \<noteq> [] then 0xFF # b else []) (if b \<noteq> [] then Suc (length b) else 0) p =
    Inr (COAP_NO_ERROR, None, if b \<noteq> [] then p\<lparr>coap_payload := b\<rparr> else p)"
  by (subst parse_options.simps) (simp add: char_at_def)

section \<open>What is written\<close>

definition group :: "coap_packet \<Rightarrow> nat \<Rightarrow> u8 list list \<Rightarrow> (nat \<times> u8 list) list" where
  "group p k vs = (if xiny_IS_OPTION p k then map (Pair k) vs else [])"

definition options_of :: "coap_packet \<Rightarrow> (nat \<times> u8 list) list" where
  "options_of p = concat
     [group p COAP_OPTION_IF_MATCH [if_match p], group p COAP_OPTION_URI_HOST [uri_host p], group p COAP_OPTION_ETAG [etag p],
      group p COAP_OPTION_IF_NONE_MATCH [[]], group p COAP_OPTION_OBSERVE [int_bytes (coap_observe p)],
      group p COAP_OPTION_URI_PORT [int_bytes (ucast (uri_port p))],
      group p COAP_OPTION_LOCATION_PATH (location_path p), group p COAP_OPTION_URI_PATH (coap_uri_path p),
      group p COAP_OPTION_CONTENT_TYPE [int_bytes (ucast (content_type p))], group p COAP_OPTION_MAX_AGE [int_bytes (max_age p)],
      group p COAP_OPTION_URI_QUERY (uri_query p), group p COAP_OPTION_ACCEPT (map (\<lambda>a. int_bytes (ucast a)) (coap_accept p)),
      group p COAP_OPTION_LOCATION_QUERY (split_parts 0x26 (location_query p) 0 0),
      group p COAP_OPTION_BLOCK2 [int_bytes (block_value (block2_num p) (block2_more p) (block2_size p))],
      group p COAP_OPTION_BLOCK1 [int_bytes (block_value (block1_num p) (block1_more p) (block1_size p))],
      group p COAP_OPTION_SIZE [int_bytes (coap_size p)], group p COAP_OPTION_PROXY_URI [proxiny_uri p]]"

text \<open>A list that is set has elements.\<close>

definition lists_filled :: "coap_packet \<Rightarrow> bool" where
  "lists_filled p \<longleftrightarrow>
     (xiny_IS_OPTION p COAP_OPTION_LOCATION_PATH \<longrightarrow> location_path p \<noteq> [])
     \<and> (xiny_IS_OPTION p COAP_OPTION_URI_PATH \<longrightarrow> coap_uri_path p \<noteq> [])
     \<and> (xiny_IS_OPTION p COAP_OPTION_URI_QUERY \<longrightarrow> uri_query p \<noteq> [])"

definition emit :: "(nat \<times> u8 list) list \<Rightarrow> nat \<times> u8 list \<Rightarrow> nat \<times> u8 list" where
  "emit xs = (\<lambda>(current, out). (last_number current xs, out @ encode_options current xs))"

lemma emit_emit: "emit ys (emit xs s) = emit (xs @ ys) s"
  by (simp add: emit_def encode_options_append split: prod.splits)

lemma emit_Nil: "emit [] s = s"
  by (simp add: emit_def split: prod.splits)

lemma put_int_emit: "put_int_option k v p = emit (group p k [int_bytes v])"
  by (auto simp: put_int_option_def emit_def group_def xiny_coap_serialize_int_option_def fun_eq_iff)

lemma put_array_emit: "put_array_option k a 0 p = emit (group p k [a])"
  by (auto simp: put_array_option_def emit_def group_def xiny_coap_serialize_array_option_def fun_eq_iff)

lemma put_multi_emit: "(xiny_IS_OPTION p k \<longrightarrow> xs \<noteq> []) \<Longrightarrow> put_multi_option k xs p = emit (group p k xs)"
  by (auto simp: put_multi_option_def emit_def group_def encode_same last_same fun_eq_iff)

lemma split_parts_filled: "j \<le> length a \<Longrightarrow> split_parts c a j start \<noteq> []"
proof (induction c a j start rule: split_parts.induct)
  case (1 c a j start)
  then show ?case by (subst split_parts.simps) auto
qed

lemma put_split_emit: "c \<noteq> 0 \<Longrightarrow> put_array_option k a c p = emit (group p k (split_parts c a 0 0))"
  using split_parts_filled [of 0 a c 0]
  by (auto simp: put_array_option_def emit_def group_def xiny_coap_serialize_array_option_def encode_same last_same fun_eq_iff)

lemma put_accept_emit: "put_accept_option p = emit (group p COAP_OPTION_ACCEPT (map (\<lambda>a. int_bytes (ucast a)) (coap_accept p)))"
proof -
  have "fold (\<lambda>a (current, out). (k, out @ xiny_coap_serialize_int_option k current (ucast a))) xs s =
      emit (map (Pair k) (map (\<lambda>a. int_bytes (ucast a)) xs)) s" for k s and xs :: "u16 list"
  proof (induction xs arbitrary: s)
    case (Cons a xs)
    then show ?case by (simp add: emit_def xiny_coap_serialize_int_option_def split: prod.splits)
  qed (simp add: emit_Nil)
  then show ?thesis by (simp add: put_accept_option_def group_def emit_Nil fun_eq_iff)
qed

lemma put_options_emit:
  assumes "lists_filled p"
  shows "put_options p (0, []) = (last_number 0 (options_of p), encode_options 0 (options_of p))"
proof -
  have "put_options p s = emit (options_of p) s" for s
    using assms
    by (simp add: put_options_def put_int_emit put_array_emit put_multi_emit put_split_emit put_accept_emit emit_emit
        options_of_def lists_filled_def) (simp add: int_bytes_def)
  then show ?thesis by (simp add: emit_def)
qed

lemma split_parts_whole:
  assumes "c \<notin> set a"
  shows "split_parts c a 0 0 = [a]"
proof -
  have "split_parts c a (length a - n) 0 = [a]" if "n \<le> length a" for n
    using that
  proof (induction n)
    case 0
    then show ?case by (subst split_parts.simps, simp, subst split_parts.simps, simp)
  next
    case (Suc n)
    then have "a ! (length a - Suc n) \<noteq> c" using assms nth_mem [of "length a - Suc n" a] by auto
    moreover have "length a - Suc n + 1 = length a - n" using Suc.prems by simp
    ultimately show ?case using Suc by (subst split_parts.simps) auto
  qed
  from this [of "length a"] show ?thesis by simp
qed

section \<open>Blocks\<close>

definition block_sizes :: "u16 set" where
  "block_sizes = {16, 32, 64, 128, 256, 512, 1024, 2048}"

lemma log_2_sizes:
  "xiny_coap_log_2 1 = 0" "xiny_coap_log_2 2 = 1" "xiny_coap_log_2 4 = 2" "xiny_coap_log_2 8 = 3"
  "xiny_coap_log_2 16 = 4" "xiny_coap_log_2 32 = 5" "xiny_coap_log_2 64 = 6" "xiny_coap_log_2 128 = 7"
  by code_simp+

lemma no_bit_above:
  assumes "unat (x :: u32) < 2 ^ k" "k \<le> n"
  shows "\<not> bit x n"
proof -
  have "unat x < 2 ^ n" by (rule order_less_le_trans [OF assms(1)]) (use assms(2) in simp)
  then have "\<not> bit (unat x) n" by (simp add: bit_iff_odd)
  then show ?thesis by (simp add: bit_unsigned_iff)
qed

lemma low_bits:
  fixes num c d :: u32
  assumes "c < 16" "d < 16"
  shows "(push_bit 4 num OR c) AND d = c AND d" "(push_bit 4 num OR c) AND NOT 0x0F = push_bit 4 num"
    "num \<le> 0x0FFFFF \<Longrightarrow> drop_bit 4 (push_bit 4 num OR c) = num"
proof -
  have b: "\<not> bit x n" if "x < 16" "4 \<le> n" for x :: u32 and n
    using no_bit_above [of x 4 n] that by (simp add: word_less_nat_alt)
  have m: "(0x0F :: u32) = mask 4" by (simp add: mask_eq_decr_exp)
  show "(push_bit 4 num OR c) AND d = c AND d"
    by (rule bit_word_eqI) (use assms b [of d] in \<open>auto simp: bit_simps not_less\<close>)
  show "(push_bit 4 num OR c) AND NOT 0x0F = push_bit 4 num"
    unfolding m by (rule bit_word_eqI) (use assms b [of c] in \<open>auto simp: bit_simps not_less\<close>)
  show "drop_bit 4 (push_bit 4 num OR c) = num" if "num \<le> 0x0FFFFF"
  proof -
    have n: "n < 20" if "bit num n" for n
      using no_bit_above [of num 20 n] that \<open>num \<le> 0x0FFFFF\<close> by (force simp: word_le_nat_alt)
    show ?thesis
      by (rule bit_word_eqI) (use b [of c] assms in \<open>auto simp: bit_simps not_less dest: n\<close>)
  qed
qed

lemma block_fields:
  assumes "num \<le> 0x0FFFFF" "m = 0 \<or> m = 1" "s \<in> block_sizes"
  shows "drop_bit 4 (block_value num m s) = num" "ucast (drop_bit 3 (block_value num m s AND 0x08)) = m"
    "push_bit (unat (block_value num m s AND 0x07)) 16 = s"
    "push_bit (unat (block_value num m s AND 0x07)) (block_value num m s AND NOT 0x0F) = num * ucast s"
proof -
  define c :: u32 where "c = (if m \<noteq> 0 then 0x8 else 0) OR (0xF AND ucast (xiny_coap_log_2 (s div 16)))"
  have v: "block_value num m s = push_bit 4 num OR c"
    by (simp add: block_value_def c_def Let_def or.assoc)
  have s: "s = 16 \<or> s = 32 \<or> s = 64 \<or> s = 128 \<or> s = 256 \<or> s = 512 \<or> s = 1024 \<or> s = 2048"
    using assms(3) by (simp add: block_sizes_def)
  have c: "c < 16 \<and> ucast (drop_bit 3 (c AND 0x08)) = m \<and> push_bit (unat (c AND 0x07)) 16 = s
      \<and> push_bit (unat (c AND 0x07)) (push_bit 4 num) = num * ucast s"
    using s assms(2) by (elim disjE) (simp_all add: c_def log_2_sizes push_bit_eq_mult mult.assoc)
  then show "drop_bit 4 (block_value num m s) = num" "ucast (drop_bit 3 (block_value num m s AND 0x08)) = m"
    "push_bit (unat (block_value num m s AND 0x07)) 16 = s"
    "push_bit (unat (block_value num m s AND 0x07)) (block_value num m s AND NOT 0x0F) = num * ucast s"
    unfolding v using low_bits [of c 8 num] low_bits [of c 7 num] assms(1) by simp_all
qed

section \<open>Messages that can be sent\<close>

definition unset_int :: "coap_packet \<Rightarrow> nat \<Rightarrow> 'a::len word \<Rightarrow> bool" where
  "unset_int p k v \<longleftrightarrow> xiny_IS_OPTION p k \<or> v = 0"

definition short_bytes :: "coap_packet \<Rightarrow> nat \<Rightarrow> nat \<Rightarrow> u8 list \<Rightarrow> bool" where
  "short_bytes p k n v \<longleftrightarrow> length v < n \<and> (xiny_IS_OPTION p k \<or> v = [])"

definition filled_list :: "coap_packet \<Rightarrow> nat \<Rightarrow> u8 list list \<Rightarrow> bool" where
  "filled_list p k xs \<longleftrightarrow> (xiny_IS_OPTION p k \<longleftrightarrow> xs \<noteq> []) \<and> (\<forall>x \<in> set xs. length x < 256)"

definition sound_block :: "bool \<Rightarrow> u32 \<Rightarrow> u8 \<Rightarrow> u16 \<Rightarrow> u32 \<Rightarrow> bool" where
  "sound_block is_set num m s offset \<longleftrightarrow>
     (if is_set then num \<le> 0x0FFFFF \<and> (m = 0 \<or> m = 1) \<and> s \<in> block_sizes else num = 0 \<and> m = 0 \<and> s = 0 \<and> offset = 0)"

definition option_bit :: "coap_packet \<Rightarrow> nat \<Rightarrow> 40 word" where
  "option_bit p k = (if xiny_IS_OPTION p k then push_bit k 1 else 0)"

definition options_known :: "coap_packet \<Rightarrow> bool" where
  "options_known p \<longleftrightarrow> list_all (\<lambda>k. xiny_IS_OPTION p k \<longrightarrow> k = COAP_OPTION_TOKEN \<or> known_option k) [0..<40]"

text \<open>
  A message as the setters make it: every option that is set is one the parser knows and has a value in its range, and
  the members of the others are empty.  The query of a location has one part.
\<close>

definition packet_ok :: "coap_packet \<Rightarrow> bool" where
  "packet_ok p \<longleftrightarrow>
     short_bytes p COAP_OPTION_TOKEN 9 (coap_token p) \<and> (xiny_IS_OPTION p COAP_OPTION_TOKEN \<longrightarrow> coap_token p \<noteq> [])
     \<and> short_bytes p COAP_OPTION_IF_MATCH 9 (if_match p) \<and> short_bytes p COAP_OPTION_URI_HOST 65805 (uri_host p)
     \<and> short_bytes p COAP_OPTION_ETAG 9 (etag p) \<and> unset_int p COAP_OPTION_OBSERVE (coap_observe p)
     \<and> unset_int p COAP_OPTION_URI_PORT (uri_port p) \<and> filled_list p COAP_OPTION_LOCATION_PATH (location_path p)
     \<and> filled_list p COAP_OPTION_URI_PATH (coap_uri_path p) \<and> unset_int p COAP_OPTION_CONTENT_TYPE (content_type p)
     \<and> unset_int p COAP_OPTION_MAX_AGE (max_age p) \<and> filled_list p COAP_OPTION_URI_QUERY (uri_query p)
     \<and> (xiny_IS_OPTION p COAP_OPTION_ACCEPT \<longleftrightarrow> coap_accept p \<noteq> []) \<and> length (coap_accept p) \<le> 2
     \<and> short_bytes p COAP_OPTION_LOCATION_QUERY 65805 (location_query p) \<and> 0x26 \<notin> set (location_query p)
     \<and> sound_block (xiny_IS_OPTION p COAP_OPTION_BLOCK2) (block2_num p) (block2_more p) (block2_size p) (block2_offset p)
     \<and> sound_block (xiny_IS_OPTION p COAP_OPTION_BLOCK1) (block1_num p) (block1_more p) (block1_size p) (block1_offset p)
     \<and> unset_int p COAP_OPTION_SIZE (coap_size p) \<and> \<not> xiny_IS_OPTION p COAP_OPTION_PROXY_URI \<and> proxiny_uri p = []
     \<and> if_none_match p = 0
     \<and> options_known p"

text \<open>What the receiver of a message sees: the version, and three members that the setters leave alone.\<close>

definition as_received :: "coap_packet \<Rightarrow> coap_packet" where
  "as_received p =
     p\<lparr>coap_version := 1, if_none_match := (if xiny_IS_OPTION p COAP_OPTION_IF_NONE_MATCH then 1 else 0),
       block2_offset := block2_num p * ucast (block2_size p), block1_offset := block1_num p * ucast (block1_size p)\<rparr>"

lemma option_bit_simps: "xiny_IS_OPTION p k \<Longrightarrow> option_bit p k = push_bit k 1" "\<not> xiny_IS_OPTION p k \<Longrightarrow> option_bit p k = 0"
  by (simp_all add: option_bit_def)

lemma option_bits:
  assumes "packet_ok p"
  shows "coap_options p = option_bit p COAP_OPTION_TOKEN OR option_bit p COAP_OPTION_IF_MATCH OR option_bit p COAP_OPTION_URI_HOST
     OR option_bit p COAP_OPTION_ETAG OR option_bit p COAP_OPTION_IF_NONE_MATCH OR option_bit p COAP_OPTION_OBSERVE
     OR option_bit p COAP_OPTION_URI_PORT OR option_bit p COAP_OPTION_LOCATION_PATH OR option_bit p COAP_OPTION_URI_PATH
     OR option_bit p COAP_OPTION_CONTENT_TYPE OR option_bit p COAP_OPTION_MAX_AGE OR option_bit p COAP_OPTION_URI_QUERY
     OR option_bit p COAP_OPTION_ACCEPT OR option_bit p COAP_OPTION_LOCATION_QUERY OR option_bit p COAP_OPTION_BLOCK2
     OR option_bit p COAP_OPTION_BLOCK1 OR option_bit p COAP_OPTION_SIZE" (is "_ = ?bits")
proof (rule bit_word_eqI)
  fix n assume n: "n < LENGTH(40)"
  have b: "bit (option_bit p k) n \<longleftrightarrow> n = k \<and> bit (coap_options p) k" if "k < 40" for k
    using that n by (auto simp: option_bit_def xiny_IS_OPTION_def bit_simps)
  have b: "bit (option_bit p k) n \<longleftrightarrow> n = k \<and> bit (coap_options p) n" if "k < 40" for k
    using b [OF that] by auto
  show "bit (coap_options p) n = bit ?bits n"
  proof (cases "bit (coap_options p) n")
    case True
    then have "n = COAP_OPTION_TOKEN \<or> known_option n"
      using assms n by (auto simp: packet_ok_def options_known_def xiny_IS_OPTION_def list_all_iff)
    then have "n \<in> {19, 1, 3, 4, 5, 6, 7, 8, 11, 12, 14, 15, 17, 20, 23, 27, 28}"
      by (simp add: known_option_def coap_option_defs)
    then show ?thesis using True by (simp add: bit_or_iff b coap_option_defs)
  qed (simp add: bit_or_iff b coap_option_defs)
qed

lemma stored_ints:
  "store_option COAP_OPTION_OBSERVE (int_bytes v) q = (COAP_NO_ERROR, None, q\<lparr>coap_observe := v\<rparr>)"
  "store_option COAP_OPTION_URI_PORT (int_bytes v) q = (COAP_NO_ERROR, None, q\<lparr>uri_port := ucast v\<rparr>)"
  "store_option COAP_OPTION_CONTENT_TYPE (int_bytes v) q = (COAP_NO_ERROR, None, q\<lparr>content_type := ucast v\<rparr>)"
  "store_option COAP_OPTION_MAX_AGE (int_bytes v) q = (COAP_NO_ERROR, None, q\<lparr>max_age := v\<rparr>)"
  "store_option COAP_OPTION_SIZE (int_bytes v) q = (COAP_NO_ERROR, None, q\<lparr>coap_size := v\<rparr>)"
  "store_option COAP_OPTION_BLOCK2 (int_bytes v) q = (COAP_NO_ERROR, None, store_block2 v q)"
  "store_option COAP_OPTION_BLOCK1 (int_bytes v) q = (COAP_NO_ERROR, None, store_block1 v q)"
  by (simp_all add: store_option_def coap_option_defs parse_int_bytes)

lemma stored_bytes:
  "store_option COAP_OPTION_IF_MATCH b q = (COAP_NO_ERROR, None, q\<lparr>if_match := take COAP_ETAG_LEN b\<rparr>)"
  "store_option COAP_OPTION_URI_HOST b q = (COAP_NO_ERROR, None, q\<lparr>uri_host := b\<rparr>)"
  "store_option COAP_OPTION_ETAG b q = (COAP_NO_ERROR, None, q\<lparr>etag := take COAP_ETAG_LEN b\<rparr>)"
  "store_option COAP_OPTION_IF_NONE_MATCH b q = (COAP_NO_ERROR, None, q\<lparr>if_none_match := 1\<rparr>)"
  "store_option COAP_OPTION_LOCATION_QUERY b q =
     (COAP_NO_ERROR, None, q\<lparr>location_query := coap_merge_multi_option (location_query q) b 0x26\<rparr>)"
  by (simp_all add: store_option_def coap_option_defs)

lemma stored_lists:
  "store_option COAP_OPTION_URI_PATH b q =
     (COAP_NO_ERROR, None, q\<lparr>coap_uri_path := xiny_coap_add_multi_option (coap_uri_path q) b\<rparr>)"
  "store_option COAP_OPTION_URI_QUERY b q =
     (COAP_NO_ERROR, None, q\<lparr>uri_query := xiny_coap_add_multi_option (uri_query q) b\<rparr>)"
  "store_option COAP_OPTION_LOCATION_PATH b q =
     (COAP_NO_ERROR, None, q\<lparr>location_path := xiny_coap_add_multi_option (location_path q) b\<rparr>)"
  "store_option COAP_OPTION_ACCEPT (int_bytes v) q =
     (COAP_NO_ERROR, None,
      if length (coap_accept q) < COAP_MAX_ACCEPT_NUM then q\<lparr>coap_accept := coap_accept q @ [ucast v]\<rparr> else q)"
  by (simp_all add: store_option_def coap_option_defs parse_int_bytes)

lemma stored_block:
  assumes "num \<le> 0x0FFFFF \<and> (m = 0 \<or> m = 1) \<and> s \<in> block_sizes"
  shows "store_block2 (block_value num m s) q =
      q\<lparr>block2_num := num, block2_more := m, block2_size := s, block2_offset := num * ucast s\<rparr>"
    "store_block1 (block_value num m s) q =
      q\<lparr>block1_num := num, block1_more := m, block1_size := s, block1_offset := num * ucast s\<rparr>"
  unfolding store_block2_def store_block1_def using assms by (simp_all only: block_fields)

lemma ucast_u16: "ucast (ucast (x :: u16) :: u32) = x"
  by (rule bit_word_eqI) (simp add: bit_simps)

text \<open>One value or none.\<close>

lemma read_one:
  assumes "xiny_IS_OPTION p k \<Longrightarrow> snd (snd (store_option k v (set_option k q))) = r"
    and "\<not> xiny_IS_OPTION p k \<Longrightarrow> q = r"
  shows "fold read_option (group p k [v]) q = r"
  using assms by (cases "xiny_IS_OPTION p k") (simp_all add: group_def read_option_def)

lemma read_ints:
  "unset_int p COAP_OPTION_OBSERVE (coap_observe p) \<Longrightarrow> coap_observe q = 0 \<Longrightarrow>
   fold read_option (group p COAP_OPTION_OBSERVE [int_bytes (coap_observe p)]) q =
     q\<lparr>coap_observe := coap_observe p, coap_options := coap_options q OR option_bit p COAP_OPTION_OBSERVE\<rparr>"
  "unset_int p COAP_OPTION_URI_PORT (uri_port p) \<Longrightarrow> uri_port q = 0 \<Longrightarrow>
   fold read_option (group p COAP_OPTION_URI_PORT [int_bytes (ucast (uri_port p))]) q =
     q\<lparr>uri_port := uri_port p, coap_options := coap_options q OR option_bit p COAP_OPTION_URI_PORT\<rparr>"
  "unset_int p COAP_OPTION_CONTENT_TYPE (content_type p) \<Longrightarrow> content_type q = 0 \<Longrightarrow>
   fold read_option (group p COAP_OPTION_CONTENT_TYPE [int_bytes (ucast (content_type p))]) q =
     q\<lparr>content_type := content_type p, coap_options := coap_options q OR option_bit p COAP_OPTION_CONTENT_TYPE\<rparr>"
  "unset_int p COAP_OPTION_MAX_AGE (max_age p) \<Longrightarrow> max_age q = 0 \<Longrightarrow>
   fold read_option (group p COAP_OPTION_MAX_AGE [int_bytes (max_age p)]) q =
     q\<lparr>max_age := max_age p, coap_options := coap_options q OR option_bit p COAP_OPTION_MAX_AGE\<rparr>"
  "unset_int p COAP_OPTION_SIZE (coap_size p) \<Longrightarrow> coap_size q = 0 \<Longrightarrow>
   fold read_option (group p COAP_OPTION_SIZE [int_bytes (coap_size p)]) q =
     q\<lparr>coap_size := coap_size p, coap_options := coap_options q OR option_bit p COAP_OPTION_SIZE\<rparr>"
  by (rule read_one; (rule coap_packet.equality)?;
    simp add: unset_int_def stored_ints set_option_def option_bit_def ucast_u16)+

lemma read_bytes:
  "short_bytes p COAP_OPTION_IF_MATCH 9 (if_match p) \<Longrightarrow> if_match q = [] \<Longrightarrow>
   fold read_option (group p COAP_OPTION_IF_MATCH [if_match p]) q =
     q\<lparr>if_match := if_match p, coap_options := coap_options q OR option_bit p COAP_OPTION_IF_MATCH\<rparr>"
  "short_bytes p COAP_OPTION_URI_HOST 65805 (uri_host p) \<Longrightarrow> uri_host q = [] \<Longrightarrow>
   fold read_option (group p COAP_OPTION_URI_HOST [uri_host p]) q =
     q\<lparr>uri_host := uri_host p, coap_options := coap_options q OR option_bit p COAP_OPTION_URI_HOST\<rparr>"
  "short_bytes p COAP_OPTION_ETAG 9 (etag p) \<Longrightarrow> etag q = [] \<Longrightarrow>
   fold read_option (group p COAP_OPTION_ETAG [etag p]) q =
     q\<lparr>etag := etag p, coap_options := coap_options q OR option_bit p COAP_OPTION_ETAG\<rparr>"
  "short_bytes p COAP_OPTION_LOCATION_QUERY 65805 (location_query p) \<Longrightarrow> location_query q = [] \<Longrightarrow>
   fold read_option (group p COAP_OPTION_LOCATION_QUERY [location_query p]) q =
     q\<lparr>location_query := location_query p, coap_options := coap_options q OR option_bit p COAP_OPTION_LOCATION_QUERY\<rparr>"
  "if_none_match q = 0 \<Longrightarrow> fold read_option (group p COAP_OPTION_IF_NONE_MATCH [[]]) q =
     q\<lparr>if_none_match := (if xiny_IS_OPTION p COAP_OPTION_IF_NONE_MATCH then 1 else 0),
       coap_options := coap_options q OR option_bit p COAP_OPTION_IF_NONE_MATCH\<rparr>"
  by (rule read_one; (rule coap_packet.equality)?;
    simp add: short_bytes_def stored_bytes set_option_def option_bit_def COAP_ETAG_LEN_def coap_merge_multi_option_def)+

lemma read_blocks:
  "sound_block (xiny_IS_OPTION p COAP_OPTION_BLOCK2) (block2_num p) (block2_more p) (block2_size p) (block2_offset p) \<Longrightarrow>
   block2_num q = 0 \<Longrightarrow> block2_more q = 0 \<Longrightarrow> block2_size q = 0 \<Longrightarrow> block2_offset q = 0 \<Longrightarrow>
   fold read_option (group p COAP_OPTION_BLOCK2 [int_bytes (block_value (block2_num p) (block2_more p) (block2_size p))]) q =
     q\<lparr>block2_num := block2_num p, block2_more := block2_more p, block2_size := block2_size p,
       block2_offset := block2_num p * ucast (block2_size p), coap_options := coap_options q OR option_bit p COAP_OPTION_BLOCK2\<rparr>"
  "sound_block (xiny_IS_OPTION p COAP_OPTION_BLOCK1) (block1_num p) (block1_more p) (block1_size p) (block1_offset p) \<Longrightarrow>
   block1_num q = 0 \<Longrightarrow> block1_more q = 0 \<Longrightarrow> block1_size q = 0 \<Longrightarrow> block1_offset q = 0 \<Longrightarrow>
   fold read_option (group p COAP_OPTION_BLOCK1 [int_bytes (block_value (block1_num p) (block1_more p) (block1_size p))]) q =
     q\<lparr>block1_num := block1_num p, block1_more := block1_more p, block1_size := block1_size p,
       block1_offset := block1_num p * ucast (block1_size p), coap_options := coap_options q OR option_bit p COAP_OPTION_BLOCK1\<rparr>"
  by (rule read_one; (rule coap_packet.equality)?;
    simp add: sound_block_def stored_ints set_option_def option_bit_def stored_block)+

text \<open>Several values.\<close>

lemma read_segments:
  "list_all (\<lambda>x. length x < 256) xs \<Longrightarrow> fold read_option (map (Pair COAP_OPTION_URI_PATH) xs) q =
     q\<lparr>coap_uri_path := coap_uri_path q @ xs,
       coap_options := coap_options q OR (if xs = [] then 0 else push_bit COAP_OPTION_URI_PATH 1)\<rparr>"
  "list_all (\<lambda>x. length x < 256) xs \<Longrightarrow> fold read_option (map (Pair COAP_OPTION_URI_QUERY) xs) q =
     q\<lparr>uri_query := uri_query q @ xs,
       coap_options := coap_options q OR (if xs = [] then 0 else push_bit COAP_OPTION_URI_QUERY 1)\<rparr>"
  "list_all (\<lambda>x. length x < 256) xs \<Longrightarrow> fold read_option (map (Pair COAP_OPTION_LOCATION_PATH) xs) q =
     q\<lparr>location_path := location_path q @ xs,
       coap_options := coap_options q OR (if xs = [] then 0 else push_bit COAP_OPTION_LOCATION_PATH 1)\<rparr>"
proof -
  note r = read_option_def stored_lists set_option_def xiny_coap_add_multi_option_def or.assoc
  show "list_all (\<lambda>x. length x < 256) xs \<Longrightarrow> fold read_option (map (Pair COAP_OPTION_URI_PATH) xs) q =
     q\<lparr>coap_uri_path := coap_uri_path q @ xs,
       coap_options := coap_options q OR (if xs = [] then 0 else push_bit COAP_OPTION_URI_PATH 1)\<rparr>"
    by (induction xs arbitrary: q) (simp_all add: r)
  show "list_all (\<lambda>x. length x < 256) xs \<Longrightarrow> fold read_option (map (Pair COAP_OPTION_URI_QUERY) xs) q =
     q\<lparr>uri_query := uri_query q @ xs,
       coap_options := coap_options q OR (if xs = [] then 0 else push_bit COAP_OPTION_URI_QUERY 1)\<rparr>"
    by (induction xs arbitrary: q) (simp_all add: r)
  show "list_all (\<lambda>x. length x < 256) xs \<Longrightarrow> fold read_option (map (Pair COAP_OPTION_LOCATION_PATH) xs) q =
     q\<lparr>location_path := location_path q @ xs,
       coap_options := coap_options q OR (if xs = [] then 0 else push_bit COAP_OPTION_LOCATION_PATH 1)\<rparr>"
    by (induction xs arbitrary: q) (simp_all add: r)
qed

lemma read_accepts:
  "length (coap_accept q) + length xs \<le> 2 \<Longrightarrow>
   fold read_option (map (Pair COAP_OPTION_ACCEPT) (map (\<lambda>a. int_bytes (ucast a)) xs)) q =
     q\<lparr>coap_accept := coap_accept q @ xs,
       coap_options := coap_options q OR (if xs = [] then 0 else push_bit COAP_OPTION_ACCEPT 1)\<rparr>"
  by (induction xs arbitrary: q)
    (simp_all add: read_option_def stored_lists set_option_def COAP_MAX_ACCEPT_NUM_def or.assoc ucast_u16)

lemma read_lists:
  "filled_list p COAP_OPTION_URI_PATH (coap_uri_path p) \<Longrightarrow> coap_uri_path q = [] \<Longrightarrow>
   fold read_option (group p COAP_OPTION_URI_PATH (coap_uri_path p)) q =
     q\<lparr>coap_uri_path := coap_uri_path p, coap_options := coap_options q OR option_bit p COAP_OPTION_URI_PATH\<rparr>"
  "filled_list p COAP_OPTION_URI_QUERY (uri_query p) \<Longrightarrow> uri_query q = [] \<Longrightarrow>
   fold read_option (group p COAP_OPTION_URI_QUERY (uri_query p)) q =
     q\<lparr>uri_query := uri_query p, coap_options := coap_options q OR option_bit p COAP_OPTION_URI_QUERY\<rparr>"
  "filled_list p COAP_OPTION_LOCATION_PATH (location_path p) \<Longrightarrow> location_path q = [] \<Longrightarrow>
   fold read_option (group p COAP_OPTION_LOCATION_PATH (location_path p)) q =
     q\<lparr>location_path := location_path p, coap_options := coap_options q OR option_bit p COAP_OPTION_LOCATION_PATH\<rparr>"
  "(xiny_IS_OPTION p COAP_OPTION_ACCEPT \<longleftrightarrow> coap_accept p \<noteq> []) \<Longrightarrow> length (coap_accept p) \<le> 2 \<Longrightarrow> coap_accept q = [] \<Longrightarrow>
   fold read_option (group p COAP_OPTION_ACCEPT (map (\<lambda>a. int_bytes (ucast a)) (coap_accept p))) q =
     q\<lparr>coap_accept := coap_accept p, coap_options := coap_options q OR option_bit p COAP_OPTION_ACCEPT\<rparr>"
  subgoal by (cases "coap_uri_path p = []"; (rule coap_packet.equality)?;
      simp add: group_def filled_list_def option_bit_def read_segments list_all_iff)
  subgoal by (cases "uri_query p = []"; (rule coap_packet.equality)?;
      simp add: group_def filled_list_def option_bit_def read_segments list_all_iff)
  subgoal by (cases "location_path p = []"; (rule coap_packet.equality)?;
      simp add: group_def filled_list_def option_bit_def read_segments list_all_iff)
  subgoal by (cases "coap_accept p = []"; (rule coap_packet.equality)?;
      simp add: group_def option_bit_def read_accepts del: map_map)
  done

section \<open>The round trip\<close>

lemma header_byte:
  assumes "n \<le> 8"
  shows "unat (((0xC0 AND push_bit 6 1) OR (0x30 AND push_bit 4 (coap_type_no ty)) OR (0x0F AND of_nat n) :: u8) AND 0x0F) = n"
    "coap_type_of (drop_bit 4 (((0xC0 AND push_bit 6 1) OR (0x30 AND push_bit 4 (coap_type_no ty)) OR (0x0F AND of_nat n) :: u8) AND 0x30)) = ty"
    "drop_bit 6 (((0xC0 AND push_bit 6 1) OR (0x30 AND push_bit 4 (coap_type_no ty)) OR (0x0F AND of_nat n) :: u8) AND 0xC0) = 1"
proof -
  let ?b = "\<lambda>t n. (0xC0 AND push_bit 6 1) OR (0x30 AND push_bit 4 (coap_type_no t)) OR (0x0F AND of_nat n) :: u8"
  have "\<forall>n \<in> set [0..<9]. \<forall>t \<in> set [COAP_TYPE_CON, COAP_TYPE_NON, COAP_TYPE_ACK, COAP_TYPE_RST].
      unat (?b t n AND 0x0F) = n \<and> coap_type_of (drop_bit 4 (?b t n AND 0x30)) = t \<and> drop_bit 6 (?b t n AND 0xC0) = 1"
    by code_simp
  moreover have "n \<in> set [0..<9]" "ty \<in> set [COAP_TYPE_CON, COAP_TYPE_NON, COAP_TYPE_ACK, COAP_TYPE_RST]"
    using assms by (auto, cases ty) simp_all
  ultimately show "unat (?b ty n AND 0x0F) = n" "coap_type_of (drop_bit 4 (?b ty n AND 0x30)) = ty"
    "drop_bit 6 (?b ty n AND 0xC0) = 1" by blast+
qed

lemma join_u16: "push_bit 8 (ucast (ucast (drop_bit 8 v) :: u8)) OR ucast (ucast v :: u8) = (v :: u16)" (is "?l = v")
proof (rule bit_word_eqI)
  fix n assume n: "n < LENGTH(16)"
  show "bit ?l n = bit v n"
    using n by (cases "n < 8") (auto simp: bit_simps)
qed

lemma parse_header:
  assumes "length (coap_token p) \<le> 8"
  shows "xiny_coap_parse_message (coap_header p @ rest) (length (coap_header p) + m) =
    parse_options 0 rest m
      (packet_zero\<lparr>coap_version := 1, coap_type := coap_type p, coap_code := coap_code p, coap_mid := coap_mid p,
         coap_token := coap_token p,
         coap_options := if coap_token p \<noteq> [] then push_bit COAP_OPTION_TOKEN 1 else 0\<rparr>)"
proof -
  have drop4: "drop (4 + n) (a # b # c # d # xs) = drop n xs" for n and a b c d :: u8 and xs
    by (simp add: numeral_eq_Suc)
  define b where "b = (0xC0 AND push_bit 6 1) OR (0x30 AND push_bit 4 (coap_type_no (coap_type p)))
    OR (0x0F AND of_nat (length (coap_token p)) :: u8)"
  have b: "unat (b AND 0x0F) = length (coap_token p)" "coap_type_of (drop_bit 4 (b AND 0x30)) = coap_type p"
      "drop_bit 6 (b AND 0xC0) = 1"
    unfolding b_def by (rule header_byte [OF assms])+
  have h: "coap_header p = [b, coap_code p, ucast (drop_bit 8 (coap_mid p)), ucast (coap_mid p)] @ coap_token p"
    by (simp only: coap_header_def b_def)
  show ?thesis
    unfolding h using assms
    by (simp add: xiny_coap_parse_message_def b char_at_def join_u16 Let_def COAP_TOKEN_LEN_def COAP_HEADER_LEN_def drop4
        set_option_def packet_zero_def del: drop_bit_and)
qed

lemma options_ok_weaken: "options_ok k xs \<Longrightarrow> c \<le> k \<Longrightarrow> options_ok c xs"
  by (cases xs) auto

lemma options_ok_group:
  assumes "c \<le> k" "known_option k" "\<forall>v \<in> set vs. length v < 65805" "options_ok k ys"
  shows "options_ok c (group p k vs @ ys)"
proof -
  have "options_ok c (map (Pair k) vs @ ys)"
    using assms(1,3) by (induction vs arbitrary: c) (auto intro: options_ok_weaken [OF assms(4)] assms(2))
  then show ?thesis using options_ok_weaken [OF assms(4,1)] by (simp add: group_def)
qed

lemma length_split_part: "v \<in> set (split_parts c a j start) \<Longrightarrow> length v \<le> length a"
proof (induction c a j start rule: split_parts.induct)
  case (1 c a j start)
  then show ?case by (subst (asm) split_parts.simps) (auto split: if_splits)
qed

lemma short_int_bytes: "length (int_bytes v) < 65805"
  using length_int_bytes(1) [of v] by linarith

lemma options_of_ok:
  assumes "packet_ok p"
  shows "options_ok 0 (options_of p)"
proof -
  have k: "known_option k" if "k \<in> {1, 3, 4, 5, 6, 7, 8, 11, 12, 14, 15, 17, 20, 23, 27, 28}" for k
    using that by (simp add: known_option_def coap_option_defs)
  have "length v < 65805" if "v \<in> set (split_parts 0x26 (location_query p) 0 0)" for v
    using length_split_part [OF that] assms by (simp add: packet_ok_def short_bytes_def)
  moreover have "length v < 65805" if "v \<in> set (location_path p) \<or> v \<in> set (coap_uri_path p) \<or> v \<in> set (uri_query p)" for v
    using that assms by (fastforce simp: packet_ok_def filled_list_def)
  moreover have "length (if_match p) < 65805 \<and> length (uri_host p) < 65805 \<and> length (etag p) < 65805"
    using assms by (simp add: packet_ok_def short_bytes_def)
  moreover have proxy: "group p COAP_OPTION_PROXY_URI [proxiny_uri p] = []" using assms by (simp add: packet_ok_def group_def)
  ultimately show ?thesis
    unfolding options_of_def proxy concat.simps by (intro options_ok_group) (simp_all add: k coap_option_defs short_int_bytes)
qed

lemma packet_ok_filled: "packet_ok p \<Longrightarrow> lists_filled p"
  by (simp add: packet_ok_def lists_filled_def filled_list_def)

lemma read_options:
  assumes "packet_ok p"
  shows "fold read_option (options_of p)
      (packet_zero\<lparr>coap_version := 1, coap_type := coap_type p, coap_code := coap_code p, coap_mid := coap_mid p,
         coap_token := coap_token p,
         coap_options := if coap_token p \<noteq> [] then push_bit COAP_OPTION_TOKEN 1 else 0\<rparr>) =
    (as_received p)\<lparr>coap_payload := []\<rparr>"
proof -
  have token: "(if coap_token p \<noteq> [] then push_bit COAP_OPTION_TOKEN 1 else 0) = option_bit p COAP_OPTION_TOKEN"
    using assms by (auto simp: packet_ok_def option_bit_def short_bytes_def)
  have proxy: "group p COAP_OPTION_PROXY_URI [proxiny_uri p] = []" using assms by (simp add: packet_ok_def group_def)
  have query: "split_parts 0x26 (location_query p) 0 0 = [location_query p]"
    using assms by (simp add: packet_ok_def split_parts_whole)
  show ?thesis
    using assms option_bits [OF assms] unfolding options_of_def proxy query token
    by (simp add: packet_ok_def packet_zero_def read_ints read_bytes read_blocks read_lists as_received_def or.assoc)
qed

lemma serialized: "packet_ok p \<Longrightarrow> fst (xiny_coap_serialize_message p) =
    coap_header p @ encode_options 0 (options_of p) @ (if coap_payload p \<noteq> [] then 0xFF # coap_payload p else [])"
  by (simp add: xiny_coap_serialize_message_def put_options_emit packet_ok_filled)

lemma message_roundtrip:
  assumes "packet_ok p"
  defines "bytes \<equiv> fst (xiny_coap_serialize_message p)"
  shows "xiny_coap_parse_message bytes (length bytes) = Inr (COAP_NO_ERROR, None, as_received p)"
proof -
  have "length (coap_token p) \<le> 8" using assms(1) by (simp add: packet_ok_def short_bytes_def)
  then have "xiny_coap_parse_message bytes (length bytes) =
      parse_options (last_number 0 (options_of p)) (if coap_payload p \<noteq> [] then 0xFF # coap_payload p else [])
        (if coap_payload p \<noteq> [] then Suc (length (coap_payload p)) else 0) ((as_received p)\<lparr>coap_payload := []\<rparr>)"
    using parse_encoded [OF options_of_ok [OF assms(1)]] read_options [OF assms(1)]
    unfolding bytes_def serialized [OF assms(1)] by (simp add: parse_header)
  then show ?thesis
    unfolding parse_payload by (cases "coap_payload p = []") (simp_all add: as_received_def)
qed

section \<open>The size\<close>

lemma length_encode_bytes:
  assumes "\<And>c. c \<le> k \<Longrightarrow> length (encode_options c ys) \<le> n" "c \<le> k" "k < 256"
  shows "length (encode_options c (group p k vs @ ys)) \<le> option_size p k (multi_size vs) + n"
proof -
  have "length (encode_options c (map (Pair k) vs @ ys)) \<le> multi_size vs + n"
    using assms(2)
  proof (induction vs arbitrary: c)
    case (Cons v vs)
    have "length (coap_set_option_header (k - c) (length v)) \<le> 4" using assms(3) by (intro length_option_header(1)) simp
    then show ?case using Cons.IH [of k] by (simp add: multi_size_def COAP_MAX_OPTION_HEADER_LEN_def)
  qed (use assms(1) in \<open>simp add: multi_size_def\<close>)
  then show ?thesis using assms(1,2) by (simp add: group_def option_size_def)
qed

lemma length_encode_ints:
  assumes "\<And>c. c \<le> k \<Longrightarrow> length (encode_options c ys) \<le> n" "\<forall>v \<in> set vs. length v \<le> (if k \<le> 12 then 4 else 3)" "c \<le> k" "k < 256"
  shows "length (encode_options c (group p k vs @ ys)) \<le> option_size p k (length vs * COAP_MAX_OPTION_HEADER_LEN) + n"
proof -
  have "length (encode_options c (map (Pair k) vs @ ys)) \<le> length vs * COAP_MAX_OPTION_HEADER_LEN + n"
    using assms(2,3)
  proof (induction vs arbitrary: c)
    case (Cons v vs)
    have v: "length v \<le> (if k \<le> 12 then 4 else 3)" using Cons.prems(1) by simp
    have "length (coap_set_option_header (k - c) (length v)) = (if k - c \<le> 12 then 1 else 2)"
      using assms(4) v by (intro length_option_header(2)) (simp_all split: if_splits)
    then have "length (coap_set_option_header (k - c) (length v)) + length v \<le> 5"
      using v by (simp split: if_splits)
    then show ?case using Cons.IH [of k] Cons.prems by (simp add: COAP_MAX_OPTION_HEADER_LEN_def)
  qed (use assms(1) in simp)
  then show ?thesis using assms(1,3) by (simp add: group_def option_size_def)
qed

lemmas length_encode_int = length_encode_ints [where vs = "[v]" for v, simplified]

lemma small_u32: "unat (v :: u32) < 2 ^ k \<Longrightarrow> drop_bit k v = 0"
  by (rule bit_word_eqI) (simp add: bit_simps no_bit_above)

lemma small_int_bytes: "unat v < 2 ^ 24 \<Longrightarrow> length (int_bytes v) \<le> 3"
  by (rule length_int_bytes(2)) (rule small_u32)

lemma small_u16: "length (int_bytes (ucast (v :: u16))) \<le> 3"
  by (rule length_int_bytes(2), rule bit_word_eqI) (auto simp: bit_simps dest: bit_imp_le_length)

lemma small_block:
  assumes "num \<le> 0x0FFFFF" "m = 0 \<or> m = 1" "s \<in> block_sizes"
  shows "length (int_bytes (block_value num m s)) \<le> 3"
proof (rule length_int_bytes(2))
  have "drop_bit 24 (block_value num m s) = drop_bit 20 (drop_bit 4 (block_value num m s))" by simp
  also have "\<dots> = drop_bit 20 num" by (simp only: block_fields(1) [OF assms])
  also have "\<dots> = 0" using assms(1) by (intro small_u32) (simp add: word_le_nat_alt)
  finally show "drop_bit 24 (block_value num m s) = 0" .
qed

lemma sound_block_small: "sound_block b num m s offset \<Longrightarrow> length (int_bytes (block_value num m s)) \<le> 3"
proof (cases b)
  case False
  have "length (int_bytes (block_value 0 0 0)) \<le> 3" by code_simp
  then show "sound_block b num m s offset \<Longrightarrow> ?thesis" using False by (simp add: sound_block_def)
qed (auto simp: sound_block_def intro!: small_block)

lemma length_options:
  assumes "packet_ok p" "unat (max_age p) < 2 ^ 24" "unat (coap_size p) < 2 ^ 24"
  shows "COAP_HEADER_LEN + length (coap_payload p) + length (coap_token p) + (if coap_payload p \<noteq> [] then 1 else 0)
     + length (encode_options 0 (options_of p)) \<le> xiny_coap_serialize_get_size p"
proof -
  have proxy: "group p COAP_OPTION_PROXY_URI [proxiny_uri p] = []" using assms by (simp add: packet_ok_def group_def)
  have query: "split_parts 0x26 (location_query p) 0 0 = [location_query p]"
    using assms by (simp add: packet_ok_def split_parts_whole)
  have blocks: "length (int_bytes (block_value (block1_num p) (block1_more p) (block1_size p))) \<le> 3"
      "length (int_bytes (block_value (block2_num p) (block2_more p) (block2_size p))) \<le> 3"
    using assms(1) unfolding packet_ok_def by (blast intro: sound_block_small)+
  have "length (encode_options 0 (options_of p)) \<le>
     option_size p COAP_OPTION_IF_MATCH (multi_size [if_match p])
     + (option_size p COAP_OPTION_URI_HOST (multi_size [uri_host p])
     + (option_size p COAP_OPTION_ETAG (multi_size [etag p])
     + (option_size p COAP_OPTION_IF_NONE_MATCH (multi_size [[]])
     + (option_size p COAP_OPTION_OBSERVE (COAP_MAX_OPTION_HEADER_LEN)
     + (option_size p COAP_OPTION_URI_PORT (COAP_MAX_OPTION_HEADER_LEN)
     + (option_size p COAP_OPTION_LOCATION_PATH (multi_size (location_path p))
     + (option_size p COAP_OPTION_URI_PATH (multi_size (coap_uri_path p))
     + (option_size p COAP_OPTION_CONTENT_TYPE (COAP_MAX_OPTION_HEADER_LEN)
     + (option_size p COAP_OPTION_MAX_AGE (COAP_MAX_OPTION_HEADER_LEN)
     + (option_size p COAP_OPTION_URI_QUERY (multi_size (uri_query p))
     + (option_size p COAP_OPTION_ACCEPT (length (map (\<lambda>a. int_bytes (ucast a)) (coap_accept p)) * COAP_MAX_OPTION_HEADER_LEN)
     + (option_size p COAP_OPTION_LOCATION_QUERY (multi_size [location_query p])
     + (option_size p COAP_OPTION_BLOCK2 (COAP_MAX_OPTION_HEADER_LEN)
     + (option_size p COAP_OPTION_BLOCK1 (COAP_MAX_OPTION_HEADER_LEN)
     + (option_size p COAP_OPTION_SIZE (COAP_MAX_OPTION_HEADER_LEN) + 0)))))))))))))))"
    unfolding options_of_def proxy query concat.simps
    by (intro length_encode_bytes length_encode_int length_encode_ints)
      (use assms in \<open>simp_all add: coap_option_defs small_u16 small_int_bytes length_int_bytes(1) blocks\<close>)
  then show ?thesis
    by (simp add: xiny_coap_serialize_get_size_def multi_size_def)
qed

lemma message_fits:
  assumes "packet_ok p" "unat (max_age p) < 2 ^ 24" "unat (coap_size p) < 2 ^ 24"
  shows "length (fst (xiny_coap_serialize_message p)) \<le> xiny_coap_serialize_get_size p"
  using length_options [OF assms] by (simp add: serialized [OF assms(1)] coap_header_def COAP_HEADER_LEN_def split: if_splits)

end
