(* ===== verification/CoapBuilt.thy ===== *)
theory CoapBuilt
  imports CoapSpec
begin

text \<open>
  What the setters make of a message, in any order, is a message that can be sent.
\<close>

section \<open>What a setter changes\<close>

lemma set_option_fields [simp]:
  "coap_version (set_option k p) = coap_version p" "coap_type (set_option k p) = coap_type p"
  "coap_code (set_option k p) = coap_code p" "coap_mid (set_option k p) = coap_mid p"
  "content_type (set_option k p) = content_type p" "max_age (set_option k p) = max_age p"
  "proxiny_uri (set_option k p) = proxiny_uri p" "etag (set_option k p) = etag p"
  "uri_host (set_option k p) = uri_host p" "location_path (set_option k p) = location_path p"
  "uri_port (set_option k p) = uri_port p" "location_query (set_option k p) = location_query p"
  "coap_uri_path (set_option k p) = coap_uri_path p" "coap_observe (set_option k p) = coap_observe p"
  "coap_token (set_option k p) = coap_token p" "coap_accept (set_option k p) = coap_accept p"
  "if_match (set_option k p) = if_match p" "block2_num (set_option k p) = block2_num p"
  "block2_more (set_option k p) = block2_more p" "block2_size (set_option k p) = block2_size p"
  "block2_offset (set_option k p) = block2_offset p" "block1_num (set_option k p) = block1_num p"
  "block1_more (set_option k p) = block1_more p" "block1_size (set_option k p) = block1_size p"
  "block1_offset (set_option k p) = block1_offset p" "coap_size (set_option k p) = coap_size p"
  "uri_query (set_option k p) = uri_query p" "if_none_match (set_option k p) = if_none_match p"
  "coap_payload (set_option k p) = coap_payload p"
  by (simp_all add: set_option_def)

lemma is_option_set [simp]: "xiny_IS_OPTION (set_option k p) j \<longleftrightarrow> xiny_IS_OPTION p j \<or> (j = k \<and> k < 40)"
  by (auto simp: xiny_IS_OPTION_def set_option_def bit_simps)

lemma is_option_update [simp]:
  "xiny_IS_OPTION (p\<lparr>coap_version := v0\<rparr>) = xiny_IS_OPTION p"
  "xiny_IS_OPTION (p\<lparr>coap_type := t\<rparr>) = xiny_IS_OPTION p"
  "xiny_IS_OPTION (p\<lparr>coap_code := v2\<rparr>) = xiny_IS_OPTION p"
  "xiny_IS_OPTION (p\<lparr>coap_mid := v3\<rparr>) = xiny_IS_OPTION p"
  "xiny_IS_OPTION (p\<lparr>content_type := v4\<rparr>) = xiny_IS_OPTION p"
  "xiny_IS_OPTION (p\<lparr>max_age := v5\<rparr>) = xiny_IS_OPTION p"
  "xiny_IS_OPTION (p\<lparr>proxiny_uri := v6\<rparr>) = xiny_IS_OPTION p"
  "xiny_IS_OPTION (p\<lparr>etag := v7\<rparr>) = xiny_IS_OPTION p"
  "xiny_IS_OPTION (p\<lparr>uri_host := v8\<rparr>) = xiny_IS_OPTION p"
  "xiny_IS_OPTION (p\<lparr>location_path := v9\<rparr>) = xiny_IS_OPTION p"
  "xiny_IS_OPTION (p\<lparr>uri_port := v10\<rparr>) = xiny_IS_OPTION p"
  "xiny_IS_OPTION (p\<lparr>location_query := v11\<rparr>) = xiny_IS_OPTION p"
  "xiny_IS_OPTION (p\<lparr>coap_uri_path := v12\<rparr>) = xiny_IS_OPTION p"
  "xiny_IS_OPTION (p\<lparr>coap_observe := v13\<rparr>) = xiny_IS_OPTION p"
  "xiny_IS_OPTION (p\<lparr>coap_token := v14\<rparr>) = xiny_IS_OPTION p"
  "xiny_IS_OPTION (p\<lparr>coap_accept := v15\<rparr>) = xiny_IS_OPTION p"
  "xiny_IS_OPTION (p\<lparr>if_match := v16\<rparr>) = xiny_IS_OPTION p"
  "xiny_IS_OPTION (p\<lparr>block2_num := v17\<rparr>) = xiny_IS_OPTION p"
  "xiny_IS_OPTION (p\<lparr>block2_more := v18\<rparr>) = xiny_IS_OPTION p"
  "xiny_IS_OPTION (p\<lparr>block2_size := v19\<rparr>) = xiny_IS_OPTION p"
  "xiny_IS_OPTION (p\<lparr>block2_offset := v20\<rparr>) = xiny_IS_OPTION p"
  "xiny_IS_OPTION (p\<lparr>block1_num := v21\<rparr>) = xiny_IS_OPTION p"
  "xiny_IS_OPTION (p\<lparr>block1_more := v22\<rparr>) = xiny_IS_OPTION p"
  "xiny_IS_OPTION (p\<lparr>block1_size := v23\<rparr>) = xiny_IS_OPTION p"
  "xiny_IS_OPTION (p\<lparr>block1_offset := v24\<rparr>) = xiny_IS_OPTION p"
  "xiny_IS_OPTION (p\<lparr>coap_size := v25\<rparr>) = xiny_IS_OPTION p"
  "xiny_IS_OPTION (p\<lparr>uri_query := v26\<rparr>) = xiny_IS_OPTION p"
  "xiny_IS_OPTION (p\<lparr>if_none_match := v27\<rparr>) = xiny_IS_OPTION p"
  "xiny_IS_OPTION (p\<lparr>coap_payload := v28\<rparr>) = xiny_IS_OPTION p"
  by (simp_all add: xiny_IS_OPTION_def fun_eq_iff)

lemma options_known_set: "options_known p \<Longrightarrow> k = COAP_OPTION_TOKEN \<or> known_option k \<Longrightarrow> options_known (set_option k p)"
  by (auto simp: options_known_def list_all_iff)

lemma options_known_update [simp]:
  "options_known (p\<lparr>coap_version := v0\<rparr>) = options_known p"
  "options_known (p\<lparr>coap_type := t\<rparr>) = options_known p"
  "options_known (p\<lparr>coap_code := v2\<rparr>) = options_known p"
  "options_known (p\<lparr>coap_mid := v3\<rparr>) = options_known p"
  "options_known (p\<lparr>content_type := v4\<rparr>) = options_known p"
  "options_known (p\<lparr>max_age := v5\<rparr>) = options_known p"
  "options_known (p\<lparr>proxiny_uri := v6\<rparr>) = options_known p"
  "options_known (p\<lparr>etag := v7\<rparr>) = options_known p"
  "options_known (p\<lparr>uri_host := v8\<rparr>) = options_known p"
  "options_known (p\<lparr>location_path := v9\<rparr>) = options_known p"
  "options_known (p\<lparr>uri_port := v10\<rparr>) = options_known p"
  "options_known (p\<lparr>location_query := v11\<rparr>) = options_known p"
  "options_known (p\<lparr>coap_uri_path := v12\<rparr>) = options_known p"
  "options_known (p\<lparr>coap_observe := v13\<rparr>) = options_known p"
  "options_known (p\<lparr>coap_token := v14\<rparr>) = options_known p"
  "options_known (p\<lparr>coap_accept := v15\<rparr>) = options_known p"
  "options_known (p\<lparr>if_match := v16\<rparr>) = options_known p"
  "options_known (p\<lparr>block2_num := v17\<rparr>) = options_known p"
  "options_known (p\<lparr>block2_more := v18\<rparr>) = options_known p"
  "options_known (p\<lparr>block2_size := v19\<rparr>) = options_known p"
  "options_known (p\<lparr>block2_offset := v20\<rparr>) = options_known p"
  "options_known (p\<lparr>block1_num := v21\<rparr>) = options_known p"
  "options_known (p\<lparr>block1_more := v22\<rparr>) = options_known p"
  "options_known (p\<lparr>block1_size := v23\<rparr>) = options_known p"
  "options_known (p\<lparr>block1_offset := v24\<rparr>) = options_known p"
  "options_known (p\<lparr>coap_size := v25\<rparr>) = options_known p"
  "options_known (p\<lparr>uri_query := v26\<rparr>) = options_known p"
  "options_known (p\<lparr>if_none_match := v27\<rparr>) = options_known p"
  "options_known (p\<lparr>coap_payload := v28\<rparr>) = options_known p"
  by (simp_all add: options_known_def)

lemma set_options_known [simp]:
  assumes "options_known p"
  shows "k = COAP_OPTION_TOKEN \<or> known_option k \<Longrightarrow> options_known (set_option k p)"
  using assms by (rule options_known_set)

lemma segments_short:
  "x \<in> set (text_segments sep path dst) \<Longrightarrow> (\<forall>y \<in> set dst. length y < 256) \<Longrightarrow> length x < 256"
  "text_segments sep path dst \<noteq> []"
proof (induction sep path dst rule: text_segments.induct)
  case (1 sep path dst)
  have add: "\<forall>y \<in> set (xiny_coap_add_multi_option dst b). length y < 256" if "\<forall>y \<in> set dst. length y < 256" for b
    using that by (auto simp: xiny_coap_add_multi_option_def)
  { case 1
    then show ?case
      using "1.IH"(1) [OF refl refl refl] add by (subst (asm) text_segments.simps) (auto simp: Let_def split: if_splits) }
  { case 2
    then show ?case
      using "1.IH"(2) [OF refl refl refl] by (subst text_segments.simps) (simp add: Let_def xiny_coap_add_multi_option_def) }
qed

section \<open>Messages that are set up\<close>

text \<open>
  A token and a value may be empty text only where noted; the query of a location has one part and an option is set
  from a value in its range.
\<close>

inductive prepared :: "coap_packet \<Rightarrow> bool" where
  init: "prepared (xiny_coap_init_message ty code mid)"
| status: "prepared p \<Longrightarrow> prepared (snd (xiny_coap_set_status_code p c))"
| token: "prepared p \<Longrightarrow> 0 < n \<Longrightarrow> t \<noteq> [] \<Longrightarrow> prepared (xiny_coap_set_header_token t n p)"
| content: "prepared p \<Longrightarrow> prepared (xiny_coap_set_header_content_type v p)"
| accept: "prepared p \<Longrightarrow> prepared (xiny_coap_set_header_accept a p)"
| age: "prepared p \<Longrightarrow> prepared (xiny_coap_set_header_max_age v p)"
| tag: "prepared p \<Longrightarrow> prepared (xiny_coap_set_header_etag b p)"
| ifmatch: "prepared p \<Longrightarrow> prepared (xiny_coap_set_header_if_match b p)"
| ifnone: "prepared p \<Longrightarrow> prepared (xiny_coap_set_header_if_none_match p)"
| host: "prepared p \<Longrightarrow> length b < 65805 \<Longrightarrow> prepared (xiny_coap_set_header_uri_host b p)"
| path: "prepared p \<Longrightarrow> prepared (xiny_coap_set_header_uri_path b p)"
| segment: "prepared p \<Longrightarrow> prepared (xiny_coap_set_header_uri_path_segment s p)"
| query: "prepared p \<Longrightarrow> prepared (xiny_coap_set_header_uri_query b p)"
| location: "prepared p \<Longrightarrow> prepared (xiny_coap_set_header_location_path b p)"
| locquery: "prepared p \<Longrightarrow> length b < 65805 \<Longrightarrow> 0x26 \<notin> set b \<Longrightarrow> prepared (xiny_coap_set_header_location_query b p)"
| observe: "prepared p \<Longrightarrow> prepared (xiny_coap_set_header_observe v p)"
| block2: "prepared p \<Longrightarrow> z \<in> block_sizes \<Longrightarrow> prepared (snd (xiny_coap_set_header_block2 num m z p))"
| block1: "prepared p \<Longrightarrow> z \<in> block_sizes \<Longrightarrow> m \<le> 1 \<Longrightarrow> prepared (snd (xiny_coap_set_header_block1 num m z p))"
| length_of: "prepared p \<Longrightarrow> prepared (xiny_coap_set_header_size v p)"
| payload: "prepared p \<Longrightarrow> prepared (xiny_coap_set_payload b p)"

lemmas packet_ok_defs = packet_ok_def short_bytes_def unset_int_def filled_list_def sound_block_def coap_option_defs

lemma known_options:
  "k \<in> {1, 3, 4, 5, 6, 7, 8, 11, 12, 14, 15, 17, 20, 23, 27, 28} \<Longrightarrow> known_option k"
  by (simp add: known_option_def coap_option_defs)

lemma init_ok: "packet_ok (xiny_coap_init_message ty code mid)"
  by (simp add: packet_ok_defs xiny_coap_init_message_def packet_zero_def xiny_IS_OPTION_def options_known_def list_all_iff)

lemma small_flag: "m \<le> 1 \<Longrightarrow> m = 0 \<or> m = (1 :: u8)"
  by (simp add: word_le_nat_alt word_unat_eq_iff le_Suc_eq)

lemma prepared_ok: "prepared p \<Longrightarrow> packet_ok p"
proof (induction rule: prepared.induct)
  case (init ty code mid)
  show ?case by (rule init_ok)
next
  case (status p c)
  then show ?case by (simp add: packet_ok_defs xiny_coap_set_status_code_def)
next
  case (token p n t)
  then show ?case by (simp add: packet_ok_defs xiny_coap_set_header_token_def COAP_TOKEN_LEN_def min_def)
next
  case (content p v)
  then show ?case by (simp add: packet_ok_defs xiny_coap_set_header_content_type_def known_options)
next
  case (accept p a)
  then show ?case by (simp add: packet_ok_defs xiny_coap_set_header_accept_def known_options COAP_MAX_ACCEPT_NUM_def)
next
  case (age p v)
  then show ?case by (simp add: packet_ok_defs xiny_coap_set_header_max_age_def known_options)
next
  case (tag p b)
  then show ?case by (simp add: packet_ok_defs xiny_coap_set_header_etag_def known_options COAP_ETAG_LEN_def)
next
  case (ifmatch p b)
  then show ?case by (simp add: packet_ok_defs xiny_coap_set_header_if_match_def known_options COAP_ETAG_LEN_def)
next
  case (ifnone p)
  then show ?case by (simp add: packet_ok_defs xiny_coap_set_header_if_none_match_def known_options)
next
  case (host p b)
  then show ?case by (simp add: packet_ok_defs xiny_coap_set_header_uri_host_def known_options)
next
  case (path p b)
  then show ?case using segments_short by (simp add: packet_ok_defs xiny_coap_set_header_uri_path_def known_options)
next
  case (segment p s)
  have "\<forall>x \<in> set (xiny_coap_add_multi_option (coap_uri_path p) b). length x < 256" for b
    using segment(2) by (auto simp: packet_ok_defs xiny_coap_add_multi_option_def)
  moreover have "xiny_coap_add_multi_option (coap_uri_path p) b \<noteq> []" for b by (simp add: xiny_coap_add_multi_option_def)
  ultimately show ?case
    using segment(2) by (simp add: packet_ok_defs xiny_coap_set_header_uri_path_segment_def known_options)
next
  case (query p b)
  then show ?case using segments_short by (simp add: packet_ok_defs xiny_coap_set_header_uri_query_def known_options)
next
  case (location p b)
  then show ?case using segments_short by (simp add: packet_ok_defs xiny_coap_set_header_location_path_def known_options)
next
  case (locquery p b)
  have "0x26 \<notin> set (dropWhile (\<lambda>c. c = 0x3F) b)" "length (dropWhile (\<lambda>c. c = 0x3F) b) < 65805"
    using locquery(2,3) set_dropWhileD [of "0x26" _ b] length_dropWhile_le [of "\<lambda>c. c = 0x3F" b] by (blast, linarith)
  then show ?case using locquery(4) by (simp add: packet_ok_defs xiny_coap_set_header_location_query_def known_options)
next
  case (observe p v)
  then show ?case by (simp add: packet_ok_defs xiny_coap_set_header_observe_def known_options)
next
  case (block2 p z num m)
  then show ?case by (simp add: packet_ok_defs xiny_coap_set_header_block2_def known_options block_ok_def)
next
  case (block1 p z m num)
  then show ?case using small_flag [of m] by (simp add: packet_ok_defs xiny_coap_set_header_block1_def known_options block_ok_def)
next
  case (length_of p v)
  then show ?case by (simp add: packet_ok_defs xiny_coap_set_header_size_def known_options)
next
  case (payload p b)
  then show ?case by (simp add: packet_ok_defs xiny_coap_set_payload_def)
qed

end
