(* ===== verification/TransactionSpec.thy ===== *)
theory TransactionSpec
  imports Lwm2mTransaction UriSpec CoapBuilt
begin

text \<open>
  The transactions as a machine: what is created, answered, sent and repeated, in any order; the invariant bounds
  what is sent for a transaction, tx_calls its callback once, and keeps the list free of freed structures.
\<close>

section \<open>Lists sorted by identifier\<close>

definition increasing :: "('a \<Rightarrow> u16) \<Rightarrow> 'a list \<Rightarrow> bool" where
  "increasing id_of xs \<longleftrightarrow> sorted_wrt (\<lambda>x y. id_of x < id_of y) xs"

lemma increasing_simps [simp]:
  "increasing id_of []"
  "increasing id_of (x # xs) \<longleftrightarrow> (\<forall>y \<in> set xs. id_of x < id_of y) \<and> increasing id_of xs"
  by (simp_all add: increasing_def)

lemma increasing_map: "increasing id_of xs \<longleftrightarrow> sorted_wrt (<) (map id_of xs)"
  by (simp add: increasing_def sorted_wrt_map)

lemma increasing_filter: "increasing id_of xs \<Longrightarrow> increasing id_of (filter P xs)"
  by (simp add: increasing_def sorted_wrt_filter)

lemma increasing_distinct: "increasing id_of xs \<Longrightarrow> distinct (map id_of xs)"
  by (induction xs) fastforce+

lemma increasing_inj: "increasing id_of xs \<Longrightarrow> x \<in> set xs \<Longrightarrow> y \<in> set xs \<Longrightarrow> id_of x = id_of y \<Longrightarrow> x = y"
  using increasing_distinct [of id_of xs] by (auto simp: distinct_map dest: inj_onD)

lemma filter_not_id: "(\<forall>y \<in> set xs. i < id_of y) \<Longrightarrow> filter (\<lambda>y. id_of y \<noteq> i) xs = xs" for i :: u16
  by (rule filter_True) auto

lemma remove_behind_found:
  "increasing id_of xs \<Longrightarrow> x \<in> set xs \<Longrightarrow> remove_behind id_of (id_of x) xs = (filter (\<lambda>y. id_of y \<noteq> id_of x) xs, Some x)"
  by (induction xs) (auto simp: filter_not_id)

lemma list_remove_found:
  assumes "increasing id_of xs" "x \<in> set xs"
  shows "xiny_lwm2m_list_remove id_of xs (id_of x) = (filter (\<lambda>y. id_of y \<noteq> id_of x) xs, Some x)"
  using assms remove_behind_found [of id_of "tl xs" x]
  by (cases xs) (auto simp: xiny_lwm2m_list_remove_def filter_not_id)

lemma insert_behind_set: "set (insert_behind id_of x xs) = insert x (set xs)"
  by (induction xs) auto

lemma insert_behind_increasing:
  "increasing id_of xs \<Longrightarrow> id_of x \<notin> id_of ` set xs \<Longrightarrow> increasing id_of (insert_behind id_of x xs)"
  by (induction xs) (auto simp: insert_behind_set)

lemma list_add_set: "set (xiny_lwm2m_list_add id_of xs x) = insert x (set xs)"
  by (auto simp: xiny_lwm2m_list_add_def insert_behind_set split: list.splits)

lemma list_add_increasing:
  assumes "increasing id_of xs" "id_of x \<notin> id_of ` set xs"
  shows "increasing id_of (xiny_lwm2m_list_add id_of xs x)"
proof (cases xs)
  case (Cons y ys)
  show ?thesis
  proof (cases "id_of x < id_of y")
    case True
    then have "id_of x < id_of z" if "z \<in> set ys" for z
      using assms(1) that unfolding Cons by (metis increasing_simps(2) order.strict_trans)
    then show ?thesis using True assms(1) by (simp add: Cons xiny_lwm2m_list_add_def)
  next
    case False
    then have "id_of y < id_of x" using assms(2) by (metis Cons image_eqI linorder_neqE list.set_intros(1))
    then show ?thesis
      using False assms by (simp add: Cons xiny_lwm2m_list_add_def insert_behind_set insert_behind_increasing)
  qed
qed (simp add: xiny_lwm2m_list_add_def)

section \<open>The list of transactions\<close>

definition transactions_ok :: "transaction list \<Rightarrow> bool" where
  "transactions_ok ts \<longleftrightarrow> increasing mID ts \<and> inj_on node (set ts)"

lemma transactions_ok_filter: "transactions_ok ts \<Longrightarrow> transactions_ok (filter P ts)"
  by (auto simp: transactions_ok_def increasing_filter inj_on_def)

lemma same_node: "transactions_ok ts \<Longrightarrow> x \<in> set ts \<Longrightarrow> y \<in> set ts \<Longrightarrow> node x = node y \<longleftrightarrow> x = y"
  by (auto simp: transactions_ok_def inj_on_def)

lemma same_mID: "transactions_ok ts \<Longrightarrow> x \<in> set ts \<Longrightarrow> y \<in> set ts \<Longrightarrow> mID x = mID y \<longleftrightarrow> x = y"
  by (auto simp: transactions_ok_def dest: increasing_inj)

lemma transaction_remove:
  assumes "transactions_ok ts" "t \<in> set ts" "node t' = node t" "mID t' = mID t"
  shows "xiny_transaction_remove ts t' = Inr (filter (\<lambda>x. node x \<noteq> node t) ts)"
proof -
  have "filter (\<lambda>x. mID x \<noteq> mID t) ts = filter (\<lambda>x. node x \<noteq> node t) ts"
    using assms(1,2) by (intro filter_cong) (simp_all add: same_node same_mID)
  then show ?thesis
    using assms list_remove_found [of mID ts t] by (simp add: xiny_transaction_remove_def transactions_ok_def)
qed

lemma put_transaction_set:
  assumes "transactions_ok ts" "t \<in> set ts" "node t' = node t"
  shows "set (put_transaction t' ts) = insert t' (set ts - {t})"
  using assms by (auto simp: put_transaction_def same_node)

lemma put_transaction_ok:
  assumes "transactions_ok ts" "t \<in> set ts" "node t' = node t" "mID t' = mID t"
  shows "transactions_ok (put_transaction t' ts)"
proof -
  have "mID (if node x = node t' then t' else x) = mID x" if "x \<in> set ts" for x
    using same_node [OF assms(1) that assms(2)] assms(3,4) by auto
  then have "map mID (put_transaction t' ts) = map mID ts"
    by (simp add: put_transaction_def)
  then have "increasing mID (put_transaction t' ts)"
    using assms(1) by (simp add: transactions_ok_def increasing_map)
  moreover have "node t' \<notin> node ` (set ts - {t})"
  proof
    assume "node t' \<in> node ` (set ts - {t})"
    then obtain y where "y \<in> set ts - {t}" "node t' = node y" by (rule imageE)
    then have y: "y \<in> set ts" "y \<noteq> t" "node y = node t'" by simp_all
    then show False using same_node [OF assms(1) y(1) assms(2)] assms(3) by simp
  qed
  then have "inj_on node (insert t' (set ts - {t}))"
    using assms(1) by (auto simp: transactions_ok_def inj_on_insert intro: inj_on_diff)
  ultimately show ?thesis
    by (simp add: transactions_ok_def put_transaction_set [OF assms(1-3)])
qed

section \<open>Events\<close>

definition tx_sends :: "nat \<Rightarrow> event list \<Rightarrow> nat" where
  "tx_sends n es = length (filter (\<lambda>e. case e of TxSent m _ _ \<Rightarrow> m = n | _ \<Rightarrow> False) es)"

definition tx_calls :: "nat \<Rightarrow> event list \<Rightarrow> nat" where
  "tx_calls n es = length (filter (\<lambda>e. case e of TxCallback m _ \<Rightarrow> m = n | _ \<Rightarrow> False) es)"

lemma events_simps [simp]:
  "tx_sends n [] = 0" "tx_sends n (es @ es') = tx_sends n es + tx_sends n es'"
  "tx_sends n (TxSent m p b # es) = (if m = n then 1 else 0) + tx_sends n es"
  "tx_sends n (TxAcked p k # es) = tx_sends n es" "tx_sends n (TxCallback m r # es) = tx_sends n es"
  "tx_calls n [] = 0" "tx_calls n (es @ es') = tx_calls n es + tx_calls n es'"
  "tx_calls n (TxSent m p b # es) = tx_calls n es" "tx_calls n (TxAcked p k # es) = tx_calls n es"
  "tx_calls n (TxCallback m r # es) = (if m = n then 1 else 0) + tx_calls n es"
  by (simp_all add: tx_sends_def tx_calls_def)

text \<open>How often a transaction may still be sent.\<close>

definition sends_left :: "transaction \<Rightarrow> nat" where
  "sends_left t = 6 - max 1 (unat (retrans_counter t))"

text \<open>
  A message that can be sent: the setters made it, Max-Age and Size are below 2^24, and its size is kept in 16 bits.  A
  transaction keeps its message until it is written.
\<close>

definition can_send :: "coap_packet \<Rightarrow> bool" where
  "can_send m \<longleftrightarrow> packet_ok m \<and> unat (max_age m) < 2 ^ 24 \<and> unat (coap_size m) < 2 ^ 24 \<and> xiny_coap_serialize_get_size m < 65536"

definition keeps_message :: "transaction \<Rightarrow> transaction \<Rightarrow> bool" where
  "keeps_message t t' \<longleftrightarrow> (tbuffer t' = None \<longrightarrow> tbuffer t = None \<and> message t' = message t)"

lemma serialize_nonempty: "fst (xiny_coap_serialize_message m) \<noteq> []"
  by (simp add: xiny_coap_serialize_message_def coap_header_def)

lemma get_size_pos: "0 < xiny_coap_serialize_get_size m"
  by (simp add: xiny_coap_serialize_get_size_def COAP_HEADER_LEN_def)

lemma fill_buffer_can_send:
  assumes "tbuffer t = None \<longrightarrow> can_send (message t)"
  shows "fill_buffer alloc t =
    (case tbuffer t of
       Some b \<Rightarrow> Inr (Some t)
     | None \<Rightarrow> Inr (if alloc (xiny_coap_serialize_get_size (message t))
                  then Some (t\<lparr>tbuffer := Some (fst (xiny_coap_serialize_message (message t))),
                                message := snd (xiny_coap_serialize_message (message t))\<rparr>)
                  else None))"
proof (cases "tbuffer t")
  case None
  then have "can_send (message t)" using assms by simp
  then have "length (fst (xiny_coap_serialize_message (message t))) \<le> xiny_coap_serialize_get_size (message t)"
    "xiny_coap_serialize_get_size (message t) < 65536"
    using message_fits [of "message t"] by (simp_all add: can_send_def)
  then show ?thesis
    using None serialize_nonempty [of "message t"] get_size_pos [of "message t"]
    by (simp add: fill_buffer_def Let_def case_prod_beta)
qed (simp add: fill_buffer_def)

text \<open>What one operation does to one transaction: it keeps it, changed, or removes it and may call back.\<close>

definition effect :: "transaction \<Rightarrow> transaction list \<Rightarrow> transaction list \<Rightarrow> event list \<Rightarrow> bool" where
  "effect t ts ts' es \<longleftrightarrow>
     (\<forall>n. n \<noteq> node t \<longrightarrow> tx_sends n es = 0 \<and> tx_calls n es = 0) \<and>
     ((\<exists>t'. ts' = put_transaction t' ts \<and> node t' = node t \<and> mID t' = mID t \<and> keeps_message t t'
         \<and> tx_sends (node t) es + sends_left t' \<le> sends_left t \<and> tx_calls (node t) es = 0)
      \<or> ts' = filter (\<lambda>x. node x \<noteq> node t) ts \<and> tx_sends (node t) es \<le> sends_left t \<and> tx_calls (node t) es \<le> 1)"

lemma effect_keep:
  assumes "node t' = node t" "mID t' = mID t" "keeps_message t t'" "sends_left t' \<le> sends_left t"
    "\<And>n. tx_sends n es = 0" "\<And>n. tx_calls n es = 0"
  shows "effect t ts (put_transaction t' ts) es"
  using assms unfolding effect_def by (metis add_0)

lemma effect_remove:
  assumes "\<And>n. n \<noteq> node t \<Longrightarrow> tx_sends n es = 0 \<and> tx_calls n es = 0" "tx_sends (node t) es \<le> sends_left t" "tx_calls (node t) es \<le> 1"
  shows "effect t ts (filter (\<lambda>x. node x \<noteq> node t) ts) es"
  using assms unfolding effect_def by blast

lemma callback_of_events [simp]:
  "tx_sends n (callback_of t m) = 0" "tx_calls n (callback_of t m) = (if has_callback t \<and> n = node t then 1 else 0)"
  by (auto simp: callback_of_def)

lemma unat_Suc: "unat (c :: u8) \<le> 5 \<Longrightarrow> unat (c + 1) = unat c + 1"
  by (simp add: unat_word_ariths)

lemma retransmit_effect:
  assumes "retransmit now t = (t', stop, es)"
  shows "node t' = node t" "mID t' = mID t" "has_callback t' = has_callback t" "tbuffer t' = tbuffer t" "message t' = message t"
    "n \<noteq> node t \<Longrightarrow> tx_sends n es = 0" "tx_calls n es = 0"
    "tx_sends (node t) es \<le> sends_left t" "\<not> stop \<Longrightarrow> tx_sends (node t) es + sends_left t' \<le> sends_left t"
proof -
  have "1 \<le> unat (retrans_counter t)" if "retrans_counter t \<noteq> 0"
    using that unat_gt_0 [of "retrans_counter t"] by simp
  then show "node t' = node t" "mID t' = mID t" "has_callback t' = has_callback t" "tbuffer t' = tbuffer t" "message t' = message t"
    "n \<noteq> node t \<Longrightarrow> tx_sends n es = 0" "tx_calls n es = 0" "tx_sends (node t) es \<le> sends_left t" "\<not> stop \<Longrightarrow> tx_sends (node t) es + sends_left t' \<le> sends_left t"
    using assms unat_Suc [of "retrans_counter t"]
    by (auto simp: retransmit_def tx_defs Let_def sends_left_def max_def split: if_splits)
qed

section \<open>The operations\<close>

lemma send_effect:
  assumes "transactions_ok ts" "t \<in> set ts" "tbuffer t = None \<longrightarrow> can_send (message t)"
  shows "\<exists>r ts' es. xiny_transaction_send alloc now ts t = Inr (r, ts', es) \<and> effect t ts ts' es"
proof -
  obtain x where fill: "fill_buffer alloc t = Inr x" and x: "x = None \<or> x = Some t \<and> tbuffer t \<noteq> None
      \<or> (\<exists>b m. x = Some (t\<lparr>tbuffer := Some b, message := m\<rparr>))"
    using fill_buffer_can_send [OF assms(3), of alloc]
    by (cases "tbuffer t"; cases "alloc (xiny_coap_serialize_get_size (message t))") auto
  have remove: "xiny_transaction_remove ts y = Inr (filter (\<lambda>x. node x \<noteq> node t) ts)" if "node y = node t" "mID y = mID t" for y
    by (rule transaction_remove [OF assms(1,2) that])
  show ?thesis
  proof (cases x)
    case None
    then show ?thesis
      using fill remove [of t] effect_remove [of t "[]" ts] by (auto simp: xiny_transaction_send_def)
  next
    case (Some t0)
    have t0: "node t0 = node t" "mID t0 = mID t" "tbuffer t0 \<noteq> None" "retrans_counter t0 = retrans_counter t"
      using x Some by auto
    obtain t' stop es where r: "(if ack_received t0 then (t0, False, []) else retransmit now t0) = (t', stop, es)"
      by (metis prod_cases3)
    have t': "node t' = node t" "mID t' = mID t" "tbuffer t' \<noteq> None" "\<And>n. n \<noteq> node t \<Longrightarrow> tx_sends n es = 0" "\<And>n. tx_calls n es = 0"
      "tx_sends (node t) es \<le> sends_left t" "\<not> stop \<Longrightarrow> tx_sends (node t) es + sends_left t' \<le> sends_left t"
      using r t0 retransmit_effect [of now t0 t' stop es] by (auto simp: sends_left_def split: if_splits)
    show ?thesis
    proof (cases "ack_received t' \<or> stop")
      case True
      then have "xiny_transaction_send alloc now ts t = Inr (-1, filter (\<lambda>x. node x \<noteq> node t) ts, es @ callback_of t' None)"
        using fill Some r remove [OF t'(1,2)] by (auto simp: xiny_transaction_send_def)
      moreover have "effect t ts (filter (\<lambda>x. node x \<noteq> node t) ts) (es @ callback_of t' None)"
        by (rule effect_remove) (simp_all add: t')
      ultimately show ?thesis by blast
    next
      case keep: False
      then have "xiny_transaction_send alloc now ts t = Inr (0, put_transaction t' ts, es)"
        using fill Some r by (auto simp: xiny_transaction_send_def)
      moreover have "keeps_message t t'" using t'(3) by (auto simp: keeps_message_def)
      then have "effect t ts (put_transaction t' ts) es"
        using t'(1,2,4-7) keep unfolding effect_def by blast
      ultimately show ?thesis by blast
    qed
  qed
qed

lemma handle_one_effect:
  assumes "transactions_ok ts" "t \<in> set ts"
  shows "handle_one now peer m response t ts = Inr None
    \<or> (\<exists>ts' es. handle_one now peer m response t ts = Inr (Some (ts', es)) \<and> effect t ts ts' es)"
proof (cases "peer = peerH t")
  case True
  define found where
    "found \<longleftrightarrow> \<not> ack_received t \<and> (coap_type m = COAP_TYPE_ACK \<or> coap_type m = COAP_TYPE_RST) \<and> mID t = coap_mid m"
  define reset where "reset \<longleftrightarrow> found \<and> coap_type m = COAP_TYPE_RST"
  define t' where "t' = (if found then t\<lparr>ack_received := True\<rparr> else t)"
  have t': "node t' = node t" "mID t' = mID t" "retrans_counter t' = retrans_counter t" "tbuffer t' = tbuffer t"
      "message t' = message t"
    by (simp_all add: t'_def)
  have remove: "xiny_transaction_remove ts t' = Inr (filter (\<lambda>x. node x \<noteq> node t) ts)"
    by (rule transaction_remove [OF assms t'(1,2)])
  have put: "effect t ts (put_transaction x ts) es"
    if "node x = node t'" "mID x = mID t'" "retrans_counter x = retrans_counter t'" "tbuffer x = tbuffer t'"
      "message x = message t'" "\<And>n. tx_sends n es = 0 \<and> tx_calls n es = 0" for x es
    by (rule effect_keep) (use that t' in \<open>simp_all add: sends_left_def keeps_message_def\<close>)
  have drop: "effect t ts (filter (\<lambda>x. node x \<noteq> node t) ts) (acked @ callback_of t' r)"
    if "\<And>n. tx_sends n acked = 0 \<and> tx_calls n acked = 0" for acked r
    by (rule effect_remove) (use that t' in simp_all)
  define acked where "acked = (if \<not> reset \<and> coap_type m = COAP_TYPE_CON \<and> response
      then [TxAcked peer (xiny_coap_init_message COAP_TYPE_ACK 0 (coap_mid m))] else [])"
  have acked: "tx_sends n acked = 0 \<and> tx_calls n acked = 0" for n by (simp add: acked_def)
  define again where "again = t'\<lparr>ack_received := False, retrans_time := retrans_time t' + COAP_RESPONSE_TIMEOUT\<rparr>"
  define later where "later = t'\<lparr>retrans_time := (if 0 \<le> now then now else retrans_time t')
      + (if response_timeout t' \<noteq> 0 then response_timeout t' else COAP_RESPONSE_TIMEOUT * int (unat (retrans_counter t')))\<rparr>"
  have "handle_one now peer m response t ts =
    (if reset \<or> prv_checkFinished t' m
     then if \<not> reset \<and> coap_code m = COAP_401_UNAUTHORIZED \<and> unat (retrans_counter t') < COAP_MAX_RETRANSMIT
          then Inr (Some (put_transaction again ts, acked))
          else bind_res (xiny_transaction_remove ts t') (\<lambda>ts. Inr (Some (ts, acked @ callback_of t' (Some m))))
     else if found then Inr (Some (put_transaction later ts, [])) else Inr None)"
    using True unfolding handle_one_def Let_def again_def later_def acked_def t'_def reset_def found_def
    by (simp only: refl if_False simp_thms)
  moreover have "effect t ts (put_transaction again ts) acked" "effect t ts (put_transaction later ts) []"
    by (rule put; simp add: again_def later_def acked)+
  ultimately show ?thesis
    using drop [OF acked, of "Some m"] by (simp add: remove)
qed (simp add: handle_one_def)

section \<open>The machine\<close>

type_synonym transactions = "transaction list \<times> event list"

text \<open>
  The caller of \<open>xiny_transaction_new\<close> chooses the callback and the timeout, sets more of the message, which becomes \<open>m\<close>,
  and adds the transaction to the list.
  The address is one that no transaction had before, and the message identifier is not in use.
\<close>

inductive tx_step :: "(nat \<Rightarrow> bool) \<Rightarrow> transactions \<Rightarrow> transactions \<Rightarrow> bool" for alloc where
  create: "xiny_transaction_new junk now n peer meth altPath uriP mid token_len token = Inr (Some t) \<Longrightarrow>
    n \<notin> node ` set ts \<Longrightarrow> tx_sends n es = 0 \<Longrightarrow> tx_calls n es = 0 \<Longrightarrow> mid \<notin> mID ` set ts \<Longrightarrow> can_send m \<Longrightarrow>
    tx_step alloc (ts, es)
      (xiny_lwm2m_list_add mID ts (t\<lparr>message := m, has_callback := callback, response_timeout := timeout\<rparr>), es)"
| send: "t \<in> set ts \<Longrightarrow> xiny_transaction_send alloc now ts t = Inr (r, ts', es') \<Longrightarrow> tx_step alloc (ts, es) (ts', es @ es')"
| respond: "xiny_transaction_handleResponse now peer m response ts = Inr (r, ts', es') \<Longrightarrow>
    tx_step alloc (ts, es) (ts', es @ es')"
| step: "xiny_transaction_step alloc now currentTime timeout ts = Inr (r, ts', es') \<Longrightarrow>
    tx_step alloc (ts, es) (ts', es @ es')"

inductive_cases tx_stepE: "tx_step alloc s s'"

definition tx_inv :: "transactions \<Rightarrow> bool" where
  "tx_inv s \<longleftrightarrow>
     transactions_ok (fst s)
     \<and> (\<forall>t \<in> set (fst s). tx_sends (node t) (snd s) + sends_left t \<le> 5 \<and> tx_calls (node t) (snd s) = 0
           \<and> (tbuffer t = None \<longrightarrow> can_send (message t)))
     \<and> (\<forall>n. tx_sends n (snd s) \<le> 5 \<and> tx_calls n (snd s) \<le> 1)"

lemma tx_inv_effect:
  assumes "tx_inv (ts, es)" "t \<in> set ts" "effect t ts ts' es'"
  shows "tx_inv (ts', es @ es')" "set ts - {t} \<subseteq> set ts'"
proof -
  have ok: "transactions_ok ts" and t: "tx_sends (node t) es + sends_left t \<le> 5" "tx_calls (node t) es = 0"
      "tbuffer t = None \<longrightarrow> can_send (message t)"
    and others: "\<And>x. x \<in> set ts \<Longrightarrow> tx_sends (node x) es + sends_left x \<le> 5 \<and> tx_calls (node x) es = 0
      \<and> (tbuffer x = None \<longrightarrow> can_send (message x))"
    and all: "\<And>n. tx_sends n es \<le> 5 \<and> tx_calls n es \<le> 1"
    using assms(1,2) by (simp_all add: tx_inv_def)
  have quiet: "n \<noteq> node t \<Longrightarrow> tx_sends n es' = 0 \<and> tx_calls n es' = 0" for n
    using assms(3) by (simp add: effect_def)
  have n: "node x \<noteq> node t" if "x \<in> set ts" "x \<noteq> t" for x
    using same_node [OF ok that(1) assms(2)] that(2) by simp
  have "tx_inv (ts', es @ es') \<and> set ts - {t} \<subseteq> set ts'"
    using assms(3) unfolding effect_def
  proof (elim conjE disjE exE)
    fix t' assume t': "ts' = put_transaction t' ts" "node t' = node t" "mID t' = mID t" "keeps_message t t'"
      "tx_sends (node t) es' + sends_left t' \<le> sends_left t" "tx_calls (node t) es' = 0"
    have "set ts' = insert t' (set ts - {t})" "transactions_ok ts'"
      using t' put_transaction_set [OF ok assms(2)] put_transaction_ok [OF ok assms(2)] by simp_all
    moreover have "tx_sends m (es @ es') \<le> 5 \<and> tx_calls m (es @ es') \<le> 1" for m
      using all [of m] quiet [of m] t t' by (cases "m = node t") auto
    moreover have "tbuffer t' = None \<longrightarrow> can_send (message t')" using t(3) t'(4) by (auto simp: keeps_message_def)
    ultimately show ?thesis
      using t t' others quiet n by (auto simp: tx_inv_def)
  next
    assume f: "ts' = filter (\<lambda>x. node x \<noteq> node t) ts" "tx_sends (node t) es' \<le> sends_left t" "tx_calls (node t) es' \<le> 1"
    have "tx_sends m (es @ es') \<le> 5 \<and> tx_calls m (es @ es') \<le> 1" for m
      using all [of m] quiet [of m] t f by (cases "m = node t") auto
    then show ?thesis
      using f ok others quiet n by (auto simp: tx_inv_def transactions_ok_filter)
  qed
  then show "tx_inv (ts', es @ es')" "set ts - {t} \<subseteq> set ts'" by blast+
qed

lemma tx_inv_ok: "tx_inv (ts, es) \<Longrightarrow> transactions_ok ts"
  by (simp add: tx_inv_def)

lemma tx_inv_send:
  assumes "tx_inv (ts, es)" "t \<in> set ts"
  shows "\<exists>r ts' es'. xiny_transaction_send alloc now ts t = Inr (r, ts', es') \<and> tx_inv (ts', es @ es') \<and> set ts - {t} \<subseteq> set ts'"
proof -
  have "tbuffer t = None \<longrightarrow> can_send (message t)" using assms by (simp add: tx_inv_def)
  then show ?thesis
    using send_effect [OF tx_inv_ok [OF assms(1)] assms(2)] tx_inv_effect [OF assms] by metis
qed

lemma tx_inv_handle:
  assumes "tx_inv (ts, es)" "set rest \<subseteq> set ts"
  shows "\<exists>r ts' es'. handle_from now peer m response ts rest = Inr (r, ts', es') \<and> tx_inv (ts', es @ es')"
  using assms(2)
proof (induction rest)
  case Nil
  then show ?case using assms(1) by auto
next
  case (Cons t rest)
  then have t: "t \<in> set ts" by simp
  show ?case
    using handle_one_effect [OF tx_inv_ok [OF assms(1)] t, of now peer m response] tx_inv_effect(1) [OF assms(1) t] Cons
    by fastforce
qed

lemma tx_inv_time:
  assumes "tx_inv (ts, es)" "set rest \<subseteq> set ts" "distinct rest"
  shows "\<exists>r ts' es'. step_from alloc now currentTime timeout ts rest = Inr (r, ts', es') \<and> tx_inv (ts', es @ es')"
  using assms
proof (induction rest arbitrary: ts es timeout)
  case (Cons t rest)
  have "\<exists>r ts' es'. (if retrans_time t \<le> currentTime then xiny_transaction_send alloc now ts t else Inr (0, ts, [])) = Inr (r, ts', es')
      \<and> tx_inv (ts', es @ es') \<and> set ts - {t} \<subseteq> set ts'"
    using tx_inv_send [OF Cons.prems(1), of t alloc now] Cons.prems by auto
  then obtain r ts1 es1 where r:
    "(if retrans_time t \<le> currentTime then xiny_transaction_send alloc now ts t else Inr (0, ts, [])) = Inr (r, ts1, es1)"
    and inv: "tx_inv (ts1, es @ es1)" and sub: "set ts - {t} \<subseteq> set ts1" by blast
  have "set rest \<subseteq> set ts1" "distinct rest" using sub Cons.prems by auto
  let ?time = "case find (\<lambda>x. node x = node t) ts1 of None \<Rightarrow> 0 | Some t \<Rightarrow> retrans_time t"
  let ?timeout = "if r = 0 then min timeout (if currentTime < ?time then ?time - currentTime else 1) else 1"
  obtain r2 ts2 es2 where "step_from alloc now currentTime ?timeout ts1 rest = Inr (r2, ts2, es2)"
    and inv2: "tx_inv (ts2, (es @ es1) @ es2)"
    using Cons.IH [OF inv \<open>set rest \<subseteq> set ts1\<close> \<open>distinct rest\<close>, of ?timeout] by blast
  then have "step_from alloc now currentTime timeout ts (t # rest) = Inr (r2, ts2, es1 @ es2)"
    by (simp add: r Let_def)
  then show ?case using inv2 by auto
qed auto

lemma increasing_distinct_list: "increasing id_of xs \<Longrightarrow> distinct xs"
  using increasing_distinct by (auto simp: distinct_map)

lemma new_transaction:
  "xiny_transaction_new junk now n peer meth altPath uriP mid token_len token = Inr (Some t) \<Longrightarrow>
   node t = n \<and> mID t = mid \<and> retrans_counter t = 0"
  by (auto simp: xiny_transaction_new_def bind_some_eq_Some Let_def split: option.splits)

lemma tx_inv_step: "tx_step alloc s s' \<Longrightarrow> tx_inv s \<Longrightarrow> tx_inv s'"
proof (induction rule: tx_step.induct)
  case (create junk now n peer meth altPath uriP mid token_len token t ts es m callback timeout)
  have "node t = n" "mID t = mid" "retrans_counter t = 0" using new_transaction [OF create(1)] by simp_all
  then show ?case
    using create by (auto simp: tx_inv_def transactions_ok_def list_add_set sends_left_def intro!: list_add_increasing)
next
  case (send t ts now r ts' es' es)
  then show ?case using tx_inv_send [of ts es t alloc now] by auto
next
  case (respond now peer m response ts r ts' es' es)
  then show ?case using tx_inv_handle [of ts es ts now peer m response] by (auto simp: xiny_transaction_handleResponse_def)
next
  case (step now currentTime timeout ts r ts' es' es)
  then show ?case
    using tx_inv_time [of ts es ts alloc now currentTime timeout] increasing_distinct_list [of mID ts]
    by (auto simp: xiny_transaction_step_def tx_inv_def transactions_ok_def)
qed

lemma tx_inv_reachable: "(tx_step alloc)\<^sup>*\<^sup>* ([], []) s \<Longrightarrow> tx_inv s"
  by (induction rule: rtranclp_induct) (simp add: tx_inv_def transactions_ok_def, rule tx_inv_step)

section \<open>Without an answer\<close>

text \<open>A step every second, \<open>n\<close> times; each event comes with its time.\<close>

fun seconds ::
    "(nat \<Rightarrow> bool) \<Rightarrow> int \<Rightarrow> nat \<Rightarrow> transaction list \<Rightarrow> (transaction list \<times> (int \<times> event) list) res" where
  "seconds alloc now 0 ts = Inr (ts, [])"
| "seconds alloc now (Suc n) ts =
     bind_res (xiny_transaction_step alloc now now 60 ts) (\<lambda>(_, ts, es).
     bind_res (seconds alloc (now + 1) n ts) (\<lambda>(ts, es'). Inr (ts, map (Pair now) es @ es')))"

lemma seconds_add:
  "seconds alloc now m ts = Inr (ts', es) \<Longrightarrow> seconds alloc (now + int m) n ts' = Inr (ts'', es') \<Longrightarrow>
   seconds alloc now (m + n) ts = Inr (ts'', es @ es')"
proof (induction m arbitrary: now ts es)
  case (Suc m)
  from Suc.prems(1) obtain r ts1 es1 es2 where step: "xiny_transaction_step alloc now now 60 ts = Inr (r, ts1, es1)"
    and rest: "seconds alloc (now + 1) m ts1 = Inr (ts', es2)" and es: "es = map (Pair now) es1 @ es2"
    by (auto simp: bind_res_eq_Inr)
  have "seconds alloc (now + 1) (m + n) ts1 = Inr (ts'', es2 @ es')"
    using Suc.IH [OF rest] Suc.prems(2) by (simp add: algebra_simps)
  then show ?case using step es by simp
qed simp

lemma seconds_idle:
  "now + int n \<le> retrans_time t \<Longrightarrow> seconds alloc now n [t] = Inr ([t], [])"
  by (induction n arbitrary: now) (simp_all add: xiny_transaction_step_def)

text \<open>A transaction that was sent \<open>c\<close> times.\<close>

definition sent_times :: "transaction \<Rightarrow> u8 list \<Rightarrow> nat \<Rightarrow> int \<Rightarrow> transaction" where
  "sent_times t b c time = t\<lparr>tbuffer := Some b, message := snd (xiny_coap_serialize_message (message t)), retrans_counter := of_nat (c + 1), retrans_time := time\<rparr>"

lemma first_seconds:
  assumes "0 \<le> now" "retrans_time t \<le> now" "retrans_counter t = 0" "\<not> ack_received t" "tbuffer t = None" "can_send (message t)"
    "alloc (xiny_coap_serialize_get_size (message t))" "b = fst (xiny_coap_serialize_message (message t))"
  shows "seconds alloc now 2 [t] = Inr ([sent_times t b 1 (now + 2)], [(now, TxSent (node t) (peerH t) b)])"
proof -
  have "xiny_transaction_step alloc now now 60 [t] =
      Inr (2, [sent_times t b 1 (now + 2)], [TxSent (node t) (peerH t) b])"
    using assms by (simp add: xiny_transaction_step_def xiny_transaction_send_def fill_buffer_can_send retransmit_def Let_def tx_defs put_transaction_def
        sent_times_def)
  then have "seconds alloc now 1 [t] = Inr ([sent_times t b 1 (now + 2)], [(now, TxSent (node t) (peerH t) b)])" by simp
  from seconds_add [OF this seconds_idle [of "now + int 1" 1]] show ?thesis
    by (simp add: sent_times_def numeral_2_eq_2)
qed

lemma next_seconds:
  assumes "\<not> ack_received t" "1 \<le> c" "c \<le> 4"
  shows "seconds alloc now (2 * 2 ^ c) [sent_times t b c now] =
    Inr ([sent_times t b (c + 1) (now + 2 * 2 ^ c)], [(now, TxSent (node t) (peerH t) b)])"
proof -
  have c: "c = 1 \<or> c = 2 \<or> c = 3 \<or> c = 4" using assms(2,3) by arith
  have "\<exists>r. xiny_transaction_step alloc now now 60 [sent_times t b c now] =
      Inr (r, [sent_times t b (c + 1) (now + 2 * 2 ^ c)], [TxSent (node t) (peerH t) b])"
    using assms(1) c
    by (auto simp: xiny_transaction_step_def xiny_transaction_send_def fill_buffer_def retransmit_def Let_def tx_defs put_transaction_def
        sent_times_def)
  then have first: "seconds alloc now 1 [sent_times t b c now] =
      Inr ([sent_times t b (c + 1) (now + 2 * 2 ^ c)], [(now, TxSent (node t) (peerH t) b)])" by auto
  have "2 * 2 ^ c = 1 + (2 * 2 ^ c - 1 :: nat)" by simp
  moreover have "int (2 * 2 ^ c - 1) = 2 * 2 ^ c - 1" by (simp add: of_nat_diff)
  ultimately show ?thesis
    using seconds_add [OF first seconds_idle [of "now + int 1" "2 * 2 ^ c - 1"]] by (simp add: sent_times_def)
qed

lemma next_seconds_at:
  assumes "\<not> ack_received t" "1 \<le> c" "c \<le> 4" "n = 2 * 2 ^ c" "time = now" "d = c + 1" "time' = now + int n"
    "sent = (now, TxSent (node t) (peerH t) b)"
  shows "seconds alloc now n [sent_times t b c time] = Inr ([sent_times t b d time'], [sent])"
  using next_seconds [OF assms(1-3)] assms(4-8) by (simp del: seconds.simps)

lemma last_second:
  assumes "\<not> ack_received t" "has_callback t"
  shows "seconds alloc now 1 [sent_times t b 5 now] = Inr ([], [(now, TxCallback (node t) None)])"
  using assms
  by (simp add: xiny_transaction_step_def xiny_transaction_send_def fill_buffer_def retransmit_def Let_def tx_defs sent_times_def
      xiny_transaction_remove_def xiny_lwm2m_list_remove_def callback_of_def)

lemma unanswered_seconds:
  assumes "0 \<le> now" "retrans_time t \<le> now" "retrans_counter t = 0" "\<not> ack_received t" "tbuffer t = None" "can_send (message t)"
    "alloc (xiny_coap_serialize_get_size (message t))" "b = fst (xiny_coap_serialize_message (message t))"
    and "has_callback t"
  shows "seconds alloc now 63 [t] =
    Inr ([], map (\<lambda>k. (now + k, TxSent (node t) (peerH t) b)) [0, 2, 6, 14, 30] @ [(now + 62, TxCallback (node t) None)])"
proof -
  let ?s = "\<lambda>k. (now + k, TxSent (node t) (peerH t) b)"
  have 1: "seconds alloc now 2 [t] = Inr ([sent_times t b 1 (now + 2)], [?s 0])"
    using first_seconds [of now t alloc b] assms by simp
  have 2: "seconds alloc now (2 + 4) [t] = Inr ([sent_times t b 2 (now + 6)], [?s 0] @ [?s 2])"
    by (rule seconds_add [OF 1 next_seconds_at [OF assms(4)]]) simp_all
  have 3: "seconds alloc now (2 + 4 + 8) [t] = Inr ([sent_times t b 3 (now + 14)], ([?s 0] @ [?s 2]) @ [?s 6])"
    by (rule seconds_add [OF 2 next_seconds_at [OF assms(4)]]) simp_all
  have 4: "seconds alloc now (2 + 4 + 8 + 16) [t] = Inr ([sent_times t b 4 (now + 30)], (([?s 0] @ [?s 2]) @ [?s 6]) @ [?s 14])"
    by (rule seconds_add [OF 3 next_seconds_at [OF assms(4)]]) simp_all
  have 5: "seconds alloc now (2 + 4 + 8 + 16 + 32) [t] =
      Inr ([sent_times t b 5 (now + 62)], ((([?s 0] @ [?s 2]) @ [?s 6]) @ [?s 14]) @ [?s 30])"
    by (rule seconds_add [OF 4 next_seconds_at [OF assms(4)]]) simp_all
  have "seconds alloc now (2 + 4 + 8 + 16 + 32 + 1) [t] =
      Inr ([], (((([?s 0] @ [?s 2]) @ [?s 6]) @ [?s 14]) @ [?s 30]) @ [(now + 62, TxCallback (node t) None)])"
    by (rule seconds_add [OF 5]) (use last_second [OF assms(4,9), of alloc "now + 62" b] in \<open>simp del: seconds.simps\<close>)
  then show ?thesis by (simp del: seconds.simps)
qed

section \<open>The path of a request\<close>

lemma id_segment_digits: "id_segment i p = Inr (Some (xiny_coap_set_header_uri_path_segment (Some (dec_digits (unat i))) p))"
proof -
  have n: "unat (ucast i :: u64) = unat i"
    by (simp add: unsigned_ucast_eq take_bit_nat_eq_self less_trans [OF unat_u16_less])
  have "xiny_utils_intToText (ucast i) 6 = Inr (dec_digits (unat i))"
    using int_to_text [of "ucast i" 6] length_id_digits [of i] unat_u16_less [of i] by (simp only: n) simp
  then show ?thesis
    using length_id_digits [of i]
    by (simp add: id_segment_def LWM2M_STRING_ID_MAX_LEN_def)
qed

lemma segment_path: "length s < 256 \<Longrightarrow>
    coap_uri_path (xiny_coap_set_header_uri_path_segment (Some s) p) = coap_uri_path p @ [s]"
  "coap_uri_path (xiny_coap_set_header_uri_path_segment None p) = coap_uri_path p @ [[]]"
  by (simp_all add: xiny_coap_set_header_uri_path_segment_def xiny_coap_add_multi_option_def)

lemma id_digits_short: "length (dec_digits (unat (i :: u16))) < 256"
  using length_id_digits [of i] by simp

text \<open>What making a request keeps of the message.\<close>

definition request_of :: "coap_packet \<Rightarrow> coap_packet \<Rightarrow> bool" where
  "request_of p q \<longleftrightarrow> prepared q \<and> coap_type q = coap_type p \<and> coap_code q = coap_code p \<and> coap_mid q = coap_mid p
     \<and> coap_payload q = coap_payload p \<and> max_age q = max_age p \<and> coap_size q = coap_size p"

lemma request_of_segment: "request_of p q \<Longrightarrow> request_of p (xiny_coap_set_header_uri_path_segment s q)"
  by (simp add: request_of_def prepared.segment) (simp add: xiny_coap_set_header_uri_path_segment_def)

lemma uri_path_of_segments:
  assumes "proper_uri u" "request_of p q"
  shows "\<exists>r. uri_path_of u q = Inr (Some r) \<and> request_of p r \<and> coap_uri_path r = coap_uri_path q @ uri_segments u
    \<and> coap_token r = coap_token q"
  using assms(1)
proof (cases rule: proper_uri_cases)
qed (auto simp: uri_path_of_def id_segment_digits uri_segments_def uri_ids_def segment_path id_digits_short
    intro!: request_of_segment assms(2), simp_all add: xiny_coap_set_header_uri_path_segment_def)

text \<open>The token is one that the caller gives, or a generated one, of at most eight bytes.\<close>

definition token_ok :: "u8 list \<Rightarrow> nat \<Rightarrow> u8 list option \<Rightarrow> bool" where
  "token_ok junk n token \<longleftrightarrow> n \<le> (case token of Some t \<Rightarrow> length t | None \<Rightarrow> 6 + length junk)"

lemma request_of_token:
  assumes "request_of p q" "token_ok junk n token"
  shows "request_of p (token_of junk now mid n token q)" "coap_uri_path (token_of junk now mid n token q) = coap_uri_path q"
    "n = 0 \<Longrightarrow> token_of junk now mid n token q = q"
    "0 < n \<Longrightarrow> n \<le> 8 \<Longrightarrow> length (coap_token (token_of junk now mid n token q)) = n"
proof -
  have "prepared (token_of junk now mid n token q)"
    using assms by (auto simp: token_of_def request_of_def token_ok_def split: option.splits intro!: prepared.token)
  then show "request_of p (token_of junk now mid n token q)"
    using assms(1) by (simp add: request_of_def token_of_def xiny_coap_set_header_token_def split: option.split)
  show "coap_uri_path (token_of junk now mid n token q) = coap_uri_path q" "n = 0 \<Longrightarrow> token_of junk now mid n token q = q"
    by (simp_all add: token_of_def xiny_coap_set_header_token_def split: option.split)
  show "0 < n \<Longrightarrow> n \<le> 8 \<Longrightarrow> length (coap_token (token_of junk now mid n token q)) = n"
    using assms(2)
    by (auto simp: token_of_def xiny_coap_set_header_token_def token_ok_def COAP_TOKEN_LEN_def split: option.splits)
qed

lemma new_request:
  assumes "proper_uri u" "token_ok junk n token"
  shows "\<exists>t. xiny_transaction_new junk now addr (Some peer) meth None (Some u) mid n token = Inr (Some t)
    \<and> request_of (xiny_coap_init_message COAP_TYPE_CON meth mid) (message t)
    \<and> coap_uri_path (message t) = uri_segments u \<and> tbuffer t = None"
proof -
  let ?p = "xiny_coap_init_message COAP_TYPE_CON meth mid"
  have "request_of ?p ?p" by (simp add: request_of_def prepared.init)
  from uri_path_of_segments [OF assms(1) this] obtain r where
    r: "uri_path_of u ?p = Inr (Some r)" "request_of ?p r" "coap_uri_path r = coap_uri_path ?p @ uri_segments u" by blast
  then show ?thesis
    using request_of_token(1,2) [OF r(2) assms(2), of now mid]
    by (simp add: xiny_transaction_new_def Let_def) (simp add: xiny_coap_init_message_def packet_zero_def)
qed

text \<open>What is written for it is read as the request.\<close>

lemma request_received:
  assumes "request_of (xiny_coap_init_message COAP_TYPE_CON meth mid) m" "coap_uri_path m = uri_segments u" "proper_uri u"
  defines "bytes \<equiv> fst (xiny_coap_serialize_message m)"
  shows "\<exists>p. xiny_coap_parse_message bytes (length bytes) = Inr (COAP_NO_ERROR, None, p)
      \<and> coap_type p = COAP_TYPE_CON \<and> coap_code p = meth \<and> coap_mid p = mid \<and> coap_token p = coap_token m
      \<and> xiny_uri_decode_lwm2m None (coap_uri_path p) = Inr (Some u)"
    "length bytes \<le> xiny_coap_serialize_get_size m"
proof -
  have ok: "packet_ok m" using assms(1) by (simp add: request_of_def prepared_ok)
  have f: "coap_type m = COAP_TYPE_CON" "coap_code m = meth" "coap_mid m = mid" "max_age m = 0" "coap_size m = 0"
    using assms(1) by (simp_all add: request_of_def) (simp_all add: xiny_coap_init_message_def packet_zero_def)
  show "\<exists>p. xiny_coap_parse_message bytes (length bytes) = Inr (COAP_NO_ERROR, None, p)
      \<and> coap_type p = COAP_TYPE_CON \<and> coap_code p = meth \<and> coap_mid p = mid \<and> coap_token p = coap_token m
      \<and> xiny_uri_decode_lwm2m None (coap_uri_path p) = Inr (Some u)"
    using message_roundtrip [OF ok] decode_segments [OF assms(3)] assms(2) f unfolding bytes_def
    by (simp add: as_received_def)
  show "length bytes \<le> xiny_coap_serialize_get_size m"
    unfolding bytes_def using message_fits [OF ok] f by simp
qed

end
