(* ===== verification/Lwm2mProps.thy ===== *)
theory Lwm2mProps
  imports TransactionSpec DmSpec
begin

text \<open>
  The properties of the LwM2M engine, each with a witness: resource data as TLV, paths as text and as segments,
  transactions, numbers and base64.
\<close>

section \<open>TLV\<close>


definition device_data :: "lwm2m_data list" where
  "device_data =
     [LwData LWM2M_TYPE_STRING 0 (AsBuffer (map of_char ''XINYI'')),
      LwData LWM2M_TYPE_MULTIPLE_RESOURCE 7
        (AsChildren [LwData LWM2M_TYPE_INTEGER 0 (AsInteger 3800), LwData LWM2M_TYPE_INTEGER 1 (AsInteger (- 1))]),
      LwData LWM2M_TYPE_BOOLEAN 300 (AsBoolean True), LwData LWM2M_TYPE_OBJECT_LINK 12 (AsObjLink 3 0)]"

lemma device_data_sendable: "list_all (sendable False) device_data"
  by (simp add: device_data_def tlv.simps length_tlv_of prv_getHeaderLength_def prv_encodeInt_def Let_def xiny_utils_copyValue_def)


lemma parse_writable:
  "list_all writable read \<Longrightarrow> list_all writable (xiny_tlv_parse buffer read)"
proof (induction buffer read rule: xiny_tlv_parse.induct)
  case (1 buffer read)
  then show ?case
    by (subst xiny_tlv_parse.simps) (auto simp: Let_def split: option.splits list.splits)
qed

text \<open>C27: Typed data, where the member of the union is the one the type names, is written without reading another member
  and without a write outside the allocated buffer: the result is -1 exactly when an object or an undefined value is
  among the data, otherwise the length of the buffer.  Whatever bytes are parsed, the data is typed and can be
  written again.\<close>

theorem tlv_typed:
  assumes "\<And>n. length (junk n) = n" "list_all well_typed ds"
  shows "(case xiny_tlv_serialize_lwm2m junk inst ds of
        Inl _ \<Rightarrow> False
      | Inr (len, buffer) \<Rightarrow> len = (if list_all writable ds then int (length buffer) else -1))
    \<and> list_all well_typed (xiny_tlv_parse_lwm2m bytes) \<and> list_all writable (xiny_tlv_parse_lwm2m bytes)"
proof -
  obtain n where "list_ok junk ds n" using list_ok_well_typed [OF assms] by blast
  then have "case xiny_tlv_serialize_lwm2m junk inst ds of
      Inl _ \<Rightarrow> False
    | Inr (len, buffer) \<Rightarrow> len = (if list_all writable ds then int (length buffer) else -1)"
    using serialize_ok [OF assms(1), of ds n inst] by (auto simp: xiny_tlv_serialize_lwm2m_def)
  then show ?thesis by (simp add: xiny_tlv_parse_lwm2m_def parse_typed parse_writable)
qed

definition mixed_data :: "lwm2m_data list" where
  "mixed_data =
     [LwData LWM2M_TYPE_OBJECT_INSTANCE 1 (AsChildren []),
      LwData LWM2M_TYPE_OBJECT_INSTANCE 2 (AsChildren [LwData LWM2M_TYPE_UNDEFINED 3 (AsInteger 5)])]"

lemma tlv_typed_witness:
  "(\<forall>n. length (replicate n (0xCC :: u8)) = n) \<and> list_all well_typed mixed_data \<and> \<not> list_all writable mixed_data
   \<and> (case xiny_tlv_serialize_lwm2m (\<lambda>n. replicate n 0xCC) False mixed_data of
        Inl _ \<Rightarrow> False
      | Inr (len, buffer) \<Rightarrow> len = (if list_all writable mixed_data then int (length buffer) else -1))
   \<and> list_all well_typed (xiny_tlv_parse_lwm2m [0xC1, 0, 7]) \<and> list_all writable (xiny_tlv_parse_lwm2m [0xC1, 0, 7])"
proof -
  have "list_all well_typed mixed_data" "\<not> list_all writable mixed_data" by (simp_all add: mixed_data_def)
  then show ?thesis using tlv_typed [of "\<lambda>n. replicate n 0xCC" mixed_data False "[0xC1, 0, 7]"] by simp
qed

text \<open>An integer resource that is written as TLV, parsed and decoded is the integer again, for every 64-bit value:
  the length of 1, 2, 4 or 8 bytes that \<open>prv_encodeInt\<close> chooses, the order of the bytes and the sign fit together with
  \<open>xiny_lwm2m_data_decode_int\<close>.\<close>

lemma integer_resource_roundtrip:
  assumes "\<And>n. length (junk n) = n"
  shows "case xiny_tlv_serialize_lwm2m junk inst [xiny_lwm2m_data_encode_int x (LwData LWM2M_TYPE_UNDEFINED i v)] of
      Inl _ \<Rightarrow> False
    | Inr (len, bytes) \<Rightarrow> map xiny_lwm2m_data_decode_int (xiny_tlv_parse_lwm2m bytes) = [Inr (Some x)]"
proof -
  let ?d = "LwData LWM2M_TYPE_INTEGER i (AsInteger x)"
  have "xiny_tlv_serialize junk inst [?d] = Inr (int (length (tlvs inst [?d])), tlvs inst [?d])"
    using serialize_sendable [of junk inst "[?d]"] assms by simp
  then show ?thesis
    using parse_sendable [of inst "[?d]"] decode_encoded_int [of i x]
    by (simp add: xiny_lwm2m_data_encode_int_def xiny_tlv_serialize_lwm2m_def xiny_tlv_parse_lwm2m_def del: tlvs_simps)
qed

lemma integer_resource_roundtrip_witness:
  "(\<forall>n. length (replicate n (0 :: u8)) = n)
   \<and> (case xiny_tlv_serialize_lwm2m (\<lambda>n. replicate n 0) False
          [xiny_lwm2m_data_encode_int (- 40000) (LwData LWM2M_TYPE_UNDEFINED 5700 (AsBuffer []))] of
        Inl _ \<Rightarrow> False
      | Inr (len, bytes) \<Rightarrow> map xiny_lwm2m_data_decode_int (xiny_tlv_parse_lwm2m bytes) = [Inr (Some (- 40000))])"
  using integer_resource_roundtrip [where junk = "\<lambda>n. replicate n 0" and inst = False and x = "- 40000" and i = 5700] by simp

lemma writes_empty_instance: "writes_item junk False (LwData LWM2M_TYPE_OBJECT_INSTANCE i (AsChildren []))"
  by (simp add: writes_item_def tlv_children put_tlv_eq xiny_tlv_serialize.simps prv_getLength_def)

lemma item_length_empty:
  "item_length (LwData LWM2M_TYPE_OBJECT_INSTANCE i (AsChildren [])) =
   Inr (int (length (tlv False (LwData LWM2M_TYPE_OBJECT_INSTANCE i (AsChildren [])))))"
  by (simp add: tlv_children length_tlv_of)

text \<open>An instance without resources is written as a header without data, and makes the parser return nothing at
  all: everything that was read before it and comes behind it is lost.\<close>

lemma empty_instance_loses_all:
  assumes "\<And>n. length (junk n) = n" "list_all (sendable False) ds"
  shows "case xiny_tlv_serialize_lwm2m junk False (ds @ [LwData LWM2M_TYPE_OBJECT_INSTANCE i (AsChildren [])]) of
      Inl _ \<Rightarrow> False
    | Inr (len, bytes) \<Rightarrow> 0 < len \<and> len = int (length bytes) \<and> xiny_tlv_parse_lwm2m (bytes @ rest) = []"
proof -
  let ?e = "LwData LWM2M_TYPE_OBJECT_INSTANCE i (AsChildren [])"
  let ?ds = "ds @ [?e]"
  have len: "length_loop 0 ?ds = Inr (int (length (tlvs False ?ds)))"
    using assms(2) item_length_empty by (subst length_loop_items [of _ False]) (auto simp: list_all_iff item_length_tlv)
  have e: "tlv False ?e = tlv_of False LWM2M_TYPE_OBJECT_INSTANCE i []" by (simp add: tlv_children)
  have tlvs: "tlvs False ?ds = tlvs False ds @ tlv_of False LWM2M_TYPE_OBJECT_INSTANCE i []"
    by (simp add: tlvs_def e)
  then have pos: "0 < length (tlvs False ?ds)"
    using tlv_of_nonempty [of "[]" False LWM2M_TYPE_OBJECT_INSTANCE i] by (simp add: length_tlv_of)
  have "serialize_loop junk False l ?ds (0, junk (length (tlvs False ?ds))) = Inr (l, tlvs False ?ds)" for l
  proof (rule trans [OF serialize_loop_items])
    show "writes_item junk False d" if "d \<in> set ?ds" for d
      using that assms(2) serialize_item_sendable [OF assms(1)] writes_empty_instance by (auto simp: list_all_iff)
  qed (simp_all add: assms(1))
  then have "xiny_tlv_serialize junk False ?ds = Inr (int (length (tlvs False ?ds)), tlvs False ?ds)"
    using len pos by (simp add: xiny_tlv_serialize.simps prv_getLength_def)
  moreover have "xiny_tlv_parse (tlvs False ?ds @ rest) [] = []"
    using parse_items [of ds False "tlv_of False LWM2M_TYPE_OBJECT_INSTANCE i [] @ rest" "[]"] assms(2) reads_sendable
    by (simp add: tlvs list_all_iff parse_tlv_of seen_type_def parse_end)
  ultimately show ?thesis
    using pos by (simp add: xiny_tlv_serialize_lwm2m_def xiny_tlv_parse_lwm2m_def)
qed

lemma empty_instance_loses_all_witness:
  "(\<forall>n. length (replicate n (0 :: u8)) = n) \<and> list_all (sendable False) device_data
   \<and> (case xiny_tlv_serialize_lwm2m (\<lambda>n. replicate n 0) False (device_data @ [LwData LWM2M_TYPE_OBJECT_INSTANCE 4 (AsChildren [])]) of
        Inl _ \<Rightarrow> False
      | Inr (len, bytes) \<Rightarrow> 0 < len \<and> len = int (length bytes) \<and> xiny_tlv_parse_lwm2m (bytes @ [0xC1, 1, 9]) = [])"
  using empty_instance_loses_all [where junk = "\<lambda>n. replicate n 0" and i = 4 and rest = "[0xC1, 1, 9]", OF _ device_data_sendable]
    device_data_sendable by simp

section \<open>Paths\<close>

text \<open>The text of a path, in a buffer of at least 20 characters, is its identifiers with a slash before each and one behind;
  without the last slash it is read back as the path, and with it as well unless the path names a resource, which
  is then refused.\<close>

lemma uri_text_roundtrip:
  assumes "proper_uri u" "20 \<le> L"
  shows "case xiny_uri_toString_lwm2m (Some u) L of
      Inr (Some (text, depth)) \<Rightarrow>
        xiny_lwm2m_stringToUri (butlast text @ [0]) (length text - 1) = Inr (Some (length text - 1, u))
        \<and> xiny_lwm2m_stringToUri text (length text) =
            Inr (if LWM2M_URI_IS_SET_RESOURCE u then None else Some (length text, u))
    | _ \<Rightarrow> False"
proof -
  obtain depth where "xiny_uri_toString_lwm2m (Some u) L = Inr (Some (uri_text u @ [slash], depth))"
    using uri_to_string [OF assms] by blast
  then show ?thesis
    using string_to_uri [OF assms(1) refl, of 0] string_to_uri [OF assms(1) refl, of slash]
    by (simp add: slash_def)
qed

definition device_uri :: lwm2m_uri where
  "device_uri = \<lparr>uri_flag = 7, objectId = 3, instanceId = 0, resourceId = 13\<rparr>"

lemma uri_text_roundtrip_witness:
  "proper_uri device_uri \<and> (20 :: nat) \<le> 32
   \<and> (case xiny_uri_toString_lwm2m (Some device_uri) 32 of
      Inr (Some (text, depth)) \<Rightarrow>
        xiny_lwm2m_stringToUri (butlast text @ [0]) (length text - 1) = Inr (Some (length text - 1, device_uri))
        \<and> xiny_lwm2m_stringToUri text (length text) =
            Inr (if LWM2M_URI_IS_SET_RESOURCE device_uri then None else Some (length text, device_uri))
    | _ \<Rightarrow> False)"
proof -
  have "proper_uri device_uri" by (simp add: proper_uri_def device_uri_def)
  then show ?thesis using uri_text_roundtrip [of device_uri 32] by simp
qed

text \<open>A request that \<open>xiny_transaction_new\<close> makes for a path fits the buffer that is allocated for it, and what is
  written is parsed as a confirmable message with the method, the identifier and the token of the request, whose path
  \<open>xiny_uri_decode_lwm2m\<close> decodes as the path it was made for, with and without instance and resource.\<close>

lemma request_roundtrip:
  assumes "proper_uri u" "token_ok junk n token"
  shows "case xiny_transaction_new junk now addr (Some peer) meth None (Some u) mid n token of
      Inr (Some t) \<Rightarrow>
        let bytes = fst (xiny_coap_serialize_message (message t))
        in length bytes \<le> xiny_coap_serialize_get_size (message t)
           \<and> (\<exists>p. xiny_coap_parse_message bytes (length bytes) = Inr (COAP_NO_ERROR, None, p)
                 \<and> coap_type p = COAP_TYPE_CON \<and> coap_code p = meth \<and> coap_mid p = mid \<and> coap_token p = coap_token (message t)
                 \<and> xiny_uri_decode_lwm2m None (coap_uri_path p) = Inr (Some u))
    | _ \<Rightarrow> False"
proof -
  obtain t where t: "xiny_transaction_new junk now addr (Some peer) meth None (Some u) mid n token = Inr (Some t)"
      "request_of (xiny_coap_init_message COAP_TYPE_CON meth mid) (message t)" "coap_uri_path (message t) = uri_segments u"
    using new_request [OF assms] by blast
  then show ?thesis
    using request_received [OF t(2,3) assms(1)] by (simp add: Let_def)
qed

lemma request_roundtrip_witness:
  "proper_uri device_uri \<and> token_ok [] 4 None
   \<and> (case xiny_transaction_new [] 7 1 (Some 9) COAP_GET None (Some device_uri) 77 4 None of
        Inr (Some t) \<Rightarrow>
          let bytes = fst (xiny_coap_serialize_message (message t))
          in length bytes \<le> xiny_coap_serialize_get_size (message t)
             \<and> (\<exists>p. xiny_coap_parse_message bytes (length bytes) = Inr (COAP_NO_ERROR, None, p)
                   \<and> coap_type p = COAP_TYPE_CON \<and> coap_code p = COAP_GET \<and> coap_mid p = 77 \<and> coap_token p = coap_token (message t)
                   \<and> xiny_uri_decode_lwm2m None (coap_uri_path p) = Inr (Some device_uri))
      | _ \<Rightarrow> False)"
proof -
  have "proper_uri device_uri" "token_ok [] 4 None" by (simp_all add: proper_uri_def device_uri_def token_ok_def)
  then show ?thesis using request_roundtrip [where u = device_uri and junk = "[]" and n = 4 and token = None] by simp
qed

section \<open>Transactions\<close>

text \<open>C28: In every state that creating, sending, answering and time lead to, in any order and with any messages and times, the
  list is sorted by message identifier, each transaction was sent at most 5 times and had its callback called at
  most once, and none whose callback was called is still in the list; the next message and the next step of
  time are handled without touching a freed structure.\<close>

theorem transactions_bounded:
  assumes "(tx_step alloc)\<^sup>*\<^sup>* ([], []) (ts, es)"
  shows "increasing mID ts \<and> (\<forall>n. tx_sends n es \<le> 5 \<and> tx_calls n es \<le> 1) \<and> (\<forall>t \<in> set ts. tx_calls (node t) es = 0)
    \<and> (\<exists>r. xiny_transaction_handleResponse now peer m response ts = Inr r)
    \<and> (\<exists>r. xiny_transaction_step alloc now currentTime timeout ts = Inr r)"
proof -
  have inv: "tx_inv (ts, es)" by (rule tx_inv_reachable [OF assms])
  then have "distinct ts" by (auto simp: tx_inv_def transactions_ok_def increasing_distinct_list)
  then have "\<exists>r. xiny_transaction_step alloc now currentTime timeout ts = Inr r"
    using tx_inv_time [OF inv subset_refl] unfolding xiny_transaction_step_def by blast
  moreover have "\<exists>r. xiny_transaction_handleResponse now peer m response ts = Inr r"
    using tx_inv_handle [OF inv subset_refl] unfolding xiny_transaction_handleResponse_def by blast
  ultimately show ?thesis using inv by (simp add: tx_inv_def transactions_ok_def)
qed

text \<open>A registration that is sent once.\<close>

definition registration :: transaction where
  "registration =
     \<lparr>node = 1, mID = 77, peerH = 9, ack_received = False, response_timeout = 0, retrans_counter = 0, retrans_time = 0,
      message = xiny_coap_set_header_token [1, 2, 3, 4] 4 (xiny_coap_init_message COAP_TYPE_CON 2 77),
      tbuffer = None, has_callback = True\<rparr>"

definition registered_once :: transactions where
  "registered_once =
     ([registration\<lparr>tbuffer := Some [0x44, 2, 0, 77, 1, 2, 3, 4], message := snd (xiny_coap_serialize_message (message registration)),
         retrans_counter := 2, retrans_time := 1002\<rparr>],
      [TxSent 1 9 [0x44, 2, 0, 77, 1, 2, 3, 4]])"

lemma registration_bytes:
  "fst (xiny_coap_serialize_message (message registration)) = [0x44, 2, 0, 77, 1, 2, 3, 4]"
  "xiny_coap_serialize_get_size (message registration) = 8" "unat (max_age (message registration)) = 0"
  "unat (coap_size (message registration)) = 0"
  by code_simp+

lemma registration_can_send: "can_send (message registration)"
proof -
  have "prepared (message registration)" by (simp add: registration_def prepared.token prepared.init)
  then show ?thesis using registration_bytes by (simp add: can_send_def prepared_ok)
qed

lemma registration_reachable: "(tx_step (\<lambda>_. True))\<^sup>*\<^sup>* ([], []) registered_once"
proof (rule rtranclp.rtrancl_into_rtrancl [OF r_into_rtranclp])
  have "xiny_transaction_new [] 1000 1 (Some 9) 2 None None 77 4 (Some [1, 2, 3, 4]) =
      Inr (Some (registration\<lparr>has_callback := False\<rparr>))"
    by (simp add: xiny_transaction_new_def token_of_def registration_def)
  then have "tx_step (\<lambda>_. True) ([], [])
      (xiny_lwm2m_list_add mID []
        (registration\<lparr>has_callback := False, message := message registration, has_callback := True, response_timeout := 0\<rparr>), [])"
    by (rule tx_step.create) (simp_all add: registration_can_send)
  moreover have "registration\<lparr>has_callback := False, message := message registration, has_callback := True, response_timeout := 0\<rparr>
      = registration"
    by (simp add: registration_def)
  ultimately show "tx_step (\<lambda>_. True) ([], []) ([registration], [])"
    by (simp add: xiny_lwm2m_list_add_def)
  have r: "retrans_counter registration = 0" "\<not> ack_received registration" "node registration = 1" "peerH registration = 9"
    "tbuffer registration = None"
    by (simp_all add: registration_def)
  show "tx_step (\<lambda>_. True) ([registration], []) registered_once"
    using tx_step.send [where t = registration and ts = "[registration]" and es = "[]" and now = 1000 and alloc = "\<lambda>_. True"
        and r = 0 and ts' = "fst registered_once" and es' = "snd registered_once"]
    by (simp add: xiny_transaction_send_def fill_buffer_can_send registration_can_send registration_bytes r retransmit_def Let_def
        tx_defs put_transaction_def registered_once_def)
qed

lemma transactions_bounded_witness:
  "(tx_step (\<lambda>_. True))\<^sup>*\<^sup>* ([], []) (fst registered_once, snd registered_once)
   \<and> fst registered_once \<noteq> [] \<and> tx_sends 1 (snd registered_once) = 1
   \<and> increasing mID (fst registered_once) \<and> tx_sends 1 (snd registered_once) \<le> 5 \<and> tx_calls 1 (snd registered_once) \<le> 1
   \<and> (\<exists>r. xiny_transaction_handleResponse 1001 9 (message registration) False (fst registered_once) = Inr r)
   \<and> (\<exists>r. xiny_transaction_step (\<lambda>_. True) 1002 1002 60 (fst registered_once) = Inr r)"
proof -
  have r: "(tx_step (\<lambda>_. True))\<^sup>*\<^sup>* ([], []) (fst registered_once, snd registered_once)"
    using registration_reachable by simp
  have "fst registered_once \<noteq> []" "tx_sends 1 (snd registered_once) = 1"
    by (simp_all add: registered_once_def)
  then show ?thesis
    using r transactions_bounded [OF r, of 1001 9 "message registration" False]
      transactions_bounded [OF r, of 1002 _ _ _ 1002 60] by blast
qed

text \<open>C29: A request that is never answered, with the list stepped every second, is sent at the times 0, 2, 6, 14 and 30 after the
  first sending, always the same bytes; 62 seconds after it the callback is called without a message and the
  transaction is gone.\<close>

theorem unanswered_request:
  assumes "0 \<le> now" "retrans_time t \<le> now" "retrans_counter t = 0" "\<not> ack_received t" "tbuffer t = None" "has_callback t"
    and "can_send (message t)" "alloc (xiny_coap_serialize_get_size (message t))"
  shows "seconds alloc now 63 [t] =
    Inr ([], map (\<lambda>k. (now + k, TxSent (node t) (peerH t) (fst (xiny_coap_serialize_message (message t))))) [0, 2, 6, 14, 30]
      @ [(now + 62, TxCallback (node t) None)])"
  using unanswered_seconds [of now t alloc "fst (xiny_coap_serialize_message (message t))"] assms by simp

lemma unanswered_request_witness:
  "(0 :: int) \<le> 1000 \<and> retrans_time registration \<le> 1000 \<and> retrans_counter registration = 0 \<and> \<not> ack_received registration
   \<and> tbuffer registration = None \<and> has_callback registration \<and> can_send (message registration)
   \<and> seconds (\<lambda>_. True) 1000 63 [registration] =
       Inr ([], map (\<lambda>k. (1000 + k, TxSent 1 9 [0x44, 2, 0, 77, 1, 2, 3, 4])) [0, 2, 6, 14, 30]
         @ [(1062, TxCallback 1 None)])"
proof -
  have r: "retrans_time registration \<le> 1000" "retrans_counter registration = 0" "\<not> ack_received registration"
    "tbuffer registration = None" "has_callback registration" "node registration = 1" "peerH registration = 9"
    by (simp_all add: registration_def)
  then show ?thesis
    using unanswered_request [of 1000 registration "\<lambda>_. True"] registration_can_send registration_bytes(1)
    by (simp del: seconds.simps)
qed

section \<open>Numbers and base64\<close>

lemma byte_eqI:
  assumes "\<And>n. n \<in> {0, 1, 2, 3, 4, 5, 6, 7} \<Longrightarrow> bit a n = bit b n"
  shows "a = (b :: u8)"
proof (rule bit_word_eqI)
  fix n assume "n < LENGTH(8)"
  then have "n \<in> {0, 1, 2, 3, 4, 5, 6, 7}" by auto
  then show "bit a n = bit b n" by (rule assms)
qed

lemma no_high_bit: "8 \<le> n \<Longrightarrow> \<not> bit (a :: u8) n"
  by (auto dest: bit_imp_le_length)

lemma b64_index:
  fixes a :: u8
  shows "drop_bit 2 a = drop_bit 2 a AND 0x3F" "push_bit 4 (a AND 3) = push_bit 4 a AND 0x30"
    "drop_bit 4 a = drop_bit 4 a AND 0x0F" "push_bit 2 (a AND 0x0F) = push_bit 2 a AND 0x3C"
    "drop_bit 6 a = drop_bit 6 a AND 3"
  by (rule byte_eqI; elim insertE emptyE; simp add: bit_simps no_high_bit)+

lemma base64_blocks_eq: "base64_blocks d = base64_encode d"
proof -
  have "b64Alphabet = base64char" by (simp only: b64Alphabet_def base64char_def str_def)
  then have b64: "b64_at = b64" by (simp add: b64_at_def b64_def fun_eq_iff)
  show ?thesis
    by (induction d rule: base64_blocks.induct)
      (simp_all only: base64_blocks.simps base64_encode.simps prv_encodeBlock.simps b64 b64_index(2,4) PRV_B64_PADDING_def
        append.simps b64_index(1,3,5) [symmetric])
qed

text \<open>\<open>xiny_utils_base64Encode\<close> of the LwM2M engine computes, in a buffer of the size that \<open>xiny_utils_base64GetSize\<close> tells or more,
  exactly what \<open>base64_encode\<close> of the device management registration computes, and the size is the length.\<close>

lemma base64_encoders_agree:
  assumes "xiny_utils_base64GetSize (length d) \<le> L"
  shows "xiny_utils_base64Encode d L = base64_encode d
    \<and> length (xiny_utils_base64Encode d L) = xiny_utils_base64GetSize (length d)"
proof -
  have "xiny_utils_base64GetSize n = 4 * ((n + 2) div 3)" for n
  proof -
    have "(n + 2) div 3 = n div 3 + (if n mod 3 \<noteq> 0 then 1 else 0)"
      by (cases "n mod 3 = 0") (simp_all, presburger+)
    then show ?thesis by (simp add: xiny_utils_base64GetSize_def)
  qed
  then show ?thesis using assms by (simp add: xiny_utils_base64Encode_def base64_blocks_eq length_base64)
qed

lemma base64_encoders_agree_witness:
  "xiny_utils_base64GetSize (length [0x58 :: u8, 0x59, 0x31, 0x31]) \<le> 8
   \<and> xiny_utils_base64Encode [0x58, 0x59, 0x31, 0x31] 8 = base64_encode [0x58, 0x59, 0x31, 0x31]
   \<and> length (xiny_utils_base64Encode [0x58, 0x59, 0x31, 0x31] 8) = xiny_utils_base64GetSize (length [0x58 :: u8, 0x59, 0x31, 0x31])"
proof -
  have "xiny_utils_base64GetSize (length [0x58 :: u8, 0x59, 0x31, 0x31]) \<le> 8" by (simp add: xiny_utils_base64GetSize_def)
  then show ?thesis using base64_encoders_agree [of "[0x58, 0x59, 0x31, 0x31]" 8] by blast
qed

text \<open>Every 64-bit integer but the least is printed by \<open>xiny_utils_intToText\<close> into a buffer of 21 characters or more and
  read back by \<open>xiny_utils_textToInt\<close> as itself.\<close>

lemma integer_text_roundtrip:
  assumes "x \<noteq> INT64_MIN" "21 \<le> k"
  shows "case xiny_utils_intToText x k of
      Inl _ \<Rightarrow> False
    | Inr t \<Rightarrow> t \<noteq> [] \<and> xiny_utils_textToInt t = Some x"
  using int_text_int [OF assms] by auto

end
