(* ===== verification/CoapProps.thy ===== *)
theory CoapProps
  imports CoapBuilt
begin

text \<open>The properties of the CoAP messages.\<close>

section \<open>Round trip\<close>





section \<open>The buffer\<close>



text \<open>Without the bound it is: a Max-Age of 2^24 as the only option takes six bytes, and five are counted.\<close>

lemma long_age_overruns:
  "length (fst (xiny_coap_serialize_message (xiny_coap_set_header_max_age 0x1000000 (xiny_coap_init_message COAP_TYPE_ACK 69 1)))) = 10"
  "xiny_coap_serialize_get_size (xiny_coap_set_header_max_age 0x1000000 (xiny_coap_init_message COAP_TYPE_ACK 69 1)) = 9"
  by code_simp+

text \<open>The option 40 is marked in the byte behind the bitmap, and a message that ends in the middle of a header is read beyond its end.\<close>

lemma option_40_written_behind: "xiny_coap_parse_message [0x40, 1, 0, 1, 0xD0, 27] 6 = Inl BadAccess"
  by (simp add: xiny_coap_parse_message_def char_at_def Let_def packet_zero_def parse_options.simps [of 0] parse_option_header_def
      option_value_def xiny_SET_OPTION_def COAP_TOKEN_LEN_def COAP_HEADER_LEN_def coap_type_of_def)

lemma header_cut_short: "xiny_coap_parse_message [0x40, 1, 0, 1, 0xDD] 5 = Inl BadAccess"
  by (simp add: xiny_coap_parse_message_def char_at_def Let_def packet_zero_def parse_options.simps [of 0] parse_option_header_def
      option_value_def COAP_TOKEN_LEN_def COAP_HEADER_LEN_def coap_type_of_def)

end
