(* ===== verification/CoapBlock.thy ===== *)
theory CoapBlock
  imports CoapSpec
begin

text \<open>
  Requests in blocks: \<open>APPLIB/wakaama/core/block1.c\<close>.  Whether an allocation succeeds is an argument; writing to or
  reading from a buffer that was not allocated is a \<open>BadAccess\<close>.
\<close>

section \<open>The handler\<close>

definition MAX_BLOCK1_SIZE :: nat where "MAX_BLOCK1_SIZE = 4096"
definition COAP_231_CONTINUE :: u8 where "COAP_231_CONTINUE = 0x5F"
definition COAP_408_REQ_ENTITY_INCOMPLETE :: u8 where "COAP_408_REQ_ENTITY_INCOMPLETE = 0x88"
definition COAP_413_ENTITY_TOO_LARGE :: u8 where "COAP_413_ENTITY_TOO_LARGE = 0x8D"
definition COAP_500 :: u8 where "COAP_500 = 0xA0"

lemmas block1_defs = COAP_231_CONTINUE_def COAP_408_REQ_ENTITY_INCOMPLETE_def COAP_413_ENTITY_TOO_LARGE_def COAP_500_def

record block1_data =
  block1buffer :: "u8 list option"
  block1bufferSize :: nat
  lastmid :: u16

definition block1_data_len :: nat where "block1_data_len = 12"

definition new_buffer :: "(nat \<Rightarrow> bool) \<Rightarrow> u8 list \<Rightarrow> u8 list option" where
  "new_buffer alloc b = (if alloc (length b) then Some b else None)"

text \<open>The first block begins a new transfer, whatever was received before.\<close>

definition first_block :: "(nat \<Rightarrow> bool) \<Rightarrow> block1_data option \<Rightarrow> u16 \<Rightarrow> u8 list \<Rightarrow> (u8 \<times> block1_data option) res" where
  "first_block alloc d mid b =
     (if d = None \<and> \<not> alloc block1_data_len then Inr (COAP_500, None)
      else if \<not> alloc (length b) \<and> b \<noteq> [] then Inl BadAccess
      else Inr (COAP_NO_ERROR, Some \<lparr>block1buffer = new_buffer alloc b, block1bufferSize = length b, lastmid = mid\<rparr>))"

definition next_block ::
    "(nat \<Rightarrow> bool) \<Rightarrow> block1_data \<Rightarrow> u16 \<Rightarrow> u8 list \<Rightarrow> u16 \<Rightarrow> u32 \<Rightarrow> (u8 \<times> block1_data option) res" where
  "next_block alloc d mid b blockSize blockNum =
     (if lastmid d = mid then Inr (COAP_NO_ERROR, Some d)
      else if block1bufferSize d \<noteq> unat (ucast blockSize * blockNum) then Inr (COAP_408_REQ_ENTITY_INCOMPLETE, Some d)
      else if MAX_BLOCK1_SIZE \<le> block1bufferSize d + length b then Inr (COAP_413_ENTITY_TOO_LARGE, Some d)
      else
        let len = block1bufferSize d + length b
        in if \<not> alloc len then Inr (COAP_500, Some (d\<lparr>block1buffer := None, block1bufferSize := len\<rparr>))
           else case block1buffer d of
             None \<Rightarrow> if block1bufferSize d \<noteq> 0 then Inl BadAccess
                     else Inr (COAP_NO_ERROR, Some \<lparr>block1buffer = Some b, block1bufferSize = len, lastmid = mid\<rparr>)
           | Some old \<Rightarrow>
               Inr (COAP_NO_ERROR, Some \<lparr>block1buffer = Some (old @ b), block1bufferSize = len, lastmid = mid\<rparr>))"

text \<open>The result, the data that is kept, and the whole payload with the last block.\<close>

definition xiny_coap_block1_handler ::
    "(nat \<Rightarrow> bool) \<Rightarrow> block1_data option \<Rightarrow> u16 \<Rightarrow> u8 list \<Rightarrow> u16 \<Rightarrow> u32 \<Rightarrow> bool
     \<Rightarrow> (u8 \<times> block1_data option \<times> u8 list option) res" where
  "xiny_coap_block1_handler alloc d mid b blockSize blockNum blockMore =
     bind_res
       (if blockNum = 0 then first_block alloc d mid b
        else case d of None \<Rightarrow> Inr (COAP_408_REQ_ENTITY_INCOMPLETE, None) | Some d \<Rightarrow> next_block alloc d mid b blockSize blockNum)
       (\<lambda>(result, d).
          if result \<noteq> COAP_NO_ERROR then Inr (result, d, None)
          else if blockMore then Inr (COAP_231_CONTINUE, d, None)
          else case d of
            None \<Rightarrow> Inl BadAccess
          | Some x \<Rightarrow> (case block1buffer x of
                None \<Rightarrow> if block1bufferSize x \<noteq> 0 then Inl BadAccess else Inr (COAP_NO_ERROR, d, Some [])
              | Some buffer \<Rightarrow> Inr (COAP_NO_ERROR, d, Some buffer)))"

definition xiny_free_block1_buffer :: "block1_data option \<Rightarrow> block1_data option" where
  "xiny_free_block1_buffer d = None"

section \<open>Reassembly\<close>

text \<open>A block is sent with its message identifier and its number once or more; the results and payloads come back.\<close>

type_synonym block_message = "u16 \<times> u8 list \<times> u32 \<times> bool"

fun receive_blocks ::
    "u16 \<Rightarrow> block1_data option \<Rightarrow> block_message list \<Rightarrow> (block1_data option \<times> (u8 \<times> u8 list option) list) res" where
  "receive_blocks blockSize d [] = Inr (d, [])"
| "receive_blocks blockSize d ((mid, b, num, m) # ms) =
     bind_res (xiny_coap_block1_handler (\<lambda>_. True) d mid b blockSize num m) (\<lambda>(result, d, out).
     bind_res (receive_blocks blockSize d ms) (\<lambda>(d, rs). Inr (d, (result, out) # rs)))"

lemma receive_blocks_append:
  "receive_blocks z d ms = Inr (d', rs) \<Longrightarrow> receive_blocks z d' ms' = Inr (d'', rs') \<Longrightarrow>
   receive_blocks z d (ms @ ms') = Inr (d'', rs @ rs')"
  by (induction z d ms arbitrary: rs rule: receive_blocks.induct) (auto simp: bind_res_eq_Inr)

text \<open>The transfer of a payload in parts: part \<open>i\<close> with the identifier \<open>mids ! i\<close>, repeated \<open>reps ! i\<close> times.\<close>

fun transfer :: "nat \<Rightarrow> (u16 \<times> nat \<times> u8 list) list \<Rightarrow> block_message list" where
  "transfer i [] = []"
| "transfer i ((mid, n, b) # ps) = replicate (Suc n) (mid, b, of_nat i, ps \<noteq> []) @ transfer (Suc i) ps"

fun answers :: "u8 list \<Rightarrow> (u16 \<times> nat \<times> u8 list) list \<Rightarrow> (u8 \<times> u8 list option) list" where
  "answers got [] = []"
| "answers got ((mid, n, b) # ps) =
     replicate (Suc n) (if ps \<noteq> [] then (COAP_231_CONTINUE, None) else (COAP_NO_ERROR, Some (got @ b))) @ answers (got @ b) ps"

text \<open>Every part but the last has the size of a block, and neighbours have different identifiers.\<close>

fun parts_ok :: "nat \<Rightarrow> (u16 \<times> nat \<times> u8 list) list \<Rightarrow> bool" where
  "parts_ok z [] \<longleftrightarrow> True"
| "parts_ok z ((mid, n, b) # ps) \<longleftrightarrow>
     (case ps of [] \<Rightarrow> True | (mid', _) # _ \<Rightarrow> length b = z \<and> mid' \<noteq> mid) \<and> parts_ok z ps"

definition whole :: "(u16 \<times> nat \<times> u8 list) list \<Rightarrow> u8 list" where
  "whole ps = concat (map (\<lambda>(mid, n, b). b) ps)"

definition holds :: "u8 list \<Rightarrow> u16 \<Rightarrow> block1_data option" where
  "holds got mid = Some \<lparr>block1buffer = Some got, block1bufferSize = length got, lastmid = mid\<rparr>"

definition answer :: "bool \<Rightarrow> u8 list \<Rightarrow> u8 \<times> u8 list option" where
  "answer m got = (if m then (COAP_231_CONTINUE, None) else (COAP_NO_ERROR, Some got))"

lemma handle_first:
  "xiny_coap_block1_handler (\<lambda>_. True) d mid b z 0 m = Inr (case answer m b of (r, out) \<Rightarrow> (r, holds b mid, out))"
  by (simp add: xiny_coap_block1_handler_def first_block_def new_buffer_def holds_def answer_def COAP_NO_ERROR_def)

lemma handle_again:
  "num \<noteq> 0 \<Longrightarrow> xiny_coap_block1_handler (\<lambda>_. True) (holds got mid) mid b z num m =
     Inr (case answer m got of (r, out) \<Rightarrow> (r, holds got mid, out))"
  by (simp add: xiny_coap_block1_handler_def next_block_def holds_def answer_def COAP_NO_ERROR_def)

lemma handle_next:
  assumes "num \<noteq> 0" "mid' \<noteq> mid" "length got = unat (ucast z * num)" "length got + length b < 4096"
  shows "xiny_coap_block1_handler (\<lambda>_. True) (holds got mid') mid b z num m =
     Inr (case answer m (got @ b) of (r, out) \<Rightarrow> (r, holds (got @ b) mid, out))"
  using assms
  by (simp add: xiny_coap_block1_handler_def next_block_def holds_def answer_def COAP_NO_ERROR_def MAX_BLOCK1_SIZE_def)

lemma receive_same:
  assumes "xiny_coap_block1_handler (\<lambda>_. True) d mid b z num m = Inr (r, d', out)"
    and "xiny_coap_block1_handler (\<lambda>_. True) d' mid b z num m = Inr (r, d', out)"
  shows "receive_blocks z d (replicate (Suc n) (mid, b, num, m)) = Inr (d', replicate (Suc n) (r, out))"
proof -
  have "receive_blocks z d' (replicate n (mid, b, num, m)) = Inr (d', replicate n (r, out))"
    using assms(2) by (induction n) simp_all
  then show ?thesis using assms(1) by simp
qed

lemma receive_first_part:
  "receive_blocks z d (replicate (Suc n) (mid, b, 0, m)) = Inr (holds b mid, replicate (Suc n) (answer m b))"
  using receive_same [of d mid b z 0 m "fst (answer m b)" "holds b mid" "snd (answer m b)" n]
  by (simp add: handle_first case_prod_beta)

lemma receive_next_part:
  assumes "num \<noteq> 0" "mid' \<noteq> mid" "length got = unat (ucast z * num)" "length got + length b < 4096"
  shows "receive_blocks z (holds got mid') (replicate (Suc n) (mid, b, num, m)) =
    Inr (holds (got @ b) mid, replicate (Suc n) (answer m (got @ b)))"
  using receive_same [of "holds got mid'" mid b z num m "fst (answer m (got @ b))" "holds (got @ b) mid" "snd (answer m (got @ b))" n]
  using handle_next [OF assms, of m] handle_again [OF assms(1), of "got @ b" mid b z m]
  by (simp add: case_prod_beta)

lemma answers_answer: "answers got ((mid, n, b) # ps) = replicate (Suc n) (answer (ps \<noteq> []) (got @ b)) @ answers (got @ b) ps"
  by (simp add: answer_def)

lemma block_number:
  assumes "16 \<le> unat z" "unat z * i < 4096" "0 < i"
  shows "(of_nat i :: u32) \<noteq> 0" "unat (ucast (z :: u16) * (of_nat i :: u32)) = unat z * i"
proof -
  have "1 * i \<le> unat z * i" using assms(1) by (intro mult_le_mono1) linarith
  then have i: "i < 4096" using assms(2) by linarith
  then show "(of_nat i :: u32) \<noteq> 0" using assms(3) by (simp add: word_unat_eq_iff unat_of_nat take_bit_eq_mod)
  have "unat (of_nat i :: u32) = i" using i by (simp add: unat_of_nat take_bit_eq_mod)
  moreover have "unat z < 65536" using unsigned_less [of z] by simp
  then have "unat (ucast z :: u32) = unat z" by (simp add: unsigned_ucast_eq take_bit_nat_eq_self)
  ultimately show "unat (ucast z * (of_nat i :: u32)) = unat z * i"
    using assms(2) by (simp add: unat_word_ariths)
qed

lemma receive_transfer:
  assumes "parts_ok (unat z) ps" "ps \<noteq> []" "16 \<le> unat z" "0 < i" "length got = unat z * i" "fst (hd ps) \<noteq> mid'"
    and "length got + length (whole ps) < 4096"
  shows "receive_blocks z (holds got mid') (transfer i ps) = Inr (holds (got @ whole ps) (fst (last ps)), answers got ps)"
  using assms
proof (induction ps arbitrary: i got mid')
  case (Cons p ps)
  obtain mid n b where p: "p = (mid, n, b)" by (cases p)
  have len: "length got + length b + length (whole ps) < 4096" using Cons.prems(7) by (simp add: p whole_def)
  note num = block_number [OF Cons.prems(3) _ Cons.prems(4)]
  have i: "unat z * i < 4096" using len Cons.prems(5) by simp
  have first: "receive_blocks z (holds got mid') (replicate (Suc n) (mid, b, of_nat i, ps \<noteq> [])) =
      Inr (holds (got @ b) mid, replicate (Suc n) (answer (ps \<noteq> []) (got @ b)))"
    using num [OF i] Cons.prems(5,6) len by (intro receive_next_part) (simp_all add: p)
  show ?case
  proof (cases ps)
    case Nil
    then show ?thesis using first by (simp add: p whole_def answer_def)
  next
    case (Cons q qs)
    have ok: "parts_ok (unat z) ps" "length b = unat z" "fst (hd ps) \<noteq> mid"
      using Cons.prems(1) by (auto simp: p Cons split: prod.splits)
    have "receive_blocks z (holds (got @ b) mid) (transfer (Suc i) ps) =
        Inr (holds ((got @ b) @ whole ps) (fst (last ps)), answers (got @ b) ps)"
      using ok Cons.prems len by (intro Cons.IH) (simp_all add: Cons)
    then show ?thesis
      using receive_blocks_append [OF first] unfolding p answers_answer by (simp add: whole_def Cons)
  qed
qed simp

lemma receive_payload:
  assumes "parts_ok (unat z) ps" "ps \<noteq> []" "16 \<le> unat z" "length ps = 1 \<or> length (whole ps) < 4096"
  shows "receive_blocks z d (transfer 0 ps) = Inr (holds (whole ps) (fst (last ps)), answers [] ps)"
proof -
  obtain mid n b qs where ps: "ps = (mid, n, b) # qs" using assms(2) by (cases ps) auto
  have first: "receive_blocks z d (replicate (Suc n) (mid, b, 0, qs \<noteq> [])) =
      Inr (holds b mid, replicate (Suc n) (answer (qs \<noteq> []) b))"
    by (rule receive_first_part)
  show ?thesis
  proof (cases qs)
    case Nil
    then show ?thesis using first by (simp add: ps whole_def answer_def)
  next
    case (Cons q rs)
    have "parts_ok (unat z) qs" "length b = unat z * 1" "fst (hd qs) \<noteq> mid"
      using assms(1) by (auto simp: ps Cons split: prod.splits)
    then have "receive_blocks z (holds b mid) (transfer 1 qs) = Inr (holds (b @ whole qs) (fst (last qs)), answers b qs)"
      using assms(3,4) by (intro receive_transfer) (simp_all add: ps whole_def Cons)
    then show ?thesis
      using receive_blocks_append [OF first] unfolding ps answers_answer by (simp add: whole_def Cons)
  qed
qed

end
