(* ===== verification/Lwm2mObject.thy ===== *)
theory Lwm2mObject
  imports Lwm2mData Lwm2mTransaction CoapBlock
begin

text \<open>
  The LwM2M context and its objects: \<open>APPLIB/wakaama/core/objects.c\<close>, the types of \<open>xiny_liblwm2m.h\<close> and the list of
  observations of \<open>observe.c\<close> with the operations that change it.  The callbacks of an object are functions on its
  instances and its own data \<open>'s\<close>; reading does not change them.  A server is named by its identifier in
  the list; a session is a number.  Allocation succeeds.
\<close>

section \<open>Results\<close>

definition COAP_IGNORE :: u8 where "COAP_IGNORE = 0x01"
definition COAP_201_CREATED :: u8 where "COAP_201_CREATED = 0x41"
definition COAP_202_DELETED :: u8 where "COAP_202_DELETED = 0x42"
definition COAP_204_CHANGED :: u8 where "COAP_204_CHANGED = 0x44"
definition COAP_205_CONTENT :: u8 where "COAP_205_CONTENT = 0x45"
definition COAP_400_BAD_REQUEST :: u8 where "COAP_400_BAD_REQUEST = 0x80"
definition COAP_402_BAD_OPTION :: u8 where "COAP_402_BAD_OPTION = 0x82"
definition COAP_404_NOT_FOUND :: u8 where "COAP_404_NOT_FOUND = 0x84"
definition COAP_405_METHOD_NOT_ALLOWED :: u8 where "COAP_405_METHOD_NOT_ALLOWED = 0x85"
definition COAP_406_NOT_ACCEPTABLE :: u8 where "COAP_406_NOT_ACCEPTABLE = 0x86"
definition COAP_501_NOT_IMPLEMENTED :: u8 where "COAP_501_NOT_IMPLEMENTED = 0xA1"

lemmas result_defs = COAP_NO_ERROR_def COAP_IGNORE_def COAP_201_CREATED_def COAP_202_DELETED_def COAP_204_CHANGED_def
  COAP_205_CONTENT_def COAP_400_BAD_REQUEST_def COAP_402_BAD_OPTION_def COAP_404_NOT_FOUND_def
  COAP_405_METHOD_NOT_ALLOWED_def COAP_406_NOT_ACCEPTABLE_def COAP_501_NOT_IMPLEMENTED_def block1_defs

section \<open>The context\<close>

record 's lwm2m_object =
  objID :: u16
  instanceList :: "u16 list"
  userData :: 's
  readFunc :: "(u16 \<Rightarrow> lwm2m_data list \<Rightarrow> u16 list \<times> 's \<Rightarrow> u8 \<times> lwm2m_data list) option"
  writeFunc :: "(u16 \<Rightarrow> lwm2m_data list \<Rightarrow> u16 list \<times> 's \<Rightarrow> u8 \<times> u16 list \<times> 's) option"
  executeFunc :: "(u16 \<Rightarrow> u16 \<Rightarrow> u8 list \<Rightarrow> u16 list \<times> 's \<Rightarrow> u8 \<times> u16 list \<times> 's) option"
  createFunc :: "(u16 \<Rightarrow> lwm2m_data list \<Rightarrow> u16 list \<times> 's \<Rightarrow> u8 \<times> u16 list \<times> 's) option"
  deleteFunc :: "(u16 \<Rightarrow> u16 list \<times> 's \<Rightarrow> u8 \<times> u16 list \<times> 's) option"
  discoverFunc :: "(u16 \<Rightarrow> lwm2m_data list \<Rightarrow> u16 list \<times> 's \<Rightarrow> u8 \<times> lwm2m_data list) option"

definition object_state :: "'s lwm2m_object \<Rightarrow> u16 list \<times> 's" where
  "object_state ob = (instanceList ob, userData ob)"

definition set_object_state :: "u16 list \<times> 's \<Rightarrow> 's lwm2m_object \<Rightarrow> 's lwm2m_object" where
  "set_object_state st ob = ob\<lparr>instanceList := fst st, userData := snd st\<rparr>"

datatype lwm2m_status =
    STATE_DEREGISTERED | STATE_REG_PENDING | STATE_REGISTERED | STATE_REG_FAILED | STATE_REG_UPDATE_PENDING
  | STATE_REG_UPDATE_NEEDED | STATE_REG_FULL_UPDATE_NEEDED | STATE_DEREG_PENDING | STATE_BS_HOLD_OFF | STATE_BS_INITIATED
  | STATE_BS_PENDING | STATE_BS_FINISHING | STATE_BS_FINISHED | STATE_BS_FAILING | STATE_BS_FAILED

datatype lwm2m_binding = BINDING_UNKNOWN | BINDING_U | BINDING_UQ | BINDING_S | BINDING_SQ | BINDING_US | BINDING_UQS

record lwm2m_server =
  secObjInstID :: u16
  shortID :: u16
  lifetime :: int
  binding :: lwm2m_binding
  sessionH :: nat
  status :: lwm2m_status
  block1Data :: "block1_data option"

text \<open>The bits of the \<open>double\<close>s.\<close>

record attributes =
  toSet :: u8
  toClear :: u8
  minPeriod :: u32
  maxPeriod :: u32
  greaterThan :: u64
  lessThan :: u64
  attr_step :: u64

record watcher =
  active :: bool
  wupdate :: bool
  server :: u16
  parameters :: "attributes option"
  wformat :: media_type
  wtoken :: "u8 list"
  lastTime :: int
  counter :: u32
  lastMid :: u16
  lastValue :: u64

record observed =
  ouri :: lwm2m_uri
  watcherList :: "watcher list"

record 's lwm2m_context =
  altPath :: "u8 list option"
  bootstrapServerList :: "lwm2m_server list"
  serverList :: "lwm2m_server list"
  objectList :: "'s lwm2m_object list"
  observedList :: "observed list"
  nextMID :: u16
  transactionList :: "transaction list"

definition find_object :: "'s lwm2m_object list \<Rightarrow> u16 \<Rightarrow> 's lwm2m_object option" where
  "find_object obs i = xiny_lwm2m_list_find objID obs i"

definition has_instance :: "'s lwm2m_object \<Rightarrow> u16 \<Rightarrow> bool" where
  "has_instance ob i \<longleftrightarrow> xiny_lwm2m_list_find (\<lambda>x. x) (instanceList ob) i \<noteq> None"

fun update_first :: "('a \<Rightarrow> bool) \<Rightarrow> ('a \<Rightarrow> 'a) \<Rightarrow> 'a list \<Rightarrow> 'a list" where
  "update_first P f [] = []"
| "update_first P f (x # xs) = (if P x then f x # xs else x # update_first P f xs)"

definition put_object :: "'s lwm2m_object \<Rightarrow> 's lwm2m_object list \<Rightarrow> 's lwm2m_object list" where
  "put_object ob obs = update_first (\<lambda>x. objID x = objID ob) (\<lambda>_. ob) obs"

text \<open>An entry of \<open>xiny_lwm2m_data_new\<close> with its identifier.\<close>

definition data_blank :: "u16 \<Rightarrow> lwm2m_data" where
  "data_blank i = LwData LWM2M_TYPE_UNDEFINED i (AsChildren [])"

section \<open>Observations\<close>

definition same_uri :: "lwm2m_uri \<Rightarrow> lwm2m_uri \<Rightarrow> bool" where
  "same_uri u v \<longleftrightarrow>
     objectId v = objectId u \<and> uri_flag v = uri_flag u
     \<and> (LWM2M_URI_IS_SET_INSTANCE u \<longrightarrow> instanceId v = instanceId u)
     \<and> (LWM2M_URI_IS_SET_RESOURCE u \<longrightarrow> resourceId v = resourceId u)"

definition prv_findObserved :: "observed list \<Rightarrow> lwm2m_uri \<Rightarrow> observed option" where
  "prv_findObserved obs u = find (\<lambda>x. same_uri u (ouri x)) obs"

definition prv_findWatcher :: "observed \<Rightarrow> u16 \<Rightarrow> watcher option" where
  "prv_findWatcher x sid = find (\<lambda>w. server w = sid) (watcherList x)"

definition watcher_zero :: "u16 \<Rightarrow> watcher" where
  "watcher_zero sid =
     \<lparr>active = False, wupdate = False, server = sid, parameters = None, wformat = LWM2M_CONTENT_TEXT, wtoken = [], lastTime = 0,
      counter = 0, lastMid = 0, lastValue = 0\<rparr>"

text \<open>The first watcher of the server for the path, which is added when there is none.\<close>

definition prv_getWatcher :: "observed list \<Rightarrow> lwm2m_uri \<Rightarrow> u16 \<Rightarrow> observed list \<times> watcher" where
  "prv_getWatcher obs u sid =
     (let obs = (case prv_findObserved obs u of None \<Rightarrow> \<lparr>ouri = u, watcherList = []\<rparr> # obs | Some _ \<Rightarrow> obs);
          w = (case prv_findObserved obs u of None \<Rightarrow> None | Some x \<Rightarrow> prv_findWatcher x sid)
      in case w of
           Some w \<Rightarrow> (obs, w)
         | None \<Rightarrow>
             (update_first (\<lambda>x. same_uri u (ouri x)) (\<lambda>x. x\<lparr>watcherList := watcher_zero sid # watcherList x\<rparr>) obs,
              watcher_zero sid))"

definition put_watcher :: "lwm2m_uri \<Rightarrow> watcher \<Rightarrow> observed list \<Rightarrow> observed list" where
  "put_watcher u w obs =
     update_first (\<lambda>x. same_uri u (ouri x)) (\<lambda>x. x\<lparr>watcherList := update_first (\<lambda>y. server y = server w) (\<lambda>_. w) (watcherList x)\<rparr>) obs"

text \<open>
  The first watcher with the message identifier and the session goes, and with the last watcher the observation.  An
  observation without watchers is a null pointer that is read.
\<close>

fun remove_watcher :: "(watcher \<Rightarrow> bool) \<Rightarrow> watcher list \<Rightarrow> watcher list option" where
  "remove_watcher P [] = None"
| "remove_watcher P (w # ws) = (if P w then Some ws else map_option (\<lambda>r. w # r) (remove_watcher P ws))"

fun cancel_from :: "(watcher \<Rightarrow> bool) \<Rightarrow> observed list \<Rightarrow> observed list res" where
  "cancel_from P [] = Inr []"
| "cancel_from P (x # xs) =
     (if watcherList x = [] then Inl BadAccess
      else case remove_watcher P (watcherList x) of
             Some ws \<Rightarrow> Inr (if ws = [] then xs else x\<lparr>watcherList := ws\<rparr> # xs)
           | None \<Rightarrow> bind_res (cancel_from P xs) (\<lambda>xs. Inr (x # xs)))"

definition session_of :: "lwm2m_server list \<Rightarrow> u16 \<Rightarrow> nat option" where
  "session_of ss sid = map_option sessionH (find (\<lambda>s. secObjInstID s = sid) ss)"

definition xiny_observe_cancel_lwm2m :: "lwm2m_server list \<Rightarrow> u16 \<Rightarrow> nat \<Rightarrow> observed list \<Rightarrow> observed list res" where
  "xiny_observe_cancel_lwm2m ss mid fromSessionH obs =
     cancel_from (\<lambda>w. lastMid w = mid \<and> session_of ss (server w) = Some fromSessionH) obs"

definition xiny_observe_clear :: "lwm2m_uri \<Rightarrow> observed list \<Rightarrow> observed list" where
  "xiny_observe_clear u obs =
     filter (\<lambda>x. \<not> (objectId (ouri x) = objectId u \<and> (\<not> LWM2M_URI_IS_SET_INSTANCE u \<or> instanceId (ouri x) = instanceId u))) obs"

section \<open>Reading\<close>

fun read_instances ::
    "(u16 \<Rightarrow> lwm2m_data list \<Rightarrow> 'a \<Rightarrow> u8 \<times> lwm2m_data list) \<Rightarrow> 'a \<Rightarrow> u16 list \<Rightarrow> u8 \<times> lwm2m_data list" where
  "read_instances rd st [] = (COAP_205_CONTENT, [])"
| "read_instances rd st (i # is) =
     (case rd i [] st of
        (r, children) \<Rightarrow>
          let d = LwData LWM2M_TYPE_OBJECT_INSTANCE i (AsChildren children)
          in if r = COAP_205_CONTENT then (case read_instances rd st is of (r, ds) \<Rightarrow> (r, d # ds))
             else (r, d # map (\<lambda>_. data_blank 0) is))"

definition read_with ::
    "(u16 \<Rightarrow> lwm2m_data list \<Rightarrow> u16 list \<times> 's \<Rightarrow> u8 \<times> lwm2m_data list) \<Rightarrow> 's lwm2m_object \<Rightarrow> lwm2m_uri \<Rightarrow> u8 \<times> lwm2m_data list" where
  "read_with rd ob u =
     (if LWM2M_URI_IS_SET_INSTANCE u
      then if \<not> has_instance ob (instanceId u) then (COAP_404_NOT_FOUND, [])
           else rd (instanceId u) (if LWM2M_URI_IS_SET_RESOURCE u then [data_blank (resourceId u)] else []) (object_state ob)
      else read_instances rd (object_state ob) (instanceList ob))"

definition xiny_object_read_lwm2mData_lwm2m :: "'s lwm2m_object list \<Rightarrow> lwm2m_uri \<Rightarrow> u8 \<times> lwm2m_data list" where
  "xiny_object_read_lwm2mData_lwm2m obs u =
     (case find_object obs (objectId u) of
        None \<Rightarrow> (COAP_404_NOT_FOUND, [])
      | Some ob \<Rightarrow> (case readFunc ob of
          None \<Rightarrow> (COAP_405_METHOD_NOT_ALLOWED, [])
        | Some rd \<Rightarrow> read_with rd ob u))"

text \<open>\<open>hd\<close>: the callback fills the one entry that it is given.\<close>

definition ATTR_FLAG_NUMERIC :: u8 where "ATTR_FLAG_NUMERIC = 0x1C"

definition xiny_object_checkReadable_lwm2m :: "'s lwm2m_object list \<Rightarrow> lwm2m_uri \<Rightarrow> attributes \<Rightarrow> u8" where
  "xiny_object_checkReadable_lwm2m obs u a =
     (case find_object obs (objectId u) of
        None \<Rightarrow> COAP_404_NOT_FOUND
      | Some ob \<Rightarrow> (case readFunc ob of
          None \<Rightarrow> COAP_405_METHOD_NOT_ALLOWED
        | Some rd \<Rightarrow>
            if \<not> LWM2M_URI_IS_SET_INSTANCE u then COAP_205_CONTENT
            else if \<not> has_instance ob (instanceId u) then COAP_404_NOT_FOUND
            else if \<not> LWM2M_URI_IS_SET_RESOURCE u then COAP_205_CONTENT
            else
              (case rd (instanceId u) [data_blank (resourceId u)] (object_state ob) of
                 (result, ds) \<Rightarrow>
                   if result = COAP_205_CONTENT \<and> toSet a AND ATTR_FLAG_NUMERIC \<noteq> 0
                      \<and> data_type (hd ds) \<noteq> LWM2M_TYPE_INTEGER \<and> data_type (hd ds) \<noteq> LWM2M_TYPE_FLOAT
                   then COAP_405_METHOD_NOT_ALLOWED else result)))"

definition xiny_object_read_lwm2m ::
    "(nat \<Rightarrow> u8 list) \<Rightarrow> (u64 \<Rightarrow> u8 list) \<Rightarrow> 's lwm2m_object list \<Rightarrow> lwm2m_uri \<Rightarrow> media_type
     \<Rightarrow> (u8 \<times> media_type \<times> u8 list) res" where
  "xiny_object_read_lwm2m junk floatToText obs u format =
     (case xiny_object_read_lwm2mData_lwm2m obs u of
        (result, ds) \<Rightarrow>
          if result = COAP_205_CONTENT
          then bind_res (xiny_lwm2m_data_serialize junk floatToText (Some u) ds format) (\<lambda>(format, n, b).
                 Inr (if n < 0 then (COAP_500, format, []) else (result, format, b)))
          else Inr (result, format, []))"

definition xiny_object_discover_lwm2m :: "'s lwm2m_object list \<Rightarrow> lwm2m_uri \<Rightarrow> (u8 \<times> u8 list) res" where
  "xiny_object_discover_lwm2m obs u =
     (case find_object obs (objectId u) of
        None \<Rightarrow> Inr (COAP_404_NOT_FOUND, [])
      | Some ob \<Rightarrow> (case discoverFunc ob of
          None \<Rightarrow> Inr (COAP_501_NOT_IMPLEMENTED, [])
        | Some rd \<Rightarrow> (case read_with rd ob u of
            (result, ds) \<Rightarrow>
              if result = COAP_205_CONTENT
              then bind_res (xiny_discover_serialize (Some u) ds) (\<lambda>r. Inr (case r of
                     None \<Rightarrow> (COAP_500, []) | Some b \<Rightarrow> if b = [] then (COAP_500, []) else (result, b)))
              else Inr (result, []))))"

section \<open>Changing\<close>

definition xiny_object_write_lwm2m ::
    "'s lwm2m_object list \<Rightarrow> lwm2m_uri \<Rightarrow> media_type \<Rightarrow> u8 list \<Rightarrow> u8 \<times> 's lwm2m_object list" where
  "xiny_object_write_lwm2m obs u format buffer =
     (case find_object obs (objectId u) of
        None \<Rightarrow> (COAP_404_NOT_FOUND, obs)
      | Some ob \<Rightarrow> (case writeFunc ob of
          None \<Rightarrow> (COAP_405_METHOD_NOT_ALLOWED, obs)
        | Some wr \<Rightarrow>
            let ds = xiny_lwm2m_data_parse u buffer format
            in if ds = [] then (COAP_406_NOT_ACCEPTABLE, obs)
               else case wr (instanceId u) ds (object_state ob) of
                      (result, st) \<Rightarrow> (result, put_object (set_object_state st ob) obs)))"

definition xiny_object_execute_lwm2m :: "'s lwm2m_object list \<Rightarrow> lwm2m_uri \<Rightarrow> u8 list \<Rightarrow> u8 \<times> 's lwm2m_object list" where
  "xiny_object_execute_lwm2m obs u buffer =
     (case find_object obs (objectId u) of
        None \<Rightarrow> (COAP_404_NOT_FOUND, obs)
      | Some ob \<Rightarrow> (case executeFunc ob of
          None \<Rightarrow> (COAP_405_METHOD_NOT_ALLOWED, obs)
        | Some ex \<Rightarrow>
            if \<not> has_instance ob (instanceId u) then (COAP_404_NOT_FOUND, obs)
            else case ex (instanceId u) (resourceId u) buffer (object_state ob) of
                   (result, st) \<Rightarrow> (result, put_object (set_object_state st ob) obs)))"

text \<open>The path gets the identifier of the new instance.\<close>

definition with_instance :: "u16 \<Rightarrow> lwm2m_uri \<Rightarrow> lwm2m_uri" where
  "with_instance i u = u\<lparr>instanceId := i, uri_flag := uri_flag u OR LWM2M_URI_FLAG_INSTANCE_ID\<rparr>"

definition children_of :: "lwm2m_data \<Rightarrow> lwm2m_data list res" where
  "children_of d = (case data_value d of AsChildren ds \<Rightarrow> Inr ds | _ \<Rightarrow> Inl BadAccess)"

definition xiny_object_create_lwm2m ::
    "'s lwm2m_object list \<Rightarrow> lwm2m_uri \<Rightarrow> media_type \<Rightarrow> u8 list \<Rightarrow> (u8 \<times> 's lwm2m_object list \<times> lwm2m_uri) res" where
  "xiny_object_create_lwm2m obs u format buffer =
     (if buffer = [] then Inr (COAP_400_BAD_REQUEST, obs, u)
      else case find_object obs (objectId u) of
        None \<Rightarrow> Inr (COAP_404_NOT_FOUND, obs, u)
      | Some ob \<Rightarrow> (case createFunc ob of
          None \<Rightarrow> Inr (COAP_405_METHOD_NOT_ALLOWED, obs, u)
        | Some cr \<Rightarrow>
            (case xiny_lwm2m_data_parse u buffer format of
               [] \<Rightarrow> Inr (COAP_400_BAD_REQUEST, obs, u)
             | d # ds \<Rightarrow>
                 let create = (\<lambda>i vs u. case cr i vs (object_state ob) of
                        (result, st) \<Rightarrow> (result, put_object (set_object_state st ob) obs, u))
                 in (case data_type d of
                       LWM2M_TYPE_OBJECT \<Rightarrow> Inr (COAP_400_BAD_REQUEST, obs, u)
                     | LWM2M_TYPE_OBJECT_INSTANCE \<Rightarrow>
                         if ds \<noteq> [] then Inr (COAP_400_BAD_REQUEST, obs, u)
                         else if has_instance ob (data_id d) then Inr (COAP_406_NOT_ACCEPTABLE, obs, u)
                         else bind_res (children_of d) (\<lambda>vs. Inr (create (data_id d) vs (with_instance (data_id d) u)))
                     | _ \<Rightarrow>
                         let u = (if LWM2M_URI_IS_SET_INSTANCE u then u
                                  else with_instance (xiny_lwm2m_list_newId (\<lambda>x. x) (instanceList ob)) u)
                         in Inr (create (instanceId u) (d # ds) u)))))"

text \<open>
  Without an instance the first one is deleted until none is left or one cannot be deleted; when the callback says that
  it deleted an instance and leaves it in the list this does not end.
\<close>

partial_function (option) delete_all ::
    "(u16 \<Rightarrow> u16 list \<times> 's \<Rightarrow> u8 \<times> u16 list \<times> 's) \<Rightarrow> lwm2m_uri \<Rightarrow> u16 list \<times> 's \<Rightarrow> observed list
     \<Rightarrow> (u8 \<times> (u16 list \<times> 's) \<times> observed list) option" where
  "delete_all del u st os =
     (case fst st of
        [] \<Rightarrow> Some (COAP_202_DELETED, st, os)
      | i # _ \<Rightarrow>
          (case del i st of
             (result, st) \<Rightarrow>
               if result = COAP_202_DELETED then delete_all del u st (xiny_observe_clear (with_instance i u) os)
               else Some (result, st, os)))"

definition xiny_object_delete_lwm2m ::
    "'s lwm2m_object list \<Rightarrow> observed list \<Rightarrow> lwm2m_uri \<Rightarrow> (u8 \<times> 's lwm2m_object list \<times> observed list) option" where
  "xiny_object_delete_lwm2m obs os u =
     (case find_object obs (objectId u) of
        None \<Rightarrow> Some (COAP_404_NOT_FOUND, obs, os)
      | Some ob \<Rightarrow> (case deleteFunc ob of
          None \<Rightarrow> Some (COAP_405_METHOD_NOT_ALLOWED, obs, os)
        | Some del \<Rightarrow>
            if LWM2M_URI_IS_SET_INSTANCE u
            then (case del (instanceId u) (object_state ob) of
                    (result, st) \<Rightarrow>
                      Some (result, put_object (set_object_state st ob) obs,
                            if result = COAP_202_DELETED then xiny_observe_clear u os else os))
            else map_option (\<lambda>(result, st, os). (result, put_object (set_object_state st ob) obs, os))
                   (delete_all del u (object_state ob) os)))"

definition xiny_object_isInstanceNew_lwm2m :: "'s lwm2m_object list \<Rightarrow> u16 \<Rightarrow> u16 \<Rightarrow> bool" where
  "xiny_object_isInstanceNew_lwm2m obs oid iid = (case find_object obs oid of None \<Rightarrow> True | Some ob \<Rightarrow> \<not> has_instance ob iid)"

end
