(* ===== verification/Lwm2mObserve.thy ===== *)
theory Lwm2mObserve
  imports Lwm2mObject
begin

text \<open>
  Observing resources: \<open>APPLIB/wakaama/core/observe.c\<close> (the client's part) and the state of a registration of
  \<open>registration.c\<close>.  Arithmetic on \<open>double\<close> and \<open>float\<close>, the texts of a \<open>double\<close>, the content of allocated
  memory and what lies in memory behind a query are members of the environment.
\<close>

section \<open>The environment\<close>

record lwm2m_env =
  junk :: "nat \<Rightarrow> u8 list"
  floatToText :: "u64 \<Rightarrow> u8 list"
  textToFloat :: "u8 list \<Rightarrow> u64 option"
  dless :: "u64 \<Rightarrow> u64 \<Rightarrow> bool"
  dge :: "u64 \<Rightarrow> u64 \<Rightarrow> bool"
  of_integer :: "u64 \<Rightarrow> u64"
  dsub :: "u64 \<Rightarrow> u64 \<Rightarrow> u64"
  dneg :: "u64 \<Rightarrow> bool"
  too_close :: "u64 \<Rightarrow> u64 \<Rightarrow> u64 \<Rightarrow> bool"
  behind :: "u8 list \<Rightarrow> u8 list"

definition xiny_utils_convertMediaType :: "u16 \<Rightarrow> media_type" where
  "xiny_utils_convertMediaType t =
     (if t = 0 then LWM2M_CONTENT_TEXT else if t = 42 then LWM2M_CONTENT_OPAQUE
      else if t = 1542 then LWM2M_CONTENT_TLV_OLD else if t = 11542 then LWM2M_CONTENT_TLV
      else if t = 1543 then LWM2M_CONTENT_JSON_OLD else if t = 11543 then LWM2M_CONTENT_JSON
      else if t = 40 then LWM2M_CONTENT_LINK else LWM2M_CONTENT_TEXT)"

fun media_type_no :: "media_type \<Rightarrow> u32" where
  "media_type_no LWM2M_CONTENT_TEXT = 0"
| "media_type_no LWM2M_CONTENT_LINK = 40"
| "media_type_no LWM2M_CONTENT_OPAQUE = 42"
| "media_type_no LWM2M_CONTENT_TLV_OLD = 1542"
| "media_type_no LWM2M_CONTENT_TLV = 11542"
| "media_type_no LWM2M_CONTENT_JSON_OLD = 1543"
| "media_type_no LWM2M_CONTENT_JSON = 11543"

text \<open>The format that a request accepts.\<close>

definition accepted_format :: "coap_packet \<Rightarrow> media_type \<Rightarrow> media_type" where
  "accepted_format msg format =
     (if xiny_IS_OPTION msg COAP_OPTION_ACCEPT then xiny_utils_convertMediaType (hd (coap_accept msg @ [0])) else format)"

section \<open>Requests\<close>

text \<open>The union holds an integer or the bits of a \<open>double\<close>.\<close>

definition last_value :: "lwm2m_uri \<Rightarrow> lwm2m_data list \<Rightarrow> u64 \<Rightarrow> u64 res" where
  "last_value u ds old =
     (if \<not> LWM2M_URI_IS_SET_RESOURCE u then Inr old
      else case ds of
        [] \<Rightarrow> Inl BadAccess
      | d # _ \<Rightarrow>
          (case (data_type d, data_value d) of
             (LWM2M_TYPE_INTEGER, AsInteger x) \<Rightarrow> Inr x
           | (LWM2M_TYPE_FLOAT, AsFloat x) \<Rightarrow> Inr x
           | (ty, _) \<Rightarrow> if ty = LWM2M_TYPE_INTEGER \<or> ty = LWM2M_TYPE_FLOAT then Inl BadAccess else Inr old))"

definition xiny_observe_handleRequest_lwm2m ::
    "int \<Rightarrow> lwm2m_server list \<Rightarrow> observed list \<Rightarrow> lwm2m_uri \<Rightarrow> lwm2m_server \<Rightarrow> lwm2m_data list \<Rightarrow> coap_packet \<Rightarrow> coap_packet
     \<Rightarrow> (u8 \<times> observed list \<times> coap_packet) res" where
  "xiny_observe_handleRequest_lwm2m now ss os u sv ds msg response =
     (if coap_observe msg = 0
      then
        if \<not> LWM2M_URI_IS_SET_INSTANCE u \<and> LWM2M_URI_IS_SET_RESOURCE u then Inr (COAP_400_BAD_REQUEST, os, response)
        else if coap_token msg = [] then Inr (COAP_400_BAD_REQUEST, os, response)
        else
          (case prv_getWatcher os u (secObjInstID sv) of
             (os, w) \<Rightarrow>
               bind_res (last_value u ds (lastValue w)) (\<lambda>v.
                 let w' = w\<lparr>wtoken := coap_token msg, active := True, lastTime := now, lastMid := coap_mid response,
                       wformat := accepted_format msg LWM2M_CONTENT_TLV, lastValue := v, counter := counter w + 1\<rparr>
                 in Inr (COAP_205_CONTENT, put_watcher u w' os, xiny_coap_set_header_observe (counter w) response)))
      else if coap_observe msg = 1
      then
        (case prv_findObserved os u of
           None \<Rightarrow> Inr (COAP_205_CONTENT, os, response)
         | Some x \<Rightarrow> (case prv_findWatcher x (secObjInstID sv) of
             None \<Rightarrow> Inr (COAP_205_CONTENT, os, response)
           | Some w \<Rightarrow> bind_res (xiny_observe_cancel_lwm2m ss (lastMid w) (sessionH sv) os) (\<lambda>os.
               Inr (COAP_205_CONTENT, os, response))))
      else Inr (COAP_400_BAD_REQUEST, os, response))"

section \<open>Attributes\<close>

definition ATTR_FLAG_MIN_PERIOD :: u8 where "ATTR_FLAG_MIN_PERIOD = 0x01"
definition ATTR_FLAG_MAX_PERIOD :: u8 where "ATTR_FLAG_MAX_PERIOD = 0x02"
definition ATTR_FLAG_GREATER_THAN :: u8 where "ATTR_FLAG_GREATER_THAN = 0x04"
definition ATTR_FLAG_LESS_THAN :: u8 where "ATTR_FLAG_LESS_THAN = 0x08"
definition ATTR_FLAG_STEP :: u8 where "ATTR_FLAG_STEP = 0x10"

lemmas attr_defs = ATTR_FLAG_MIN_PERIOD_def ATTR_FLAG_MAX_PERIOD_def ATTR_FLAG_GREATER_THAN_def ATTR_FLAG_LESS_THAN_def
  ATTR_FLAG_STEP_def ATTR_FLAG_NUMERIC_def

definition has_flag :: "u8 \<Rightarrow> attributes \<Rightarrow> bool" where
  "has_flag f a \<longleftrightarrow> toSet a AND f \<noteq> 0"

text \<open>A bound of the new attributes, or of the ones that the watcher has.\<close>

definition bound_of :: "u8 \<Rightarrow> (attributes \<Rightarrow> u64) \<Rightarrow> attributes \<Rightarrow> attributes option \<Rightarrow> u64 res" where
  "bound_of f sel a old = (if has_flag f a then Inr (sel a) else case old of None \<Rightarrow> Inl BadAccess | Some p \<Rightarrow> Inr (sel p))"

definition merge_attributes :: "attributes \<Rightarrow> attributes \<Rightarrow> attributes" where
  "merge_attributes a p =
     p\<lparr>toSet := toSet p AND NOT (toClear a),
       minPeriod := (if has_flag ATTR_FLAG_MIN_PERIOD a then minPeriod a else minPeriod p),
       maxPeriod := (if has_flag ATTR_FLAG_MAX_PERIOD a then maxPeriod a else maxPeriod p),
       greaterThan := (if has_flag ATTR_FLAG_GREATER_THAN a then greaterThan a else greaterThan p),
       lessThan := (if has_flag ATTR_FLAG_LESS_THAN a then lessThan a else lessThan p),
       attr_step := (if has_flag ATTR_FLAG_STEP a then attr_step a else attr_step p)\<rparr>"

definition bounds_refused :: "lwm2m_env \<Rightarrow> attributes \<Rightarrow> attributes option \<Rightarrow> bool res" where
  "bounds_refused env a old =
     (if ((toSet a OR (case old of None \<Rightarrow> 0 | Some p \<Rightarrow> toSet p)) AND NOT (toClear a)) AND ATTR_FLAG_NUMERIC = ATTR_FLAG_NUMERIC
      then bind_res (bound_of ATTR_FLAG_GREATER_THAN greaterThan a old) (\<lambda>gt.
           bind_res (bound_of ATTR_FLAG_LESS_THAN lessThan a old) (\<lambda>lt.
           bind_res (bound_of ATTR_FLAG_STEP attr_step a old) (\<lambda>stp. Inr (too_close env lt stp gt))))
      else Inr False)"

definition xiny_observe_setParameters_lwm2m ::
    "lwm2m_env \<Rightarrow> 's lwm2m_object list \<Rightarrow> observed list \<Rightarrow> lwm2m_uri \<Rightarrow> u16 \<Rightarrow> attributes \<Rightarrow> (u8 \<times> observed list) res" where
  "xiny_observe_setParameters_lwm2m env obs os u sid a =
     (if \<not> LWM2M_URI_IS_SET_INSTANCE u \<and> LWM2M_URI_IS_SET_RESOURCE u then Inr (COAP_400_BAD_REQUEST, os)
      else
        let result = xiny_object_checkReadable_lwm2m obs u a
        in if result \<noteq> COAP_205_CONTENT then Inr (result, os)
           else case prv_getWatcher os u sid of
             (os, w) \<Rightarrow>
               bind_res (bounds_refused env a (parameters w)) (\<lambda>refused.
                 if refused then Inr (COAP_400_BAD_REQUEST, os)
                 else
                   let p = (case parameters w of
                              None \<Rightarrow> if toSet a \<noteq> 0 then Some a else None
                            | Some p \<Rightarrow> Some (merge_attributes a p))
                   in Inr (COAP_204_CHANGED, put_watcher u (w\<lparr>parameters := p\<rparr>) os)))"

section \<open>Changes\<close>

definition concerns :: "lwm2m_uri \<Rightarrow> lwm2m_uri \<Rightarrow> bool" where
  "concerns u v \<longleftrightarrow>
     objectId v = objectId u
     \<and> (\<not> LWM2M_URI_IS_SET_INSTANCE u \<or> \<not> LWM2M_URI_IS_SET_INSTANCE v \<or> instanceId u = instanceId v)
     \<and> (\<not> LWM2M_URI_IS_SET_RESOURCE u \<or> \<not> LWM2M_URI_IS_SET_RESOURCE v \<or> resourceId u = resourceId v)"

definition xiny_lwm2m_resource_value_changed :: "lwm2m_uri \<Rightarrow> observed list \<Rightarrow> observed list" where
  "xiny_lwm2m_resource_value_changed u os =
     map (\<lambda>x. if concerns u (ouri x)
              then x\<lparr>watcherList := map (\<lambda>w. if active w then w\<lparr>wupdate := True\<rparr> else w) (watcherList x)\<rparr> else x) os"

definition xiny_observe_findByUri_lwm2m :: "lwm2m_uri \<Rightarrow> observed list \<Rightarrow> observed option" where
  "xiny_observe_findByUri_lwm2m u os =
     find (\<lambda>x. objectId (ouri x) = objectId u
             \<and> (LWM2M_URI_IS_SET_INSTANCE u \<longleftrightarrow> LWM2M_URI_IS_SET_INSTANCE (ouri x))
             \<and> (LWM2M_URI_IS_SET_INSTANCE u \<longrightarrow> instanceId u = instanceId (ouri x))
             \<and> (LWM2M_URI_IS_SET_RESOURCE u \<longleftrightarrow> LWM2M_URI_IS_SET_RESOURCE (ouri x))
             \<and> (LWM2M_URI_IS_SET_RESOURCE u \<longrightarrow> resourceId u = resourceId (ouri x))) os"

text \<open>Whether an integer or a \<open>double\<close> went over a bound, and whether it moved by the step.\<close>

definition crossed :: "lwm2m_env \<Rightarrow> u64 \<Rightarrow> u64 \<Rightarrow> u64 \<Rightarrow> bool" where
  "crossed env bnd old new \<longleftrightarrow> (dless env new bnd \<and> dless env bnd old) \<or> (dless env bnd new \<and> dless env old bnd)"

text \<open>\<open>diff >= step\<close> or \<open>-diff >= step\<close>, the first for a difference that is not negative.\<close>

definition stepped :: "lwm2m_env \<Rightarrow> lwm2m_data_type \<Rightarrow> u64 \<Rightarrow> u64 \<Rightarrow> u64 \<Rightarrow> bool" where
  "stepped env ty stp old new \<longleftrightarrow>
     (if ty = LWM2M_TYPE_INTEGER
      then let diff = new - old
           in if diff <s 0 then dge env (of_integer env (- diff)) stp else dge env (of_integer env diff) stp
      else let diff = dsub env new old
           in if dneg env diff then dge env (dsub env 0 diff) stp else dge env diff stp)"

definition as_double :: "lwm2m_env \<Rightarrow> lwm2m_data_type \<Rightarrow> u64 \<Rightarrow> u64" where
  "as_double env ty v = (if ty = LWM2M_TYPE_INTEGER then of_integer env v else v)"

definition numeric_due :: "lwm2m_env \<Rightarrow> attributes \<Rightarrow> lwm2m_data_type \<Rightarrow> u64 \<Rightarrow> u64 \<Rightarrow> bool" where
  "numeric_due env p ty old new \<longleftrightarrow>
     (ty = LWM2M_TYPE_INTEGER \<or> ty = LWM2M_TYPE_FLOAT)
     \<and> (has_flag ATTR_FLAG_LESS_THAN p \<and> crossed env (lessThan p) (as_double env ty old) (as_double env ty new)
        \<or> has_flag ATTR_FLAG_GREATER_THAN p \<and> crossed env (greaterThan p) (as_double env ty old) (as_double env ty new)
        \<or> has_flag ATTR_FLAG_STEP p \<and> stepped env ty (attr_step p) old new)"

section \<open>Sending\<close>

text \<open>
  \<open>xiny_message_send\<close> of \<open>packet.c\<close>, over the results of the allocation and of \<open>xiny_lwm2m_buffer_send\<close>: what is sent on
  a session, and the message without its lists.
\<close>

datatype sent = Sent (sent_session: nat) (sent_bytes: "u8 list")

record host =
  alloc :: "nat \<Rightarrow> bool"
  net :: "nat \<Rightarrow> u8 list \<Rightarrow> u8"

definition xiny_message_send :: "host \<Rightarrow> coap_packet \<Rightarrow> nat \<Rightarrow> (u8 \<times> coap_packet \<times> sent list) res" where
  "xiny_message_send h m session =
     (let room = xiny_coap_serialize_get_size m; (b, m') = xiny_coap_serialize_message m
      in if room = 0 \<or> \<not> alloc h room then Inr (COAP_500, m, [])
         else if room < length b then Inl BadAccess
         else if b = [] then Inr (COAP_500, m', [])
         else Inr (net h session b, m', [Sent session b]))"

section \<open>Notifications\<close>

text \<open>What is due for a watcher with an update, and when the minimal period is not over the time that it has to wait.\<close>

definition update_due ::
    "lwm2m_env \<Rightarrow> int \<Rightarrow> (lwm2m_data_type \<times> u64) option \<Rightarrow> watcher \<Rightarrow> (bool \<times> int option) res" where
  "update_due env now val w =
     (if \<not> wupdate w then Inr (False, None)
      else case parameters w of
        None \<Rightarrow> Inr (True, None)
      | Some p \<Rightarrow>
          bind_res
            (if toSet p = 0 then Inr True
             else if has_flag ATTR_FLAG_NUMERIC p
             then (case val of None \<Rightarrow> Inl BadAccess | Some (ty, v) \<Rightarrow> Inr (numeric_due env p ty (lastValue w) v))
             else Inr False)
            (\<lambda>due.
               if has_flag ATTR_FLAG_MIN_PERIOD p
               then let till = lastTime w + int (unat (minPeriod p))
                    in if now < till then Inr (False, Some (till - now)) else Inr (True, None)
               else Inr (due, None)))"

definition max_due :: "int \<Rightarrow> watcher \<Rightarrow> bool" where
  "max_due now w =
     (case parameters w of
        None \<Rightarrow> False
      | Some p \<Rightarrow> has_flag ATTR_FLAG_MAX_PERIOD p \<and> lastTime w + int (unat (maxPeriod p)) \<le> now)"

definition max_wait :: "int \<Rightarrow> watcher \<Rightarrow> int option" where
  "max_wait now w =
     (case parameters w of
        None \<Rightarrow> None
      | Some p \<Rightarrow> if has_flag ATTR_FLAG_MAX_PERIOD p then Some (lastTime w + int (unat (maxPeriod p)) - now) else None)"

definition shorter :: "int \<Rightarrow> int option \<Rightarrow> int" where
  "shorter timeout t = (case t of None \<Rightarrow> timeout | Some t \<Rightarrow> min timeout t)"

text \<open>The payload of a notification with the format that was chosen, \<open>None\<close> when there is none.\<close>

definition notification_payload ::
    "lwm2m_env \<Rightarrow> 's lwm2m_object list \<Rightarrow> lwm2m_uri \<Rightarrow> lwm2m_data list option \<Rightarrow> media_type \<Rightarrow> (media_type \<times> u8 list option) res" where
  "notification_payload env obs u ds format =
     (case ds of
        Some ds \<Rightarrow> bind_res (xiny_lwm2m_data_serialize (junk env) (floatToText env) (Some u) ds format) (\<lambda>(format, n, b).
          Inr (format, if n < 0 then None else Some b))
      | None \<Rightarrow> bind_res (xiny_object_read_lwm2m (junk env) (floatToText env) obs u format) (\<lambda>(result, format, b).
          Inr (format, if result \<noteq> COAP_205_CONTENT then None else Some b)))"

text \<open>
  The message is made for the first watcher and used for the others of the observation as well, unless it has no payload,
  for which nothing was allocated.
\<close>

definition notification ::
    "lwm2m_env \<Rightarrow> 's lwm2m_object list \<Rightarrow> lwm2m_uri \<Rightarrow> lwm2m_data list option \<Rightarrow> coap_packet option \<Rightarrow> watcher
     \<Rightarrow> (watcher \<times> coap_packet option) res" where
  "notification env obs u ds made w =
     (case made of
        Some m \<Rightarrow> Inr (w, Some m)
      | None \<Rightarrow> bind_res (notification_payload env obs u ds (wformat w)) (\<lambda>(format, b).
          Inr (w\<lparr>wformat := format\<rparr>,
               map_option (\<lambda>b. xiny_coap_set_payload b (xiny_coap_set_header_content_type (media_type_no format)
                 (xiny_coap_init_message COAP_TYPE_NON COAP_205_CONTENT 0))) b)))"

record notifier =
  notify_mid :: u16
  notify_timeout :: int
  notify_message :: "coap_packet option"
  notify_sent :: "sent list"

definition send_notification ::
    "host \<Rightarrow> lwm2m_server list \<Rightarrow> int \<Rightarrow> (lwm2m_data_type \<times> u64) option \<Rightarrow> coap_packet \<Rightarrow> watcher \<Rightarrow> notifier \<Rightarrow> (watcher \<times> notifier) res" where
  "send_notification h ss now val m w nt =
     (let mid = notify_mid nt;
          m = xiny_coap_set_header_observe (counter w) (xiny_coap_set_header_token (wtoken w) (length (wtoken w)) (m\<lparr>coap_mid := mid\<rparr>));
          w = w\<lparr>lastTime := now, lastMid := mid, counter := counter w + 1, wupdate := False,
                lastValue := (case val of None \<Rightarrow> lastValue w
                  | Some (ty, v) \<Rightarrow> if ty = LWM2M_TYPE_INTEGER \<or> ty = LWM2M_TYPE_FLOAT then v else lastValue w)\<rparr>
      in case session_of ss (server w) of
           None \<Rightarrow> Inl BadAccess
         | Some session \<Rightarrow> bind_res (xiny_message_send h m session) (\<lambda>(_, m, es).
             Inr (w, nt\<lparr>notify_mid := mid + 1, notify_message := if coap_payload m = [] then None else Some m,
                       notify_sent := notify_sent nt @ es\<rparr>)))"

text \<open>One watcher; \<open>None\<close> ends the loop over the watchers.\<close>

definition watcher_step ::
    "lwm2m_env \<Rightarrow> host \<Rightarrow> lwm2m_server list \<Rightarrow> 's lwm2m_object list \<Rightarrow> int \<Rightarrow> lwm2m_uri \<Rightarrow> lwm2m_data list option
     \<Rightarrow> (lwm2m_data_type \<times> u64) option \<Rightarrow> watcher \<Rightarrow> notifier \<Rightarrow> (watcher \<times> notifier \<times> bool) res" where
  "watcher_step env h ss obs now u ds val w nt =
     (if \<not> active w then Inr (w, nt, True)
      else
        bind_res (update_due env now val w) (\<lambda>(due, wait).
          let nt = nt\<lparr>notify_timeout := shorter (notify_timeout nt) wait\<rparr>
          in bind_res
               (if due \<or> max_due now w
                then bind_res (notification env obs u ds (notify_message nt) w) (\<lambda>(w, m). case m of
                       None \<Rightarrow> Inr (w, nt, False)
                     | Some m \<Rightarrow> bind_res (send_notification h ss now val m w nt) (\<lambda>(w, nt). Inr (w, nt, True)))
                else Inr (w, nt, True))
               (\<lambda>(w, nt, go_on).
                  Inr (w, if go_on then nt\<lparr>notify_timeout := shorter (notify_timeout nt) (max_wait now w)\<rparr> else nt, go_on))))"

fun watchers_step ::
    "lwm2m_env \<Rightarrow> host \<Rightarrow> lwm2m_server list \<Rightarrow> 's lwm2m_object list \<Rightarrow> int \<Rightarrow> lwm2m_uri \<Rightarrow> lwm2m_data list option
     \<Rightarrow> (lwm2m_data_type \<times> u64) option \<Rightarrow> watcher list \<Rightarrow> notifier \<Rightarrow> (watcher list \<times> notifier) res" where
  "watchers_step env h ss obs now u ds val [] nt = Inr ([], nt)"
| "watchers_step env h ss obs now u ds val (w # ws) nt =
     bind_res (watcher_step env h ss obs now u ds val w nt) (\<lambda>(w, nt, go_on).
       if go_on then bind_res (watchers_step env h ss obs now u ds val ws nt) (\<lambda>(ws, nt). Inr (w # ws, nt))
       else Inr (w # ws, nt))"

text \<open>What is read of an observed resource; \<open>None\<close> when it cannot be read.\<close>

definition observed_value ::
    "'s lwm2m_object list \<Rightarrow> lwm2m_uri \<Rightarrow> (lwm2m_data list option \<times> (lwm2m_data_type \<times> u64) option) option res" where
  "observed_value obs u =
     (if \<not> LWM2M_URI_IS_SET_RESOURCE u then Inr (Some (None, None))
      else case xiny_object_read_lwm2mData_lwm2m obs u of
        (result, ds) \<Rightarrow>
          if result \<noteq> COAP_205_CONTENT then Inr None
          else case ds of
            [] \<Rightarrow> Inl BadAccess
          | d # _ \<Rightarrow>
              bind_res (last_value u ds 0) (\<lambda>v.
                Inr (Some (Some ds, if data_type d = LWM2M_TYPE_INTEGER \<or> data_type d = LWM2M_TYPE_FLOAT
                                    then Some (data_type d, v) else Some (data_type d, 0)))))"

fun observed_step ::
    "lwm2m_env \<Rightarrow> host \<Rightarrow> lwm2m_server list \<Rightarrow> 's lwm2m_object list \<Rightarrow> int \<Rightarrow> observed list \<Rightarrow> notifier
     \<Rightarrow> (observed list \<times> notifier) res" where
  "observed_step env h ss obs now [] nt = Inr ([], nt)"
| "observed_step env h ss obs now (x # xs) nt =
     bind_res
       (bind_res (observed_value obs (ouri x)) (\<lambda>r. case r of
          None \<Rightarrow> Inr (x, nt)
        | Some (ds, val) \<Rightarrow>
            bind_res (watchers_step env h ss obs now (ouri x) ds val (watcherList x) (nt\<lparr>notify_message := None\<rparr>)) (\<lambda>(ws, nt).
            Inr (x\<lparr>watcherList := ws\<rparr>, nt))))
       (\<lambda>(x, nt). bind_res (observed_step env h ss obs now xs nt) (\<lambda>(xs, nt). Inr (x # xs, nt)))"

definition xiny_observe_step ::
    "lwm2m_env \<Rightarrow> host \<Rightarrow> int \<Rightarrow> int \<Rightarrow> 's lwm2m_context \<Rightarrow> ('s lwm2m_context \<times> int \<times> sent list) res" where
  "xiny_observe_step env h now timeout c =
     bind_res
       (observed_step env h (serverList c) (objectList c) now (observedList c)
          \<lparr>notify_mid = nextMID c, notify_timeout = timeout, notify_message = None, notify_sent = []\<rparr>)
       (\<lambda>(os, nt). Inr (c\<lparr>observedList := os, nextMID := notify_mid nt\<rparr>, notify_timeout nt, notify_sent nt))"

end
