(* ===== verification/Lwm2mPacket.thy ===== *)
theory Lwm2mPacket
  imports Lwm2mObserve
begin

text \<open>
  Requests of a server: \<open>APPLIB/wakaama/core/management.c\<close> and \<open>packet.c\<close> (the client's part, without bootstrap, as it
  is built), with what they use of \<open>registration.c\<close> and \<open>utils.c\<close>.  Reading a message that was not there is a
  \<open>BadAccess\<close>; \<open>None\<close> is a callback that goes on deleting for ever.
\<close>

section \<open>Attributes of a query\<close>

text \<open>
  A query is compared with the memory at its data, so also with what lies behind it.  \<open>None\<close> is the result -1.
\<close>

definition starts_with :: "u8 list \<Rightarrow> u8 list \<Rightarrow> bool" where
  "starts_with t b \<longleftrightarrow> take (length t) b = t"

definition flag_free :: "u8 \<Rightarrow> attributes \<Rightarrow> bool" where
  "flag_free f a \<longleftrightarrow> (toSet a OR toClear a) AND f = 0"

text \<open>One attribute: its text with the sign of equality, its flag, and what storing a value does; \<open>Inr None\<close> to try the next.\<close>

definition read_attribute ::
    "u8 list \<Rightarrow> u8 \<Rightarrow> (u8 list \<Rightarrow> attributes \<Rightarrow> attributes option) \<Rightarrow> u8 list \<Rightarrow> u8 list \<Rightarrow> attributes
     \<Rightarrow> attributes option option res" where
  "read_attribute t f store q after a =
     (if starts_with t (q @ after)
      then if \<not> flag_free f a \<or> length q = length t then Inr (Some None)
           else if length q < length t then Inl BadAccess
           else Inr (Some (map_option (\<lambda>a. a\<lparr>toSet := toSet a OR f\<rparr>) (store (drop (length t) q) a)))
      else if starts_with (butlast t) (q @ after)
      then if \<not> flag_free f a \<or> length q \<noteq> length t - 1 then Inr (Some None)
           else Inr (Some (Some (a\<lparr>toClear := toClear a OR f\<rparr>)))
      else Inr None)"

definition period_of :: "u8 list \<Rightarrow> u32 option" where
  "period_of t = (case xiny_utils_textToInt t of None \<Rightarrow> None | Some v \<Rightarrow> if v <s 0 then None else Some (ucast v))"

definition attribute_readers :: "lwm2m_env \<Rightarrow> (u8 list \<times> u8 \<times> (u8 list \<Rightarrow> attributes \<Rightarrow> attributes option)) list" where
  "attribute_readers env =
     [(map of_char ''pmin='', ATTR_FLAG_MIN_PERIOD, \<lambda>t a. map_option (\<lambda>v. a\<lparr>minPeriod := v\<rparr>) (period_of t)),
      (map of_char ''pmax='', ATTR_FLAG_MAX_PERIOD, \<lambda>t a. map_option (\<lambda>v. a\<lparr>maxPeriod := v\<rparr>) (period_of t)),
      (map of_char ''gt='', ATTR_FLAG_GREATER_THAN, \<lambda>t a. map_option (\<lambda>v. a\<lparr>greaterThan := v\<rparr>) (textToFloat env t)),
      (map of_char ''lt='', ATTR_FLAG_LESS_THAN, \<lambda>t a. map_option (\<lambda>v. a\<lparr>lessThan := v\<rparr>) (textToFloat env t)),
      (map of_char ''st='', ATTR_FLAG_STEP, \<lambda>t a. case textToFloat env t of
         None \<Rightarrow> None | Some v \<Rightarrow> if dneg env v then None else Some (a\<lparr>attr_step := v\<rparr>))]"

fun read_attribute_with ::
    "(u8 list \<times> u8 \<times> (u8 list \<Rightarrow> attributes \<Rightarrow> attributes option)) list \<Rightarrow> u8 list \<Rightarrow> u8 list \<Rightarrow> attributes
     \<Rightarrow> attributes option res" where
  "read_attribute_with [] q after a = Inr None"
| "read_attribute_with ((t, f, store) # rs) q after a =
     bind_res (read_attribute t f store q after a) (\<lambda>r. case r of
       Some r \<Rightarrow> Inr r
     | None \<Rightarrow> read_attribute_with rs q after a)"

definition attributes_zero :: attributes where
  "attributes_zero =
     \<lparr>toSet = 0, toClear = 0, minPeriod = 0, maxPeriod = 0, greaterThan = 0, lessThan = 0, attr_step = 0\<rparr>"

fun attributes_from :: "lwm2m_env \<Rightarrow> u8 list list \<Rightarrow> attributes \<Rightarrow> attributes option res" where
  "attributes_from env [] a = Inr (Some a)"
| "attributes_from env (q # qs) a =
     bind_some (read_attribute_with (attribute_readers env) q (behind env q) a) (\<lambda>a. attributes_from env qs a)"

definition prv_readAttributes :: "lwm2m_env \<Rightarrow> u8 list list \<Rightarrow> attributes option res" where
  "prv_readAttributes env query = attributes_from env query attributes_zero"

section \<open>Device management\<close>

text \<open>\<open>xiny_lwm2m_update_xiny_registration\<close> of every server, with the objects; there is one.\<close>

definition update_all_registrations :: "lwm2m_server list \<Rightarrow> lwm2m_server list" where
  "update_all_registrations ss =
     map (\<lambda>s. if status s = STATE_REGISTERED \<or> status s = STATE_REG_UPDATE_PENDING
              then s\<lparr>status := STATE_REG_FULL_UPDATE_NEEDED\<rparr> else s) ss"

definition may_manage :: "lwm2m_status \<Rightarrow> bool" where
  "may_manage st \<longleftrightarrow>
     st \<in> {STATE_REGISTERED, STATE_REG_UPDATE_NEEDED, STATE_REG_FULL_UPDATE_NEEDED, STATE_REG_UPDATE_PENDING}"

definition COAP_POST :: u8 where "COAP_POST = 2"
definition COAP_PUT :: u8 where "COAP_PUT = 3"
definition LWM2M_SECURITY_OBJECT_ID :: u16 where "LWM2M_SECURITY_OBJECT_ID = 0"

text \<open>The payload of a result 2.05, which \<open>xiny_lwm2m_handle_packet\<close> frees later.\<close>

definition put_content :: "u8 \<Rightarrow> media_type \<Rightarrow> u8 list \<Rightarrow> coap_packet \<Rightarrow> coap_packet" where
  "put_content result format b response =
     (if result = COAP_205_CONTENT
      then xiny_coap_set_payload b (xiny_coap_set_header_content_type (media_type_no format) response) else response)"

definition dm_get ::
    "lwm2m_env \<Rightarrow> int \<Rightarrow> 's lwm2m_context \<Rightarrow> lwm2m_uri \<Rightarrow> lwm2m_server \<Rightarrow> media_type \<Rightarrow> coap_packet \<Rightarrow> coap_packet
     \<Rightarrow> (u8 \<times> 's lwm2m_context \<times> coap_packet) res" where
  "dm_get env now c u sv format msg response =
     (if xiny_IS_OPTION msg COAP_OPTION_OBSERVE
      then
        (case xiny_object_read_lwm2mData_lwm2m (objectList c) u of
           (result, ds) \<Rightarrow>
             if result \<noteq> COAP_205_CONTENT then Inr (result, c, response)
             else
               bind_res (xiny_observe_handleRequest_lwm2m now (serverList c) (observedList c) u sv ds msg response)
                 (\<lambda>(result, os, response).
                    let c = c\<lparr>observedList := os\<rparr>
                    in if result \<noteq> COAP_205_CONTENT then Inr (result, c, response)
                       else
                         bind_res
                           (xiny_lwm2m_data_serialize (junk env) (floatToText env) (Some u) ds
                              (accepted_format msg LWM2M_CONTENT_TLV))
                           (\<lambda>(format, n, b).
                              if n < 0 then Inr (COAP_500, c, response)
                              else Inr (result, c, put_content result format b response))))
      else if xiny_IS_OPTION msg COAP_OPTION_ACCEPT \<and> coap_accept msg = [40]
      then bind_res (xiny_object_discover_lwm2m (objectList c) u) (\<lambda>(result, b).
             Inr (result, c, put_content result LWM2M_CONTENT_LINK b response))
      else bind_res (xiny_object_read_lwm2m (junk env) (floatToText env) (objectList c) u (accepted_format msg format))
             (\<lambda>(result, format, b). Inr (result, c, put_content result format b response)))"

definition location_text :: "lwm2m_uri \<Rightarrow> u8 list" where
  "location_text u = slash # dec_digits (unat (objectId u)) @ slash # dec_digits (unat (instanceId u))"

definition dm_post ::
    "'s lwm2m_context \<Rightarrow> lwm2m_uri \<Rightarrow> media_type \<Rightarrow> coap_packet \<Rightarrow> coap_packet \<Rightarrow> (u8 \<times> 's lwm2m_context \<times> coap_packet) res" where
  "dm_post c u format msg response =
     (if \<not> LWM2M_URI_IS_SET_INSTANCE u
      then
        bind_res (xiny_object_create_lwm2m (objectList c) u format (coap_payload msg)) (\<lambda>(result, obs, u).
          let c = c\<lparr>objectList := obs\<rparr>
          in if result \<noteq> COAP_201_CREATED then Inr (result, c, response)
             else if uri_flag u AND LWM2M_URI_FLAG_INSTANCE_ID = 0 then Inr (COAP_500, c, response)
             else Inr (result, c\<lparr>serverList := update_all_registrations (serverList c)\<rparr>,
                       xiny_coap_set_header_location_path (location_text u) response))
      else
        (case (if \<not> LWM2M_URI_IS_SET_RESOURCE u
               then xiny_object_write_lwm2m (objectList c) u format (coap_payload msg)
               else xiny_object_execute_lwm2m (objectList c) u (coap_payload msg)) of
           (result, obs) \<Rightarrow> Inr (result, c\<lparr>objectList := obs\<rparr>, response)))"

definition dm_put ::
    "lwm2m_env \<Rightarrow> 's lwm2m_context \<Rightarrow> lwm2m_uri \<Rightarrow> lwm2m_server \<Rightarrow> media_type \<Rightarrow> coap_packet \<Rightarrow> (u8 \<times> 's lwm2m_context) res" where
  "dm_put env c u sv format msg =
     (if xiny_IS_OPTION msg COAP_OPTION_URI_QUERY
      then
        bind_res (prv_readAttributes env (uri_query msg)) (\<lambda>a. case a of
          None \<Rightarrow> Inr (COAP_400_BAD_REQUEST, c)
        | Some a \<Rightarrow>
            bind_res (xiny_observe_setParameters_lwm2m env (objectList c) (observedList c) u (secObjInstID sv) a)
              (\<lambda>(result, os). Inr (result, c\<lparr>observedList := os\<rparr>)))
      else if LWM2M_URI_IS_SET_INSTANCE u
      then (case xiny_object_write_lwm2m (objectList c) u format (coap_payload msg) of
              (result, obs) \<Rightarrow> Inr (result, c\<lparr>objectList := obs\<rparr>))
      else Inr (COAP_400_BAD_REQUEST, c))"

definition dm_delete :: "'s lwm2m_context \<Rightarrow> lwm2m_uri \<Rightarrow> (u8 \<times> 's lwm2m_context) option" where
  "dm_delete c u =
     (if \<not> LWM2M_URI_IS_SET_INSTANCE u \<or> LWM2M_URI_IS_SET_RESOURCE u then Some (COAP_400_BAD_REQUEST, c)
      else map_option
             (\<lambda>(result, obs, os).
                let c = c\<lparr>objectList := obs, observedList := os\<rparr>
                in (result, if result = COAP_202_DELETED
                            then c\<lparr>serverList := update_all_registrations (serverList c)\<rparr> else c))
             (xiny_object_delete_lwm2m (objectList c) (observedList c) u))"

definition xiny_dm_handleRequest ::
    "lwm2m_env \<Rightarrow> int \<Rightarrow> 's lwm2m_context \<Rightarrow> lwm2m_uri \<Rightarrow> lwm2m_server \<Rightarrow> coap_packet \<Rightarrow> coap_packet
     \<Rightarrow> (u8 \<times> 's lwm2m_context \<times> coap_packet) option res" where
  "xiny_dm_handleRequest env now c u sv msg response =
     (let format = (if xiny_IS_OPTION msg COAP_OPTION_CONTENT_TYPE then xiny_utils_convertMediaType (content_type msg)
                    else LWM2M_CONTENT_TLV)
      in if objectId u = LWM2M_SECURITY_OBJECT_ID then Inr (Some (COAP_404_NOT_FOUND, c, response))
         else if \<not> may_manage (status sv) then Inr (Some (COAP_IGNORE, c, response))
         else if coap_code msg = COAP_GET then bind_res (dm_get env now c u sv format msg response) (\<lambda>r. Inr (Some r))
         else if coap_code msg = COAP_POST then bind_res (dm_post c u format msg response) (\<lambda>r. Inr (Some r))
         else if coap_code msg = COAP_PUT
           then bind_res (dm_put env c u sv format msg) (\<lambda>(result, c). Inr (Some (result, c, response)))
         else if coap_code msg = COAP_DELETE
           then Inr (map_option (\<lambda>(result, c). (result, c, response)) (dm_delete c u))
         else Inr (Some (COAP_400_BAD_REQUEST, c, response)))"

section \<open>Requests\<close>

definition xiny_utils_findServer :: "lwm2m_server list \<Rightarrow> nat \<Rightarrow> lwm2m_server option" where
  "xiny_utils_findServer ss session = find (\<lambda>s. sessionH s = session) ss"

definition xiny_utils_findBootstrapServer :: "lwm2m_server list \<Rightarrow> nat \<Rightarrow> lwm2m_server option" where
  "xiny_utils_findBootstrapServer bs session = find (\<lambda>s. sessionH s = session) bs"

definition handle_xiny_request ::
    "lwm2m_env \<Rightarrow> int \<Rightarrow> 's lwm2m_context \<Rightarrow> nat \<Rightarrow> coap_packet \<Rightarrow> coap_packet
     \<Rightarrow> (u8 \<times> 's lwm2m_context \<times> coap_packet) option res" where
  "handle_xiny_request env now c session msg response =
     bind_res (xiny_uri_decode_lwm2m (altPath c) (coap_uri_path msg)) (\<lambda>u. case u of
       None \<Rightarrow> Inr (Some (COAP_400_BAD_REQUEST, c, response))
     | Some u \<Rightarrow>
         bind_some
           (if uri_flag u AND LWM2M_URI_MASK_TYPE = LWM2M_URI_FLAG_DM
            then (case xiny_utils_findServer (serverList c) session of
                    None \<Rightarrow> Inr (Some (COAP_IGNORE, c, response))
                  | Some sv \<Rightarrow> xiny_dm_handleRequest env now c u sv msg response)
            else Inr (Some (COAP_IGNORE, c, response)))
           (\<lambda>(result, c, response).
              Inr (Some (if COAP_IGNORE < result \<and> result < COAP_400_BAD_REQUEST then COAP_NO_ERROR else result, c,
                         snd (xiny_coap_set_status_code response (unat result))))))"

definition REST_MAX_CHUNK_SIZE :: u16 where "REST_MAX_CHUNK_SIZE = 128"

text \<open>An acknowledgement for a confirmable request, else a message of its own, with the token of the request.\<close>

definition prepare_response :: "'s lwm2m_context \<Rightarrow> coap_packet \<Rightarrow> 's lwm2m_context \<times> coap_packet" where
  "prepare_response c msg =
     (let (c, r) = (if coap_type msg = COAP_TYPE_CON then (c, xiny_coap_init_message COAP_TYPE_ACK COAP_205_CONTENT (coap_mid msg))
                    else (c\<lparr>nextMID := nextMID c + 1\<rparr>, xiny_coap_init_message COAP_TYPE_NON COAP_205_CONTENT (nextMID c)))
      in (c, if coap_token msg \<noteq> [] then xiny_coap_set_header_token (coap_token msg) (length (coap_token msg)) r else r))"

definition set_block1_data :: "nat \<Rightarrow> block1_data option \<Rightarrow> lwm2m_server list \<Rightarrow> lwm2m_server list" where
  "set_block1_data session d ss = update_first (\<lambda>s. sessionH s = session) (\<lambda>s. s\<lparr>block1Data := d\<rparr>) ss"

text \<open>The block of a request: the result, the message with the whole payload, and the response.\<close>

definition take_block1 ::
    "host \<Rightarrow> 's lwm2m_context \<Rightarrow> nat \<Rightarrow> coap_packet \<Rightarrow> coap_packet \<Rightarrow> (u8 \<times> 's lwm2m_context \<times> coap_packet \<times> coap_packet) res" where
  "take_block1 h c session msg response =
     (case xiny_coap_get_header_block1 msg of
        None \<Rightarrow> Inr (COAP_NO_ERROR, c, msg, response)
      | Some (num, m, z, _) \<Rightarrow>
          (case xiny_utils_findServer (serverList c) session of
             None \<Rightarrow> Inr (COAP_500, c, msg, response)
           | Some sv \<Rightarrow>
               bind_res (xiny_coap_block1_handler (alloc h) (block1Data sv) (coap_mid msg) (coap_payload msg) z num (m \<noteq> 0))
                 (\<lambda>(result, d, whole).
                    let c = c\<lparr>serverList := set_block1_data session d (serverList c)\<rparr>;
                        msg = (case whole of None \<Rightarrow> msg | Some b \<Rightarrow> xiny_coap_set_payload b msg);
                        response = (if result = COAP_231_CONTINUE
                                    then snd (xiny_coap_set_header_block1 num m (min z REST_MAX_CHUNK_SIZE) response) else response)
                    in Inr (result, c, msg, response))))"

text \<open>The block of the response that the request asks for; no resource is aware of blocks.\<close>

definition give_block2 :: "coap_packet \<Rightarrow> coap_packet \<Rightarrow> coap_packet" where
  "give_block2 msg response =
     (case xiny_coap_get_header_block2 msg of
        None \<Rightarrow> response
      | Some (num, _, z, offset) \<Rightarrow>
          let z = min z REST_MAX_CHUNK_SIZE; b = coap_payload response
          in if length b \<le> unat offset
             then xiny_coap_set_payload (map of_char ''BlockOutOfScope'') (response\<lparr>coap_code := COAP_402_BAD_OPTION\<rparr>)
             else
               xiny_coap_set_payload (take (unat z) (drop (unat offset) b))
                 (snd (xiny_coap_set_header_block2 num (if unat z < length b - unat offset then 1 else 0) z response)))"

definition answer_request ::
    "lwm2m_env \<Rightarrow> host \<Rightarrow> int \<Rightarrow> 's lwm2m_context \<Rightarrow> nat \<Rightarrow> coap_packet \<Rightarrow> (u8 \<times> 's lwm2m_context \<times> sent list) option res" where
  "answer_request env h now c session msg =
     (case prepare_response c msg of
        (c, response) \<Rightarrow>
          bind_res (take_block1 h c session msg response) (\<lambda>(result, c, msg, response).
          bind_some
            (if result = COAP_NO_ERROR then handle_xiny_request env now c session msg response
             else Inr (Some (result, c, response)))
            (\<lambda>(result, c, response).
               if result = COAP_NO_ERROR
               then bind_res (xiny_message_send h (give_block2 msg response) session) (\<lambda>(result, _, es).
                      Inr (Some (result, c, es)))
               else if result \<noteq> COAP_IGNORE
               then bind_res (xiny_message_send h (snd (xiny_coap_set_status_code response (unat result))) session)
                      (\<lambda>(result, _, es). Inr (Some (result, c, es)))
               else Inr (Some (result, c, [])))))"

section \<open>Responses\<close>

text \<open>An acknowledgement of \<open>xiny_transaction_handleResponse\<close> is sent; the other events are callbacks.\<close>

fun send_acks :: "host \<Rightarrow> event list \<Rightarrow> sent list res" where
  "send_acks h [] = Inr []"
| "send_acks h (e # es) =
     bind_res (case e of TxAcked peer m \<Rightarrow> bind_res (xiny_message_send h m peer) (\<lambda>(_, _, s). Inr s) | _ \<Rightarrow> Inr []) (\<lambda>s.
     bind_res (send_acks h es) (\<lambda>s'. Inr (s @ s')))"

definition callbacks :: "event list \<Rightarrow> event list" where
  "callbacks es = filter (\<lambda>e. case e of TxAcked _ _ \<Rightarrow> False | _ \<Rightarrow> True) es"

definition handle_reset :: "'s lwm2m_context \<Rightarrow> nat \<Rightarrow> coap_packet \<Rightarrow> 's lwm2m_context res" where
  "handle_reset c session msg =
     bind_res (xiny_observe_cancel_lwm2m (serverList c) (coap_mid msg) session (observedList c)) (\<lambda>os.
       Inr (c\<lparr>observedList := os\<rparr>))"

definition take_response ::
    "host \<Rightarrow> int \<Rightarrow> 's lwm2m_context \<Rightarrow> nat \<Rightarrow> coap_packet \<Rightarrow> (u8 \<times> 's lwm2m_context \<times> sent list \<times> event list) res" where
  "take_response h now c session msg =
     bind_res (if coap_type msg = COAP_TYPE_RST then handle_reset c session msg else Inr c) (\<lambda>c.
     bind_res
       (xiny_transaction_handleResponse now session msg (coap_type msg = COAP_TYPE_CON \<or> coap_type msg = COAP_TYPE_NON)
          (transactionList c))
       (\<lambda>(finished, ts, es).
          bind_res (send_acks h es) (\<lambda>s.
            let c = c\<lparr>transactionList := ts\<rparr>
            in if \<not> finished \<and> coap_type msg = COAP_TYPE_CON
               then bind_res (xiny_message_send h (xiny_coap_init_message COAP_TYPE_ACK 0 (coap_mid msg)) session)
                      (\<lambda>(result, _, s'). Inr (result, c, s @ s', callbacks es))
               else Inr (COAP_NO_ERROR, c, s, callbacks es))))"

section \<open>Packets\<close>

text \<open>
  The memory at \<open>buffer\<close>, of which \<open>len\<close> bytes were received; \<open>err\<close> is \<open>xiny_coap_error_message\<close>.  The new context and
  error message come back, what was sent and which callbacks were called.
\<close>

definition send_error :: "host \<Rightarrow> nat \<Rightarrow> u8 \<Rightarrow> u16 \<Rightarrow> string \<Rightarrow> sent list res" where
  "send_error h session code mid err =
     (if code \<noteq> COAP_NO_ERROR \<and> code \<noteq> COAP_IGNORE
      then
        let code = (if 192 \<le> code then COAP_500 else code)
        in bind_res (xiny_message_send h (xiny_coap_set_payload (map of_char err) (xiny_coap_init_message COAP_TYPE_ACK code mid)) session)
             (\<lambda>(_, _, es). Inr es)
      else Inr [])"

definition xiny_lwm2m_handle_packet ::
    "lwm2m_env \<Rightarrow> host \<Rightarrow> int \<Rightarrow> 's lwm2m_context \<Rightarrow> string \<Rightarrow> u8 list \<Rightarrow> nat \<Rightarrow> nat
     \<Rightarrow> ('s lwm2m_context \<times> string \<times> sent list \<times> event list) option res" where
  "xiny_lwm2m_handle_packet env h now c err buffer len session =
     bind_res (xiny_coap_parse_message buffer (len mod 65536)) (\<lambda>(code, text, msg).
       let err = (case text of None \<Rightarrow> err | Some t \<Rightarrow> t)
       in bind_some
            (if code \<noteq> COAP_NO_ERROR then Inr (Some (code, c, [], []))
             else if COAP_GET \<le> coap_code msg \<and> coap_code msg \<le> COAP_DELETE
             then bind_some (answer_request env h now c session msg) (\<lambda>(code, c, es). Inr (Some (code, c, es, [])))
             else bind_res (take_response h now c session msg) (\<lambda>r. Inr (Some r)))
            (\<lambda>(code, c, es, cs).
               bind_res (send_error h session code (coap_mid msg) err) (\<lambda>es'. Inr (Some (c, err, es @ es', cs)))))"

end
