(* ===== verification/Lwm2mServeSpec.thy ===== *)
theory Lwm2mServeSpec
  imports Lwm2mPacket TlvSpec TransactionSpec
begin

text \<open>
  What the handling of packets rests on: messages that are sent, responses, what a session may reach, and the
  observations of a context.
\<close>

section \<open>Messages that are sent\<close>

lemma coap_header_nonempty: "coap_header m \<noteq> []"
  by (simp add: coap_header_def)

text \<open>With memory, a message that was set up goes out, when its Max-Age and its Size are short.\<close>

lemma message_sent_ok:
  assumes "packet_ok m" "unat (max_age m) < 2 ^ 24" "unat (coap_size m) < 2 ^ 24" "\<And>n. alloc h n"
  shows "xiny_message_send h m session =
    Inr (net h session (fst (xiny_coap_serialize_message m)), snd (xiny_coap_serialize_message m),
         [Sent session (fst (xiny_coap_serialize_message m))])"
proof -
  let ?b = "fst (xiny_coap_serialize_message m)"
  note ok = assms(1)
  have fits: "length ?b \<le> xiny_coap_serialize_get_size m" by (rule message_fits [OF ok assms(2,3)])
  have "?b \<noteq> []" by (simp add: serialized [OF ok] coap_header_nonempty)
  moreover from this have "0 < length ?b" by simp
  then have "0 < xiny_coap_serialize_get_size m" using fits by linarith
  ultimately show ?thesis
    using fits assms(4) by (simp add: xiny_message_send_def Let_def case_prod_beta)
qed

lemma message_sent:
  assumes "prepared m" "unat (max_age m) < 2 ^ 24" "unat (coap_size m) < 2 ^ 24" "\<And>n. alloc h n"
  shows "xiny_message_send h m session =
    Inr (net h session (fst (xiny_coap_serialize_message m)), snd (xiny_coap_serialize_message m),
         [Sent session (fst (xiny_coap_serialize_message m))])"
  by (rule message_sent_ok [OF prepared_ok [OF assms(1)] assms(2-4)])

lemma prepared_received:
  assumes "prepared m"
  defines "b \<equiv> fst (xiny_coap_serialize_message m)"
  shows "xiny_coap_parse_message b (length b) = Inr (COAP_NO_ERROR, None, as_received m)"
  unfolding b_def by (rule message_roundtrip [OF prepared_ok [OF assms(1)]])

lemma as_received_simps [simp]:
  "coap_type (as_received p) = coap_type p" "coap_code (as_received p) = coap_code p" "coap_mid (as_received p) = coap_mid p"
  "coap_token (as_received p) = coap_token p" "coap_uri_path (as_received p) = coap_uri_path p"
  "coap_payload (as_received p) = coap_payload p" "content_type (as_received p) = content_type p"
  "coap_observe (as_received p) = coap_observe p" "uri_query (as_received p) = uri_query p"
  "xiny_IS_OPTION (as_received p) k = xiny_IS_OPTION p k"
  by (simp_all add: as_received_def xiny_IS_OPTION_def)

section \<open>Responses\<close>

text \<open>The parts of a response that the request determines.\<close>

definition reply_type :: "coap_packet \<Rightarrow> coap_type" where
  "reply_type msg = (if coap_type msg = COAP_TYPE_CON then COAP_TYPE_ACK else COAP_TYPE_NON)"

definition reply_mid :: "'s lwm2m_context \<Rightarrow> coap_packet \<Rightarrow> u16" where
  "reply_mid c msg = (if coap_type msg = COAP_TYPE_CON then coap_mid msg else nextMID c)"

definition reply_to :: "'s lwm2m_context \<Rightarrow> coap_packet \<Rightarrow> coap_packet \<Rightarrow> bool" where
  "reply_to c msg r \<longleftrightarrow>
     coap_type r = reply_type msg \<and> coap_mid r = reply_mid c msg \<and> coap_token r = coap_token msg"

definition after_reply :: "coap_packet \<Rightarrow> 's lwm2m_context \<Rightarrow> 's lwm2m_context" where
  "after_reply msg c = (if coap_type msg = COAP_TYPE_CON then c else c\<lparr>nextMID := nextMID c + 1\<rparr>)"

lemma prepare_response_facts:
  assumes "length (coap_token msg) \<le> 8"
  shows "fst (prepare_response c msg) = after_reply msg c" "prepared (snd (prepare_response c msg))"
    "reply_to c msg (snd (prepare_response c msg))" "max_age (snd (prepare_response c msg)) = 0"
    "coap_size (snd (prepare_response c msg)) = 0" "coap_payload (snd (prepare_response c msg)) = []"
proof -
  show "prepared (snd (prepare_response c msg))"
    by (auto simp: prepare_response_def Let_def intro!: prepared.token prepared.init)
qed (use assms in \<open>auto simp: prepare_response_def Let_def after_reply_def reply_to_def reply_type_def reply_mid_def
      xiny_coap_set_header_token_def xiny_coap_init_message_def packet_zero_def COAP_TOKEN_LEN_def\<close>)

section \<open>Reading\<close>

definition plain :: "coap_packet \<Rightarrow> bool" where
  "plain p \<longleftrightarrow> (\<forall>k \<in> {COAP_OPTION_OBSERVE, COAP_OPTION_ACCEPT, COAP_OPTION_BLOCK1, COAP_OPTION_BLOCK2, COAP_OPTION_CONTENT_TYPE}.
     \<not> xiny_IS_OPTION p k)"

lemma plain_simps:
  assumes "plain p"
  shows "xiny_IS_OPTION p COAP_OPTION_OBSERVE = False" "xiny_IS_OPTION p COAP_OPTION_ACCEPT = False"
    "xiny_IS_OPTION p COAP_OPTION_BLOCK1 = False" "xiny_IS_OPTION p COAP_OPTION_BLOCK2 = False"
    "xiny_IS_OPTION p COAP_OPTION_CONTENT_TYPE = False"
  using assms by (simp_all add: plain_def)

lemma plain_as_received [simp]: "plain (as_received p) = plain p"
  by (simp add: plain_def)

lemma plain_blocks:
  assumes "plain p"
  shows "take_block1 h c session p response = Inr (COAP_NO_ERROR, c, p, response)" "give_block2 p response = response"
  using assms by (simp_all add: take_block1_def give_block2_def xiny_coap_get_header_block1_def xiny_coap_get_header_block2_def plain_simps)

text \<open>A path of the device management is neither of the registration nor of the bootstrap.\<close>

lemma proper_uri_dm: "proper_uri u \<Longrightarrow> uri_flag u AND LWM2M_URI_MASK_TYPE = LWM2M_URI_FLAG_DM"
  by (auto simp: proper_uri_def uri_flag_defs)

lemma read_as_tlv:
  assumes "xiny_object_read_lwm2mData_lwm2m obs u = (COAP_205_CONTENT, ds)" "\<And>n. length (fresh n) = n"
    and "ds \<noteq> []" "list_all (sendable (resource_instances (Some u) ds)) ds"
  shows "xiny_object_read_lwm2m fresh ftext obs u LWM2M_CONTENT_TLV =
      Inr (COAP_205_CONTENT, LWM2M_CONTENT_TLV, tlvs (resource_instances (Some u) ds) ds)"
    "xiny_lwm2m_data_parse u (tlvs (resource_instances (Some u) ds) ds) LWM2M_CONTENT_TLV = map as_read ds"
proof -
  let ?i = "resource_instances (Some u) ds"
  have "xiny_tlv_serialize fresh ?i ds = Inr (int (length (tlvs ?i ds)), tlvs ?i ds)"
    by (rule serialize_sendable [OF assms(2,4,3)])
  then show "xiny_object_read_lwm2m fresh ftext obs u LWM2M_CONTENT_TLV = Inr (COAP_205_CONTENT, LWM2M_CONTENT_TLV, tlvs ?i ds)"
    by (simp add: xiny_object_read_lwm2m_def assms(1) xiny_lwm2m_data_serialize_def choose_format_def xiny_tlv_serialize_lwm2m_def Let_def)
  show "xiny_lwm2m_data_parse u (tlvs ?i ds) LWM2M_CONTENT_TLV = map as_read ds"
    using parse_sendable [OF assms(4)] by (simp add: xiny_lwm2m_data_parse_def xiny_tlv_parse_lwm2m_def)
qed

lemma content_response:
  fixes format :: media_type
  assumes "prepared r" "length b < 65536"
  defines "r' \<equiv> snd (xiny_coap_set_status_code (put_content COAP_205_CONTENT format b r) (unat COAP_205_CONTENT))"
  shows "prepared r'" "coap_type r' = coap_type r" "coap_mid r' = coap_mid r" "coap_token r' = coap_token r"
    "coap_code r' = COAP_205_CONTENT" "coap_payload r' = b" "content_type r' = ucast (media_type_no format)"
    "max_age r' = max_age r" "coap_size r' = coap_size r"
proof -
  show "prepared r'"
    unfolding r'_def put_content_def by (simp add: prepared.status prepared.payload prepared.content assms(1))
qed (use assms(2) in \<open>simp_all add: r'_def put_content_def xiny_coap_set_status_code_def xiny_coap_set_payload_def
      xiny_coap_set_header_content_type_def COAP_205_CONTENT_def\<close>)

lemma handle_read:
  assumes "xiny_utils_findServer (serverList c) session = Some sv" "may_manage (status sv)"
    and "altPath c = None" "proper_uri u" "objectId u \<noteq> 0"
    and "coap_code msg = COAP_GET" "coap_uri_path msg = uri_segments u" "plain msg"
    and "xiny_object_read_lwm2m (junk env) (floatToText env) (objectList c) u LWM2M_CONTENT_TLV = Inr (COAP_205_CONTENT, format, b)"
  shows "handle_xiny_request env now c session msg r = Inr (Some (COAP_NO_ERROR, c,
    snd (xiny_coap_set_status_code (put_content COAP_205_CONTENT format b r) (unat COAP_205_CONTENT))))"
proof -
  have "xiny_dm_handleRequest env now c u sv msg r = Inr (Some (COAP_205_CONTENT, c, put_content COAP_205_CONTENT format b r))"
    using assms(2,5,6,8,9)
    by (simp add: xiny_dm_handleRequest_def dm_get_def plain_simps accepted_format_def LWM2M_SECURITY_OBJECT_ID_def)
  moreover have "COAP_IGNORE < COAP_205_CONTENT \<and> COAP_205_CONTENT < COAP_400_BAD_REQUEST" by (simp add: result_defs)
  ultimately show ?thesis
    using assms(1,3,7) decode_segments [OF assms(4)] proper_uri_dm [OF assms(4)]
    by (simp add: handle_xiny_request_def)
qed

section \<open>What the objects have to do with a packet\<close>

definition on_objects :: "('s lwm2m_object list \<Rightarrow> 's lwm2m_object list) \<Rightarrow> 's lwm2m_context \<Rightarrow> 's lwm2m_context" where
  "on_objects f c = c\<lparr>objectList := f (objectList c)\<rparr>"

lemma on_objects_simps [simp]:
  "objectList (on_objects f c) = f (objectList c)" "serverList (on_objects f c) = serverList c"
  "observedList (on_objects f c) = observedList c" "altPath (on_objects f c) = altPath c" "nextMID (on_objects f c) = nextMID c"
  "transactionList (on_objects f c) = transactionList c"
  "(on_objects f c)\<lparr>serverList := ss\<rparr> = on_objects f (c\<lparr>serverList := ss\<rparr>)"
  "(on_objects f c)\<lparr>observedList := os\<rparr> = on_objects f (c\<lparr>observedList := os\<rparr>)"
  "(on_objects f c)\<lparr>transactionList := ts\<rparr> = on_objects f (c\<lparr>transactionList := ts\<rparr>)"
  "(on_objects f c)\<lparr>nextMID := n\<rparr> = on_objects f (c\<lparr>nextMID := n\<rparr>)"
  by (simp_all add: on_objects_def)

text \<open>The same result in the changed context.\<close>

definition lift_context :: "('c \<Rightarrow> 'd) \<Rightarrow> ('a \<times> 'c \<times> 'b) option res \<Rightarrow> ('a \<times> 'd \<times> 'b) option res" where
  "lift_context g r = bind_res r (\<lambda>x. Inr (map_option (\<lambda>(a, c, b). (a, g c, b)) x))"

lemma lift_context_simps [simp]:
  "lift_context g (Inl e) = Inl e" "lift_context g (Inr None) = Inr None" "lift_context g (Inr (Some (a, c, b))) = Inr (Some (a, g c, b))"
  by (simp_all add: lift_context_def)

lemma bind_lift_context:
  "bind_some (lift_context g r) k = bind_some r (\<lambda>(a, c, b). k (a, g c, b))"
  by (cases r) (auto simp: lift_context_def bind_some_def split: option.split)

lemma lift_bind_some:
  "lift_context g (bind_some r k) = bind_some r (\<lambda>x. lift_context g (k x))"
  by (cases r) (auto simp: bind_some_def lift_context_def split: option.split)

lemma lift_bind_res:
  "lift_context g (bind_res r k) = bind_res r (\<lambda>x. lift_context g (k x))"
  by (cases r) (simp_all add: lift_context_def)

definition lift_packet :: "('c \<Rightarrow> 'd) \<Rightarrow> ('c \<times> 'b) option res \<Rightarrow> ('d \<times> 'b) option res" where
  "lift_packet g r = bind_res r (\<lambda>x. Inr (map_option (\<lambda>(c, b). (g c, b)) x))"

lemma lift_packet_simps [simp]:
  "lift_packet g (Inl e) = Inl e" "lift_packet g (Inr None) = Inr None" "lift_packet g (Inr (Some (c, b))) = Inr (Some (g c, b))"
  by (simp_all add: lift_packet_def)

lemma lift_packet_bind: "lift_packet g (bind_res r k) = bind_res r (\<lambda>x. lift_packet g (k x))"
  "lift_packet g (bind_some q j) = bind_some q (\<lambda>x. lift_packet g (j x))"
  by (cases r, simp_all add: lift_packet_def) (cases q, auto simp: bind_some_def split: option.split)

lemma take_block1_objects:
  "take_block1 h (on_objects f c) session msg r =
     bind_res (take_block1 h c session msg r) (\<lambda>(result, c, x). Inr (result, on_objects f c, x))"
  by (auto simp: take_block1_def Let_def bind_res_assoc split_def split: option.split)

text \<open>A packet is handled alike when the requests on the objects are.\<close>

definition keeps_server :: "('s lwm2m_context \<Rightarrow> bool) \<Rightarrow> nat \<Rightarrow> bool" where
  "keeps_server P session \<longleftrightarrow>
     (\<forall>c n d. P c \<longrightarrow> P (c\<lparr>nextMID := n\<rparr>) \<and> P (c\<lparr>serverList := set_block1_data session d (serverList c)\<rparr>))"

lemma keeps_server_block:
  assumes "keeps_server P session" "P c" "take_block1 h c session msg r = Inr (result, c', msg', r')"
  shows "P c'"
  using assms by (auto simp: keeps_server_def take_block1_def Let_def bind_res_eq_Inr split: option.splits)

lemma answer_commutes:
  assumes handle: "\<And>c msg r. P c \<Longrightarrow>
      handle_xiny_request env now (on_objects f c) session msg r = lift_context (on_objects f) (handle_xiny_request env now c session msg r)"
    and "keeps_server P session" "P c"
  shows "answer_request env h now (on_objects f c) session msg = lift_context (on_objects f) (answer_request env h now c session msg)"
proof -
  obtain c1 r1 where prep: "prepare_response c msg = (c1, r1)" "prepare_response (on_objects f c) msg = (on_objects f c1, r1)"
    by (cases "prepare_response c msg") (auto simp: prepare_response_def Let_def split: if_splits)
  have "P c1"
    using prep(1) assms(2,3) by (auto simp: prepare_response_def Let_def keeps_server_def split: if_splits)
  show ?thesis
  proof (cases "take_block1 h c1 session msg r1")
    case (Inl e)
    then show ?thesis by (simp add: answer_request_def prep take_block1_objects)
  next
    case (Inr x)
    obtain result c2 msg2 r2 where x: "x = (result, c2, msg2, r2)" by (cases x)
    have "P c2" by (rule keeps_server_block [OF assms(2) \<open>P c1\<close>]) (use Inr x in simp)
    then show ?thesis
      by (auto simp: answer_request_def prep take_block1_objects Inr x handle bind_lift_context lift_bind_some lift_bind_res
          bind_res_def bind_some_def split: option.split sum.split prod.split)
  qed
qed

lemma response_commutes:
  "take_response h now (on_objects f c) session msg =
   bind_res (take_response h now c session msg) (\<lambda>(r, c, x). Inr (r, on_objects f c, x))"
  by (auto simp: take_response_def handle_reset_def Let_def bind_res_def split: sum.split prod.split)

lemma packet_commutes:
  assumes "\<And>c msg r. P c \<Longrightarrow>
      handle_xiny_request env now (on_objects f c) session msg r = lift_context (on_objects f) (handle_xiny_request env now c session msg r)"
    and "keeps_server P session" "P c"
  shows "xiny_lwm2m_handle_packet env h now (on_objects f c) err buffer len session =
    lift_packet (on_objects f) (xiny_lwm2m_handle_packet env h now c err buffer len session)"
  using answer_commutes [OF assms, where h = h]
  by (auto simp: xiny_lwm2m_handle_packet_def response_commutes bind_lift_context lift_packet_bind Let_def
      bind_res_def bind_some_def split: option.split sum.split prod.split)

section \<open>Sessions without registration\<close>

definition stranger :: "nat \<Rightarrow> 's lwm2m_context \<Rightarrow> bool" where
  "stranger session c \<longleftrightarrow> (\<forall>sv \<in> set (serverList c). sessionH sv = session \<longrightarrow> \<not> may_manage (status sv))"

lemma update_first_Ball: "(\<And>x. Q x \<Longrightarrow> Q (g x)) \<Longrightarrow> \<forall>x \<in> set xs. Q x \<Longrightarrow> \<forall>x \<in> set (update_first R g xs). Q x"
  by (induction xs) auto

lemma stranger_kept: "keeps_server (stranger session :: 's lwm2m_context \<Rightarrow> bool) session"
proof -
  have "stranger session (c\<lparr>serverList := set_block1_data session d (serverList c)\<rparr>)" if "stranger session c" for c :: "'s lwm2m_context" and d
  proof -
    have "\<forall>sv \<in> set (set_block1_data session d (serverList c)). sessionH sv = session \<longrightarrow> \<not> may_manage (status sv)"
      unfolding set_block1_data_def by (rule update_first_Ball) (use that in \<open>auto simp: stranger_def\<close>)
    then show ?thesis by (simp add: stranger_def)
  qed
  moreover have "stranger session (c\<lparr>nextMID := n\<rparr>)" if "stranger session c" for c :: "'s lwm2m_context" and n
    using that by (simp add: stranger_def)
  ultimately show ?thesis by (simp add: keeps_server_def)
qed

lemma stranger_request:
  assumes "stranger session c"
  shows "handle_xiny_request env now (on_objects f c) session msg r =
    lift_context (on_objects f) (handle_xiny_request env now c session msg r)"
proof -
  have "\<not> may_manage (status sv)" if "xiny_utils_findServer (serverList c) session = Some sv" for sv
    using that assms by (auto simp: xiny_utils_findServer_def find_Some_iff stranger_def)
  then show ?thesis
    by (auto simp: handle_xiny_request_def xiny_dm_handleRequest_def bind_res_def bind_some_def lift_context_def Let_def
        split: sum.split option.split)
qed

section \<open>The security object\<close>

definition reseal :: "('s lwm2m_object \<Rightarrow> 's lwm2m_object) \<Rightarrow> 's lwm2m_object list \<Rightarrow> 's lwm2m_object list" where
  "reseal s obs = map (\<lambda>ob. if objID ob = LWM2M_SECURITY_OBJECT_ID then s ob else ob) obs"

lemma find_reseal:
  assumes "\<And>ob. objID (s ob) = objID ob" "i \<noteq> LWM2M_SECURITY_OBJECT_ID"
  shows "find_object (reseal s obs) i = find_object obs i"
  using assms by (induction obs) (auto simp: find_object_def reseal_def xiny_lwm2m_list_find_def)

lemma put_reseal:
  assumes "\<And>ob. objID (s ob) = objID ob" "objID ob \<noteq> LWM2M_SECURITY_OBJECT_ID"
  shows "put_object ob (reseal s obs) = reseal s (put_object ob obs)"
  using assms by (induction obs) (auto simp: put_object_def reseal_def)

lemma find_object_id: "find_object obs i = Some ob \<Longrightarrow> objID ob = i"
  by (auto simp: find_object_def xiny_lwm2m_list_find_def split: list.splits if_splits)

lemma put_found:
  assumes "\<And>ob. objID (s ob) = objID ob" "i \<noteq> LWM2M_SECURITY_OBJECT_ID" "find_object obs i = Some ob"
  shows "put_object (set_object_state st ob) (reseal s obs) = reseal s (put_object (set_object_state st ob) obs)"
  by (rule put_reseal [OF assms(1)]) (use assms(2) find_object_id [OF assms(3)] in \<open>simp add: set_object_state_def\<close>)

lemma reads_reseal:
  assumes "\<And>ob. objID (s ob) = objID ob" "objectId u \<noteq> LWM2M_SECURITY_OBJECT_ID"
  shows "xiny_object_read_lwm2mData_lwm2m (reseal s obs) u = xiny_object_read_lwm2mData_lwm2m obs u"
    "xiny_object_read_lwm2m jk txt (reseal s obs) u format = xiny_object_read_lwm2m jk txt obs u format"
    "xiny_object_checkReadable_lwm2m (reseal s obs) u a = xiny_object_checkReadable_lwm2m obs u a"
    "xiny_object_discover_lwm2m (reseal s obs) u = xiny_object_discover_lwm2m obs u"
  by (simp_all add: xiny_object_read_lwm2mData_lwm2m_def xiny_object_read_lwm2m_def xiny_object_checkReadable_lwm2m_def
      xiny_object_discover_lwm2m_def find_reseal [OF assms])

lemma writes_reseal:
  assumes "\<And>ob. objID (s ob) = objID ob" "objectId u \<noteq> LWM2M_SECURITY_OBJECT_ID"
  shows "xiny_object_write_lwm2m (reseal s obs) u format b =
      (case xiny_object_write_lwm2m obs u format b of (r, obs) \<Rightarrow> (r, reseal s obs))"
    "xiny_object_execute_lwm2m (reseal s obs) u b = (case xiny_object_execute_lwm2m obs u b of (r, obs) \<Rightarrow> (r, reseal s obs))"
    "xiny_object_create_lwm2m (reseal s obs) u format b =
      bind_res (xiny_object_create_lwm2m obs u format b) (\<lambda>(r, obs, u). Inr (r, reseal s obs, u))"
    "xiny_object_delete_lwm2m (reseal s obs) os u =
      map_option (\<lambda>(r, obs, os). (r, reseal s obs, os)) (xiny_object_delete_lwm2m obs os u)"
  by (auto simp: xiny_object_write_lwm2m_def xiny_object_execute_lwm2m_def xiny_object_create_lwm2m_def xiny_object_delete_lwm2m_def
      find_reseal [OF assms] put_found [OF assms] Let_def bind_res_def option.map_comp o_def split_def
      split: option.split list.split lwm2m_data_type.split sum.split)

lemma sealed_dm:
  assumes "\<And>ob. objID (s ob) = objID ob"
  shows "xiny_dm_handleRequest env now (on_objects (reseal s) c) u sv msg r =
    bind_res (xiny_dm_handleRequest env now c u sv msg r) (\<lambda>x. Inr (map_option (\<lambda>(a, c, b). (a, on_objects (reseal s) c, b)) x))"
proof (cases "objectId u = LWM2M_SECURITY_OBJECT_ID")
  case True
  then show ?thesis by (simp add: xiny_dm_handleRequest_def Let_def)
next
  case False
  note ops = reads_reseal [OF assms False] writes_reseal [OF assms False]
  have get: "dm_get env now (on_objects (reseal s) c) u sv format msg r =
      bind_res (dm_get env now c u sv format msg r) (\<lambda>(a, c, b). Inr (a, on_objects (reseal s) c, b))" for format
    by (auto simp: dm_get_def ops bind_res_def Let_def split: sum.split prod.split)
  have post: "dm_post (on_objects (reseal s) c) u format msg r =
      bind_res (dm_post c u format msg r) (\<lambda>(a, c, b). Inr (a, on_objects (reseal s) c, b))" for format
    by (auto simp: dm_post_def ops bind_res_def Let_def on_objects_def split: sum.split prod.split)
  have put: "dm_put env (on_objects (reseal s) c) u sv format msg =
      bind_res (dm_put env c u sv format msg) (\<lambda>(a, c). Inr (a, on_objects (reseal s) c))" for format
    by (auto simp: dm_put_def xiny_observe_setParameters_lwm2m_def ops bind_res_def Let_def on_objects_def
        split: sum.split prod.split option.split)
  have del: "dm_delete (on_objects (reseal s) c) u = map_option (\<lambda>(a, c). (a, on_objects (reseal s) c)) (dm_delete c u)"
    by (cases "xiny_object_delete_lwm2m (objectList c) (observedList c) u") (auto simp: dm_delete_def ops Let_def on_objects_def)
  show ?thesis
    by (auto simp: xiny_dm_handleRequest_def get post put del Let_def bind_res_assoc option.map_comp o_def split_def)
qed

lemma sealed_request:
  assumes "\<And>ob. objID (s ob) = objID ob"
  shows "handle_xiny_request env now (on_objects (reseal s) c) session msg r =
    lift_context (on_objects (reseal s)) (handle_xiny_request env now c session msg r)"
  by (auto simp: handle_xiny_request_def sealed_dm [OF assms] bind_res_def bind_some_def lift_context_def
        split: sum.split option.split)

end
