(* ===== verification/Lwm2mNotifySpec.thy ===== *)
theory Lwm2mNotifySpec
  imports Lwm2mServeSpec
begin

text \<open>
  Notifications: what a watcher without attributes is sent when a value has changed.
\<close>

section \<open>The message\<close>

definition notice :: "lwm2m_server list \<Rightarrow> lwm2m_uri \<Rightarrow> lwm2m_data list \<Rightarrow> watcher \<Rightarrow> sent \<Rightarrow> bool" where
  "notice ss u ds w s \<longleftrightarrow>
     session_of ss (server w) = Some (sent_session s)
     \<and> (\<exists>r. xiny_coap_parse_message (sent_bytes s) (length (sent_bytes s)) = Inr (COAP_NO_ERROR, None, r)
           \<and> coap_type r = COAP_TYPE_NON \<and> coap_code r = COAP_205_CONTENT \<and> coap_token r = wtoken w
           \<and> xiny_coap_get_header_observe r = Some (0x00FFFFFF AND counter w)
           \<and> xiny_utils_convertMediaType (content_type r) = LWM2M_CONTENT_TLV
           \<and> xiny_lwm2m_data_parse u (coap_payload r) LWM2M_CONTENT_TLV = map as_read ds)"

lemma notice_update [simp]: "notice ss u ds (w\<lparr>wupdate := b\<rparr>) = notice ss u ds w"
  by (simp add: notice_def fun_eq_iff)

text \<open>The message of an observation, before and after it is sent to a watcher.\<close>

definition made :: "coap_packet \<Rightarrow> u8 list \<Rightarrow> bool" where
  "made m b \<longleftrightarrow> packet_ok m \<and> coap_type m = COAP_TYPE_NON \<and> coap_code m = COAP_205_CONTENT \<and> coap_payload m = b
     \<and> content_type m = 11542 \<and> max_age m = 0 \<and> coap_size m = 0 \<and> coap_uri_path m = [] \<and> uri_query m = [] \<and> location_path m = []"

definition addressed :: "watcher \<Rightarrow> u16 \<Rightarrow> coap_packet \<Rightarrow> coap_packet" where
  "addressed w mid m =
     xiny_coap_set_header_observe (counter w) (xiny_coap_set_header_token (wtoken w) (length (wtoken w)) (m\<lparr>coap_mid := mid\<rparr>))"

lemma packet_ok_kept:
  "packet_ok (p\<lparr>coap_mid := mid\<rparr>) = packet_ok p" "packet_ok (p\<lparr>coap_version := v\<rparr>) = packet_ok p"
  by (simp_all add: packet_ok_defs)

lemma packet_ok_token: "packet_ok p \<Longrightarrow> t \<noteq> [] \<Longrightarrow> 0 < n \<Longrightarrow> packet_ok (xiny_coap_set_header_token t n p)"
  by (simp add: packet_ok_defs xiny_coap_set_header_token_def COAP_TOKEN_LEN_def min_def)

lemma packet_ok_observe: "packet_ok p \<Longrightarrow> packet_ok (xiny_coap_set_header_observe v p)"
  by (simp add: packet_ok_defs xiny_coap_set_header_observe_def known_options)

lemma free_nothing:
  assumes "coap_uri_path m = []" "uri_query m = []" "location_path m = []"
  shows "xiny_coap_free_header (m\<lparr>coap_version := v\<rparr>) = m\<lparr>coap_version := v\<rparr>"
  using assms by (cases m) (simp add: xiny_coap_free_header_def)

lemma made_addressed:
  assumes "made m b" "wtoken w \<noteq> []" "length (wtoken w) \<le> 8"
  shows "made (addressed w mid m) b" "coap_token (addressed w mid m) = wtoken w"
    "xiny_coap_get_header_observe (addressed w mid m) = Some (0x00FFFFFF AND counter w)"
proof -
  have "packet_ok (addressed w mid m)"
    using assms(1,2) unfolding made_def addressed_def
    by (intro packet_ok_observe packet_ok_token) (simp_all add: packet_ok_kept)
  then show "made (addressed w mid m) b"
    using assms(1) by (simp add: made_def addressed_def xiny_coap_set_header_token_def xiny_coap_set_header_observe_def)
  show "coap_token (addressed w mid m) = wtoken w"
    using assms(3) by (simp add: addressed_def xiny_coap_set_header_token_def xiny_coap_set_header_observe_def COAP_TOKEN_LEN_def)
  show "xiny_coap_get_header_observe (addressed w mid m) = Some (0x00FFFFFF AND counter w)"
    by (simp add: addressed_def xiny_coap_get_header_observe_def xiny_coap_set_header_observe_def COAP_OPTION_OBSERVE_def)
qed

lemma made_after: "made m b \<Longrightarrow> made (snd (xiny_coap_serialize_message m)) b"
  by (simp add: made_def xiny_coap_serialize_message_def free_nothing packet_ok_kept)

lemma made_first:
  assumes "length b < 65536"
  shows "made (xiny_coap_set_payload b (xiny_coap_set_header_content_type (media_type_no LWM2M_CONTENT_TLV)
    (xiny_coap_init_message COAP_TYPE_NON COAP_205_CONTENT 0))) b"
proof -
  have "packet_ok (xiny_coap_set_payload b (xiny_coap_set_header_content_type (media_type_no LWM2M_CONTENT_TLV)
      (xiny_coap_init_message COAP_TYPE_NON COAP_205_CONTENT 0)))"
    by (intro prepared_ok prepared.payload prepared.content prepared.init)
  then show ?thesis
    using assms by (simp add: made_def xiny_coap_set_payload_def xiny_coap_set_header_content_type_def xiny_coap_init_message_def packet_zero_def)
qed

lemma made_notice:
  assumes "made m b" "coap_token m = wtoken w" "xiny_coap_get_header_observe m = Some (0x00FFFFFF AND counter w)"
    and "session_of ss (server w) = Some session" "xiny_lwm2m_data_parse u b LWM2M_CONTENT_TLV = map as_read ds"
  shows "notice ss u ds w (Sent session (fst (xiny_coap_serialize_message m)))"
proof -
  have "xiny_coap_get_header_observe (as_received m) = xiny_coap_get_header_observe m"
    by (simp add: xiny_coap_get_header_observe_def)
  moreover have "xiny_utils_convertMediaType 11542 = LWM2M_CONTENT_TLV" by (simp add: xiny_utils_convertMediaType_def)
  ultimately show ?thesis
    using assms message_roundtrip [of m] by (simp add: notice_def made_def)
qed

section \<open>A watcher\<close>

definition no_attributes :: "lwm2m_server list \<Rightarrow> watcher \<Rightarrow> bool" where
  "no_attributes ss w \<longleftrightarrow> parameters w = None \<and> wformat w = LWM2M_CONTENT_TLV \<and> wtoken w \<noteq> [] \<and> length (wtoken w) \<le> 8
     \<and> session_of ss (server w) \<noteq> None"

definition pending :: "watcher \<Rightarrow> bool" where
  "pending w \<longleftrightarrow> active w \<and> wupdate w"

definition ready_message :: "u8 list \<Rightarrow> notifier \<Rightarrow> bool" where
  "ready_message b nt \<longleftrightarrow> (case notify_message nt of None \<Rightarrow> True | Some m \<Rightarrow> made m b)"

lemma send_made:
  assumes "made m b" "b \<noteq> []" "no_attributes ss w" "\<And>n. alloc h n" "xiny_lwm2m_data_parse u b LWM2M_CONTENT_TLV = map as_read ds"
  shows "\<exists>w' nt' s. send_notification h ss now val m w nt = Inr (w', nt') \<and> no_attributes ss w' \<and> \<not> pending w'
    \<and> ready_message b nt' \<and> notify_timeout nt' = notify_timeout nt \<and> notify_sent nt' = notify_sent nt @ [s] \<and> notice ss u ds w s"
proof -
  let ?m = "addressed w (notify_mid nt) m"
  obtain session where session: "session_of ss (server w) = Some session" using assms(3) by (auto simp: no_attributes_def)
  have tok: "wtoken w \<noteq> []" "length (wtoken w) \<le> 8" using assms(3) by (simp_all add: no_attributes_def)
  note m = made_addressed [OF assms(1) tok, of "notify_mid nt"]
  have "packet_ok ?m" "max_age ?m = 0" "coap_size ?m = 0" using m(1) by (simp_all add: made_def)
  then have sent: "xiny_message_send h ?m session =
      Inr (net h session (fst (xiny_coap_serialize_message ?m)), snd (xiny_coap_serialize_message ?m),
           [Sent session (fst (xiny_coap_serialize_message ?m))])"
    using assms(4) by (intro message_sent_ok) simp_all
  have after: "made (snd (xiny_coap_serialize_message ?m)) b" by (rule made_after [OF m(1)])
  then have "coap_payload (snd (xiny_coap_serialize_message ?m)) \<noteq> []" using assms(2) by (simp add: made_def)
  with sent after session show ?thesis
    using assms(3) made_notice [OF m session assms(5)]
    by (auto simp: send_notification_def addressed_def Let_def no_attributes_def pending_def ready_message_def)
qed

lemma watcher_notified:
  assumes "no_attributes ss w" "pending w" "ready_message b nt" "b \<noteq> []" "length b < 65536" "\<And>n. alloc h n"
    and "xiny_lwm2m_data_parse u b LWM2M_CONTENT_TLV = map as_read ds"
    and "notification_payload env obs u rd LWM2M_CONTENT_TLV = Inr (LWM2M_CONTENT_TLV, Some b)"
  shows "\<exists>w' nt' s. watcher_step env h ss obs now u rd val w nt = Inr (w', nt', True) \<and> no_attributes ss w' \<and> \<not> pending w'
    \<and> ready_message b nt' \<and> notify_timeout nt' = notify_timeout nt \<and> notify_sent nt' = notify_sent nt @ [s] \<and> notice ss u ds w s"
proof -
  have w: "active w" "wupdate w" "parameters w = None" "wformat w = LWM2M_CONTENT_TLV"
    using assms(1,2) by (simp_all add: no_attributes_def pending_def)
  have due: "update_due env now val w = Inr (True, None)" by (simp add: update_due_def w)
  obtain m where m: "notification env obs u rd (notify_message nt) w = Inr (w, Some m)" "made m b"
    using assms(3,8) made_first [OF assms(5)] w
    by (cases "notify_message nt") (auto simp: notification_def ready_message_def)
  have nt: "nt\<lparr>notify_timeout := shorter (notify_timeout nt) None\<rparr> = nt" by (simp add: shorter_def)
  obtain w' nt' s where send: "send_notification h ss now val m w nt = Inr (w', nt')" "no_attributes ss w'" "\<not> pending w'"
    "ready_message b nt'" "notify_timeout nt' = notify_timeout nt" "notify_sent nt' = notify_sent nt @ [s]" "notice ss u ds w s"
    using send_made [OF m(2) assms(4,1,6,7)] by blast
  have "max_wait now w' = None" using send(2) by (simp add: max_wait_def no_attributes_def)
  then have "nt'\<lparr>notify_timeout := shorter (notify_timeout nt') (max_wait now w')\<rparr> = nt'" by (simp add: shorter_def)
  then have "watcher_step env h ss obs now u rd val w nt = Inr (w', nt', True)"
    using w(1) by (simp add: watcher_step_def due nt m(1) send(1))
  then show ?thesis using send by blast
qed

lemma watcher_quiet:
  assumes "parameters w = None" "\<not> pending w"
  shows "watcher_step env h ss obs now u rd val w nt = Inr (w, nt, True)"
  using assms by (simp add: watcher_step_def pending_def update_due_def max_due_def max_wait_def shorter_def)

lemma watchers_notified:
  assumes "\<And>w. w \<in> set ws \<Longrightarrow> no_attributes ss w" "ready_message b nt" "b \<noteq> []" "length b < 65536" "\<And>n. alloc h n"
    and "xiny_lwm2m_data_parse u b LWM2M_CONTENT_TLV = map as_read ds"
    and "notification_payload env obs u rd LWM2M_CONTENT_TLV = Inr (LWM2M_CONTENT_TLV, Some b)"
  shows "\<exists>ws' nt' es. watchers_step env h ss obs now u rd val ws nt = Inr (ws', nt') \<and> (\<forall>w \<in> set ws'. no_attributes ss w \<and> \<not> pending w)
    \<and> notify_timeout nt' = notify_timeout nt \<and> notify_sent nt' = notify_sent nt @ es \<and> list_all2 (notice ss u ds) (filter pending ws) es"
  using assms(1,2)
proof (induction ws arbitrary: nt)
  case (Cons w ws)
  show ?case
  proof (cases "pending w")
    case True
    obtain w' nt1 s where w': "watcher_step env h ss obs now u rd val w nt = Inr (w', nt1, True)" "no_attributes ss w'" "\<not> pending w'"
      "ready_message b nt1" "notify_timeout nt1 = notify_timeout nt" "notify_sent nt1 = notify_sent nt @ [s]" "notice ss u ds w s"
      using watcher_notified [OF _ True Cons.prems(2) assms(3-7)] Cons.prems(1) by (metis list.set_intros(1))
    obtain ws' nt' es where "watchers_step env h ss obs now u rd val ws nt1 = Inr (ws', nt')"
      "\<forall>w \<in> set ws'. no_attributes ss w \<and> \<not> pending w" "notify_timeout nt' = notify_timeout nt1"
      "notify_sent nt' = notify_sent nt1 @ es" "list_all2 (notice ss u ds) (filter pending ws) es"
      using Cons.IH [of nt1] Cons.prems(1) w'(4) by auto
    then show ?thesis using w' True by (auto intro!: exI [of _ "s # es"])
  next
    case False
    have "parameters w = None" using Cons.prems(1) by (simp add: no_attributes_def)
    moreover obtain ws' nt' es where "watchers_step env h ss obs now u rd val ws nt = Inr (ws', nt')"
      "\<forall>w \<in> set ws'. no_attributes ss w \<and> \<not> pending w" "notify_timeout nt' = notify_timeout nt"
      "notify_sent nt' = notify_sent nt @ es" "list_all2 (notice ss u ds) (filter pending ws) es"
      using Cons.IH [of nt] Cons.prems by auto
    ultimately show ?thesis using False Cons.prems(1) by (auto simp: watcher_quiet)
  qed
qed simp

lemma watchers_quiet:
  "(\<And>w. w \<in> set ws \<Longrightarrow> no_attributes ss w \<and> \<not> pending w) \<Longrightarrow> watchers_step env h ss' obs now u rd val ws nt = Inr (ws, nt)"
  by (induction ws) (simp_all add: watcher_quiet no_attributes_def)

section \<open>The observations\<close>

text \<open>The object gives data for the path that fits one message.\<close>

definition reads_tlv :: "'s lwm2m_object list \<Rightarrow> lwm2m_uri \<Rightarrow> lwm2m_data list \<Rightarrow> bool" where
  "reads_tlv obs u ds \<longleftrightarrow>
     xiny_object_read_lwm2mData_lwm2m obs u = (COAP_205_CONTENT, ds) \<and> ds \<noteq> []
     \<and> list_all (sendable (resource_instances (Some u) ds)) ds \<and> length (tlvs (resource_instances (Some u) ds) ds) < 65536"

lemma sendable_number:
  "sendable inst d \<Longrightarrow> data_type d = LWM2M_TYPE_INTEGER \<Longrightarrow> \<exists>x. data_value d = AsInteger x"
  "sendable inst d \<Longrightarrow> data_type d = LWM2M_TYPE_FLOAT \<Longrightarrow> \<exists>x. data_value d = AsFloat x"
  by (cases d; auto split: lwm2m_value.splits)+

lemma last_value_ok: "sendable inst d \<Longrightarrow> \<exists>v. last_value u (d # ds) old = Inr v"
  using sendable_number [of inst d]
  by (cases "data_type d") (auto simp: last_value_def split: lwm2m_value.splits)

lemma observed_value_ok:
  assumes "reads_tlv obs u ds" "\<And>n. length (junk env n) = n"
  shows "\<exists>rd val. observed_value obs u = Inr (Some (rd, val))
    \<and> notification_payload env obs u rd LWM2M_CONTENT_TLV = Inr (LWM2M_CONTENT_TLV, Some (tlvs (resource_instances (Some u) ds) ds))"
proof -
  have r: "xiny_object_read_lwm2mData_lwm2m obs u = (COAP_205_CONTENT, ds)" "ds \<noteq> []"
    "list_all (sendable (resource_instances (Some u) ds)) ds"
    using assms(1) by (simp_all add: reads_tlv_def)
  obtain d rest where ds: "ds = d # rest" using r(2) by (cases ds) auto
  have ser: "xiny_tlv_serialize (junk env) (resource_instances (Some u) ds) ds =
      Inr (int (length (tlvs (resource_instances (Some u) ds) ds)), tlvs (resource_instances (Some u) ds) ds)"
    by (rule serialize_sendable [OF assms(2) r(3,2)])
  show ?thesis
  proof (cases "LWM2M_URI_IS_SET_RESOURCE u")
    case True
    obtain v where "last_value u ds 0 = Inr v" using last_value_ok r(3) ds by fastforce
    with True r(1) ds have "\<exists>val. observed_value obs u = Inr (Some (Some ds, val))" by (simp add: observed_value_def)
    moreover have "notification_payload env obs u (Some ds) LWM2M_CONTENT_TLV =
        Inr (LWM2M_CONTENT_TLV, Some (tlvs (resource_instances (Some u) ds) ds))"
      using ser by (simp add: notification_payload_def xiny_lwm2m_data_serialize_def choose_format_def xiny_tlv_serialize_lwm2m_def Let_def)
    ultimately show ?thesis by blast
  next
    case False
    then have "observed_value obs u = Inr (Some (None, None))" by (simp add: observed_value_def)
    moreover have "notification_payload env obs u None LWM2M_CONTENT_TLV =
        Inr (LWM2M_CONTENT_TLV, Some (tlvs (resource_instances (Some u) ds) ds))"
      by (simp add: notification_payload_def read_as_tlv(1) [OF r(1) assms(2) r(2,3)])
    ultimately show ?thesis by blast
  qed
qed

definition observed_ok :: "lwm2m_server list \<Rightarrow> 's lwm2m_object list \<Rightarrow> (lwm2m_uri \<Rightarrow> lwm2m_data list) \<Rightarrow> observed \<Rightarrow> bool" where
  "observed_ok ss obs data x \<longleftrightarrow> reads_tlv obs (ouri x) (data (ouri x)) \<and> (\<forall>w \<in> set (watcherList x). no_attributes ss w)"

definition pendings :: "observed \<Rightarrow> (lwm2m_uri \<times> watcher) list" where
  "pendings x = map (Pair (ouri x)) (filter pending (watcherList x))"

definition noted :: "lwm2m_server list \<Rightarrow> (lwm2m_uri \<Rightarrow> lwm2m_data list) \<Rightarrow> lwm2m_uri \<times> watcher \<Rightarrow> sent \<Rightarrow> bool" where
  "noted ss data p s \<longleftrightarrow> notice ss (fst p) (data (fst p)) (snd p) s"

lemma observed_notified:
  assumes "\<And>x. x \<in> set os \<Longrightarrow> observed_ok ss obs data x" "\<And>n. alloc h n" "\<And>n. length (junk env n) = n"
  shows "\<exists>os' nt' es. observed_step env h ss obs now os nt = Inr (os', nt')
    \<and> (\<forall>x \<in> set os'. observed_ok ss obs data x \<and> pendings x = [])
    \<and> notify_timeout nt' = notify_timeout nt \<and> notify_sent nt' = notify_sent nt @ es
    \<and> list_all2 (noted ss data) (concat (map pendings os)) es"
  using assms(1)
proof (induction os arbitrary: nt)
  case (Cons x xs)
  let ?u = "ouri x" and ?nt = "nt\<lparr>notify_message := None\<rparr>"
  let ?ds = "data ?u" let ?b = "tlvs (resource_instances (Some ?u) ?ds) ?ds"
  have x: "reads_tlv obs ?u ?ds" "\<And>w. w \<in> set (watcherList x) \<Longrightarrow> no_attributes ss w"
    using Cons.prems [of x] by (simp_all add: observed_ok_def)
  obtain rd val where v: "observed_value obs ?u = Inr (Some (rd, val))"
    "notification_payload env obs ?u rd LWM2M_CONTENT_TLV = Inr (LWM2M_CONTENT_TLV, Some ?b)"
    using observed_value_ok [OF x(1) assms(3)] by blast
  have b: "?b \<noteq> []" "length ?b < 65536" "xiny_lwm2m_data_parse ?u ?b LWM2M_CONTENT_TLV = map as_read ?ds"
    using x(1) tlvs_nonempty [of _ ?ds] read_as_tlv(2) [OF _ assms(3), of obs ?u ?ds] by (auto simp: reads_tlv_def)
  obtain ws' nt1 es where ws: "watchers_step env h ss obs now ?u rd val (watcherList x) ?nt = Inr (ws', nt1)"
    "\<forall>w \<in> set ws'. no_attributes ss w \<and> \<not> pending w" "notify_timeout nt1 = notify_timeout nt"
    "notify_sent nt1 = notify_sent nt @ es" "list_all2 (notice ss ?u ?ds) (filter pending (watcherList x)) es"
    using watchers_notified [OF x(2) _ b(1,2) assms(2) b(3) v(2), of "watcherList x" ?nt now val]
    by (auto simp: ready_message_def)
  obtain os' nt' es' where rest: "observed_step env h ss obs now xs nt1 = Inr (os', nt')"
    "\<forall>x \<in> set os'. observed_ok ss obs data x \<and> pendings x = []" "notify_timeout nt' = notify_timeout nt1"
    "notify_sent nt' = notify_sent nt1 @ es'" "list_all2 (noted ss data) (concat (map pendings xs)) es'"
    using Cons.IH [of nt1] Cons.prems by auto
  have "list_all2 (noted ss data) (pendings x) es"
    using ws(5) by (simp add: pendings_def noted_def list_all2_map1)
  moreover have "pendings (x\<lparr>watcherList := ws'\<rparr>) = []" "observed_ok ss obs data (x\<lparr>watcherList := ws'\<rparr>)"
    using ws(2) x(1) by (simp_all add: pendings_def observed_ok_def)
  ultimately show ?case
    using v(1) ws(1,3,4) rest
    by (intro exI [of _ "x\<lparr>watcherList := ws'\<rparr> # os'"] exI [of _ nt'] exI [of _ "es @ es'"]) (auto intro: list_all2_appendI)
qed simp

lemma observed_quiet:
  assumes "\<And>x. x \<in> set os \<Longrightarrow> observed_ok ss obs data x \<and> pendings x = []" "\<And>n. length (junk env n) = n"
  shows "\<exists>m. observed_step env h ss obs now os nt = Inr (os, nt\<lparr>notify_message := m\<rparr>)"
  using assms(1)
proof (induction os arbitrary: nt)
  case Nil
  show ?case by (rule exI [of _ "notify_message nt"]) simp
next
  case (Cons x xs)
  have x: "reads_tlv obs (ouri x) (data (ouri x))" "\<And>w. w \<in> set (watcherList x) \<Longrightarrow> no_attributes ss w \<and> \<not> pending w"
    using Cons.prems [of x] by (auto simp: observed_ok_def pendings_def filter_empty_conv)
  obtain rd val where v: "observed_value obs (ouri x) = Inr (Some (rd, val))"
    using observed_value_ok [where env = env, OF x(1) assms(2)] by blast
  obtain m where "observed_step env h ss obs now xs (nt\<lparr>notify_message := None\<rparr>) =
      Inr (xs, nt\<lparr>notify_message := None\<rparr>\<lparr>notify_message := m\<rparr>)"
    using Cons.IH [of "nt\<lparr>notify_message := None\<rparr>"] Cons.prems by auto
  moreover have "watchers_step env h ss obs now (ouri x) rd val (watcherList x) (nt\<lparr>notify_message := None\<rparr>) =
      Inr (watcherList x, nt\<lparr>notify_message := None\<rparr>)"
    by (rule watchers_quiet [OF x(2)])
  ultimately show ?case
    using v by (intro exI [of _ m]) simp
qed

lemma changed_pendings:
  assumes "\<And>x w. x \<in> set os \<Longrightarrow> w \<in> set (watcherList x) \<Longrightarrow> \<not> wupdate w"
  shows "concat (map pendings (xiny_lwm2m_resource_value_changed u os)) =
    map (\<lambda>(v, w). (v, w\<lparr>wupdate := True\<rparr>))
      (concat (map (\<lambda>x. if concerns u (ouri x) then map (Pair (ouri x)) (filter active (watcherList x)) else []) os))"
proof -
  have up: "filter pending (map (\<lambda>w. if active w then w\<lparr>wupdate := True\<rparr> else w) ws) = map (\<lambda>w. w\<lparr>wupdate := True\<rparr>) (filter active ws)"
    for ws
  proof -
    let ?f = "\<lambda>w. if active w then w\<lparr>wupdate := True\<rparr> else w"
    have "pending (?f w) = active w" for w by (simp add: pending_def)
    then have "filter pending (map ?f ws) = map ?f (filter active ws)" by (simp only: filter_map o_def)
    also have "\<dots> = map (\<lambda>w. w\<lparr>wupdate := True\<rparr>) (filter active ws)" by (rule map_cong [OF refl]) simp
    finally show ?thesis .
  qed
  have no: "filter pending ws = []" if "\<And>w. w \<in> set ws \<Longrightarrow> \<not> wupdate w" for ws
    using that by (auto simp: pending_def filter_empty_conv)
  have one: "pendings (if concerns u (ouri x)
        then x\<lparr>watcherList := map (\<lambda>w. if active w then w\<lparr>wupdate := True\<rparr> else w) (watcherList x)\<rparr> else x) =
      map (\<lambda>(v, w). (v, w\<lparr>wupdate := True\<rparr>)) (if concerns u (ouri x) then map (Pair (ouri x)) (filter active (watcherList x)) else [])"
    if "x \<in> set os" for x
    using up [of "watcherList x"] no [of "watcherList x"] assms [OF that] by (simp add: pendings_def)
  show ?thesis
    unfolding xiny_lwm2m_resource_value_changed_def map_concat map_map o_def
    by (rule arg_cong [where f = concat], rule map_cong [OF refl]) (rule one)
qed

section \<open>Beginning an observation\<close>

definition observing :: "coap_packet \<Rightarrow> bool" where
  "observing p \<longleftrightarrow> xiny_IS_OPTION p COAP_OPTION_OBSERVE \<and> coap_observe p = 0
     \<and> (\<forall>k \<in> {COAP_OPTION_ACCEPT, COAP_OPTION_BLOCK1, COAP_OPTION_BLOCK2, COAP_OPTION_CONTENT_TYPE}. \<not> xiny_IS_OPTION p k)"

definition new_watcher :: "int \<Rightarrow> coap_packet \<Rightarrow> u16 \<Rightarrow> u64 \<Rightarrow> watcher \<Rightarrow> watcher" where
  "new_watcher now msg mid v w =
     w\<lparr>wtoken := coap_token msg, active := True, lastTime := now, lastMid := mid, wformat := LWM2M_CONTENT_TLV, lastValue := v,
       counter := counter w + 1\<rparr>"

lemma handle_observe:
  assumes "xiny_utils_findServer (serverList c) session = Some sv" "may_manage (status sv)"
    and "altPath c = None" "proper_uri u" "objectId u \<noteq> 0"
    and "coap_code msg = COAP_GET" "coap_uri_path msg = uri_segments u" "observing msg" "coap_token msg \<noteq> []"
    and "reads_tlv (objectList c) u ds" "\<And>n. length (junk env n) = n"
    and "prv_getWatcher (observedList c) u (secObjInstID sv) = (os, w)"
  shows "\<exists>v. handle_xiny_request env now c session msg r = Inr (Some (COAP_NO_ERROR,
      c\<lparr>observedList := put_watcher u (new_watcher now msg (coap_mid r) v w) os\<rparr>,
      snd (xiny_coap_set_status_code (put_content COAP_205_CONTENT LWM2M_CONTENT_TLV (tlvs (resource_instances (Some u) ds) ds)
        (xiny_coap_set_header_observe (counter w) r)) (unat COAP_205_CONTENT))))"
proof -
  have r: "xiny_object_read_lwm2mData_lwm2m (objectList c) u = (COAP_205_CONTENT, ds)" "ds \<noteq> []"
    "list_all (sendable (resource_instances (Some u) ds)) ds"
    using assms(10) by (simp_all add: reads_tlv_def)
  have opt: "xiny_IS_OPTION msg COAP_OPTION_OBSERVE" "coap_observe msg = 0" "xiny_IS_OPTION msg COAP_OPTION_ACCEPT = False"
    "xiny_IS_OPTION msg COAP_OPTION_CONTENT_TYPE = False"
    using assms(8) by (simp_all add: observing_def)
  obtain d rest where ds: "ds = d # rest" using r(2) by (cases ds) auto
  obtain v where v: "last_value u ds (lastValue w) = Inr v"
    using last_value_ok r(3) ds by fastforce
  have path: "LWM2M_URI_IS_SET_RESOURCE u \<longrightarrow> LWM2M_URI_IS_SET_INSTANCE u"
    using assms(4) by (cases rule: proper_uri_cases) auto
  have ser: "xiny_lwm2m_data_serialize (junk env) (floatToText env) (Some u) ds LWM2M_CONTENT_TLV =
      Inr (LWM2M_CONTENT_TLV, int (length (tlvs (resource_instances (Some u) ds) ds)), tlvs (resource_instances (Some u) ds) ds)"
    using serialize_sendable [OF assms(11) r(3,2)]
    by (simp add: xiny_lwm2m_data_serialize_def choose_format_def xiny_tlv_serialize_lwm2m_def Let_def)
  have "xiny_observe_handleRequest_lwm2m now (serverList c) (observedList c) u sv ds msg r =
      Inr (COAP_205_CONTENT, put_watcher u (new_watcher now msg (coap_mid r) v w) os, xiny_coap_set_header_observe (counter w) r)"
    using path assms(9) opt(2,3)
    by (auto simp: xiny_observe_handleRequest_lwm2m_def assms(12) v new_watcher_def accepted_format_def Let_def)
  then have "xiny_dm_handleRequest env now c u sv msg r = Inr (Some (COAP_205_CONTENT,
      c\<lparr>observedList := put_watcher u (new_watcher now msg (coap_mid r) v w) os\<rparr>,
      put_content COAP_205_CONTENT LWM2M_CONTENT_TLV (tlvs (resource_instances (Some u) ds) ds) (xiny_coap_set_header_observe (counter w) r)))"
    using assms(2,5,6) opt r(1) ser
    by (simp add: xiny_dm_handleRequest_def dm_get_def accepted_format_def LWM2M_SECURITY_OBJECT_ID_def)
  moreover have "COAP_IGNORE < COAP_205_CONTENT \<and> COAP_205_CONTENT < COAP_400_BAD_REQUEST" by (simp add: result_defs)
  ultimately show ?thesis
    using assms(1,3,7) decode_segments [OF assms(4)] proper_uri_dm [OF assms(4)]
    by (auto simp: handle_xiny_request_def)
qed

lemma observe_answered:
  assumes "xiny_utils_findServer (serverList c) session = Some sv" "may_manage (status sv)"
    and "altPath c = None" "proper_uri u" "objectId u \<noteq> 0"
    and "coap_code msg = COAP_GET" "coap_uri_path msg = uri_segments u" "observing msg" "coap_token msg \<noteq> []" "length (coap_token msg) \<le> 8"
    and "reads_tlv (objectList c) u ds" "\<And>n. length (junk env n) = n"
    and "prv_getWatcher (observedList c) u (secObjInstID sv) = (os, w)" "\<And>n. alloc h n" "\<And>s b. net h s b = COAP_NO_ERROR"
  shows "\<exists>v r. answer_request env h now c session msg = Inr (Some (COAP_NO_ERROR,
      (after_reply msg c)\<lparr>observedList := put_watcher u (new_watcher now msg (reply_mid c msg) v w) os\<rparr>,
      [Sent session (fst (xiny_coap_serialize_message r))]))
    \<and> prepared r \<and> reply_to c msg r \<and> coap_code r = COAP_205_CONTENT
    \<and> xiny_coap_get_header_observe r = Some (0x00FFFFFF AND counter w)
    \<and> xiny_lwm2m_data_parse u (coap_payload r) LWM2M_CONTENT_TLV = map as_read ds"
proof -
  let ?b = "tlvs (resource_instances (Some u) ds) ds"
  define q where "q = snd (prepare_response c msg)"
  define q' where "q' = xiny_coap_set_header_observe (counter w) q"
  define r where "r = snd (xiny_coap_set_status_code (put_content COAP_205_CONTENT LWM2M_CONTENT_TLV ?b q') (unat COAP_205_CONTENT))"
  note facts = prepare_response_facts [OF assms(10), of c, folded q_def]
  have q': "prepared q'" "coap_type q' = coap_type q" "coap_mid q' = coap_mid q" "coap_token q' = coap_token q" "max_age q' = 0"
    "coap_size q' = 0" "xiny_IS_OPTION q' COAP_OPTION_OBSERVE" "coap_observe q' = 0x00FFFFFF AND counter w"
    using facts(2,4,5) unfolding q'_def
    by (simp_all add: prepared.observe) (simp_all add: xiny_coap_set_header_observe_def COAP_OPTION_OBSERVE_def)
  have b: "length ?b < 65536" "xiny_lwm2m_data_parse u ?b LWM2M_CONTENT_TLV = map as_read ds"
    using assms(11) read_as_tlv(2) [OF _ assms(12), of "objectList c" u ds] by (auto simp: reads_tlv_def)
  note r = content_response [OF q'(1) b(1), where format = LWM2M_CONTENT_TLV, folded r_def]
  have observe: "xiny_coap_get_header_observe r = Some (0x00FFFFFF AND counter w)"
    using q'(7,8) unfolding r_def put_content_def xiny_coap_get_header_observe_def
    by (simp add: xiny_coap_set_status_code_def xiny_coap_set_payload_def xiny_coap_set_header_content_type_def)
  have c': "serverList (after_reply msg c) = serverList c" "altPath (after_reply msg c) = altPath c"
    "objectList (after_reply msg c) = objectList c" "observedList (after_reply msg c) = observedList c"
    by (simp_all add: after_reply_def)
  have prep: "prepare_response c msg = (after_reply msg c, q)" using facts(1) by (simp add: q_def prod_eq_iff)
  have mid: "coap_mid q = reply_mid c msg" using facts(3) by (simp add: reply_to_def)
  obtain v where handle: "handle_xiny_request env now (after_reply msg c) session msg q = Inr (Some (COAP_NO_ERROR,
      (after_reply msg c)\<lparr>observedList := put_watcher u (new_watcher now msg (reply_mid c msg) v w) os\<rparr>, r))"
    using handle_observe [of "after_reply msg c" session sv u msg ds env os w now q] assms(1-9,11-13) c'
    unfolding r_def q'_def mid by auto
  have blocks: "take_block1 h c1 session msg q = Inr (COAP_NO_ERROR, c1, msg, q)" "give_block2 msg r = r" for c1 :: "'a lwm2m_context"
    using assms(8)
    by (simp_all add: observing_def take_block1_def give_block2_def xiny_coap_get_header_block1_def xiny_coap_get_header_block2_def)
  have "xiny_message_send h r session =
      Inr (COAP_NO_ERROR, snd (xiny_coap_serialize_message r), [Sent session (fst (xiny_coap_serialize_message r))])"
    using message_sent [OF r(1), of h session] q'(5,6) assms(14,15) r(8,9) by simp
  then have "answer_request env h now c session msg = Inr (Some (COAP_NO_ERROR,
      (after_reply msg c)\<lparr>observedList := put_watcher u (new_watcher now msg (reply_mid c msg) v w) os\<rparr>,
      [Sent session (fst (xiny_coap_serialize_message r))]))"
    unfolding answer_request_def prep by (simp add: blocks handle)
  moreover have "reply_to c msg r" using facts(3) r(2-4) q'(2-4) by (simp add: reply_to_def)
  moreover have "xiny_lwm2m_data_parse u (coap_payload r) LWM2M_CONTENT_TLV = map as_read ds" using r(6) b(2) by simp
  ultimately show ?thesis using r(1,5) observe by blast
qed

text \<open>The watcher that is got is found again, and so is the one that is put in its place.\<close>

lemma same_uri_refl [simp]: "same_uri u u"
  by (simp add: same_uri_def)

lemma same_uri_watchers [simp]: "same_uri u (ouri (x\<lparr>watcherList := ws\<rparr>)) = same_uri u (ouri x)"
  by simp

lemma find_update_first:
  "(\<And>x. P x \<Longrightarrow> P (f x)) \<Longrightarrow> find P xs = Some x \<Longrightarrow> find P (update_first P f xs) = Some (f x)"
  by (induction xs) (auto split: if_splits)

lemma get_watcher_found:
  assumes "prv_getWatcher os u sid = (os', w)"
  shows "\<exists>x. prv_findObserved os' u = Some x \<and> prv_findWatcher x sid = Some w \<and> server w = sid"
proof (cases "prv_findObserved os u")
  case None
  then show ?thesis
    using assms by (auto simp: prv_getWatcher_def Let_def prv_findObserved_def prv_findWatcher_def watcher_zero_def)
next
  case (Some x)
  show ?thesis
  proof (cases "prv_findWatcher x sid")
    case None
    then have "os' = update_first (\<lambda>x. same_uri u (ouri x)) (\<lambda>x. x\<lparr>watcherList := watcher_zero sid # watcherList x\<rparr>) os"
      "w = watcher_zero sid"
      using assms Some by (auto simp: prv_getWatcher_def Let_def)
    then show ?thesis
      using find_update_first [of "\<lambda>x. same_uri u (ouri x)" "\<lambda>x. x\<lparr>watcherList := watcher_zero sid # watcherList x\<rparr>" os x] Some
      by (simp add: prv_findObserved_def prv_findWatcher_def watcher_zero_def)
  next
    case (Some y)
    then have "os' = os" "w = y" using assms \<open>prv_findObserved os u = Some x\<close> by (auto simp: prv_getWatcher_def Let_def)
    moreover have "server y = sid" using Some by (auto simp: prv_findWatcher_def find_Some_iff)
    ultimately show ?thesis using Some \<open>prv_findObserved os u = Some x\<close> by blast
  qed
qed

lemma put_watcher_found:
  assumes "prv_findObserved os u = Some x" "prv_findWatcher x (server w) = Some v"
  shows "\<exists>x. prv_findObserved (put_watcher u w os) u = Some x \<and> prv_findWatcher x (server w) = Some w"
proof -
  let ?f = "\<lambda>x. x\<lparr>watcherList := update_first (\<lambda>y. server y = server w) (\<lambda>_. w) (watcherList x)\<rparr>"
  have "prv_findObserved (put_watcher u w os) u = Some (?f x)"
    using find_update_first [of "\<lambda>x. same_uri u (ouri x)" ?f os x] assms(1) by (simp add: prv_findObserved_def put_watcher_def)
  moreover have "prv_findWatcher (?f x) (server w) = Some w"
    using find_update_first [of "\<lambda>y. server y = server w" "\<lambda>_. w" "watcherList x" v] assms(2) by (simp add: prv_findWatcher_def)
  ultimately show ?thesis by blast
qed

end
