(* ===== verification/Lwm2mObserveSpec.thy ===== *)
theory Lwm2mObserveSpec
  imports Lwm2mPacket
begin

text \<open>
  The observations of a context: one for each path, each with at least one watcher, at most one for each server, and all
  of them of servers that the context knows.
\<close>

section \<open>Shape\<close>

definition uri_key :: "lwm2m_uri \<Rightarrow> u16 \<times> u8 \<times> u16 option \<times> u16 option" where
  "uri_key u = (objectId u, uri_flag u, if LWM2M_URI_IS_SET_INSTANCE u then Some (instanceId u) else None,
     if LWM2M_URI_IS_SET_RESOURCE u then Some (resourceId u) else None)"

lemma same_uri_key: "same_uri u v \<longleftrightarrow> uri_key v = uri_key u"
  by (auto simp: same_uri_def uri_key_def LWM2M_URI_IS_SET_INSTANCE_def LWM2M_URI_IS_SET_RESOURCE_def)

definition shape :: "observed \<Rightarrow> (u16 \<times> u8 \<times> u16 option \<times> u16 option) \<times> u16 list" where
  "shape x = (uri_key (ouri x), map server (watcherList x))"

definition watchers_ok :: "u16 set \<Rightarrow> u16 list \<Rightarrow> bool" where
  "watchers_ok S sids \<longleftrightarrow> sids \<noteq> [] \<and> distinct sids \<and> set sids \<subseteq> S"

definition shapes_ok :: "u16 set \<Rightarrow> ((u16 \<times> u8 \<times> u16 option \<times> u16 option) \<times> u16 list) list \<Rightarrow> bool" where
  "shapes_ok S xs \<longleftrightarrow> distinct (map fst xs) \<and> (\<forall>x \<in> set xs. watchers_ok S (snd x))"

definition observations_ok :: "u16 set \<Rightarrow> observed list \<Rightarrow> bool" where
  "observations_ok S os \<longleftrightarrow> shapes_ok S (map shape os)"

lemma shapes_ok_simps [simp]:
  "shapes_ok S []" "shapes_ok S (x # xs) \<longleftrightarrow> fst x \<notin> fst ` set xs \<and> watchers_ok S (snd x) \<and> shapes_ok S xs"
  by (auto simp: shapes_ok_def)

lemma observations_ok_simps [simp]:
  "observations_ok S []"
  "observations_ok S (x # xs) \<longleftrightarrow>
     uri_key (ouri x) \<notin> (\<lambda>x. uri_key (ouri x)) ` set xs \<and> watchers_ok S (map server (watcherList x)) \<and> observations_ok S xs"
  by (auto simp: observations_ok_def shape_def image_image)

lemma same_shape: "map shape os' = map shape os \<Longrightarrow> observations_ok S os' = observations_ok S os"
  by (simp add: observations_ok_def)

lemma observations_ok_filter: "observations_ok S os \<Longrightarrow> observations_ok S (filter P os)"
  by (induction os) auto

lemma watchers_ok_Cons: "watchers_ok S (s # ss) \<longleftrightarrow> s \<in> S \<and> s \<notin> set ss \<and> (ss = [] \<or> watchers_ok S ss)"
  by (auto simp: watchers_ok_def)

section \<open>Operations\<close>

lemma put_watcher_shape: "map shape (put_watcher u w os) = map shape os"
proof -
  have "map server (update_first (\<lambda>y. server y = server w) (\<lambda>_. w) ws) = map server ws" for ws
    by (induction ws) auto
  then show ?thesis by (induction os) (auto simp: put_watcher_def shape_def)
qed

lemma changed_shape: "map shape (xiny_lwm2m_resource_value_changed u os) = map shape os"
  by (simp add: xiny_lwm2m_resource_value_changed_def shape_def o_def)

lemma add_watcher_ok:
  assumes "observations_ok S os" "sid \<in> S" "prv_findObserved os u = Some x" "prv_findWatcher x sid = None"
  shows "observations_ok S (update_first (\<lambda>x. same_uri u (ouri x)) (\<lambda>x. x\<lparr>watcherList := watcher_zero sid # watcherList x\<rparr>) os)"
proof -
  have keys: "(\<lambda>x. uri_key (ouri x)) ` set (update_first P (\<lambda>x. x\<lparr>watcherList := f x\<rparr>) xs) = (\<lambda>x. uri_key (ouri x)) ` set xs"
    for P f and xs :: "observed list"
    by (induction xs) auto
  have "sid \<notin> server ` set (watcherList x)"
    using assms(4) by (auto simp: prv_findWatcher_def find_None_iff)
  then show ?thesis
    using assms(1-3) by (induction os) (auto simp: prv_findObserved_def keys watchers_ok_Cons watcher_zero_def split: if_splits)
qed

lemma get_watcher_ok:
  assumes "observations_ok S os" "sid \<in> S" "prv_getWatcher os u sid = (os', w)"
  shows "observations_ok S os'" "server w = sid"
proof -
  show "server w = sid"
    using assms(3) by (auto simp: prv_getWatcher_def Let_def prv_findWatcher_def watcher_zero_def find_Some_iff split: option.splits)
  show "observations_ok S os'"
  proof (cases "prv_findObserved os u")
    case None
    then have "same_uri u (ouri x) = False" if "x \<in> set os" for x
      using that by (auto simp: prv_findObserved_def find_None_iff)
    then have "uri_key u \<notin> (\<lambda>x. uri_key (ouri x)) ` set os" by (metis (no_types, lifting) imageE same_uri_key)
    then show ?thesis
      using None assms
      by (auto simp: prv_getWatcher_def Let_def prv_findObserved_def prv_findWatcher_def same_uri_key watchers_ok_def watcher_zero_def)
  next
    case (Some x)
    then show ?thesis
      using assms add_watcher_ok [OF assms(1,2) Some] by (auto simp: prv_getWatcher_def split: option.splits)
  qed
qed

lemma remove_watcher_split: "remove_watcher P ws = Some ws' \<Longrightarrow> \<exists>as w bs. ws = as @ w # bs \<and> ws' = as @ bs"
proof (induction ws arbitrary: ws')
  case (Cons w ws)
  show ?case
  proof (cases "P w")
    case True
    then show ?thesis using Cons.prems by (intro exI [of _ "[]"]) simp
  next
    case False
    then obtain r where r: "remove_watcher P ws = Some r" "ws' = w # r" using Cons.prems by auto
    then obtain as v bs where "ws = as @ v # bs" "r = as @ bs" using Cons.IH by blast
    then show ?thesis using r(2) by (intro exI [of _ "w # as"] exI [of _ v] exI [of _ bs]) simp
  qed
qed simp

lemma remove_watcher_ok:
  assumes "watchers_ok S (map server ws)" "remove_watcher P ws = Some ws'" "ws' \<noteq> []"
  shows "watchers_ok S (map server ws')"
proof -
  obtain as w bs where "ws = as @ w # bs" "ws' = as @ bs" using remove_watcher_split [OF assms(2)] by blast
  then show ?thesis using assms(1,3) by (simp add: watchers_ok_def)
qed

lemma cancel_ok:
  assumes "observations_ok S os"
  shows "\<exists>os'. cancel_from P os = Inr os' \<and> observations_ok S os' \<and> (\<lambda>x. uri_key (ouri x)) ` set os' \<subseteq> (\<lambda>x. uri_key (ouri x)) ` set os"
  using assms
proof (induction os)
  case (Cons x xs)
  then obtain xs' where xs': "cancel_from P xs = Inr xs'" "observations_ok S xs'"
    "(\<lambda>x. uri_key (ouri x)) ` set xs' \<subseteq> (\<lambda>x. uri_key (ouri x)) ` set xs" by auto
  have "watcherList x \<noteq> []" using Cons.prems by (auto simp: watchers_ok_def)
  then show ?case
    using Cons.prems xs' remove_watcher_ok [of S "watcherList x" P]
    by (cases "remove_watcher P (watcherList x)") auto
qed simp

lemma cancel_keeps:
  assumes "observations_ok S os" "xiny_observe_cancel_lwm2m ss mid session os = Inr os'"
  shows "observations_ok S os'"
proof -
  let ?P = "\<lambda>w. lastMid w = mid \<and> session_of ss (server w) = Some session"
  have "cancel_from ?P os = Inr os'" using assms(2) by (simp add: xiny_observe_cancel_lwm2m_def)
  then show ?thesis using cancel_ok [OF assms(1), of ?P] by auto
qed

lemma observe_request_ok:
  assumes "observations_ok S os" "secObjInstID sv \<in> S"
    and "xiny_observe_handleRequest_lwm2m now ss os u sv ds msg r = Inr (result, os', r')"
  shows "observations_ok S os'"
proof -
  have set: "observations_ok S (put_watcher u w' os'')" if "prv_getWatcher os u (secObjInstID sv) = (os'', w)" for w' os'' w
    using get_watcher_ok(1) [OF assms(1,2) that] same_shape [OF put_watcher_shape] by blast
  note cancel = cancel_keeps [OF assms(1)]
  show ?thesis
  proof (cases "coap_observe msg = 0")
    case True
    obtain os1 w where get: "prv_getWatcher os u (secObjInstID sv) = (os1, w)" by (cases "prv_getWatcher os u (secObjInstID sv)")
    have "os' = os \<or> (\<exists>w'. os' = put_watcher u w' os1)"
      using assms(3) True by (auto simp: xiny_observe_handleRequest_lwm2m_def get bind_res_eq_Inr Let_def split: if_splits)
    then show ?thesis using assms(1) set [OF get] by blast
  next
    case False
    show ?thesis
    proof (cases "prv_findObserved os u")
      case None
      then show ?thesis using assms(1,3) False by (auto simp: xiny_observe_handleRequest_lwm2m_def split: if_splits)
    next
      case (Some x)
      then show ?thesis
        using assms(1,3) False cancel
        by (auto simp: xiny_observe_handleRequest_lwm2m_def bind_res_eq_Inr split: if_splits option.splits)
    qed
  qed
qed

lemma set_parameters_ok:
  assumes "observations_ok S os" "sid \<in> S" "xiny_observe_setParameters_lwm2m env obs os u sid a = Inr (result, os')"
  shows "observations_ok S os'"
proof -
  have "observations_ok S os'' \<and> observations_ok S (put_watcher u w' os'')" if "prv_getWatcher os u sid = (os'', w)" for w' os'' w
    using get_watcher_ok(1) [OF assms(1,2) that] same_shape [OF put_watcher_shape] by blast
  then show ?thesis
    using assms(1,3)
    by (auto simp: xiny_observe_setParameters_lwm2m_def bind_res_eq_Inr Let_def split: if_splits prod.splits)
qed

lemma clear_ok: "observations_ok S os \<Longrightarrow> observations_ok S (xiny_observe_clear u os)"
  unfolding xiny_observe_clear_def by (rule observations_ok_filter)

lemma delete_all_ok:
  assumes "delete_all del u st os = Some r"
  shows "observations_ok S os \<longrightarrow> observations_ok S (snd (snd r))"
  using assms
proof (rule delete_all.raw_induct [of "\<lambda>del u st os r. observations_ok S os \<longrightarrow> observations_ok S (snd (snd r))", rotated])
  fix f del u st os r
  assume IH: "\<And>del u st os r. f del u st os = Some r \<Longrightarrow> observations_ok S os \<longrightarrow> observations_ok S (snd (snd r))"
    and body: "(case fst st of [] \<Rightarrow> Some (COAP_202_DELETED, st, os)
      | i # _ \<Rightarrow> (case del i st of (result, st) \<Rightarrow>
          if result = COAP_202_DELETED then f del u st (xiny_observe_clear (with_instance i u) os) else Some (result, st, os))) = Some r"
  show "observations_ok S os \<longrightarrow> observations_ok S (snd (snd r))"
  proof (cases "fst st")
    case Nil
    then show ?thesis using body by auto
  next
    case (Cons i js)
    obtain result st' where del: "del i st = (result, st')" by (cases "del i st")
    show ?thesis
    proof (cases "result = COAP_202_DELETED")
      case True
      then have "f del u st' (xiny_observe_clear (with_instance i u) os) = Some r" using body by (simp add: Cons del)
      then show ?thesis using IH clear_ok by blast
    next
      case False
      then show ?thesis using body by (auto simp: Cons del)
    qed
  qed
qed

lemma delete_ok:
  assumes "xiny_object_delete_lwm2m obs os u = Some (result, obs', os')" "observations_ok S os"
  shows "observations_ok S os'"
proof -
  have all: "observations_ok S os''" if "delete_all del u st os = Some (r, st', os'')" for del st r st' os''
    using delete_all_ok [OF that, of S] assms(2) by simp
  show ?thesis
    using assms clear_ok [OF assms(2)] all
    by (auto simp: xiny_object_delete_lwm2m_def object_state_def split: option.splits if_splits prod.splits)
qed

section \<open>The context\<close>

definition known_servers :: "'s lwm2m_context \<Rightarrow> u16 set" where
  "known_servers c = secObjInstID ` set (serverList c)"

definition context_ok :: "'s lwm2m_context \<Rightarrow> bool" where
  "context_ok c \<longleftrightarrow> observations_ok (known_servers c) (observedList c)"

text \<open>The servers stay the same.\<close>

definition same_servers :: "'s lwm2m_context \<Rightarrow> 's lwm2m_context \<Rightarrow> bool" where
  "same_servers c c' \<longleftrightarrow> map secObjInstID (serverList c') = map secObjInstID (serverList c)"

lemma same_servers_known: "same_servers c c' \<Longrightarrow> known_servers c' = known_servers c"
  unfolding same_servers_def known_servers_def by (metis list.set_map)

lemma update_registrations_ids: "map secObjInstID (update_all_registrations ss) = map secObjInstID ss"
  by (simp add: update_all_registrations_def)

lemma set_block1_ids: "map secObjInstID (set_block1_data session d ss) = map secObjInstID ss"
  unfolding set_block1_data_def by (induction ss) auto

lemma find_server_known: "xiny_utils_findServer (serverList c) session = Some sv \<Longrightarrow> secObjInstID sv \<in> known_servers c"
  by (auto simp: xiny_utils_findServer_def known_servers_def find_Some_iff)

definition ok_step :: "'s lwm2m_context \<Rightarrow> 's lwm2m_context \<Rightarrow> bool" where
  "ok_step c c' \<longleftrightarrow> same_servers c c' \<and> (context_ok c \<longrightarrow> context_ok c')"

lemma ok_step_trans: "ok_step c c' \<Longrightarrow> ok_step c' c'' \<Longrightarrow> ok_step c c''"
  by (auto simp: ok_step_def same_servers_def)

lemma ok_step_refl [simp]: "ok_step c c"
  by (simp add: ok_step_def same_servers_def)

lemma ok_step_observed:
  assumes "context_ok c \<Longrightarrow> observations_ok (known_servers c) (observedList c')"
    and "map secObjInstID (serverList c') = map secObjInstID (serverList c)"
  shows "ok_step c c'"
  using assms same_servers_known [of c c'] by (auto simp: ok_step_def same_servers_def context_ok_def)

lemma ok_step_same:
  assumes "observedList c' = observedList c" "map secObjInstID (serverList c') = map secObjInstID (serverList c)"
  shows "ok_step c c'"
  by (rule ok_step_observed) (use assms in \<open>auto simp: context_ok_def\<close>)

lemma get_ok:
  assumes "dm_get env now c u sv format msg r = Inr (result, c', r')" "secObjInstID sv \<in> known_servers c"
  shows "ok_step c c'"
  using assms(1) observe_request_ok [OF _ assms(2)]
  by (auto simp: dm_get_def bind_res_eq_Inr Let_def context_ok_def intro!: ok_step_observed split: if_splits prod.splits)

lemma post_ok:
  assumes "dm_post c u format msg r = Inr (result, c', r')"
  shows "ok_step c c'"
  using assms
  by (auto simp: dm_post_def bind_res_eq_Inr Let_def update_registrations_ids intro!: ok_step_same split: if_splits prod.splits)

lemma put_ok:
  assumes "dm_put env c u sv format msg = Inr (result, c')" "secObjInstID sv \<in> known_servers c"
  shows "ok_step c c'"
  using assms(1) set_parameters_ok [OF _ assms(2)]
  by (auto simp: dm_put_def bind_res_eq_Inr Let_def context_ok_def intro!: ok_step_observed
      split: if_splits prod.splits option.splits)

lemma dm_delete_ok:
  assumes "dm_delete c u = Some (result, c')"
  shows "ok_step c c'"
  using assms delete_ok [of "objectList c" "observedList c" u _ _ _ "known_servers c"]
  by (auto simp: dm_delete_def Let_def context_ok_def update_registrations_ids intro!: ok_step_observed split: if_splits)

lemma dm_ok:
  assumes "xiny_dm_handleRequest env now c u sv msg r = Inr (Some (result, c', r'))" "secObjInstID sv \<in> known_servers c"
  shows "ok_step c c'"
  using assms(1) get_ok [OF _ assms(2)] put_ok [OF _ assms(2)] post_ok dm_delete_ok
  by (fastforce simp: xiny_dm_handleRequest_def bind_res_eq_Inr Let_def split: if_splits prod.splits)

lemma request_ok:
  assumes "handle_xiny_request env now c session msg r = Inr (Some (result, c', r'))"
  shows "ok_step c c'"
  using assms dm_ok [OF _ find_server_known]
  by (fastforce simp: handle_xiny_request_def bind_res_eq_Inr bind_some_eq_Some split: if_splits option.splits)

lemma block1_ok:
  assumes "take_block1 h c session msg r = Inr (result, c', x)"
  shows "ok_step c c'"
  using assms
  by (auto simp: take_block1_def Let_def bind_res_eq_Inr set_block1_ids intro!: ok_step_same split: option.splits)

lemma answer_ok:
  assumes "answer_request env h now c session msg = Inr (Some (result, c', es))"
  shows "ok_step c c'"
proof -
  obtain c1 r1 where prep: "prepare_response c msg = (c1, r1)" by (cases "prepare_response c msg")
  obtain result2 c2 msg2 r2 where block: "take_block1 h c1 session msg r1 = Inr (result2, c2, msg2, r2)"
    using assms by (auto simp: answer_request_def prep bind_res_eq_Inr)
  have "c2 = c' \<or> (\<exists>result r. handle_xiny_request env now c2 session msg2 r2 = Inr (Some (result, c', r)))"
    using assms by (auto simp: answer_request_def prep block bind_res_eq_Inr bind_some_eq_Some split: if_splits)
  then have "ok_step c2 c'" using request_ok by fastforce
  moreover have "ok_step c c1"
    using prep by (auto simp: prepare_response_def Let_def intro!: ok_step_same split: if_splits)
  ultimately show ?thesis using block1_ok [OF block] ok_step_trans by blast
qed

lemma response_ok:
  assumes "take_response h now c session msg = Inr (result, c', x)"
  shows "ok_step c c'"
proof -
  have reset: "ok_step c c1" if "handle_reset c session msg = Inr c1" for c1
    using that cancel_keeps by (auto simp: handle_reset_def bind_res_eq_Inr context_ok_def intro!: ok_step_observed)
  show ?thesis
  proof (cases "coap_type msg = COAP_TYPE_RST")
    case True
    then obtain c1 ts where "handle_reset c session msg = Inr c1" "c' = c1\<lparr>transactionList := ts\<rparr>"
      using assms by (auto simp: take_response_def bind_res_eq_Inr Let_def)
    then show ?thesis using reset ok_step_same [of c' c1] ok_step_trans by fastforce
  next
    case False
    then obtain ts where "c' = c\<lparr>transactionList := ts\<rparr>"
      using assms by (auto simp: take_response_def bind_res_eq_Inr Let_def split: if_splits)
    then show ?thesis by (simp add: ok_step_same)
  qed
qed

lemma packet_ok_step:
  assumes "xiny_lwm2m_handle_packet env h now c err buffer len session = Inr (Some (c', err', es, cs))"
  shows "ok_step c c'"
proof -
  obtain code ot msg where parse: "xiny_coap_parse_message buffer (len mod 65536) = Inr (code, ot, msg)"
    using assms by (auto simp: xiny_lwm2m_handle_packet_def bind_res_eq_Inr)
  have "c' = c \<or> (\<exists>r es. answer_request env h now c session msg = Inr (Some (r, c', es)))
      \<or> (\<exists>r x. take_response h now c session msg = Inr (r, c', x))"
    using assms by (auto simp: xiny_lwm2m_handle_packet_def parse bind_res_eq_Inr bind_some_eq_Some Let_def split: if_splits)
  then show ?thesis using answer_ok response_ok by (elim disjE exE) (simp, blast, blast)
qed

lemma notification_server: "notification env obs u ds made w = Inr (w', m) \<Longrightarrow> server w' = server w"
  by (auto simp: notification_def bind_res_eq_Inr split: option.splits)

lemma send_server: "send_notification h ss now val m w nt = Inr (w', nt') \<Longrightarrow> server w' = server w"
  by (auto simp: send_notification_def Let_def bind_res_eq_Inr split: option.splits)

lemma watcher_step_server:
  assumes "watcher_step env h ss obs now u ds val w nt = Inr (w', nt', go_on)"
  shows "server w' = server w"
proof (cases "active w")
  case True
  obtain due wait where due: "update_due env now val w = Inr (due, wait)"
    using assms True by (auto simp: watcher_step_def bind_res_eq_Inr)
  let ?nt = "nt\<lparr>notify_timeout := shorter (notify_timeout nt) wait\<rparr>"
  show ?thesis
  proof (cases "due \<or> max_due now w")
    case True
    then obtain w1 m where made: "notification env obs u ds (notify_message ?nt) w = Inr (w1, m)"
      using assms \<open>active w\<close> by (auto simp: watcher_step_def due bind_res_eq_Inr Let_def)
    show ?thesis
    proof (cases m)
      case None
      then show ?thesis
        using assms \<open>active w\<close> True made notification_server [OF made] by (auto simp: watcher_step_def due Let_def)
    next
      case (Some x)
      then obtain w2 nt2 where "send_notification h ss now val x w1 ?nt = Inr (w2, nt2)" "w' = w2"
        using assms \<open>active w\<close> True made by (auto simp: watcher_step_def due bind_res_eq_Inr Let_def)
      then show ?thesis using notification_server [OF made] send_server by fastforce
    qed
  next
    case False
    then show ?thesis using assms \<open>active w\<close> by (auto simp: watcher_step_def due Let_def)
  qed
next
  case False
  then show ?thesis using assms by (simp add: watcher_step_def)
qed

lemma watchers_step_servers:
  "watchers_step env h ss obs now u ds val ws nt = Inr (ws', nt') \<Longrightarrow> map server ws' = map server ws"
proof (induction ws arbitrary: nt ws' nt')
  case (Cons w ws)
  then obtain w1 nt1 go_on where w1: "watcher_step env h ss obs now u ds val w nt = Inr (w1, nt1, go_on)"
    by (auto simp: bind_res_eq_Inr)
  show ?case
  proof (cases go_on)
    case True
    then obtain ws1 where "watchers_step env h ss obs now u ds val ws nt1 = Inr (ws1, nt')" "ws' = w1 # ws1"
      using Cons.prems w1 by (auto simp: bind_res_eq_Inr)
    then show ?thesis using Cons.IH watcher_step_server [OF w1] by simp
  next
    case False
    then show ?thesis using Cons.prems w1 watcher_step_server [OF w1] by auto
  qed
qed simp

lemma observed_step_shape:
  "observed_step env h ss obs now os nt = Inr (os', nt') \<Longrightarrow> map shape os' = map shape os"
proof (induction os arbitrary: nt os' nt')
  case (Cons x xs)
  then obtain x1 nt1 xs1 where x1: "os' = x1 # xs1" "observed_step env h ss obs now xs nt1 = Inr (xs1, nt')"
    "bind_res (observed_value obs (ouri x)) (\<lambda>r. case r of
        None \<Rightarrow> Inr (x, nt)
      | Some (ds, val) \<Rightarrow>
          bind_res (watchers_step env h ss obs now (ouri x) ds val (watcherList x) (nt\<lparr>notify_message := None\<rparr>)) (\<lambda>(ws, nt).
          Inr (x\<lparr>watcherList := ws\<rparr>, nt))) = Inr (x1, nt1)"
    by (auto simp: bind_res_eq_Inr)
  then have "shape x1 = shape x"
    using watchers_step_servers [where ws = "watcherList x"] by (auto simp: bind_res_eq_Inr shape_def split: option.splits)
  then show ?case using Cons.IH x1 by simp
qed simp

lemma observe_step_ok:
  assumes "xiny_observe_step env h now timeout c = Inr (c', t, es)"
  shows "ok_step c c'"
  using assms same_shape [OF observed_step_shape]
  by (fastforce simp: xiny_observe_step_def bind_res_eq_Inr context_ok_def intro!: ok_step_observed)

lemma changed_ok: "ok_step c (c\<lparr>observedList := xiny_lwm2m_resource_value_changed u (observedList c)\<rparr>)"
  by (rule ok_step_observed) (simp_all add: context_ok_def same_shape [OF changed_shape])

section \<open>Runs\<close>

text \<open>What happens to the observations of a client: packets of any session, changed values, and time.\<close>

inductive client_step :: "lwm2m_env \<Rightarrow> host \<Rightarrow> 's lwm2m_context \<Rightarrow> 's lwm2m_context \<Rightarrow> bool" for env h where
  packet: "xiny_lwm2m_handle_packet env h now c err buffer len session = Inr (Some (c', err', es, cs)) \<Longrightarrow> client_step env h c c'"
| changed: "client_step env h c (c\<lparr>observedList := xiny_lwm2m_resource_value_changed u (observedList c)\<rparr>)"
| time: "xiny_observe_step env h now timeout c = Inr (c', t, es) \<Longrightarrow> client_step env h c c'"

lemma client_step_ok: "client_step env h c c' \<Longrightarrow> ok_step c c'"
  by (induction rule: client_step.induct) (blast intro: packet_ok_step observe_step_ok changed_ok)+

lemma client_run_ok: "(client_step env h)\<^sup>*\<^sup>* c c' \<Longrightarrow> ok_step c c'"
  by (induction rule: rtranclp_induct) (auto intro: ok_step_trans client_step_ok)

lemma known_session: "sid \<in> secObjInstID ` set ss \<Longrightarrow> session_of ss sid \<noteq> None"
  by (auto simp: session_of_def find_None_iff)

lemma context_ok_facts:
  assumes "context_ok c"
  shows "distinct (map (\<lambda>x. uri_key (ouri x)) (observedList c))"
    "x \<in> set (observedList c) \<Longrightarrow> watcherList x \<noteq> [] \<and> distinct (map server (watcherList x))"
    "x \<in> set (observedList c) \<Longrightarrow> w \<in> set (watcherList x) \<Longrightarrow> session_of (serverList c) (server w) \<noteq> None"
    "\<exists>os. xiny_observe_cancel_lwm2m (serverList c) mid session (observedList c) = Inr os"
proof -
  have ok: "shapes_ok (known_servers c) (map shape (observedList c))"
    using assms by (simp add: context_ok_def observations_ok_def)
  show "distinct (map (\<lambda>x. uri_key (ouri x)) (observedList c))"
    using ok by (simp add: shapes_ok_def shape_def o_def)
  show "x \<in> set (observedList c) \<Longrightarrow> watcherList x \<noteq> [] \<and> distinct (map server (watcherList x))"
    using ok by (auto simp: shapes_ok_def shape_def watchers_ok_def)
  show "x \<in> set (observedList c) \<Longrightarrow> w \<in> set (watcherList x) \<Longrightarrow> session_of (serverList c) (server w) \<noteq> None"
    using ok by (intro known_session) (auto simp: shapes_ok_def shape_def watchers_ok_def known_servers_def)
  show "\<exists>os. xiny_observe_cancel_lwm2m (serverList c) mid session (observedList c) = Inr os"
    using cancel_ok assms unfolding xiny_observe_cancel_lwm2m_def context_ok_def by blast
qed

end
