(* ===== verification/Lwm2mServeProps.thy ===== *)
theory Lwm2mServeProps
  imports Lwm2mNotifySpec Lwm2mObserveSpec
begin

text \<open>The properties of the requests of a server.\<close>

section \<open>Reading\<close>

lemma read_answered:
  assumes "xiny_utils_findServer (serverList c) session = Some sv" "may_manage (status sv)"
    and "altPath c = None" "proper_uri u" "objectId u \<noteq> 0"
    and "coap_code msg = COAP_GET" "coap_uri_path msg = uri_segments u" "plain msg" "length (coap_token msg) \<le> 8"
    and "xiny_object_read_lwm2m (junk env) (floatToText env) (objectList c) u LWM2M_CONTENT_TLV = Inr (COAP_205_CONTENT, LWM2M_CONTENT_TLV, b)"
    and "length b < 65536" "\<And>n. alloc h n" "\<And>s bytes. net h s bytes = COAP_NO_ERROR"
  shows "\<exists>r. answer_request env h now c session msg =
      Inr (Some (COAP_NO_ERROR, after_reply msg c, [Sent session (fst (xiny_coap_serialize_message r))]))
    \<and> prepared r \<and> reply_to c msg r \<and> coap_code r = COAP_205_CONTENT \<and> content_type r = 11542 \<and> coap_payload r = b"
proof -
  define q where "q = snd (prepare_response c msg)"
  define r where "r = snd (xiny_coap_set_status_code (put_content COAP_205_CONTENT LWM2M_CONTENT_TLV b q) (unat COAP_205_CONTENT))"
  note facts = prepare_response_facts [OF assms(9), of c, folded q_def]
  note r = content_response [OF facts(2) assms(11), where format = LWM2M_CONTENT_TLV, folded r_def]
  have c': "serverList (after_reply msg c) = serverList c" "altPath (after_reply msg c) = altPath c"
    "objectList (after_reply msg c) = objectList c"
    by (simp_all add: after_reply_def)
  have prep: "prepare_response c msg = (after_reply msg c, q)" using facts(1) by (simp add: q_def prod_eq_iff)
  have handle: "handle_xiny_request env now (after_reply msg c) session msg q = Inr (Some (COAP_NO_ERROR, after_reply msg c, r))"
    unfolding r_def by (rule handle_read) (use assms c' in simp_all)
  have "xiny_message_send h r session =
      Inr (COAP_NO_ERROR, snd (xiny_coap_serialize_message r), [Sent session (fst (xiny_coap_serialize_message r))])"
    using message_sent [OF r(1), of h session] facts(4,5) assms(12,13) r(8,9) by simp
  then have "answer_request env h now c session msg =
      Inr (Some (COAP_NO_ERROR, after_reply msg c, [Sent session (fst (xiny_coap_serialize_message r))]))"
    unfolding answer_request_def prep by (simp add: plain_blocks [OF assms(8)] handle)
  moreover have "reply_to c msg r" using facts(3) r(2-4) by (simp add: reply_to_def)
  moreover have "content_type r = 11542" using r(7) by simp
  ultimately show ?thesis using r(1,5,6) by blast
qed

text \<open>C34: A plain GET of a path that a registered server sends, confirmable or not, is answered with one message to the server that
  sent it and with nothing else: with an acknowledgement of the same identifier when it was confirmable, else with the next
  identifier, and with the token of the request, as 2.05 whose payload, read as TLV, is the data that the object gave for
  the path.  Nothing of the client changes but that identifier.\<close>

theorem read_is_answered:
  assumes "xiny_utils_findServer (serverList c) session = Some sv" "may_manage (status sv)"
    and "altPath c = None" "proper_uri u" "objectId u \<noteq> 0"
    and "prepared p" "coap_code p = COAP_GET" "coap_uri_path p = uri_segments u" "plain p"
    and "xiny_object_read_lwm2mData_lwm2m (objectList c) u = (COAP_205_CONTENT, ds)"
    and "ds \<noteq> []" "list_all (sendable (resource_instances (Some u) ds)) ds" "length (tlvs (resource_instances (Some u) ds) ds) < 65536"
    and "\<And>n. alloc h n" "\<And>s b. net h s b = COAP_NO_ERROR" "\<And>n. length (junk env n) = n"
    and "bytes = fst (xiny_coap_serialize_message p)" "length bytes < 65536"
  shows "\<exists>b r. xiny_lwm2m_handle_packet env h now c err bytes (length bytes) session =
      Inr (Some (if coap_type p = COAP_TYPE_CON then c else c\<lparr>nextMID := nextMID c + 1\<rparr>, err, [Sent session b], []))
    \<and> xiny_coap_parse_message b (length b) = Inr (COAP_NO_ERROR, None, r)
    \<and> coap_type r = (if coap_type p = COAP_TYPE_CON then COAP_TYPE_ACK else COAP_TYPE_NON)
    \<and> coap_mid r = (if coap_type p = COAP_TYPE_CON then coap_mid p else nextMID c)
    \<and> coap_token r = coap_token p \<and> coap_code r = COAP_205_CONTENT \<and> xiny_utils_convertMediaType (content_type r) = LWM2M_CONTENT_TLV
    \<and> xiny_lwm2m_data_parse u (coap_payload r) LWM2M_CONTENT_TLV = map as_read ds"
proof -
  let ?b = "tlvs (resource_instances (Some u) ds) ds"
  note tlv = read_as_tlv [OF assms(10,16,11,12)]
  have "length (coap_token (as_received p)) \<le> 8"
    using prepared_ok [OF assms(6)] by (simp add: packet_ok_def short_bytes_def)
  from read_answered [OF assms(1-5) _ _ _ this tlv(1) assms(13-15), of now] assms(7-9)
  obtain r where answer: "answer_request env h now c session (as_received p) =
      Inr (Some (COAP_NO_ERROR, after_reply (as_received p) c, [Sent session (fst (xiny_coap_serialize_message r))]))"
    and r: "prepared r" "reply_to c (as_received p) r" "coap_code r = COAP_205_CONTENT" "content_type r = 11542" "coap_payload r = ?b"
    by auto
  have "COAP_GET \<le> coap_code p" "coap_code p \<le> COAP_DELETE" using assms(7) by (simp_all add: COAP_GET_def COAP_DELETE_def)
  then have "xiny_lwm2m_handle_packet env h now c err bytes (length bytes) session =
      Inr (Some (after_reply p c, err, [Sent session (fst (xiny_coap_serialize_message r))], []))"
    using answer prepared_received [OF assms(6)] assms(17,18)
    by (simp add: xiny_lwm2m_handle_packet_def send_error_def after_reply_def)
  moreover have "xiny_utils_convertMediaType 11542 = LWM2M_CONTENT_TLV" by (simp add: xiny_utils_convertMediaType_def)
  ultimately show ?thesis
    using prepared_received [OF r(1)] r tlv(2)
    by (auto simp: after_reply_def reply_to_def reply_type_def reply_mid_def intro!: exI [of _ "as_received r"])
qed

text \<open>A client with the time of the device, /3/0/13, which its server reads.\<close>

definition clock_uri :: lwm2m_uri where
  "clock_uri = \<lparr>uri_flag = 7, objectId = 3, instanceId = 0, resourceId = 13\<rparr>"

definition clock_data :: "lwm2m_data list" where
  "clock_data = [LwData LWM2M_TYPE_INTEGER 13 (AsInteger 1700000000)]"

definition clock_object :: "nat lwm2m_object" where
  "clock_object = \<lparr>objID = 3, instanceList = [0], userData = 0, readFunc = Some (\<lambda>i ds st. (COAP_205_CONTENT, clock_data)),
     writeFunc = None, executeFunc = Some (\<lambda>i r b (is, n). (COAP_204_CHANGED, is, n + 1)), createFunc = None, deleteFunc = None,
     discoverFunc = None\<rparr>"

definition clock_server :: lwm2m_server where
  "clock_server = \<lparr>secObjInstID = 1, shortID = 101, lifetime = 86400, binding = BINDING_U, sessionH = 9, status = STATE_REGISTERED,
     block1Data = None\<rparr>"

definition clock_context :: "nat lwm2m_context" where
  "clock_context = \<lparr>altPath = None, bootstrapServerList = [], serverList = [clock_server], objectList = [clock_object],
     observedList = [], nextMID = 40, transactionList = []\<rparr>"

definition clock_env :: lwm2m_env where
  "clock_env = \<lparr>junk = \<lambda>n. replicate n 0, floatToText = \<lambda>_. [], textToFloat = \<lambda>_. None, dless = \<lambda>_ _. False, dge = \<lambda>_ _. True, of_integer = \<lambda>x. x,
     dsub = \<lambda>x y. x - y, dneg = \<lambda>_. False, too_close = \<lambda>_ _ _. False, behind = \<lambda>_. [0]\<rparr>"

definition good_host :: host where
  "good_host = \<lparr>alloc = \<lambda>_. True, net = \<lambda>_ _. COAP_NO_ERROR\<rparr>"

definition clock_get :: coap_packet where
  "clock_get = fold (\<lambda>s. xiny_coap_set_header_uri_path_segment (Some s)) [[0x33], [0x30], [0x31, 0x33]]
     (xiny_coap_set_header_token [1, 2] 2 (xiny_coap_init_message COAP_TYPE_CON COAP_GET 77))"

lemmas clock_defs = clock_uri_def clock_data_def clock_object_def clock_server_def clock_context_def clock_env_def good_host_def

lemma clock_segments: "uri_segments clock_uri = [[0x33], [0x30], [0x31, 0x33]]"
  by code_simp

lemma no_options: "xiny_IS_OPTION (xiny_coap_init_message ty code mid) k = False"
  by (simp add: xiny_IS_OPTION_def xiny_coap_init_message_def packet_zero_def)

lemmas get_defs = clock_get_def xiny_coap_set_header_uri_path_segment_def xiny_coap_set_header_token_def

lemmas empty_defs = xiny_coap_init_message_def packet_zero_def xiny_coap_add_multi_option_def COAP_TOKEN_LEN_def

lemma clock_get_size: "xiny_coap_serialize_get_size clock_get < 65536"
  by (simp add: xiny_coap_serialize_get_size_def option_size_def get_defs no_options coap_option_defs)
    (simp add: empty_defs multi_size_def COAP_HEADER_LEN_def COAP_MAX_OPTION_HEADER_LEN_def)

lemma clock_get_facts:
  "prepared clock_get" "coap_code clock_get = COAP_GET" "coap_uri_path clock_get = uri_segments clock_uri" "plain clock_get"
  "coap_type clock_get = COAP_TYPE_CON" "coap_mid clock_get = 77" "coap_token clock_get = [1, 2]"
  "length (fst (xiny_coap_serialize_message clock_get)) < 65536"
proof -
  show p: "prepared clock_get"
    unfolding clock_get_def by (simp add: prepared.segment prepared.token prepared.init)
  show "coap_code clock_get = COAP_GET" "coap_uri_path clock_get = uri_segments clock_uri"
    "coap_type clock_get = COAP_TYPE_CON" "coap_mid clock_get = 77" "coap_token clock_get = [1, 2]"
    by (simp_all add: get_defs empty_defs clock_segments)
  have "max_age clock_get = 0" "coap_size clock_get = 0" by (simp_all add: get_defs empty_defs)
  then show "length (fst (xiny_coap_serialize_message clock_get)) < 65536"
    using message_fits [OF prepared_ok [OF p]] clock_get_size by simp
  show "plain clock_get"
    by (simp add: plain_def get_defs no_options coap_option_defs)
qed

lemma clock_facts:
  "proper_uri clock_uri" "xiny_utils_findServer (serverList clock_context) 9 = Some clock_server" "may_manage (status clock_server)"
  "xiny_object_read_lwm2mData_lwm2m (objectList clock_context) clock_uri = (COAP_205_CONTENT, clock_data)"
  "list_all (sendable (resource_instances (Some clock_uri) clock_data)) clock_data"
  "length (tlvs (resource_instances (Some clock_uri) clock_data) clock_data) < 65536"
  "objectId clock_uri \<noteq> 0" "clock_data \<noteq> []" "altPath clock_context = None"
  by (simp_all add: proper_uri_def clock_defs xiny_utils_findServer_def may_manage_def xiny_object_read_lwm2mData_lwm2m_def find_object_def
      xiny_lwm2m_list_find_def read_with_def has_instance_def uri_flag_defs LWM2M_URI_IS_SET_INSTANCE_def resource_instances_def
      length_tlv_of tlv.simps)
    (simp_all add: length_tlv_of prv_getHeaderLength_def prv_encodeInt_def Let_def xiny_utils_copyValue_def)

lemma read_is_answered_witness:
  "\<exists>b r. xiny_lwm2m_handle_packet clock_env good_host 1700000000 clock_context [] (fst (xiny_coap_serialize_message clock_get))
        (length (fst (xiny_coap_serialize_message clock_get))) 9 = Inr (Some (clock_context, [], [Sent 9 b], []))
    \<and> xiny_coap_parse_message b (length b) = Inr (COAP_NO_ERROR, None, r)
    \<and> coap_type r = COAP_TYPE_ACK \<and> coap_mid r = 77 \<and> coap_token r = [1, 2] \<and> coap_code r = COAP_205_CONTENT
    \<and> xiny_lwm2m_data_parse clock_uri (coap_payload r) LWM2M_CONTENT_TLV = map as_read clock_data"
proof -
  have "\<And>n. alloc good_host n" "\<And>s b. net good_host s b = COAP_NO_ERROR" "\<And>n. length (junk clock_env n) = n"
    by (simp_all add: good_host_def clock_env_def)
  then show ?thesis
    using read_is_answered [OF clock_facts(2,3,9,1,7) clock_get_facts(1-4) clock_facts(4,8,5,6) _ _ _ refl clock_get_facts(8),
        where h = good_host and env = clock_env and err = "[]" and now = 1700000000] clock_get_facts(5-7)
    by auto
qed

section \<open>Protection of the objects\<close>

text \<open>C35: Whatever a session sends, if the server of the session is not registered, or there is none, the client answers and changes
  the same with any other objects: what an unregistered session gets does not depend on the objects, and it does not
  change them.\<close>

theorem strangers_reach_no_object:
  assumes "\<forall>sv \<in> set (serverList c). sessionH sv = session \<longrightarrow> \<not> may_manage (status sv)"
  shows "xiny_lwm2m_handle_packet env h now (c\<lparr>objectList := obs\<rparr>) err buffer len session =
    lift_packet (\<lambda>c. c\<lparr>objectList := obs\<rparr>) (xiny_lwm2m_handle_packet env h now c err buffer len session)"
proof -
  have on: "on_objects (\<lambda>_. obs) = (\<lambda>c. c\<lparr>objectList := obs\<rparr>)" by (simp add: on_objects_def fun_eq_iff)
  have "stranger session c" using assms by (simp add: stranger_def)
  from packet_commutes [OF stranger_request stranger_kept this, where f = "\<lambda>_. obs"] show ?thesis by (simp only: on)
qed

lemma strangers_reach_no_object_witness:
  "xiny_lwm2m_handle_packet clock_env good_host 5 (clock_context\<lparr>objectList := []\<rparr>) [] [0x50, 1, 0, 7, 0xB1, 0x33] 6 8 =
   lift_packet (\<lambda>c. c\<lparr>objectList := []\<rparr>) (xiny_lwm2m_handle_packet clock_env good_host 5 clock_context [] [0x50, 1, 0, 7, 0xB1, 0x33] 6 8)"
  by (rule strangers_reach_no_object) (simp add: clock_context_def clock_server_def)

text \<open>C36: The security object, with the keys, cannot be reached over the network: with another content of the object, or other
  operations, every packet of every session, of a registered server too, has the same answer and the same effect, and
  leaves the object as it is.\<close>

theorem security_object_sealed:
  assumes "\<And>ob. objID (s ob) = objID ob"
  shows "xiny_lwm2m_handle_packet env h now (c\<lparr>objectList := reseal s (objectList c)\<rparr>) err buffer len session =
    lift_packet (\<lambda>c. c\<lparr>objectList := reseal s (objectList c)\<rparr>) (xiny_lwm2m_handle_packet env h now c err buffer len session)"
proof -
  have on: "on_objects (reseal s) = (\<lambda>c. c\<lparr>objectList := reseal s (objectList c)\<rparr>)" by (simp add: on_objects_def fun_eq_iff)
  have "keeps_server (\<lambda>c. True) session" by (simp add: keeps_server_def)
  from packet_commutes [OF sealed_request [OF assms] this TrueI] show ?thesis by (simp add: on)
qed

definition security_object :: "nat lwm2m_object" where
  "security_object = clock_object\<lparr>objID := 0, userData := 1234\<rparr>"

lemma security_object_sealed_witness:
  "reseal (\<lambda>ob. ob\<lparr>userData := 0\<rparr>) (objectList (clock_context\<lparr>objectList := [security_object, clock_object]\<rparr>)) =
     [security_object\<lparr>userData := 0\<rparr>, clock_object]
   \<and> xiny_lwm2m_handle_packet clock_env good_host 5 (clock_context\<lparr>objectList := [security_object\<lparr>userData := 0\<rparr>, clock_object]\<rparr>) []
        [0x50, 1, 0, 7, 0xB1, 0x30] 6 9 =
     lift_packet (\<lambda>c. c\<lparr>objectList := reseal (\<lambda>ob. ob\<lparr>userData := 0\<rparr>) (objectList c)\<rparr>)
       (xiny_lwm2m_handle_packet clock_env good_host 5 (clock_context\<lparr>objectList := [security_object, clock_object]\<rparr>) []
          [0x50, 1, 0, 7, 0xB1, 0x30] 6 9)"
proof -
  have "reseal (\<lambda>ob. ob\<lparr>userData := 0\<rparr>) [security_object, clock_object] = [security_object\<lparr>userData := 0\<rparr>, clock_object]"
    by (simp add: reseal_def security_object_def clock_object_def LWM2M_SECURITY_OBJECT_ID_def)
  then show ?thesis
    using security_object_sealed [where s = "\<lambda>ob. ob\<lparr>userData := 0\<rparr>" and c = "clock_context\<lparr>objectList := [security_object, clock_object]\<rparr>"
        and env = clock_env and h = good_host and now = 5 and err = "[]" and buffer = "[0x50, 1, 0, 7, 0xB1, 0x30]" and len = 6 and session = 9]
    by simp
qed

section \<open>Blocks\<close>

text \<open>C37: A payload that is sent in blocks, all but the last of the size of a block, each repeated any number of times with its
  message identifier, is put together: every block but the last is answered with 2.31, the last hands over the
  whole payload each time, whatever an earlier transfer left behind.  A payload of one block may have any length, one of several
  has less than 4096 bytes.\<close>

theorem blocks_reassembled:
  assumes "parts_ok (unat z) ps" "ps \<noteq> []" "16 \<le> unat z" "length ps = 1 \<or> length (whole ps) < 4096"
  shows "receive_blocks z d (transfer 0 ps) =
    Inr (Some \<lparr>block1buffer = Some (whole ps), block1bufferSize = length (whole ps), lastmid = fst (last ps)\<rparr>, answers [] ps)"
  using receive_payload [OF assms] by (simp add: holds_def)

lemma blocks_reassembled_witness:
  "let ps = [(7, 1, replicate 16 0xAA), (8, 0, replicate 16 0xBB), (9, 2, [1, 2 :: u8])]; d = Some \<lparr>block1buffer = Some [9], block1bufferSize = 1, lastmid = 6\<rparr>
   in receive_blocks 16 d (transfer 0 ps) =
     Inr (Some \<lparr>block1buffer = Some (replicate 16 0xAA @ replicate 16 0xBB @ [1, 2]), block1bufferSize = 34, lastmid = 9\<rparr>, answers [] ps)"
  using blocks_reassembled [of 16 "[(7, 1, replicate 16 0xAA), (8, 0, replicate 16 0xBB), (9, 2, [1, 2])]"
      "Some \<lparr>block1buffer = Some [9], block1bufferSize = 1, lastmid = 6\<rparr>"]
  by (simp add: whole_def)

section \<open>Observations\<close>


lemma observation_handled:
  assumes "xiny_utils_findServer (serverList c) session = Some sv" "may_manage (status sv)"
    and "altPath c = None" "proper_uri u" "objectId u \<noteq> 0"
    and "prepared p" "coap_code p = COAP_GET" "coap_uri_path p = uri_segments u" "observing p" "coap_token p \<noteq> []"
    and "reads_tlv (objectList c) u ds" "\<And>n. length (junk env n) = n" "\<And>n. alloc h n" "\<And>s b. net h s b = COAP_NO_ERROR"
    and "bytes = fst (xiny_coap_serialize_message p)" "length bytes < 65536"
    and got: "prv_getWatcher (observedList c) u (secObjInstID sv) = (os, w)"
  shows "\<exists>v r. xiny_lwm2m_handle_packet env h now c err bytes (length bytes) session =
      Inr (Some ((after_reply p c)\<lparr>observedList := put_watcher u (new_watcher now (as_received p) (reply_mid c p) v w) os\<rparr>, err,
        [Sent session (fst (xiny_coap_serialize_message r))], []))
    \<and> prepared r \<and> reply_to c p r \<and> coap_code r = COAP_205_CONTENT \<and> xiny_coap_get_header_observe r = Some (0x00FFFFFF AND counter w)
    \<and> xiny_lwm2m_data_parse u (coap_payload r) LWM2M_CONTENT_TLV = map as_read ds"
proof -
  let ?p = "as_received p"
  have p: "observing ?p" "after_reply ?p = (after_reply p :: 's lwm2m_context \<Rightarrow> 's lwm2m_context)" "reply_mid c ?p = reply_mid c p"
    "reply_to c ?p = reply_to c p"
    using assms(9) by (simp_all add: observing_def after_reply_def fun_eq_iff reply_mid_def reply_to_def reply_type_def)
  have len: "length (coap_token p) \<le> 8"
    using prepared_ok [OF assms(6)] by (simp add: packet_ok_def short_bytes_def)
  obtain v r where answer: "answer_request env h now c session ?p = Inr (Some (COAP_NO_ERROR,
      (after_reply p c)\<lparr>observedList := put_watcher u (new_watcher now ?p (reply_mid c p) v w) os\<rparr>,
      [Sent session (fst (xiny_coap_serialize_message r))]))"
    and r: "prepared r" "reply_to c p r" "coap_code r = COAP_205_CONTENT" "xiny_coap_get_header_observe r = Some (0x00FFFFFF AND counter w)"
      "xiny_lwm2m_data_parse u (coap_payload r) LWM2M_CONTENT_TLV = map as_read ds"
    using observe_answered [OF assms(1-5) _ _ p(1) _ _ assms(11,12) got assms(13,14), of now] assms(7,8,10) len
    unfolding p(2-4) as_received_simps by auto
  have "COAP_GET \<le> coap_code p" "coap_code p \<le> COAP_DELETE" using assms(7) by (simp_all add: COAP_GET_def COAP_DELETE_def)
  then have "xiny_lwm2m_handle_packet env h now c err bytes (length bytes) session =
      Inr (Some ((after_reply p c)\<lparr>observedList := put_watcher u (new_watcher now ?p (reply_mid c p) v w) os\<rparr>, err,
        [Sent session (fst (xiny_coap_serialize_message r))], []))"
    using answer prepared_received [OF assms(6)] assms(15,16) by (simp add: xiny_lwm2m_handle_packet_def send_error_def)
  then show ?thesis using r by blast
qed

text \<open>C39: A GET with Observe 0 and a token, of a path that a registered server may read, is answered once, with the data and with
  the number of the observation, and then there is an active watcher of the path for this server with the token of the
  request, which remembers the identifier of the response; nothing else of the client changes but the identifier that a
  response without request of its own takes.\<close>

theorem observation_begins:
  assumes "xiny_utils_findServer (serverList c) session = Some sv" "may_manage (status sv)"
    and "altPath c = None" "proper_uri u" "objectId u \<noteq> 0"
    and "prepared p" "coap_code p = COAP_GET" "coap_uri_path p = uri_segments u" "observing p" "coap_token p \<noteq> []"
    and "reads_tlv (objectList c) u ds" "\<And>n. length (junk env n) = n" "\<And>n. alloc h n" "\<And>s b. net h s b = COAP_NO_ERROR"
    and "bytes = fst (xiny_coap_serialize_message p)" "length bytes < 65536"
  shows "\<exists>os b r x w. xiny_lwm2m_handle_packet env h now c err bytes (length bytes) session =
      Inr (Some ((after_reply p c)\<lparr>observedList := os\<rparr>, err, [Sent session b], []))
    \<and> xiny_coap_parse_message b (length b) = Inr (COAP_NO_ERROR, None, r)
    \<and> reply_to c p r \<and> coap_code r = COAP_205_CONTENT \<and> xiny_lwm2m_data_parse u (coap_payload r) LWM2M_CONTENT_TLV = map as_read ds
    \<and> prv_findObserved os u = Some x \<and> prv_findWatcher x (secObjInstID sv) = Some w
    \<and> active w \<and> wtoken w = coap_token p \<and> lastTime w = now \<and> lastMid w = coap_mid r
    \<and> xiny_coap_get_header_observe r = Some (0x00FFFFFF AND (counter w - 1))"
proof -
  obtain os w where got: "prv_getWatcher (observedList c) u (secObjInstID sv) = (os, w)"
    by (cases "prv_getWatcher (observedList c) u (secObjInstID sv)")
  obtain v r where handled: "xiny_lwm2m_handle_packet env h now c err bytes (length bytes) session =
      Inr (Some ((after_reply p c)\<lparr>observedList := put_watcher u (new_watcher now (as_received p) (reply_mid c p) v w) os\<rparr>, err,
        [Sent session (fst (xiny_coap_serialize_message r))], []))"
    and r: "prepared r" "reply_to c p r" "coap_code r = COAP_205_CONTENT" "xiny_coap_get_header_observe r = Some (0x00FFFFFF AND counter w)"
      "xiny_lwm2m_data_parse u (coap_payload r) LWM2M_CONTENT_TLV = map as_read ds"
    using observation_handled [OF assms got, of now err] by blast
  let ?w = "new_watcher now (as_received p) (reply_mid c p) v w"
  obtain x0 where x0: "prv_findObserved os u = Some x0" "prv_findWatcher x0 (secObjInstID sv) = Some w" "server w = secObjInstID sv"
    using get_watcher_found [OF got] by blast
  have "server ?w = secObjInstID sv" using x0(3) by (simp add: new_watcher_def)
  then obtain x where x: "prv_findObserved (put_watcher u ?w os) u = Some x" "prv_findWatcher x (secObjInstID sv) = Some ?w"
    using put_watcher_found [OF x0(1), of ?w w] x0(2) by auto
  have "active ?w" "wtoken ?w = coap_token p" "lastTime ?w = now" "lastMid ?w = reply_mid c p" "counter ?w - 1 = counter w"
    by (simp_all add: new_watcher_def)
  moreover have "coap_mid r = reply_mid c p" using r(2) by (simp add: reply_to_def)
  moreover have "reply_to c p (as_received r)" "xiny_coap_get_header_observe (as_received r) = xiny_coap_get_header_observe r"
    using r(2) by (simp_all add: reply_to_def xiny_coap_get_header_observe_def)
  ultimately show ?thesis
    using handled prepared_received [OF r(1)] r x
    by (intro exI [of _ "put_watcher u ?w os"] exI [of _ "fst (xiny_coap_serialize_message r)"] exI [of _ "as_received r"] exI [of _ x]
        exI [of _ ?w]) simp
qed

definition clock_observe :: coap_packet where
  "clock_observe = xiny_coap_set_header_observe 0 clock_get"

lemma clock_observe_facts:
  "prepared clock_observe" "coap_code clock_observe = COAP_GET" "coap_uri_path clock_observe = uri_segments clock_uri"
  "observing clock_observe" "coap_token clock_observe \<noteq> []" "length (fst (xiny_coap_serialize_message clock_observe)) < 65536"
  "after_reply clock_observe clock_context = clock_context" "reply_mid clock_context clock_observe = 77"
proof -
  note observe = clock_observe_def xiny_coap_set_header_observe_def
  show p: "prepared clock_observe" unfolding clock_observe_def by (rule prepared.observe [OF clock_get_facts(1)])
  show "coap_code clock_observe = COAP_GET" "coap_uri_path clock_observe = uri_segments clock_uri" "coap_token clock_observe \<noteq> []"
    "after_reply clock_observe clock_context = clock_context" "reply_mid clock_context clock_observe = 77"
    using clock_get_facts(2,3,5-7) by (simp_all add: observe after_reply_def reply_mid_def)
  show "observing clock_observe"
    using clock_get_facts(4) by (simp add: observing_def observe plain_def) (simp add: coap_option_defs)
  have "xiny_coap_serialize_get_size clock_observe < 65536"
    by (simp add: xiny_coap_serialize_get_size_def option_size_def observe get_defs no_options coap_option_defs)
      (simp add: empty_defs multi_size_def COAP_HEADER_LEN_def COAP_MAX_OPTION_HEADER_LEN_def)
  moreover have "max_age clock_observe = 0" "coap_size clock_observe = 0" by (simp_all add: observe get_defs empty_defs)
  ultimately show "length (fst (xiny_coap_serialize_message clock_observe)) < 65536"
    using message_fits [OF prepared_ok [OF p]] by simp
qed

lemma clock_reads: "reads_tlv (objectList clock_context) clock_uri clock_data"
  using clock_facts(4-6,8) by (simp add: reads_tlv_def)

lemma clock_hosts: "\<And>n. length (junk clock_env n) = n" "\<And>n. alloc good_host n" "\<And>s b. net good_host s b = COAP_NO_ERROR"
  by (simp_all add: good_host_def clock_env_def)

lemma observation_begins_witness:
  "\<exists>os b r x w. xiny_lwm2m_handle_packet clock_env good_host 1700000000 clock_context [] (fst (xiny_coap_serialize_message clock_observe))
        (length (fst (xiny_coap_serialize_message clock_observe))) 9 =
      Inr (Some (clock_context\<lparr>observedList := os\<rparr>, [], [Sent 9 b], []))
    \<and> xiny_coap_parse_message b (length b) = Inr (COAP_NO_ERROR, None, r) \<and> coap_code r = COAP_205_CONTENT
    \<and> prv_findObserved os clock_uri = Some x \<and> prv_findWatcher x 1 = Some w \<and> active w \<and> lastMid w = coap_mid r"
proof -
  have sid: "secObjInstID clock_server = 1" by (simp add: clock_server_def)
  show ?thesis
    using observation_begins [OF clock_facts(2,3,9,1,7) clock_observe_facts(1-5) clock_reads clock_hosts refl clock_observe_facts(6),
        where err = "[]" and now = 1700000000]
    unfolding clock_observe_facts(7) sid by blast
qed






end
